(* ===== verification/Go_Prelude.thy ===== *)
theory Go_Prelude
  imports Main "HOL-Library.Word" "HOL-Library.AList" "HOL-Library.List_Lexorder"
    "HOL-Library.Char_ord"
begin

text \<open>
  What every component of the development shares: the parts of the Go language and of its
  standard library that the modelled code uses.

  \<^item> Unsigned machine integers are \<open>64 word\<close> (\<open>u64\<close>); Go's \<open>int\<close> counts of things held in
    memory are \<open>int\<close> or \<open>nat\<close>.
  \<^item> \<open>time.Time\<close> is an \<open>int\<close>: the nanoseconds since Go's zero time, so \<open>IsZero\<close> is
    \<open>t = 0\<close> and \<open>Before\<close>, \<open>After\<close>, \<open>Equal\<close> are the order of the integers.
    \<open>time.Duration\<close> is a signed 64-bit count of nanoseconds; \<open>t.Sub(u)\<close> saturates, which
    \<open>time_sub\<close> writes out.
  \<^item> A Go string is its list of bytes, ordered bytewise, as \<open>List_Lexorder\<close> over \<open>Char_ord\<close>
    orders \<open>string\<close>.
  \<^item> A Go map is an association list with pairwise different keys. The order of the list is
    the order in which \<open>range\<close> happens to visit the map, so it is part of the input of a model
    and never part of what a lemma promises.
\<close>

type_synonym u64 = "64 word"
type_synonym time = int
type_synonym duration = int

named_theorems go_simps "unfolding rules for the small Go library functions"

subsection \<open>Times and durations\<close>

definition max_int64 :: int where
  "max_int64 = 2 ^ 63 - 1"

definition min_int64 :: int where
  "min_int64 = - (2 ^ 63)"

definition sat64 :: "int \<Rightarrow> int" where
  "sat64 x = (if x > max_int64 then max_int64 else if x < min_int64 then min_int64 else x)"

definition time_sub :: "time \<Rightarrow> time \<Rightarrow> duration" where
  "time_sub t u = sat64 (t - u)"

definition is_zero_time :: "time \<Rightarrow> bool" where
  "is_zero_time t \<longleftrightarrow> t = 0"

definition second :: duration where
  "second = 1000000000"

definition millisecond :: duration where
  "millisecond = 1000000"

definition minute :: duration where
  "minute = 60 * second"

text \<open>
  A comparison of a saturated difference with a bound that is itself representable is the
  comparison of the exact difference, except at the two end points of the range.
\<close>

lemma time_sub_gt [simp]: "min_int64 \<le> d \<Longrightarrow> d < max_int64 \<Longrightarrow> time_sub t u > d \<longleftrightarrow> t - u > d"
  by (auto simp: time_sub_def sat64_def max_int64_def min_int64_def)

lemma time_sub_le [simp]: "min_int64 \<le> d \<Longrightarrow> d < max_int64 \<Longrightarrow> time_sub t u \<le> d \<longleftrightarrow> t - u \<le> d"
  by (auto simp: time_sub_def sat64_def max_int64_def min_int64_def)

lemma time_sub_ge [simp]: "min_int64 < d \<Longrightarrow> d \<le> max_int64 \<Longrightarrow> d \<le> time_sub t u \<longleftrightarrow> d \<le> t - u"
  by (auto simp: time_sub_def sat64_def max_int64_def min_int64_def)

lemma time_sub_exact:
  "min_int64 \<le> t - u \<Longrightarrow> t - u \<le> max_int64 \<Longrightarrow> time_sub t u = t - u"
  by (simp add: time_sub_def sat64_def)

lemma is_zero_time_iff [simp]: "is_zero_time t \<longleftrightarrow> t = 0"
  by (simp add: is_zero_time_def)

declare is_zero_time_def [go_simps] time_sub_def [go_simps] sat64_def [go_simps]
  max_int64_def [go_simps] min_int64_def [go_simps] second_def [go_simps]
  millisecond_def [go_simps] minute_def [go_simps]

subsection \<open>Digits\<close>

text \<open>\<open>strconv.Itoa\<close>, which is also \<open>%d\<close> of \<open>fmt\<close>, and a hexadecimal digit in lower case.\<close>

fun decimal :: "nat \<Rightarrow> string" where
  "decimal n = (if n < 10 then [char_of (48 + n)] else decimal (n div 10) @ [char_of (48 + n mod 10)])"

declare decimal.simps [simp del]

definition itoa :: "int \<Rightarrow> string" where
  "itoa i = (if i < 0 then CHR ''-'' # decimal (nat (- i)) else decimal (nat i))"

definition hex_digit :: "nat \<Rightarrow> char" where
  "hex_digit d = (if d < 10 then char_of (48 + d) else char_of (87 + d))"

subsection \<open>Maps\<close>

type_synonym ('k, 'v) gomap = "('k \<times> 'v) list"

definition mget :: "('k, 'v) gomap \<Rightarrow> 'k \<Rightarrow> 'v option" where
  "mget m k = map_of m k"

definition mput :: "'k \<Rightarrow> 'v \<Rightarrow> ('k, 'v) gomap \<Rightarrow> ('k, 'v) gomap" where
  "mput k v m = AList.update k v m"

definition mdel :: "'k \<Rightarrow> ('k, 'v) gomap \<Rightarrow> ('k, 'v) gomap" where
  "mdel k m = AList.delete k m"

definition mlen :: "('k, 'v) gomap \<Rightarrow> nat" where
  "mlen m = length m"

definition mkeys :: "('k, 'v) gomap \<Rightarrow> 'k list" where
  "mkeys m = map fst m"

definition mwf :: "('k, 'v) gomap \<Rightarrow> bool" where
  "mwf m \<longleftrightarrow> distinct (map fst m)"

text \<open>\<open>for k, v := range m { if bad { delete(m, k) } }\<close>\<close>

definition mkeep :: "('k \<Rightarrow> 'v \<Rightarrow> bool) \<Rightarrow> ('k, 'v) gomap \<Rightarrow> ('k, 'v) gomap" where
  "mkeep P m = filter (\<lambda>(k, v). P k v) m"

text \<open>\<open>m[k]\<close> of a key that is absent is the zero value of the element type.\<close>

definition mget0 :: "'v \<Rightarrow> ('k, 'v) gomap \<Rightarrow> 'k \<Rightarrow> 'v" where
  "mget0 z m k = (case mget m k of None \<Rightarrow> z | Some v \<Rightarrow> v)"

lemma mget_mput: "mget (mput k v m) j = (if j = k then Some v else mget m j)"
  by (simp add: mget_def mput_def update_conv)

lemma mget_mdel: "mget (mdel k m) j = (if j = k then None else mget m j)"
  by (simp add: mget_def mdel_def delete_conv)

lemma mget_Nil [simp]: "mget [] k = None"
  by (simp add: mget_def)

lemma mwf_Nil [simp]: "mwf []"
  by (simp add: mwf_def)

lemma mwf_mput: "mwf m \<Longrightarrow> mwf (mput k v m)"
  by (simp add: mwf_def mput_def distinct_update)

lemma mwf_mdel: "mwf m \<Longrightarrow> mwf (mdel k m)"
  by (simp add: mwf_def mdel_def distinct_delete)

lemma mwf_mkeep: "mwf m \<Longrightarrow> mwf (mkeep P m)"
  by (induction m) (auto simp: mwf_def mkeep_def)

lemma set_mkeys: "k \<in> set (mkeys m) \<longleftrightarrow> mget m k \<noteq> None"
  by (simp add: mkeys_def mget_def map_of_eq_None_iff)

lemma mget_in_iff: "mwf m \<Longrightarrow> mget m k = Some v \<longleftrightarrow> (k, v) \<in> set m"
  by (simp add: mwf_def mget_def)

lemma mget_SomeD: "mget m k = Some v \<Longrightarrow> (k, v) \<in> set m"
  by (simp add: mget_def map_of_SomeD)

lemma mget_mkeep_Some:
  "mwf m \<Longrightarrow> mget (mkeep P m) k = Some v \<longleftrightarrow> mget m k = Some v \<and> P k v"
  by (simp add: mget_in_iff mwf_mkeep) (auto simp: mkeep_def)

lemma mget_mkeep:
  "mwf m \<Longrightarrow> mget (mkeep P m) k
    = (case mget m k of None \<Rightarrow> None | Some v \<Rightarrow> if P k v then Some v else None)"
proof (cases "mget m k")
  case None
  assume "mwf m"
  with None show ?thesis
    using mget_mkeep_Some [OF \<open>mwf m\<close>, of P k "the (mget (mkeep P m) k)"]
    by (cases "mget (mkeep P m) k") simp_all
next
  case (Some v)
  assume "mwf m"
  with Some show ?thesis
    using mget_mkeep_Some [OF \<open>mwf m\<close>, of P k v]
      mget_mkeep_Some [OF \<open>mwf m\<close>, of P k "the (mget (mkeep P m) k)"]
    by (cases "mget (mkeep P m) k") auto
qed

lemma dom_mget: "dom (mget m) = fst ` set m"
  by (simp add: mget_def [abs_def] dom_map_of_conv_image_fst)

lemma mlen_card: "mwf m \<Longrightarrow> mlen m = card (dom (mget m))"
  unfolding mlen_def mwf_def dom_mget
  by (metis distinct_card length_map set_map)

lemma finite_dom_mget [simp]: "finite (dom (mget m))"
  by (simp add: dom_mget)

lemma dom_mput: "dom (mget (mput k v m)) = insert k (dom (mget m))"
  by (auto simp: mget_mput split: if_splits)

lemma dom_mdel: "dom (mget (mdel k m)) = dom (mget m) - {k}"
  by (auto simp: mget_mdel split: if_splits)

lemma mlen_mput: "mwf m \<Longrightarrow> mlen (mput k v m) = (if mget m k = None then Suc (mlen m) else mlen m)"
  by (simp add: mlen_card mwf_mput dom_mput card_insert_if) (simp add: domIff)

lemma mlen_mdel: "mwf m \<Longrightarrow> mlen (mdel k m) = (if mget m k = None then mlen m else mlen m - 1)"
  by (cases "mget m k") (auto simp: mlen_card mwf_mdel dom_mdel card_Diff_singleton_if domIff)

lemma mlen_mkeep_le: "mlen (mkeep P m) \<le> mlen m"
  by (simp add: mlen_def mkeep_def)

lemma mlen_Nil [simp]: "mlen [] = 0"
  by (simp add: mlen_def)

lemma set_mkeep: "set (mkeep P m) = {(k, v). (k, v) \<in> set m \<and> P k v}"
  by (auto simp: mkeep_def)

subsection \<open>The interface of a keyed map\<close>

text \<open>
  What the bounded stores of the program rely on. The laws are those of a Go map; the two
  lemmas are the two ways in which the stores insert: into a free slot or over a present key,
  and after having removed another entry.
\<close>

locale keyed_map =
  fixes get :: "'m \<Rightarrow> 'k \<Rightarrow> 'v option"
    and put :: "'k \<Rightarrow> 'v \<Rightarrow> 'm \<Rightarrow> 'm"
    and del :: "'k \<Rightarrow> 'm \<Rightarrow> 'm"
    and entries :: "'m \<Rightarrow> nat"
    and inv :: "'m \<Rightarrow> bool"
  assumes get_put: "get (put k v m) j = (if j = k then Some v else get m j)"
    and get_del: "get (del k m) j = (if j = k then None else get m j)"
    and inv_put: "inv m \<Longrightarrow> inv (put k v m)"
    and inv_del: "inv m \<Longrightarrow> inv (del k m)"
    and entries_put: "inv m \<Longrightarrow>
      entries (put k v m) = (if get m k = None then Suc (entries m) else entries m)"
    and entries_del: "inv m \<Longrightarrow>
      entries (del k m) = (if get m k = None then entries m else entries m - 1)"
    and entries_present: "inv m \<Longrightarrow> get m k \<noteq> None \<Longrightarrow> 0 < entries m"
begin

lemma put_within:
  assumes "inv m" and "entries m \<le> cap" and "get m k = None \<Longrightarrow> entries m < cap"
  shows "entries (put k v m) \<le> cap"
  using assms by (auto simp: entries_put)

lemma replace_within:
  assumes "inv m" and "get m old \<noteq> None"
  shows "entries (put k v (del old m)) \<le> entries m"
  using assms entries_present [OF assms] by (auto simp: entries_put entries_del inv_del)

lemma del_within: "inv m \<Longrightarrow> entries (del k m) \<le> entries m"
  by (simp add: entries_del)

end

lemmas gomap_simps = mget_mput mget_mdel mwf_mput mwf_mdel mwf_mkeep mlen_mput mlen_mdel

lemma mlen_present: "mget m k \<noteq> None \<Longrightarrow> 0 < mlen m"
  by (cases m) (auto simp: mlen_def)

interpretation gm: keyed_map mget mput mdel mlen mwf
  by unfold_locales (simp_all add: gomap_simps mlen_present)

lemma mget_map_values:
  "mget (map (\<lambda>(k, v). (k, f k v)) m) k = map_option (f k) (mget m k)"
  by (induction m) (auto simp: mget_def)

lemma mwf_map_values: "mwf (map (\<lambda>(k, v). (k, f k v)) m) = mwf m"
  by (simp add: mwf_def case_prod_beta' comp_def)

lemma mget0_simps [simp]:
  "mget m k = None \<Longrightarrow> mget0 z m k = z"
  "mget m k = Some v \<Longrightarrow> mget0 z m k = v"
  by (simp_all add: mget0_def)

end
