(* ===== verification/Go_Float.thy ===== *)
theory Go_Float
  imports Go_Prelude Complex_Main "HOL-Library.Log_Nat"
begin

text \<open>
  Go's \<open>float64\<close>: IEEE 754 binary64. A finite value is the rational it denotes; the two zeros
  are one value here, since no modelled code tells them apart (it neither divides by a
  computed zero nor prints a sign). Comparisons are exact; arithmetic is the exact rational
  operation rounded to nearest, ties to even, with overflow to infinity, by \<open>rnd64\<close>.
\<close>

datatype f64 = FNaN | FInf bool | Fin rat

fun f64_lt :: "f64 \<Rightarrow> f64 \<Rightarrow> bool" where
  "f64_lt (Fin a) (Fin b) = (a < b)"
| "f64_lt (Fin a) (FInf neg) = (\<not> neg)"
| "f64_lt (FInf neg) (Fin b) = neg"
| "f64_lt (FInf n1) (FInf n2) = (n1 \<and> \<not> n2)"
| "f64_lt _ _ = False"

fun f64_eq :: "f64 \<Rightarrow> f64 \<Rightarrow> bool" where
  "f64_eq (Fin a) (Fin b) = (a = b)"
| "f64_eq (FInf n1) (FInf n2) = (n1 = n2)"
| "f64_eq _ _ = False"

definition f64_le :: "f64 \<Rightarrow> f64 \<Rightarrow> bool" where
  "f64_le a b \<longleftrightarrow> f64_lt a b \<or> f64_eq a b"

definition f64_zero :: f64 where
  "f64_zero = Fin 0"

fun isNaN :: "f64 \<Rightarrow> bool" where
  "isNaN FNaN = True"
| "isNaN _ = False"

fun isInf :: "f64 \<Rightarrow> bool" where
  "isInf (FInf _) = True"
| "isInf _ = False"

subsection \<open>Rounding\<close>

definition pow2 :: "int \<Rightarrow> rat" where
  "pow2 e = (if 0 \<le> e then 2 ^ nat e else 1 / 2 ^ nat (- e))"

text \<open>The exponent of the binade of a positive rational \<open>n / d\<close>.\<close>

definition binade :: "rat \<Rightarrow> int" where
  "binade q = (let (n, d) = quotient_of q; k = bitlen n - bitlen d
     in if of_int d * pow2 k \<le> of_int n then k else k - 1)"

definition round_half_even :: "rat \<Rightarrow> int" where
  "round_half_even q = (let f = \<lfloor>q\<rfloor>; r = q - of_int f
     in if r < 1 / 2 then f else if r > 1 / 2 then f + 1 else if even f then f else f + 1)"

definition rnd64_pos :: "rat \<Rightarrow> f64" where
  "rnd64_pos q = (let u = max (binade q - 52) (- 1074);
       r = of_int (round_half_even (q / pow2 u)) * pow2 u
     in if r < pow2 1024 then Fin r else FInf False)"

fun f64_neg :: "f64 \<Rightarrow> f64" where
  "f64_neg FNaN = FNaN"
| "f64_neg (FInf n) = FInf (\<not> n)"
| "f64_neg (Fin a) = Fin (- a)"

definition rnd64 :: "rat \<Rightarrow> f64" where
  "rnd64 q = (if q = 0 then Fin 0 else if q > 0 then rnd64_pos q else f64_neg (rnd64_pos (- q)))"

definition f64_of_u64 :: "u64 \<Rightarrow> f64" where
  "f64_of_u64 w = rnd64 (of_nat (unat w))"

text \<open>Division by a nonzero finite value; every modelled division tests its divisor first.\<close>

fun f64_div :: "f64 \<Rightarrow> f64 \<Rightarrow> f64" where
  "f64_div (Fin a) (Fin b) =
     (if b \<noteq> 0 then rnd64 (a / b) else if a = 0 then FNaN else FInf (a < 0))"
| "f64_div (Fin a) (FInf n) = Fin 0"
| "f64_div (FInf n) (Fin b) = FInf (n \<noteq> (b < 0))"
| "f64_div _ _ = FNaN"

subsection \<open>Facts about comparison\<close>

lemma f64_lt_irrefl [simp]: "\<not> f64_lt a a"
  by (cases a) auto

lemma f64_lt_trans: "f64_lt a b \<Longrightarrow> f64_lt b c \<Longrightarrow> f64_lt a c"
  by (cases a; cases b; cases c) auto

lemma f64_lt_total: "\<not> isNaN a \<Longrightarrow> \<not> isNaN b \<Longrightarrow> f64_lt a b \<or> a = b \<or> f64_lt b a"
  by (cases a; cases b) auto

lemma f64_lt_asym: "f64_lt a b \<Longrightarrow> \<not> f64_lt b a"
  by (cases a; cases b) auto

lemma f64_eq_iff: "f64_eq a b \<longleftrightarrow> a = b \<and> \<not> isNaN a"
  by (cases a; cases b) auto

lemma f64_le_zero_finite:
  "\<not> isNaN v \<Longrightarrow> \<not> isInf v \<Longrightarrow> \<not> f64_lt v f64_zero \<Longrightarrow> \<not> f64_lt (Fin 100) v \<Longrightarrow>
   \<exists>q. v = Fin q \<and> 0 \<le> q \<and> q \<le> 100"
  by (cases v) (auto simp: f64_zero_def)

end
