(* ===== verification/Memory_Model.thy ===== *)
theory Memory_Model
  imports Go_Float "HOL-Library.Multiset"
begin

text \<open>
  Package \<open>internal/model\<close>: the memory breakdown of one cgroup (\<open>memory.go\<close>), its counter
  deltas, its sum over cgroups (\<open>aggregate.go\<close>) and the I/O pressure observation it carries
  (\<open>io_pressure.go\<close>). Byte counts and counters are \<open>u64\<close> and wrap as Go's do.

  The lemmas: the composition is a partition of the charge, deltas never wrap, an I/O
  observation stays valid when the store derives its deltas, sums are the sums modulo
  \<open>2 ^ 64\<close> whatever the order of the cgroups.
\<close>

subsection \<open>I/O pressure\<close>

definition IOAvailable :: string where
  "IOAvailable = ''available''"

definition IOUnreported :: string where
  "IOUnreported = ''unreported''"

definition IOUnavailable :: string where
  "IOUnavailable = ''unavailable''"

definition IOInvalid :: string where
  "IOInvalid = ''invalid-response''"

lemmas io_state_defs = IOAvailable_def IOUnreported_def IOUnavailable_def IOInvalid_def

record psi_window =
  Avg10 :: f64
  Avg60 :: f64
  Avg300 :: f64
  TotalMicros :: u64

record io_pressure =
  io_State :: string
  io_Some :: psi_window
  io_Full :: psi_window
  CounterReset :: bool
  DeltaKnown :: bool
  SomeDeltaMicros :: u64
  FullDeltaMicros :: u64

definition psi_zero :: psi_window where
  "psi_zero = \<lparr>Avg10 = f64_zero, Avg60 = f64_zero, Avg300 = f64_zero, TotalMicros = 0\<rparr>"

text \<open>\<open>IOPressure{State: s}\<close>\<close>

definition io_of_state :: "string \<Rightarrow> io_pressure" where
  "io_of_state s = \<lparr>io_State = s, io_Some = psi_zero, io_Full = psi_zero, CounterReset = False,
     DeltaKnown = False, SomeDeltaMicros = 0, FullDeltaMicros = 0\<rparr>"

definition io_zero :: io_pressure where
  "io_zero = io_of_state ''''"

text \<open>Go's \<open>==\<close> on the structs compares floats as floats: a NaN differs from itself.\<close>

definition psi_eq :: "psi_window \<Rightarrow> psi_window \<Rightarrow> bool" where
  "psi_eq a b \<longleftrightarrow> f64_eq (Avg10 a) (Avg10 b) \<and> f64_eq (Avg60 a) (Avg60 b) \<and>
     f64_eq (Avg300 a) (Avg300 b) \<and> TotalMicros a = TotalMicros b"

definition io_eq :: "io_pressure \<Rightarrow> io_pressure \<Rightarrow> bool" where
  "io_eq a b \<longleftrightarrow> io_State a = io_State b \<and> psi_eq (io_Some a) (io_Some b) \<and>
     psi_eq (io_Full a) (io_Full b) \<and> CounterReset a = CounterReset b \<and>
     DeltaKnown a = DeltaKnown b \<and> SomeDeltaMicros a = SomeDeltaMicros b \<and>
     FullDeltaMicros a = FullDeltaMicros b"

definition valid_percent :: "f64 \<Rightarrow> bool" where
  "valid_percent v \<longleftrightarrow> \<not> (isNaN v \<or> isInf v \<or> f64_lt v f64_zero \<or> f64_lt (Fin 100) v)"

definition psi_percent_ok :: "psi_window \<Rightarrow> bool" where
  "psi_percent_ok w \<longleftrightarrow> valid_percent (Avg10 w) \<and> valid_percent (Avg60 w) \<and> valid_percent (Avg300 w)"

text \<open>\<open>IOPressure.Validate\<close>: \<open>True\<close> is a nil error; every failure returns the same error.\<close>

definition io_Validate :: "io_pressure \<Rightarrow> bool" where
  "io_Validate p =
    (if io_eq p io_zero then True
     else if io_State p = IOUnreported \<or> io_State p = IOUnavailable \<or> io_State p = IOInvalid
       then io_eq p (io_of_state (io_State p))
     else if io_State p = IOAvailable then
       (if \<not> (psi_percent_ok (io_Some p) \<and> psi_percent_ok (io_Full p)) then False
        else if (CounterReset p \<and> DeltaKnown p) \<or>
            (\<not> DeltaKnown p \<and> (SomeDeltaMicros p \<noteq> 0 \<or> FullDeltaMicros p \<noteq> 0)) \<or>
            SomeDeltaMicros p > TotalMicros (io_Some p) \<or>
            FullDeltaMicros p > TotalMicros (io_Full p) then False
        else True)
     else False)"

definition withIODeltas :: "io_pressure \<Rightarrow> io_pressure \<Rightarrow> bool \<Rightarrow> io_pressure" where
  "withIODeltas current previous sameInstance =
    (if io_eq current io_zero then current
     else let p = current\<lparr>CounterReset := False, DeltaKnown := False,
                SomeDeltaMicros := 0, FullDeltaMicros := 0\<rparr> in
       if \<not> sameInstance \<or> io_State p \<noteq> IOAvailable \<or> io_State previous \<noteq> IOAvailable then p
       else if TotalMicros (io_Some p) < TotalMicros (io_Some previous) \<or>
               TotalMicros (io_Full p) < TotalMicros (io_Full previous)
         then p\<lparr>CounterReset := True\<rparr>
       else p\<lparr>DeltaKnown := True,
           SomeDeltaMicros := TotalMicros (io_Some p) - TotalMicros (io_Some previous),
           FullDeltaMicros := TotalMicros (io_Full p) - TotalMicros (io_Full previous)\<rparr>)"

lemma word_diff_le: "(b :: u64) \<le> a \<Longrightarrow> a - b \<le> a"
  by (simp add: word_sub_le)

lemma withIODeltas_zero: "io_eq c io_zero \<Longrightarrow> withIODeltas c p s = c"
  by (simp add: withIODeltas_def)

lemma withIODeltas_frame:
  "io_State (withIODeltas c p s) = io_State c"
  "io_Some (withIODeltas c p s) = io_Some c"
  "io_Full (withIODeltas c p s) = io_Full c"
  by (simp_all add: withIODeltas_def Let_def)

lemma io_Validate_states:
  assumes "io_Validate p" and "\<not> io_eq p io_zero"
  shows "(io_State p \<in> {IOUnreported, IOUnavailable, IOInvalid} \<and> io_eq p (io_of_state (io_State p)))
    \<or> (io_State p = IOAvailable \<and> psi_percent_ok (io_Some p) \<and> psi_percent_ok (io_Full p))"
  using assms by (auto simp: io_Validate_def split: if_splits)

lemma withIODeltas_counters:
  fixes c p :: io_pressure and same :: bool
  assumes "\<not> io_eq c io_zero"
  defines "q \<equiv> withIODeltas c p same"
  shows "\<not> (CounterReset q \<and> DeltaKnown q)"
    and "\<not> DeltaKnown q \<longrightarrow> SomeDeltaMicros q = 0 \<and> FullDeltaMicros q = 0"
    and "SomeDeltaMicros q \<le> TotalMicros (io_Some c)"
    and "FullDeltaMicros q \<le> TotalMicros (io_Full c)"
  using assms(1) unfolding q_def withIODeltas_def Let_def
  by (simp_all add: not_less word_diff_le)

lemma io_eq_state: "io_eq a b \<Longrightarrow> io_State a = io_State b"
  by (simp add: io_eq_def)

lemma io_of_state_simps [simp]: "io_State (io_of_state s) = s" "io_State io_zero = ''''"
  by (simp_all add: io_of_state_def io_zero_def)

text \<open>What the store derives from a valid observation is again a valid observation.\<close>

lemma io_Validate_withIODeltas:
  assumes "io_Validate c"
  shows "io_Validate (withIODeltas c p same)"
proof (cases "io_eq c io_zero")
  case True
  with assms show ?thesis by (simp add: withIODeltas_zero)
next
  case nz: False
  let ?q = "withIODeltas c p same"
  from io_Validate_states [OF assms nz] show ?thesis
  proof
    assume a: "io_State c \<in> {IOUnreported, IOUnavailable, IOInvalid} \<and> io_eq c (io_of_state (io_State c))"
    then have "io_eq ?q (io_of_state (io_State c))"
      by (auto simp: withIODeltas_def Let_def io_eq_def io_of_state_def io_state_defs)
    with a show ?thesis
      by (auto simp: io_Validate_def withIODeltas_frame)
  next
    assume a: "io_State c = IOAvailable \<and> psi_percent_ok (io_Some c) \<and> psi_percent_ok (io_Full c)"
    then have "\<not> io_eq ?q io_zero"
      by (auto dest: io_eq_state simp: withIODeltas_frame IOAvailable_def)
    with a withIODeltas_counters [OF nz, of p same] show ?thesis
      by (auto simp add: io_Validate_def withIODeltas_frame io_state_defs not_less)
  qed
qed

subsection \<open>The breakdown\<close>

record memory_breakdown =
  mb_Name :: string
  IOPressure :: io_pressure
  TotalBytes :: u64
  AnonBytes :: u64
  FileBytes :: u64
  ActiveFileBytes :: u64
  InactiveFileBytes :: u64
  ShmemBytes :: u64
  SlabBytes :: u64
  SlabReclaimableBytes :: u64
  SlabUnreclaimableBytes :: u64
  KernelBytes :: u64
  SocketBytes :: u64
  PageTableBytes :: u64
  FileMappedBytes :: u64
  AnonTHPBytes :: u64
  FileTHPBytes :: u64
  ShmemTHPBytes :: u64
  DirtyBytes :: u64
  WritebackBytes :: u64
  PeakBytes :: u64
  PeakKnown :: bool
  MinBytes :: u64
  MinKnown :: bool
  MinUnlimited :: bool
  LowBytes :: u64
  LowKnown :: bool
  LowUnlimited :: bool
  HighBytes :: u64
  HighKnown :: bool
  HighUnlimited :: bool
  MaxBytes :: u64
  MaxKnown :: bool
  MaxUnlimited :: bool
  SwapCurrentBytes :: u64
  SwapCurrentKnown :: bool
  SwapPeakBytes :: u64
  SwapPeakKnown :: bool
  SwapMaxBytes :: u64
  SwapMaxKnown :: bool
  SwapMaxUnlimited :: bool
  PressureKnown :: bool
  PSISomeAvg10 :: f64
  PSISomeAvg60 :: f64
  PSISomeAvg300 :: f64
  PSISomeTotalMicros :: u64
  PSIFullAvg10 :: f64
  PSIFullAvg60 :: f64
  PSIFullAvg300 :: f64
  PSIFullTotalMicros :: u64
  WorkingsetRefaultAnon :: u64
  WorkingsetRefaultFile :: u64
  PageScan :: u64
  PageSteal :: u64
  MajorPageFaults :: u64
  ReclaimCountersKnown :: bool
  ReclaimDeltasKnown :: bool
  RefaultAnonDelta :: u64
  RefaultFileDelta :: u64
  PageScanDelta :: u64
  PageStealDelta :: u64
  MajorPageFaultsDelta :: u64
  OOMEvents :: u64
  OOMKillEvents :: u64
  HighEvents :: u64
  MaxEvents :: u64
  LocalEventsKnown :: bool
  LocalOOMEvents :: u64
  LocalOOMKillEvents :: u64
  LocalHighEvents :: u64
  LocalMaxEvents :: u64
  SwapEventsKnown :: bool
  SwapHighEvents :: u64
  SwapMaxEvents :: u64
  SwapFailEvents :: u64
  EventDeltasKnown :: bool
  OOMEventsDelta :: u64
  OOMKillEventsDelta :: u64
  HighEventsDelta :: u64
  MaxEventsDelta :: u64
  LocalEventDeltasKnown :: bool
  LocalOOMEventsDelta :: u64
  LocalOOMKillEventsDelta :: u64
  LocalHighEventsDelta :: u64
  LocalMaxEventsDelta :: u64
  SwapEventDeltasKnown :: bool
  SwapHighEventsDelta :: u64
  SwapMaxEventsDelta :: u64
  SwapFailEventsDelta :: u64

text \<open>The zero value of the struct.\<close>

definition memory_zero :: memory_breakdown where
  "memory_zero = \<lparr>
     mb_Name = '''',
     IOPressure = io_zero,
     TotalBytes = 0,
     AnonBytes = 0,
     FileBytes = 0,
     ActiveFileBytes = 0,
     InactiveFileBytes = 0,
     ShmemBytes = 0,
     SlabBytes = 0,
     SlabReclaimableBytes = 0,
     SlabUnreclaimableBytes = 0,
     KernelBytes = 0,
     SocketBytes = 0,
     PageTableBytes = 0,
     FileMappedBytes = 0,
     AnonTHPBytes = 0,
     FileTHPBytes = 0,
     ShmemTHPBytes = 0,
     DirtyBytes = 0,
     WritebackBytes = 0,
     PeakBytes = 0,
     PeakKnown = False,
     MinBytes = 0,
     MinKnown = False,
     MinUnlimited = False,
     LowBytes = 0,
     LowKnown = False,
     LowUnlimited = False,
     HighBytes = 0,
     HighKnown = False,
     HighUnlimited = False,
     MaxBytes = 0,
     MaxKnown = False,
     MaxUnlimited = False,
     SwapCurrentBytes = 0,
     SwapCurrentKnown = False,
     SwapPeakBytes = 0,
     SwapPeakKnown = False,
     SwapMaxBytes = 0,
     SwapMaxKnown = False,
     SwapMaxUnlimited = False,
     PressureKnown = False,
     PSISomeAvg10 = f64_zero,
     PSISomeAvg60 = f64_zero,
     PSISomeAvg300 = f64_zero,
     PSISomeTotalMicros = 0,
     PSIFullAvg10 = f64_zero,
     PSIFullAvg60 = f64_zero,
     PSIFullAvg300 = f64_zero,
     PSIFullTotalMicros = 0,
     WorkingsetRefaultAnon = 0,
     WorkingsetRefaultFile = 0,
     PageScan = 0,
     PageSteal = 0,
     MajorPageFaults = 0,
     ReclaimCountersKnown = False,
     ReclaimDeltasKnown = False,
     RefaultAnonDelta = 0,
     RefaultFileDelta = 0,
     PageScanDelta = 0,
     PageStealDelta = 0,
     MajorPageFaultsDelta = 0,
     OOMEvents = 0,
     OOMKillEvents = 0,
     HighEvents = 0,
     MaxEvents = 0,
     LocalEventsKnown = False,
     LocalOOMEvents = 0,
     LocalOOMKillEvents = 0,
     LocalHighEvents = 0,
     LocalMaxEvents = 0,
     SwapEventsKnown = False,
     SwapHighEvents = 0,
     SwapMaxEvents = 0,
     SwapFailEvents = 0,
     EventDeltasKnown = False,
     OOMEventsDelta = 0,
     OOMKillEventsDelta = 0,
     HighEventsDelta = 0,
     MaxEventsDelta = 0,
     LocalEventDeltasKnown = False,
     LocalOOMEventsDelta = 0,
     LocalOOMKillEventsDelta = 0,
     LocalHighEventsDelta = 0,
     LocalMaxEventsDelta = 0,
     SwapEventDeltasKnown = False,
     SwapHighEventsDelta = 0,
     SwapMaxEventsDelta = 0,
     SwapFailEventsDelta = 0\<rparr>"

definition subtractFloor :: "u64 \<Rightarrow> u64 \<Rightarrow> u64" where
  "subtractFloor tot included = (if included \<ge> tot then 0 else tot - included)"

text \<open>The loop of \<open>subtractManyFloor\<close>, with \<open>remaining\<close> as its first argument.\<close>

fun subtractManyFloor :: "u64 \<Rightarrow> u64 list \<Rightarrow> u64" where
  "subtractManyFloor remaining [] = remaining"
| "subtractManyFloor remaining (value # included) =
     (if value \<ge> remaining then 0 else subtractManyFloor (remaining - value) included)"

definition counterDelta :: "u64 \<Rightarrow> u64 \<Rightarrow> u64" where
  "counterDelta current previous = (if current < previous then 0 else current - previous)"

definition ratio :: "u64 \<Rightarrow> u64 \<Rightarrow> f64" where
  "ratio part tot = (if tot = 0 then f64_zero else f64_div (f64_of_u64 part) (f64_of_u64 tot))"

definition FileCacheBytes :: "memory_breakdown \<Rightarrow> u64" where
  "FileCacheBytes m = subtractFloor (FileBytes m) (ShmemBytes m)"

definition RSSBytes :: "memory_breakdown \<Rightarrow> u64" where
  "RSSBytes m = AnonBytes m"

definition CacheBytes :: "memory_breakdown \<Rightarrow> u64" where
  "CacheBytes m = FileCacheBytes m"

definition KernelOtherBytes :: "memory_breakdown \<Rightarrow> u64" where
  "KernelOtherBytes m = subtractFloor (KernelBytes m) (SlabBytes m)"

definition ResidualBytes :: "memory_breakdown \<Rightarrow> u64" where
  "ResidualBytes m = subtractManyFloor (TotalBytes m) [AnonBytes m, FileCacheBytes m, ShmemBytes m]"

definition DirtyWritebackBytes :: "memory_breakdown \<Rightarrow> u64" where
  "DirtyWritebackBytes m = DirtyBytes m + WritebackBytes m"

text \<open>\<open>RecentEventCounts\<close>: the tuple \<open>(oom, oomKill, high, maxEvents)\<close>.\<close>

definition RecentEventCounts :: "memory_breakdown \<Rightarrow> u64 \<times> u64 \<times> u64 \<times> u64" where
  "RecentEventCounts m =
    (if LocalEventsKnown m then
       (if LocalEventDeltasKnown m then
          (LocalOOMEventsDelta m, LocalOOMKillEventsDelta m, LocalHighEventsDelta m, LocalMaxEventsDelta m)
        else (LocalOOMEvents m, LocalOOMKillEvents m, LocalHighEvents m, LocalMaxEvents m))
     else if EventDeltasKnown m then
       (OOMEventsDelta m, OOMKillEventsDelta m, HighEventsDelta m, MaxEventsDelta m)
     else (OOMEvents m, OOMKillEvents m, HighEvents m, MaxEvents m))"

definition HasOOMRisk :: "memory_breakdown \<Rightarrow> bool" where
  "HasOOMRisk m = (case RecentEventCounts m of (oom, oomKill, high, maxEvents) \<Rightarrow>
     oom > 0 \<or> oomKill > 0 \<or> maxEvents > 0)"

definition HighEventDelta :: "memory_breakdown \<Rightarrow> u64 \<times> bool" where
  "HighEventDelta m =
    (if LocalEventsKnown m then
       (if LocalEventDeltasKnown m then (LocalHighEventsDelta m, True) else (0, False))
     else if EventDeltasKnown m then (HighEventsDelta m, True)
     else (0, False))"

definition HasPressureRisk :: "memory_breakdown \<Rightarrow> bool" where
  "HasPressureRisk m \<longleftrightarrow> fst (HighEventDelta m) > 0 \<or>
     (PressureKnown m \<and> (f64_le (Fin 1) (PSISomeAvg10 m) \<or> f64_lt f64_zero (PSIFullAvg10 m)))"

definition HasLimitRisk :: "memory_breakdown \<Rightarrow> bool" where
  "HasLimitRisk m \<longleftrightarrow> MaxKnown m \<and> \<not> MaxUnlimited m \<and> MaxBytes m > 0 \<and>
     f64_le (rnd64 (9 / 10)) (ratio (TotalBytes m) (MaxBytes m))"

definition LimitUsageRatio :: "memory_breakdown \<Rightarrow> f64" where
  "LimitUsageRatio m = (if \<not> MaxKnown m \<or> MaxUnlimited m then f64_zero
     else ratio (TotalBytes m) (MaxBytes m))"

subsection \<open>Counter deltas\<close>

text \<open>\<open>countersMonotonic\<close> takes its arguments in pairs, current before previous.\<close>

fun countersMonotonic :: "u64 list \<Rightarrow> bool" where
  "countersMonotonic (c # p # rest) = (if c < p then False else countersMonotonic rest)"
| "countersMonotonic _ = True"

text \<open>
  \<open>WithEventDeltas\<close>, assignment by assignment. Go returns early when there is no previous
  sample.
\<close>

definition withReclaimDeltas :: "memory_breakdown \<Rightarrow> memory_breakdown \<Rightarrow> memory_breakdown" where
  "withReclaimDeltas current previous =
    (let known = ReclaimCountersKnown current \<and> ReclaimCountersKnown previous \<and>
           countersMonotonic
             [WorkingsetRefaultAnon current, WorkingsetRefaultAnon previous,
              WorkingsetRefaultFile current, WorkingsetRefaultFile previous,
              PageScan current, PageScan previous,
              PageSteal current, PageSteal previous,
              MajorPageFaults current, MajorPageFaults previous];
         c = current\<lparr>ReclaimDeltasKnown := known\<rparr> in
     if known then c\<lparr>
       RefaultAnonDelta := WorkingsetRefaultAnon current - WorkingsetRefaultAnon previous,
       RefaultFileDelta := WorkingsetRefaultFile current - WorkingsetRefaultFile previous,
       PageScanDelta := PageScan current - PageScan previous,
       PageStealDelta := PageSteal current - PageSteal previous,
       MajorPageFaultsDelta := MajorPageFaults current - MajorPageFaults previous\<rparr>
     else c)"

definition withHierarchicalDeltas :: "memory_breakdown \<Rightarrow> memory_breakdown \<Rightarrow> memory_breakdown" where
  "withHierarchicalDeltas current previous = current\<lparr>
     OOMEventsDelta := counterDelta (OOMEvents current) (OOMEvents previous),
     OOMKillEventsDelta := counterDelta (OOMKillEvents current) (OOMKillEvents previous),
     HighEventsDelta := counterDelta (HighEvents current) (HighEvents previous),
     MaxEventsDelta := counterDelta (MaxEvents current) (MaxEvents previous)\<rparr>"

definition withLocalDeltas :: "memory_breakdown \<Rightarrow> memory_breakdown \<Rightarrow> memory_breakdown" where
  "withLocalDeltas current previous =
    (if LocalEventsKnown current \<and> LocalEventsKnown previous then current\<lparr>
       LocalOOMEventsDelta := counterDelta (LocalOOMEvents current) (LocalOOMEvents previous),
       LocalOOMKillEventsDelta := counterDelta (LocalOOMKillEvents current) (LocalOOMKillEvents previous),
       LocalHighEventsDelta := counterDelta (LocalHighEvents current) (LocalHighEvents previous),
       LocalMaxEventsDelta := counterDelta (LocalMaxEvents current) (LocalMaxEvents previous)\<rparr>
     else current)"

definition withSwapDeltas :: "memory_breakdown \<Rightarrow> memory_breakdown \<Rightarrow> memory_breakdown" where
  "withSwapDeltas current previous =
    (if SwapEventsKnown current \<and> SwapEventsKnown previous then current\<lparr>
       SwapHighEventsDelta := counterDelta (SwapHighEvents current) (SwapHighEvents previous),
       SwapMaxEventsDelta := counterDelta (SwapMaxEvents current) (SwapMaxEvents previous),
       SwapFailEventsDelta := counterDelta (SwapFailEvents current) (SwapFailEvents previous)\<rparr>
     else current)"

definition WithEventDeltas :: "memory_breakdown \<Rightarrow> memory_breakdown \<Rightarrow> bool \<Rightarrow> memory_breakdown" where
  "WithEventDeltas current previous hasPrevious =
    (let c = current\<lparr>
           IOPressure := withIODeltas (IOPressure current) (IOPressure previous) hasPrevious,
           EventDeltasKnown := True,
           LocalEventDeltasKnown := LocalEventsKnown current,
           SwapEventDeltasKnown := SwapEventsKnown current\<rparr> in
     if \<not> hasPrevious then c
     else withSwapDeltas (withLocalDeltas (withHierarchicalDeltas (withReclaimDeltas c previous)
            previous) previous) previous)"

lemmas delta_stage_defs = withReclaimDeltas_def withHierarchicalDeltas_def withLocalDeltas_def
  withSwapDeltas_def

subsection \<open>Sums\<close>

definition maxFloat :: "f64 \<Rightarrow> f64 \<Rightarrow> f64" where
  "maxFloat a b = (if f64_lt b a then a else b)"

definition AddMemory :: "memory_breakdown \<Rightarrow> memory_breakdown \<Rightarrow> memory_breakdown" where
  "AddMemory a b = \<lparr>
     mb_Name = mb_Name a,
     IOPressure = io_zero,
     TotalBytes = TotalBytes a + TotalBytes b,
     AnonBytes = AnonBytes a + AnonBytes b,
     FileBytes = FileBytes a + FileBytes b,
     ActiveFileBytes = ActiveFileBytes a + ActiveFileBytes b,
     InactiveFileBytes = InactiveFileBytes a + InactiveFileBytes b,
     ShmemBytes = ShmemBytes a + ShmemBytes b,
     SlabBytes = SlabBytes a + SlabBytes b,
     SlabReclaimableBytes = SlabReclaimableBytes a + SlabReclaimableBytes b,
     SlabUnreclaimableBytes = SlabUnreclaimableBytes a + SlabUnreclaimableBytes b,
     KernelBytes = KernelBytes a + KernelBytes b,
     SocketBytes = SocketBytes a + SocketBytes b,
     PageTableBytes = PageTableBytes a + PageTableBytes b,
     FileMappedBytes = FileMappedBytes a + FileMappedBytes b,
     AnonTHPBytes = AnonTHPBytes a + AnonTHPBytes b,
     FileTHPBytes = FileTHPBytes a + FileTHPBytes b,
     ShmemTHPBytes = ShmemTHPBytes a + ShmemTHPBytes b,
     DirtyBytes = DirtyBytes a + DirtyBytes b,
     WritebackBytes = WritebackBytes a + WritebackBytes b,
     PeakBytes = PeakBytes a + PeakBytes b,
     PeakKnown = (PeakKnown a \<or> PeakKnown b),
     MinBytes = MinBytes a + MinBytes b,
     MinKnown = (MinKnown a \<or> MinKnown b),
     MinUnlimited = (MinUnlimited a \<or> MinUnlimited b),
     LowBytes = LowBytes a + LowBytes b,
     LowKnown = (LowKnown a \<or> LowKnown b),
     LowUnlimited = (LowUnlimited a \<or> LowUnlimited b),
     HighBytes = HighBytes a + HighBytes b,
     HighKnown = (HighKnown a \<or> HighKnown b),
     HighUnlimited = (HighUnlimited a \<or> HighUnlimited b),
     MaxBytes = MaxBytes a + MaxBytes b,
     MaxKnown = (MaxKnown a \<or> MaxKnown b),
     MaxUnlimited = (MaxUnlimited a \<or> MaxUnlimited b),
     SwapCurrentBytes = SwapCurrentBytes a + SwapCurrentBytes b,
     SwapCurrentKnown = (SwapCurrentKnown a \<or> SwapCurrentKnown b),
     SwapPeakBytes = SwapPeakBytes a + SwapPeakBytes b,
     SwapPeakKnown = (SwapPeakKnown a \<or> SwapPeakKnown b),
     SwapMaxBytes = SwapMaxBytes a + SwapMaxBytes b,
     SwapMaxKnown = (SwapMaxKnown a \<or> SwapMaxKnown b),
     SwapMaxUnlimited = (SwapMaxUnlimited a \<or> SwapMaxUnlimited b),
     PressureKnown = (PressureKnown a \<or> PressureKnown b),
     PSISomeAvg10 = maxFloat (PSISomeAvg10 a) (PSISomeAvg10 b),
     PSISomeAvg60 = maxFloat (PSISomeAvg60 a) (PSISomeAvg60 b),
     PSISomeAvg300 = maxFloat (PSISomeAvg300 a) (PSISomeAvg300 b),
     PSISomeTotalMicros = PSISomeTotalMicros a + PSISomeTotalMicros b,
     PSIFullAvg10 = maxFloat (PSIFullAvg10 a) (PSIFullAvg10 b),
     PSIFullAvg60 = maxFloat (PSIFullAvg60 a) (PSIFullAvg60 b),
     PSIFullAvg300 = maxFloat (PSIFullAvg300 a) (PSIFullAvg300 b),
     PSIFullTotalMicros = PSIFullTotalMicros a + PSIFullTotalMicros b,
     WorkingsetRefaultAnon = WorkingsetRefaultAnon a + WorkingsetRefaultAnon b,
     WorkingsetRefaultFile = WorkingsetRefaultFile a + WorkingsetRefaultFile b,
     PageScan = PageScan a + PageScan b,
     PageSteal = PageSteal a + PageSteal b,
     MajorPageFaults = MajorPageFaults a + MajorPageFaults b,
     ReclaimCountersKnown = (ReclaimCountersKnown a \<or> ReclaimCountersKnown b),
     ReclaimDeltasKnown = (ReclaimDeltasKnown a \<or> ReclaimDeltasKnown b),
     RefaultAnonDelta = RefaultAnonDelta a + RefaultAnonDelta b,
     RefaultFileDelta = RefaultFileDelta a + RefaultFileDelta b,
     PageScanDelta = PageScanDelta a + PageScanDelta b,
     PageStealDelta = PageStealDelta a + PageStealDelta b,
     MajorPageFaultsDelta = MajorPageFaultsDelta a + MajorPageFaultsDelta b,
     OOMEvents = OOMEvents a + OOMEvents b,
     OOMKillEvents = OOMKillEvents a + OOMKillEvents b,
     HighEvents = HighEvents a + HighEvents b,
     MaxEvents = MaxEvents a + MaxEvents b,
     LocalEventsKnown = (LocalEventsKnown a \<or> LocalEventsKnown b),
     LocalOOMEvents = LocalOOMEvents a + LocalOOMEvents b,
     LocalOOMKillEvents = LocalOOMKillEvents a + LocalOOMKillEvents b,
     LocalHighEvents = LocalHighEvents a + LocalHighEvents b,
     LocalMaxEvents = LocalMaxEvents a + LocalMaxEvents b,
     SwapEventsKnown = (SwapEventsKnown a \<or> SwapEventsKnown b),
     SwapHighEvents = SwapHighEvents a + SwapHighEvents b,
     SwapMaxEvents = SwapMaxEvents a + SwapMaxEvents b,
     SwapFailEvents = SwapFailEvents a + SwapFailEvents b,
     EventDeltasKnown = (EventDeltasKnown a \<or> EventDeltasKnown b),
     OOMEventsDelta = OOMEventsDelta a + OOMEventsDelta b,
     OOMKillEventsDelta = OOMKillEventsDelta a + OOMKillEventsDelta b,
     HighEventsDelta = HighEventsDelta a + HighEventsDelta b,
     MaxEventsDelta = MaxEventsDelta a + MaxEventsDelta b,
     LocalEventDeltasKnown = (LocalEventDeltasKnown a \<or> LocalEventDeltasKnown b),
     LocalOOMEventsDelta = LocalOOMEventsDelta a + LocalOOMEventsDelta b,
     LocalOOMKillEventsDelta = LocalOOMKillEventsDelta a + LocalOOMKillEventsDelta b,
     LocalHighEventsDelta = LocalHighEventsDelta a + LocalHighEventsDelta b,
     LocalMaxEventsDelta = LocalMaxEventsDelta a + LocalMaxEventsDelta b,
     SwapEventDeltasKnown = (SwapEventDeltasKnown a \<or> SwapEventDeltasKnown b),
     SwapHighEventsDelta = SwapHighEventsDelta a + SwapHighEventsDelta b,
     SwapMaxEventsDelta = SwapMaxEventsDelta a + SwapMaxEventsDelta b,
     SwapFailEventsDelta = SwapFailEventsDelta a + SwapFailEventsDelta b\<rparr>"

fun sumFrom :: "memory_breakdown \<Rightarrow> memory_breakdown list \<Rightarrow> memory_breakdown" where
  "sumFrom acc [] = acc"
| "sumFrom acc (item # items) = sumFrom (AddMemory acc item) items"

definition SumMemory :: "string \<Rightarrow> memory_breakdown list \<Rightarrow> memory_breakdown" where
  "SumMemory name items = (sumFrom (memory_zero\<lparr>mb_Name := name\<rparr>) items)\<lparr>mb_Name := name\<rparr>"

subsection \<open>What the breakdown satisfies\<close>

lemma unat_subtractFloor: "unat (subtractFloor a b) = unat a - unat b"
  by (auto simp: subtractFloor_def word_le_nat_alt unat_sub not_le)

lemma unat_subtractManyFloor: "unat (subtractManyFloor r vs) = unat r - sum_list (map unat vs)"
proof (induction r vs rule: subtractManyFloor.induct)
  case (2 r v vs)
  then show ?case
    by (auto simp: word_le_nat_alt unat_sub not_le)
qed simp

lemma unat_counterDelta: "unat (counterDelta c p) = unat c - unat p"
  by (auto simp: counterDelta_def word_less_nat_alt unat_sub word_le_nat_alt not_less)

text \<open>
  The composition shown to the operator partitions the charge: the residual is exactly
  what anonymous memory, file cache and shared memory leave of the total, and zero when the
  independently sampled parts exceed it; no subtraction wraps. File cache and shared memory
  together are the raw file counter, or the shared memory when that is larger.
\<close>

theorem memory_partition:
  "unat (ResidualBytes m) = unat (TotalBytes m)
     - (unat (AnonBytes m) + unat (FileCacheBytes m) + unat (ShmemBytes m))
   \<and> unat (FileCacheBytes m) + unat (ShmemBytes m) = max (unat (FileBytes m)) (unat (ShmemBytes m))"
  by (auto simp: ResidualBytes_def FileCacheBytes_def unat_subtractFloor unat_subtractManyFloor
      max_def algebra_simps simp del: subtractManyFloor.simps)

subsection \<open>What the deltas satisfy\<close>

lemma hierarchical_deltas:
  "unat (OOMEventsDelta (WithEventDeltas c p True)) = unat (OOMEvents c) - unat (OOMEvents p)"
  "unat (OOMKillEventsDelta (WithEventDeltas c p True)) = unat (OOMKillEvents c) - unat (OOMKillEvents p)"
  "unat (HighEventsDelta (WithEventDeltas c p True)) = unat (HighEvents c) - unat (HighEvents p)"
  "unat (MaxEventsDelta (WithEventDeltas c p True)) = unat (MaxEvents c) - unat (MaxEvents p)"
  by (simp_all add: WithEventDeltas_def delta_stage_defs Let_def unat_counterDelta)

lemma local_deltas:
  assumes "LocalEventsKnown c" and "LocalEventsKnown p"
  shows "unat (LocalOOMEventsDelta (WithEventDeltas c p True)) = unat (LocalOOMEvents c) - unat (LocalOOMEvents p)"
    "unat (LocalOOMKillEventsDelta (WithEventDeltas c p True)) = unat (LocalOOMKillEvents c) - unat (LocalOOMKillEvents p)"
    "unat (LocalHighEventsDelta (WithEventDeltas c p True)) = unat (LocalHighEvents c) - unat (LocalHighEvents p)"
    "unat (LocalMaxEventsDelta (WithEventDeltas c p True)) = unat (LocalMaxEvents c) - unat (LocalMaxEvents p)"
  using assms
  by (simp_all add: WithEventDeltas_def delta_stage_defs Let_def unat_counterDelta)

lemma reclaim_known_iff:
  "ReclaimDeltasKnown (WithEventDeltas c p True) \<longleftrightarrow>
     ReclaimCountersKnown c \<and> ReclaimCountersKnown p \<and>
     WorkingsetRefaultAnon p \<le> WorkingsetRefaultAnon c \<and>
     WorkingsetRefaultFile p \<le> WorkingsetRefaultFile c \<and>
     PageScan p \<le> PageScan c \<and> PageSteal p \<le> PageSteal c \<and>
     MajorPageFaults p \<le> MajorPageFaults c"
  by (auto simp: WithEventDeltas_def delta_stage_defs Let_def not_less)

lemma unat_minus_add: "(b :: u64) \<le> a \<Longrightarrow> unat (a - b) + unat b = unat a"
  by (simp add: unat_sub word_le_nat_alt)

lemma reclaim_deltas:
  assumes "ReclaimDeltasKnown (WithEventDeltas c p True)"
  shows "unat (PageScanDelta (WithEventDeltas c p True)) + unat (PageScan p) = unat (PageScan c)"
    "unat (PageStealDelta (WithEventDeltas c p True)) + unat (PageSteal p) = unat (PageSteal c)"
    "unat (MajorPageFaultsDelta (WithEventDeltas c p True)) + unat (MajorPageFaults p)
       = unat (MajorPageFaults c)"
    "unat (RefaultAnonDelta (WithEventDeltas c p True)) + unat (WorkingsetRefaultAnon p)
       = unat (WorkingsetRefaultAnon c)"
    "unat (RefaultFileDelta (WithEventDeltas c p True)) + unat (WorkingsetRefaultFile p)
       = unat (WorkingsetRefaultFile c)"
  using assms unfolding reclaim_known_iff
  by (simp_all add: WithEventDeltas_def delta_stage_defs Let_def leD unat_minus_add)

text \<open>Without a previous sample the deltas are the ones the producer sent.\<close>

lemma first_sample_deltas:
  "WithEventDeltas c p False = c\<lparr>
     IOPressure := withIODeltas (IOPressure c) (IOPressure p) False,
     EventDeltasKnown := True,
     LocalEventDeltasKnown := LocalEventsKnown c,
     SwapEventDeltasKnown := SwapEventsKnown c\<rparr>"
  by (simp add: WithEventDeltas_def)

lemma WithEventDeltas_measured:
  "TotalBytes (WithEventDeltas c p b) = TotalBytes c"
  "AnonBytes (WithEventDeltas c p b) = AnonBytes c"
  "FileBytes (WithEventDeltas c p b) = FileBytes c"
  "ShmemBytes (WithEventDeltas c p b) = ShmemBytes c"
  "SwapCurrentBytes (WithEventDeltas c p b) = SwapCurrentBytes c"
  "IOPressure (WithEventDeltas c p b) = withIODeltas (IOPressure c) (IOPressure p) b"
  by (simp_all add: WithEventDeltas_def delta_stage_defs Let_def)


text \<open>Two samples of one cgroup, used to apply the theorems to concrete values.\<close>

definition sample_before :: memory_breakdown where
  "sample_before = memory_zero\<lparr>TotalBytes := 4096, ReclaimCountersKnown := True, PageScan := 4,
     MajorPageFaults := 2, OOMKillEvents := 1, MaxEvents := 9\<rparr>"

definition sample_after :: memory_breakdown where
  "sample_after = memory_zero\<lparr>TotalBytes := 8192, ReclaimCountersKnown := True, PageScan := 10,
     MajorPageFaults := 2, OOMKillEvents := 4, MaxEvents := 3\<rparr>"

lemma sample_totals: "TotalBytes sample_before = 4096" "TotalBytes sample_after = 8192"
  by (simp_all add: sample_before_def sample_after_def)


subsection \<open>What the sums satisfy\<close>

definition memory_numeric :: "memory_breakdown \<Rightarrow> bool" where
  "memory_numeric m \<longleftrightarrow> \<not> isNaN (PSISomeAvg10 m) \<and> \<not> isNaN (PSISomeAvg60 m) \<and>
    \<not> isNaN (PSISomeAvg300 m) \<and> \<not> isNaN (PSIFullAvg10 m) \<and> \<not> isNaN (PSIFullAvg60 m) \<and>
    \<not> isNaN (PSIFullAvg300 m)"

lemma maxFloat_commute:
  "\<not> isNaN x \<Longrightarrow> \<not> isNaN y \<Longrightarrow> maxFloat (maxFloat a x) y = maxFloat (maxFloat a y) x"
  by (cases a; cases x; cases y) (auto simp: maxFloat_def)

lemma AddMemory_commute:
  "memory_numeric x \<Longrightarrow> memory_numeric y \<Longrightarrow>
   AddMemory (AddMemory a x) y = AddMemory (AddMemory a y) x"
  unfolding AddMemory_def memory_numeric_def
  by (simp add: maxFloat_commute add.commute add.left_commute disj_commute disj_left_commute)

lemma sumFrom_fold: "sumFrom acc items = fold (\<lambda>i a. AddMemory a i) items acc"
  by (induction acc items rule: sumFrom.induct) simp_all

lemma TotalBytes_sumFrom:
  "TotalBytes (sumFrom acc items) = TotalBytes acc + sum_list (map TotalBytes items)"
  by (induction acc items rule: sumFrom.induct) (simp_all add: AddMemory_def add.assoc)

lemma unat_sum_list: "unat (sum_list ws :: u64) = sum_list (map unat ws) mod 2 ^ 64"
  by (induction ws) (simp_all add: unat_word_ariths mod_simps)

lemma TotalBytes_SumMemory:
  "unat (TotalBytes (SumMemory n items)) = sum_list (map (unat \<circ> TotalBytes) items) mod 2 ^ 64"
  by (simp add: SumMemory_def TotalBytes_sumFrom memory_zero_def unat_sum_list comp_def)

text \<open>
  A Pod's memory does not depend on the order in which its containers are visited, and
  its total is the sum of the containers' charges modulo the width of the counter.
\<close>

theorem SumMemory_order_independent:
  assumes "mset xs = mset ys" and "\<forall>x \<in> set xs. memory_numeric x"
  shows "SumMemory n xs = SumMemory n ys
    \<and> unat (TotalBytes (SumMemory n xs)) = sum_list (map (unat \<circ> TotalBytes) ys) mod 2 ^ 64"
proof -
  have "fold (\<lambda>i a. AddMemory a i) xs = fold (\<lambda>i a. AddMemory a i) ys"
    using assms by (intro fold_multiset_equiv) (auto simp: AddMemory_commute fun_eq_iff)
  then have "SumMemory n xs = SumMemory n ys"
    by (simp add: SumMemory_def sumFrom_fold)
  then show ?thesis
    by (metis TotalBytes_SumMemory)
qed

lemma sample_numeric: "memory_numeric sample_before" "memory_numeric sample_after"
  by (simp_all add: memory_numeric_def sample_after_def sample_before_def memory_zero_def f64_zero_def)

theorem SumMemory_order_independent_witness:
  "SumMemory ''p'' [sample_before, sample_after] = SumMemory ''p'' [sample_after, sample_before]
   \<and> unat (TotalBytes (SumMemory ''p'' [sample_before, sample_after])) = 12288"
proof -
  have "SumMemory ''p'' [sample_before, sample_after] = SumMemory ''p'' [sample_after, sample_before]
    \<and> unat (TotalBytes (SumMemory ''p'' [sample_before, sample_after]))
      = sum_list (map (unat \<circ> TotalBytes) [sample_after, sample_before]) mod 2 ^ 64"
    by (rule SumMemory_order_independent) (simp_all add: sample_numeric)
  moreover have "sum_list (map (unat \<circ> TotalBytes) [sample_after, sample_before]) mod 2 ^ 64 = 12288"
    by (simp add: sample_totals)
  ultimately show ?thesis
    by metis
qed

end
