(* ===== verification/Resources.thy ===== *)
theory Resources
  imports Go_Prelude
begin

text \<open>
  Package \<open>internal/model\<close>, files \<open>resources.go\<close> and \<open>resource_budget.go\<close>: the memory resources a
  Pod and a container report through Kubernetes, their validation, and the choice of the
  effective Pod budget. Generations are Go's \<open>int64\<close>, here integers; a comparison of two
  structs with \<open>==\<close> is equality of the records, times being instants.

  The lemmas: what an accepted resource report satisfies, and which source the effective
  budget comes from.
\<close>

record resource_value =
  rv_Bytes :: u64
  rv_Known :: bool

record memory_resource_budget =
  mb_Request :: resource_value
  mb_Limit :: resource_value

definition ResizeNone :: string where
  "ResizeNone = ''''"

definition ResizePending :: string where
  "ResizePending = ''pending''"

definition ResizeDeferred :: string where
  "ResizeDeferred = ''deferred''"

definition ResizeInfeasible :: string where
  "ResizeInfeasible = ''infeasible''"

definition ResizeApplying :: string where
  "ResizeApplying = ''in-progress''"

definition ResizeError :: string where
  "ResizeError = ''error''"

definition ResizeUnknown :: string where
  "ResizeUnknown = ''unknown''"

definition ResizePodCondition :: string where
  "ResizePodCondition = ''pod-condition''"

definition ResizeLegacyStatus :: string where
  "ResizeLegacyStatus = ''legacy-status''"

lemmas resize_defs = ResizeNone_def ResizePending_def ResizeDeferred_def ResizeInfeasible_def
  ResizeApplying_def ResizeError_def ResizeUnknown_def ResizePodCondition_def ResizeLegacyStatus_def

record resize_observation =
  ro_State :: string
  ro_Source :: string
  ro_ObservedGeneration :: int
  ro_TransitionAt :: time

record pod_memory_resources =
  pr_Configured :: memory_resource_budget
  pr_AllocatedRequest :: resource_value
  pr_Applied :: memory_resource_budget
  pr_Generation :: int
  pr_ObservedGeneration :: int
  pr_Pending :: resize_observation
  pr_Applying :: resize_observation

record container_memory_resources =
  cr_Pod :: pod_memory_resources
  cr_AllocatedRequest :: resource_value
  cr_Applied :: memory_resource_budget

subsection \<open>Zero values\<close>

definition rv_zero :: resource_value where
  "rv_zero = \<lparr>rv_Bytes = 0, rv_Known = False\<rparr>"

definition mb_zero :: memory_resource_budget where
  "mb_zero = \<lparr>mb_Request = rv_zero, mb_Limit = rv_zero\<rparr>"

definition ro_zero :: resize_observation where
  "ro_zero = \<lparr>ro_State = '''', ro_Source = '''', ro_ObservedGeneration = 0, ro_TransitionAt = 0\<rparr>"

definition pr_zero :: pod_memory_resources where
  "pr_zero = \<lparr>pr_Configured = mb_zero, pr_AllocatedRequest = rv_zero, pr_Applied = mb_zero,
     pr_Generation = 0, pr_ObservedGeneration = 0, pr_Pending = ro_zero, pr_Applying = ro_zero\<rparr>"

definition cr_zero :: container_memory_resources where
  "cr_zero = \<lparr>cr_Pod = pr_zero, cr_AllocatedRequest = rv_zero, cr_Applied = mb_zero\<rparr>"

definition pr_IsZero :: "pod_memory_resources \<Rightarrow> bool" where
  "pr_IsZero p \<longleftrightarrow> p = pr_zero"

definition cr_IsZero :: "container_memory_resources \<Rightarrow> bool" where
  "cr_IsZero c \<longleftrightarrow> c = cr_zero"

subsection \<open>Validation\<close>

text \<open>The errors of \<open>resources.go\<close>, one constructor for each \<open>fmt.Errorf\<close>.\<close>

datatype resource_error =
    UnreportedHasValue
  | NegativeGeneration
  | NegativeResizeGeneration
  | AbsentHasMetadata
  | PendingForApplication
  | ApplicationForAllocation
  | InvalidResizeState
  | InvalidResizeSource

datatype resize_track = resizePendingTrack | resizeApplyingTrack

definition validateResizeObservation ::
    "resize_observation \<Rightarrow> resize_track \<Rightarrow> resource_error option" where
  "validateResizeObservation ro track =
    (if ro_ObservedGeneration ro < 0 then Some NegativeResizeGeneration
     else
       let sourced =
         (if ro_State ro \<noteq> ResizeNone \<and> ro_Source ro \<noteq> ResizePodCondition
             \<and> ro_Source ro \<noteq> ResizeLegacyStatus
          then Some InvalidResizeSource else None)
       in
         if ro_State ro = ResizeNone then
           (if ro_Source ro \<noteq> '''' \<or> ro_ObservedGeneration ro \<noteq> 0 \<or> \<not> is_zero_time (ro_TransitionAt ro)
            then Some AbsentHasMetadata else sourced)
         else if ro_State ro = ResizeUnknown then sourced
         else if ro_State ro \<in> {ResizePending, ResizeDeferred, ResizeInfeasible} then
           (if track \<noteq> resizePendingTrack then Some PendingForApplication else sourced)
         else if ro_State ro \<in> {ResizeApplying, ResizeError} then
           (if track \<noteq> resizeApplyingTrack then Some ApplicationForAllocation else sourced)
         else Some InvalidResizeState)"

definition resource_values :: "container_memory_resources \<Rightarrow> resource_value list" where
  "resource_values c =
    [mb_Request (pr_Configured (cr_Pod c)), mb_Limit (pr_Configured (cr_Pod c)),
     pr_AllocatedRequest (cr_Pod c),
     mb_Request (pr_Applied (cr_Pod c)), mb_Limit (pr_Applied (cr_Pod c)),
     cr_AllocatedRequest c, mb_Request (cr_Applied c), mb_Limit (cr_Applied c)]"

definition cr_Validate :: "container_memory_resources \<Rightarrow> resource_error option" where
  "cr_Validate c =
    (if (\<exists>v \<in> set (resource_values c). \<not> rv_Known v \<and> rv_Bytes v \<noteq> 0) then Some UnreportedHasValue
     else if pr_Generation (cr_Pod c) < 0 \<or> pr_ObservedGeneration (cr_Pod c) < 0
       then Some NegativeGeneration
     else case validateResizeObservation (pr_Pending (cr_Pod c)) resizePendingTrack of
       Some e \<Rightarrow> Some e
     | None \<Rightarrow> validateResizeObservation (pr_Applying (cr_Pod c)) resizeApplyingTrack)"

subsection \<open>The effective Pod budget\<close>

definition BudgetUnreported :: string where
  "BudgetUnreported = ''unreported''"

definition BudgetUnset :: string where
  "BudgetUnset = ''unset''"

definition BudgetPod :: string where
  "BudgetPod = ''pod-spec''"

definition BudgetContainers :: string where
  "BudgetContainers = ''container-sum''"

definition BudgetPartial :: string where
  "BudgetPartial = ''partial-container-sum''"

lemmas budget_defs = BudgetUnreported_def BudgetUnset_def BudgetPod_def BudgetContainers_def
  BudgetPartial_def

record effective_resource_value =
  ev_Bytes :: u64
  ev_Source :: string

record effective_memory_resources =
  em_Request :: effective_resource_value
  em_Limit :: effective_resource_value

record container_resource_totals =
  ct_RequestBytes :: u64
  ct_LimitBytes :: u64
  ct_RequestContainers :: int
  ct_LimitContainers :: int
  ct_Containers :: int

definition selectResourceBudget :: "resource_value \<Rightarrow> u64 \<Rightarrow> int \<Rightarrow> int \<Rightarrow> effective_resource_value" where
  "selectResourceBudget pod tot covered containers =
    (if rv_Known pod then \<lparr>ev_Bytes = rv_Bytes pod, ev_Source = BudgetPod\<rparr>
     else if containers = 0 then \<lparr>ev_Bytes = 0, ev_Source = BudgetUnreported\<rparr>
     else if covered = 0 then \<lparr>ev_Bytes = 0, ev_Source = BudgetUnset\<rparr>
     else if covered < containers then \<lparr>ev_Bytes = tot, ev_Source = BudgetPartial\<rparr>
     else \<lparr>ev_Bytes = tot, ev_Source = BudgetContainers\<rparr>)"

definition EffectivePodMemory ::
    "pod_memory_resources \<Rightarrow> container_resource_totals \<Rightarrow> effective_memory_resources" where
  "EffectivePodMemory pod ct =
    \<lparr>em_Request = selectResourceBudget (mb_Request (pr_Configured pod)) (ct_RequestBytes ct)
        (ct_RequestContainers ct) (ct_Containers ct),
     em_Limit = selectResourceBudget (mb_Limit (pr_Configured pod)) (ct_LimitBytes ct)
        (ct_LimitContainers ct) (ct_Containers ct)\<rparr>"

subsection \<open>Lemmas\<close>

text \<open>The zero report is accepted, so a producer that reports no resources is.\<close>

lemma cr_Validate_zero: "cr_Validate cr_zero = None"
  by (simp add: cr_Validate_def resource_values_def cr_zero_def pr_zero_def mb_zero_def rv_zero_def
      ro_zero_def validateResizeObservation_def ResizeNone_def)

lemma validateResizeObservation_None:
  "validateResizeObservation ro track = None \<longleftrightarrow>
     0 \<le> ro_ObservedGeneration ro \<and>
     (ro = ro_zero \<or>
      ro_Source ro \<in> {ResizePodCondition, ResizeLegacyStatus} \<and>
      (ro_State ro = ResizeUnknown \<or>
       ro_State ro \<in> {ResizePending, ResizeDeferred, ResizeInfeasible} \<and> track = resizePendingTrack \<or>
       ro_State ro \<in> {ResizeApplying, ResizeError} \<and> track = resizeApplyingTrack))"
  by (cases ro; cases track) (auto simp: validateResizeObservation_def ro_zero_def resize_defs Let_def)

text \<open>An accepted report never carries the same resize state in both tracks, unless unknown.\<close>

lemma accepted_tracks_differ:
  assumes "cr_Validate c = None"
    and "ro_State (pr_Pending (cr_Pod c)) = ro_State (pr_Applying (cr_Pod c))"
  shows "ro_State (pr_Pending (cr_Pod c)) \<in> {ResizeNone, ResizeUnknown}"
  using assms
  by (auto simp: cr_Validate_def validateResizeObservation_None ro_zero_def resize_defs
      split: if_splits option.splits)

lemma accepted_values_known:
  assumes "cr_Validate c = None" and "v \<in> set (resource_values c)" and "rv_Bytes v \<noteq> 0"
  shows "rv_Known v"
  using assms by (auto simp: cr_Validate_def split: if_splits)

text \<open>The sources of the effective budget exclude each other; the bytes are never a mixture.\<close>

lemma selectResourceBudget_cases:
  "selectResourceBudget pod tot covered containers =
     \<lparr>ev_Bytes = (if rv_Known pod then rv_Bytes pod
                 else if containers = 0 \<or> covered = 0 then 0 else tot),
      ev_Source = (if rv_Known pod then BudgetPod
                   else if containers = 0 then BudgetUnreported
                   else if covered = 0 then BudgetUnset
                   else if covered < containers then BudgetPartial else BudgetContainers)\<rparr>"
  by (simp add: selectResourceBudget_def)

end
