(* ===== verification/Node_Observation.thy ===== *)
theory Node_Observation
  imports Go_Float Go_Prelude
begin

text \<open>
  Package \<open>internal/nodecontext\<close> and the envelope of \<open>internal/capability\<close>: one bounded report of a
  Node's memory, and its validation at ingestion. A Go pointer to a value is an \<open>option\<close>. Every
  error of the package is \<open>ErrInvalidObservation\<close>, so a validation is a bool.

  What the validation calls outside the repository is collected in \<open>node_lib\<close>: the JSON encoder,
  the two name checks of \<open>k8s.io/apimachinery\<close> and the quantity parser.

  The lemmas: the capture time of an accepted report is the oldest of its measurement times, and
  every measurement lies inside the admission window.
\<close>

subsection \<open>Capability constants\<close>

definition cap_Available :: string where
  "cap_Available = ''available''"

definition cap_Forbidden :: string where
  "cap_Forbidden = ''forbidden''"

definition cap_Unsupported :: string where
  "cap_Unsupported = ''unsupported''"

definition cap_Unreported :: string where
  "cap_Unreported = ''unreported''"

definition cap_Unavailable :: string where
  "cap_Unavailable = ''unavailable''"

definition cap_Fresh :: string where
  "cap_Fresh = ''fresh''"

definition cap_Stale :: string where
  "cap_Stale = ''stale''"

definition cap_Rebuilding :: string where
  "cap_Rebuilding = ''rebuilding''"

definition cap_UnknownFreshness :: string where
  "cap_UnknownFreshness = ''unavailable''"

definition cap_Complete :: string where
  "cap_Complete = ''complete''"

definition cap_Partial :: string where
  "cap_Partial = ''partial''"

lemmas cap_defs = cap_Available_def cap_Forbidden_def cap_Unsupported_def cap_Unreported_def
  cap_Unavailable_def cap_Fresh_def cap_Stale_def cap_Rebuilding_def cap_UnknownFreshness_def
  cap_Complete_def cap_Partial_def

subsection \<open>Limits\<close>

definition MaxObservationBytes :: nat where
  "MaxObservationBytes = 16 * 1024"

definition MaxNodeUIDBytes :: nat where
  "MaxNodeUIDBytes = 128"

definition MaxSystemContainers :: nat where
  "MaxSystemContainers = 4"

definition MaxHugepages :: nat where
  "MaxHugepages = 16"

definition MaxResourceBytes :: nat where
  "MaxResourceBytes = 63"

definition MaxCaveats :: nat where
  "MaxCaveats = 16"

definition MaxHistorySeries :: nat where
  "MaxHistorySeries = 1000"

definition MaxHistoryPoints :: nat where
  "MaxHistoryPoints = 61"

definition MaxHistoryBytes :: nat where
  "MaxHistoryBytes = 64 * 1024 * 1024"

definition CollectionInterval :: duration where
  "CollectionInterval = 15 * second"

definition StaleAfter :: duration where
  "StaleAfter = 45 * second"

definition HistoryDuration :: duration where
  "HistoryDuration = 15 * minute"

lemmas node_limit_defs = MaxObservationBytes_def MaxNodeUIDBytes_def MaxSystemContainers_def
  MaxHugepages_def MaxResourceBytes_def MaxCaveats_def MaxHistorySeries_def MaxHistoryPoints_def
  MaxHistoryBytes_def CollectionInterval_def StaleAfter_def HistoryDuration_def

subsection \<open>The report\<close>

record envelope =
  en_Source :: string
  en_APIVersion :: string
  en_CapturedAt :: time
  en_ReceivedAt :: time
  en_Window :: duration
  en_Scope :: string
  en_Freshness :: string
  en_Completeness :: string
  en_Stability :: string
  en_Caveats :: "string list"

record psi_data =
  pd_TotalNanoseconds :: u64
  pd_Avg10 :: f64
  pd_Avg60 :: f64
  pd_Avg300 :: f64

record node_psi =
  np_Some :: psi_data
  np_Full :: psi_data

record node_memory =
  nm_CapturedAt :: time
  nm_AvailableBytes :: "u64 option"
  nm_UsageBytes :: "u64 option"
  nm_WorkingSetBytes :: "u64 option"
  nm_RSSBytes :: "u64 option"
  nm_PageFaults :: "u64 option"
  nm_MajorPageFaults :: "u64 option"
  nm_PSI :: "node_psi option"

record node_swap =
  sw_CapturedAt :: time
  sw_UsageBytes :: "u64 option"
  sw_AvailableBytes :: "u64 option"

definition cat_Kubelet :: string where
  "cat_Kubelet = ''kubelet''"

definition cat_Runtime :: string where
  "cat_Runtime = ''runtime''"

definition cat_Misc :: string where
  "cat_Misc = ''misc''"

definition cat_Pods :: string where
  "cat_Pods = ''pods''"

lemmas category_defs = cat_Kubelet_def cat_Runtime_def cat_Misc_def cat_Pods_def

record system_container =
  sy_Category :: string
  sy_StartedAt :: time
  sy_Memory :: "node_memory option"
  sy_Swap :: "node_swap option"

record node_stats =
  ns_StartedAt :: time
  ns_Provenance :: string
  ns_Memory :: "node_memory option"
  ns_Swap :: "node_swap option"
  ns_SystemContainers :: "system_container list"

record hugepage =
  hg_Resource :: string
  hg_CapacityBytes :: "u64 option"
  hg_AllocatableBytes :: "u64 option"

record kubernetes_context =
  kc_CapturedAt :: time
  kc_CapacityBytes :: "u64 option"
  kc_AllocatableBytes :: "u64 option"
  kc_MemoryPressure :: string
  kc_Hugepages :: "hugepage list"

record observation =
  ob_NodeName :: string
  ob_NodeUID :: string
  ob_ReportedAt :: time
  ob_Availability :: string
  ob_Reason :: string
  ob_Evidence :: envelope
  ob_Stats :: "node_stats option"
  ob_Context :: "kubernetes_context option"

subsection \<open>Measurements\<close>

definition known_measurement :: "node_memory option \<Rightarrow> node_swap option \<Rightarrow> bool" where
  "known_measurement memory swap \<longleftrightarrow>
    (case memory of None \<Rightarrow> False | Some m \<Rightarrow>
       nm_UsageBytes m \<noteq> None \<or> nm_AvailableBytes m \<noteq> None \<or> nm_WorkingSetBytes m \<noteq> None \<or>
       nm_RSSBytes m \<noteq> None \<or> nm_PageFaults m \<noteq> None \<or> nm_MajorPageFaults m \<noteq> None \<or> nm_PSI m \<noteq> None)
    \<or> (case swap of None \<Rightarrow> False | Some w \<Rightarrow> sw_UsageBytes w \<noteq> None \<or> sw_AvailableBytes w \<noteq> None)"

definition HasMeasurements :: "node_stats \<Rightarrow> bool" where
  "HasMeasurements st \<longleftrightarrow> known_measurement (ns_Memory st) (ns_Swap st) \<or>
    (\<exists>item \<in> set (ns_SystemContainers st). known_measurement (sy_Memory item) (sy_Swap item))"

definition MemoryComplete :: "node_memory option \<Rightarrow> bool" where
  "MemoryComplete memory \<longleftrightarrow> (case memory of None \<Rightarrow> False | Some m \<Rightarrow>
     nm_UsageBytes m \<noteq> None \<and> nm_AvailableBytes m \<noteq> None \<and> nm_WorkingSetBytes m \<noteq> None \<and>
     nm_RSSBytes m \<noteq> None \<and> nm_PageFaults m \<noteq> None \<and> nm_MajorPageFaults m \<noteq> None \<and> nm_PSI m \<noteq> None)"

definition SwapComplete :: "node_swap option \<Rightarrow> bool" where
  "SwapComplete swap \<longleftrightarrow> (case swap of None \<Rightarrow> False | Some w \<Rightarrow>
     sw_UsageBytes w \<noteq> None \<and> sw_AvailableBytes w \<noteq> None)"

definition StatsComplete :: "node_stats \<Rightarrow> bool" where
  "StatsComplete st \<longleftrightarrow> MemoryComplete (ns_Memory st) \<and> SwapComplete (ns_Swap st) \<and>
     length (ns_SystemContainers st) = MaxSystemContainers \<and>
     (\<forall>item \<in> set (ns_SystemContainers st).
        MemoryComplete (sy_Memory item) \<and> \<not> is_zero_time (sy_StartedAt item))"

subsection \<open>Validation\<close>

record node_lib =
  lib_marshal :: "observation \<Rightarrow> string option"
  lib_dns :: "string \<Rightarrow> bool"
  lib_qualified :: "string \<Rightarrow> bool"
  lib_quantity :: "string \<Rightarrow> (u64 \<times> bool)"

definition validFailure :: "string \<Rightarrow> string \<Rightarrow> bool" where
  "validFailure availability reason \<longleftrightarrow>
    (if availability = cap_Forbidden then reason = ''access-denied''
     else if availability = cap_Unsupported then reason = ''unsupported-profile''
     else if availability = cap_Unreported then reason = ''not-observed''
     else if availability = cap_Unavailable then
       reason \<in> {''invalid-target'', ''untrusted-tls'', ''authentication-failed'', ''timed-out'',
         ''unreachable'', ''invalid-response'', ''response-too-large'', ''throttled'',
         ''source-unavailable''}
     else False)"

definition psi_value_ok :: "f64 \<Rightarrow> bool" where
  "psi_value_ok v \<longleftrightarrow> \<not> (isNaN v \<or> isInf v \<or> f64_lt v (Fin 0) \<or> f64_lt (Fin 100) v)"

definition validatePSI :: "node_psi option \<Rightarrow> bool" where
  "validatePSI psi \<longleftrightarrow> (case psi of None \<Rightarrow> True | Some p \<Rightarrow>
     (\<forall>row \<in> {np_Some p, np_Full p}.
        psi_value_ok (pd_Avg10 row) \<and> psi_value_ok (pd_Avg60 row) \<and> psi_value_ok (pd_Avg300 row)))"

definition has_prefix :: "string \<Rightarrow> string \<Rightarrow> bool" where
  "has_prefix s p \<longleftrightarrow> take (length p) s = p"

fun validateHugepages :: "node_lib \<Rightarrow> string list \<Rightarrow> hugepage list \<Rightarrow> bool" where
  "validateHugepages L seen [] = True"
| "validateHugepages L seen (page # pages) =
    (if \<not> has_prefix (hg_Resource page) ''hugepages-'' \<or> length (hg_Resource page) > MaxResourceBytes
        \<or> \<not> lib_qualified L (hg_Resource page) \<or> hg_Resource page \<in> set seen
     then False
     else
       let (size, valid) = lib_quantity L (drop (length ''hugepages-'') (hg_Resource page)) in
       if \<not> valid \<or> size = 0 then False
       else validateHugepages L (hg_Resource page # seen) pages)"

definition validateContext ::
    "node_lib \<Rightarrow> kubernetes_context option \<Rightarrow> (time \<Rightarrow> bool) \<Rightarrow> bool" where
  "validateContext L value validTime \<longleftrightarrow> (case value of None \<Rightarrow> True | Some c \<Rightarrow>
     validTime (kc_CapturedAt c) \<and> length (kc_Hugepages c) \<le> MaxHugepages \<and>
     kc_MemoryPressure c \<in> {''True'', ''False'', ''Unknown''} \<and>
     validateHugepages L [] (kc_Hugepages c))"

text \<open>
  The closure \<open>check\<close> of \<open>Validate\<close>: it folds the measurement times of one memory and one swap
  sample into the earliest time seen so far, or fails.
\<close>

definition sample_times :: "node_memory option \<Rightarrow> node_swap option \<Rightarrow> time list" where
  "sample_times memory swap =
     (case memory of None \<Rightarrow> [] | Some m \<Rightarrow> [nm_CapturedAt m]) @
     (case swap of None \<Rightarrow> [] | Some w \<Rightarrow> [sw_CapturedAt w])"

fun observe_times :: "(time \<Rightarrow> bool) \<Rightarrow> time \<Rightarrow> time \<Rightarrow> time \<Rightarrow> time list \<Rightarrow> time option" where
  "observe_times validTime started start earliest [] = Some earliest"
| "observe_times validTime started start earliest (tm # tms) =
    (if \<not> validTime tm \<or> tm < started \<or> tm < start then None
     else observe_times validTime started start
       (if is_zero_time earliest \<or> tm < earliest then tm else earliest) tms)"

definition check_sample ::
    "(time \<Rightarrow> bool) \<Rightarrow> time \<Rightarrow> node_memory option \<Rightarrow> node_swap option \<Rightarrow> time \<Rightarrow> time \<Rightarrow> time option" where
  "check_sample validTime started memory swap start earliest =
    (if (case memory of None \<Rightarrow> True | Some m \<Rightarrow> validatePSI (nm_PSI m))
     then observe_times validTime started start earliest (sample_times memory swap)
     else None)"

fun check_systems ::
    "(time \<Rightarrow> bool) \<Rightarrow> time \<Rightarrow> time \<Rightarrow> string list \<Rightarrow> system_container list \<Rightarrow> time \<Rightarrow> time option" where
  "check_systems validTime started latest seen [] earliest = Some earliest"
| "check_systems validTime started latest seen (item # items) earliest =
    (if sy_Category item \<notin> {cat_Kubelet, cat_Runtime, cat_Misc, cat_Pods} then None
     else if sy_Category item \<in> set seen \<or> latest < sy_StartedAt item then None
     else case check_sample validTime started (sy_Memory item) (sy_Swap item) (sy_StartedAt item) earliest of
       None \<Rightarrow> None
     | Some e \<Rightarrow> check_systems validTime started latest (sy_Category item # seen) items e)"

definition valid_time :: "time \<Rightarrow> duration \<Rightarrow> duration \<Rightarrow> time \<Rightarrow> time \<Rightarrow> bool" where
  "valid_time now maxAge futureSkew reportedAt tm \<longleftrightarrow>
     \<not> is_zero_time tm \<and> \<not> tm < now - maxAge \<and> \<not> tm > now + futureSkew \<and> \<not> tm > reportedAt + futureSkew"

definition caveats_ok :: "envelope \<Rightarrow> bool" where
  "caveats_ok e \<longleftrightarrow> (\<forall>caveat \<in> set (en_Caveats e).
     caveat = ''stats-provenance-unknown'' \<or>
     caveat = ''optional-fields-unreported'' \<and> en_Completeness e \<noteq> cap_Complete)"

definition header_ok :: "node_lib \<Rightarrow> observation \<Rightarrow> bool" where
  "header_ok L ob \<longleftrightarrow>
    (case lib_marshal L ob of None \<Rightarrow> False | Some body \<Rightarrow> length body \<le> MaxObservationBytes) \<and>
    lib_dns L (ob_NodeName ob) \<and> ob_NodeUID ob \<noteq> '''' \<and> length (ob_NodeUID ob) \<le> MaxNodeUIDBytes \<and>
    (\<forall>ch \<in> set (ob_NodeUID ob). ch \<notin> {CHR 0x00, CHR 0x0D, CHR 0x0A, CHR 0x09, CHR '' ''})"

definition failure_ok :: "observation \<Rightarrow> bool" where
  "failure_ok ob \<longleftrightarrow> en_Completeness (ob_Evidence ob) = cap_Partial \<and> ob_Stats ob = None \<and>
     is_zero_time (en_CapturedAt (ob_Evidence ob)) \<and>
     en_Freshness (ob_Evidence ob) = cap_UnknownFreshness \<and>
     validFailure (ob_Availability ob) (ob_Reason ob)"

definition stats_ok :: "observation \<Rightarrow> node_stats \<Rightarrow> (time \<Rightarrow> bool) \<Rightarrow> duration \<Rightarrow> bool" where
  "stats_ok ob st validTime futureSkew \<longleftrightarrow>
    (let e = ob_Evidence ob in
     ob_Reason ob = '''' \<and> validTime (en_CapturedAt e) \<and>
     (en_Freshness e = cap_Fresh \<or> en_Freshness e = cap_Stale) \<and>
     \<not> (en_Completeness e = cap_Complete \<and>
        (\<not> StatsComplete st \<or> (case ob_Context ob of None \<Rightarrow> True | Some c \<Rightarrow>
           kc_CapacityBytes c = None \<or> kc_AllocatableBytes c = None))) \<and>
     HasMeasurements st \<and>
     \<not> is_zero_time (ns_StartedAt st) \<and> \<not> ns_StartedAt st > en_CapturedAt e \<and>
     length (ns_SystemContainers st) \<le> MaxSystemContainers \<and>
     ns_Provenance st \<in> {''unknown'', ''cadvisor'', ''cri''} \<and>
     (case check_sample validTime (ns_StartedAt st) (ns_Memory st) (ns_Swap st) (ns_StartedAt st) 0 of
        None \<Rightarrow> False
      | Some e1 \<Rightarrow>
        (case check_systems validTime (ns_StartedAt st) (ob_ReportedAt ob + futureSkew) []
               (ns_SystemContainers st) e1 of
           None \<Rightarrow> False
         | Some e2 \<Rightarrow> \<not> is_zero_time e2 \<and> e2 = en_CapturedAt e)))"

definition obs_Validate :: "node_lib \<Rightarrow> observation \<Rightarrow> time \<Rightarrow> duration \<Rightarrow> duration \<Rightarrow> bool" where
  "obs_Validate L ob now maxAge futureSkew \<longleftrightarrow>
    (let validTime = valid_time now maxAge futureSkew (ob_ReportedAt ob); e = ob_Evidence ob in
     header_ok L ob \<and>
     validTime (ob_ReportedAt ob) \<and> validTime (en_ReceivedAt e) \<and> en_Source e = ''kubelet-summary'' \<and>
     en_Scope e = ''node'' \<and> en_APIVersion e = ''v1alpha1'' \<and>
     en_Stability e = ''implementation-specific'' \<and> en_Window e = 0 \<and>
     length (en_Caveats e) \<le> MaxCaveats \<and> caveats_ok e \<and>
     (en_Completeness e = cap_Complete \<or> en_Completeness e = cap_Partial) \<and>
     validateContext L (ob_Context ob) validTime \<and>
     (if ob_Availability ob \<noteq> cap_Available then failure_ok ob
      else case ob_Stats ob of None \<Rightarrow> False
        | Some st \<Rightarrow> stats_ok ob st validTime futureSkew))"

subsection \<open>What an accepted report satisfies\<close>

text \<open>The times of all measurements of a report.\<close>

definition measurement_times :: "node_stats \<Rightarrow> time list" where
  "measurement_times st = sample_times (ns_Memory st) (ns_Swap st) @
     concat (map (\<lambda>item. sample_times (sy_Memory item) (sy_Swap item)) (ns_SystemContainers st))"

fun oldest :: "time \<Rightarrow> time list \<Rightarrow> time" where
  "oldest e [] = e"
| "oldest e (tm # tms) = oldest (if e = 0 \<or> tm < e then tm else e) tms"

lemma oldest_append: "oldest e (xs @ ys) = oldest (oldest e xs) ys"
  by (induction e xs rule: oldest.induct) simp_all

lemma oldest_Min:
  assumes "\<forall>x \<in> set xs. x \<noteq> 0" and "e \<noteq> 0"
  shows "oldest e xs = Min (insert e (set xs))"
  using assms
proof (induction xs arbitrary: e)
  case (Cons x xs)
  then have "oldest e (x # xs) = Min (insert (min x e) (set xs))"
    by (simp add: min_def not_less)
  also have "... = Min (insert e (set (x # xs)))"
    by (cases "xs = []") (auto simp: min.commute min.left_commute)
  finally show ?case .
qed simp

lemma observe_times_Some:
  "observe_times ok started start e tms = Some r \<Longrightarrow>
     r = oldest e tms \<and> (\<forall>tm \<in> set tms. ok tm \<and> started \<le> tm \<and> start \<le> tm)"
  by (induction ok started start e tms rule: observe_times.induct) (auto split: if_splits)

lemma check_sample_Some:
  "check_sample ok started m w start e = Some r \<Longrightarrow>
     r = oldest e (sample_times m w) \<and>
     (\<forall>tm \<in> set (sample_times m w). ok tm \<and> started \<le> tm \<and> start \<le> tm)"
  unfolding check_sample_def by (auto dest: observe_times_Some split: if_splits)

lemma check_systems_Some:
  "check_systems ok started latest seen items e = Some r \<Longrightarrow>
     r = oldest e (concat (map (\<lambda>i. sample_times (sy_Memory i) (sy_Swap i)) items)) \<and>
     (\<forall>i \<in> set items. \<forall>tm \<in> set (sample_times (sy_Memory i) (sy_Swap i)).
        ok tm \<and> started \<le> tm \<and> sy_StartedAt i \<le> tm) \<and>
     distinct (map sy_Category items) \<and> set seen \<inter> set (map sy_Category items) = {}"
proof (induction ok started latest seen items e rule: check_systems.induct)
  case (2 ok started latest seen item items e)
  then obtain e1 where
    step: "check_sample ok started (sy_Memory item) (sy_Swap item) (sy_StartedAt item) e = Some e1"
      "sy_Category item \<notin> set seen"
      "check_systems ok started latest (sy_Category item # seen) items e1 = Some r"
    by (auto split: if_splits option.splits)
  have "r = oldest e1 (concat (map (\<lambda>i. sample_times (sy_Memory i) (sy_Swap i)) items)) \<and>
     (\<forall>i \<in> set items. \<forall>tm \<in> set (sample_times (sy_Memory i) (sy_Swap i)).
        ok tm \<and> started \<le> tm \<and> sy_StartedAt i \<le> tm) \<and>
     distinct (map sy_Category items) \<and>
     set (sy_Category item # seen) \<inter> set (map sy_Category items) = {}"
    using "2.IH" "2.prems" step by (auto split: if_splits)
  with check_sample_Some [OF step(1)] step(2) show ?case
    by (auto simp: oldest_append)
qed auto

lemma stats_ok_times:
  assumes "stats_ok ob st ok skew"
  shows "\<forall>tm \<in> set (measurement_times st). ok tm \<and> ns_StartedAt st \<le> tm"
    and "oldest 0 (measurement_times st) = en_CapturedAt (ob_Evidence ob)"
    and "en_CapturedAt (ob_Evidence ob) \<noteq> 0"
    and "distinct (map sy_Category (ns_SystemContainers st))"
proof -
  from assms obtain e1 e2 where
    e1: "check_sample ok (ns_StartedAt st) (ns_Memory st) (ns_Swap st) (ns_StartedAt st) 0 = Some e1" and
    e2: "check_systems ok (ns_StartedAt st) (ob_ReportedAt ob + skew) [] (ns_SystemContainers st) e1 = Some e2"
      "e2 \<noteq> 0" "e2 = en_CapturedAt (ob_Evidence ob)"
    by (auto simp: stats_ok_def Let_def split: option.splits)
  note facts = check_sample_Some [OF e1] check_systems_Some [OF e2(1)]
  show "\<forall>tm \<in> set (measurement_times st). ok tm \<and> ns_StartedAt st \<le> tm"
    using facts by (auto simp: measurement_times_def)
  show "oldest 0 (measurement_times st) = en_CapturedAt (ob_Evidence ob)"
    using facts e2 by (simp add: measurement_times_def oldest_append)
  show "en_CapturedAt (ob_Evidence ob) \<noteq> 0"
    using e2 by simp
  show "distinct (map sy_Category (ns_SystemContainers st))"
    using facts by simp
qed

lemma oldest_zero_Min:
  assumes "\<forall>x \<in> set xs. x \<noteq> 0" and "oldest 0 xs \<noteq> 0"
  shows "xs \<noteq> [] \<and> oldest 0 xs = Min (set xs)"
  using assms by (cases xs) (auto simp: oldest_Min)

lemma obs_Validate_stats:
  assumes "obs_Validate L ob now maxAge skew" and "ob_Stats ob = Some st"
  shows "ob_Availability ob = cap_Available \<and>
    stats_ok ob st (valid_time now maxAge skew (ob_ReportedAt ob)) skew"
  using assms by (auto simp: obs_Validate_def failure_ok_def Let_def split: if_splits)

text \<open>
  An accepted Node report that carries measurements is stamped with the oldest of its
  measurement times, so a reader that checks the age of the report bounds the age of every
  number in it; each measurement lies inside the admission window and after the start of the
  source, and the report is marked available.
\<close>

theorem observation_capture_is_oldest:
  assumes "obs_Validate L ob now maxAge skew" and "ob_Stats ob = Some st"
  shows "ob_Availability ob = cap_Available
    \<and> measurement_times st \<noteq> []
    \<and> en_CapturedAt (ob_Evidence ob) = Min (set (measurement_times st))
    \<and> (\<forall>tm \<in> set (measurement_times st).
         now - maxAge \<le> tm \<and> tm \<le> now + skew \<and> ns_StartedAt st \<le> tm)"
proof -
  from obs_Validate_stats [OF assms]
  have av: "ob_Availability ob = cap_Available" and
    ok: "stats_ok ob st (valid_time now maxAge skew (ob_ReportedAt ob)) skew"
    by simp_all
  have times: "\<forall>tm \<in> set (measurement_times st).
      tm \<noteq> 0 \<and> now - maxAge \<le> tm \<and> tm \<le> now + skew \<and> ns_StartedAt st \<le> tm"
    using stats_ok_times(1) [OF ok] by (auto simp: valid_time_def)
  have "measurement_times st \<noteq> [] \<and> oldest 0 (measurement_times st) = Min (set (measurement_times st))"
    by (rule oldest_zero_Min) (use times stats_ok_times(2,3) [OF ok] in auto)
  with av times stats_ok_times(2) [OF ok] show ?thesis
    by auto
qed

text \<open>A report with one memory and one swap sample, taken ten nanoseconds apart.\<close>

definition sample_lib :: node_lib where
  "sample_lib = \<lparr>lib_marshal = (\<lambda>ob. Some (ob_NodeName ob @ ob_NodeUID ob)), lib_dns = (\<lambda>n. n \<noteq> ''''),
     lib_qualified = (\<lambda>n. n \<noteq> ''''), lib_quantity = (\<lambda>s. (0, False))\<rparr>"

definition sample_stats :: node_stats where
  "sample_stats = \<lparr>ns_StartedAt = 10, ns_Provenance = ''cri'',
     ns_Memory = Some \<lparr>nm_CapturedAt = 100, nm_AvailableBytes = None, nm_UsageBytes = Some 4096,
       nm_WorkingSetBytes = None, nm_RSSBytes = None, nm_PageFaults = None,
       nm_MajorPageFaults = None, nm_PSI = None\<rparr>,
     ns_Swap = Some \<lparr>sw_CapturedAt = 90, sw_UsageBytes = Some 0, sw_AvailableBytes = None\<rparr>,
     ns_SystemContainers = []\<rparr>"

definition sample_report :: observation where
  "sample_report = \<lparr>ob_NodeName = ''n1'', ob_NodeUID = ''u1'', ob_ReportedAt = 110,
     ob_Availability = cap_Available, ob_Reason = '''',
     ob_Evidence = \<lparr>en_Source = ''kubelet-summary'', en_APIVersion = ''v1alpha1'', en_CapturedAt = 90,
       en_ReceivedAt = 105, en_Window = 0, en_Scope = ''node'', en_Freshness = cap_Fresh,
       en_Completeness = cap_Partial, en_Stability = ''implementation-specific'',
       en_Caveats = [''optional-fields-unreported'']\<rparr>,
     ob_Stats = Some sample_stats, ob_Context = None\<rparr>"

lemmas sample_report_defs = sample_lib_def sample_stats_def sample_report_def

lemma sample_report_valid: "obs_Validate sample_lib sample_report 120 60 10"
  by (simp add: obs_Validate_def sample_report_defs header_ok_def valid_time_def caveats_ok_def
      validateContext_def stats_ok_def HasMeasurements_def known_measurement_def check_sample_def
      sample_times_def validatePSI_def cap_defs node_limit_defs Let_def)

theorem observation_capture_is_oldest_witness:
  "measurement_times sample_stats = [100, 90]
   \<and> en_CapturedAt (ob_Evidence sample_report) = Min (set (measurement_times sample_stats))"
  using observation_capture_is_oldest [of sample_lib sample_report 120 60 10 sample_stats]
    sample_report_valid
  by (simp add: measurement_times_def sample_times_def sample_report_defs)

end
