(* ===== verification/Api_Types.thy ===== *)
theory Api_Types
  imports Memory_Model Resources Node_Observation
begin

text \<open>
  Package \<open>internal/api\<close>: the structs of \<open>types.go\<close> the collector exchanges, the projection of a
  snapshot to an older schema (\<open>resource_schema.go\<close>, \<open>io_schema.go\<close>) and the comparison of two
  observations of one container (\<open>collector/container_instance.go\<close>). The private payloads
  \<open>volumeBatch\<close> and \<open>topology\<close> are byte strings, as \<open>json.RawMessage\<close> is; a nil slice is the empty
  list.

  The lemmas: projecting to an older schema is idempotent and never invents evidence.
\<close>

subsection \<open>Evidence vocabulary\<close>

definition EvidenceFresh :: string where
  "EvidenceFresh = ''fresh''"

definition EvidenceStale :: string where
  "EvidenceStale = ''stale''"

definition EvidenceMissing :: string where
  "EvidenceMissing = ''missing''"

definition EvidenceComplete :: string where
  "EvidenceComplete = ''complete''"

definition EvidencePartial :: string where
  "EvidencePartial = ''partial''"

lemmas evidence_defs = EvidenceFresh_def EvidenceStale_def EvidenceMissing_def EvidenceComplete_def
  EvidencePartial_def

lemma evidence_distinct [simp]:
  "EvidenceComplete \<noteq> EvidencePartial" "EvidencePartial \<noteq> EvidenceComplete"
  "EvidenceFresh \<noteq> EvidenceStale" "EvidenceStale \<noteq> EvidenceFresh"
  by (simp_all add: evidence_defs)

subsection \<open>Containers\<close>

record container_context =
  cc_Resources :: container_memory_resources
  cc_MemoryRequestBytes :: u64
  cc_MemoryRequestKnown :: bool
  cc_MemoryLimitBytes :: u64
  cc_MemoryLimitKnown :: bool
  cc_QoSClass :: string
  cc_RestartCount :: int
  cc_LastTerminationKnown :: bool
  cc_LastTerminationReason :: string
  cc_LastTerminationExitCode :: int
  cc_LastTerminationFinishedAt :: time
  cc_PodPhase :: string
  cc_PodCreatedAt :: time
  cc_OwnerKind :: string
  cc_OwnerName :: string
  cc_WorkloadKind :: string
  cc_WorkloadName :: string
  cc_NodeMemoryPressure :: string
  cc_NodeMemoryAllocatable :: u64
  cc_NodeMemoryAllocatableKnown :: bool
  cc_RuntimeClassName :: string
  cc_MemoryEmptyDirCount :: int
  cc_MemoryEmptyDirLimited :: int
  cc_MemoryEmptyDirLimitBytes :: u64
  cc_Labels :: "(string, string) gomap"

record container_snapshot =
  cs_Namespace :: string
  cs_PodName :: string
  cs_PodUID :: string
  cs_ContainerName :: string
  cs_ContainerID :: string
  cs_NodeName :: string
  cs_CgroupPath :: string
  cs_CapturedAt :: time
  cs_Freshness :: string
  cs_Completeness :: string
  cs_DeltaStartedAt :: time
  cs_DeltaWindowKnown :: bool
  cs_Context :: container_context
  cs_Memory :: memory_breakdown

definition context_zero :: container_context where
  "context_zero = \<lparr>cc_Resources = cr_zero, cc_MemoryRequestBytes = 0, cc_MemoryRequestKnown = False,
     cc_MemoryLimitBytes = 0, cc_MemoryLimitKnown = False, cc_QoSClass = '''', cc_RestartCount = 0,
     cc_LastTerminationKnown = False, cc_LastTerminationReason = '''', cc_LastTerminationExitCode = 0,
     cc_LastTerminationFinishedAt = 0, cc_PodPhase = '''', cc_PodCreatedAt = 0, cc_OwnerKind = '''',
     cc_OwnerName = '''', cc_WorkloadKind = '''', cc_WorkloadName = '''', cc_NodeMemoryPressure = '''',
     cc_NodeMemoryAllocatable = 0, cc_NodeMemoryAllocatableKnown = False, cc_RuntimeClassName = '''',
     cc_MemoryEmptyDirCount = 0, cc_MemoryEmptyDirLimited = 0, cc_MemoryEmptyDirLimitBytes = 0,
     cc_Labels = []\<rparr>"

definition container_zero :: container_snapshot where
  "container_zero = \<lparr>cs_Namespace = '''', cs_PodName = '''', cs_PodUID = '''', cs_ContainerName = '''',
     cs_ContainerID = '''', cs_NodeName = '''', cs_CgroupPath = '''', cs_CapturedAt = 0,
     cs_Freshness = '''', cs_Completeness = '''', cs_DeltaStartedAt = 0, cs_DeltaWindowKnown = False,
     cs_Context = context_zero, cs_Memory = memory_zero\<rparr>"

definition sameContainerInstance :: "container_snapshot \<Rightarrow> container_snapshot \<Rightarrow> bool" where
  "sameContainerInstance a b \<longleftrightarrow> cs_ContainerID a = cs_ContainerID b \<and> cs_PodUID a = cs_PodUID b \<and>
     cs_Namespace a = cs_Namespace b \<and> cs_PodName a = cs_PodName b \<and>
     cs_ContainerName a = cs_ContainerName b \<and> cs_CgroupPath a = cs_CgroupPath b"

subsection \<open>The agent's snapshot\<close>

record node_environment =
  env_CgroupVersion :: string
  env_CgroupDriver :: string
  env_ContainerRuntimes :: "string list"
  env_CgroupReadErrors :: int
  env_NodeContextAvailable :: bool
  env_MemoryPressureStatus :: string
  env_MemoryPressureSince :: time
  env_MemoryAllocatableBytes :: u64
  env_MemoryAllocatableKnown :: bool
  env_WorkloadContextAvailable :: bool
  env_WorkloadContextErrors :: int

definition env_zero :: node_environment where
  "env_zero = \<lparr>env_CgroupVersion = '''', env_CgroupDriver = '''', env_ContainerRuntimes = [],
     env_CgroupReadErrors = 0, env_NodeContextAvailable = False, env_MemoryPressureStatus = '''',
     env_MemoryPressureSince = 0, env_MemoryAllocatableBytes = 0, env_MemoryAllocatableKnown = False,
     env_WorkloadContextAvailable = False, env_WorkloadContextErrors = 0\<rparr>"

record agent_snapshot =
  as_SchemaVersion :: int
  as_NodeName :: string
  as_CapturedAt :: time
  as_Environment :: node_environment
  as_Containers :: "container_snapshot list"
  as_NodeContext :: "observation option"
  as_VolumeBatch :: string
  as_Topology :: string

subsection \<open>History\<close>

record history_point =
  hp_CapturedAt :: time
  hp_TotalBytes :: u64
  hp_AnonBytes :: u64
  hp_FileCacheBytes :: u64
  hp_ShmemBytes :: u64
  hp_SlabReclaimableBytes :: u64
  hp_SlabUnreclaimableBytes :: u64
  hp_KernelBytes :: u64
  hp_SocketBytes :: u64
  hp_PageTableBytes :: u64
  hp_FileMappedBytes :: u64
  hp_AnonTHPBytes :: u64
  hp_FileTHPBytes :: u64
  hp_ShmemTHPBytes :: u64
  hp_ResidualBytes :: u64
  hp_SwapBytes :: u64
  hp_PeakBytes :: u64
  hp_PSISomeAvg10 :: f64
  hp_PSIFullAvg10 :: f64
  hp_OOMEventsDelta :: u64
  hp_OOMKillEventsDelta :: u64
  hp_HighEventsDelta :: u64
  hp_MaxEventsDelta :: u64
  hp_ReclaimDeltasKnown :: bool
  hp_RefaultAnonDelta :: u64
  hp_RefaultFileDelta :: u64
  hp_PageScanDelta :: u64
  hp_PageStealDelta :: u64
  hp_MajorFaultsDelta :: u64

record pod_history =
  ph_Namespace :: string
  ph_PodName :: string
  ph_PodUID :: string
  ph_NodeName :: string
  ph_Points :: "history_point list"

record history_reliability =
  hr_ResetAt :: time
  hr_AvailableFrom :: time
  hr_Completeness :: string
  hr_DroppedSeries :: u64
  hr_EvictedPoints :: u64
  hr_LastLossAt :: time

subsection \<open>Schema versions\<close>

definition LegacySchemaVersion :: int where
  "LegacySchemaVersion = 1"

definition VolumeSnapshotSchemaVersion :: int where
  "VolumeSnapshotSchemaVersion = 4"

definition IOPressureSnapshotSchemaVersion :: int where
  "IOPressureSnapshotSchemaVersion = 6"

definition TopologySnapshotSchemaVersion :: int where
  "TopologySnapshotSchemaVersion = 7"

definition CurrentSnapshotSchemaVersion :: int where
  "CurrentSnapshotSchemaVersion = TopologySnapshotSchemaVersion"

lemmas schema_defs = LegacySchemaVersion_def VolumeSnapshotSchemaVersion_def
  IOPressureSnapshotSchemaVersion_def TopologySnapshotSchemaVersion_def
  CurrentSnapshotSchemaVersion_def

definition SupportedSnapshotSchema :: "int \<Rightarrow> bool" where
  "SupportedSnapshotSchema version \<longleftrightarrow>
     LegacySchemaVersion \<le> version \<and> version \<le> CurrentSnapshotSchemaVersion"

definition containerForSchema :: "container_snapshot \<Rightarrow> int \<Rightarrow> container_snapshot" where
  "containerForSchema c version =
    (let c1 = (if version = LegacySchemaVersion
               then c\<lparr>cs_Context := (cs_Context c)\<lparr>cc_Resources := cr_zero\<rparr>\<rparr> else c)
     in if version < IOPressureSnapshotSchemaVersion
        then c1\<lparr>cs_Memory := (cs_Memory c1)\<lparr>IOPressure := io_zero\<rparr>\<rparr> else c1)"

definition containersForSchema :: "container_snapshot list \<Rightarrow> int \<Rightarrow> container_snapshot list" where
  "containersForSchema cs version = map (\<lambda>c. containerForSchema c version) cs"

definition AgentSnapshotForSchema :: "agent_snapshot \<Rightarrow> int \<Rightarrow> agent_snapshot" where
  "AgentSnapshotForSchema s version =
    (let s0 = s\<lparr>as_SchemaVersion := version\<rparr>;
         s1 = (if version < TopologySnapshotSchemaVersion then s0\<lparr>as_Topology := ''''\<rparr> else s0);
         s2 = (if version < VolumeSnapshotSchemaVersion then s1\<lparr>as_VolumeBatch := ''''\<rparr> else s1);
         s3 = (if version < 3 then s2\<lparr>as_NodeContext := None\<rparr> else s2)
     in if version < IOPressureSnapshotSchemaVersion
        then s3\<lparr>as_Containers := containersForSchema (as_Containers s3) version\<rparr> else s3)"

subsection \<open>Lemmas\<close>

lemma sameContainerInstance_refl [simp]: "sameContainerInstance a a"
  by (simp add: sameContainerInstance_def)

lemma sameContainerInstance_sym: "sameContainerInstance a b = sameContainerInstance b a"
  by (auto simp: sameContainerInstance_def)

lemma containerForSchema_frame [simp]:
  "cs_ContainerID (containerForSchema c v) = cs_ContainerID c"
  "cs_Namespace (containerForSchema c v) = cs_Namespace c"
  "cs_PodName (containerForSchema c v) = cs_PodName c"
  "TotalBytes (cs_Memory (containerForSchema c v)) = TotalBytes (cs_Memory c)"
  by (auto simp: containerForSchema_def Let_def)

lemma containerForSchema_idem [simp]:
  "containerForSchema (containerForSchema c v) v = containerForSchema c v"
  by (simp add: containerForSchema_def Let_def)

lemma containersForSchema_idem [simp]:
  "containersForSchema (containersForSchema cs v) v = containersForSchema cs v"
  by (simp add: containersForSchema_def)

lemma AgentSnapshotForSchema_idem:
  "AgentSnapshotForSchema (AgentSnapshotForSchema s v) v = AgentSnapshotForSchema s v"
  by (simp add: AgentSnapshotForSchema_def Let_def)

text \<open>An older reader receives none of the evidence its schema does not know.\<close>

lemma AgentSnapshotForSchema_omits:
  "v < 7 \<Longrightarrow> as_Topology (AgentSnapshotForSchema s v) = ''''"
  "v < 4 \<Longrightarrow> as_VolumeBatch (AgentSnapshotForSchema s v) = ''''"
  "v < 3 \<Longrightarrow> as_NodeContext (AgentSnapshotForSchema s v) = None"
  "v < 6 \<Longrightarrow> c \<in> set (as_Containers (AgentSnapshotForSchema s v)) \<Longrightarrow> IOPressure (cs_Memory c) = io_zero"
  by (auto simp: AgentSnapshotForSchema_def containersForSchema_def containerForSchema_def Let_def
      schema_defs)

end
