(* ===== verification/Snapshot_Validation.thy ===== *)
theory Snapshot_Validation
  imports Api_Types
begin

text \<open>
  The structural validation of an agent snapshot: \<open>ValidateSnapshot\<close> and
  \<open>validateContainerContext\<close> of \<open>collector/server.go\<close>, \<open>validatePodResourceAgreement\<close> of
  \<open>collector/resource_validation.go\<close>. A \<open>fmt.Errorf\<close> is a constructor of \<open>snapshot_error\<close>, with the
  container's index where the message carries it; \<open>None\<close> is the nil error. The checks run in the
  order of the source, so the first failing check decides the error.

  The lemmas: what an accepted snapshot satisfies, which is what the store and the coordinator
  rely on.
\<close>

record handler_options =
  ho_SnapshotTTL :: duration
  ho_MaxContainers :: nat
  ho_MaxSnapshotAge :: duration
  ho_MaxFutureSkew :: duration

datatype context_error =
    ResourcesInvalid resource_error
  | NegativeRestartCount
  | FieldTooLong
  | OwnerNameTooLong
  | WorkloadNameTooLong
  | EmptyDirCountsInvalid
  | TooManyLabels
  | LabelTooLong

datatype snapshot_error =
    TopologyNeedsSchema
  | VolumeNeedsSchema
  | UnsupportedSchema int
  | NodeNameRequired
  | NodeNameTooLong
  | CapturedAtRequired
  | CapturedAtTooOld
  | CapturedAtInFuture
  | TooManyContainers
  | NegativeCgroupReadErrors
  | NegativeWorkloadContextErrors
  | CgroupFieldsTooLong
  | PressureStatusTooLong
  | TooManyRuntimes
  | RuntimeTooLong nat
  | IONeedsSchema nat
  | IOInvalidObservation
  | NamespaceTooLong nat
  | PodNameTooLong nat
  | PodUIDTooLong nat
  | ContainerNameTooLong nat
  | ContainerIDRequired nat
  | ContainerIDTooLong nat
  | ContainerIDDuplicated nat
  | CgroupPathTooLong nat
  | ResourcesNeedSchema nat
  | ContextInvalid nat context_error
  | NodeNameMismatch nat
  | PodResourcesDiffer

text \<open>
  \<open>strings.TrimSpace(s) == ""\<close>: every code point of \<open>s\<close> is Unicode white space. The bytes are
  those of the UTF-8 encodings of the 25 white-space code points.
\<close>

definition ascii_space :: "nat \<Rightarrow> bool" where
  "ascii_space b \<longleftrightarrow> 9 \<le> b \<and> b \<le> 13 \<or> b = 32"

fun blank_bytes :: "nat list \<Rightarrow> bool" where
  "blank_bytes [] = True"
| "blank_bytes [a] = ascii_space a"
| "blank_bytes [a, b] =
    (ascii_space a \<and> ascii_space b \<or> a = 0xC2 \<and> (b = 0x85 \<or> b = 0xA0))"
| "blank_bytes (a # b # c # bs) =
    (if ascii_space a then blank_bytes (b # c # bs)
     else if a = 0xC2 \<and> (b = 0x85 \<or> b = 0xA0) then blank_bytes (c # bs)
     else if a = 0xE1 \<and> b = 0x9A \<and> c = 0x80 then blank_bytes bs
     else if a = 0xE2 \<and> b = 0x80 \<and> (0x80 \<le> c \<and> c \<le> 0x8A \<or> c = 0xA8 \<or> c = 0xA9 \<or> c = 0xAF)
       then blank_bytes bs
     else if a = 0xE2 \<and> b = 0x81 \<and> c = 0x9F then blank_bytes bs
     else if a = 0xE3 \<and> b = 0x80 \<and> c = 0x80 then blank_bytes bs
     else False)"

definition trims_to_empty :: "string \<Rightarrow> bool" where
  "trims_to_empty s \<longleftrightarrow> blank_bytes (map of_char s)"

definition validateContainerContext :: "container_context \<Rightarrow> context_error option" where
  "validateContainerContext c =
    (case cr_Validate (cc_Resources c) of Some e \<Rightarrow> Some (ResourcesInvalid e) | None \<Rightarrow>
     if cc_RestartCount c < 0 then Some NegativeRestartCount
     else if (\<exists>v \<in> {cc_QoSClass c, cc_LastTerminationReason c, cc_PodPhase c, cc_OwnerKind c,
         cc_WorkloadKind c, cc_RuntimeClassName c}. length v > 64) then Some FieldTooLong
     else if length (cc_OwnerName c) > 253 then Some OwnerNameTooLong
     else if length (cc_WorkloadName c) > 253 then Some WorkloadNameTooLong
     else if cc_MemoryEmptyDirCount c < 0 \<or> cc_MemoryEmptyDirCount c > 256 \<or>
         cc_MemoryEmptyDirLimited c < 0 \<or> cc_MemoryEmptyDirLimited c > cc_MemoryEmptyDirCount c
       then Some EmptyDirCountsInvalid
     else if mlen (cc_Labels c) > 64 then Some TooManyLabels
     else if (\<exists>(k, v) \<in> set (cc_Labels c). length k > 253 \<or> length v > 253) then Some LabelTooLong
     else None)"

text \<open>The key type \<open>podResourceKey\<close> is the triple of its fields.\<close>

fun resource_agreement ::
    "(string \<times> string \<times> string, pod_memory_resources) gomap \<Rightarrow> container_snapshot list \<Rightarrow> bool" where
  "resource_agreement observed [] = True"
| "resource_agreement observed (c # cs) =
    (let resources = cr_Pod (cc_Resources (cs_Context c));
         key = (cs_Namespace c, cs_PodName c, cs_PodUID c)
     in if pr_IsZero resources then resource_agreement observed cs
        else case mget observed key of
          Some previous \<Rightarrow>
            if previous \<noteq> resources then False
            else resource_agreement (mput key resources observed) cs
        | None \<Rightarrow> resource_agreement (mput key resources observed) cs)"

definition validatePodResourceAgreement :: "container_snapshot list \<Rightarrow> snapshot_error option" where
  "validatePodResourceAgreement cs = (if resource_agreement [] cs then None else Some PodResourcesDiffer)"

fun validate_runtimes :: "nat \<Rightarrow> string list \<Rightarrow> snapshot_error option" where
  "validate_runtimes i [] = None"
| "validate_runtimes i (r # rs) =
    (if length r > 32 then Some (RuntimeTooLong i) else validate_runtimes (Suc i) rs)"

definition validate_container ::
    "agent_snapshot \<Rightarrow> nat \<Rightarrow> string list \<Rightarrow> container_snapshot \<Rightarrow> snapshot_error option" where
  "validate_container s i ids c =
    (if as_SchemaVersion s < IOPressureSnapshotSchemaVersion \<and> io_State (IOPressure (cs_Memory c)) \<noteq> ''''
       then Some (IONeedsSchema i)
     else if \<not> io_Validate (IOPressure (cs_Memory c)) then Some IOInvalidObservation
     else if length (cs_Namespace c) > 63 then Some (NamespaceTooLong i)
     else if length (cs_PodName c) > 253 then Some (PodNameTooLong i)
     else if length (cs_PodUID c) > 128 then Some (PodUIDTooLong i)
     else if length (cs_ContainerName c) > 63 then Some (ContainerNameTooLong i)
     else if trims_to_empty (cs_ContainerID c) then Some (ContainerIDRequired i)
     else if length (cs_ContainerID c) > 256 then Some (ContainerIDTooLong i)
     else if cs_ContainerID c \<in> set ids then Some (ContainerIDDuplicated i)
     else if length (cs_CgroupPath c) > 4096 then Some (CgroupPathTooLong i)
     else if as_SchemaVersion s = LegacySchemaVersion \<and> \<not> cr_IsZero (cc_Resources (cs_Context c))
       then Some (ResourcesNeedSchema i)
     else case validateContainerContext (cs_Context c) of
       Some e \<Rightarrow> Some (ContextInvalid i e)
     | None \<Rightarrow>
         if cs_NodeName c \<noteq> '''' \<and> cs_NodeName c \<noteq> as_NodeName s then Some (NodeNameMismatch i)
         else None)"

fun validate_containers ::
    "agent_snapshot \<Rightarrow> nat \<Rightarrow> string list \<Rightarrow> container_snapshot list \<Rightarrow> snapshot_error option" where
  "validate_containers s i ids [] = None"
| "validate_containers s i ids (c # cs) =
    (case validate_container s i ids c of
       Some e \<Rightarrow> Some e
     | None \<Rightarrow> validate_containers s (Suc i) (cs_ContainerID c # ids) cs)"

definition ValidateSnapshot ::
    "agent_snapshot \<Rightarrow> time \<Rightarrow> handler_options \<Rightarrow> snapshot_error option" where
  "ValidateSnapshot s now opts =
    (if as_Topology s \<noteq> '''' \<and>
        (as_SchemaVersion s < TopologySnapshotSchemaVersion \<or> as_NodeContext s = None)
       then Some TopologyNeedsSchema
     else if as_VolumeBatch s \<noteq> '''' \<and>
        (as_SchemaVersion s < VolumeSnapshotSchemaVersion \<or> as_NodeContext s = None)
       then Some VolumeNeedsSchema
     else if \<not> SupportedSnapshotSchema (as_SchemaVersion s) then Some (UnsupportedSchema (as_SchemaVersion s))
     else if trims_to_empty (as_NodeName s) then Some NodeNameRequired
     else if length (as_NodeName s) > 253 then Some NodeNameTooLong
     else if is_zero_time (as_CapturedAt s) then Some CapturedAtRequired
     else if as_CapturedAt s < now - ho_MaxSnapshotAge opts then Some CapturedAtTooOld
     else if as_CapturedAt s > now + ho_MaxFutureSkew opts then Some CapturedAtInFuture
     else if length (as_Containers s) > ho_MaxContainers opts then Some TooManyContainers
     else if env_CgroupReadErrors (as_Environment s) < 0 then Some NegativeCgroupReadErrors
     else if env_WorkloadContextErrors (as_Environment s) < 0 then Some NegativeWorkloadContextErrors
     else if length (env_CgroupVersion (as_Environment s)) > 32 \<or>
         length (env_CgroupDriver (as_Environment s)) > 32 then Some CgroupFieldsTooLong
     else if length (env_MemoryPressureStatus (as_Environment s)) > 16 then Some PressureStatusTooLong
     else if length (env_ContainerRuntimes (as_Environment s)) > 8 then Some TooManyRuntimes
     else case validate_runtimes 0 (env_ContainerRuntimes (as_Environment s)) of
       Some e \<Rightarrow> Some e
     | None \<Rightarrow>
        (case validate_containers s 0 [] (as_Containers s) of
           Some e \<Rightarrow> Some e
         | None \<Rightarrow> validatePodResourceAgreement (as_Containers s)))"

subsection \<open>What an accepted snapshot satisfies\<close>

lemma validate_container_None:
  assumes "validate_container s i ids c = None"
  shows "io_Validate (IOPressure (cs_Memory c))" "\<not> trims_to_empty (cs_ContainerID c)"
    "cs_ContainerID c \<notin> set ids" "cs_NodeName c = '''' \<or> cs_NodeName c = as_NodeName s"
    "validateContainerContext (cs_Context c) = None" "length (cs_ContainerID c) \<le> 256"
  using assms by (auto simp: validate_container_def split: if_splits option.splits)

lemma validate_containers_None:
  "validate_containers s i ids cs = None \<Longrightarrow>
     distinct (map cs_ContainerID cs) \<and> set ids \<inter> cs_ContainerID ` set cs = {} \<and>
     (\<forall>c \<in> set cs. io_Validate (IOPressure (cs_Memory c)) \<and> \<not> trims_to_empty (cs_ContainerID c) \<and>
        (cs_NodeName c = '''' \<or> cs_NodeName c = as_NodeName s) \<and>
        validateContainerContext (cs_Context c) = None)"
proof (induction s i ids cs rule: validate_containers.induct)
  case (2 s i ids c cs)
  then have "validate_container s i ids c = None"
    by (simp split: option.splits)
  with 2 validate_container_None [OF this] show ?case
    by auto
qed simp

definition pod_resources :: "container_snapshot \<Rightarrow> pod_memory_resources" where
  "pod_resources c = cr_Pod (cc_Resources (cs_Context c))"

definition pod_key :: "container_snapshot \<Rightarrow> string \<times> string \<times> string" where
  "pod_key c = (cs_Namespace c, cs_PodName c, cs_PodUID c)"

lemma resource_agreement_Cons:
  "resource_agreement observed (c # cs) \<longleftrightarrow>
    (if pr_IsZero (pod_resources c) then resource_agreement observed cs
     else (mget observed (pod_key c) = None \<or> mget observed (pod_key c) = Some (pod_resources c)) \<and>
       resource_agreement (mput (pod_key c) (pod_resources c) observed) cs)"
  by (auto simp: pod_resources_def pod_key_def Let_def split: option.splits)

lemma resource_agreement_keys:
  assumes "resource_agreement observed cs" and "mget observed (pod_key c) = Some r"
    and "c \<in> set cs" and "\<not> pr_IsZero (pod_resources c)"
  shows "pod_resources c = r"
  using assms
proof (induction cs arbitrary: observed)
  case (Cons d ds)
  show ?case
  proof (cases "pr_IsZero (pod_resources d)")
    case True
    with Cons show ?thesis
      by (metis resource_agreement_Cons set_ConsD)
  next
    case False
    with Cons.prems have head: "mget observed (pod_key d) \<in> {None, Some (pod_resources d)}" and
      rest: "resource_agreement (mput (pod_key d) (pod_resources d) observed) ds"
      by (simp_all only: resource_agreement_Cons if_False insert_iff) auto
    have "mget (mput (pod_key d) (pod_resources d) observed) (pod_key c) = Some r"
      using head Cons.prems(2) by (auto simp: mget_mput)
    with Cons.IH [OF rest _ _ Cons.prems(4)] head Cons.prems(2,3) show ?thesis
      by auto
  qed
qed simp

lemma resource_agreement_pairs:
  assumes "resource_agreement observed cs" and "a \<in> set cs" and "b \<in> set cs"
    and "pod_key a = pod_key b"
    and "\<not> pr_IsZero (pod_resources a)" and "\<not> pr_IsZero (pod_resources b)"
  shows "pod_resources a = pod_resources b"
  using assms
proof (induction cs arbitrary: observed)
  case (Cons d ds)
  show ?case
  proof (cases "pr_IsZero (pod_resources d)")
    case True
    with Cons show ?thesis
      by (metis resource_agreement_Cons set_ConsD)
  next
    case False
    with Cons.prems(1) have rest: "resource_agreement (mput (pod_key d) (pod_resources d) observed) ds"
      by (simp only: resource_agreement_Cons if_False)
    have "pod_resources c = pod_resources d"
      if "c \<in> set (d # ds)" "pod_key c = pod_key d" "\<not> pr_IsZero (pod_resources c)" for c
      using that resource_agreement_keys [OF rest _ _ that(3)] by (auto simp: mget_mput)
    with Cons.prems(2-6) Cons.IH [OF rest _ _ Cons.prems(4-6)] show ?thesis
      by (metis set_ConsD)
  qed
qed simp

lemma ValidateSnapshot_None:
  assumes "ValidateSnapshot s now opts = None"
  shows "as_CapturedAt s \<noteq> 0" "now - ho_MaxSnapshotAge opts \<le> as_CapturedAt s"
    "as_CapturedAt s \<le> now + ho_MaxFutureSkew opts" "length (as_Containers s) \<le> ho_MaxContainers opts"
    "\<not> trims_to_empty (as_NodeName s)"
    "validate_containers s 0 [] (as_Containers s) = None"
    "resource_agreement [] (as_Containers s)"
  using assms
  by (auto simp: ValidateSnapshot_def validatePodResourceAgreement_def split: if_splits option.splits)

text \<open>
  C12. A snapshot that passes validation has what the store and the history assume: a capture
  time inside the admission window, at most the configured number of containers, pairwise
  different and non-blank container ids, no container of another Node, valid I/O observations,
  and one resource report per Pod.
\<close>

theorem accepted_snapshot_well_formed:
  assumes "ValidateSnapshot s now opts = None"
  shows "as_CapturedAt s \<noteq> 0
    \<and> now - ho_MaxSnapshotAge opts \<le> as_CapturedAt s \<and> as_CapturedAt s \<le> now + ho_MaxFutureSkew opts
    \<and> length (as_Containers s) \<le> ho_MaxContainers opts
    \<and> distinct (map cs_ContainerID (as_Containers s))
    \<and> (\<forall>c \<in> set (as_Containers s). \<not> trims_to_empty (cs_ContainerID c)
         \<and> (cs_NodeName c = '''' \<or> cs_NodeName c = as_NodeName s)
         \<and> io_Validate (IOPressure (cs_Memory c)))
    \<and> (\<forall>a \<in> set (as_Containers s). \<forall>b \<in> set (as_Containers s).
         pod_key a = pod_key b \<longrightarrow> \<not> pr_IsZero (pod_resources a) \<longrightarrow> \<not> pr_IsZero (pod_resources b)
         \<longrightarrow> pod_resources a = pod_resources b)"
  using ValidateSnapshot_None [OF assms] validate_containers_None [of s 0 "[]" "as_Containers s"]
    resource_agreement_pairs [of "[]" "as_Containers s"]
  by auto

text \<open>A snapshot of two containers, on which the hypotheses of the properties hold.\<close>

definition sample_container :: "string \<Rightarrow> string \<Rightarrow> memory_breakdown \<Rightarrow> container_snapshot" where
  "sample_container cid pod m = container_zero\<lparr>cs_Namespace := ''ns'', cs_PodName := pod,
     cs_PodUID := pod, cs_ContainerName := ''c'', cs_ContainerID := cid, cs_Memory := m\<rparr>"

definition sample_env :: node_environment where
  "sample_env = env_zero\<lparr>env_NodeContextAvailable := True, env_WorkloadContextAvailable := True\<rparr>"

definition sample_snapshot :: "time \<Rightarrow> memory_breakdown \<Rightarrow> agent_snapshot" where
  "sample_snapshot captured m = \<lparr>as_SchemaVersion = 7, as_NodeName = ''n1'', as_CapturedAt = captured,
     as_Environment = sample_env,
     as_Containers = [sample_container ''a'' ''p1'' m, sample_container ''b'' ''p2'' m],
     as_NodeContext = None, as_VolumeBatch = '''', as_Topology = ''''\<rparr>"

definition sample_options :: handler_options where
  "sample_options = \<lparr>ho_SnapshotTTL = 30 * second, ho_MaxContainers = 100,
     ho_MaxSnapshotAge = 2 * minute, ho_MaxFutureSkew = 30 * second\<rparr>"

lemma context_zero_valid: "validateContainerContext context_zero = None"
  by (simp add: validateContainerContext_def context_zero_def cr_Validate_zero mlen_def)

lemma sample_container_valid:
  "io_Validate (IOPressure m) \<Longrightarrow> cid = ''a'' \<or> cid = ''b'' \<Longrightarrow> pod = ''p1'' \<or> pod = ''p2'' \<Longrightarrow> cid \<notin> set ids \<Longrightarrow>
   as_SchemaVersion s = 7 \<Longrightarrow> validate_container s i ids (sample_container cid pod m) = None"
  by (auto simp: validate_container_def sample_container_def container_zero_def context_zero_valid
      trims_to_empty_def ascii_space_def schema_defs)

lemma sample_container_ContainerID: "cs_ContainerID (sample_container cid pod m) = cid"
  by (simp add: sample_container_def)

lemma sample_resources_zero: "pr_IsZero (pod_resources (sample_container cid pod m))"
  by (simp add: sample_container_def pod_resources_def container_zero_def context_zero_def cr_zero_def
      pr_IsZero_def)

lemma sample_snapshot_fields:
  "as_SchemaVersion (sample_snapshot t m) = 7" "as_NodeName (sample_snapshot t m) = ''n1''"
  "as_CapturedAt (sample_snapshot t m) = t" "as_NodeContext (sample_snapshot t m) = None"
  "as_VolumeBatch (sample_snapshot t m) = ''''" "as_Topology (sample_snapshot t m) = ''''"
  "env_CgroupReadErrors (as_Environment (sample_snapshot t m)) = 0"
  "env_WorkloadContextErrors (as_Environment (sample_snapshot t m)) = 0"
  "env_CgroupVersion (as_Environment (sample_snapshot t m)) = ''''"
  "env_CgroupDriver (as_Environment (sample_snapshot t m)) = ''''"
  "env_MemoryPressureStatus (as_Environment (sample_snapshot t m)) = ''''"
  "env_ContainerRuntimes (as_Environment (sample_snapshot t m)) = []"
  "length (as_Containers (sample_snapshot t m)) = 2"
  "\<not> trims_to_empty ''n1''"
  by (simp_all add: sample_snapshot_def sample_env_def env_zero_def trims_to_empty_def ascii_space_def)

lemma sample_snapshot_valid:
  assumes "io_Validate (IOPressure m)" and "0 < t" and "now - 2 * minute \<le> t" and "t \<le> now + 30 * second"
  shows "ValidateSnapshot (sample_snapshot t m) now sample_options = None"
proof -
  have "validate_containers (sample_snapshot t m) 0 [] (as_Containers (sample_snapshot t m)) = None"
    using assms(1)
    by (simp add: sample_snapshot_def sample_container_valid sample_container_ContainerID)
  moreover have "resource_agreement [] (as_Containers (sample_snapshot t m))"
    by (simp add: sample_snapshot_def resource_agreement_Cons sample_resources_zero
        del: resource_agreement.simps(2))
  ultimately show ?thesis
    using assms(2-)
    by (simp add: ValidateSnapshot_def validatePodResourceAgreement_def sample_snapshot_fields
        sample_options_def schema_defs SupportedSnapshotSchema_def)
qed

lemma io_Validate_zero: "io_Validate (IOPressure memory_zero)"
proof -
  have "io_eq io_zero io_zero"
    by (simp add: io_eq_def psi_eq_def io_zero_def io_of_state_def psi_zero_def f64_zero_def)
  then show ?thesis
    by (simp add: memory_zero_def io_Validate_def)
qed

theorem accepted_snapshot_well_formed_witness:
  "ValidateSnapshot (sample_snapshot 1000 memory_zero) 2000 sample_options = None
   \<and> distinct (map cs_ContainerID (as_Containers (sample_snapshot 1000 memory_zero)))
   \<and> length (as_Containers (sample_snapshot 1000 memory_zero)) \<le> 100"
proof -
  have valid: "ValidateSnapshot (sample_snapshot 1000 memory_zero) 2000 sample_options = None"
    by (rule sample_snapshot_valid) (simp_all add: io_Validate_zero go_simps)
  from accepted_snapshot_well_formed [OF valid] valid show ?thesis
    by (simp add: sample_options_def)
qed

end
