(* ===== verification/Go_Sort.thy ===== *)
theory Go_Sort
  imports Go_Prelude "HOL-Library.Multiset"
begin

text \<open>
  \<open>sort.Slice\<close> and \<open>slices.SortFunc\<close>: the library promises a permutation that the given
  comparison orders. \<open>sort_slice\<close> is one such sorting function; where the comparison tells all
  elements apart (\<open>sort_slice_unique\<close>) it is the only one, so the model and the library agree.
  \<open>sort.Strings\<close> is \<open>sort\<close> over the bytewise order of strings.
\<close>

fun insert_by :: "('a \<Rightarrow> 'a \<Rightarrow> bool) \<Rightarrow> 'a \<Rightarrow> 'a list \<Rightarrow> 'a list" where
  "insert_by lt x [] = [x]"
| "insert_by lt x (y # ys) = (if lt y x then y # insert_by lt x ys else x # y # ys)"

definition sort_slice :: "('a \<Rightarrow> 'a \<Rightarrow> bool) \<Rightarrow> 'a list \<Rightarrow> 'a list" where
  "sort_slice lt xs = foldr (insert_by lt) xs []"

lemma mset_insert_by [simp]: "mset (insert_by lt x ys) = add_mset x (mset ys)"
  by (induction ys) auto

lemma mset_sort_slice [simp]: "mset (sort_slice lt xs) = mset xs"
  by (induction xs) (auto simp: sort_slice_def)

lemma set_sort_slice [simp]: "set (sort_slice lt xs) = set xs"
  by (metis mset_sort_slice set_mset_mset)

lemma set_insert_by [simp]: "set (insert_by lt x ys) = insert x (set ys)"
  by (induction ys) auto

lemma length_sort_slice [simp]: "length (sort_slice lt xs) = length xs"
  by (metis mset_sort_slice size_mset)

lemma distinct_sort_slice [simp]: "distinct (sort_slice lt xs) = distinct xs"
  by (metis mset_eq_imp_distinct_iff mset_sort_slice)

lemma sort_slice_Nil [simp]: "sort_slice lt [] = []"
  by (simp add: sort_slice_def)

text \<open>The comparisons of the program are strict orders in which incomparability is transitive.\<close>

definition weak_order :: "('a \<Rightarrow> 'a \<Rightarrow> bool) \<Rightarrow> bool" where
  "weak_order lt \<longleftrightarrow> (\<forall>a b. lt a b \<longrightarrow> \<not> lt b a) \<and>
     (\<forall>a b c. \<not> lt b a \<longrightarrow> \<not> lt c b \<longrightarrow> \<not> lt c a)"

lemma weak_order_trans: "weak_order lt \<Longrightarrow> \<not> lt b a \<Longrightarrow> \<not> lt c b \<Longrightarrow> \<not> lt c a"
  unfolding weak_order_def by blast

lemma weak_order_asym: "weak_order lt \<Longrightarrow> lt a b \<Longrightarrow> \<not> lt b a"
  unfolding weak_order_def by blast

lemma sorted_insert_by:
  assumes "weak_order lt" and "sorted_wrt (\<lambda>a b. \<not> lt b a) ys"
  shows "sorted_wrt (\<lambda>a b. \<not> lt b a) (insert_by lt x ys)"
  using assms(2)
proof (induction ys)
  case (Cons y ys)

  show ?case
  proof (cases "lt y x")
    case True
    then have "\<not> lt x y"
      by (rule weak_order_asym [OF assms(1)])
    with True Cons show ?thesis
      by simp
  next
    case False
    have "\<not> lt z x" if "z \<in> set ys" for z
      by (rule weak_order_trans [OF assms(1) False]) (use Cons.prems that in simp)
    with False Cons.prems show ?thesis
      by simp
  qed
qed simp

lemma sorted_sort_slice:
  "weak_order lt \<Longrightarrow> sorted_wrt (\<lambda>a b. \<not> lt b a) (sort_slice lt xs)"
  by (induction xs) (simp_all add: sort_slice_def sorted_insert_by)

lemma sort_slice_unique:
  assumes "weak_order lt"
    and "\<forall>a \<in> set xs. \<forall>b \<in> set xs. a = b \<or> lt a b \<or> lt b a"
    and "mset ys = mset xs" and "sorted_wrt (\<lambda>a b. \<not> lt b a) ys"
  shows "ys = sort_slice lt xs"
proof -
  have "ys = zs" if "mset ys = mset zs" "sorted_wrt (\<lambda>a b. \<not> lt b a) ys"
    "sorted_wrt (\<lambda>a b. \<not> lt b a) zs" "\<forall>a \<in> set ys. \<forall>b \<in> set ys. a = b \<or> lt a b \<or> lt b a" for ys zs
    using that
  proof (induction ys arbitrary: zs)
    case (Cons y ys)
    then obtain z zs' where zs: "zs = z # zs'"
      by (cases zs) auto
    have sets: "set (y # ys) = set (z # zs')"
      using Cons.prems(1) zs by (metis set_mset_mset)
    have "y = z"
      using Cons.prems(2-4) sets unfolding zs
      by (metis list.set_intros(1) set_ConsD sorted_wrt.simps(2))
    with Cons zs show ?case
      by auto
  qed simp
  from this [of ys "sort_slice lt xs"] assms show ?thesis
    by (metis mset_sort_slice set_mset_mset sorted_sort_slice)
qed

text \<open>Comparing field by field, as the \<open>less\<close> functions of the program do.\<close>

lemma weak_order_key: "weak_order (\<lambda>a b. (f a :: 'b :: linorder) < f b)"
  by (auto simp: weak_order_def)

lemma weak_order_key_desc: "weak_order (\<lambda>a b. (f b :: 'b :: linorder) < f a)"
  by (auto simp: weak_order_def)

lemma weak_order_lex:
  assumes "weak_order lt"
  shows "weak_order (\<lambda>a b. if (f a :: 'b :: linorder) \<noteq> f b then f a < f b else lt a b)"
  using assms unfolding weak_order_def by (smt (verit) less_trans neqE order_less_asym)

lemma weak_order_lex_desc:
  assumes "weak_order lt"
  shows "weak_order (\<lambda>a b. if (f a :: 'b :: linorder) \<noteq> f b then f b < f a else lt a b)"
  using assms unfolding weak_order_def by (smt (verit) less_trans neqE order_less_asym)

end
