(* ===== verification/Replica_Continuity.thy ===== *)
theory Replica_Continuity
  imports Api_Types Go_Sort
begin

text \<open>
  \<open>collector/replica_continuity.go\<close>: the fingerprint of the containers that contribute to one Pod
  series, and the clock that says since when the contributors are unchanged. \<open>replicaHash\<close> hashes
  the JSON encoding of its argument with SHA-256; it is a parameter, on which nothing is assumed
  except where a lemma says so.
\<close>

definition MaxReplicaContainers :: nat where
  "MaxReplicaContainers = 8"

record replica_continuity =
  rc_fingerprint :: string
  rc_since :: time

definition rc_zero :: replica_continuity where
  "rc_zero = \<lparr>rc_fingerprint = '''', rc_since = 0\<rparr>"

record replica_enforcement =
  re_Name :: string
  re_Min :: u64
  re_Low :: u64
  re_High :: u64
  re_Max :: u64
  re_SwapMax :: u64
  re_MinKnown :: bool
  re_LowKnown :: bool
  re_HighKnown :: bool
  re_MaxKnown :: bool
  re_SwapMaxKnown :: bool
  re_MinUnlimited :: bool
  re_LowUnlimited :: bool
  re_HighUnlimited :: bool
  re_MaxUnlimited :: bool
  re_SwapMaxUnlimited :: bool

definition enforcement :: "container_snapshot \<Rightarrow> replica_enforcement" where
  "enforcement c = (let m = cs_Memory c in
    \<lparr>re_Name = cs_ContainerName c, re_Min = MinBytes m, re_Low = LowBytes m, re_High = HighBytes m,
     re_Max = MaxBytes m, re_SwapMax = SwapMaxBytes m,
     re_MinKnown = MinKnown m, re_LowKnown = LowKnown m, re_HighKnown = HighKnown m,
     re_MaxKnown = MaxKnown m, re_SwapMaxKnown = SwapMaxKnown m,
     re_MinUnlimited = MinUnlimited m, re_LowUnlimited = LowUnlimited m,
     re_HighUnlimited = HighUnlimited m, re_MaxUnlimited = MaxUnlimited m,
     re_SwapMaxUnlimited = SwapMaxUnlimited m\<rparr>)"

record replica_entry =
  rp_Name :: string
  rp_ID :: string
  rp_Path :: string
  rp_Configured :: memory_resource_budget
  rp_Resources :: container_memory_resources
  rp_Enforcement :: replica_enforcement

definition replica_entry_of :: "container_snapshot \<Rightarrow> replica_entry" where
  "replica_entry_of c = (let ctx = cs_Context c in
    \<lparr>rp_Name = cs_ContainerName c, rp_ID = cs_ContainerID c, rp_Path = cs_CgroupPath c,
     rp_Configured =
       \<lparr>mb_Request = \<lparr>rv_Bytes = cc_MemoryRequestBytes ctx, rv_Known = cc_MemoryRequestKnown ctx\<rparr>,
        mb_Limit = \<lparr>rv_Bytes = cc_MemoryLimitBytes ctx, rv_Known = cc_MemoryLimitKnown ctx\<rparr>\<rparr>,
     rp_Resources = cc_Resources ctx, rp_Enforcement = enforcement c\<rparr>)"

type_synonym fingerprint_hash = "string \<Rightarrow> replica_entry list \<Rightarrow> string"

text \<open>The loop over the containers; \<open>None\<close> is the early return of the empty fingerprint.\<close>

fun replica_entries :: "string list \<Rightarrow> container_snapshot list \<Rightarrow> replica_entry list option" where
  "replica_entries seen [] = Some []"
| "replica_entries seen (c # cs) =
    (if cs_ContainerName c = '''' \<or> cs_ContainerID c = '''' \<or> cs_Completeness c = EvidencePartial
        \<or> cs_ContainerName c \<in> set seen
     then None
     else map_option (\<lambda>es. replica_entry_of c # es) (replica_entries (cs_ContainerName c # seen) cs))"

definition replicaFingerprint :: "fingerprint_hash \<Rightarrow> string \<Rightarrow> container_snapshot list \<Rightarrow> string" where
  "replicaFingerprint replicaHash nodeUID cs =
    (if nodeUID = '''' \<or> cs = [] \<or> length cs > MaxReplicaContainers then ''''
     else case replica_entries [] cs of
       None \<Rightarrow> ''''
     | Some items \<Rightarrow> replicaHash nodeUID (sort_slice (\<lambda>a b. rp_Name a < rp_Name b) items))"

definition rc_record ::
    "replica_continuity \<Rightarrow> time \<Rightarrow> string \<Rightarrow> time \<Rightarrow> duration \<Rightarrow> replica_continuity" where
  "rc_record c t fingerprint previous gap =
    (if fingerprint = '''' then rc_zero
     else c\<lparr>rc_since := (if fingerprint \<noteq> rc_fingerprint c \<or> is_zero_time (rc_since c)
                            \<or> time_sub t previous > gap then t else rc_since c),
            rc_fingerprint := fingerprint\<rparr>)"

subsection \<open>Lemmas\<close>

lemma replica_entries_Some:
  "replica_entries seen cs = Some es \<Longrightarrow>
     es = map replica_entry_of cs \<and> distinct (map cs_ContainerName cs) \<and>
     set seen \<inter> cs_ContainerName ` set cs = {} \<and>
     (\<forall>c \<in> set cs. cs_ContainerName c \<noteq> '''' \<and> cs_ContainerID c \<noteq> '''' \<and>
        cs_Completeness c \<noteq> EvidencePartial)"
proof (induction cs arbitrary: seen es)
  case (Cons c cs)
  then have ok: "cs_ContainerName c \<noteq> ''''" "cs_ContainerID c \<noteq> ''''"
    "cs_Completeness c \<noteq> EvidencePartial" "cs_ContainerName c \<notin> set seen"
    by (auto split: if_splits)
  with Cons.prems obtain es' where es': "replica_entries (cs_ContainerName c # seen) cs = Some es'"
    "es = replica_entry_of c # es'"
    by auto
  from Cons.IH [OF es'(1)] es'(2) ok show ?case
    by auto
qed simp

lemma rp_Name_entry [simp]: "rp_Name (replica_entry_of c) = cs_ContainerName c"
  by (simp add: replica_entry_of_def Let_def)

lemma replica_entries_ok:
  assumes "distinct (map cs_ContainerName cs)" and "set seen \<inter> cs_ContainerName ` set cs = {}"
    and "\<forall>c \<in> set cs. cs_ContainerName c \<noteq> '''' \<and> cs_ContainerID c \<noteq> '''' \<and>
      cs_Completeness c \<noteq> EvidencePartial"
  shows "replica_entries seen cs = Some (map replica_entry_of cs)"
  using assms
proof (induction cs arbitrary: seen)
  case (Cons c cs)
  then have "replica_entries (cs_ContainerName c # seen) cs = Some (map replica_entry_of cs)"
    by (intro Cons.IH) auto
  with Cons.prems show ?case
    by simp
qed simp

text \<open>
  The order in which the producer lists the containers is not part of the fingerprint: the
  names are pairwise different, so the comparison sorts every permutation the same way.
\<close>

lemma replica_entries_perm:
  assumes "replica_entries seen xs = Some es" and "mset ys = mset xs"
  shows "replica_entries seen ys = Some (map replica_entry_of ys)"
proof -
  note xs = replica_entries_Some [OF assms(1)]
  have "mset (map cs_ContainerName ys) = mset (map cs_ContainerName xs)"
    using assms(2) by simp
  then have names: "distinct (map cs_ContainerName ys)"
    using xs mset_eq_imp_distinct_iff by blast
  have sets: "set ys = set xs"
    using assms(2) by (rule mset_eq_setD)
  show ?thesis
    by (rule replica_entries_ok) (use xs names sets in simp_all)
qed

lemma replicaFingerprint_perm:
  assumes "mset ys = mset xs" and "replica_entries [] xs \<noteq> None"
  shows "replicaFingerprint H uid ys = replicaFingerprint H uid xs"
proof -
  obtain es where es: "replica_entries [] xs = Some es"
    using assms(2) by blast
  note xs = replica_entries_Some [OF es]
  let ?lt = "\<lambda>a b. rp_Name a < rp_Name b"
  have "sort_slice ?lt (map replica_entry_of ys) = sort_slice ?lt es"
  proof (rule sort_slice_unique)
    show "weak_order ?lt"
      by (rule weak_order_key)
    show "mset (sort_slice ?lt (map replica_entry_of ys)) = mset es"
      using assms(1) xs by (metis mset_map mset_sort_slice)
    show "sorted_wrt (\<lambda>a b. \<not> ?lt b a) (sort_slice ?lt (map replica_entry_of ys))"
      by (rule sorted_sort_slice) (rule weak_order_key)
    have "inj_on cs_ContainerName (set xs)"
      using xs by (simp add: distinct_map)
    then show "\<forall>a \<in> set es. \<forall>b \<in> set es. a = b \<or> ?lt a b \<or> ?lt b a"
      using xs by (auto dest: inj_onD elim: neqE)
  qed
  moreover have "ys = [] \<longleftrightarrow> xs = []" "length ys = length xs"
    using assms(1) by (auto dest: mset_eq_length)
  ultimately show ?thesis
    using es replica_entries_perm [OF es assms(1)] by (simp add: replicaFingerprint_def)
qed

lemma rc_record_since:
  "rc_since (rc_record c t fp previous gap) = 0 \<or> rc_since (rc_record c t fp previous gap) = t \<or>
   rc_fingerprint c = fp \<and> rc_since (rc_record c t fp previous gap) = rc_since c \<and>
     \<not> time_sub t previous > gap"
  by (auto simp: rc_record_def rc_zero_def)

end
