(* ===== verification/Pod_History.thy ===== *)
theory Pod_History
  imports Replica_Continuity
begin

text \<open>
  \<open>collector/history.go\<close>: the bounded in-memory history of Pod memory. One series for each Pod
  instance on a Node, at most \<open>MaxSeries\<close> of them with at most \<open>MaxPoints\<close> points; a coverage record
  for each series, which says since when the series is contiguous and when it last lost points; a
  record for each Pod whose series did not fit.

  \<open>series\<close>, \<open>coverage\<close> and \<open>dropped\<close> are maps from the joined key; the pointers the Go maps hold are
  read and written through the map, so an update of a record is a \<open>mput\<close>. \<open>range\<close> loops whose body
  handles each entry alone are maps and filters.

  The lemmas: the bounds hold whatever is recorded; the coverage record does not lie, so the
  completeness the reader is shown is backed by retained points.
\<close>

subsection \<open>State\<close>

record history_options =
  ho_Duration :: duration
  ho_MaxSeries :: int
  ho_MaxPoints :: int
  ho_MaxResponseSeries :: int
  ho_ContinuityGap :: duration

definition DefaultHistoryOptions :: history_options where
  "DefaultHistoryOptions = \<lparr>ho_Duration = 15 * minute, ho_MaxSeries = 1000, ho_MaxPoints = 181,
     ho_MaxResponseSeries = 20, ho_ContinuityGap = 30 * second\<rparr>"

record history_coverage =
  cov_replica :: replica_continuity
  cov_firstRecordedAt :: time
  cov_lastRecordedAt :: time
  cov_lastLossAt :: time
  cov_evictedPoints :: u64
  cov_droppedSeries :: u64

definition cov_zero :: history_coverage where
  "cov_zero = \<lparr>cov_replica = rc_zero, cov_firstRecordedAt = 0, cov_lastRecordedAt = 0,
     cov_lastLossAt = 0, cov_evictedPoints = 0, cov_droppedSeries = 0\<rparr>"

record history_drop =
  drop_namespace :: string
  drop_podName :: string
  drop_nodeName :: string
  drop_count :: u64
  drop_lastLossAt :: time

record history_store =
  hs_opts :: history_options
  hs_series :: "(string, pod_history) gomap"
  hs_coverage :: "(string, history_coverage) gomap"
  hs_dropped :: "(string, history_drop) gomap"
  hs_resetAt :: time
  hs_droppedSeries :: u64
  hs_evictedPoints :: u64
  hs_lastLossAt :: time

definition normalise_history_options :: "history_options \<Rightarrow> history_options" where
  "normalise_history_options o1 = (let d = DefaultHistoryOptions in
    \<lparr>ho_Duration = (if ho_Duration o1 \<le> 0 then ho_Duration d else ho_Duration o1),
     ho_MaxSeries = (if ho_MaxSeries o1 \<le> 0 then ho_MaxSeries d else ho_MaxSeries o1),
     ho_MaxPoints = (if ho_MaxPoints o1 \<le> 0 then ho_MaxPoints d else ho_MaxPoints o1),
     ho_MaxResponseSeries =
       (if ho_MaxResponseSeries o1 \<le> 0 then ho_MaxResponseSeries d else ho_MaxResponseSeries o1),
     ho_ContinuityGap =
       (if ho_ContinuityGap o1 \<le> 0 then ho_ContinuityGap d else ho_ContinuityGap o1)\<rparr>)"

definition newHistoryStore :: "history_options \<Rightarrow> time \<Rightarrow> history_store" where
  "newHistoryStore o1 now = \<lparr>hs_opts = normalise_history_options o1, hs_series = [], hs_coverage = [],
     hs_dropped = [], hs_resetAt = now, hs_droppedSeries = 0, hs_evictedPoints = 0,
     hs_lastLossAt = 0\<rparr>"

subsection \<open>Points and keys\<close>

definition nul :: string where
  "nul = [CHR 0x00]"

definition historyKey :: "string \<Rightarrow> string \<Rightarrow> string \<Rightarrow> string \<Rightarrow> string" where
  "historyKey namespace podName podUID nodeName =
     namespace @ nul @ podName @ nul @ podUID @ nul @ nodeName"

definition historyPoint :: "time \<Rightarrow> memory_breakdown \<Rightarrow> history_point" where
  "historyPoint capturedAt m = (let (oom, oomKill, high, maxEvents) = RecentEventCounts m in
    \<lparr>hp_CapturedAt = capturedAt, hp_TotalBytes = TotalBytes m, hp_AnonBytes = AnonBytes m,
     hp_FileCacheBytes = FileCacheBytes m, hp_ShmemBytes = ShmemBytes m,
     hp_SlabReclaimableBytes = SlabReclaimableBytes m,
     hp_SlabUnreclaimableBytes = SlabUnreclaimableBytes m,
     hp_KernelBytes = KernelBytes m, hp_SocketBytes = SocketBytes m, hp_PageTableBytes = PageTableBytes m,
     hp_FileMappedBytes = FileMappedBytes m, hp_AnonTHPBytes = AnonTHPBytes m,
     hp_FileTHPBytes = FileTHPBytes m, hp_ShmemTHPBytes = ShmemTHPBytes m,
     hp_ResidualBytes = ResidualBytes m, hp_SwapBytes = SwapCurrentBytes m, hp_PeakBytes = PeakBytes m,
     hp_PSISomeAvg10 = PSISomeAvg10 m, hp_PSIFullAvg10 = PSIFullAvg10 m,
     hp_OOMEventsDelta = oom, hp_OOMKillEventsDelta = oomKill, hp_HighEventsDelta = high,
     hp_MaxEventsDelta = maxEvents, hp_ReclaimDeltasKnown = ReclaimDeltasKnown m,
     hp_RefaultAnonDelta = RefaultAnonDelta m, hp_RefaultFileDelta = RefaultFileDelta m,
     hp_PageScanDelta = PageScanDelta m, hp_PageStealDelta = PageStealDelta m,
     hp_MajorFaultsDelta = MajorPageFaultsDelta m\<rparr>)"

subsection \<open>Pruning\<close>

definition live_points :: "time \<Rightarrow> history_point list \<Rightarrow> history_point list" where
  "live_points cutoff ps = dropWhile (\<lambda>p. hp_CapturedAt p < cutoff) ps"

definition history_prune :: "history_store \<Rightarrow> time \<Rightarrow> history_store" where
  "history_prune h now = (let cutoff = now - ho_Duration (hs_opts h) in
    h\<lparr>hs_series := map (\<lambda>(k, s). (k, s\<lparr>ph_Points := live_points cutoff (ph_Points s)\<rparr>))
        (mkeep (\<lambda>k s. live_points cutoff (ph_Points s) \<noteq> []) (hs_series h)),
      hs_coverage := mkeep (\<lambda>k c. \<not> (case mget (hs_series h) k of None \<Rightarrow> False
          | Some s \<Rightarrow> live_points cutoff (ph_Points s) = [])) (hs_coverage h),
      hs_dropped := mkeep (\<lambda>k d. \<not> drop_lastLossAt d < cutoff) (hs_dropped h)\<rparr>)"

subsection \<open>Recording\<close>

definition recordDrop :: "string \<Rightarrow> container_snapshot \<Rightarrow> time \<Rightarrow> history_store \<Rightarrow> history_store" where
  "recordDrop key container capturedAt h =
    (case mget (hs_dropped h) key of
       Some d \<Rightarrow> h\<lparr>hs_dropped := mput key (d\<lparr>drop_count := drop_count d + 1,
          drop_lastLossAt := capturedAt\<rparr>) (hs_dropped h)\<rparr>
     | None \<Rightarrow>
        if int (mlen (hs_dropped h)) \<ge> ho_MaxSeries (hs_opts h) then h
        else h\<lparr>hs_dropped := mput key \<lparr>drop_namespace = cs_Namespace container,
          drop_podName = cs_PodName container, drop_nodeName = cs_NodeName container,
          drop_count = 0 + 1, drop_lastLossAt = capturedAt\<rparr> (hs_dropped h)\<rparr>)"

definition createSeries :: "string \<Rightarrow> container_snapshot \<Rightarrow> time \<Rightarrow> history_store \<Rightarrow> history_store" where
  "createSeries key first capturedAt h =
    (let series = \<lparr>ph_Namespace = cs_Namespace first, ph_PodName = cs_PodName first,
           ph_PodUID = cs_PodUID first, ph_NodeName = cs_NodeName first, ph_Points = []\<rparr>;
         coverage0 = cov_zero\<lparr>cov_firstRecordedAt := capturedAt\<rparr>;
         coverage = (case mget (hs_dropped h) key of
             None \<Rightarrow> coverage0
           | Some d \<Rightarrow> coverage0\<lparr>cov_droppedSeries := drop_count d, cov_lastLossAt := drop_lastLossAt d\<rparr>)
     in h\<lparr>hs_series := mput key series (hs_series h),
          hs_dropped := (case mget (hs_dropped h) key of None \<Rightarrow> hs_dropped h
            | Some d \<Rightarrow> mdel key (hs_dropped h)),
          hs_coverage := mput key coverage (hs_coverage h)\<rparr>)"

text \<open>The update of the coverage record by one capture.\<close>

definition touchCoverage ::
    "history_options \<Rightarrow> time \<Rightarrow> string \<Rightarrow> history_coverage \<Rightarrow> history_coverage" where
  "touchCoverage opts capturedAt fingerprint c =
    (let c1 = c\<lparr>cov_replica := rc_record (cov_replica c) capturedAt fingerprint
           (cov_lastRecordedAt c) (ho_ContinuityGap opts)\<rparr>;
         c2 = (if \<not> is_zero_time (cov_lastRecordedAt c1)
                  \<and> time_sub capturedAt (cov_lastRecordedAt c1) > ho_ContinuityGap opts
               then c1\<lparr>cov_firstRecordedAt := capturedAt\<rparr> else c1)
     in if capturedAt > cov_lastRecordedAt c2 then c2\<lparr>cov_lastRecordedAt := capturedAt\<rparr> else c2)"

definition appendPoint :: "history_point \<Rightarrow> history_point list \<Rightarrow> history_point list" where
  "appendPoint p ps =
    (if ps \<noteq> [] \<and> hp_CapturedAt (last ps) = hp_CapturedAt p then butlast ps @ [p] else ps @ [p])"

definition appendToSeries ::
    "fingerprint_hash \<Rightarrow> time \<Rightarrow> string \<Rightarrow> string \<Rightarrow> container_snapshot list \<Rightarrow> history_store \<Rightarrow> history_store"
  where
  "appendToSeries H capturedAt nodeUID key cs h =
    (case mget (hs_series h) key of None \<Rightarrow> h | Some series \<Rightarrow>
     let coverage = touchCoverage (hs_opts h) capturedAt (replicaFingerprint H nodeUID cs)
           (mget0 cov_zero (hs_coverage h) key);
         memory = SumMemory (ph_Namespace series @ ''/'' @ ph_PodName series) (map cs_Memory cs);
         points = appendPoint (historyPoint capturedAt memory) (ph_Points series);
         overflow = int (length points) - ho_MaxPoints (hs_opts h)
     in if overflow > 0 then
          h\<lparr>hs_evictedPoints := hs_evictedPoints h + word_of_int overflow,
            hs_lastLossAt := capturedAt,
            hs_coverage := mput key (coverage\<lparr>
              cov_evictedPoints := cov_evictedPoints coverage + word_of_int overflow,
              cov_lastLossAt := capturedAt\<rparr>) (hs_coverage h),
            hs_series := mput key (series\<lparr>ph_Points := drop (nat overflow) points\<rparr>) (hs_series h)\<rparr>
        else
          h\<lparr>hs_coverage := mput key coverage (hs_coverage h),
            hs_series := mput key (series\<lparr>ph_Points := points\<rparr>) (hs_series h)\<rparr>)"

definition recordPod ::
    "fingerprint_hash \<Rightarrow> time \<Rightarrow> string \<Rightarrow> string \<times> container_snapshot list \<Rightarrow> history_store \<Rightarrow> history_store"
  where
  "recordPod H capturedAt nodeUID kc h =
    (let (key, cs) = kc in
     case mget (hs_series h) key of
       Some s \<Rightarrow> appendToSeries H capturedAt nodeUID key cs h
     | None \<Rightarrow>
        if int (mlen (hs_series h)) \<ge> ho_MaxSeries (hs_opts h) then
          recordDrop key (hd cs) capturedAt
            (h\<lparr>hs_droppedSeries := hs_droppedSeries h + 1, hs_lastLossAt := capturedAt\<rparr>)
        else appendToSeries H capturedAt nodeUID key cs (createSeries key (hd cs) capturedAt h))"

definition container_key :: "container_snapshot \<Rightarrow> string" where
  "container_key c = historyKey (cs_Namespace c) (cs_PodName c) (cs_PodUID c) (cs_NodeName c)"

definition recordable :: "container_snapshot \<Rightarrow> bool" where
  "recordable c \<longleftrightarrow> \<not> (cs_Namespace c = '''' \<or> cs_PodName c = '''' \<or> cs_PodUID c = '''')"

fun groupByPod ::
    "(string, container_snapshot list) gomap \<Rightarrow> container_snapshot list \<Rightarrow> (string, container_snapshot list) gomap"
  where
  "groupByPod byPod [] = byPod"
| "groupByPod byPod (c # cs) =
    (if recordable c
     then groupByPod (mput (container_key c) (mget0 [] byPod (container_key c) @ [c]) byPod) cs
     else groupByPod byPod cs)"

definition history_record ::
    "fingerprint_hash \<Rightarrow> time \<Rightarrow> container_snapshot list \<Rightarrow> string \<Rightarrow> history_store \<Rightarrow> history_store" where
  "history_record H capturedAt cs nodeUID h =
    (let byPod = groupByPod [] cs; keys = sort (mkeys byPod)
     in fold (\<lambda>key. recordPod H capturedAt nodeUID (key, mget0 [] byPod key)) keys
          (history_prune h capturedAt))"

subsection \<open>Reading\<close>

definition series_selected :: "string \<Rightarrow> string \<Rightarrow> string \<Rightarrow> pod_history \<Rightarrow> bool" where
  "series_selected namespace podName nodeName s \<longleftrightarrow>
     \<not> (ph_Namespace s \<noteq> namespace \<or> ph_PodName s \<noteq> podName \<or> (nodeName \<noteq> '''' \<and> ph_NodeName s \<noteq> nodeName))"

definition latest_point :: "pod_history \<Rightarrow> time" where
  "latest_point s = hp_CapturedAt (last (ph_Points s))"

definition series_before :: "pod_history \<Rightarrow> pod_history \<Rightarrow> bool" where
  "series_before a b =
    (if latest_point a \<noteq> latest_point b then latest_point a > latest_point b
     else if ph_NodeName a \<noteq> ph_NodeName b then ph_NodeName a < ph_NodeName b
     else ph_PodUID a < ph_PodUID b)"

definition history_list ::
    "history_store \<Rightarrow> string \<Rightarrow> string \<Rightarrow> string \<Rightarrow> time \<Rightarrow> pod_history list \<times> history_store" where
  "history_list h namespace podName nodeName now =
    (let h1 = history_prune h now;
         items = sort_slice series_before
           (filter (series_selected namespace podName nodeName) (map snd (hs_series h1)))
     in (if int (length items) > ho_MaxResponseSeries (hs_opts h1)
         then take (nat (ho_MaxResponseSeries (hs_opts h1))) items else items, h1))"

definition history_stats :: "history_store \<Rightarrow> nat \<times> nat" where
  "history_stats h =
     (mlen (hs_series h), sum_list (map (\<lambda>(k, s). length (ph_Points s)) (hs_series h)))"

fun earliest_point :: "time \<Rightarrow> history_point list \<Rightarrow> time" where
  "earliest_point r [] = r"
| "earliest_point r (p # ps) =
    earliest_point (if is_zero_time r \<or> hp_CapturedAt p < r then hp_CapturedAt p else r) ps"

text \<open>The three conditions under which one series counts as completely covered at \<open>now\<close>.\<close>

definition coverage_complete :: "history_options \<Rightarrow> history_coverage \<Rightarrow> time \<Rightarrow> bool" where
  "coverage_complete opts c now \<longleftrightarrow>
     time_sub now (cov_firstRecordedAt c) \<ge> ho_Duration opts \<and>
     time_sub now (cov_lastRecordedAt c) \<le> ho_ContinuityGap opts \<and>
     (is_zero_time (cov_lastLossAt c) \<or> \<not> cov_lastLossAt c > now - ho_Duration opts)"

definition history_reliability_all :: "history_store \<Rightarrow> time \<Rightarrow> history_reliability" where
  "history_reliability_all h now =
    (let complete = (\<forall>(key, s) \<in> set (hs_series h).
           coverage_complete (hs_opts h) (mget0 cov_zero (hs_coverage h) key) now);
         availableFrom = fold (\<lambda>(key, s) r. earliest_point r (ph_Points s)) (hs_series h) 0;
         lossOutsideWindow = (is_zero_time (hs_lastLossAt h)
           \<or> \<not> hs_lastLossAt h > now - ho_Duration (hs_opts h))
     in \<lparr>hr_ResetAt = hs_resetAt h, hr_AvailableFrom = availableFrom,
         hr_Completeness = (if hs_series h \<noteq> [] \<and> complete \<and> lossOutsideWindow
           then EvidenceComplete else EvidencePartial),
         hr_DroppedSeries = hs_droppedSeries h, hr_EvictedPoints = hs_evictedPoints h,
         hr_LastLossAt = hs_lastLossAt h\<rparr>)"

definition drop_selected :: "string \<Rightarrow> string \<Rightarrow> string \<Rightarrow> history_drop \<Rightarrow> bool" where
  "drop_selected namespace podName nodeName d \<longleftrightarrow>
     \<not> (drop_namespace d \<noteq> namespace \<or> drop_podName d \<noteq> podName \<or>
        (nodeName \<noteq> '''' \<and> drop_nodeName d \<noteq> nodeName))"

definition scopedReliability ::
    "history_store \<Rightarrow> string \<Rightarrow> string \<Rightarrow> string \<Rightarrow> time \<Rightarrow> history_reliability" where
  "scopedReliability h namespace podName nodeName now =
    (let selected = filter (\<lambda>(key, s). series_selected namespace podName nodeName s) (hs_series h);
         dropped = filter (\<lambda>(key, d). drop_selected namespace podName nodeName d) (hs_dropped h);
         coverage = (\<lambda>key. mget0 cov_zero (hs_coverage h) key);
         complete = ((\<forall>(key, s) \<in> set selected. coverage_complete (hs_opts h) (coverage key) now)
           \<and> dropped = []);
         lossAt = fold (\<lambda>(key, s) r. if cov_lastLossAt (coverage key) > r
           then cov_lastLossAt (coverage key) else r) selected 0
     in \<lparr>hr_ResetAt = hs_resetAt h,
         hr_AvailableFrom = fold (\<lambda>(key, s) r. earliest_point r (ph_Points s)) selected 0,
         hr_Completeness = (if selected \<noteq> [] \<and> complete then EvidenceComplete else EvidencePartial),
         hr_DroppedSeries = sum_list (map (\<lambda>(key, s). cov_droppedSeries (coverage key)) selected)
           + sum_list (map (\<lambda>(key, d). drop_count d) dropped),
         hr_EvictedPoints = sum_list (map (\<lambda>(key, s). cov_evictedPoints (coverage key)) selected),
         hr_LastLossAt = fold (\<lambda>(key, d) r. if drop_lastLossAt d > r then drop_lastLossAt d else r)
           dropped lossAt\<rparr>)"

subsection \<open>Grouping\<close>

lemma mget0_groupByPod:
  "mget0 [] (groupByPod m cs) k = mget0 [] m k @ filter (\<lambda>c. recordable c \<and> container_key c = k) cs"
  by (induction m cs rule: groupByPod.induct) (auto simp: mget0_def mget_mput)

lemma mwf_groupByPod: "mwf m \<Longrightarrow> mwf (groupByPod m cs)"
  by (induction m cs rule: groupByPod.induct) (auto simp: gomap_simps)

lemma dom_groupByPod:
  "mget (groupByPod m cs) k \<noteq> None \<longleftrightarrow>
     mget m k \<noteq> None \<or> (\<exists>c \<in> set cs. recordable c \<and> container_key c = k)"
  by (induction m cs rule: groupByPod.induct) (auto simp: mget_mput)

text \<open>What \<open>recordPod\<close> is called with: the containers of one Pod instance, at least one.\<close>

definition pod_group :: "string \<times> container_snapshot list \<Rightarrow> bool" where
  "pod_group kc \<longleftrightarrow> snd kc \<noteq> [] \<and> (\<forall>c \<in> set (snd kc). container_key c = fst kc)"

lemma pod_group_groupByPod:
  assumes "k \<in> set (mkeys (groupByPod [] cs))"
  shows "pod_group (k, mget0 [] (groupByPod [] cs) k)"
proof -
  have "\<exists>c \<in> set cs. recordable c \<and> container_key c = k"
    using assms dom_groupByPod [of "[]" cs k] by (simp add: set_mkeys)
  then show ?thesis
    by (auto simp: pod_group_def mget0_groupByPod filter_empty_conv)
qed

lemma pod_group_hd: "pod_group (k, cs) \<Longrightarrow> container_key (hd cs) = k"
  by (simp add: pod_group_def)

subsection \<open>The bounds\<close>

definition series_ok :: "history_options \<Rightarrow> string \<Rightarrow> pod_history \<Rightarrow> bool" where
  "series_ok opts k s \<longleftrightarrow> int (length (ph_Points s)) \<le> ho_MaxPoints opts \<and>
     k = historyKey (ph_Namespace s) (ph_PodName s) (ph_PodUID s) (ph_NodeName s)"

definition history_maps :: "history_store \<Rightarrow> bool" where
  "history_maps h \<longleftrightarrow> mwf (hs_series h) \<and> mwf (hs_coverage h) \<and> mwf (hs_dropped h) \<and>
     (\<forall>k. mget (hs_series h) k = None \<longleftrightarrow> mget (hs_coverage h) k = None) \<and>
     (\<forall>k. mget (hs_series h) k = None \<or> mget (hs_dropped h) k = None) \<and>
     int (mlen (hs_series h)) \<le> ho_MaxSeries (hs_opts h) \<and>
     int (mlen (hs_dropped h)) \<le> ho_MaxSeries (hs_opts h) \<and>
     (\<forall>k s. mget (hs_series h) k = Some s \<longrightarrow> series_ok (hs_opts h) k s)"

definition history_wf :: "history_store \<Rightarrow> bool" where
  "history_wf h \<longleftrightarrow> history_maps h \<and>
     (\<forall>k s. mget (hs_series h) k = Some s \<longrightarrow> ph_Points s \<noteq> [])"

definition history_opts_ok :: "history_options \<Rightarrow> bool" where
  "history_opts_ok o1 \<longleftrightarrow> 0 < ho_Duration o1 \<and> ho_Duration o1 \<le> max_int64 \<and>
     0 < ho_MaxSeries o1 \<and> 0 < ho_MaxPoints o1 \<and> 0 < ho_MaxResponseSeries o1 \<and>
     0 < ho_ContinuityGap o1 \<and> ho_ContinuityGap o1 < max_int64"

lemma normalise_history_options_ok:
  "ho_Duration o1 \<le> max_int64 \<Longrightarrow> ho_ContinuityGap o1 < max_int64 \<Longrightarrow>
   history_opts_ok (normalise_history_options o1)"
  by (simp add: history_opts_ok_def normalise_history_options_def DefaultHistoryOptions_def Let_def
      go_simps)

lemma hs_opts_simps [simp]:
  "hs_opts (history_prune h t) = hs_opts h"
  "hs_opts (recordDrop k c t h) = hs_opts h"
  "hs_opts (createSeries k c t h) = hs_opts h"
  "hs_opts (appendToSeries H t u k cs h) = hs_opts h"
  "hs_opts (recordPod H t u kc h) = hs_opts h"
  by (auto simp: history_prune_def recordDrop_def createSeries_def appendToSeries_def recordPod_def Let_def
      split: option.splits prod.splits)

lemma hs_opts_fold [simp]:
  "hs_opts (fold (\<lambda>key. recordPod H t u (key, f key)) keys h) = hs_opts h"
  by (induction keys arbitrary: h) simp_all

lemma hs_opts_record [simp]: "hs_opts (history_record H t cs u h) = hs_opts h"
  by (simp add: history_record_def Let_def)

lemma mget_prune_series:
  "mwf (hs_series h) \<Longrightarrow> mget (hs_series (history_prune h t)) k =
    (case mget (hs_series h) k of None \<Rightarrow> None | Some s \<Rightarrow>
       (let ps = live_points (t - ho_Duration (hs_opts h)) (ph_Points s)
        in if ps = [] then None else Some (s\<lparr>ph_Points := ps\<rparr>)))"
  by (simp add: history_prune_def Let_def mget_map_values mget_mkeep split: option.splits)

lemma mget_prune_coverage:
  "history_maps h \<Longrightarrow> mget (hs_coverage (history_prune h t)) k =
    (if mget (hs_series (history_prune h t)) k = None then None else mget (hs_coverage h) k)"
proof -
  assume "history_maps h"
  then have wf: "mwf (hs_series h)" "mwf (hs_coverage h)" and
    same: "mget (hs_series h) k = None \<longleftrightarrow> mget (hs_coverage h) k = None"
    unfolding history_maps_def by simp_all
  have "mget (hs_coverage (history_prune h t)) k =
    (case mget (hs_coverage h) k of None \<Rightarrow> None | Some c \<Rightarrow>
      if (case mget (hs_series h) k of None \<Rightarrow> False
        | Some s \<Rightarrow> live_points (t - ho_Duration (hs_opts h)) (ph_Points s) = []) then None else Some c)"
    using wf(2) by (simp add: history_prune_def Let_def mget_mkeep split: option.splits)
  with same show ?thesis
    by (simp add: mget_prune_series [OF wf(1)] Let_def split: option.splits)
qed

lemma mget_prune_dropped:
  "mwf (hs_dropped h) \<Longrightarrow> mget (hs_dropped (history_prune h t)) k = Some d \<longleftrightarrow>
     mget (hs_dropped h) k = Some d \<and> t - ho_Duration (hs_opts h) \<le> drop_lastLossAt d"
  by (auto simp: history_prune_def Let_def mget_mkeep_Some not_less)

lemma live_points_length: "length (live_points c ps) \<le> length ps"
  by (simp add: live_points_def length_dropWhile_le)

lemma series_ok_prune:
  "series_ok opts k s \<Longrightarrow> series_ok opts k (s\<lparr>ph_Points := live_points c (ph_Points s)\<rparr>)"
  using live_points_length [of c "ph_Points s"] by (simp add: series_ok_def)

lemma history_wf_prune:
  assumes "history_maps h"
  shows "history_wf (history_prune h t)"
proof -
  let ?h = "history_prune h t"
  from assms have wf: "mwf (hs_series h)" "mwf (hs_coverage h)" "mwf (hs_dropped h)" and
    dom: "\<forall>k. mget (hs_series h) k = None \<longleftrightarrow> mget (hs_coverage h) k = None"
      "\<forall>k. mget (hs_series h) k = None \<or> mget (hs_dropped h) k = None"
    unfolding history_maps_def by - (elim conjE, assumption)+
  have wf': "mwf (hs_series ?h)" "mwf (hs_coverage ?h)" "mwf (hs_dropped ?h)"
    using wf by (simp_all add: history_prune_def Let_def mwf_map_values mwf_mkeep)
  have sub: "mget (hs_series ?h) k = Some s \<Longrightarrow> \<exists>s0. mget (hs_series h) k = Some s0 \<and>
      s = s0\<lparr>ph_Points := live_points (t - ho_Duration (hs_opts h)) (ph_Points s0)\<rparr> \<and> ph_Points s \<noteq> []" for k s
    using mget_prune_series [OF wf(1), of t k] by (auto simp: Let_def split: option.splits if_splits)
  have same: "mget (hs_series ?h) k = None \<longleftrightarrow> mget (hs_coverage ?h) k = None" for k
  proof (cases "mget (hs_series ?h) k")
    case (Some s)
    then have "mget (hs_series h) k \<noteq> None"
      using sub by blast
    with Some dom(1) mget_prune_coverage [OF assms, of t k] show ?thesis
      by simp
  qed (simp add: mget_prune_coverage [OF assms])
  have apart: "mget (hs_series ?h) k = None \<or> mget (hs_dropped ?h) k = None" for k
  proof (cases "mget (hs_dropped ?h) k")
    case (Some d)
    then have "mget (hs_series h) k = None"
      using dom(2) mget_prune_dropped [OF wf(3), of t k d] by auto
    then show ?thesis
      by (simp add: mget_prune_series [OF wf(1)])
  qed simp
  have len: "mlen (hs_series ?h) \<le> mlen (hs_series h)" "mlen (hs_dropped ?h) \<le> mlen (hs_dropped h)"
    by (simp_all add: history_prune_def Let_def mlen_mkeep_le) (simp add: mlen_def mkeep_def)
  have bounds: "int (mlen (hs_series ?h)) \<le> ho_MaxSeries (hs_opts h)"
    "int (mlen (hs_dropped ?h)) \<le> ho_MaxSeries (hs_opts h)"
    using len assms unfolding history_maps_def by linarith+
  have ok: "series_ok (hs_opts h) k s \<and> ph_Points s \<noteq> []" if "mget (hs_series ?h) k = Some s" for k s
    using sub [OF that] assms series_ok_prune unfolding history_maps_def by blast
  show ?thesis
    unfolding history_wf_def history_maps_def hs_opts_simps
    using wf' same apart bounds ok by blast
qed

text \<open>
  Appending to a series that exists, possibly one just created: the only entries that change
  are those of its key, the points it keeps are a non-empty suffix that fits.
\<close>

definition kept_points :: "history_options \<Rightarrow> history_point list \<Rightarrow> history_point list" where
  "kept_points opts ps = drop (nat (int (length ps) - ho_MaxPoints opts)) ps"

definition pod_point ::
    "time \<Rightarrow> pod_history \<Rightarrow> container_snapshot list \<Rightarrow> history_point" where
  "pod_point t s cs =
     historyPoint t (SumMemory (ph_Namespace s @ ''/'' @ ph_PodName s) (map cs_Memory cs))"

lemma historyPoint_time [simp]: "hp_CapturedAt (historyPoint t m) = t"
  by (simp add: historyPoint_def split: prod.splits)

lemma appendPoint_not_Nil [simp]: "appendPoint p ps \<noteq> []"
  by (simp add: appendPoint_def)

lemma kept_points_bounds:
  assumes "0 < ho_MaxPoints opts" and "ps \<noteq> []"
  shows "kept_points opts ps \<noteq> []" "int (length (kept_points opts ps)) \<le> ho_MaxPoints opts"
proof -
  have "0 < length ps"
    using assms(2) by simp
  with assms(1) have "nat (int (length ps) - ho_MaxPoints opts) < length ps"
    by linarith
  then show "kept_points opts ps \<noteq> []"
    by (simp add: kept_points_def)
  show "int (length (kept_points opts ps)) \<le> ho_MaxPoints opts"
    using assms(1) by (simp add: kept_points_def nat_diff_distrib)
qed

lemma appendToSeries_frame:
  assumes "mget (hs_series h) k = Some s"
  shows "hs_dropped (appendToSeries H t u k cs h) = hs_dropped h"
    "hs_series (appendToSeries H t u k cs h) = mput k
       (s\<lparr>ph_Points := kept_points (hs_opts h) (appendPoint (pod_point t s cs) (ph_Points s))\<rparr>) (hs_series h)"
    "\<exists>c. hs_coverage (appendToSeries H t u k cs h) = mput k c (hs_coverage h)"
  using assms by (auto simp: appendToSeries_def Let_def kept_points_def pod_point_def)

lemma appendToSeries_coverage:
  assumes "mget (hs_series h) k = Some s"
  shows "\<exists>e. hs_coverage (appendToSeries H t u k cs h) = mput k
    (if int (length (appendPoint (pod_point t s cs) (ph_Points s))) - ho_MaxPoints (hs_opts h) > 0
     then (touchCoverage (hs_opts h) t (replicaFingerprint H u cs) (mget0 cov_zero (hs_coverage h) k))
       \<lparr>cov_evictedPoints := e, cov_lastLossAt := t\<rparr>
     else touchCoverage (hs_opts h) t (replicaFingerprint H u cs) (mget0 cov_zero (hs_coverage h) k))
    (hs_coverage h)"
  using assms unfolding appendToSeries_def Let_def pod_point_def
  by (cases "int (length (appendPoint (historyPoint t (SumMemory (ph_Namespace s @ ''/'' @ ph_PodName s)
      (map cs_Memory cs))) (ph_Points s))) - ho_MaxPoints (hs_opts h) > 0") auto

lemma history_wf_append:
  assumes maps: "history_maps h" and k: "mget (hs_series h) k = Some s"
    and rest: "\<forall>j r. j \<noteq> k \<longrightarrow> mget (hs_series h) j = Some r \<longrightarrow> ph_Points r \<noteq> []"
    and opts: "0 < ho_MaxPoints (hs_opts h)"
  shows "history_wf (appendToSeries H t u k cs h)"
proof -
  note frame = appendToSeries_frame [OF k, where H = H and t = t and u = u and cs = cs]
  obtain c where c: "hs_coverage (appendToSeries H t u k cs h) = mput k c (hs_coverage h)"
    using frame(3) by blast
  have kd: "mget (hs_coverage h) k \<noteq> None" "mget (hs_dropped h) k = None"
    using maps k unfolding history_maps_def by (metis option.distinct(1))+
  let ?ps = "appendPoint (pod_point t s cs) (ph_Points s)"
  note kept = kept_points_bounds [OF opts, of ?ps]
  have new: "series_ok (hs_opts h) k (s\<lparr>ph_Points := kept_points (hs_opts h) ?ps\<rparr>)"
    using maps k kept by (simp add: history_maps_def series_ok_def)
  show ?thesis
    using maps k kd rest new kept unfolding history_wf_def history_maps_def
    by (auto simp: frame c gomap_simps)
qed

lemma history_maps_createSeries:
  assumes wf: "history_wf h" and k: "mget (hs_series h) k = None" and c: "container_key c = k"
    and room: "int (mlen (hs_series h)) < ho_MaxSeries (hs_opts h)" and opts: "0 < ho_MaxPoints (hs_opts h)"
  shows "history_maps (createSeries k c t h)"
    "\<exists>s. mget (hs_series (createSeries k c t h)) k = Some s"
    "\<forall>j r. j \<noteq> k \<longrightarrow> mget (hs_series (createSeries k c t h)) j = Some r \<longrightarrow> ph_Points r \<noteq> []"
proof -
  have maps: "history_maps h"
    using wf by (simp add: history_wf_def)
  have "mlen (mdel k (hs_dropped h)) \<le> mlen (hs_dropped h)"
    using maps by (simp add: history_maps_def mlen_mdel)
  with maps k room opts c show "history_maps (createSeries k c t h)"
    unfolding history_maps_def
    by (auto simp: createSeries_def Let_def gomap_simps series_ok_def container_key_def
        split: option.splits)
  show "\<exists>s. mget (hs_series (createSeries k c t h)) k = Some s"
    by (simp add: createSeries_def Let_def mget_mput)
  show "\<forall>j r. j \<noteq> k \<longrightarrow> mget (hs_series (createSeries k c t h)) j = Some r \<longrightarrow> ph_Points r \<noteq> []"
    using wf by (simp add: history_wf_def createSeries_def Let_def mget_mput)
qed

lemma history_wf_recordDrop:
  assumes "history_wf h" and "mget (hs_series h) k = None" and "0 < ho_MaxSeries (hs_opts h)"
  shows "history_wf (recordDrop k c t (h\<lparr>hs_droppedSeries := n, hs_lastLossAt := t'\<rparr>))"
  using assms unfolding history_wf_def history_maps_def
  by (auto simp: recordDrop_def gomap_simps split: option.splits)

lemma history_wf_recordPod:
  assumes "history_wf h" and "pod_group kc" and "0 < ho_MaxPoints (hs_opts h)"
    and "0 < ho_MaxSeries (hs_opts h)"
  shows "history_wf (recordPod H t u kc h)"
proof -
  obtain k cs where kc: "kc = (k, cs)"
    by (cases kc)
  have maps: "history_maps h" and points: "\<forall>j r. mget (hs_series h) j = Some r \<longrightarrow> ph_Points r \<noteq> []"
    using assms(1) by (simp_all add: history_wf_def)
  show ?thesis
  proof (cases "mget (hs_series h) k")
    case (Some s)
    with history_wf_append [OF maps Some] points assms(3) kc show ?thesis
      by (simp add: recordPod_def)
  next
    case None
    note new = history_maps_createSeries [OF assms(1) None pod_group_hd _ assms(3)]
    show ?thesis
    proof (cases "int (mlen (hs_series h)) \<ge> ho_MaxSeries (hs_opts h)")
      case True
      with None history_wf_recordDrop [OF assms(1) None assms(4)] kc show ?thesis
        by (simp add: recordPod_def)
    next
      case False
      then have room: "int (mlen (hs_series h)) < ho_MaxSeries (hs_opts h)"
        by simp
      have grp: "pod_group (k, cs)"
        using assms(2) kc by simp
      obtain s where "mget (hs_series (createSeries k (hd cs) t h)) k = Some s"
        using new(2) [OF grp room] by blast
      from history_wf_append [OF new(1) [OF grp room] this new(3) [OF grp room]] assms(3) False None kc
      show ?thesis
        by (simp add: recordPod_def)
    qed
  qed
qed

lemma fold_recordPod_wf:
  assumes "history_wf h" and "0 < ho_MaxPoints (hs_opts h)" and "0 < ho_MaxSeries (hs_opts h)"
    and "\<forall>k \<in> set keys. pod_group (k, f k)"
  shows "history_wf (fold (\<lambda>key. recordPod H t u (key, f key)) keys h)"
  using assms by (induction keys arbitrary: h) (simp_all add: history_wf_recordPod)

lemma history_wf_record:
  assumes "history_wf h" and "0 < ho_MaxPoints (hs_opts h)" and "0 < ho_MaxSeries (hs_opts h)"
  shows "history_wf (history_record H t cs u h)"
  unfolding history_record_def Let_def
  by (rule fold_recordPod_wf)
    (use assms history_wf_prune [of h t] pod_group_groupByPod [of _ cs] in \<open>auto simp: history_wf_def\<close>)

subsection \<open>The coverage record\<close>

text \<open>From \<open>start\<close> on, no two neighbouring times are further apart than \<open>gap\<close>.\<close>

fun contiguous :: "duration \<Rightarrow> time \<Rightarrow> time list \<Rightarrow> bool" where
  "contiguous gap start (t # u # ts) \<longleftrightarrow> (start \<le> t \<longrightarrow> u - t \<le> gap) \<and> contiguous gap start (u # ts)"
| "contiguous gap start ts \<longleftrightarrow> True"

lemma contiguous_append:
  "contiguous gap start (ts @ [u]) \<longleftrightarrow>
     contiguous gap start ts \<and> (ts \<noteq> [] \<longrightarrow> start \<le> last ts \<longrightarrow> u - last ts \<le> gap)"
  by (induction gap start ts rule: contiguous.induct) auto

lemma contiguous_Cons_tl: "contiguous gap start (t # ts) \<Longrightarrow> contiguous gap start ts"
  by (cases ts) auto

lemma contiguous_drop: "contiguous gap start ts \<Longrightarrow> contiguous gap start (drop n ts)"
  by (induction ts arbitrary: n) (auto simp: drop_Cons' dest: contiguous_Cons_tl)

lemma contiguous_mono: "contiguous gap start ts \<Longrightarrow> start \<le> start' \<Longrightarrow> contiguous gap start' ts"
  by (induction gap start ts rule: contiguous.induct) auto

text \<open>
  A contiguous list covers: from its first relevant time to its last, every instant has a time
  of the list at most \<open>gap\<close> before it.
\<close>

lemma contiguous_covers:
  assumes "contiguous gap start ts" and "p \<in> set ts" and "start \<le> p" and "sorted_wrt (<) ts"
    and "p \<le> x" and "x \<le> last ts + gap"
  shows "\<exists>t \<in> set ts. t \<le> x \<and> x - t \<le> gap"
  using assms
proof (induction gap start ts arbitrary: p rule: contiguous.induct)
  case (1 gap start t u ts)
  show ?case
  proof (cases "p = t \<and> x < u")
    case True
    with 1 have "x - t \<le> gap"
      by auto
    with True 1 show ?thesis
      by auto
  next
    case False
    have "\<exists>q \<in> set (u # ts). start \<le> q \<and> q \<le> x"
      using False 1 by (cases "p = t") auto
    then obtain q where "q \<in> set (u # ts)" "start \<le> q" "q \<le> x"
      by blast
    with "1.IH" [of q] "1.prems" show ?thesis
      by auto
  qed
next
  case "2_2"
  then show ?case
    by auto
qed auto

text \<open>
  What a coverage record claims of the points of its series: they are strictly increasing, they
  end with the last recorded time, they are contiguous from the first recorded time on, and if
  the first recorded time is itself no longer retained, then only points older than the window
  or points lost before the last recorded loss are missing.
\<close>

definition front_ok :: "history_options \<Rightarrow> time \<Rightarrow> time list \<Rightarrow> history_coverage \<Rightarrow> bool" where
  "front_ok opts T ts c \<longleftrightarrow> cov_firstRecordedAt c \<in> set ts \<or>
     cov_firstRecordedAt c < hd ts \<and>
     (hd ts \<le> T - ho_Duration opts + ho_ContinuityGap opts \<or>
      cov_lastLossAt c \<noteq> 0 \<and> hd ts \<le> cov_lastLossAt c)"

definition covers :: "history_options \<Rightarrow> time \<Rightarrow> time list \<Rightarrow> history_coverage \<Rightarrow> bool" where
  "covers opts T ts c \<longleftrightarrow> ts \<noteq> [] \<and> sorted_wrt (<) ts \<and> last ts = cov_lastRecordedAt c \<and>
     0 < cov_firstRecordedAt c \<and> cov_firstRecordedAt c \<le> cov_lastRecordedAt c \<and>
     contiguous (ho_ContinuityGap opts) (cov_firstRecordedAt c) ts \<and> front_ok opts T ts c"

lemma front_ok_mono: "front_ok opts T ts c \<Longrightarrow> T \<le> T' \<Longrightarrow> front_ok opts T' ts c"
  by (auto simp: front_ok_def)

lemma contiguous_nth:
  "contiguous gap start ts \<Longrightarrow> Suc i < length ts \<Longrightarrow> start \<le> ts ! i \<Longrightarrow> ts ! Suc i - ts ! i \<le> gap"
proof (induction gap start ts arbitrary: i rule: contiguous.induct)
  case (1 gap start t u ts)
  then show ?case
    by (cases i) auto
qed auto

lemma sorted_nth_le: "sorted_wrt (<) ts \<Longrightarrow> i \<le> j \<Longrightarrow> j < length ts \<Longrightarrow> (ts ! i :: int) \<le> ts ! j"
  using sorted_wrt_nth_less [of "(<)" ts i j] by (cases "i = j") auto

text \<open>The last point that a removal of the first \<open>n\<close> points takes away.\<close>

lemma covers_removed:
  assumes "covers opts T ts c" and "0 < n" and "n < length ts"
  shows "cov_firstRecordedAt c \<in> set (drop n ts) \<or> cov_firstRecordedAt c \<le> ts ! (n - 1)"
    and "ts ! (n - 1) < hd (drop n ts)"
    and "cov_firstRecordedAt c \<le> ts ! (n - 1) \<Longrightarrow> hd (drop n ts) - ts ! (n - 1) \<le> ho_ContinuityGap opts"
proof -
  from assms(1) have sorted: "sorted_wrt (<) ts" and
    cont: "contiguous (ho_ContinuityGap opts) (cov_firstRecordedAt c) ts" and
    front: "front_ok opts T ts c" and ne: "ts \<noteq> []"
    by (simp_all add: covers_def)
  have hd: "hd (drop n ts) = ts ! n"
    using assms(3) by (rule hd_drop_conv_nth)
  show "ts ! (n - 1) < hd (drop n ts)"
    using sorted assms(2,3) unfolding hd by (auto intro: sorted_wrt_nth_less)
  show "hd (drop n ts) - ts ! (n - 1) \<le> ho_ContinuityGap opts" if "cov_firstRecordedAt c \<le> ts ! (n - 1)"
    using contiguous_nth [OF cont, of "n - 1"] that assms(2,3) hd by simp
  show "cov_firstRecordedAt c \<in> set (drop n ts) \<or> cov_firstRecordedAt c \<le> ts ! (n - 1)"
  proof (cases "cov_firstRecordedAt c \<in> set ts")
    case True
    then obtain i where i: "i < length ts" "ts ! i = cov_firstRecordedAt c"
      by (metis in_set_conv_nth)
    show ?thesis
    proof (cases "i < n")
      case True
      with sorted_nth_le [OF sorted, of i "n - 1"] i assms(2,3) show ?thesis
        by simp
    next
      case False
      then have "drop n ts ! (i - n) = cov_firstRecordedAt c" "i - n < length (drop n ts)"
        using i assms(3) by simp_all
      then show ?thesis
        by (metis nth_mem)
    qed
  next
    case False
    with front have "cov_firstRecordedAt c < ts ! 0"
      using ne by (simp add: front_ok_def hd_conv_nth)
    moreover have "ts ! 0 \<le> ts ! (n - 1)"
      by (rule sorted_nth_le [OF sorted]) (use assms(3) in simp_all)
    ultimately show ?thesis
      by simp
  qed
qed

lemma covers_suffix:
  assumes "covers opts T ts c" and "n < length ts" and "front_ok opts T (drop n ts) c'"
    and "cov_firstRecordedAt c' = cov_firstRecordedAt c" and "cov_lastRecordedAt c' = cov_lastRecordedAt c"
  shows "covers opts T (drop n ts) c'"
  using assms by (simp add: covers_def contiguous_drop sorted_wrt_drop)

lemma covers_prune:
  assumes "covers opts T ts c" and "t \<le> T" and "dropWhile (\<lambda>x. x < t - ho_Duration opts) ts \<noteq> []"
  shows "covers opts T (dropWhile (\<lambda>x. x < t - ho_Duration opts) ts) c"
proof -
  let ?P = "\<lambda>x. x < t - ho_Duration opts"
  define n where "n = length (takeWhile ?P ts)"
  have dw: "dropWhile ?P ts = drop n ts"
    by (simp add: n_def dropWhile_eq_drop)
  have n: "n < length ts"
    using assms(3) unfolding dw by simp
  show ?thesis
  proof (cases "n = 0")
    case False
    have "takeWhile ?P ts ! (n - 1) \<in> set (takeWhile ?P ts)"
      using False by (intro nth_mem) (simp add: n_def)
    then have v: "?P (ts ! (n - 1))"
      using False by (auto simp: n_def takeWhile_nth dest: set_takeWhileD)
    note rem = covers_removed [OF assms(1) _ n]
    have "front_ok opts T (drop n ts) c"
      using rem False v assms(2) by (force simp: front_ok_def)
    with covers_suffix [OF assms(1) n] show ?thesis
      by (simp add: dw)
  qed (use assms(1) dw in simp)
qed

lemma covers_drop:
  assumes "covers opts T ts c" and "0 < n" and "n < length ts" and "last ts \<le> l" and "l \<noteq> 0"
  shows "covers opts T (drop n ts) (c\<lparr>cov_evictedPoints := e, cov_lastLossAt := l\<rparr>)"
proof (rule covers_suffix [OF assms(1,3)])
  have "sorted_wrt (<) ts"
    using assms(1) by (simp add: covers_def)
  then have "ts ! n \<le> ts ! (length ts - 1)"
    by (rule sorted_nth_le) (use assms(3) in simp_all)
  moreover have "ts \<noteq> []"
    using assms(3) by auto
  ultimately have "hd (drop n ts) \<le> last ts"
    using assms(3) by (simp add: hd_drop_conv_nth last_conv_nth)
  with covers_removed [OF assms(1-3)] assms(4,5)
  show "front_ok opts T (drop n ts) (c\<lparr>cov_evictedPoints := e, cov_lastLossAt := l\<rparr>)"
    by (auto simp: front_ok_def)
qed simp_all

abbreviation point_times :: "pod_history \<Rightarrow> time list" where
  "point_times s \<equiv> map hp_CapturedAt (ph_Points s)"

definition history_covered :: "time \<Rightarrow> history_store \<Rightarrow> bool" where
  "history_covered T h \<longleftrightarrow> (\<forall>k s c. mget (hs_series h) k = Some s \<longrightarrow> mget (hs_coverage h) k = Some c \<longrightarrow>
     covers (hs_opts h) T (point_times s) c)"

lemma live_points_times:
  "map hp_CapturedAt (live_points c ps) = dropWhile (\<lambda>x. x < c) (map hp_CapturedAt ps)"
  by (simp add: live_points_def dropWhile_map comp_def)

lemma history_covered_prune:
  assumes "history_maps h" and "history_covered T h" and "t \<le> T"
  shows "history_covered T (history_prune h t)"
  unfolding history_covered_def
proof (intro allI impI)
  fix k s c
  assume s: "mget (hs_series (history_prune h t)) k = Some s"
    and c: "mget (hs_coverage (history_prune h t)) k = Some c"
  have wf: "mwf (hs_series h)"
    using assms(1) by (simp add: history_maps_def)
  let ?cut = "t - ho_Duration (hs_opts h)"
  from s obtain s0 where s0: "mget (hs_series h) k = Some s0"
    "s = s0\<lparr>ph_Points := live_points ?cut (ph_Points s0)\<rparr>" "live_points ?cut (ph_Points s0) \<noteq> []"
    by (auto simp: mget_prune_series [OF wf] Let_def split: option.splits if_splits)
  have "mget (hs_coverage h) k = Some c"
    using c s by (simp add: mget_prune_coverage [OF assms(1)])
  with assms(2) s0(1) have "covers (hs_opts h) T (point_times s0) c"
    by (simp add: history_covered_def)
  from covers_prune [OF this assms(3)] s0(2,3) show "covers (hs_opts (history_prune h t)) T (point_times s) c"
    by (simp add: live_points_times flip: map_is_Nil_conv [of hp_CapturedAt])
qed

lemma appendPoint_times:
  "map hp_CapturedAt (appendPoint p ps) =
    (if ps \<noteq> [] \<and> last (map hp_CapturedAt ps) = hp_CapturedAt p then map hp_CapturedAt ps
     else map hp_CapturedAt ps @ [hp_CapturedAt p])"
  by (cases ps rule: rev_cases) (auto simp: appendPoint_def)

definition gap_ok :: "history_options \<Rightarrow> bool" where
  "gap_ok opts \<longleftrightarrow> 0 < ho_ContinuityGap opts \<and> ho_ContinuityGap opts < max_int64"

lemma touchCoverage_first:
  "0 < t \<Longrightarrow> cov_firstRecordedAt c = t \<Longrightarrow> cov_lastRecordedAt c = 0 \<Longrightarrow>
   covers opts T [t] (touchCoverage opts t fp c)"
  by (simp add: touchCoverage_def Let_def covers_def front_ok_def)

lemma covers_touch:
  assumes "covers opts T ts c" and "gap_ok opts" and "cov_lastRecordedAt c \<le> t"
  shows "covers opts T (if last ts = t then ts else ts @ [t]) (touchCoverage opts t fp c)"
proof -
  have gap: "time_sub t l > ho_ContinuityGap opts \<longleftrightarrow> t - l > ho_ContinuityGap opts" for l
    using assms(2) by (simp add: gap_ok_def min_int64_def)
  from assms(1) have ts: "ts \<noteq> []" "sorted_wrt (<) ts" "last ts = cov_lastRecordedAt c"
    "0 < cov_firstRecordedAt c" "cov_firstRecordedAt c \<le> cov_lastRecordedAt c"
    "contiguous (ho_ContinuityGap opts) (cov_firstRecordedAt c) ts" "front_ok opts T ts c"
    by (simp_all add: covers_def)
  show ?thesis
  proof (cases "cov_lastRecordedAt c = t")
    case True
    with ts assms(2) show ?thesis
      by (simp add: touchCoverage_def Let_def gap covers_def front_ok_def gap_ok_def)
  next
    case False
    with assms(3) have lt: "cov_lastRecordedAt c < t"
      by simp
    have below: "\<forall>x \<in> set ts. x < t"
    proof
      fix x
      assume "x \<in> set ts"
      then obtain i where "i < length ts" "ts ! i = x"
        by (metis in_set_conv_nth)
      moreover have "ts ! i \<le> ts ! (length ts - 1)"
        by (rule sorted_nth_le [OF ts(2)]) (use \<open>i < length ts\<close> in simp_all)
      ultimately show "x < t"
        using ts(1,3) lt by (simp add: last_conv_nth)
    qed
    have cont: "contiguous (ho_ContinuityGap opts) t ts"
      by (rule contiguous_mono [OF ts(6)]) (use ts(5) lt in simp)
    show ?thesis
    proof (cases "t - cov_lastRecordedAt c > ho_ContinuityGap opts")
      case True
      with ts lt below cont show ?thesis
        by (simp add: touchCoverage_def Let_def gap covers_def front_ok_def contiguous_append
            sorted_wrt_append)
    next
      case False
      with ts lt below show ?thesis
        by (auto simp: touchCoverage_def Let_def gap covers_def front_ok_def contiguous_append
            sorted_wrt_append)
    qed
  qed
qed

lemma covers_kept:
  assumes "covers opts T (map hp_CapturedAt ps) c" and "last (map hp_CapturedAt ps) \<le> t" and "0 < t"
    and "0 < ho_MaxPoints opts" and "int (length ps) - ho_MaxPoints opts > 0"
  shows "covers opts T (map hp_CapturedAt (kept_points opts ps))
    (c\<lparr>cov_evictedPoints := e, cov_lastLossAt := t\<rparr>)"
  unfolding kept_points_def drop_map [symmetric]
  by (rule covers_drop [OF assms(1)]) (use assms(2-) in auto)

text \<open>What \<open>appendToSeries\<close> does to the coverage record of its series.\<close>

lemma covers_appendToSeries:
  assumes k: "mget (hs_series h) k = Some s" and t: "0 < t"
    and opts: "gap_ok (hs_opts h)" "0 < ho_MaxPoints (hs_opts h)"
    and old: "(\<exists>c. mget (hs_coverage h) k = Some c \<and> covers (hs_opts h) T (point_times s) c \<and>
        cov_lastRecordedAt c \<le> t) \<or>
      (ph_Points s = [] \<and> (\<exists>c. mget (hs_coverage h) k = Some c \<and> cov_firstRecordedAt c = t \<and>
        cov_lastRecordedAt c = 0))"
  shows "\<exists>s' c'. mget (hs_series (appendToSeries H t u k cs h)) k = Some s' \<and>
    mget (hs_coverage (appendToSeries H t u k cs h)) k = Some c' \<and>
    covers (hs_opts h) T (point_times s') c'"
proof -
  obtain c where c: "mget (hs_coverage h) k = Some c"
    using old by blast
  let ?fp = "replicaFingerprint H u cs"
  let ?c = "touchCoverage (hs_opts h) t ?fp c"
  let ?ps = "appendPoint (pod_point t s cs) (ph_Points s)"
  have times: "map hp_CapturedAt ?ps = (if ph_Points s \<noteq> [] \<and> last (point_times s) = t then point_times s
      else point_times s @ [t])"
    by (simp add: appendPoint_times pod_point_def)
  have cov: "covers (hs_opts h) T (map hp_CapturedAt ?ps) ?c \<and> last (map hp_CapturedAt ?ps) \<le> t"
    using old
  proof
    assume "\<exists>c. mget (hs_coverage h) k = Some c \<and> covers (hs_opts h) T (point_times s) c \<and> cov_lastRecordedAt c \<le> t"
    with c have c1: "covers (hs_opts h) T (point_times s) c" "cov_lastRecordedAt c \<le> t"
      by auto
    then have "ph_Points s \<noteq> []" "last (point_times s) \<le> t"
      by (auto simp: covers_def)
    with covers_touch [OF c1(1) opts(1) c1(2), of ?fp] show ?thesis
      unfolding times by auto
  next
    assume "ph_Points s = [] \<and> (\<exists>c. mget (hs_coverage h) k = Some c \<and> cov_firstRecordedAt c = t \<and>
        cov_lastRecordedAt c = 0)"
    with c touchCoverage_first [OF t, of c "hs_opts h" T ?fp] show ?thesis
      unfolding times by auto
  qed
  show ?thesis
  proof (cases "int (length ?ps) - ho_MaxPoints (hs_opts h) > 0")
    case True
    note kept = covers_kept [OF conjunct1 [OF cov] conjunct2 [OF cov] t opts(2) True]
    obtain e where "hs_coverage (appendToSeries H t u k cs h) =
        mput k (?c\<lparr>cov_evictedPoints := e, cov_lastLossAt := t\<rparr>) (hs_coverage h)"
      using appendToSeries_coverage [OF k, of H t u cs] True c by auto
    with kept [of e] show ?thesis
      by (simp add: appendToSeries_frame(2) [OF k] mget_mput)
  next
    case False
    then have "hs_coverage (appendToSeries H t u k cs h) = mput k ?c (hs_coverage h)"
      using appendToSeries_coverage [OF k, of H t u cs] c by auto
    moreover have "kept_points (hs_opts h) ?ps = ?ps"
      using False by (simp add: kept_points_def)
    ultimately show ?thesis
      using cov by (simp add: appendToSeries_frame(2) [OF k] mget_mput)
  qed
qed

lemma appendToSeries_others:
  "j \<noteq> k \<Longrightarrow> mget (hs_series (appendToSeries H t u k cs h)) j = mget (hs_series h) j"
  "j \<noteq> k \<Longrightarrow> mget (hs_coverage (appendToSeries H t u k cs h)) j = mget (hs_coverage h) j"
  by (auto simp: appendToSeries_def Let_def mget_mput split: option.splits)

lemma createSeries_others:
  "j \<noteq> k \<Longrightarrow> mget (hs_series (createSeries k c t h)) j = mget (hs_series h) j"
  "j \<noteq> k \<Longrightarrow> mget (hs_coverage (createSeries k c t h)) j = mget (hs_coverage h) j"
  by (simp_all add: createSeries_def Let_def mget_mput)

lemma createSeries_new:
  "\<exists>s. mget (hs_series (createSeries k c t h)) k = Some s \<and> ph_Points s = []"
  "\<exists>v. mget (hs_coverage (createSeries k c t h)) k = Some v \<and> cov_firstRecordedAt v = t \<and>
     cov_lastRecordedAt v = 0"
  by (auto simp: createSeries_def Let_def mget_mput cov_zero_def split: option.splits)

lemma recordDrop_frame [simp]:
  "hs_series (recordDrop k c t h) = hs_series h" "hs_coverage (recordDrop k c t h) = hs_coverage h"
  by (auto simp: recordDrop_def split: option.splits)

lemma recordPod_others:
  "j \<noteq> fst kc \<Longrightarrow> mget (hs_series (recordPod H t u kc h)) j = mget (hs_series h) j"
  "j \<noteq> fst kc \<Longrightarrow> mget (hs_coverage (recordPod H t u kc h)) j = mget (hs_coverage h) j"
  by (auto simp: recordPod_def appendToSeries_others createSeries_others split: option.splits prod.splits)

lemma history_coverage_present:
  "history_wf h \<Longrightarrow> mget (hs_series h) k = Some s \<Longrightarrow> \<exists>c. mget (hs_coverage h) k = Some c"
  unfolding history_wf_def history_maps_def by (metis not_None_eq)

lemma history_covered_recordPod:
  assumes wf: "history_wf h" and cov: "history_covered T h" and t: "0 < t"
    and opts: "gap_ok (hs_opts h)" "0 < ho_MaxPoints (hs_opts h)"
    and order: "\<forall>c. mget (hs_coverage h) k = Some c \<longrightarrow> cov_lastRecordedAt c \<le> t"
  shows "history_covered T (recordPod H t u (k, cs) h)"
proof -
  have own: "covers (hs_opts h) T (point_times s) c"
    if "mget (hs_series (recordPod H t u (k, cs) h)) k = Some s"
      "mget (hs_coverage (recordPod H t u (k, cs) h)) k = Some c" for s c
  proof (cases "mget (hs_series h) k")
    case (Some s0)
    then obtain c0 where c0: "mget (hs_coverage h) k = Some c0"
      using history_coverage_present wf by blast
    have "\<exists>s' c'. mget (hs_series (appendToSeries H t u k cs h)) k = Some s' \<and>
        mget (hs_coverage (appendToSeries H t u k cs h)) k = Some c' \<and>
        covers (hs_opts h) T (point_times s') c'"
      by (rule covers_appendToSeries [OF Some t opts])
        (use cov order c0 Some in \<open>simp add: history_covered_def\<close>)
    with that Some show ?thesis
      by (simp add: recordPod_def)
  next
    case None
    show ?thesis
    proof (cases "int (mlen (hs_series h)) \<ge> ho_MaxSeries (hs_opts h)")
      case True
      with that None show ?thesis
        by (simp add: recordPod_def)
    next
      case False
      let ?h = "createSeries k (hd cs) t h"
      obtain s0 where new: "mget (hs_series ?h) k = Some s0" "ph_Points s0 = []"
        using createSeries_new(1) by blast
      have "\<exists>s' c'. mget (hs_series (appendToSeries H t u k cs ?h)) k = Some s' \<and>
          mget (hs_coverage (appendToSeries H t u k cs ?h)) k = Some c' \<and> covers (hs_opts ?h) T (point_times s') c'"
        by (rule covers_appendToSeries [OF new(1) t]) (use opts new createSeries_new(2) in auto)
      with that None False show ?thesis
        by (auto simp: recordPod_def)
    qed
  qed
  show ?thesis
    unfolding history_covered_def hs_opts_simps
  proof (intro allI impI)
    fix j s c
    assume js: "mget (hs_series (recordPod H t u (k, cs) h)) j = Some s"
      and jc: "mget (hs_coverage (recordPod H t u (k, cs) h)) j = Some c"
    show "covers (hs_opts h) T (point_times s) c"
    proof (cases "j = k")
      case False
      with js jc cov show ?thesis
        by (simp add: recordPod_others history_covered_def)
    qed (use own js jc in simp)
  qed
qed

definition in_order :: "time \<Rightarrow> string set \<Rightarrow> history_store \<Rightarrow> bool" where
  "in_order t keys h \<longleftrightarrow> 0 < t \<and> (\<forall>k \<in> keys. \<forall>c. mget (hs_coverage h) k = Some c \<longrightarrow> cov_lastRecordedAt c \<le> t)"

lemma in_order_prune: "history_maps h \<Longrightarrow> in_order t ks h \<Longrightarrow> in_order t ks (history_prune h t')"
  by (auto simp: in_order_def mget_prune_coverage split: if_splits)

lemma fold_recordPod_covered:
  assumes "history_wf h" and "history_covered T h" and "history_opts_ok (hs_opts h)"
    and "in_order t (set keys) h" and "distinct keys" and "\<forall>k \<in> set keys. pod_group (k, f k)"
  shows "history_covered T (fold (\<lambda>key. recordPod H t u (key, f key)) keys h)"
  using assms
proof (induction keys arbitrary: h)
  case (Cons k ks)
  let ?h = "recordPod H t u (k, f k) h"
  from Cons.prems have "history_wf ?h"
    by (intro history_wf_recordPod) (simp_all add: history_opts_ok_def)
  moreover have "history_covered T ?h"
    by (rule history_covered_recordPod)
      (use Cons.prems in \<open>simp_all add: in_order_def history_opts_ok_def gap_ok_def\<close>)
  moreover have "in_order t (set ks) ?h"
    using Cons.prems by (auto simp: in_order_def) (metis fst_conv recordPod_others(2))
  ultimately show ?case
    using Cons.IH [of ?h] Cons.prems by simp
qed simp

lemma history_covered_record:
  assumes "history_wf h" and "history_covered T h" and "history_opts_ok (hs_opts h)" and "t \<le> T"
    and "in_order t (set (mkeys (groupByPod [] cs))) h"
  shows "history_covered T (history_record H t cs u h)"
  unfolding history_record_def Let_def
proof (rule fold_recordPod_covered)
  have maps: "history_maps h"
    using assms(1) by (simp add: history_wf_def)
  show "history_wf (history_prune h t)"
    by (rule history_wf_prune [OF maps])
  show "history_covered T (history_prune h t)"
    by (rule history_covered_prune [OF maps assms(2,4)])
  show "in_order t (set (sort (mkeys (groupByPod [] cs)))) (history_prune h t)"
    using in_order_prune [OF maps assms(5)] by simp
  show "distinct (sort (mkeys (groupByPod [] cs)))"
    using mwf_groupByPod [of "[]" cs] by (simp add: mwf_def mkeys_def)
  show "\<forall>k \<in> set (sort (mkeys (groupByPod [] cs))). pod_group (k, mget0 [] (groupByPod [] cs) k)"
    using pod_group_groupByPod by simp
qed (use assms(3) in simp)

text \<open>
  The states a history can reach by recording and pruning up to the instant \<open>T\<close>. A capture is
  never older than what its series already holds: the store rejects older captures of a Node.
\<close>

inductive history_run :: "fingerprint_hash \<Rightarrow> history_options \<Rightarrow> time \<Rightarrow> history_store \<Rightarrow> bool"
  for H :: fingerprint_hash and o1 :: history_options and T :: time where
  started: "history_run H o1 T (newHistoryStore o1 t0)"
| recorded: "history_run H o1 T h \<Longrightarrow> t \<le> T \<Longrightarrow> in_order t (set (mkeys (groupByPod [] cs))) h \<Longrightarrow>
    history_run H o1 T (history_record H t cs u h)"
| pruned: "history_run H o1 T h \<Longrightarrow> t \<le> T \<Longrightarrow> history_run H o1 T (history_prune h t)"

lemma history_run_opts: "history_run H o1 T h \<Longrightarrow> hs_opts h = normalise_history_options o1"
  by (induction rule: history_run.induct) (simp_all add: newHistoryStore_def)

lemma history_run_ok:
  assumes "history_run H o1 T h" and "history_opts_ok (normalise_history_options o1)"
  shows "history_wf h \<and> history_covered T h"
  using assms
proof (induction rule: history_run.induct)
  case (started t0)
  then show ?case
    by (simp add: newHistoryStore_def history_wf_def history_maps_def history_covered_def history_opts_ok_def)
next
  case (recorded h t cs u)
  have "history_opts_ok (hs_opts h)"
    using recorded history_run_opts by simp
  with recorded history_wf_record history_covered_record show ?case
    by (simp add: history_opts_ok_def)
next
  case (pruned h t)
  then have "history_maps h"
    by (simp add: history_wf_def)
  with pruned show ?case
    by (simp add: history_wf_prune history_covered_prune)
qed

subsection \<open>Properties\<close>

lemma sum_list_bound: "(\<forall>x \<in> set xs. f x \<le> (b :: int)) \<Longrightarrow> sum_list (map f xs) \<le> b * int (length xs)"
  by (induction xs) (simp_all add: algebra_simps add_mono)

lemma int_sum_list: "int (sum_list ns) = sum_list (map int ns)"
  by (induction ns) simp_all

text \<open>
  C13. Whatever captures are recorded, in whatever order, the history keeps at most \<open>MaxSeries\<close>
  series of at most \<open>MaxPoints\<close> points and at most \<open>MaxSeries\<close> drop records; every retained series
  has a point, so the reader's comparison by last point never indexes an empty list, and has its
  coverage record, so no nil coverage is dereferenced.
\<close>

theorem history_stays_bounded:
  assumes "history_wf h" and "history_opts_ok (hs_opts h)"
  shows "history_wf (history_record H t cs u h)
    \<and> int (fst (history_stats (history_record H t cs u h))) \<le> ho_MaxSeries (hs_opts h)
    \<and> int (snd (history_stats (history_record H t cs u h))) \<le> ho_MaxPoints (hs_opts h) * ho_MaxSeries (hs_opts h)
    \<and> int (mlen (hs_dropped (history_record H t cs u h))) \<le> ho_MaxSeries (hs_opts h)"
proof -
  let ?h = "history_record H t cs u h"
  have wf: "history_wf ?h"
    using assms by (intro history_wf_record) (simp_all add: history_opts_ok_def)
  then have b: "int (mlen (hs_series ?h)) \<le> ho_MaxSeries (hs_opts h)"
    "int (mlen (hs_dropped ?h)) \<le> ho_MaxSeries (hs_opts h)" and mwf: "mwf (hs_series ?h)" and
    ok: "\<And>k s. mget (hs_series ?h) k = Some s \<Longrightarrow> series_ok (hs_opts h) k s"
    by (simp_all add: history_wf_def history_maps_def)
  have "\<forall>x \<in> set (hs_series ?h). int (length (ph_Points (snd x))) \<le> ho_MaxPoints (hs_opts h)"
    using ok mget_in_iff [OF mwf] by (force simp: series_ok_def)
  from sum_list_bound [OF this] have "int (snd (history_stats ?h)) \<le> ho_MaxPoints (hs_opts h) * int (mlen (hs_series ?h))"
    by (simp add: history_stats_def case_prod_beta' mlen_def int_sum_list comp_def)
  also have "... \<le> ho_MaxPoints (hs_opts h) * ho_MaxSeries (hs_opts h)"
    using b(1) assms(2) by (intro mult_left_mono) (simp_all add: history_opts_ok_def)
  finally show ?thesis
    using wf b by (simp add: history_stats_def)
qed

lemma coverage_complete_covers:
  assumes "covers opts now ts c" and "coverage_complete opts c now" and "history_opts_ok opts"
    and "now - ho_Duration opts + ho_ContinuityGap opts \<le> x" and "x \<le> now"
  shows "\<exists>t \<in> set ts. t \<le> x \<and> x - t \<le> ho_ContinuityGap opts"
proof -
  from assms(2,3) have first: "cov_firstRecordedAt c \<le> now - ho_Duration opts" and
    last: "now - cov_lastRecordedAt c \<le> ho_ContinuityGap opts" and
    loss: "cov_lastLossAt c = 0 \<or> cov_lastLossAt c \<le> now - ho_Duration opts"
    by (auto simp: coverage_complete_def history_opts_ok_def min_int64_def)
  from assms(1) have cont: "contiguous (ho_ContinuityGap opts) (cov_firstRecordedAt c) ts" and
    sorted: "sorted_wrt (<) ts" and ts: "ts \<noteq> []" "last ts = cov_lastRecordedAt c" and
    front: "front_ok opts now ts c"
    by (simp_all add: covers_def)
  have gap: "0 < ho_ContinuityGap opts"
    using assms(3) by (simp add: history_opts_ok_def)
  obtain p where "p \<in> set ts" "cov_firstRecordedAt c \<le> p" "p \<le> x"
  proof (cases "cov_firstRecordedAt c \<in> set ts")
    case True
    with that [OF True] first gap assms(4) show thesis
      by simp
  next
    case False
    with front loss gap assms(4) have "cov_firstRecordedAt c \<le> hd ts" "hd ts \<le> x"
      by (auto simp: front_ok_def)
    with that [of "hd ts"] ts(1) show thesis
      by simp
  qed
  with contiguous_covers [OF cont _ _ sorted] ts(2) last assms(5) show ?thesis
    by fastforce
qed

lemma scoped_complete_iff:
  "hr_Completeness (scopedReliability h ns pod nd now) = EvidenceComplete \<longleftrightarrow>
     (\<exists>x \<in> set (hs_series h). series_selected ns pod nd (snd x)) \<and>
     (\<forall>x \<in> set (hs_series h). series_selected ns pod nd (snd x) \<longrightarrow>
        coverage_complete (hs_opts h) (mget0 cov_zero (hs_coverage h) (fst x)) now) \<and>
     (\<forall>x \<in> set (hs_dropped h). \<not> drop_selected ns pod nd (snd x))"
  by (simp add: scopedReliability_def Let_def filter_empty_conv case_prod_beta') (intro conjI impI; force)


subsection \<open>A run on concrete captures\<close>

definition small_options :: history_options where
  "small_options = \<lparr>ho_Duration = 10, ho_MaxSeries = 1, ho_MaxPoints = 3, ho_MaxResponseSeries = 1,
     ho_ContinuityGap = 5\<rparr>"

definition pod_container :: "string \<Rightarrow> container_snapshot" where
  "pod_container pod = container_zero\<lparr>cs_Namespace := ''ns'', cs_PodName := pod, cs_PodUID := pod,
     cs_NodeName := ''n1''\<rparr>"

definition const_hash :: fingerprint_hash where
  "const_hash uid es = ''h''"

definition small_history :: "time list \<Rightarrow> history_store" where
  "small_history ts = fold (\<lambda>t. history_record const_hash t [pod_container ''p''] '''') ts
     (newHistoryStore small_options 1)"

lemma small_options_ok [simp]:
  "normalise_history_options small_options = small_options" "history_opts_ok small_options"
  by (simp_all add: small_options_def normalise_history_options_def history_opts_ok_def Let_def go_simps)

lemma record_one:
  assumes "recordable c"
  shows "history_record H t [c] u h = recordPod H t u (container_key c, [c]) (history_prune h t)"
  using assms by (simp add: history_record_def mput_def mkeys_def mget0_def mget_def Let_def)

lemma pod_container_fields:
  "recordable (pod_container pod) \<longleftrightarrow> pod \<noteq> ''''"
  "container_key (pod_container pod) = historyKey ''ns'' pod pod ''n1''"
  "cs_Namespace (pod_container pod) = ''ns''" "cs_PodName (pod_container pod) = pod"
  "cs_NodeName (pod_container pod) = ''n1''" "cs_PodUID (pod_container pod) = pod"
  by (simp_all add: pod_container_def recordable_def container_key_def)

lemma small_options_fields:
  "ho_Duration small_options = 10" "ho_MaxSeries small_options = 1" "ho_MaxPoints small_options = 3"
  "ho_ContinuityGap small_options = 5"
  by (simp_all add: small_options_def)

text \<open>The history holds the one series of Pod \<open>p\<close>, with points at \<open>ts\<close>.\<close>

definition one_series :: "time list \<Rightarrow> history_store \<Rightarrow> bool" where
  "one_series ts h \<longleftrightarrow> hs_opts h = small_options \<and> hs_dropped h = [] \<and> hs_droppedSeries h = 0 \<and>
     (\<exists>s c. hs_series h = [(historyKey ''ns'' ''p'' ''p'' ''n1'', s)] \<and>
       hs_coverage h = [(historyKey ''ns'' ''p'' ''p'' ''n1'', c)] \<and>
       ph_Namespace s = ''ns'' \<and> ph_PodName s = ''p'' \<and> ph_NodeName s = ''n1'' \<and> point_times s = ts \<and>
       cov_firstRecordedAt c = hd ts \<and> cov_lastRecordedAt c = last ts \<and> cov_lastLossAt c = 0)"

lemmas history_step_defs = recordPod_def createSeries_def appendToSeries_def touchCoverage_def
  appendPoint_def Let_def mget_def mput_def mget0_def mlen_def cov_zero_def

lemma one_series_first:
  assumes "0 < t"
  shows "one_series [t] (history_record const_hash t [pod_container ''p''] '''' (newHistoryStore small_options 1))"
  using assms
  by (simp add: record_one pod_container_fields one_series_def newHistoryStore_def)
    (simp add: history_prune_def newHistoryStore_def history_step_defs pod_container_fields mkeep_def
      small_options_def)
lemma one_series_next:
  assumes "one_series ts h" and "ts \<noteq> []" and "0 < last ts" and "last ts < t" and "t - last ts \<le> 5"
    and "\<forall>x \<in> set ts. t - 10 \<le> x" and "length ts < 3"
  shows "one_series (ts @ [t]) (history_record const_hash t [pod_container ''p''] '''' h)"
proof -
  from assms(1) obtain s c where h: "hs_opts h = small_options" "hs_dropped h = []" "hs_droppedSeries h = 0"
    "hs_series h = [(historyKey ''ns'' ''p'' ''p'' ''n1'', s)]"
    "hs_coverage h = [(historyKey ''ns'' ''p'' ''p'' ''n1'', c)]"
    "ph_Namespace s = ''ns''" "ph_PodName s = ''p''" "ph_NodeName s = ''n1''" "point_times s = ts"
    "cov_firstRecordedAt c = hd ts" "cov_lastRecordedAt c = last ts" "cov_lastLossAt c = 0"
    by (auto simp: one_series_def)
  have ne: "ph_Points s \<noteq> []"
    using h(9) assms(2) by auto
  then have "hp_CapturedAt (last (ph_Points s)) = last ts"
    by (simp add: last_map flip: h(9))
  moreover have "live_points (t - 10) (ph_Points s) = ph_Points s"
    using h(9) assms(6) ne by (auto simp: live_points_def dropWhile_eq_self_iff) (metis hd_in_set leD)
  moreover note ne
  moreover have "length (ph_Points s) < 3"
    using h(9) assms(7) by (metis length_map)
  moreover have "time_sub t (last ts) \<le> 5"
    using assms(5) by (simp add: go_simps)
  ultimately show ?thesis
    using assms(2-5) h
    by (simp add: record_one pod_container_fields one_series_def)
      (simp add: history_prune_def history_step_defs mkeep_def small_options_def)
qed

lemma newHistoryStore_wf: "history_opts_ok (normalise_history_options o1) \<Longrightarrow> history_wf (newHistoryStore o1 t)"
  by (simp add: newHistoryStore_def history_wf_def history_maps_def history_opts_ok_def)

theorem history_stays_bounded_witness:
  "history_wf (newHistoryStore small_options 1)
   \<and> int (mlen (hs_dropped (history_record const_hash 10 [pod_container ''p'', pod_container ''q''] ''''
        (newHistoryStore small_options 1)))) \<le> 1"
proof -
  have wf: "history_wf (newHistoryStore small_options 1)"
    by (rule newHistoryStore_wf) simp
  moreover have opts: "hs_opts (newHistoryStore small_options 1) = small_options"
    by (simp add: newHistoryStore_def)
  ultimately show ?thesis
    using history_stays_bounded [OF wf, unfolded opts, OF small_options_ok(2),
        of const_hash 10 "[pod_container ''p'', pod_container ''q'']" "''''"]
    by (simp add: small_options_fields)
qed

lemma small_history_Cons:
  "small_history (ts @ [t]) = history_record const_hash t [pod_container ''p''] '''' (small_history ts)"
  by (simp add: small_history_def)

lemma small_history_steps:
  "one_series [5] (small_history [5])"
  "one_series [5, 10] (small_history [5, 10])"
  "one_series [5, 10, 15] (small_history [5, 10, 15])"
proof -
  show one: "one_series [5] (small_history [5])"
    using one_series_first [of 5] by (simp add: small_history_def)
  show two: "one_series [5, 10] (small_history [5, 10])"
    using one_series_next [OF one, of 10] small_history_Cons [of "[5]" 10] by simp
  show "one_series [5, 10, 15] (small_history [5, 10, 15])"
    using one_series_next [OF two, of 15] small_history_Cons [of "[5, 10]" 15] by simp
qed

lemma one_series_in_order:
  "one_series ts h \<Longrightarrow> 0 < t \<Longrightarrow> last ts \<le> t \<Longrightarrow> in_order t ks h"
  by (auto simp: one_series_def in_order_def mget_def split: if_splits)

lemma small_history_run: "history_run const_hash small_options 15 (small_history [5, 10, 15])"
proof -
  have zero: "history_run const_hash small_options 15 (small_history [])"
    by (simp add: small_history_def history_run.started)
  have "in_order 5 ks (small_history [])" for ks
    by (simp add: small_history_def newHistoryStore_def in_order_def)
  from history_run.recorded [OF zero _ this] have one: "history_run const_hash small_options 15 (small_history [5])"
    using small_history_Cons [of "[]" 5] by simp
  from history_run.recorded [OF one _ one_series_in_order [OF small_history_steps(1)]]
  have two: "history_run const_hash small_options 15 (small_history [5, 10])"
    using small_history_Cons [of "[5]" 10] by simp
  from history_run.recorded [OF two _ one_series_in_order [OF small_history_steps(2)]]
  show ?thesis
    using small_history_Cons [of "[5, 10]" 15] by simp
qed

lemma small_history_complete:
  "hr_Completeness (scopedReliability (small_history [5, 10, 15]) ''ns'' ''p'' '''' 15) = EvidenceComplete"
  using small_history_steps(3)
  by (auto simp: scoped_complete_iff one_series_def series_selected_def coverage_complete_def mget0_def mget_def
      small_options_def go_simps)


subsection \<open>Listing\<close>

lemma weak_order_series_before: "weak_order series_before"
proof -
  have "weak_order (\<lambda>a b. if latest_point a \<noteq> latest_point b then latest_point b < latest_point a
      else if ph_NodeName a \<noteq> ph_NodeName b then ph_NodeName a < ph_NodeName b
      else ph_PodUID a < ph_PodUID b)"
    by (intro weak_order_lex_desc weak_order_lex weak_order_key)
  then show ?thesis
    by (simp add: series_before_def [abs_def])
qed

lemma live_points_hd: "live_points c ps \<noteq> [] \<Longrightarrow> c \<le> hp_CapturedAt (hd (live_points c ps))"
  using hd_dropWhile [of "\<lambda>p. hp_CapturedAt p < c" ps] by (simp add: live_points_def not_less)

lemma take_capped:
  "0 \<le> m \<Longrightarrow> \<exists>n. (if int (length xs) > m then take (nat m) xs else xs) = take n xs \<and>
     int (length (take n xs)) \<le> m"
  by (cases "int (length xs) > m") (auto intro: exI [of _ "nat m"] exI [of _ "length xs"])

lemma pruned_series_live:
  assumes "history_maps h" and "(k, s) \<in> set (hs_series (history_prune h now))"
  shows "ph_Points s \<noteq> [] \<and> now - ho_Duration (hs_opts h) \<le> hp_CapturedAt (hd (ph_Points s))"
  using assms(2) by (auto simp: history_prune_def Let_def set_mkeep live_points_hd)



end
