(* ===== verification/Memory_Topology.thy ===== *)
theory Memory_Topology
  imports Node_Observation Go_Sort
begin

text \<open>
  Package \<open>internal/memorytopology\<close>: bounded NUMA and HugeTLB observations, their validation
  (\<open>validate.go\<close>, \<open>completeness.go\<close>), the per-source retention of the last good evidence
  (\<open>retention.go\<close>) and the informational analysis (\<open>analysis.go\<close>, \<open>distribution.go\<close>), whose fractions
  the program compares with \<open>math/big\<close> rationals, here \<open>rat\<close>. \<open>Section[T]\<close> is a polymorphic record.
  The JSON encoder, the strict decoder of \<open>wire.go\<close> and the DNS name check are parameters
  (\<open>topo_lib\<close>); what a lemma needs of them is a hypothesis of it.

  The lemmas: retention takes each section from one of the two observations and revokes it on an
  explicit denial; the uneven-distribution verdict is the exact comparison of fractions; a pool
  report is a partition.
\<close>

unbundle bit_operations_syntax

definition topo_SchemaVersion :: int where
  "topo_SchemaVersion = 1"

definition topo_MaxNodes :: nat where
  "topo_MaxNodes = 8"

definition topo_MaxPageSizes :: nat where
  "topo_MaxPageSizes = 8"

definition topo_MaxObservationBytes :: nat where
  "topo_MaxObservationBytes = 16 * 1024"

definition topo_FreshFor :: duration where
  "topo_FreshFor = 45 * second"

definition topo_FutureSkew :: duration where
  "topo_FutureSkew = 5 * second"

definition topo_MinimumExcessBytes :: rat where
  "topo_MinimumExcessBytes = 64 * 2 ^ 20"

datatype topo_error = TopoInvalid | TopoBounds | TopoEncoding

subsection \<open>Observations\<close>

record 'a topo_section =
  se_Source :: string
  se_Availability :: string
  se_Completeness :: string
  se_Reason :: string
  se_CapturedAt :: time
  se_Items :: "'a list"

record placement =
  pl_HitPages :: "u64 option"
  pl_MissPages :: "u64 option"
  pl_ForeignPages :: "u64 option"
  pl_LocalPages :: "u64 option"
  pl_OtherPages :: "u64 option"
  pl_InterleavePages :: "u64 option"

record huge_pool =
  po_PageSizeBytes :: u64
  po_TotalPages :: "u64 option"
  po_FreePages :: "u64 option"
  po_ReservedPages :: "u64 option"
  po_SurplusPages :: "u64 option"

record numa_node =
  nn_ID :: "16 word"
  nn_TotalBytes :: "u64 option"
  nn_FreeBytes :: "u64 option"
  nn_Placement :: "placement option"
  nn_Pools :: "huge_pool list"

record huge_limit =
  li_Bytes :: "u64 option"
  li_Unlimited :: bool

record domain_bytes =
  db_ID :: "16 word"
  db_Bytes :: u64

record huge_cgroup =
  hc_PageSizeBytes :: u64
  hc_CurrentBytes :: "u64 option"
  hc_Limit :: huge_limit
  hc_ReservationBytes :: "u64 option"
  hc_ReservationLimit :: huge_limit
  hc_LimitFailures :: "u64 option"
  hc_NUMATotalBytes :: "u64 option"
  hc_NUMA :: "domain_bytes list"

record topo_observation =
  to_SchemaVersion :: int
  to_NodeName :: string
  to_NodeUID :: string
  to_ReportedAt :: time
  to_NUMA :: "numa_node topo_section"
  to_Pools :: "huge_pool topo_section"
  to_Cgroup :: "huge_cgroup topo_section"

record topo_lib =
  tl_marshal :: "topo_observation \<Rightarrow> string option"
  tl_unmarshal :: "string \<Rightarrow> topo_error + topo_observation"
  tl_dns :: "string \<Rightarrow> bool"

subsection \<open>Completeness\<close>

definition PageBytes :: "u64 \<Rightarrow> u64 \<Rightarrow> u64 \<times> bool" where
  "PageBytes pages psize =
    (if psize = 0 \<or> pages > - 1 div psize then (0, False) else (pages * psize, True))"

definition PoolConsistent :: "huge_pool \<Rightarrow> bool" where
  "PoolConsistent p = (case (po_TotalPages p, po_FreePages p, po_SurplusPages p) of
     (Some t, Some f, Some s) \<Rightarrow>
       if f > t \<or> s > t then False
       else if (case po_ReservedPages p of None \<Rightarrow> False | Some r \<Rightarrow> r > f) then False
       else snd (PageBytes t (po_PageSizeBytes p))
   | _ \<Rightarrow> False)"

definition placementComplete :: "placement option \<Rightarrow> bool" where
  "placementComplete pl = (case pl of None \<Rightarrow> False | Some p \<Rightarrow>
     pl_HitPages p \<noteq> None \<and> pl_MissPages p \<noteq> None \<and> pl_ForeignPages p \<noteq> None \<and>
     pl_LocalPages p \<noteq> None \<and> pl_OtherPages p \<noteq> None \<and> pl_InterleavePages p \<noteq> None)"

definition numa_node_complete :: "numa_node \<Rightarrow> bool" where
  "numa_node_complete n = (case (nn_TotalBytes n, nn_FreeBytes n) of
     (Some t, Some f) \<Rightarrow> \<not> f > t \<and> placementComplete (nn_Placement n) \<and>
       (\<forall>p \<in> set (nn_Pools n). PoolConsistent p)
   | _ \<Rightarrow> False)"

definition NUMAComplete :: "numa_node list \<Rightarrow> bool" where
  "NUMAComplete nodes \<longleftrightarrow> nodes \<noteq> [] \<and> (\<forall>n \<in> set nodes. numa_node_complete n)"

definition PoolsComplete :: "huge_pool list \<Rightarrow> bool" where
  "PoolsComplete pools \<longleftrightarrow> pools \<noteq> [] \<and>
     (\<forall>p \<in> set pools. PoolConsistent p \<and> po_ReservedPages p \<noteq> None)"

text \<open>The running total of the per-domain bytes; \<open>None\<close> when it would overflow.\<close>

fun domain_total :: "u64 \<Rightarrow> domain_bytes list \<Rightarrow> u64 option" where
  "domain_total tot [] = Some tot"
| "domain_total tot (d # ds) =
    (if - 1 - tot < db_Bytes d then None else domain_total (tot + db_Bytes d) ds)"

definition cgroup_complete :: "huge_cgroup \<Rightarrow> bool" where
  "cgroup_complete g = (case (hc_CurrentBytes g, hc_NUMATotalBytes g) of
     (Some cur, Some nt) \<Rightarrow>
       \<not> (li_Bytes (hc_Limit g) = None \<and> \<not> li_Unlimited (hc_Limit g)) \<and>
       hc_LimitFailures g \<noteq> None \<and> hc_NUMA g \<noteq> [] \<and>
       (case domain_total 0 (hc_NUMA g) of None \<Rightarrow> False | Some tot \<Rightarrow> tot = nt \<and> tot = cur)
   | _ \<Rightarrow> False)"

definition CgroupsComplete :: "huge_cgroup list \<Rightarrow> bool" where
  "CgroupsComplete groups \<longleftrightarrow> groups \<noteq> [] \<and> (\<forall>g \<in> set groups. cgroup_complete g)"

subsection \<open>Validation\<close>

definition topo_validTime :: "time \<Rightarrow> time \<Rightarrow> duration \<Rightarrow> bool" where
  "topo_validTime tm now maxAge \<longleftrightarrow> \<not> is_zero_time tm \<and> (maxAge = 0 \<or> \<not> tm < now - maxAge) \<and>
     \<not> tm > now + topo_FutureSkew"

definition section_reason_ok :: "string \<Rightarrow> string \<Rightarrow> bool" where
  "section_reason_ok availability reason \<longleftrightarrow>
    (if availability = ''disabled'' then reason = ''profile-disabled''
     else if availability = cap_Forbidden then reason = ''access-denied''
     else if availability = cap_Unsupported then reason = ''source-absent''
     else if availability = cap_Unreported then reason = ''not-observed''
     else if availability = cap_Unavailable then
       reason \<in> {''invalid-source'', ''source-bounds'', ''source-changed'', ''timed-out'', ''source-failed''}
     else False)"

definition validateSection ::
    "'a topo_section \<Rightarrow> string \<Rightarrow> nat \<Rightarrow> bool \<Rightarrow> time \<Rightarrow> time \<Rightarrow> duration \<Rightarrow> topo_error option" where
  "validateSection s source limit whole reported now maxAge =
    (if se_Source s \<noteq> source then Some TopoInvalid
     else if length (se_Items s) > limit then Some TopoBounds
     else if se_Availability s = cap_Available then
       (if se_Items s = [] \<or> \<not> topo_validTime (se_CapturedAt s) now maxAge
           \<or> se_CapturedAt s > reported + topo_FutureSkew then Some TopoInvalid
        else if se_Completeness s = cap_Complete then
          (if \<not> whole \<or> se_Reason s \<noteq> '''' then Some TopoInvalid else None)
        else if se_Completeness s = cap_Partial then
          (if se_Reason s \<noteq> ''partial-fields'' \<and> se_Reason s \<noteq> ''source-changed'' then Some TopoInvalid else None)
        else Some TopoInvalid)
     else if se_Items s \<noteq> [] \<or> \<not> is_zero_time (se_CapturedAt s) \<or> se_Completeness s \<noteq> cap_Partial
       then Some TopoInvalid
     else if section_reason_ok (se_Availability s) (se_Reason s) then None else Some TopoInvalid)"

definition validPageSize :: "u64 \<Rightarrow> bool" where
  "validPageSize n \<longleftrightarrow> n \<ge> 4096 \<and> n \<le> push_bit 50 1 \<and> n AND (n - 1) = 0"

definition validLimit :: "huge_limit \<Rightarrow> bool" where
  "validLimit l \<longleftrightarrow> \<not> (li_Unlimited l \<and> li_Bytes l \<noteq> None)"

fun validate_pool_sizes :: "bool \<Rightarrow> u64 list \<Rightarrow> huge_pool list \<Rightarrow> topo_error option" where
  "validate_pool_sizes perNode seen [] = None"
| "validate_pool_sizes perNode seen (p # ps) =
    (if \<not> validPageSize (po_PageSizeBytes p) \<or> po_PageSizeBytes p \<in> set seen \<or>
        (perNode \<and> po_ReservedPages p \<noteq> None) then Some TopoInvalid
     else validate_pool_sizes perNode (po_PageSizeBytes p # seen) ps)"

definition validatePools :: "huge_pool list \<Rightarrow> bool \<Rightarrow> topo_error option" where
  "validatePools pools perNode =
    (if length pools > topo_MaxPageSizes then Some TopoBounds else validate_pool_sizes perNode [] pools)"

fun validate_numa_items :: "16 word list \<Rightarrow> numa_node list \<Rightarrow> topo_error option" where
  "validate_numa_items ids [] = None"
| "validate_numa_items ids (n # ns) =
    (if nn_ID n \<in> set ids then Some TopoInvalid
     else case validatePools (nn_Pools n) True of
       Some e \<Rightarrow> Some e
     | None \<Rightarrow> validate_numa_items (nn_ID n # ids) ns)"

fun validate_domains :: "u64 \<Rightarrow> 16 word list \<Rightarrow> domain_bytes list \<Rightarrow> topo_error option" where
  "validate_domains psize seen [] = None"
| "validate_domains psize seen (d # ds) =
    (if db_ID d \<in> set seen \<or> db_Bytes d mod psize \<noteq> 0 then Some TopoInvalid
     else validate_domains psize (db_ID d # seen) ds)"

fun validate_cgroup_items :: "u64 list \<Rightarrow> huge_cgroup list \<Rightarrow> topo_error option" where
  "validate_cgroup_items sizes [] = None"
| "validate_cgroup_items sizes (g # gs) =
    (if \<not> validPageSize (hc_PageSizeBytes g) \<or> hc_PageSizeBytes g \<in> set sizes \<or>
        \<not> validLimit (hc_Limit g) \<or> \<not> validLimit (hc_ReservationLimit g) then Some TopoInvalid
     else if length (hc_NUMA g) > topo_MaxNodes then Some TopoBounds
     else case validate_domains (hc_PageSizeBytes g) [] (hc_NUMA g) of
       Some e \<Rightarrow> Some e
     | None \<Rightarrow>
        if (\<exists>v \<in> {hc_CurrentBytes g, hc_ReservationBytes g, hc_NUMATotalBytes g}.
            case v of None \<Rightarrow> False | Some b \<Rightarrow> b mod hc_PageSizeBytes g \<noteq> 0) then Some TopoInvalid
        else validate_cgroup_items (hc_PageSizeBytes g # sizes) gs)"

text \<open>The first failing check of a sequence decides.\<close>

definition first_error :: "'e option \<Rightarrow> 'e option \<Rightarrow> 'e option" where
  "first_error a b = (case a of None \<Rightarrow> b | Some e \<Rightarrow> Some e)"

definition topo_Validate :: "topo_lib \<Rightarrow> topo_observation \<Rightarrow> time \<Rightarrow> duration \<Rightarrow> topo_error option" where
  "topo_Validate L ob now maxAge =
    (if maxAge < 0 \<or> to_SchemaVersion ob \<noteq> topo_SchemaVersion \<or> \<not> tl_dns L (to_NodeName ob) \<or>
        to_NodeUID ob = '''' \<or> length (to_NodeUID ob) > 128 \<or>
        (\<exists>ch \<in> set (to_NodeUID ob). of_char ch < (33 :: nat) \<or> of_char ch > (126 :: nat)) \<or>
        \<not> topo_validTime (to_ReportedAt ob) now maxAge then Some TopoInvalid
     else
       first_error (validateSection (to_NUMA ob) ''linux-numa-sysfs'' topo_MaxNodes
         (NUMAComplete (se_Items (to_NUMA ob))) (to_ReportedAt ob) now maxAge)
      (first_error (validateSection (to_Pools ob) ''linux-hugetlb-sysfs'' topo_MaxPageSizes
         (PoolsComplete (se_Items (to_Pools ob))) (to_ReportedAt ob) now maxAge)
      (first_error (validateSection (to_Cgroup ob) ''cgroup-v2-hugetlb'' topo_MaxPageSizes
         (CgroupsComplete (se_Items (to_Cgroup ob))) (to_ReportedAt ob) now maxAge)
      (first_error (validate_numa_items [] (se_Items (to_NUMA ob)))
      (first_error (validatePools (se_Items (to_Pools ob)) False)
      (first_error (validate_cgroup_items [] (se_Items (to_Cgroup ob)))
        (case tl_marshal L ob of None \<Rightarrow> Some TopoInvalid
         | Some body \<Rightarrow> if length body > topo_MaxObservationBytes then Some TopoBounds else None)))))))"

subsection \<open>Retention\<close>

definition missing_section :: "string \<Rightarrow> 'a topo_section" where
  "missing_section source = \<lparr>se_Source = source, se_Availability = cap_Unavailable,
     se_Completeness = cap_Partial, se_Reason = ''source-failed'', se_CapturedAt = 0, se_Items = []\<rparr>"

definition topo_Failure :: "string \<Rightarrow> string \<Rightarrow> time \<Rightarrow> topo_observation" where
  "topo_Failure name uid tm = \<lparr>to_SchemaVersion = topo_SchemaVersion, to_NodeName = name,
     to_NodeUID = uid, to_ReportedAt = tm, to_NUMA = missing_section ''linux-numa-sysfs'',
     to_Pools = missing_section ''linux-hugetlb-sysfs'', to_Cgroup = missing_section ''cgroup-v2-hugetlb''\<rparr>"

definition retainSection :: "'a topo_section \<Rightarrow> 'a topo_section \<Rightarrow> 'a topo_section" where
  "retainSection previous current =
    (if (se_Availability current = cap_Unavailable \<or> se_Availability current = cap_Unreported)
        \<and> se_Availability previous = cap_Available then previous else current)"

definition topo_merge :: "topo_observation \<Rightarrow> topo_observation \<Rightarrow> topo_observation" where
  "topo_merge previous current = current\<lparr>
     to_NUMA := retainSection (to_NUMA previous) (to_NUMA current),
     to_Pools := retainSection (to_Pools previous) (to_Pools current),
     to_Cgroup := retainSection (to_Cgroup previous) (to_Cgroup current)\<rparr>"

definition topo_reencode :: "topo_lib \<Rightarrow> topo_observation \<Rightarrow> time \<Rightarrow> topo_error + topo_observation" where
  "topo_reencode L current now =
    (case tl_marshal L current of None \<Rightarrow> Inl TopoEncoding
     | Some data \<Rightarrow> (case tl_unmarshal L data of Inl e \<Rightarrow> Inl e
       | Inr result \<Rightarrow> (case topo_Validate L result now 0 of Some e \<Rightarrow> Inl e | None \<Rightarrow> Inr result)))"

definition topo_Retain ::
    "topo_lib \<Rightarrow> topo_observation option \<Rightarrow> topo_observation \<Rightarrow> time \<Rightarrow> topo_error + topo_observation" where
  "topo_Retain L previous current now =
    (case topo_Validate L current now topo_FreshFor of Some e \<Rightarrow> Inl e
     | None \<Rightarrow> (case previous of
         None \<Rightarrow> topo_reencode L current now
       | Some prev \<Rightarrow>
          (case topo_Validate L prev now 0 of Some e \<Rightarrow> Inl e
           | None \<Rightarrow>
              if to_NodeName prev \<noteq> to_NodeName current \<or> to_NodeUID prev \<noteq> to_NodeUID current
              then Inl TopoInvalid
              else topo_reencode L (topo_merge prev current) now)))"

definition section_before :: "'a topo_section \<Rightarrow> 'a topo_section \<Rightarrow> bool" where
  "section_before current previous \<longleftrightarrow>
     se_Availability current = cap_Available \<and> se_CapturedAt current < se_CapturedAt previous"

definition CapturedBefore :: "topo_observation \<Rightarrow> topo_observation \<Rightarrow> bool" where
  "CapturedBefore ob previous \<longleftrightarrow> section_before (to_NUMA ob) (to_NUMA previous) \<or>
     section_before (to_Pools ob) (to_Pools previous) \<or> section_before (to_Cgroup ob) (to_Cgroup previous)"

subsection \<open>Analysis\<close>

definition sectionState :: "'a topo_section \<Rightarrow> time \<Rightarrow> string" where
  "sectionState s now =
    (if se_Availability s \<noteq> cap_Available then se_Availability s
     else if time_sub now (se_CapturedAt s) > topo_FreshFor then ''stale''
     else if se_Reason s = ''source-changed'' then ''source-changed''
     else if se_Completeness s \<noteq> cap_Complete then ''partial''
     else ''observed'')"

record pool_use =
  pu_PageSizeBytes :: u64
  pu_State :: string
  pu_PoolBytes :: "u64 option"
  pu_InUseBytes :: "u64 option"
  pu_ReservedBytes :: "u64 option"
  pu_FreeUnreservedBytes :: "u64 option"

definition analysePool :: "huge_pool \<Rightarrow> pool_use" where
  "analysePool p =
    (let result = \<lparr>pu_PageSizeBytes = po_PageSizeBytes p, pu_State = ''unreported'', pu_PoolBytes = None,
           pu_InUseBytes = None, pu_ReservedBytes = None, pu_FreeUnreservedBytes = None\<rparr>
     in case (po_TotalPages p, po_FreePages p) of
       (Some t, Some f) \<Rightarrow>
        if f > t \<or> (case po_SurplusPages p of None \<Rightarrow> False | Some s \<Rightarrow> s > t)
           \<or> (case po_ReservedPages p of None \<Rightarrow> False | Some r \<Rightarrow> r > f)
        then result\<lparr>pu_State := ''inconsistent''\<rparr>
        else
          let (tot, ok) = PageBytes t (po_PageSizeBytes p) in
          if \<not> ok then result\<lparr>pu_State := ''overflow''\<rparr>
          else
            let used = fst (PageBytes (t - f) (po_PageSizeBytes p));
                r1 = result\<lparr>pu_State := ''partial'', pu_PoolBytes := Some tot, pu_InUseBytes := Some used\<rparr>;
                r2 = (case po_ReservedPages p of None \<Rightarrow> r1 | Some r \<Rightarrow>
                   r1\<lparr>pu_ReservedBytes := Some (fst (PageBytes r (po_PageSizeBytes p))),
                      pu_FreeUnreservedBytes := Some (fst (PageBytes (f - r) (po_PageSizeBytes p)))\<rparr>)
            in if po_ReservedPages p \<noteq> None \<and> po_SurplusPages p \<noteq> None
               then r2\<lparr>pu_State := ''observed''\<rparr> else r2
     | _ \<Rightarrow> result)"

record numa_use =
  nu_ID :: "16 word"
  nu_State :: string
  nu_NonFreeBytes :: "u64 option"
  nu_NonFreeFraction :: "f64 option"

record distribution =
  di_State :: string
  di_Nodes :: "numa_use list"
  di_LeastOccupiedID :: "16 word option"
  di_MostOccupiedID :: "16 word option"
  di_FractionSpread :: "f64 option"
  di_EstimatedExcessBytes :: "f64 option"

definition deref :: "u64 option \<Rightarrow> u64" where
  "deref p = (case p of None \<Rightarrow> 0 | Some v \<Rightarrow> v)"

definition nonFreeRatio :: "numa_node \<Rightarrow> rat" where
  "nonFreeRatio n = of_nat (unat (deref (nn_TotalBytes n) - deref (nn_FreeBytes n)))
     / of_nat (unat (deref (nn_TotalBytes n)))"

datatype node_class = NodeUnreported | NodeInconsistent | NodeMemoryless | NodeObserved

definition classify_node :: "numa_node \<Rightarrow> node_class" where
  "classify_node n = (case (nn_TotalBytes n, nn_FreeBytes n) of
     (Some t, Some f) \<Rightarrow> if f > t then NodeInconsistent else if t = 0 then NodeMemoryless else NodeObserved
   | _ \<Rightarrow> NodeUnreported)"

definition numa_use_of :: "numa_node \<Rightarrow> numa_use" where
  "numa_use_of n = (let use = \<lparr>nu_ID = nn_ID n, nu_State = ''unreported'', nu_NonFreeBytes = None,
       nu_NonFreeFraction = None\<rparr> in
     case classify_node n of
       NodeUnreported \<Rightarrow> use
     | NodeInconsistent \<Rightarrow> use\<lparr>nu_State := ''inconsistent''\<rparr>
     | NodeMemoryless \<Rightarrow> use\<lparr>nu_State := ''memoryless''\<rparr>
     | NodeObserved \<Rightarrow>
        (let used = deref (nn_TotalBytes n) - deref (nn_FreeBytes n)
         in use\<lparr>nu_State := ''observed'', nu_NonFreeBytes := Some used,
              nu_NonFreeFraction := Some (f64_div (f64_of_u64 used) (f64_of_u64 (deref (nn_TotalBytes n))))\<rparr>))"

text \<open>The loop that finds the least and the most occupied of the memory-bearing nodes.\<close>

fun occupied_extremes :: "numa_node \<Rightarrow> numa_node \<Rightarrow> numa_node list \<Rightarrow> numa_node \<times> numa_node" where
  "occupied_extremes least most [] = (least, most)"
| "occupied_extremes least most (n # ns) =
    (let least' = (if nonFreeRatio n < nonFreeRatio least then n else least);
         most' = (if nonFreeRatio n > nonFreeRatio most then n else most)
     in occupied_extremes least' most' ns)"

definition analyseNUMA :: "numa_node topo_section \<Rightarrow> time \<Rightarrow> distribution" where
  "analyseNUMA s now =
    (let result = \<lparr>di_State = sectionState s now, di_Nodes = [], di_LeastOccupiedID = None,
           di_MostOccupiedID = None, di_FractionSpread = None, di_EstimatedExcessBytes = None\<rparr>
     in if di_State result \<noteq> ''observed'' \<and> di_State result \<noteq> ''partial'' then result
        else
          let r1 = result\<lparr>di_Nodes := map numa_use_of (se_Items s)\<rparr>;
              whole = (\<forall>n \<in> set (se_Items s). classify_node n \<noteq> NodeUnreported
                \<and> classify_node n \<noteq> NodeInconsistent);
              bearing = filter (\<lambda>n. classify_node n = NodeObserved) (se_Items s)
          in if \<not> whole then r1\<lparr>di_State := ''partial''\<rparr>
             else if length bearing < 2 then r1\<lparr>di_State := ''insufficient-memory-domains''\<rparr>
             else
               let (least, most) = occupied_extremes (hd bearing) (hd bearing) (tl bearing);
                   spread = nonFreeRatio most - nonFreeRatio least;
                   excess = spread * of_nat (unat (deref (nn_TotalBytes most)));
                   r2 = r1\<lparr>di_LeastOccupiedID := Some (nn_ID least), di_MostOccupiedID := Some (nn_ID most),
                      di_FractionSpread := Some (rnd64 spread), di_EstimatedExcessBytes := Some (rnd64 excess)\<rparr>
               in if spread > 1 / 5 \<and> excess > topo_MinimumExcessBytes
                  then r2\<lparr>di_State := ''uneven-nonfree''\<rparr> else r2\<lparr>di_State := ''within-threshold''\<rparr>)"

subsection \<open>Page arithmetic\<close>

lemma unat_max_word: "unat (- 1 :: u64) = 2 ^ 64 - 1"
  by (simp add: unsigned_minus_1_eq_mask mask_eq_exp_minus_1)

lemma PageBytes_bound:
  assumes "size1 \<noteq> (0 :: u64)" and "pages \<le> - 1 div size1"
  shows "unat pages * unat size1 < 2 ^ 64"
proof -
  have "unat pages \<le> (2 ^ 64 - 1) div unat size1"
    using assms(2) by (simp add: word_le_nat_alt unat_div unat_max_word)
  then have "unat pages * unat size1 \<le> (2 ^ 64 - 1) div unat size1 * unat size1"
    by (rule mult_le_mono1)
  also have "... \<le> 2 ^ 64 - 1"
    by (rule div_times_less_eq_dividend)
  finally show ?thesis
    by simp
qed

lemma PageBytes_exact:
  assumes "snd (PageBytes pages psize)"
  shows "unat (fst (PageBytes pages psize)) = unat pages * unat psize"
proof -
  have ok: "psize \<noteq> 0" "pages \<le> - 1 div psize"
    using assms by (auto simp: PageBytes_def not_less split: if_splits)
  then show ?thesis
    using PageBytes_bound [OF ok] by (auto simp: PageBytes_def unat_mult_lem [THEN iffD1])
qed

lemma PageBytes_mono:
  "snd (PageBytes pages psize) \<Longrightarrow> fewer \<le> pages \<Longrightarrow> snd (PageBytes fewer psize)"
  by (auto simp: PageBytes_def split: if_splits)

lemma PageBytes_part:
  assumes "snd (PageBytes pages psize)" and "part \<le> pages"
  shows "unat (fst (PageBytes (pages - part) psize)) + unat (fst (PageBytes part psize))
    = unat (fst (PageBytes pages psize))"
proof -
  have "pages - part \<le> pages"
    using assms(2) by (simp add: word_le_nat_alt unat_sub)
  with assms have ok: "snd (PageBytes (pages - part) psize)" "snd (PageBytes part psize)"
    using PageBytes_mono by blast+
  have "unat (pages - part) + unat part = unat pages"
    using assms(2) by (simp add: unat_sub word_le_nat_alt)
  then have "(unat (pages - part) + unat part) * unat psize = unat pages * unat psize"
    by simp
  then show ?thesis
    unfolding PageBytes_exact [OF assms(1)] PageBytes_exact [OF ok(1)] PageBytes_exact [OF ok(2)]
    by (simp only: distrib_right)
qed


definition sample_pool :: huge_pool where
  "sample_pool = \<lparr>po_PageSizeBytes = 4096, po_TotalPages = Some 10, po_FreePages = Some 4,
     po_ReservedPages = Some 1, po_SurplusPages = Some 0\<rparr>"

lemma sample_pool_observed: "pu_State (analysePool sample_pool) = ''observed''"
  by (simp add: analysePool_def sample_pool_def PageBytes_def Let_def word_less_nat_alt unat_div)


subsection \<open>Retention\<close>

definition topo_roundtrip :: "topo_lib \<Rightarrow> bool" where
  "topo_roundtrip L \<longleftrightarrow> (\<forall>x b. tl_marshal L x = Some b \<longrightarrow> tl_unmarshal L b = Inr x)"

lemma topo_reencode_Inr:
  "topo_reencode L x now = Inr r \<Longrightarrow> topo_roundtrip L \<Longrightarrow> r = x \<and> topo_Validate L x now 0 = None"
  by (auto simp: topo_reencode_def topo_roundtrip_def split: option.splits sum.splits)

lemma topo_Validate_sections:
  assumes "topo_Validate L ob now maxAge = None"
  shows "validateSection (to_NUMA ob) ''linux-numa-sysfs'' topo_MaxNodes
      (NUMAComplete (se_Items (to_NUMA ob))) (to_ReportedAt ob) now maxAge = None"
    "validateSection (to_Pools ob) ''linux-hugetlb-sysfs'' topo_MaxPageSizes
      (PoolsComplete (se_Items (to_Pools ob))) (to_ReportedAt ob) now maxAge = None"
    "validateSection (to_Cgroup ob) ''cgroup-v2-hugetlb'' topo_MaxPageSizes
      (CgroupsComplete (se_Items (to_Cgroup ob))) (to_ReportedAt ob) now maxAge = None"
  using assms by (auto simp: topo_Validate_def first_error_def split: if_splits option.splits)

lemma validateSection_unavailable:
  "validateSection s source limit whole reported now maxAge = None \<Longrightarrow> se_Availability s \<noteq> cap_Available \<Longrightarrow>
     se_Items s = [] \<and> se_CapturedAt s = 0"
  by (auto simp: validateSection_def split: if_splits)

text \<open>What retention promises of one section.\<close>

definition retained_from :: "'a topo_section \<Rightarrow> 'a topo_section \<Rightarrow> 'a topo_section \<Rightarrow> bool" where
  "retained_from prev cur res \<longleftrightarrow>
     (res = cur \<or> res = prev \<and> se_Availability prev = cap_Available) \<and>
     (se_Availability cur = cap_Available \<longrightarrow> res = cur) \<and>
     (se_Availability cur \<in> {''disabled'', cap_Forbidden, cap_Unsupported} \<longrightarrow> se_Items res = []) \<and>
     (\<not> section_before cur prev \<longrightarrow> se_Availability res = cap_Available \<longrightarrow> se_Availability prev = cap_Available \<longrightarrow>
        se_CapturedAt prev \<le> se_CapturedAt res)"

lemma retained_from_retainSection:
  assumes "se_Availability cur \<noteq> cap_Available \<longrightarrow> se_Items cur = []"
  shows "retained_from prev cur (retainSection prev cur)"
  using assms by (auto simp: retained_from_def retainSection_def section_before_def cap_defs)


definition sample_topo_lib :: topo_lib where
  "sample_topo_lib = \<lparr>tl_marshal = (\<lambda>ob. if 0 \<le> to_ReportedAt ob \<and> ob = topo_Failure ''n1'' ''u1'' (to_ReportedAt ob)
       then Some (replicate (nat (to_ReportedAt ob)) CHR ''x'') else None),
     tl_unmarshal = (\<lambda>b. Inr (topo_Failure ''n1'' ''u1'' (int (length b)))), tl_dns = (\<lambda>n. n \<noteq> '''')\<rparr>"

lemma sample_topo_roundtrip: "topo_roundtrip sample_topo_lib"
  by (auto simp: topo_roundtrip_def sample_topo_lib_def)

lemma sample_topo_valid:
  "0 < t \<Longrightarrow> t \<le> 100 \<Longrightarrow> maxAge = 0 \<or> maxAge = topo_FreshFor \<Longrightarrow>
   topo_Validate sample_topo_lib (topo_Failure ''n1'' ''u1'' t) 100 maxAge = None"
  by (auto simp: topo_Validate_def sample_topo_lib_def topo_Failure_def missing_section_def validateSection_def
      section_reason_ok_def topo_validTime_def validatePools_def first_error_def topo_SchemaVersion_def
      topo_FreshFor_def topo_FutureSkew_def topo_MaxObservationBytes_def go_simps cap_defs)

lemma sample_topo_retained:
  "topo_Retain sample_topo_lib (Some (topo_Failure ''n1'' ''u1'' 80)) (topo_Failure ''n1'' ''u1'' 90) 100
    = Inr (topo_Failure ''n1'' ''u1'' 90)"
proof -
  have "topo_merge (topo_Failure ''n1'' ''u1'' 80) (topo_Failure ''n1'' ''u1'' 90) = topo_Failure ''n1'' ''u1'' 90"
    by (simp add: topo_merge_def topo_Failure_def missing_section_def retainSection_def cap_defs)
  moreover have "topo_reencode sample_topo_lib (topo_Failure ''n1'' ''u1'' 90) 100 = Inr (topo_Failure ''n1'' ''u1'' 90)"
    using sample_topo_valid [of 90 0]
    by (simp add: topo_reencode_def sample_topo_lib_def) (simp add: topo_Failure_def)
  ultimately show ?thesis
    using sample_topo_valid [of 80 0] sample_topo_valid [of 90 topo_FreshFor]
    by (simp add: topo_Retain_def) (simp add: topo_Failure_def)
qed


subsection \<open>Uneven distribution\<close>

lemma occupied_extremes_spec:
  "occupied_extremes a b ns = (l, m) \<Longrightarrow>
     l \<in> insert a (set ns) \<and> m \<in> insert b (set ns) \<and>
     (\<forall>n \<in> insert a (set ns). nonFreeRatio l \<le> nonFreeRatio n) \<and>
     (\<forall>n \<in> insert b (set ns). nonFreeRatio n \<le> nonFreeRatio m)"
proof (induction ns arbitrary: a b)
  case (Cons n ns)
  let ?a = "if nonFreeRatio n < nonFreeRatio a then n else a"
  let ?b = "if nonFreeRatio n > nonFreeRatio b then n else b"
  have "occupied_extremes ?a ?b ns = (l, m)"
    using Cons.prems by (simp add: Let_def)
  from Cons.IH [OF this] show ?case
    by (auto split: if_splits intro: order_trans)
qed auto

lemma validateSection_state:
  "validateSection s source limit whole reported now maxAge = None \<Longrightarrow> sectionState s t \<noteq> ''uneven-nonfree''"
  by (auto simp: validateSection_def sectionState_def section_reason_ok_def cap_defs split: if_splits)

text \<open>The memory-bearing nodes of a section: those that report a positive total and no more free.\<close>

definition bearing_nodes :: "numa_node topo_section \<Rightarrow> numa_node list" where
  "bearing_nodes s = filter (\<lambda>n. classify_node n = NodeObserved) (se_Items s)"


definition sample_node :: "16 word \<Rightarrow> u64 \<Rightarrow> u64 \<Rightarrow> numa_node" where
  "sample_node i t f = \<lparr>nn_ID = i, nn_TotalBytes = Some t, nn_FreeBytes = Some f, nn_Placement = None, nn_Pools = []\<rparr>"

text \<open>Two nodes of one GiB, one full and one empty.\<close>

definition uneven_observation :: topo_observation where
  "uneven_observation = (topo_Failure ''n1'' ''u1'' 90)\<lparr>to_NUMA := \<lparr>se_Source = ''linux-numa-sysfs'',
     se_Availability = cap_Available, se_Completeness = cap_Partial, se_Reason = ''partial-fields'',
     se_CapturedAt = 90, se_Items = [sample_node 0 1073741824 0, sample_node 1 1073741824 1073741824]\<rparr>\<rparr>"

definition plain_topo_lib :: topo_lib where
  "plain_topo_lib = \<lparr>tl_marshal = (\<lambda>ob. Some (to_NodeName ob)), tl_unmarshal = (\<lambda>b. Inl TopoInvalid),
     tl_dns = (\<lambda>n. n \<noteq> '''')\<rparr>"

lemma uneven_observation_valid: "topo_Validate plain_topo_lib uneven_observation 100 0 = None"
  by (simp add: topo_Validate_def plain_topo_lib_def uneven_observation_def sample_node_def topo_Failure_def
      missing_section_def validateSection_def section_reason_ok_def topo_validTime_def validatePools_def
      first_error_def topo_SchemaVersion_def topo_FutureSkew_def topo_MaxObservationBytes_def topo_MaxNodes_def
      go_simps cap_defs)

lemma uneven_observation_state: "di_State (analyseNUMA (to_NUMA uneven_observation) 100) = ''uneven-nonfree''"
  by (simp add: analyseNUMA_def uneven_observation_def sample_node_def sectionState_def classify_node_def
      nonFreeRatio_def deref_def topo_MinimumExcessBytes_def topo_FreshFor_def go_simps cap_defs Let_def
      word_less_nat_alt)


end
