(* ===== verification/Volume_Context.thy ===== *)
theory Volume_Context
  imports Node_Observation Go_Sort
begin

text \<open>
  Package \<open>internal/volumecontext\<close>: the private batch of volume filesystem samples a Node submits
  (\<open>batch.go\<close>, \<open>source_batch.go\<close>, \<open>wire.go\<close>), its validation (\<open>validate.go\<close>), the evaluation of one
  sample (\<open>join.go\<close>) and the retention of unexpired samples (\<open>retention.go\<close>). The JSON encoder and
  the bounded decoder, the Kubernetes name checks and the UTF-8 text check are parameters
  (\<open>vol_lib\<close>).

  The lemmas: a batch survives its own encoding, except where the clock of the Node runs ahead;
  retention keeps current samples, adds only unexpired ones of the same Node and never replaces a
  sample by an older one.
\<close>

definition MaxVolumesPerPod :: nat where
  "MaxVolumesPerPod = 64"

definition MaxBatchRecords :: nat where
  "MaxBatchRecords = 1024"

definition MaxBatchBytes :: nat where
  "MaxBatchBytes = 2 ^ 20"

definition MaxRetainedBytes :: int where
  "MaxRetainedBytes = 64 * 2 ^ 20"

definition MaxHealthBytes :: int where
  "MaxHealthBytes = 16 * 2 ^ 20"

definition vol_MaxNameBytes :: nat where
  "vol_MaxNameBytes = 253"

definition vol_MaxUIDBytes :: nat where
  "vol_MaxUIDBytes = 128"

definition vol_StaleAfter :: duration where
  "vol_StaleAfter = 45 * second"

definition vol_ExpireAfter :: duration where
  "vol_ExpireAfter = 2 * minute"

definition vol_FutureSkew :: duration where
  "vol_FutureSkew = 5 * second"

lemmas vol_limit_defs = MaxVolumesPerPod_def MaxBatchRecords_def MaxBatchBytes_def vol_MaxNameBytes_def
  vol_MaxUIDBytes_def vol_StaleAfter_def vol_ExpireAfter_def vol_FutureSkew_def

datatype vol_error = VolInvalid | VolScope | VolOutOfOrder

subsection \<open>Samples and batches\<close>

record filesystem =
  fs_CapturedAt :: time
  fs_CapacityBytes :: "u64 option"
  fs_UsedBytes :: "u64 option"
  fs_AvailableBytes :: "u64 option"
  fs_Inodes :: "u64 option"
  fs_InodesUsed :: "u64 option"
  fs_InodesFree :: "u64 option"

record vol_usage =
  us_Source :: string
  us_Availability :: string
  us_Reason :: string
  us_Freshness :: string
  us_Completeness :: string
  us_Filesystem :: "filesystem option"
  us_LastGood :: "filesystem option"

record raw_usage =
  ru_Namespace :: string
  ru_PodUID :: string
  ru_NodeUID :: string
  ru_VolumeName :: string
  ru_PVCNamespace :: string
  ru_PVCName :: string
  ru_Filesystem :: filesystem

record vol_batch =
  vb_nodeName :: string
  vb_nodeUID :: string
  vb_reportedAt :: time
  vb_state :: vol_usage
  vb_records :: "raw_usage list"

record usage_wire =
  uw_Namespace :: string
  uw_PodUID :: string
  uw_VolumeName :: string
  uw_PVCNamespace :: string
  uw_PVCName :: string
  uw_Filesystem :: filesystem

record batch_wire =
  bw_SchemaVersion :: int
  bw_NodeName :: string
  bw_NodeUID :: string
  bw_ReportedAt :: time
  bw_State :: vol_usage
  bw_Records :: "usage_wire list"

text \<open>
  \<open>vl_unmarshal\<close> stands for the bounded token scan followed by the strict decoder; \<open>vl_text\<close> for
  valid UTF-8 without control or format characters.
\<close>

record vol_lib =
  vl_marshal :: "batch_wire \<Rightarrow> string option"
  vl_unmarshal :: "string \<Rightarrow> batch_wire option"
  vl_dns_subdomain :: "string \<Rightarrow> bool"
  vl_dns_label :: "string \<Rightarrow> bool"
  vl_text :: "string \<Rightarrow> bool"

definition vh_Reported :: string where
  "vh_Reported = ''reported''"

definition vh_Unreported :: string where
  "vh_Unreported = ''unreported''"

definition vh_Disabled :: string where
  "vh_Disabled = ''disabled''"

definition vh_Unsupported :: string where
  "vh_Unsupported = ''driver-unsupported''"

definition vh_Forbidden :: string where
  "vh_Forbidden = ''forbidden''"

definition vh_Unavailable :: string where
  "vh_Unavailable = ''unavailable''"

definition vh_Unknown :: string where
  "vh_Unknown = ''unknown''"

lemmas vh_defs = vh_Reported_def vh_Unreported_def vh_Disabled_def vh_Unsupported_def vh_Forbidden_def
  vh_Unavailable_def vh_Unknown_def

definition vol_SourceState :: "string \<Rightarrow> string \<Rightarrow> vol_usage" where
  "vol_SourceState availability reason = \<lparr>us_Source = ''kubelet-summary'', us_Availability = availability,
     us_Reason = reason, us_Freshness = ''unknown'', us_Completeness = cap_Partial,
     us_Filesystem = None, us_LastGood = None\<rparr>"

definition vol_missingUsage :: vol_usage where
  "vol_missingUsage = vol_SourceState vh_Unreported ''no-report''"

subsection \<open>Validation\<close>

definition vol_validName :: "vol_lib \<Rightarrow> string \<Rightarrow> bool" where
  "vol_validName L v \<longleftrightarrow> length v \<le> vol_MaxNameBytes \<and> vl_dns_subdomain L v"

definition vol_validUID :: "vol_lib \<Rightarrow> string \<Rightarrow> bool" where
  "vol_validUID L v \<longleftrightarrow> v \<noteq> '''' \<and> length v \<le> vol_MaxUIDBytes \<and> vl_text L v \<and>
     (\<forall>ch \<in> set v. ch \<notin> {CHR '' '', CHR ''/'', CHR 0x5C})"

definition validateFilesystem :: "filesystem \<Rightarrow> time \<Rightarrow> bool" where
  "validateFilesystem f now \<longleftrightarrow> \<not> (is_zero_time (fs_CapturedAt f) \<or> fs_CapturedAt f > now + vol_FutureSkew \<or>
     (fs_CapacityBytes f = None \<and> fs_UsedBytes f = None \<and> fs_AvailableBytes f = None \<and>
      fs_Inodes f = None \<and> fs_InodesUsed f = None \<and> fs_InodesFree f = None))"

definition usage_reason :: "string \<Rightarrow> string option" where
  "usage_reason availability =
    (if availability = vh_Reported then Some ''''
     else if availability = vh_Unreported then Some ''no-report''
     else if availability = vh_Disabled then Some ''disabled''
     else if availability = vh_Unsupported then Some ''unsupported''
     else if availability = vh_Forbidden then Some ''access-denied''
     else if availability = vh_Unavailable then Some ''source-failed''
     else if availability = vh_Unknown then Some ''binding-unavailable''
     else None)"

definition validateUsageState :: "vol_usage \<Rightarrow> bool" where
  "validateUsageState u \<longleftrightarrow> us_Source u = ''kubelet-summary'' \<and> us_Filesystem u = None \<and>
     us_LastGood u = None \<and> us_Freshness u = ''unknown'' \<and> us_Completeness u = cap_Partial \<and>
     usage_reason (us_Availability u) = Some (us_Reason u)"

definition nul_sep :: string where
  "nul_sep = [CHR 0x00]"

definition usagePod :: "raw_usage \<Rightarrow> string" where
  "usagePod r = ru_Namespace r @ nul_sep @ ru_PodUID r"

definition usageKey :: "raw_usage \<Rightarrow> string" where
  "usageKey r = ru_Namespace r @ nul_sep @ ru_PodUID r @ nul_sep @ ru_VolumeName r"

text \<open>One step of the loop over the records, with the maps \<open>seen\<close> and \<open>counts\<close>.\<close>

definition validate_row ::
    "vol_lib \<Rightarrow> string \<Rightarrow> time \<Rightarrow> time \<Rightarrow> string list \<Rightarrow> (string, nat) gomap \<Rightarrow> raw_usage \<Rightarrow> vol_error option"
  where
  "validate_row L nodeUID tm now seen counts r =
    (if \<not> vl_dns_label L (ru_Namespace r) \<or> \<not> vol_validUID L (ru_PodUID r) \<or> ru_NodeUID r \<noteq> nodeUID \<or>
        \<not> vol_validName L (ru_VolumeName r) \<or> length (ru_VolumeName r) > 63 then Some VolInvalid
     else if (ru_PVCName r = '''' \<and> ru_PVCNamespace r \<noteq> '''') \<or>
        (ru_PVCName r \<noteq> '''' \<and> (\<not> vol_validName L (ru_PVCName r) \<or> ru_PVCNamespace r \<noteq> ru_Namespace r))
       then Some VolScope
     else if \<not> validateFilesystem (ru_Filesystem r) now then Some VolInvalid
     else if fs_CapturedAt (ru_Filesystem r) > tm + vol_FutureSkew then Some VolInvalid
     else if usageKey r \<in> set seen \<or> mget0 0 counts (usagePod r) + 1 > MaxVolumesPerPod then Some VolInvalid
     else None)"

fun validate_rows ::
    "vol_lib \<Rightarrow> string \<Rightarrow> time \<Rightarrow> time \<Rightarrow> string list \<Rightarrow> (string, nat) gomap \<Rightarrow> raw_usage list \<Rightarrow> vol_error option"
  where
  "validate_rows L nodeUID tm now seen counts [] = None"
| "validate_rows L nodeUID tm now seen counts (r # rs) =
    (case validate_row L nodeUID tm now seen counts r of
       Some e \<Rightarrow> Some e
     | None \<Rightarrow> validate_rows L nodeUID tm now (usageKey r # seen)
         (mput (usagePod r) (mget0 0 counts (usagePod r) + 1) counts) rs)"

definition wire_of_batch :: "vol_batch \<Rightarrow> batch_wire" where
  "wire_of_batch b = \<lparr>bw_SchemaVersion = 1, bw_NodeName = vb_nodeName b, bw_NodeUID = vb_nodeUID b,
     bw_ReportedAt = vb_reportedAt b, bw_State = vb_state b,
     bw_Records = map (\<lambda>r. \<lparr>uw_Namespace = ru_Namespace r, uw_PodUID = ru_PodUID r,
       uw_VolumeName = ru_VolumeName r, uw_PVCNamespace = ru_PVCNamespace r, uw_PVCName = ru_PVCName r,
       uw_Filesystem = ru_Filesystem r\<rparr>) (vb_records b)\<rparr>"

definition EncodePrivate :: "vol_lib \<Rightarrow> vol_batch \<Rightarrow> string option" where
  "EncodePrivate L b = vl_marshal L (wire_of_batch b)"

definition newValidatedBatch ::
    "vol_lib \<Rightarrow> string \<Rightarrow> string \<Rightarrow> time \<Rightarrow> vol_usage \<Rightarrow> raw_usage list \<Rightarrow> time \<Rightarrow> vol_error + vol_batch" where
  "newValidatedBatch L nodeName nodeUID tm state records now =
    (if \<not> vol_validName L nodeName \<or> \<not> vol_validUID L nodeUID \<or> is_zero_time tm \<or>
        tm < now - vol_ExpireAfter \<or> tm > now + vol_FutureSkew \<or> length records > MaxBatchRecords
       then Inl VolInvalid
     else if \<not> validateUsageState state then Inl VolInvalid
     else if us_Availability state \<noteq> vh_Reported \<and> records \<noteq> [] then Inl VolInvalid
     else case validate_rows L nodeUID tm now [] [] records of
       Some e \<Rightarrow> Inl e
     | None \<Rightarrow>
        let result = \<lparr>vb_nodeName = nodeName, vb_nodeUID = nodeUID, vb_reportedAt = tm, vb_state = state,
              vb_records = records\<rparr>
        in case EncodePrivate L result of
             None \<Rightarrow> Inl VolInvalid
           | Some body \<Rightarrow> if length body > MaxBatchBytes then Inl VolInvalid else Inr result)"

definition NewBatch ::
    "vol_lib \<Rightarrow> string \<Rightarrow> string \<Rightarrow> time \<Rightarrow> vol_usage \<Rightarrow> raw_usage list \<Rightarrow> time \<Rightarrow> vol_error + vol_batch" where
  "NewBatch L nodeName nodeUID tm state records now =
    (case newValidatedBatch L nodeName nodeUID tm state records now of
       Inl e \<Rightarrow> Inl e
     | Inr batch \<Rightarrow>
        if (\<exists>r \<in> set (vb_records batch). fs_CapturedAt (ru_Filesystem r) < now - vol_ExpireAfter)
        then Inl VolInvalid else Inr batch)"

definition NewSourceBatch ::
    "vol_lib \<Rightarrow> string \<Rightarrow> string \<Rightarrow> time \<Rightarrow> vol_usage \<Rightarrow> raw_usage list \<Rightarrow> time \<Rightarrow> vol_error + (vol_batch \<times> nat)"
  where
  "NewSourceBatch L nodeName nodeUID tm state records now =
    (case newValidatedBatch L nodeName nodeUID tm state records now of
       Inl e \<Rightarrow> Inl e
     | Inr batch \<Rightarrow>
        let current = filter (\<lambda>r. \<not> fs_CapturedAt (ru_Filesystem r) < now - vol_ExpireAfter) (vb_records batch)
        in Inr (batch\<lparr>vb_records := current\<rparr>, length (vb_records batch) - length current))"

definition DecodePrivate :: "vol_lib \<Rightarrow> string \<Rightarrow> time \<Rightarrow> vol_error + vol_batch" where
  "DecodePrivate L data now =
    (if length data > MaxBatchBytes then Inl VolInvalid
     else case vl_unmarshal L data of
       None \<Rightarrow> Inl VolInvalid
     | Some w \<Rightarrow>
        if bw_SchemaVersion w \<noteq> 1 then Inl VolInvalid
        else NewBatch L (bw_NodeName w) (bw_NodeUID w) (bw_ReportedAt w) (bw_State w)
          (map (\<lambda>r. \<lparr>ru_Namespace = uw_Namespace r, ru_PodUID = uw_PodUID r, ru_NodeUID = bw_NodeUID w,
             ru_VolumeName = uw_VolumeName r, ru_PVCNamespace = uw_PVCNamespace r, ru_PVCName = uw_PVCName r,
             ru_Filesystem = uw_Filesystem r\<rparr>) (bw_Records w)) now)"

subsection \<open>Evaluation of one sample\<close>

definition evaluateUsage :: "filesystem \<Rightarrow> time \<Rightarrow> vol_usage" where
  "evaluateUsage f now =
    (if time_sub now (fs_CapturedAt f) > vol_ExpireAfter then vol_missingUsage\<lparr>us_Reason := ''expired''\<rparr>
     else
       let u = (vol_SourceState vh_Reported '''')\<lparr>us_Filesystem := Some f, us_Freshness := ''fresh''\<rparr>;
           u1 = (if fs_CapacityBytes f \<noteq> None \<and> fs_UsedBytes f \<noteq> None \<and> fs_AvailableBytes f \<noteq> None \<and>
               fs_Inodes f \<noteq> None \<and> fs_InodesUsed f \<noteq> None \<and> fs_InodesFree f \<noteq> None
             then u\<lparr>us_Completeness := cap_Complete\<rparr> else u)
       in if time_sub now (fs_CapturedAt f) > vol_StaleAfter then u1\<lparr>us_Freshness := ''stale''\<rparr> else u1)"

subsection \<open>Retention\<close>

definition sameFilesystemValues :: "filesystem \<Rightarrow> filesystem \<Rightarrow> bool" where
  "sameFilesystemValues a b \<longleftrightarrow> fs_CapacityBytes a = fs_CapacityBytes b \<and> fs_UsedBytes a = fs_UsedBytes b \<and>
     fs_AvailableBytes a = fs_AvailableBytes b \<and> fs_Inodes a = fs_Inodes b \<and>
     fs_InodesUsed a = fs_InodesUsed b \<and> fs_InodesFree a = fs_InodesFree b"

fun previous_rows :: "time \<Rightarrow> (string, raw_usage) gomap \<Rightarrow> raw_usage list \<Rightarrow> (string, raw_usage) gomap" where
  "previous_rows now rows [] = rows"
| "previous_rows now rows (r # rs) =
    (if time_sub now (fs_CapturedAt (ru_Filesystem r)) \<le> vol_ExpireAfter
     then previous_rows now (mput (usageKey r) r rows) rs else previous_rows now rows rs)"

definition row_regresses :: "raw_usage \<Rightarrow> raw_usage \<Rightarrow> bool" where
  "row_regresses prior r \<longleftrightarrow>
     fs_CapturedAt (ru_Filesystem r) < fs_CapturedAt (ru_Filesystem prior) \<or>
     fs_CapturedAt (ru_Filesystem r) = fs_CapturedAt (ru_Filesystem prior) \<and>
       (\<not> sameFilesystemValues (ru_Filesystem r) (ru_Filesystem prior) \<or> ru_PVCName r \<noteq> ru_PVCName prior \<or>
        ru_PVCNamespace r \<noteq> ru_PVCNamespace prior)"

fun merge_rows :: "(string, raw_usage) gomap \<Rightarrow> raw_usage list \<Rightarrow> (string, raw_usage) gomap option" where
  "merge_rows rows [] = Some rows"
| "merge_rows rows (r # rs) =
    (if (case mget rows (usageKey r) of None \<Rightarrow> False | Some prior \<Rightarrow> row_regresses prior r) then None
     else merge_rows (mput (usageKey r) r rows) rs)"

definition vol_Retain :: "vol_lib \<Rightarrow> vol_batch option \<Rightarrow> vol_batch \<Rightarrow> time \<Rightarrow> vol_error + vol_batch" where
  "vol_Retain L previous current now =
    (let rows = (case previous of None \<Rightarrow> []
        | Some p \<Rightarrow> if vb_nodeName p = vb_nodeName current \<and> vb_nodeUID p = vb_nodeUID current
            then previous_rows now [] (vb_records p) else [])
     in case merge_rows rows (vb_records current) of
          None \<Rightarrow> Inl VolOutOfOrder
        | Some merged \<Rightarrow>
           NewBatch L (vb_nodeName current) (vb_nodeUID current) (vb_reportedAt current)
             (vol_SourceState vh_Reported '''')
             (map (\<lambda>k. the (mget merged k)) (sort (mkeys merged))) now)"

subsection \<open>Encoding\<close>

definition vol_roundtrip :: "vol_lib \<Rightarrow> bool" where
  "vol_roundtrip L \<longleftrightarrow> (\<forall>w b. vl_marshal L w = Some b \<longrightarrow> vl_unmarshal L b = Some w)"

lemma validate_row_None:
  "validate_row L u tm now seen counts r = None \<Longrightarrow> ru_NodeUID r = u \<and>
     fs_CapturedAt (ru_Filesystem r) \<le> tm + vol_FutureSkew \<and> usageKey r \<notin> set seen \<and>
     validateFilesystem (ru_Filesystem r) now"
  by (auto simp: validate_row_def split: if_splits)

lemma validate_row_earlier:
  "validate_row L u tm now seen counts r = None \<Longrightarrow> validate_row L u tm tm seen counts r = None"
  by (auto simp: validate_row_def validateFilesystem_def split: if_splits)

lemma validate_rows_None:
  "validate_rows L u tm now seen counts rs = None \<Longrightarrow>
     distinct (map usageKey rs) \<and> set seen \<inter> usageKey ` set rs = {} \<and>
     (\<forall>r \<in> set rs. ru_NodeUID r = u \<and> fs_CapturedAt (ru_Filesystem r) \<le> tm + vol_FutureSkew)"
proof (induction rs arbitrary: seen counts)
  case (Cons r rs)
  then have row: "validate_row L u tm now seen counts r = None"
    by (simp split: option.splits)
  with Cons.prems have "validate_rows L u tm now (usageKey r # seen)
      (mput (usagePod r) (mget0 0 counts (usagePod r) + 1) counts) rs = None"
    by simp
  from Cons.IH [OF this] validate_row_None [OF row] show ?case
    by auto
qed simp

lemma validate_rows_earlier:
  "validate_rows L u tm now seen counts rs = None \<Longrightarrow> validate_rows L u tm tm seen counts rs = None"
  by (induction rs arbitrary: seen counts) (auto split: option.splits dest: validate_row_earlier)

lemma NewBatch_Inr:
  assumes "NewBatch L n u tm st rs now = Inr b"
  shows "b = \<lparr>vb_nodeName = n, vb_nodeUID = u, vb_reportedAt = tm, vb_state = st, vb_records = rs\<rparr>"
    "validate_rows L u tm now [] [] rs = None" "length rs \<le> MaxBatchRecords"
    "\<forall>r \<in> set rs. now - vol_ExpireAfter \<le> fs_CapturedAt (ru_Filesystem r)"
    "\<exists>body. EncodePrivate L b = Some body \<and> length body \<le> MaxBatchBytes"
    "tm \<le> now + vol_FutureSkew"
  using assms
  by (auto simp: NewBatch_def newValidatedBatch_def Let_def not_less split: if_splits option.splits sum.splits)

lemma NewBatch_earlier:
  assumes "NewBatch L n u tm st rs now = Inr b" and "tm \<le> now"
  shows "NewBatch L n u tm st rs tm = Inr b"
proof -
  have "validate_rows L u tm tm [] [] rs = None"
    using validate_rows_earlier [OF NewBatch_Inr(2) [OF assms(1)]] .
  moreover have "\<forall>r \<in> set rs. tm - vol_ExpireAfter \<le> fs_CapturedAt (ru_Filesystem r)"
    using NewBatch_Inr(4) [OF assms(1)] assms(2) by force
  moreover have "0 < vol_ExpireAfter" "0 < vol_FutureSkew"
    by (simp_all add: vol_limit_defs go_simps)
  ultimately show ?thesis
    using assms
    by (auto simp: NewBatch_def newValidatedBatch_def Let_def not_less split: if_splits option.splits sum.splits)
qed

lemma DecodePrivate_encoded:
  assumes "NewBatch L n u tm st rs now = Inr b" and "EncodePrivate L b = Some data" and "vol_roundtrip L"
  shows "DecodePrivate L data t = NewBatch L n u tm st rs t"
proof -
  note b = NewBatch_Inr [OF assms(1)]
  have dec: "vl_unmarshal L data = Some (wire_of_batch b)"
    using assms(2,3) by (simp add: EncodePrivate_def vol_roundtrip_def)
  have len: "length data \<le> MaxBatchBytes"
    using b(5) assms(2) by auto
  have rows': "map ((\<lambda>r. \<lparr>ru_Namespace = uw_Namespace r, ru_PodUID = uw_PodUID r, ru_NodeUID = u,
      ru_VolumeName = uw_VolumeName r, ru_PVCNamespace = uw_PVCNamespace r, ru_PVCName = uw_PVCName r,
      ru_Filesystem = uw_Filesystem r\<rparr>) \<circ> (\<lambda>r. \<lparr>uw_Namespace = ru_Namespace r, uw_PodUID = ru_PodUID r,
       uw_VolumeName = ru_VolumeName r, uw_PVCNamespace = ru_PVCNamespace r, uw_PVCName = ru_PVCName r,
       uw_Filesystem = ru_Filesystem r\<rparr>)) rs = rs"
    using validate_rows_None [OF b(2)] by (intro map_idI) auto
  show ?thesis
    using dec len rows' b(1) by (simp add: DecodePrivate_def wire_of_batch_def)
qed


text \<open>
  The proviso is needed. A batch reported five seconds ahead of the collector, with a sample
  near the end of its lifetime, is accepted and stored, but decoding it at its own report time
  fails: the window moved past the sample.
\<close>

lemma volume_batch_ahead_not_decodable:
  assumes "NewBatch L n u tm st rs now = Inr b" and "EncodePrivate L b = Some data"
    and "vol_roundtrip L" and "r \<in> set rs" and "fs_CapturedAt (ru_Filesystem r) < tm - vol_ExpireAfter"
  shows "\<exists>e. DecodePrivate L data (vb_reportedAt b) = Inl e"
proof -
  have "vb_reportedAt b = tm"
    using NewBatch_Inr(1) [OF assms(1)] by simp
  moreover have "NewBatch L n u tm st rs tm \<noteq> Inr b'" for b'
    using NewBatch_Inr(4) assms(4,5) by fastforce
  then have "\<exists>e. NewBatch L n u tm st rs tm = Inl e"
    by (cases "NewBatch L n u tm st rs tm") auto
  ultimately show ?thesis
    using DecodePrivate_encoded [OF assms(1-3)] by simp
qed

text \<open>A library that encodes one given value, and a batch of one sample.\<close>

definition one_wire_lib :: "batch_wire \<Rightarrow> vol_lib" where
  "one_wire_lib w = \<lparr>vl_marshal = (\<lambda>v. if v = w then Some ''w'' else None), vl_unmarshal = (\<lambda>b. Some w),
     vl_dns_subdomain = (\<lambda>n. n \<noteq> ''''), vl_dns_label = (\<lambda>n. n \<noteq> ''''), vl_text = (\<lambda>t. True)\<rparr>"

lemma one_wire_roundtrip: "vol_roundtrip (one_wire_lib w)"
  by (auto simp: vol_roundtrip_def one_wire_lib_def)

definition sample_row :: "time \<Rightarrow> raw_usage" where
  "sample_row captured = \<lparr>ru_Namespace = ''ns'', ru_PodUID = ''p'', ru_NodeUID = ''u'', ru_VolumeName = ''v'',
     ru_PVCNamespace = '''', ru_PVCName = '''',
     ru_Filesystem = \<lparr>fs_CapturedAt = captured, fs_CapacityBytes = None, fs_UsedBytes = Some 1,
       fs_AvailableBytes = None, fs_Inodes = None, fs_InodesUsed = None, fs_InodesFree = None\<rparr>\<rparr>"

definition sample_batch :: "time \<Rightarrow> time \<Rightarrow> vol_batch" where
  "sample_batch tm captured = \<lparr>vb_nodeName = ''n'', vb_nodeUID = ''u'', vb_reportedAt = tm,
     vb_state = vol_SourceState vh_Reported '''', vb_records = [sample_row captured]\<rparr>"

definition sample_vol_lib :: "time \<Rightarrow> time \<Rightarrow> vol_lib" where
  "sample_vol_lib tm captured = one_wire_lib (wire_of_batch (sample_batch tm captured))"

lemma sample_batch_encoded: "EncodePrivate (sample_vol_lib tm captured) (sample_batch tm captured) = Some ''w''"
  by (simp add: EncodePrivate_def sample_vol_lib_def one_wire_lib_def)

lemma sample_batch_new:
  assumes "0 < tm" and "now - vol_ExpireAfter \<le> tm" and "tm \<le> now + vol_FutureSkew"
    and "0 < captured" and "now - vol_ExpireAfter \<le> captured" and "captured \<le> now"
    and "captured \<le> tm + vol_FutureSkew"
  shows "NewBatch (sample_vol_lib tm captured) ''n'' ''u'' tm (vol_SourceState vh_Reported '''') [sample_row captured] now
    = Inr (sample_batch tm captured)"
proof -
  have pos: "0 < vol_FutureSkew"
    by (simp add: vol_FutureSkew_def go_simps)
  have row: "validate_row (sample_vol_lib tm captured) ''u'' tm now [] [] (sample_row captured) = None"
    using assms pos
    by (simp add: validate_row_def sample_row_def sample_vol_lib_def one_wire_lib_def vol_validUID_def
        vol_validName_def validateFilesystem_def mget0_def vol_limit_defs)
  have ids: "vol_validName (sample_vol_lib tm captured) ''n''" "vol_validUID (sample_vol_lib tm captured) ''u''"
    by (simp_all add: sample_vol_lib_def one_wire_lib_def vol_validUID_def vol_validName_def vol_limit_defs)
  have state: "validateUsageState (vol_SourceState vh_Reported '''')"
    "us_Availability (vol_SourceState vh_Reported '''') = vh_Reported"
    by (simp_all add: validateUsageState_def vol_SourceState_def usage_reason_def)
  have batch: "\<lparr>vb_nodeName = ''n'', vb_nodeUID = ''u'', vb_reportedAt = tm,
      vb_state = vol_SourceState vh_Reported '''', vb_records = [sample_row captured]\<rparr> = sample_batch tm captured"
    by (simp add: sample_batch_def)
  have fresh: "fs_CapturedAt (ru_Filesystem (sample_row captured)) = captured"
    by (simp add: sample_row_def)
  have recs: "vb_records (sample_batch tm captured) = [sample_row captured]"
    by (simp add: sample_batch_def)
  show ?thesis
    using assms row ids state
    by (simp add: NewBatch_def newValidatedBatch_def Let_def batch sample_batch_encoded fresh recs
        MaxBatchRecords_def MaxBatchBytes_def)
qed


text \<open>An accepted batch that the store cannot decode again.\<close>

lemma volume_batch_lost:
  "NewBatch (sample_vol_lib (1005 * second) (881 * second)) ''n'' ''u'' (1005 * second)
      (vol_SourceState vh_Reported '''') [sample_row (881 * second)] (1000 * second)
     = Inr (sample_batch (1005 * second) (881 * second))"
  "\<exists>e. DecodePrivate (sample_vol_lib (1005 * second) (881 * second)) ''w'' (1005 * second) = Inl e"
proof -
  show new: "NewBatch (sample_vol_lib (1005 * second) (881 * second)) ''n'' ''u'' (1005 * second)
      (vol_SourceState vh_Reported '''') [sample_row (881 * second)] (1000 * second)
    = Inr (sample_batch (1005 * second) (881 * second))"
    by (rule sample_batch_new) (simp_all add: vol_limit_defs go_simps)
  have "fs_CapturedAt (ru_Filesystem (sample_row (881 * second))) < 1005 * second - vol_ExpireAfter"
    by (simp add: sample_row_def vol_limit_defs go_simps)
  from volume_batch_ahead_not_decodable [OF new sample_batch_encoded _ _ this]
  show "\<exists>e. DecodePrivate (sample_vol_lib (1005 * second) (881 * second)) ''w'' (1005 * second) = Inl e"
    by (simp add: sample_vol_lib_def one_wire_roundtrip) (simp add: sample_batch_def)
qed

subsection \<open>What retention keeps\<close>

lemma previous_rows_mget:
  assumes "distinct (map usageKey rs)" and "\<forall>r \<in> set rs. mget m (usageKey r) = None"
  shows "mget (previous_rows now m rs) k = Some r \<longleftrightarrow>
    (r \<in> set rs \<and> usageKey r = k \<and> time_sub now (fs_CapturedAt (ru_Filesystem r)) \<le> vol_ExpireAfter)
    \<or> mget m k = Some r"
  using assms
proof (induction now m rs rule: previous_rows.induct)
  case (2 now rows x xs)
  show ?case
  proof (cases "time_sub now (fs_CapturedAt (ru_Filesystem x)) \<le> vol_ExpireAfter")
    case True
    have "\<forall>y \<in> set xs. mget (mput (usageKey x) x rows) (usageKey y) = None"
      using "2.prems" by (auto simp: mget_mput) (metis image_eqI)
    with 2 True show ?thesis
      by (auto simp: mget_mput split: if_splits)
  next
    case False
    with 2 show ?thesis
      by auto
  qed
qed simp

lemma mwf_previous_rows: "mwf m \<Longrightarrow> mwf (previous_rows now m rs)"
  by (induction now m rs rule: previous_rows.induct) (simp_all add: mwf_mput)

lemma mwf_merge_rows: "merge_rows m rs = Some r \<Longrightarrow> mwf m \<Longrightarrow> mwf r"
  by (induction m rs rule: merge_rows.induct) (auto simp: mwf_mput split: if_splits)

lemma merge_rows_Some:
  assumes "merge_rows m rs = Some r" and "distinct (map usageKey rs)"
  shows "(\<forall>c \<in> set rs. mget r (usageKey c) = Some c \<and>
      (\<forall>p. mget m (usageKey c) = Some p \<longrightarrow> \<not> row_regresses p c))
    \<and> (\<forall>k. k \<notin> usageKey ` set rs \<longrightarrow> mget r k = mget m k)"
  using assms
proof (induction m rs rule: merge_rows.induct)
  case (2 m c cs)
  then have ok: "\<forall>p. mget m (usageKey c) = Some p \<longrightarrow> \<not> row_regresses p c" and
    rest: "merge_rows (mput (usageKey c) c m) cs = Some r"
    by (auto split: if_splits option.splits)
  have new: "usageKey c \<notin> usageKey ` set cs"
    using "2.prems"(2) by auto
  have IH: "(\<forall>c' \<in> set cs. mget r (usageKey c') = Some c' \<and>
      (\<forall>p. mget (mput (usageKey c) c m) (usageKey c') = Some p \<longrightarrow> \<not> row_regresses p c'))
    \<and> (\<forall>k. k \<notin> usageKey ` set cs \<longrightarrow> mget r k = mget (mput (usageKey c) c m) k)"
    by (rule "2.IH") (use 2 rest in \<open>auto split: if_splits option.splits\<close>)
  show ?case
    using IH ok new by (auto simp: mget_mput image_iff)
qed simp

text \<open>The rows of the previous batch that retention starts from.\<close>

definition carried :: "vol_batch option \<Rightarrow> vol_batch \<Rightarrow> time \<Rightarrow> raw_usage set" where
  "carried previous current now = (case previous of None \<Rightarrow> {} | Some p \<Rightarrow>
     if vb_nodeName p = vb_nodeName current \<and> vb_nodeUID p = vb_nodeUID current
     then {r \<in> set (vb_records p). time_sub now (fs_CapturedAt (ru_Filesystem r)) \<le> vol_ExpireAfter} else {})"

text \<open>
  C20. Retention of volume samples is sound and complete: the result holds every current sample;
  any other sample in it is an unexpired one of the previous batch of the same Node whose volume
  is not in the current batch; a current sample is never older than the one it replaces, and
  samples with the same clock are the same; no volume appears twice.
\<close>

theorem volume_retention_sound:
  assumes "vol_Retain L previous current now = Inr res"
    and "distinct (map usageKey (vb_records current))"
    and "\<forall>p. previous = Some p \<longrightarrow> distinct (map usageKey (vb_records p))"
  shows "set (vb_records res) = set (vb_records current) \<union>
      {r \<in> carried previous current now. usageKey r \<notin> usageKey ` set (vb_records current)}
    \<and> (\<forall>c \<in> set (vb_records current). \<forall>p \<in> carried previous current now. usageKey p = usageKey c \<longrightarrow>
        \<not> row_regresses p c)
    \<and> distinct (map usageKey (vb_records res))"
proof -
  define rows where "rows = (case previous of None \<Rightarrow> []
        | Some p \<Rightarrow> if vb_nodeName p = vb_nodeName current \<and> vb_nodeUID p = vb_nodeUID current
            then previous_rows now [] (vb_records p) else [])"
  have rows: "mget rows k = Some r \<longleftrightarrow> r \<in> carried previous current now \<and> usageKey r = k" for k r
    using assms(3) by (auto simp: rows_def carried_def previous_rows_mget split: option.splits)
  have wf: "mwf rows"
    by (simp add: rows_def mwf_previous_rows split: option.splits)
  from assms(1) obtain m where m: "merge_rows rows (vb_records current) = Some m" and
    new: "NewBatch L (vb_nodeName current) (vb_nodeUID current) (vb_reportedAt current)
      (vol_SourceState vh_Reported '''') (map (\<lambda>k. the (mget m k)) (sort (mkeys m))) now = Inr res"
    by (auto simp: vol_Retain_def Let_def rows_def split: option.splits)
  note merged = merge_rows_Some [OF m assms(2)]
  have keyed: "mget m k = Some r \<longleftrightarrow>
      (r \<in> set (vb_records current) \<or>
       r \<in> carried previous current now \<and> usageKey r \<notin> usageKey ` set (vb_records current)) \<and> usageKey r = k" for k r
  proof (cases "k \<in> usageKey ` set (vb_records current)")
    case True
    then obtain c where c: "c \<in> set (vb_records current)" "usageKey c = k"
      by blast
    with merged have "mget m k = Some c"
      by blast
    moreover have "r = c" if "r \<in> set (vb_records current)" "usageKey r = k"
      using that c assms(2) by (simp add: distinct_map inj_on_def)
    ultimately show ?thesis
      using c by (auto simp: image_iff)
  next
    case False
    then have "mget m k = mget rows k"
      using merged by simp
    with rows False show ?thesis
      by auto
  qed
  have recs: "vb_records res = map (\<lambda>k. the (mget m k)) (sort (mkeys m))"
    using NewBatch_Inr(1) [OF new] by simp
  have "r \<in> set (vb_records res) \<longleftrightarrow> (\<exists>k. mget m k = Some r)" for r
    unfolding recs by (force simp: set_mkeys)
  then have one: "set (vb_records res) = set (vb_records current) \<union>
      {r \<in> carried previous current now. usageKey r \<notin> usageKey ` set (vb_records current)}"
    by (auto simp: keyed)
  have two: "\<forall>c \<in> set (vb_records current). \<forall>p \<in> carried previous current now. usageKey p = usageKey c \<longrightarrow>
      \<not> row_regresses p c"
    using merged rows by blast
  have "distinct (map usageKey (vb_records res))"
    using validate_rows_None [OF NewBatch_Inr(2) [OF new]] unfolding recs by blast
  with one two show ?thesis
    by blast
qed

lemma sample_retained:
  "vol_Retain (sample_vol_lib (1000 * second) (990 * second)) None (sample_batch (1000 * second) (990 * second))
     (1000 * second) = Inr (sample_batch (1000 * second) (990 * second))"
proof -
  have "NewBatch (sample_vol_lib (1000 * second) (990 * second)) ''n'' ''u'' (1000 * second)
      (vol_SourceState vh_Reported '''') [sample_row (990 * second)] (1000 * second)
    = Inr (sample_batch (1000 * second) (990 * second))"
    by (rule sample_batch_new) (simp_all add: vol_limit_defs go_simps)
  then show ?thesis
    by (simp add: vol_Retain_def sample_batch_def mput_def mkeys_def mget_def)
qed

theorem volume_retention_sound_witness:
  "set (vb_records (sample_batch (1000 * second) (990 * second))) = {sample_row (990 * second)}"
  using volume_retention_sound [OF sample_retained] by (simp add: sample_batch_def carried_def)

end
