(* ===== verification/Go_Account.thy ===== *)
theory Go_Account
  imports Go_Prelude "HOL-Library.While_Combinator"
begin

text \<open>
  Two things the bounded stores share. \<open>msum\<close> is the total of a size over the values of a map: the
  stores keep such a total in a field of their own, and the rules of \<open>account_simps\<close> say how an
  insertion or a deletion changes it. \<open>shrinking_loop\<close> is the contract of a loop that makes room:
  every round lowers a natural number, so the loop returns, and what it returns no longer exceeds
  the bound.
\<close>

named_theorems account_simps "how a total over a map changes with the map"

definition msum :: "('v \<Rightarrow> int) \<Rightarrow> ('k, 'v) gomap \<Rightarrow> int" where
  "msum f m = sum_list (map (\<lambda>(k, v). f v) m)"

lemma msum_Nil [simp]: "msum f [] = 0"
  by (simp add: msum_def)

lemma msum_Cons: "msum f ((k, v) # m) = f v + msum f m"
  by (simp add: msum_def)

lemma msum_mdel [account_simps]:
  "mwf m \<Longrightarrow> msum f (mdel k m) = msum f m - (case mget m k of None \<Rightarrow> 0 | Some v \<Rightarrow> f v)"
proof (induction m)
  case (Cons e m)
  obtain j v where e: "e = (j, v)"
    by (cases e)
  have absent: "mdel k m = m" if "k \<notin> fst ` set m"
    using that by (simp add: mdel_def delete_conv' image_iff)
  show ?case
  proof (cases "j = k")
    case True
    then have "k \<notin> fst ` set m"
      using Cons.prems e by (simp add: mwf_def)
    then have "mdel k (e # m) = m"
      using True e absent by (simp add: mdel_def)
    then show ?thesis
      using True e by (simp add: msum_Cons mget_def)
  next
    case False
    have "mwf m"
      using Cons.prems e by (simp add: mwf_def)
    with Cons.IH False e show ?thesis
      by (auto simp: mdel_def msum_Cons mget_def)
  qed
qed (simp add: mdel_def)

lemma msum_mput [account_simps]:
  "mwf m \<Longrightarrow> msum f (mput k v m) = msum f m - (case mget m k of None \<Rightarrow> 0 | Some w \<Rightarrow> f w) + f v"
proof (induction m)
  case (Cons e m)
  then show ?case
    by (cases e) (auto simp: mput_def msum_Cons mget_def mwf_def)
qed (simp add: mput_def msum_def)

lemma msum_mkeep:
  "msum f (mkeep P m) = msum f m - msum f (mkeep (\<lambda>k v. \<not> P k v) m)"
  by (induction m) (auto simp: mkeep_def msum_Cons)

lemma msum_nonneg: "(\<And>v. 0 \<le> f v) \<Longrightarrow> 0 \<le> msum f m"
  by (induction m) (auto simp: msum_Cons)

lemma msum_ge:
  assumes "\<And>v. 0 \<le> f v" and "mget m k = Some v"
  shows "f v \<le> msum f m"
  using assms(2)
proof (induction m)
  case (Cons e m)
  obtain j w where e: "e = (j, w)"
    by (cases e)
  show ?case
    using Cons e msum_nonneg [of f m, OF assms(1)] assms(1) [of w]
    by (cases "j = k") (simp_all add: msum_Cons mget_def)
qed simp

text \<open>
  \<open>for k, v := range m { ... }\<close> where the body for \<open>k\<close> touches only the entry of \<open>k\<close>: the loop keeps
  what every body keeps, and the entry of every visited key is what its own body made of it.
\<close>

lemma range_fold:
  assumes "P S" and "distinct (map fst es)" and "\<And>k v. (k, v) \<in> set es \<Longrightarrow> get S k = Some v"
    and step: "\<And>k v S. P S \<Longrightarrow> get S k = Some v \<Longrightarrow> P (step (k, v) S)"
    and own: "\<And>k v S j. P S \<Longrightarrow> get S k = Some v \<Longrightarrow> get (step (k, v) S) j = (if j = k then upd k v else get S j)"
  shows "P (fold step es S) \<and>
    (\<forall>j. get (fold step es S) j = (case map_of es j of None \<Rightarrow> get S j | Some v \<Rightarrow> upd j v))"
  using assms(1-3)
proof (induction es arbitrary: S)
  case (Cons e es)
  obtain k v where e: "e = (k, v)"
    by (cases e)
  have get: "get S k = Some v"
    using Cons.prems(3) e by simp
  have k: "map_of es k = None"
    using Cons.prems(2) e by (simp add: map_of_eq_None_iff)
  have "get (step (k, v) S) j = Some w" if "(j, w) \<in> set es" for j w
    using Cons.prems(2,3) that e own [OF Cons.prems(1) get] by force
  from Cons.IH [OF step [OF Cons.prems(1) get] _ this] Cons.prems(2) k own [OF Cons.prems(1) get]
  show ?case
    by (auto simp: e split: option.split)
qed simp

locale shrinking_loop =
  fixes inv :: "'s \<Rightarrow> bool" and over :: "'s \<Rightarrow> bool" and step :: "'s \<Rightarrow> 's" and weight :: "'s \<Rightarrow> nat"
  assumes inv_step: "inv s \<Longrightarrow> over s \<Longrightarrow> inv (step s)"
    and shrinks: "inv s \<Longrightarrow> over s \<Longrightarrow> weight (step s) < weight s"
begin

lemma returns: "inv s \<Longrightarrow> \<exists>t. while_option over step s = Some t"
  by (rule measure_while_option_Some [where P = inv and f = weight]) (auto simp: inv_step shrinks)

lemma returned:
  assumes "while_option over step s = Some t" and "inv s"
  shows "inv t \<and> \<not> over t"
  using while_option_rule [where P = inv, OF inv_step assms(1,2)] while_option_stop [OF assms(1)]
  by simp

lemma returned_frame:
  assumes "while_option over step s = Some t" and "\<And>u. over u \<Longrightarrow> frame (step u) = frame u"
  shows "frame t = frame s"
  using while_option_rule [where P = "\<lambda>u. frame u = frame s", OF _ assms(1)] assms(2) by simp

end

end
