(* ===== verification/Node_Context.thy ===== *)
theory Node_Context
  imports Node_Observation Go_Account
begin

text \<open>
  The Node context store of package \<open>collector\<close>: the clock of an observation
  (\<open>node_context_clock.go\<close>) and the bounded history of encoded observations
  (\<open>node_context_history.go\<close>), with the structs of \<open>node_context.go\<close>. Encoded bytes are strings; a
  nil slice is the empty list.

  The two eviction loops of \<open>record\<close> run until a bound holds, so they are \<open>while_option\<close>, whose value
  is \<open>None\<close> when the loop does not return; the locale \<open>shrinking_loop\<close> gives their termination from
  a size that every round lowers.

  The lemmas: clocks never go back, the byte account of the history is exact and within its limits,
  recording always returns, and a window reported complete has no gap.
\<close>

subsection \<open>The clock of an observation\<close>

text \<open>\<open>nodeContextClock\<close> is an array of sixteen times; the zero time is a missing measurement.\<close>

type_synonym node_clock = "time list"

definition zero_clock :: node_clock where
  "zero_clock = replicate 16 0"

definition category_index :: "string \<Rightarrow> nat" where
  "category_index category =
    (if category = cat_Kubelet then 0 else if category = cat_Runtime then 1
     else if category = cat_Misc then 2 else if category = cat_Pods then 3 else 0)"

definition clock_system :: "system_container \<Rightarrow> node_clock \<Rightarrow> node_clock" where
  "clock_system item clock =
    (let index = category_index (sy_Category item);
         c1 = (case sy_Memory item of None \<Rightarrow> clock | Some m \<Rightarrow> clock[2 + index * 2 := nm_CapturedAt m]);
         c2 = (case sy_Swap item of None \<Rightarrow> c1 | Some w \<Rightarrow> c1[3 + index * 2 := sw_CapturedAt w])
     in c2[12 + index := sy_StartedAt item])"

definition observationClock :: "observation \<Rightarrow> node_clock" where
  "observationClock v =
    (let c0 = (case ob_Context v of None \<Rightarrow> zero_clock | Some k \<Rightarrow> zero_clock[10 := kc_CapturedAt k])
     in case ob_Stats v of None \<Rightarrow> c0
      | Some stats \<Rightarrow>
         let c1 = c0[11 := ns_StartedAt stats];
             c2 = (case ns_Memory stats of None \<Rightarrow> c1 | Some m \<Rightarrow> c1[0 := nm_CapturedAt m]);
             c3 = (case ns_Swap stats of None \<Rightarrow> c2 | Some w \<Rightarrow> c2[1 := sw_CapturedAt w])
         in fold clock_system (ns_SystemContainers stats) c3)"

definition clock_before :: "node_clock \<Rightarrow> node_clock \<Rightarrow> bool" where
  "clock_before nxt prev \<longleftrightarrow> list_ex (\<lambda>(n, p). \<not> is_zero_time n \<and> n < p) (zip nxt prev)"

definition newMeasurements :: "node_clock \<Rightarrow> node_clock \<Rightarrow> bool" where
  "newMeasurements nxt prev \<longleftrightarrow> list_ex (\<lambda>(n, p). n > p) (take 10 (zip nxt prev))"

definition retainingMissing :: "node_clock \<Rightarrow> node_clock \<Rightarrow> node_clock" where
  "retainingMissing nxt prev = map (\<lambda>(n, p). if is_zero_time n then p else n) (zip nxt prev)"

subsection \<open>The store\<close>

record topology_entry =
  te_current :: string
  te_good :: string

record node_entry =
  ne_topology :: topology_entry
  ne_uid :: string
  ne_report :: string
  ne_good :: string
  ne_reportedAt :: time
  ne_capturedAt :: time
  ne_receivedAt :: time
  ne_failed :: bool
  ne_clock :: node_clock

record node_point =
  pt_sourceAt :: time
  pt_at :: time
  pt_data :: string

record node_series =
  nx_name :: string
  nx_uid :: string
  nx_points :: "node_point list"

record node_store =
  nc_latest :: "(string, node_entry) gomap"
  nc_history :: "(string, node_series) gomap"
  nc_historyBytes :: int
  nc_lossAt :: time

definition newNodeContextStore :: node_store where
  "newNodeContextStore = \<lparr>nc_latest = [], nc_history = [], nc_historyBytes = 0, nc_lossAt = 0\<rparr>"

definition topology_zero :: topology_entry where
  "topology_zero = \<lparr>te_current = '''', te_good = ''''\<rparr>"

definition node_entry_zero :: node_entry where
  "node_entry_zero = \<lparr>ne_topology = topology_zero, ne_uid = '''', ne_report = '''', ne_good = '''',
     ne_reportedAt = 0, ne_capturedAt = 0, ne_receivedAt = 0, ne_failed = False, ne_clock = zero_clock\<rparr>"

subsection \<open>Pruning and eviction\<close>

definition points_bytes :: "node_point list \<Rightarrow> int" where
  "points_bytes ps = sum_list (map (\<lambda>p. int (length (pt_data p))) ps)"

text \<open>One round of the loop of \<open>prune\<close> over the history.\<close>

definition prune_series :: "time \<Rightarrow> string \<times> node_series \<Rightarrow> node_store \<Rightarrow> node_store" where
  "prune_series cutoff entry S =
    (let (uid, series) = entry;
         stale = takeWhile (\<lambda>p. pt_at p < cutoff) (nx_points series);
         live = dropWhile (\<lambda>p. pt_at p < cutoff) (nx_points series);
         S1 = S\<lparr>nc_historyBytes := nc_historyBytes S - points_bytes stale\<rparr>
     in if live = [] then S1\<lparr>nc_history := mdel uid (nc_history S1)\<rparr>
        else S1\<lparr>nc_history := mput uid (series\<lparr>nx_points := live\<rparr>) (nc_history S1)\<rparr>)"

definition node_prune :: "time \<Rightarrow> node_store \<Rightarrow> node_store" where
  "node_prune now S = fold (prune_series (now - HistoryDuration)) (nc_history S) S"

text \<open>
  The scan both evictions make over the history: the key whose time is the earliest, the smaller
  key on a tie. The empty key stands for "none yet", as in the code.
\<close>

fun oldest_scan ::
    "(node_series \<Rightarrow> time) \<Rightarrow> string \<Rightarrow> time \<Rightarrow> (string, node_series) gomap \<Rightarrow> string" where
  "oldest_scan at_of oldestUID oldestAt [] = oldestUID"
| "oldest_scan at_of oldestUID oldestAt ((uid, series) # rest) =
    (if oldestUID = '''' \<or> at_of series < oldestAt \<or> at_of series = oldestAt \<and> uid < oldestUID
     then oldest_scan at_of uid (at_of series) rest
     else oldest_scan at_of oldestUID oldestAt rest)"

definition evictOldest :: "time \<Rightarrow> node_store \<Rightarrow> node_store" where
  "evictOldest now S =
    (let oldestUID = oldest_scan (\<lambda>s. pt_at (hd (nx_points s))) '''' 0 (nc_history S)
     in case mget (nc_history S) oldestUID of
       None \<Rightarrow> S
     | Some series \<Rightarrow>
        let S1 = S\<lparr>nc_historyBytes := nc_historyBytes S - int (length (pt_data (hd (nx_points series))))\<rparr>;
            points = tl (nx_points series)
        in if points = [] then S1\<lparr>nc_history := mdel oldestUID (nc_history S1), nc_lossAt := now\<rparr>
           else S1\<lparr>nc_history := mput oldestUID (series\<lparr>nx_points := points\<rparr>) (nc_history S1),
                   nc_lossAt := now\<rparr>)"

definition evictOldestSeries :: "time \<Rightarrow> node_store \<Rightarrow> node_store" where
  "evictOldestSeries now S =
    (let oldestUID = oldest_scan (\<lambda>s. pt_at (last (nx_points s))) '''' 0 (nc_history S)
     in case mget (nc_history S) oldestUID of
       None \<Rightarrow> S
     | Some series \<Rightarrow>
        S\<lparr>nc_historyBytes := nc_historyBytes S - points_bytes (nx_points series),
          nc_history := mdel oldestUID (nc_history S), nc_lossAt := now\<rparr>)"

subsection \<open>Recording\<close>

definition make_room :: "nat \<Rightarrow> time \<Rightarrow> node_store \<Rightarrow> node_store option" where
  "make_room n now S =
    while_option (\<lambda>T. nc_historyBytes T + int n > int MaxHistoryBytes) (evictOldest now) S"

definition make_series_room :: "time \<Rightarrow> node_store \<Rightarrow> node_store option" where
  "make_series_room now S =
    while_option (\<lambda>T. mlen (nc_history T) \<ge> MaxHistorySeries) (evictOldestSeries now) S"

definition append_node_point :: "string \<Rightarrow> node_series \<Rightarrow> time \<Rightarrow> string \<Rightarrow> time \<Rightarrow> node_store \<Rightarrow> node_store" where
  "append_node_point uid series captured data now S =
    (let (points, S1) = (if length (nx_points series) \<ge> MaxHistoryPoints
           then (tl (nx_points series),
                 S\<lparr>nc_historyBytes := nc_historyBytes S - int (length (pt_data (hd (nx_points series)))),
                   nc_lossAt := now\<rparr>)
           else (nx_points series, S));
         points1 = points @ [\<lparr>pt_sourceAt = captured, pt_at = now, pt_data = data\<rparr>]
     in S1\<lparr>nc_history := mput uid (series\<lparr>nx_points := points1\<rparr>) (nc_history S1),
           nc_historyBytes := nc_historyBytes S1 + int (length data)\<rparr>)"

definition node_record ::
    "string \<Rightarrow> string \<Rightarrow> time \<Rightarrow> string \<Rightarrow> time \<Rightarrow> node_store \<Rightarrow> node_store option" where
  "node_record name uid captured data now S =
    (case make_room (length data) now (node_prune now S) of
       None \<Rightarrow> None
     | Some S1 \<Rightarrow>
        (case mget (nc_history S1) uid of
           Some series \<Rightarrow> Some (append_node_point uid series captured data now S1)
         | None \<Rightarrow>
            (case make_series_room now S1 of
               None \<Rightarrow> None
             | Some S2 \<Rightarrow> Some (append_node_point uid \<lparr>nx_name = name, nx_uid = uid, nx_points = []\<rparr>
                 captured data now S2))))"

definition completeNodeWindow :: "node_series \<Rightarrow> time \<Rightarrow> bool" where
  "completeNodeWindow series now =
    (let points = nx_points series; tolerance = 2 * CollectionInterval in
     if points = [] then False
     else if time_sub now (pt_sourceAt (last points)) > StaleAfter then False
     else if pt_at (hd points) > now + (- HistoryDuration + tolerance) \<or> pt_at (last points) < now - tolerance
       then False
     else list_all (\<lambda>(p, q). time_sub (pt_at q) (pt_at p) \<le> tolerance) (zip points (tl points)))"

subsection \<open>Clocks never go back\<close>

lemma length_clock_system [simp]: "length (clock_system item c) = length c"
  by (simp add: clock_system_def Let_def split: option.splits)

lemma length_fold_clock_system [simp]: "length (fold clock_system items c) = length c"
  by (induction items arbitrary: c) simp_all

lemma length_observationClock [simp]: "length (observationClock v) = 16"
  by (simp add: observationClock_def Let_def zero_clock_def split: option.splits)

lemma length_retainingMissing [simp]: "length (retainingMissing p q) = min (length p) (length q)"
  by (simp add: retainingMissing_def)

definition clock_le :: "node_clock \<Rightarrow> node_clock \<Rightarrow> bool" where
  "clock_le p q \<longleftrightarrow> list_all2 (\<le>) p q"

lemma clock_le_refl [simp]: "clock_le c c"
  by (simp add: clock_le_def list.rel_refl)

lemma clock_le_trans: "clock_le a b \<Longrightarrow> clock_le b c \<Longrightarrow> clock_le a c"
  unfolding clock_le_def by (rule list_all2_trans [of "(\<le>)" "(\<le>)" "(\<le>)"]) auto

lemma retainingMissing_le:
  "length nxt = length prev \<Longrightarrow> \<not> clock_before nxt prev \<Longrightarrow> clock_le prev (retainingMissing nxt prev)"
  by (induction nxt prev rule: list_induct2)
    (auto simp: clock_le_def clock_before_def retainingMissing_def)

text \<open>A measurement that is newer than the retained one is the one the retained clock holds.\<close>

lemma retainingMissing_nth:
  "i < length nxt \<Longrightarrow> i < length prev \<Longrightarrow>
    retainingMissing nxt prev ! i = (if nxt ! i = 0 then prev ! i else nxt ! i)"
  by (simp add: retainingMissing_def)

subsection \<open>The invariant of the history\<close>

definition series_bytes :: "node_series \<Rightarrow> int" where
  "series_bytes s = points_bytes (nx_points s)"

definition series_inv :: "time \<Rightarrow> string \<Rightarrow> node_series \<Rightarrow> bool" where
  "series_inv T uid s \<longleftrightarrow> uid \<noteq> '''' \<and> nx_uid s = uid \<and> nx_points s \<noteq> [] \<and>
     length (nx_points s) \<le> MaxHistoryPoints \<and> sorted (map pt_at (nx_points s)) \<and>
     pt_at (last (nx_points s)) \<le> T"

definition node_wf :: "time \<Rightarrow> node_store \<Rightarrow> bool" where
  "node_wf T S \<longleftrightarrow> mwf (nc_history S) \<and>
     (\<forall>k s. mget (nc_history S) k = Some s \<longrightarrow> series_inv T k s) \<and>
     nc_historyBytes S = msum series_bytes (nc_history S)"

definition node_ok :: "time \<Rightarrow> node_store \<Rightarrow> bool" where
  "node_ok T S \<longleftrightarrow> node_wf T S \<and> nc_historyBytes S \<le> int MaxHistoryBytes \<and>
     mlen (nc_history S) \<le> MaxHistorySeries"

lemma points_bytes_simps [simp]:
  "points_bytes [] = 0"
  "points_bytes (p # ps) = int (length (pt_data p)) + points_bytes ps"
  "points_bytes (ps @ qs) = points_bytes ps + points_bytes qs"
  by (simp_all add: points_bytes_def)

lemma points_bytes_nonneg [simp]: "0 \<le> points_bytes ps"
  by (induction ps) (simp_all add: points_bytes_def)

lemma points_bytes_split: "points_bytes ps = points_bytes (takeWhile P ps) + points_bytes (dropWhile P ps)"
  by (metis points_bytes_simps(3) takeWhile_dropWhile_id)

lemma points_bytes_tl: "ps \<noteq> [] \<Longrightarrow> points_bytes ps = int (length (pt_data (hd ps))) + points_bytes (tl ps)"
  by (cases ps) simp_all

lemma series_inv_mono: "series_inv T k s \<Longrightarrow> T \<le> T' \<Longrightarrow> series_inv T' k s"
  by (auto simp: series_inv_def)

lemma node_wf_mono: "node_wf T S \<Longrightarrow> T \<le> T' \<Longrightarrow> node_wf T' S"
  unfolding node_wf_def using series_inv_mono by blast

lemma series_inv_suffix:
  assumes "series_inv T k s" and "nx_points s = xs @ ps" and "ps \<noteq> []"
  shows "series_inv T k (s\<lparr>nx_points := ps\<rparr>)"
  using assms by (auto simp: series_inv_def sorted_append)

text \<open>
  The three ways in which the history shrinks are one: a series loses a prefix of its points, and
  goes when nothing is left.
\<close>

definition trim_series :: "string \<Rightarrow> node_series \<Rightarrow> node_point list \<Rightarrow> node_store \<Rightarrow> node_store" where
  "trim_series uid series ps S = S\<lparr>nc_historyBytes := nc_historyBytes S - (series_bytes series - points_bytes ps),
     nc_history := (if ps = [] then mdel uid (nc_history S)
                    else mput uid (series\<lparr>nx_points := ps\<rparr>) (nc_history S))\<rparr>"

lemma trim_series_wf:
  assumes "node_wf T S" and "mget (nc_history S) uid = Some series" and "nx_points series = xs @ ps"
  shows "node_wf T (trim_series uid series ps S)"
proof -
  have "series_inv T uid series"
    using assms(1,2) by (simp add: node_wf_def)
  then have "ps \<noteq> [] \<Longrightarrow> series_inv T uid (series\<lparr>nx_points := ps\<rparr>)"
    using assms(3) by (rule series_inv_suffix)
  moreover have "mwf (nc_history S)"
    using assms(1) by (simp add: node_wf_def)
  ultimately show ?thesis
    using assms(1,2) by (auto simp: node_wf_def trim_series_def gomap_simps account_simps series_bytes_def)
qed

lemma trim_series_frame:
  "nc_latest (trim_series uid series ps S) = nc_latest S"
  "mget (nc_history (trim_series uid series ps S)) k = (if k = uid
    then if ps = [] then None else Some (series\<lparr>nx_points := ps\<rparr>) else mget (nc_history S) k)"
  by (simp_all add: trim_series_def gomap_simps)

lemma trim_series_smaller:
  assumes "node_wf T S" and "mget (nc_history S) uid = Some series" and "nx_points series = xs @ ps"
  shows "nc_historyBytes (trim_series uid series ps S) \<le> nc_historyBytes S
    \<and> mlen (nc_history (trim_series uid series ps S)) \<le> mlen (nc_history S)"
  using assms by (auto simp: trim_series_def series_bytes_def node_wf_def gomap_simps)

lemma prune_series_trim:
  "prune_series cutoff (uid, series) S
    = trim_series uid series (dropWhile (\<lambda>p. pt_at p < cutoff) (nx_points series)) S"
  using points_bytes_split [of "nx_points series" "\<lambda>p. pt_at p < cutoff"]
  by (simp add: prune_series_def trim_series_def series_bytes_def Let_def)

lemma evictOldest_cases:
  assumes "node_wf T S" and "mget (nc_history S) (oldest_scan (\<lambda>s. pt_at (hd (nx_points s))) '''' 0 (nc_history S)) = Some series"
  shows "evictOldest now S = (trim_series (oldest_scan (\<lambda>s. pt_at (hd (nx_points s))) '''' 0 (nc_history S))
      series (tl (nx_points series)) S)\<lparr>nc_lossAt := now\<rparr>"
proof -
  have "nx_points series \<noteq> []"
    using assms by (auto simp: node_wf_def series_inv_def)
  with assms(2) show ?thesis
    by (simp add: evictOldest_def trim_series_def series_bytes_def Let_def points_bytes_tl)
qed

lemma evictOldestSeries_cases:
  assumes "mget (nc_history S) (oldest_scan (\<lambda>s. pt_at (last (nx_points s))) '''' 0 (nc_history S)) = Some series"
  shows "evictOldestSeries now S = (trim_series (oldest_scan (\<lambda>s. pt_at (last (nx_points s))) '''' 0 (nc_history S))
      series [] S)\<lparr>nc_lossAt := now\<rparr>"
  using assms by (simp add: evictOldestSeries_def trim_series_def series_bytes_def Let_def)

lemma node_wf_lossAt [simp]: "node_wf T (S\<lparr>nc_lossAt := t\<rparr>) = node_wf T S"
  by (simp add: node_wf_def)

subsection \<open>Which series the scan finds\<close>

definition scan_le :: "time \<times> string \<Rightarrow> time \<times> string \<Rightarrow> bool" where
  "scan_le a b \<longleftrightarrow> fst a < fst b \<or> fst a = fst b \<and> snd a \<le> snd b"

lemma scan_le_refl [simp]: "scan_le a a"
  by (simp add: scan_le_def)

lemma scan_le_trans: "scan_le a b \<Longrightarrow> scan_le b c \<Longrightarrow> scan_le a c"
  by (auto simp: scan_le_def)

lemma scan_le_total: "\<not> scan_le a b \<Longrightarrow> scan_le b a"
  by (auto simp: scan_le_def)

lemma oldest_scan_Cons:
  "u \<noteq> '''' \<Longrightarrow> oldest_scan f u t0 ((k, s) # rest) =
    (if scan_le (t0, u) (f s, k) then oldest_scan f u t0 rest else oldest_scan f k (f s) rest)"
  by (auto simp: scan_le_def)

lemma oldest_scan_min:
  assumes "u \<noteq> ''''" and "'''' \<notin> fst ` set m"
  shows "\<exists>t. ((oldest_scan f u t0 m, t) = (u, t0) \<or> (\<exists>s. (oldest_scan f u t0 m, s) \<in> set m \<and> t = f s)) \<and>
      scan_le (t, oldest_scan f u t0 m) (t0, u) \<and>
      (\<forall>(k, s) \<in> set m. scan_le (t, oldest_scan f u t0 m) (f s, k))"
  using assms
proof (induction m arbitrary: u t0)
  case (Cons e rest)
  obtain k s where e: "e = (k, s)"
    by (cases e)
  have k: "k \<noteq> ''''" and rest: "'''' \<notin> fst ` set rest"
    using Cons.prems(2) e by auto
  show ?case
  proof (cases "scan_le (t0, u) (f s, k)")
    case True
    then have scan: "oldest_scan f u t0 (e # rest) = oldest_scan f u t0 rest"
      unfolding e by (subst oldest_scan_Cons [OF Cons.prems(1)]) simp
    obtain t where t: "(oldest_scan f u t0 rest, t) = (u, t0) \<or> (\<exists>s. (oldest_scan f u t0 rest, s) \<in> set rest \<and> t = f s)"
      "scan_le (t, oldest_scan f u t0 rest) (t0, u)"
      "\<forall>(k, s) \<in> set rest. scan_le (t, oldest_scan f u t0 rest) (f s, k)"
      using Cons.IH [OF Cons.prems(1) rest, of t0] by blast
    moreover have "scan_le (t, oldest_scan f u t0 rest) (f s, k)"
      using t(2) True by (rule scan_le_trans)
    ultimately show ?thesis
      unfolding scan by (intro exI [of _ t]) (auto simp: e)
  next
    case False
    then have scan: "oldest_scan f u t0 (e # rest) = oldest_scan f k (f s) rest"
      unfolding e by (subst oldest_scan_Cons [OF Cons.prems(1)]) simp
    obtain t where t: "(oldest_scan f k (f s) rest, t) = (k, f s) \<or> (\<exists>s'. (oldest_scan f k (f s) rest, s') \<in> set rest \<and> t = f s')"
      "scan_le (t, oldest_scan f k (f s) rest) (f s, k)"
      "\<forall>(k', s') \<in> set rest. scan_le (t, oldest_scan f k (f s) rest) (f s', k')"
      using Cons.IH [OF k rest, of "f s"] by blast
    moreover have "scan_le (t, oldest_scan f k (f s) rest) (t0, u)"
      using t(2) scan_le_total [OF False] by (rule scan_le_trans)
    ultimately show ?thesis
      unfolding scan by (intro exI [of _ t]) (auto simp: e)
  qed
qed auto

lemma oldest_scan_found:
  assumes "node_wf T S" and "nc_history S \<noteq> []"
  shows "\<exists>s. mget (nc_history S) (oldest_scan f '''' 0 (nc_history S)) = Some s \<and>
    (\<forall>k s'. mget (nc_history S) k = Some s' \<longrightarrow> scan_le (f s, oldest_scan f '''' 0 (nc_history S)) (f s', k))"
proof -
  have wf: "mwf (nc_history S)"
    using assms(1) by (simp add: node_wf_def)
  have keys: "'''' \<notin> fst ` set (nc_history S)"
    using assms(1) unfolding dom_mget [symmetric] by (auto simp: node_wf_def series_inv_def)
  obtain k0 s0 rest where m: "nc_history S = (k0, s0) # rest"
    using assms(2) by (metis list.exhaust surj_pair)
  have scan: "oldest_scan f '''' 0 (nc_history S) = oldest_scan f k0 (f s0) rest"
    by (simp add: m)
  have "k0 \<noteq> ''''" "'''' \<notin> fst ` set rest"
    using keys by (auto simp: m)
  from oldest_scan_min [OF this, of f "f s0"] obtain s where
    "(oldest_scan f k0 (f s0) rest, s) \<in> set (nc_history S)"
    "\<forall>(k, s') \<in> set (nc_history S). scan_le (f s, oldest_scan f k0 (f s0) rest) (f s', k)"
    unfolding m by fastforce
  then show ?thesis
    unfolding scan mget_in_iff [OF wf] by blast
qed

subsection \<open>Eviction and pruning keep the invariant\<close>

text \<open>No retained point is older than \<open>lo\<close>.\<close>

definition recent :: "time \<Rightarrow> node_store \<Rightarrow> bool" where
  "recent lo S \<longleftrightarrow> (\<forall>k s p. mget (nc_history S) k = Some s \<longrightarrow> p \<in> set (nx_points s) \<longrightarrow> lo \<le> pt_at p)"

lemma recent_trim:
  assumes "recent lo S" and "mget (nc_history S) uid = Some series" and "nx_points series = xs @ ps"
  shows "recent lo (trim_series uid series ps S)"
  unfolding recent_def
proof (intro allI impI)
  fix k s p
  assume s: "mget (nc_history (trim_series uid series ps S)) k = Some s" and p: "p \<in> set (nx_points s)"
  show "lo \<le> pt_at p"
  proof (cases "k = uid")
    case True
    with s p assms(3) have "p \<in> set (nx_points series)"
      by (auto simp: trim_series_frame split: if_splits)
    with assms(1,2) show ?thesis
      by (auto simp: recent_def)
  next
    case False
    with s have "mget (nc_history S) k = Some s"
      by (simp add: trim_series_frame)
    with assms(1) p show ?thesis
      by (auto simp: recent_def)
  qed
qed

lemma recent_lossAt [simp]: "recent lo (S\<lparr>nc_lossAt := t\<rparr>) = recent lo S"
  by (simp add: recent_def)

definition point_count :: "node_store \<Rightarrow> nat" where
  "point_count S = nat (msum (\<lambda>s. int (length (nx_points s))) (nc_history S))"

lemma point_count_trim:
  assumes "node_wf T S" and "mget (nc_history S) uid = Some series" and "length ps < length (nx_points series)"
  shows "point_count (trim_series uid series ps S) < point_count S"
proof -
  have wf: "mwf (nc_history S)"
    using assms(1) by (simp add: node_wf_def)
  have "int (length (nx_points series)) \<le> msum (\<lambda>s. int (length (nx_points s))) (nc_history S)"
    using assms(2) by (rule msum_ge [rotated]) simp
  with assms(2,3) show ?thesis
    by (auto simp: point_count_def trim_series_def account_simps wf)
qed

lemma evictOldest_step:
  assumes "node_wf T S" and "nc_history S \<noteq> []"
  shows "node_wf T (evictOldest now S) \<and> point_count (evictOldest now S) < point_count S
    \<and> nc_historyBytes (evictOldest now S) \<le> nc_historyBytes S
    \<and> mlen (nc_history (evictOldest now S)) \<le> mlen (nc_history S)
    \<and> (recent lo S \<longrightarrow> recent lo (evictOldest now S))"
proof -
  obtain s where s: "mget (nc_history S) (oldest_scan (\<lambda>s. pt_at (hd (nx_points s))) '''' 0 (nc_history S)) = Some s"
    using oldest_scan_found [OF assms] by blast
  then have ne: "nx_points s \<noteq> []"
    using assms(1) by (auto simp: node_wf_def series_inv_def)
  then have split: "nx_points s = [hd (nx_points s)] @ tl (nx_points s)"
    by simp
  have "length (tl (nx_points s)) < length (nx_points s)"
    using ne by simp
  from point_count_trim [OF assms(1) s this] trim_series_wf [OF assms(1) s split] trim_series_smaller [OF assms(1) s split]
    recent_trim [OF _ s split]
  show ?thesis
    unfolding evictOldest_cases [OF assms(1) s] by (simp add: point_count_def)
qed

lemma evictOldestSeries_step:
  assumes "node_wf T S" and "nc_history S \<noteq> []"
  shows "node_wf T (evictOldestSeries now S) \<and> mlen (nc_history (evictOldestSeries now S)) < mlen (nc_history S)
    \<and> nc_historyBytes (evictOldestSeries now S) \<le> nc_historyBytes S
    \<and> (recent lo S \<longrightarrow> recent lo (evictOldestSeries now S))
    \<and> (mget (nc_history S) uid = None \<longrightarrow> mget (nc_history (evictOldestSeries now S)) uid = None)"
proof -
  obtain s where s: "mget (nc_history S) (oldest_scan (\<lambda>s. pt_at (last (nx_points s))) '''' 0 (nc_history S)) = Some s"
    using oldest_scan_found [OF assms] by blast
  have split: "nx_points s = nx_points s @ []"
    by simp
  have wf: "mwf (nc_history S)"
    using assms(1) by (simp add: node_wf_def)
  have "0 < mlen (nc_history S)"
    using assms(2) by (simp add: mlen_def)
  then have "mlen (nc_history (trim_series (oldest_scan (\<lambda>s. pt_at (last (nx_points s))) '''' 0 (nc_history S)) s [] S))
      < mlen (nc_history S)"
    using s by (simp add: trim_series_def mlen_mdel wf)
  with trim_series_wf [OF assms(1) s split] trim_series_smaller [OF assms(1) s split]
    recent_trim [OF _ s split]
  show ?thesis
    unfolding evictOldestSeries_cases [OF s] by (simp add: trim_series_frame)
qed

lemma eviction_latest [simp]:
  "nc_latest (evictOldest now S) = nc_latest S" "nc_latest (evictOldestSeries now S) = nc_latest S"
  by (simp_all add: evictOldest_def evictOldestSeries_def Let_def split: option.split)

text \<open>
  The loops make room: the first until the encoded report fits under the byte limit, the second
  until there is a free series. The invariant of each says what is inherited from the state before.
\<close>

definition room_inv :: "time \<Rightarrow> time \<Rightarrow> nat \<Rightarrow> nat \<Rightarrow> node_store \<Rightarrow> bool" where
  "room_inv T lo n series S \<longleftrightarrow> node_wf T S \<and> recent lo S \<and> n \<le> MaxHistoryBytes \<and> mlen (nc_history S) \<le> series"

definition series_room_inv :: "time \<Rightarrow> time \<Rightarrow> string \<Rightarrow> int \<Rightarrow> node_store \<Rightarrow> bool" where
  "series_room_inv T lo uid bytes S \<longleftrightarrow> node_wf T S \<and> recent lo S \<and> mget (nc_history S) uid = None \<and>
     nc_historyBytes S \<le> bytes"

interpretation bytes_room: shrinking_loop "room_inv T lo n series"
    "\<lambda>S. nc_historyBytes S + int n > int MaxHistoryBytes" "evictOldest now" point_count
  for T lo n series now
proof (unfold_locales, goal_cases)
  case (1 S)
  then have "nc_history S \<noteq> []"
    by (auto simp: room_inv_def node_wf_def)
  with 1 evictOldest_step [of T S now lo] show ?case
    by (auto simp: room_inv_def)
next
  case (2 S)
  then have "nc_history S \<noteq> []"
    by (auto simp: room_inv_def node_wf_def)
  with 2 evictOldest_step [of T S now] show ?case
    by (simp add: room_inv_def)
qed

interpretation series_room: shrinking_loop "series_room_inv T lo uid bytes"
    "\<lambda>S. mlen (nc_history S) \<ge> MaxHistorySeries" "evictOldestSeries now" "\<lambda>S. mlen (nc_history S)"
  for T lo uid bytes now
proof (unfold_locales, goal_cases)
  case (1 S)
  then have "nc_history S \<noteq> []"
    by (auto simp: MaxHistorySeries_def)
  with 1 evictOldestSeries_step [of T S now lo uid] show ?case
    by (auto simp: series_room_inv_def)
next
  case (2 S)
  then have "nc_history S \<noteq> []"
    by (auto simp: MaxHistorySeries_def)
  with 2 evictOldestSeries_step [of T S now lo uid] show ?case
    by (simp add: series_room_inv_def)
qed

lemma dropWhile_times:
  "sorted (map f xs) \<Longrightarrow> p \<in> set (dropWhile (\<lambda>p. f p < (c :: int)) xs) \<Longrightarrow> c \<le> f p"
  by (induction xs) (auto split: if_splits)

lemma node_prune_keeps:
  assumes "node_wf T S"
  shows "node_wf T (node_prune now S) \<and> nc_historyBytes (node_prune now S) \<le> nc_historyBytes S
    \<and> mlen (nc_history (node_prune now S)) \<le> mlen (nc_history S) \<and> nc_latest (node_prune now S) = nc_latest S
    \<and> recent (now - HistoryDuration) (node_prune now S)"
proof -
  let ?c = "now - HistoryDuration"
  let ?live = "\<lambda>s. dropWhile (\<lambda>p. pt_at p < ?c) (nx_points s)"
  let ?upd = "\<lambda>k s. if ?live s = [] then None else Some (s\<lparr>nx_points := ?live s\<rparr>)"
  let ?P = "\<lambda>R. node_wf T R \<and> nc_historyBytes R \<le> nc_historyBytes S \<and> mlen (nc_history R) \<le> mlen (nc_history S)
    \<and> nc_latest R = nc_latest S"
  have wf: "mwf (nc_history S)"
    using assms by (simp add: node_wf_def)
  have split: "nx_points s = takeWhile (\<lambda>p. pt_at p < ?c) (nx_points s) @ ?live s" for s
    by simp
  have "?P (node_prune now S) \<and> (\<forall>k. mget (nc_history (node_prune now S)) k =
      (case map_of (nc_history S) k of None \<Rightarrow> mget (nc_history S) k | Some s \<Rightarrow> ?upd k s))"
    unfolding node_prune_def
  proof (rule range_fold [where get = "\<lambda>S. mget (nc_history S)"])
    fix k s R assume R: "?P R" and s: "mget (nc_history R) k = Some s"
    show "?P (prune_series ?c (k, s) R)"
      unfolding prune_series_trim
      using R s trim_series_wf [OF _ s split] trim_series_smaller [OF _ s split] by (fastforce simp: trim_series_frame)
  qed (use assms wf in \<open>auto simp: mwf_def mget_in_iff [OF wf] prune_series_trim trim_series_frame\<close>)
  then have keeps: "?P (node_prune now S)"
    and pruned: "mget (nc_history (node_prune now S)) k = (case mget (nc_history S) k of None \<Rightarrow> None | Some s \<Rightarrow> ?upd k s)" for k
    by (auto simp: mget_def split: option.splits)
  have "?c \<le> pt_at p" if s: "mget (nc_history (node_prune now S)) k = Some s" and p: "p \<in> set (nx_points s)" for k s p
  proof -
    from s obtain s0 where s0: "mget (nc_history S) k = Some s0" and "nx_points s = ?live s0"
      by (auto simp: pruned split: option.splits if_splits)
    moreover have "sorted (map pt_at (nx_points s0))"
      using assms s0 by (auto simp: node_wf_def series_inv_def)
    ultimately show ?thesis
      using p dropWhile_times by auto
  qed
  with keeps show ?thesis
    by (auto simp: recent_def)
qed

subsection \<open>Recording\<close>

text \<open>The series a point is appended to: the present one, or a new empty one.\<close>

definition target_ok :: "time \<Rightarrow> string \<Rightarrow> node_series \<Rightarrow> node_store \<Rightarrow> bool" where
  "target_ok T uid s S \<longleftrightarrow> uid \<noteq> '''' \<and> nx_uid s = uid \<and> length (nx_points s) \<le> MaxHistoryPoints \<and>
     sorted (map pt_at (nx_points s)) \<and> (\<forall>p \<in> set (nx_points s). pt_at p \<le> T) \<and>
     (case mget (nc_history S) uid of None \<Rightarrow> nx_points s = [] | Some s' \<Rightarrow> s' = s)"

definition kept_node_points :: "node_series \<Rightarrow> node_point list" where
  "kept_node_points s = (if length (nx_points s) \<ge> MaxHistoryPoints then tl (nx_points s) else nx_points s)"

lemma append_node_point_eq:
  "nc_history (append_node_point uid s captured data now S) = mput uid
      (s\<lparr>nx_points := kept_node_points s @ [\<lparr>pt_sourceAt = captured, pt_at = now, pt_data = data\<rparr>]\<rparr>) (nc_history S)"
    "nc_historyBytes (append_node_point uid s captured data now S)
      = nc_historyBytes S - series_bytes s + points_bytes (kept_node_points s) + int (length data)"
    "nc_latest (append_node_point uid s captured data now S) = nc_latest S"
  by (cases "nx_points s"; simp add: append_node_point_def kept_node_points_def series_bytes_def Let_def
      MaxHistoryPoints_def)+

lemma append_node_point_wf:
  assumes "node_wf T S" and "target_ok T uid s S" and "T \<le> now"
  shows "node_wf now (append_node_point uid s captured data now S)"
proof -
  let ?new = "s\<lparr>nx_points := kept_node_points s @ [\<lparr>pt_sourceAt = captured, pt_at = now, pt_data = data\<rparr>]\<rparr>"
  have wf: "mwf (nc_history S)"
    using assms(1) by (simp add: node_wf_def)
  have sub: "set (kept_node_points s) \<subseteq> set (nx_points s)"
    by (cases "nx_points s") (auto simp: kept_node_points_def)
  have "sorted (map pt_at (kept_node_points s))"
    using assms(2) by (simp add: kept_node_points_def target_ok_def sorted_tl map_tl)
  moreover have "length (kept_node_points s) < MaxHistoryPoints"
    using assms(2) by (auto simp: kept_node_points_def target_ok_def MaxHistoryPoints_def)
  ultimately have new: "series_inv now uid ?new"
    using assms(2,3) sub by (force simp: series_inv_def target_ok_def sorted_append)
  have "msum series_bytes (mput uid ?new (nc_history S))
      = msum series_bytes (nc_history S) - series_bytes s + points_bytes (kept_node_points s) + int (length data)"
    using assms(2) by (auto simp: account_simps wf target_ok_def series_bytes_def split: option.splits)
  with assms(1,3) new show ?thesis
    unfolding node_wf_def append_node_point_eq
    by (auto simp: gomap_simps intro: series_inv_mono)
qed

lemma append_node_point_bytes:
  "nc_historyBytes (append_node_point uid s captured data now S) \<le> nc_historyBytes S + int (length data)"
  unfolding append_node_point_eq
  by (cases "nx_points s") (auto simp: series_bytes_def kept_node_points_def)

lemma sorted_le_last: "sorted xs \<Longrightarrow> x \<in> set xs \<Longrightarrow> x \<le> last (xs :: int list)"
  by (induction xs) auto

lemma target_ok_present:
  assumes "node_wf T S" and "mget (nc_history S) uid = Some s"
  shows "target_ok T uid s S"
proof -
  have inv: "series_inv T uid s"
    using assms by (simp add: node_wf_def)
  then have "pt_at p \<le> T" if "p \<in> set (nx_points s)" for p
    using inv that sorted_le_last [of "map pt_at (nx_points s)" "pt_at p"]
    by (auto simp: series_inv_def last_map)
  with inv assms(2) show ?thesis
    by (simp add: target_ok_def series_inv_def)
qed

lemma target_ok_new:
  "uid \<noteq> '''' \<Longrightarrow> mget (nc_history S) uid = None \<Longrightarrow>
    target_ok T uid \<lparr>nx_name = name, nx_uid = uid, nx_points = []\<rparr> S"
  by (simp add: target_ok_def)

lemma recent_append:
  assumes "recent lo S" and "lo \<le> now" and "target_ok T uid s S"
  shows "recent lo (append_node_point uid s captured data now S)"
proof -
  have "lo \<le> pt_at p" if "p \<in> set (kept_node_points s)" for p
  proof -
    have "p \<in> set (nx_points s)"
      using that by (cases "nx_points s") (auto simp: kept_node_points_def split: if_splits)
    with assms(1,3) show ?thesis
      by (cases "mget (nc_history S) uid") (auto simp: target_ok_def recent_def)
  qed
  with assms(1,2) show ?thesis
    unfolding recent_def append_node_point_eq by (auto simp: mget_mput split: if_splits)
qed

lemma append_recorded:
  "\<exists>s'. mget (nc_history (append_node_point uid s captured data now S)) uid = Some s' \<and>
    last (nx_points s') = \<lparr>pt_sourceAt = captured, pt_at = now, pt_data = data\<rparr>"
  by (simp add: append_node_point_eq mget_mput)

text \<open>What recording makes of a state in which both loops have made room.\<close>

lemma append_node_point_ok:
  assumes "node_wf T S" and "recent (now - HistoryDuration) S" and "target_ok T uid s S" and "T \<le> now"
    and "nc_historyBytes S + int (length data) \<le> int MaxHistoryBytes"
    and "mlen (nc_history S) \<le> MaxHistorySeries" and "mget (nc_history S) uid = None \<Longrightarrow> mlen (nc_history S) < MaxHistorySeries"
  shows "node_ok now (append_node_point uid s captured data now S)
    \<and> recent (now - HistoryDuration) (append_node_point uid s captured data now S)"
proof -
  have "mwf (nc_history S)"
    using assms(1) by (simp add: node_wf_def)
  then have "mlen (nc_history (append_node_point uid s captured data now S)) \<le> MaxHistorySeries"
    unfolding append_node_point_eq using assms(6,7) by (rule gm.put_within)
  moreover have "now - HistoryDuration \<le> now"
    by (simp add: HistoryDuration_def minute_def second_def)
  ultimately show ?thesis
    using append_node_point_wf [OF assms(1,3,4)] append_node_point_bytes [of uid s captured data now S] assms(5)
      recent_append [OF assms(2) _ assms(3)]
    by (simp add: node_ok_def)
qed

lemma node_record_returns:
  assumes "node_ok T S" and "T \<le> now" and "uid \<noteq> ''''" and "length data \<le> MaxObservationBytes"
  shows "\<exists>S'. node_record name uid captured data now S = Some S' \<and> node_ok now S' \<and>
    recent (now - HistoryDuration) S' \<and> nc_latest S' = nc_latest S \<and>
    (\<exists>s. mget (nc_history S') uid = Some s \<and>
      last (nx_points s) = \<lparr>pt_sourceAt = captured, pt_at = now, pt_data = data\<rparr>)"
proof -
  let ?lo = "now - HistoryDuration" and ?n = "length data"
  note pruned = node_prune_keeps [of T S now]
  have n: "?n \<le> MaxHistoryBytes"
    using assms(4) by (simp add: MaxObservationBytes_def MaxHistoryBytes_def)
  have start: "room_inv T ?lo ?n MaxHistorySeries (node_prune now S)"
    using pruned assms(1) n by (auto simp: room_inv_def node_ok_def)
  from bytes_room.returns [OF start] obtain S1 where S1: "make_room ?n now (node_prune now S) = Some S1"
    unfolding make_room_def by blast
  have inv1: "node_wf T S1" "recent ?lo S1" "mlen (nc_history S1) \<le> MaxHistorySeries"
    and fits: "nc_historyBytes S1 + int ?n \<le> int MaxHistoryBytes"
    using bytes_room.returned [OF S1 [unfolded make_room_def] start] by (auto simp: room_inv_def)
  have latest1: "nc_latest S1 = nc_latest S"
    using bytes_room.returned_frame [where frame = nc_latest, OF S1 [unfolded make_room_def]] pruned assms(1)
    by (simp add: node_ok_def)
  show ?thesis
  proof (cases "mget (nc_history S1) uid")
    case (Some s)
    have target: "target_ok T uid s S1"
      using inv1(1) Some by (rule target_ok_present)
    have "node_record name uid captured data now S = Some (append_node_point uid s captured data now S1)"
      by (simp add: node_record_def S1 Some)
    with append_node_point_ok [OF inv1(1,2) target assms(2) fits inv1(3)] append_recorded latest1 Some
    show ?thesis
      by (simp add: append_node_point_eq(3))
  next
    case None
    have start2: "series_room_inv T ?lo uid (nc_historyBytes S1) S1"
      using inv1 None by (simp add: series_room_inv_def)
    from series_room.returns [OF start2] obtain S2 where S2: "make_series_room now S1 = Some S2"
      unfolding make_series_room_def by blast
    have inv2: "node_wf T S2" "recent ?lo S2" "nc_historyBytes S2 \<le> nc_historyBytes S1"
      and room: "mlen (nc_history S2) < MaxHistorySeries" and absent: "mget (nc_history S2) uid = None"
      using series_room.returned [OF S2 [unfolded make_series_room_def] start2] by (auto simp: series_room_inv_def)
    have latest2: "nc_latest S2 = nc_latest S"
      using series_room.returned_frame [where frame = nc_latest, OF S2 [unfolded make_series_room_def]] latest1
      by simp
    have target: "target_ok T uid \<lparr>nx_name = name, nx_uid = uid, nx_points = []\<rparr> S2"
      using assms(3) absent by (rule target_ok_new)
    have fits2: "nc_historyBytes S2 + int ?n \<le> int MaxHistoryBytes"
      using fits inv2(3) by linarith
    have "node_record name uid captured data now S
        = Some (append_node_point uid \<lparr>nx_name = name, nx_uid = uid, nx_points = []\<rparr> captured data now S2)"
      by (simp add: node_record_def S1 None S2)
    with append_node_point_ok [OF inv2(1,2) target assms(2) fits2 less_imp_le [OF room] room] append_recorded latest2
    show ?thesis
      by (simp add: append_node_point_eq(3))
  qed
qed

text \<open>
  C21. Recording a Node observation always returns, whatever it has to evict: the history stays
  within its limits of series, points and bytes, its byte count stays the exact sum over the
  retained points, nothing older than the history duration is left, and the new point is the last
  one of its series.
\<close>

theorem node_history_recorded:
  assumes "node_ok T S" and "T \<le> now" and "uid \<noteq> ''''" and "length data \<le> MaxObservationBytes"
  shows "\<exists>S'. node_record name uid captured data now S = Some S' \<and> node_ok now S' \<and>
    recent (now - HistoryDuration) S' \<and>
    (\<exists>s. mget (nc_history S') uid = Some s \<and>
      last (nx_points s) = \<lparr>pt_sourceAt = captured, pt_at = now, pt_data = data\<rparr>)"
  using node_record_returns [OF assms] by blast

lemma newNodeContextStore_ok: "node_ok T newNodeContextStore"
  by (simp add: node_ok_def node_wf_def newNodeContextStore_def)

theorem node_history_recorded_witness:
  "\<exists>S'. node_record ''n'' ''u'' 5 ''abc'' 7 newNodeContextStore = Some S' \<and> node_ok 7 S' \<and>
    recent (7 - HistoryDuration) S' \<and>
    (\<exists>s. mget (nc_history S') ''u'' = Some s \<and>
      last (nx_points s) = \<lparr>pt_sourceAt = 5, pt_at = 7, pt_data = ''abc''\<rparr>)"
  by (rule node_history_recorded [OF newNodeContextStore_ok [of 6]]) (simp_all add: MaxObservationBytes_def)

subsection \<open>A complete window has no gap\<close>

lemma gaps_cover:
  "ps \<noteq> [] \<Longrightarrow> list_all (\<lambda>(p, q). f q - f p \<le> tol) (zip ps (tl ps)) \<Longrightarrow> f (hd ps) \<le> x \<Longrightarrow> x - tol \<le> f (last ps)
    \<Longrightarrow> 0 \<le> tol \<Longrightarrow> \<exists>p \<in> set ps. x - tol \<le> f p \<and> f p \<le> (x :: int)"
proof (induction ps)
  case (Cons p ps)
  show ?case
  proof (cases "ps \<noteq> [] \<and> f (hd ps) \<le> x")
    case True
    with Cons show ?thesis
      by (cases ps) auto
  next
    case False
    with Cons.prems show ?thesis
      by (cases ps) auto
  qed
qed simp

text \<open>
  A Node window reported complete is covered: every instant from the start of the window, less
  a tolerance of two collection intervals, up to now has a retained point at most that tolerance
  older, and the last point was measured at most the staleness limit ago.
\<close>

theorem complete_node_window_covered:
  assumes "completeNodeWindow series now"
    and "now - HistoryDuration + 2 * CollectionInterval \<le> x" and "x \<le> now"
  shows "(\<exists>p \<in> set (nx_points series). x - 2 * CollectionInterval \<le> pt_at p \<and> pt_at p \<le> x)
    \<and> now - pt_sourceAt (last (nx_points series)) \<le> StaleAfter"
proof -
  have tol: "min_int64 \<le> 2 * CollectionInterval" "2 * CollectionInterval < max_int64" "0 \<le> 2 * CollectionInterval"
    "min_int64 \<le> StaleAfter" "StaleAfter < max_int64"
    by (simp_all add: CollectionInterval_def StaleAfter_def second_def min_int64_def max_int64_def)
  from assms(1) have ne: "nx_points series \<noteq> []"
    by (auto simp: completeNodeWindow_def)
  with assms(1) have "list_all (\<lambda>(p, q). pt_at q - pt_at p \<le> 2 * CollectionInterval) (zip (nx_points series) (tl (nx_points series)))"
    and "pt_at (hd (nx_points series)) \<le> x" and "x - 2 * CollectionInterval \<le> pt_at (last (nx_points series))"
    and "now - pt_sourceAt (last (nx_points series)) \<le> StaleAfter"
    using assms(2,3) tol by (simp_all add: completeNodeWindow_def Let_def split: if_splits)
  with gaps_cover [OF ne, of pt_at] tol(3) show ?thesis
    by blast
qed

definition regular_series :: node_series where
  "regular_series = \<lparr>nx_name = ''n'', nx_uid = ''u'', nx_points = map (\<lambda>i.
     \<lparr>pt_sourceAt = 30000000000 * int i, pt_at = 30000000000 * int i, pt_data = ''d''\<rparr>) [0..<31]\<rparr>"

theorem complete_node_window_covered_witness:
  "(\<exists>p \<in> set (nx_points regular_series). 45000000000 - 2 * CollectionInterval \<le> pt_at p \<and> pt_at p \<le> 45000000000)
    \<and> 900000000000 - pt_sourceAt (last (nx_points regular_series)) \<le> StaleAfter"
  by (rule complete_node_window_covered)
    (simp_all add: regular_series_def completeNodeWindow_def go_simps node_limit_defs upt_rec)

end
