(* ===== verification/Collector_Store.thy ===== *)
theory Collector_Store
  imports Snapshot_Validation Pod_History Memory_Topology Volume_Context Node_Context
begin

text \<open>
  The collector's store: \<open>collector/store.go\<close>, \<open>node_identity.go\<close>, \<open>node_context.go\<close>, \<open>topology.go\<close>,
  \<open>volume_context.go\<close> and \<open>reliability.go\<close>. Every operation holds the store's mutex for its whole
  body, so an operation is one function from the state to a result and the next state; one that
  fails returns before it assigns anything, so its error carries no state. The clock \<open>s.now\<close> is an
  argument.

  The libraries the operations need (hash of a fingerprint, JSON codecs and name checks of a Node
  report, of a volume batch and of a topology report) are collected in \<open>store_lib\<close>.
\<close>

subsection \<open>State\<close>

record store_limits =
  sl_MaxNodes :: int
  sl_MaxContainers :: int

definition DefaultStoreLimits :: store_limits where
  "DefaultStoreLimits = \<lparr>sl_MaxNodes = 5000, sl_MaxContainers = 100000\<rparr>"

record node_snapshot =
  sn_uid :: string
  sn_capturedAt :: time
  sn_environment :: node_environment
  sn_containers :: "container_snapshot list"

definition snapshot_zero :: node_snapshot where
  "snapshot_zero = \<lparr>sn_uid = '''', sn_capturedAt = 0, sn_environment = env_zero, sn_containers = []\<rparr>"

record volume_entry =
  ve_uid :: string
  ve_reportedAt :: time
  ve_state :: vol_usage
  ve_current :: string
  ve_good :: string

record volume_store =
  vs_entries :: "(string, volume_entry) gomap"
  vs_bytes :: int
  vs_healthReserved :: bool
  vs_commits :: u64

definition newVolumeStore :: volume_store where
  "newVolumeStore = \<lparr>vs_entries = [], vs_bytes = 0, vs_healthReserved = False, vs_commits = 0\<rparr>"

definition CollectorReady :: string where
  "CollectorReady = ''ready''"

definition CollectorRebuilding :: string where
  "CollectorRebuilding = ''rebuilding''"

definition CollectorDegraded :: string where
  "CollectorDegraded = ''degraded''"

definition CollectorStale :: string where
  "CollectorStale = ''stale''"

record store =
  st_nodes :: "(string, node_snapshot) gomap"
  st_ingestionResults :: "(string, u64) gomap"
  st_lastIngestionDuration :: duration
  st_history :: history_store
  st_limits :: store_limits
  st_containerCount :: int
  st_startedAt :: time
  st_firstSnapshotAt :: time
  st_lastSnapshotAt :: time
  st_lastReceivedAt :: time
  st_transitionedAt :: time
  st_state :: string
  st_generation :: string
  st_expectedNodes :: "(string, unit) gomap"
  st_expectedNodeUIDs :: "(string, string) gomap"
  st_nodeContext :: node_store
  st_volumes :: volume_store
  st_nodeContextEnabled :: bool
  st_replicasEnabled :: bool
  st_inventoryKnown :: bool
  st_inventoryUpdatedAt :: time

record store_lib =
  lb_hash :: fingerprint_hash
  lb_node :: node_lib
  lb_volume :: vol_lib
  lb_topology :: topo_lib
  lb_decode :: "string \<Rightarrow> observation"

text \<open>
  The errors of the store's operations. \<open>NoReturn\<close> is not an error of the code: it stands for a
  call that does not return, and is proved impossible.
\<close>

datatype store_error =
    SnapshotOutOfOrder
  | StoreCapacity
  | NodeIdentityUnavailable
  | InvalidObservation
  | TopologyError topo_error
  | VolumeError vol_error
  | VolumeEncoding
  | NoReturn

subsection \<open>Construction\<close>

text \<open>\<open>strconv.FormatInt(n, 36)\<close>.\<close>

definition digit36 :: "nat \<Rightarrow> char" where
  "digit36 d = (if d < 10 then char_of (48 + d) else char_of (87 + d))"

fun format36 :: "nat \<Rightarrow> string" where
  "format36 n = (if n < 36 then [digit36 n] else format36 (n div 36) @ [digit36 (n mod 36)])"

declare format36.simps [simp del]

text \<open>
  \<open>UnixNano\<close> counts from 1970; the zero time is 62135596800 seconds earlier. Its value is only
  documented for times that fit 64 bits, which the start of a process does.
\<close>

definition newGeneration :: "time \<Rightarrow> string" where
  "newGeneration startedAt =
    (let n = startedAt - 62135596800 * second
     in if n < 0 then CHR ''-'' # format36 (nat (- n)) else format36 (nat n))"

definition newStore :: "history_options \<Rightarrow> store_limits \<Rightarrow> time \<Rightarrow> store" where
  "newStore historyOpts limits startedAt =
    (let limits1 = (if sl_MaxNodes limits \<le> 0 then limits\<lparr>sl_MaxNodes := sl_MaxNodes DefaultStoreLimits\<rparr> else limits);
         limits2 = (if sl_MaxContainers limits1 \<le> 0
           then limits1\<lparr>sl_MaxContainers := sl_MaxContainers DefaultStoreLimits\<rparr> else limits1)
     in \<lparr>st_nodes = [], st_ingestionResults = [], st_lastIngestionDuration = 0,
       st_history = newHistoryStore historyOpts startedAt, st_limits = limits2, st_containerCount = 0,
       st_startedAt = startedAt, st_firstSnapshotAt = 0, st_lastSnapshotAt = 0, st_lastReceivedAt = 0,
       st_transitionedAt = startedAt, st_state = CollectorRebuilding, st_generation = newGeneration startedAt,
       st_expectedNodes = [], st_expectedNodeUIDs = [], st_nodeContext = newNodeContextStore,
       st_volumes = newVolumeStore, st_nodeContextEnabled = False, st_replicasEnabled = False,
       st_inventoryKnown = False, st_inventoryUpdatedAt = 0\<rparr>)"

definition EnableNodeContext :: "store \<Rightarrow> store" where
  "EnableNodeContext s = s\<lparr>st_nodeContextEnabled := True\<rparr>"

definition EnableReplicaComparisons :: "store \<Rightarrow> store" where
  "EnableReplicaComparisons s = s\<lparr>st_replicasEnabled := True\<rparr>"

subsection \<open>Node identities\<close>

definition sharedNodeRecordsLocked :: "store \<Rightarrow> int" where
  "sharedNodeRecordsLocked s = int (mlen (st_nodes s)) +
     int (length (filter (\<lambda>node. mget (st_nodes s) node = None) (mkeys (nc_latest (st_nodeContext s)))))"

definition nodeRecordCountLocked :: "store \<Rightarrow> string \<Rightarrow> int" where
  "nodeRecordCountLocked s name =
    (if mget (st_nodes s) name \<noteq> None then 0
     else if mget (nc_latest (st_nodeContext s)) name \<noteq> None then 0
     else sharedNodeRecordsLocked s)"

definition nodeIdentityCurrentLocked :: "store \<Rightarrow> string \<Rightarrow> string \<Rightarrow> time \<Rightarrow> bool" where
  "nodeIdentityCurrentLocked s name uid now \<longleftrightarrow>
     uid \<noteq> '''' \<and> mget0 '''' (st_expectedNodeUIDs s) name = uid \<and> st_inventoryKnown s \<and>
     \<not> st_inventoryUpdatedAt s > now \<and> time_sub now (st_inventoryUpdatedAt s) \<le> StaleAfter"

definition CurrentNodeIdentities :: "store \<Rightarrow> time \<Rightarrow> (string, string) gomap option" where
  "CurrentNodeIdentities s now =
    (if \<not> st_inventoryKnown s \<or> now < st_inventoryUpdatedAt s \<or>
        time_sub now (st_inventoryUpdatedAt s) > StaleAfter then None
     else if list_ex (\<lambda>(name, uid). uid = '''') (st_expectedNodeUIDs s) then None
     else Some (st_expectedNodeUIDs s))"

subsection \<open>Volume entries\<close>

definition volume_entry_bytes :: "volume_entry \<Rightarrow> int" where
  "volume_entry_bytes e = int (length (ve_current e)) + int (length (ve_good e)) + int (length (ve_uid e)) + 1024"

definition volume_entry_zero :: volume_entry where
  "volume_entry_zero = \<lparr>ve_uid = '''', ve_reportedAt = 0, ve_state = \<lparr>us_Source = '''', us_Availability = '''',
     us_Reason = '''', us_Freshness = '''', us_Completeness = '''', us_Filesystem = None, us_LastGood = None\<rparr>,
     ve_current = '''', ve_good = ''''\<rparr>"

definition volumeUsageLimitLocked :: "volume_store \<Rightarrow> int" where
  "volumeUsageLimitLocked v = (if vs_healthReserved v then MaxRetainedBytes - MaxHealthBytes else MaxRetainedBytes)"

definition retainVolumeEntry ::
    "vol_lib \<Rightarrow> volume_entry \<Rightarrow> vol_batch option \<Rightarrow> observation \<Rightarrow> time \<Rightarrow> store_error + string" where
  "retainVolumeEntry L prior current node now =
    (case (if ve_good prior = '''' then Inr None
           else case DecodePrivate L (ve_good prior) (ve_reportedAt prior) of Inl e \<Rightarrow> Inl e | Inr b \<Rightarrow> Inr (Some b)) of
       Inl e \<Rightarrow> Inl (VolumeError e)
     | Inr previous \<Rightarrow>
        (case (case current of Some b \<Rightarrow> Inr b
           | None \<Rightarrow> NewBatch L (ob_NodeName node) (ob_NodeUID node) (ob_ReportedAt node)
               (vol_SourceState vh_Unavailable ''source-failed'') [] now) of
           Inl e \<Rightarrow> Inl (VolumeError e)
         | Inr batch \<Rightarrow>
            (case vol_Retain L previous batch now of
               Inl e \<Rightarrow> Inl (VolumeError e)
             | Inr retained \<Rightarrow> (case EncodePrivate L retained of
                 None \<Rightarrow> Inl VolumeEncoding | Some body \<Rightarrow> Inr body))))"

text \<open>The batch and the source state of a submission; \<open>raw\<close> empty means that none was sent.\<close>

definition submitted_batch ::
    "vol_lib \<Rightarrow> observation \<Rightarrow> string \<Rightarrow> time \<Rightarrow> store_error + (vol_batch option \<times> vol_usage)" where
  "submitted_batch L node raw now =
    (if raw \<noteq> '''' then
       (case DecodePrivate L raw now of
          Inl e \<Rightarrow> Inl (VolumeError e)
        | Inr b \<Rightarrow>
           if vb_nodeName b \<noteq> ob_NodeName node \<or> vb_nodeUID b \<noteq> ob_NodeUID node \<or> vb_reportedAt b \<noteq> ob_ReportedAt node
           then Inl (VolumeError VolScope) else Inr (Some b, vb_state b))
     else if ob_Availability node = cap_Unavailable then Inr (None, vol_SourceState vh_Unavailable ''source-failed'')
     else if ob_Availability node = cap_Forbidden then Inr (None, vol_SourceState vh_Forbidden ''access-denied'')
     else if ob_Availability node = cap_Unsupported then Inr (None, vol_SourceState vh_Unsupported ''unsupported'')
     else Inr (None, vol_SourceState vh_Disabled ''disabled''))"

definition prepareVolumeEntryLocked ::
    "vol_lib \<Rightarrow> volume_store \<Rightarrow> observation \<Rightarrow> string \<Rightarrow> time \<Rightarrow> store_error + volume_entry" where
  "prepareVolumeEntryLocked L v node raw now =
    (let stored = mget0 volume_entry_zero (vs_entries v) (ob_NodeName node);
         prior = (if ve_uid stored \<noteq> ob_NodeUID node then volume_entry_zero else stored)
     in if raw = '''' \<and> ve_uid prior = '''' then
          Inr (volume_entry_zero\<lparr>ve_state := vol_SourceState vh_Disabled ''disabled''\<rparr>)
        else case submitted_batch L node raw now of
          Inl e \<Rightarrow> Inl e
        | Inr (batch, state) \<Rightarrow>
           (case (case batch of None \<Rightarrow> Some '''' | Some b \<Rightarrow> EncodePrivate L b) of
              None \<Rightarrow> Inl VolumeEncoding
            | Some body \<Rightarrow>
               (case (if us_Availability state \<in> {vh_Reported, vh_Unreported, vh_Unavailable}
                      then retainVolumeEntry L prior batch node now else Inr '''') of
                  Inl e \<Rightarrow> Inl e
                | Inr good \<Rightarrow>
                   let entry = \<lparr>ve_uid = ob_NodeUID node, ve_reportedAt = ob_ReportedAt node, ve_state = state,
                         ve_current = body, ve_good = good\<rparr>;
                       oldBytes = (case mget (vs_entries v) (ob_NodeName node) of None \<Rightarrow> 0
                         | Some previous \<Rightarrow> volume_entry_bytes previous)
                   in if vs_bytes v - oldBytes + volume_entry_bytes entry > volumeUsageLimitLocked v
                      then Inl StoreCapacity else Inr entry)))"

definition deleteVolumeEntryLocked :: "string \<Rightarrow> volume_store \<Rightarrow> volume_store" where
  "deleteVolumeEntryLocked name v =
    (case mget (vs_entries v) name of None \<Rightarrow> v
     | Some old \<Rightarrow> v\<lparr>vs_bytes := vs_bytes v - volume_entry_bytes old, vs_entries := mdel name (vs_entries v)\<rparr>)"

definition commitVolumeEntryLocked :: "string \<Rightarrow> volume_entry \<Rightarrow> volume_store \<Rightarrow> volume_store" where
  "commitVolumeEntryLocked name entry v =
    (let v1 = deleteVolumeEntryLocked name v
     in if us_Availability (ve_state entry) = vh_Disabled then v1
        else v1\<lparr>vs_entries := mput name entry (vs_entries v1), vs_bytes := vs_bytes v1 + volume_entry_bytes entry,
               vs_commits := vs_commits v1 + 1\<rparr>)"

text \<open>Deleting, in a range over the entries, those that a test rejects.\<close>

definition delete_entries :: "(string \<Rightarrow> volume_entry \<Rightarrow> bool) \<Rightarrow> volume_store \<Rightarrow> volume_store" where
  "delete_entries bad v =
    fold (\<lambda>(name, entry) v. if bad name entry then deleteVolumeEntryLocked name v else v) (vs_entries v) v"

definition pruneVolumeEntriesLocked :: "time \<Rightarrow> volume_store \<Rightarrow> volume_store" where
  "pruneVolumeEntriesLocked now v = delete_entries (\<lambda>_ entry. time_sub now (ve_reportedAt entry) > vol_ExpireAfter) v"

definition ReserveVolumeHealth :: "store \<Rightarrow> store_error + store" where
  "ReserveVolumeHealth s =
    (if vs_bytes (st_volumes s) > MaxRetainedBytes - MaxHealthBytes then Inl StoreCapacity
     else Inr (s\<lparr>st_volumes := (st_volumes s)\<lparr>vs_healthReserved := True\<rparr>\<rparr>))"

definition VolumeNodeUID :: "store \<Rightarrow> string \<Rightarrow> time \<Rightarrow> string \<times> bool" where
  "VolumeNodeUID s name now =
    (let uid = mget0 '''' (st_expectedNodeUIDs s) name in (uid, nodeIdentityCurrentLocked s name uid now))"

subsection \<open>Topology entries\<close>

text \<open>
  The submitted report, or the failure report that stands for a missing one; then the entry it
  makes, with what is retained of the last good one.
\<close>

definition topology_submitted :: "topo_lib \<Rightarrow> observation \<Rightarrow> string \<Rightarrow> time \<Rightarrow> topo_error + topo_observation" where
  "topology_submitted L node raw now =
    (case (if raw = '''' then Inr (topo_Failure (ob_NodeName node) (ob_NodeUID node) (ob_ReportedAt node))
           else (case tl_unmarshal L raw of Inl e \<Rightarrow> Inl TopoInvalid | Inr ob \<Rightarrow> Inr ob)) of
       Inl e \<Rightarrow> Inl e
     | Inr current \<Rightarrow>
        if to_NodeName current \<noteq> ob_NodeName node \<or> to_NodeUID current \<noteq> ob_NodeUID node \<or>
           to_ReportedAt current \<noteq> ob_ReportedAt node then Inl TopoInvalid
        else (case topo_Validate L current now topo_FreshFor of Some e \<Rightarrow> Inl e | None \<Rightarrow> Inr current))"

definition topology_retained ::
    "topo_lib \<Rightarrow> topo_observation \<Rightarrow> topology_entry \<Rightarrow> time \<Rightarrow> store_error + topology_entry" where
  "topology_retained L current prior now =
    (case (if te_good prior = '''' then Inr None
           else (case tl_unmarshal L (te_good prior) of Inl e \<Rightarrow> Inl e | Inr ob \<Rightarrow> Inr (Some ob))) of
       Inl e \<Rightarrow> Inl (TopologyError e)
     | Inr previous \<Rightarrow>
        if (case previous of None \<Rightarrow> False | Some p \<Rightarrow> CapturedBefore current p) then Inl SnapshotOutOfOrder
        else (case topo_Retain L previous current now of
            Inl e \<Rightarrow> Inl (TopologyError e)
          | Inr good \<Rightarrow>
             (case tl_marshal L current of
                None \<Rightarrow> Inl (TopologyError TopoEncoding)
              | Some currentBytes \<Rightarrow>
                 if se_Availability (to_NUMA good) = cap_Available \<or> se_Availability (to_Pools good) = cap_Available \<or>
                    se_Availability (to_Cgroup good) = cap_Available
                 then (case tl_marshal L good of
                     None \<Rightarrow> Inl (TopologyError TopoEncoding)
                   | Some goodBytes \<Rightarrow> Inr \<lparr>te_current = currentBytes, te_good = goodBytes\<rparr>)
                 else Inr \<lparr>te_current = currentBytes, te_good = ''''\<rparr>)))"

definition prepareTopologyEntry ::
    "topo_lib \<Rightarrow> observation \<Rightarrow> string \<Rightarrow> topology_entry \<Rightarrow> time \<Rightarrow> store_error + topology_entry" where
  "prepareTopologyEntry L node raw prior now =
    (if raw = '''' \<and> (te_current prior = '''' \<or> ob_Availability node \<noteq> cap_Unavailable) then Inr topology_zero
     else case topology_submitted L node raw now of
       Inl e \<Rightarrow> Inl (TopologyError e)
     | Inr current \<Rightarrow> topology_retained L current prior now)"

subsection \<open>Node evidence\<close>

text \<open>
  The two parts of \<open>ReplaceNodeEvidence\<close>: everything that can reject the report, whose result is
  the previous entry of the Node's current identity with the prepared volume and topology entries,
  and then the assignments.
\<close>

definition evidence_checks ::
    "store_lib \<Rightarrow> time \<Rightarrow> observation \<Rightarrow> string \<Rightarrow> string \<Rightarrow> store \<Rightarrow>
      store_error + (string \<times> node_entry \<times> volume_entry \<times> topology_entry)" where
  "evidence_checks L now v volumes topology s =
    (case lib_marshal (lb_node L) v of
       None \<Rightarrow> Inl InvalidObservation
     | Some data \<Rightarrow>
        if length data > MaxObservationBytes then Inl InvalidObservation
        else if \<not> nodeIdentityCurrentLocked s (ob_NodeName v) (ob_NodeUID v) now then Inl NodeIdentityUnavailable
        else if \<not> obs_Validate (lb_node L) v now (2 * minute) (30 * second) then Inl InvalidObservation
        else
          let latest = nc_latest (st_nodeContext s);
              stored = mget0 node_entry_zero latest (ob_NodeName v);
              previous = (if ne_uid stored \<noteq> '''' \<and> ne_uid stored \<noteq> ob_NodeUID v then node_entry_zero else stored)
          in if mget latest (ob_NodeName v) = None \<and>
                nodeRecordCountLocked s (ob_NodeName v) \<ge> sl_MaxNodes (st_limits s) then Inl StoreCapacity
             else if \<not> ob_ReportedAt v > ne_reportedAt previous then Inl SnapshotOutOfOrder
             else if clock_before (observationClock v) (ne_clock previous) then Inl SnapshotOutOfOrder
             else (case prepareVolumeEntryLocked (lb_volume L) (st_volumes s) v volumes now of
                 Inl e \<Rightarrow> Inl e
               | Inr volumeEntry \<Rightarrow>
                  (case prepareTopologyEntry (lb_topology L) v topology (ne_topology previous) now of
                     Inl e \<Rightarrow> Inl e
                   | Inr topologyValue \<Rightarrow> Inr (data, previous, volumeEntry, topologyValue))))"

definition evidence_entry ::
    "time \<Rightarrow> observation \<Rightarrow> string \<Rightarrow> node_entry \<Rightarrow> topology_entry \<Rightarrow> node_entry" where
  "evidence_entry now v data previous topologyValue =
    (let entry = \<lparr>ne_topology = topologyValue, ne_uid = ob_NodeUID v, ne_report = data, ne_good = ne_good previous,
           ne_reportedAt = ob_ReportedAt v, ne_capturedAt = ne_capturedAt previous, ne_receivedAt = now,
           ne_failed = (ob_Availability v \<noteq> cap_Available),
           ne_clock = retainingMissing (observationClock v) (ne_clock previous)\<rparr>
     in case ob_Stats v of
          None \<Rightarrow> entry
        | Some _ \<Rightarrow> entry\<lparr>ne_good := data, ne_capturedAt := en_CapturedAt (ob_Evidence v)\<rparr>)"

definition ReplaceNodeEvidence ::
    "store_lib \<Rightarrow> time \<Rightarrow> observation \<Rightarrow> string \<Rightarrow> string \<Rightarrow> store \<Rightarrow> store_error + store" where
  "ReplaceNodeEvidence L now v volumes topology s =
    (case evidence_checks L now v volumes topology s of
       Inl e \<Rightarrow> Inl e
     | Inr (data, previous, volumeEntry, topologyValue) \<Rightarrow>
        let entry = evidence_entry now v data previous topologyValue
        in case (if ob_Stats v \<noteq> None \<and> newMeasurements (observationClock v) (ne_clock previous)
                 then node_record (ob_NodeName v) (ob_NodeUID v) (ne_capturedAt entry) data now (st_nodeContext s)
                 else Some (st_nodeContext s)) of
             None \<Rightarrow> Inl NoReturn
           | Some context \<Rightarrow> Inr (s\<lparr>
               st_nodeContext := context\<lparr>nc_latest := mput (ob_NodeName v) entry (nc_latest context)\<rparr>,
               st_volumes := commitVolumeEntryLocked (ob_NodeName v) volumeEntry (st_volumes s)\<rparr>))"

subsection \<open>Container snapshots\<close>

definition nodeEvidencePartial :: "node_snapshot \<Rightarrow> bool" where
  "nodeEvidencePartial sn \<longleftrightarrow>
    (let env = sn_environment sn in
     env_CgroupReadErrors env > 0 \<or> env_WorkloadContextErrors env > 0 \<or> \<not> env_NodeContextAvailable env \<or>
     \<not> env_WorkloadContextAvailable env \<or>
     list_ex (\<lambda>c. cs_Namespace c = '''' \<or> cs_PodName c = '''' \<or> cs_ContainerName c = '''') (sn_containers sn))"

definition nodeCompleteness :: "node_snapshot \<Rightarrow> string" where
  "nodeCompleteness sn = (if nodeEvidencePartial sn then EvidencePartial else EvidenceComplete)"

text \<open>One container of the loop: the delta window is known when the same instance was in the previous snapshot.\<close>

definition store_container ::
    "agent_snapshot \<Rightarrow> node_snapshot \<Rightarrow> (string, container_snapshot) gomap \<Rightarrow> container_snapshot \<Rightarrow> container_snapshot"
  where
  "store_container sn previousNode previousByContainer c0 =
    (let c = c0\<lparr>cs_CapturedAt := as_CapturedAt sn, cs_NodeName := as_NodeName sn, cs_DeltaStartedAt := 0,
           cs_DeltaWindowKnown := False\<rparr>;
         previous = mget0 container_zero previousByContainer (cs_ContainerID c);
         ok = (mget previousByContainer (cs_ContainerID c) \<noteq> None \<and> sameContainerInstance c previous);
         c1 = c\<lparr>cs_Memory := WithEventDeltas (cs_Memory c) (cs_Memory previous) ok\<rparr>
     in if ok then c1\<lparr>cs_DeltaStartedAt := sn_capturedAt previousNode, cs_DeltaWindowKnown := True\<rparr> else c1)"

definition store_containers :: "agent_snapshot \<Rightarrow> node_snapshot \<Rightarrow> container_snapshot list" where
  "store_containers sn previousNode =
    (let previousByContainer = fold (\<lambda>c m. mput (cs_ContainerID c) c m) (sn_containers previousNode) []
     in map (store_container sn previousNode previousByContainer) (as_Containers sn))"

definition ReplaceAuthenticatedNodeSnapshot ::
    "store_lib \<Rightarrow> time \<Rightarrow> agent_snapshot \<Rightarrow> string \<Rightarrow> store \<Rightarrow> store_error + (nat \<times> store)" where
  "ReplaceAuthenticatedNodeSnapshot L now sn uid s =
    (if as_NodeContext sn \<noteq> None \<or> as_VolumeBatch sn \<noteq> '''' \<or> as_Topology sn \<noteq> '''' then Inl InvalidObservation
     else
       let name = as_NodeName sn; expected = mget0 '''' (st_expectedNodeUIDs s) name in
       if uid \<noteq> '''' \<and> expected \<noteq> '''' \<and> expected \<noteq> uid then Inl NodeIdentityUnavailable
       else
         let stored = mget0 snapshot_zero (st_nodes s) name in
         if is_zero_time (sn_capturedAt stored) \<and> nodeRecordCountLocked s name \<ge> sl_MaxNodes (st_limits s)
         then Inl StoreCapacity
         else
           let projected = st_containerCount s - int (length (sn_containers stored)) + int (length (as_Containers sn)) in
           if projected > sl_MaxContainers (st_limits s) then Inl StoreCapacity
           else
             let previousNode = (if uid \<noteq> '''' \<and> sn_uid stored \<noteq> '''' \<and> uid \<noteq> sn_uid stored then snapshot_zero else stored) in
             if \<not> is_zero_time (sn_capturedAt previousNode) \<and> as_CapturedAt sn < sn_capturedAt previousNode
             then Inl SnapshotOutOfOrder
             else if \<not> is_zero_time (sn_capturedAt previousNode) \<and> as_CapturedAt sn = sn_capturedAt previousNode
             then Inr (length (sn_containers previousNode), s)
             else
               let containers = store_containers sn previousNode;
                   newSnapshot = \<lparr>sn_uid = uid, sn_capturedAt = as_CapturedAt sn, sn_environment = as_Environment sn,
                     sn_containers = containers\<rparr>;
                   s1 = s\<lparr>st_nodes := mput name newSnapshot (st_nodes s), st_containerCount := projected,
                     st_firstSnapshotAt := (if is_zero_time (st_firstSnapshotAt s) \<or> as_CapturedAt sn < st_firstSnapshotAt s
                       then as_CapturedAt sn else st_firstSnapshotAt s),
                     st_lastSnapshotAt := (if as_CapturedAt sn > st_lastSnapshotAt s then as_CapturedAt sn else st_lastSnapshotAt s),
                     st_lastReceivedAt := now\<rparr>;
                   historyUID = (if st_replicasEnabled s \<and> nodeCompleteness newSnapshot = EvidenceComplete then uid else '''')
               in Inr (length containers,
                   s1\<lparr>st_history := history_record (lb_hash L) (as_CapturedAt sn) containers historyUID (st_history s1)\<rparr>))"

definition ReplaceNodeSnapshot ::
    "store_lib \<Rightarrow> time \<Rightarrow> agent_snapshot \<Rightarrow> store \<Rightarrow> store_error + (nat \<times> store)" where
  "ReplaceNodeSnapshot L now sn s = ReplaceAuthenticatedNodeSnapshot L now sn '''' s"

subsection \<open>The Node inventory\<close>

text \<open>Which of the stored snapshots a new inventory deletes.\<close>

definition snapshot_disowned :: "(string, string) gomap \<Rightarrow> (string, string) gomap \<Rightarrow> string \<Rightarrow> node_snapshot \<Rightarrow> bool" where
  "snapshot_disowned uids expectedUIDs name sn \<longleftrightarrow>
    (case mget uids name of None \<Rightarrow> True
     | Some uid \<Rightarrow> mget0 '''' expectedUIDs name \<noteq> '''' \<and> mget0 '''' expectedUIDs name \<noteq> uid)"

definition delete_snapshot :: "(string, string) gomap \<Rightarrow> string \<times> node_snapshot \<Rightarrow> store \<Rightarrow> store" where
  "delete_snapshot uids entry s =
    (let (name, sn) = entry in
     if snapshot_disowned uids (st_expectedNodeUIDs s) name sn
     then s\<lparr>st_containerCount := st_containerCount s - int (length (sn_containers sn)), st_nodes := mdel name (st_nodes s)\<rparr>
     else s)"

definition ReconcileNodeIdentities :: "(string, string) gomap \<Rightarrow> time \<Rightarrow> store \<Rightarrow> store_error + store" where
  "ReconcileNodeIdentities identities observedAt s =
    (if int (mlen identities) > sl_MaxNodes (st_limits s) then Inl StoreCapacity
     else if observedAt < st_inventoryUpdatedAt s then Inl SnapshotOutOfOrder
     else
       let uids = mkeep (\<lambda>name _. name \<noteq> '''') identities;
           expected = map (\<lambda>(name, _). (name, ())) uids;
           s1 = fold (delete_snapshot uids) (st_nodes s) s;
           context = st_nodeContext s1;
           s2 = s1\<lparr>st_nodeContext := context\<lparr>nc_latest :=
             mkeep (\<lambda>name v. mget0 '''' uids name = ne_uid v) (nc_latest context)\<rparr>\<rparr>;
           v1 = delete_entries (\<lambda>name entry. mget0 '''' uids name \<noteq> ve_uid entry) (st_volumes s2)
       in Inr (s2\<lparr>st_volumes := pruneVolumeEntriesLocked observedAt v1, st_expectedNodes := expected,
           st_expectedNodeUIDs := uids, st_inventoryKnown := True, st_inventoryUpdatedAt := observedAt\<rparr>))"

definition ReconcileExpectedNodes :: "string list \<Rightarrow> time \<Rightarrow> store \<Rightarrow> store_error + store" where
  "ReconcileExpectedNodes names observedAt s =
    ReconcileNodeIdentities (fold (\<lambda>name m. if name \<noteq> '''' then mput name '''' m else m) names []) observedAt s"

end
