(* ===== verification/Store_Invariant.thy ===== *)
theory Store_Invariant
  imports Collector_Store Step_Systems
begin

text \<open>
  The invariant of the store. Its counters are exact: \<open>containerCount\<close> is the number of stored
  containers and \<open>volumes.bytes\<close> the size of the stored entries; and the capacity limits hold. Every
  operation keeps it, so it holds in every state the store can reach, whatever it is sent.
\<close>

subsection \<open>Counting Nodes\<close>

definition node_names :: "store \<Rightarrow> string set" where
  "node_names s = dom (mget (st_nodes s)) \<union> dom (mget (nc_latest (st_nodeContext s)))"

lemma length_filter_mkeys:
  assumes "mwf m"
  shows "length (filter P (mkeys m)) = card {k \<in> dom (mget m). P k}"
proof -
  have "distinct (filter P (mkeys m))"
    using assms by (simp add: mwf_def mkeys_def)
  from distinct_card [OF this] show ?thesis
    by (simp add: dom_mget mkeys_def Collect_conj_eq Int_commute inf_set_def)
qed

lemma sharedNodeRecords_card:
  assumes "mwf (st_nodes s)" and "mwf (nc_latest (st_nodeContext s))"
  shows "sharedNodeRecordsLocked s = int (card (node_names s))"
proof -
  let ?N = "dom (mget (st_nodes s))" and ?L = "dom (mget (nc_latest (st_nodeContext s)))"
  have "sharedNodeRecordsLocked s = int (card ?N) + int (card (?L - ?N))"
    using assms by (simp add: sharedNodeRecordsLocked_def length_filter_mkeys mlen_card set_diff_eq domIff)
  also have "\<dots> = int (card (?N \<union> ?L))"
    using card_Un_disjoint [of ?N "?L - ?N"] by (simp add: Int_Diff Un_Diff_cancel)
  finally show ?thesis
    by (simp add: node_names_def)
qed

subsection \<open>The invariant\<close>

definition containers_of :: "node_snapshot \<Rightarrow> int" where
  "containers_of sn = int (length (sn_containers sn))"

definition volume_ok :: "volume_store \<Rightarrow> bool" where
  "volume_ok v \<longleftrightarrow> mwf (vs_entries v) \<and> vs_bytes v = msum volume_entry_bytes (vs_entries v) \<and>
     vs_bytes v \<le> volumeUsageLimitLocked v"

definition entries_ok :: "(string, node_entry) gomap \<Rightarrow> bool" where
  "entries_ok m \<longleftrightarrow> mwf m \<and> (\<forall>name e. mget m name = Some e \<longrightarrow> ne_uid e \<noteq> '''' \<and> length (ne_clock e) = 16)"

definition counts_ok :: "store \<Rightarrow> bool" where
  "counts_ok s \<longleftrightarrow> mwf (st_nodes s) \<and> st_containerCount s = msum containers_of (st_nodes s) \<and>
     st_containerCount s \<le> sl_MaxContainers (st_limits s) \<and> int (card (node_names s)) \<le> sl_MaxNodes (st_limits s)"

definition store_inv :: "time \<Rightarrow> store \<Rightarrow> bool" where
  "store_inv T s \<longleftrightarrow> counts_ok s \<and> entries_ok (nc_latest (st_nodeContext s)) \<and> node_ok T (st_nodeContext s) \<and>
     volume_ok (st_volumes s) \<and> history_wf (st_history s) \<and> history_opts_ok (hs_opts (st_history s))"

lemma volume_entry_bytes_nonneg [simp]: "0 \<le> volume_entry_bytes e"
  by (simp add: volume_entry_bytes_def)

lemma deleteVolumeEntry_ok:
  assumes "volume_ok v"
  shows "volume_ok (deleteVolumeEntryLocked name v)"
    and "vs_bytes (deleteVolumeEntryLocked name v) = vs_bytes v -
      (case mget (vs_entries v) name of None \<Rightarrow> 0 | Some old \<Rightarrow> volume_entry_bytes old)"
    and "vs_healthReserved (deleteVolumeEntryLocked name v) = vs_healthReserved v"
    and "mget (vs_entries (deleteVolumeEntryLocked name v)) k = (if k = name then None else mget (vs_entries v) k)"
  using assms volume_entry_bytes_nonneg
  by (auto simp: volume_ok_def deleteVolumeEntryLocked_def volumeUsageLimitLocked_def gomap_simps account_simps
      split: option.splits intro: order_trans [rotated])

lemma commitVolumeEntry_ok:
  assumes "volume_ok v"
    and "vs_bytes v - (case mget (vs_entries v) name of None \<Rightarrow> 0 | Some old \<Rightarrow> volume_entry_bytes old)
      + volume_entry_bytes entry \<le> volumeUsageLimitLocked v \<or> us_Availability (ve_state entry) = vh_Disabled"
  shows "volume_ok (commitVolumeEntryLocked name entry v)"
proof (cases "us_Availability (ve_state entry) = vh_Disabled")
  case True
  then show ?thesis
    by (simp add: commitVolumeEntryLocked_def deleteVolumeEntry_ok [OF assms(1)])
next
  case False
  note del = deleteVolumeEntry_ok [OF assms(1), of name]
  from False show ?thesis
    using del(1) assms(2) del(2-4)
    by (simp add: commitVolumeEntryLocked_def Let_def volume_ok_def volumeUsageLimitLocked_def gomap_simps account_simps)
qed

lemma prepareVolumeEntry_fits:
  assumes "prepareVolumeEntryLocked L v node raw now = Inr entry"
  shows "vs_bytes v - (case mget (vs_entries v) (ob_NodeName node) of None \<Rightarrow> 0 | Some old \<Rightarrow> volume_entry_bytes old)
      + volume_entry_bytes entry \<le> volumeUsageLimitLocked v \<or> us_Availability (ve_state entry) = vh_Disabled"
  using assms
  by (auto simp: prepareVolumeEntryLocked_def Let_def vol_SourceState_def not_less split: if_splits sum.splits option.splits)

lemma delete_entries_ok:
  assumes "volume_ok v"
  shows "volume_ok (delete_entries bad v)"
    and "mget (vs_entries (delete_entries bad v)) k =
      (case mget (vs_entries v) k of None \<Rightarrow> None | Some e \<Rightarrow> if bad k e then None else Some e)"
proof -
  have wf: "mwf (vs_entries v)"
    using assms by (simp add: volume_ok_def)
  have "volume_ok (delete_entries bad v) \<and> (\<forall>j. mget (vs_entries (delete_entries bad v)) j =
      (case map_of (vs_entries v) j of None \<Rightarrow> mget (vs_entries v) j | Some e \<Rightarrow> if bad j e then None else Some e))"
    unfolding delete_entries_def
    by (rule range_fold [where get = "\<lambda>v. mget (vs_entries v)"])
      (use assms wf in \<open>auto simp: mwf_def mget_def [symmetric] mget_in_iff deleteVolumeEntry_ok split: if_splits\<close>)
  then show "volume_ok (delete_entries bad v)"
    and "mget (vs_entries (delete_entries bad v)) k =
      (case mget (vs_entries v) k of None \<Rightarrow> None | Some e \<Rightarrow> if bad k e then None else Some e)"
    by (auto simp: mget_def split: option.splits)
qed

subsection \<open>A container snapshot\<close>

lemma length_store_containers [simp]: "length (store_containers sn prev) = length (as_Containers sn)"
  by (simp add: store_containers_def Let_def)

text \<open>What a successful replacement did: nothing, for a snapshot it already holds, or the whole step.\<close>

definition snapshot_step :: "store_lib \<Rightarrow> time \<Rightarrow> agent_snapshot \<Rightarrow> string \<Rightarrow> node_snapshot \<Rightarrow> store \<Rightarrow> store" where
  "snapshot_step L now sn uid previousNode s =
    (let containers = store_containers sn previousNode;
         newSnapshot = \<lparr>sn_uid = uid, sn_capturedAt = as_CapturedAt sn, sn_environment = as_Environment sn,
           sn_containers = containers\<rparr>
     in s\<lparr>st_nodes := mput (as_NodeName sn) newSnapshot (st_nodes s),
          st_containerCount := st_containerCount s - containers_of (mget0 snapshot_zero (st_nodes s) (as_NodeName sn))
            + int (length (as_Containers sn)),
          st_firstSnapshotAt := (if st_firstSnapshotAt s = 0 \<or> as_CapturedAt sn < st_firstSnapshotAt s
            then as_CapturedAt sn else st_firstSnapshotAt s),
          st_lastSnapshotAt := (if as_CapturedAt sn > st_lastSnapshotAt s then as_CapturedAt sn else st_lastSnapshotAt s),
          st_lastReceivedAt := now,
          st_history := history_record (lb_hash L) (as_CapturedAt sn) containers
            (if st_replicasEnabled s \<and> nodeCompleteness newSnapshot = EvidenceComplete then uid else '''') (st_history s)\<rparr>)"

definition previous_snapshot :: "string \<Rightarrow> node_snapshot \<Rightarrow> node_snapshot" where
  "previous_snapshot uid stored = (if uid \<noteq> '''' \<and> sn_uid stored \<noteq> '''' \<and> uid \<noteq> sn_uid stored then snapshot_zero else stored)"

lemma ReplaceSnapshot_guards:
  "ReplaceAuthenticatedNodeSnapshot L now sn uid s =
    (let stored = mget0 snapshot_zero (st_nodes s) (as_NodeName sn);
         previous = previous_snapshot uid stored;
         expected = mget0 '''' (st_expectedNodeUIDs s) (as_NodeName sn)
     in if as_NodeContext sn \<noteq> None \<or> as_VolumeBatch sn \<noteq> '''' \<or> as_Topology sn \<noteq> '''' then Inl InvalidObservation
        else if uid \<noteq> '''' \<and> expected \<noteq> '''' \<and> expected \<noteq> uid then Inl NodeIdentityUnavailable
        else if sn_capturedAt stored = 0 \<and> nodeRecordCountLocked s (as_NodeName sn) \<ge> sl_MaxNodes (st_limits s)
          then Inl StoreCapacity
        else if st_containerCount s - containers_of stored + int (length (as_Containers sn)) > sl_MaxContainers (st_limits s)
          then Inl StoreCapacity
        else if sn_capturedAt previous \<noteq> 0 \<and> as_CapturedAt sn < sn_capturedAt previous then Inl SnapshotOutOfOrder
        else if sn_capturedAt previous \<noteq> 0 \<and> as_CapturedAt sn = sn_capturedAt previous
          then Inr (length (sn_containers previous), s)
        else Inr (length (as_Containers sn), snapshot_step L now sn uid previous s))"
  by (simp add: ReplaceAuthenticatedNodeSnapshot_def snapshot_step_def previous_snapshot_def containers_of_def Let_def
      split del: if_split cong: if_cong)

text \<open>The cases in which a snapshot is accepted, with the guards that held.\<close>

lemma ReplaceSnapshot_cases:
  assumes "ReplaceAuthenticatedNodeSnapshot L now sn uid s = Inr (n, s')"
  obtains (held) "n = length (sn_containers (mget0 snapshot_zero (st_nodes s) (as_NodeName sn)))" "s' = s"
      "as_CapturedAt sn = sn_capturedAt (mget0 snapshot_zero (st_nodes s) (as_NodeName sn))"
  | (stored) "n = length (as_Containers sn)"
      "s' = snapshot_step L now sn uid (previous_snapshot uid (mget0 snapshot_zero (st_nodes s) (as_NodeName sn))) s"
      "sn_capturedAt (mget0 snapshot_zero (st_nodes s) (as_NodeName sn)) = 0 \<Longrightarrow>
        nodeRecordCountLocked s (as_NodeName sn) < sl_MaxNodes (st_limits s)"
      "st_containerCount s - containers_of (mget0 snapshot_zero (st_nodes s) (as_NodeName sn))
        + int (length (as_Containers sn)) \<le> sl_MaxContainers (st_limits s)"
      "sn_capturedAt (previous_snapshot uid (mget0 snapshot_zero (st_nodes s) (as_NodeName sn))) = 0 \<or>
        sn_capturedAt (previous_snapshot uid (mget0 snapshot_zero (st_nodes s) (as_NodeName sn))) < as_CapturedAt sn"
      "uid = '''' \<or> mget0 '''' (st_expectedNodeUIDs s) (as_NodeName sn) \<in> {'''', uid}"
proof -
  let ?stored = "mget0 snapshot_zero (st_nodes s) (as_NodeName sn)"
  let ?previous = "previous_snapshot uid ?stored"
  show thesis
  proof (cases "sn_capturedAt ?previous \<noteq> 0 \<and> as_CapturedAt sn = sn_capturedAt ?previous")
    case True
    then have "?previous = ?stored"
      by (auto simp: previous_snapshot_def snapshot_zero_def)
    with True assms show ?thesis
      by (intro held) (auto simp add: ReplaceSnapshot_guards Let_def split: if_splits)
  next
    case False
    note guards = assms [unfolded ReplaceSnapshot_guards Let_def]
    show ?thesis
    proof (rule stored)
      show "n = length (as_Containers sn)" "s' = snapshot_step L now sn uid ?previous s"
        using guards False by (simp_all split: if_splits)
      show "sn_capturedAt ?previous = 0 \<or> sn_capturedAt ?previous < as_CapturedAt sn"
        using guards False by (auto split: if_splits)
      show "uid = '''' \<or> mget0 '''' (st_expectedNodeUIDs s) (as_NodeName sn) \<in> {'''', uid}"
        using guards by (simp split: if_splits)
    qed (use guards in \<open>simp_all split: if_splits\<close>)
  qed
qed

lemma containers_of_nonneg [simp]: "0 \<le> containers_of sn"
  by (simp add: containers_of_def)

lemma card_insert_name:
  assumes "mwf (st_nodes s)" and "mwf (nc_latest (st_nodeContext s))"
    and "int (card (node_names s)) \<le> sl_MaxNodes (st_limits s)"
    and "name \<notin> node_names s \<Longrightarrow> nodeRecordCountLocked s name < sl_MaxNodes (st_limits s)"
  shows "int (card (insert name (node_names s))) \<le> sl_MaxNodes (st_limits s)"
proof (cases "name \<in> node_names s")
  case False
  then have "nodeRecordCountLocked s name = int (card (node_names s))"
    using assms(1,2) by (auto simp: nodeRecordCountLocked_def node_names_def sharedNodeRecords_card)
  with assms(4) False show ?thesis
    by (simp add: card_insert_if node_names_def)
qed (use assms(3) in \<open>simp add: insert_absorb\<close>)

lemma snapshot_step_counts:
  assumes "counts_ok s" and "mwf (nc_latest (st_nodeContext s))"
    and "as_NodeName sn \<notin> node_names s \<Longrightarrow> nodeRecordCountLocked s (as_NodeName sn) < sl_MaxNodes (st_limits s)"
    and "st_containerCount s - containers_of (mget0 snapshot_zero (st_nodes s) (as_NodeName sn))
        + int (length (as_Containers sn)) \<le> sl_MaxContainers (st_limits s)"
  shows "counts_ok (snapshot_step L now sn uid prev s)"
proof -
  have "node_names (snapshot_step L now sn uid prev s) = insert (as_NodeName sn) (node_names s)"
    by (simp add: node_names_def snapshot_step_def Let_def dom_mput)
  moreover have "containers_of (mget0 snapshot_zero (st_nodes s) (as_NodeName sn)) =
      (case mget (st_nodes s) (as_NodeName sn) of None \<Rightarrow> 0 | Some w \<Rightarrow> containers_of w)"
    by (simp add: mget0_def containers_of_def snapshot_zero_def split: option.split)
  ultimately show ?thesis
    using assms card_insert_name [of s "as_NodeName sn"]
    by (simp add: counts_ok_def) (simp add: snapshot_step_def Let_def gomap_simps account_simps containers_of_def)
qed

lemma snapshot_step_frame:
  "st_nodeContext (snapshot_step L now sn uid prev s) = st_nodeContext s"
  "st_volumes (snapshot_step L now sn uid prev s) = st_volumes s"
  "st_limits (snapshot_step L now sn uid prev s) = st_limits s"
  "hs_opts (st_history (snapshot_step L now sn uid prev s)) = hs_opts (st_history s)"
  by (simp_all add: snapshot_step_def Let_def)

lemma ReplaceSnapshot_inv:
  assumes "store_inv T s" and "ReplaceAuthenticatedNodeSnapshot L now sn uid s = Inr (n, s')"
  shows "store_inv T s'"
  using assms(2)
proof (cases rule: ReplaceSnapshot_cases)
  case held
  with assms(1) show ?thesis
    by simp
next
  case stored
  have absent: "as_NodeName sn \<notin> node_names s \<Longrightarrow> sn_capturedAt (mget0 snapshot_zero (st_nodes s) (as_NodeName sn)) = 0"
    by (auto simp: node_names_def mget0_def snapshot_zero_def split: option.splits)
  have "counts_ok s'"
    unfolding stored(2)
    using assms(1) stored(3) [OF absent] stored(4) by (intro snapshot_step_counts) (auto simp: store_inv_def entries_ok_def)
  moreover have "history_wf (st_history s')"
    using assms(1) unfolding stored(2)
    by (auto simp: store_inv_def snapshot_step_def Let_def history_opts_ok_def intro: history_wf_record)
  ultimately show ?thesis
    using assms(1) unfolding store_inv_def stored(2) snapshot_step_frame by blast
qed

subsection \<open>Node evidence\<close>

lemma evidence_checks_Inr:
  assumes "evidence_checks L now v volumes topology s = Inr (data, previous, entry, topo)"
  shows "lib_marshal (lb_node L) v = Some data" and "length data \<le> MaxObservationBytes"
    and "nodeIdentityCurrentLocked s (ob_NodeName v) (ob_NodeUID v) now"
    and "obs_Validate (lb_node L) v now (2 * minute) (30 * second)"
    and "mget (nc_latest (st_nodeContext s)) (ob_NodeName v) = None \<Longrightarrow>
      nodeRecordCountLocked s (ob_NodeName v) < sl_MaxNodes (st_limits s)"
    and "previous = (let stored = mget0 node_entry_zero (nc_latest (st_nodeContext s)) (ob_NodeName v)
      in if ne_uid stored \<noteq> '''' \<and> ne_uid stored \<noteq> ob_NodeUID v then node_entry_zero else stored)"
    and "ne_reportedAt previous < ob_ReportedAt v"
    and "\<not> clock_before (observationClock v) (ne_clock previous)"
    and "prepareVolumeEntryLocked (lb_volume L) (st_volumes s) v volumes now = Inr entry"
    and "prepareTopologyEntry (lb_topology L) v topology (ne_topology previous) now = Inr topo"
  using assms by (auto simp: evidence_checks_def Let_def split: option.splits if_splits sum.splits)

lemma previous_entry_clock:
  assumes "entries_ok m"
  shows "length (ne_clock (let stored = mget0 node_entry_zero m name
    in if ne_uid stored \<noteq> '''' \<and> ne_uid stored \<noteq> uid then node_entry_zero else stored)) = 16"
  using assms by (auto simp: Let_def entries_ok_def mget0_def node_entry_zero_def zero_clock_def split: option.split)

lemma evidence_entry_fields [simp]:
  "ne_uid (evidence_entry now v data previous topo) = ob_NodeUID v"
  "ne_reportedAt (evidence_entry now v data previous topo) = ob_ReportedAt v"
  "ne_clock (evidence_entry now v data previous topo) = retainingMissing (observationClock v) (ne_clock previous)"
  "ne_report (evidence_entry now v data previous topo) = data"
  by (simp_all add: evidence_entry_def Let_def split: option.split)

text \<open>The state after an accepted report, up to the Node history it leaves.\<close>

lemma ReplaceNodeEvidence_Inr:
  assumes "ReplaceNodeEvidence L now v volumes topology s = Inr s'"
  obtains data previous entry topo held where
    "evidence_checks L now v volumes topology s = Inr (data, previous, entry, topo)"
    and "held = st_nodeContext s \<or>
      node_record (ob_NodeName v) (ob_NodeUID v) (ne_capturedAt (evidence_entry now v data previous topo)) data now
        (st_nodeContext s) = Some held"
    and "s' = s\<lparr>st_nodeContext := held\<lparr>nc_latest := mput (ob_NodeName v)
          (evidence_entry now v data previous topo) (nc_latest held)\<rparr>,
        st_volumes := commitVolumeEntryLocked (ob_NodeName v) entry (st_volumes s)\<rparr>"
  using assms that
  by (fastforce simp: ReplaceNodeEvidence_def Let_def split: sum.splits prod.splits option.splits if_splits)

lemma node_ok_latest [simp]: "node_ok T (c\<lparr>nc_latest := m\<rparr>) = node_ok T c"
  by (simp add: node_ok_def node_wf_def)

lemma ReplaceNodeEvidence_context:
  assumes "store_inv T s" and "T \<le> now" and "evidence_checks L now v volumes topology s = Inr (data, previous, entry, topo)"
    and "held = st_nodeContext s \<or> node_record (ob_NodeName v) (ob_NodeUID v) captured data now (st_nodeContext s) = Some held"
  shows "node_ok now held" and "nc_latest held = nc_latest (st_nodeContext s)"
proof -
  have ok: "node_ok T (st_nodeContext s)"
    using assms(1) by (simp add: store_inv_def)
  have uid: "ob_NodeUID v \<noteq> ''''"
    using evidence_checks_Inr(3) [OF assms(3)] by (simp add: nodeIdentityCurrentLocked_def)
  note rec = node_record_returns [OF ok assms(2) uid evidence_checks_Inr(2) [OF assms(3)], of "ob_NodeName v" captured]
  have "node_ok now (st_nodeContext s)"
    using ok node_wf_mono [OF _ assms(2)] by (simp add: node_ok_def)
  with rec assms(4) show "node_ok now held" and "nc_latest held = nc_latest (st_nodeContext s)"
    by auto
qed

lemma ReplaceNodeEvidence_inv:
  assumes "store_inv T s" and "T \<le> now" and "ReplaceNodeEvidence L now v volumes topology s = Inr s'"
  shows "store_inv now s'"
  using assms(3)
proof (rule ReplaceNodeEvidence_Inr)
  fix data previous entry topo held
  assume checks: "evidence_checks L now v volumes topology s = Inr (data, previous, entry, topo)"
    and held: "held = st_nodeContext s \<or>
      node_record (ob_NodeName v) (ob_NodeUID v) (ne_capturedAt (evidence_entry now v data previous topo)) data now
        (st_nodeContext s) = Some held"
    and s': "s' = s\<lparr>st_nodeContext := held\<lparr>nc_latest := mput (ob_NodeName v)
          (evidence_entry now v data previous topo) (nc_latest held)\<rparr>,
        st_volumes := commitVolumeEntryLocked (ob_NodeName v) entry (st_volumes s)\<rparr>"
  note ctx = ReplaceNodeEvidence_context [OF assms(1,2) checks held]
  note facts = evidence_checks_Inr [OF checks]
  have wf: "mwf (st_nodes s)" "entries_ok (nc_latest (st_nodeContext s))" "counts_ok s" "volume_ok (st_volumes s)"
    using assms(1) by (simp_all add: store_inv_def counts_ok_def)
  have names: "node_names s' = insert (ob_NodeName v) (node_names s)"
    by (auto simp: node_names_def s' ctx(2) dom_mput)
  have "int (card (node_names s')) \<le> sl_MaxNodes (st_limits s)"
    unfolding names using wf facts(5)
    by (intro card_insert_name) (auto simp: entries_ok_def counts_ok_def node_names_def)
  with wf(3) have "counts_ok s'"
    by (simp add: counts_ok_def) (simp add: s')
  moreover have "ob_NodeUID v \<noteq> ''''"
    using facts(3) by (simp add: nodeIdentityCurrentLocked_def)
  then have "entries_ok (nc_latest (st_nodeContext s'))"
    using wf(2) previous_entry_clock [OF wf(2)] unfolding s' by (auto simp: ctx(2) entries_ok_def gomap_simps facts(6))
  moreover have "volume_ok (st_volumes s')"
    unfolding s' using commitVolumeEntry_ok [OF wf(4) prepareVolumeEntry_fits [OF facts(9)]] by simp
  ultimately show ?thesis
    using assms(1) ctx(1) by (simp add: store_inv_def) (simp add: s')
qed

text \<open>The loops inside the operation always make room, so the call returns.\<close>

lemma returns_if: "a \<noteq> Inl NoReturn \<Longrightarrow> b \<noteq> Inl NoReturn \<Longrightarrow> (if c then a else b) \<noteq> Inl NoReturn"
  by simp

lemma returns_sum:
  "(\<And>e. f e \<noteq> Inl NoReturn) \<Longrightarrow> (\<And>x. g x \<noteq> Inl NoReturn) \<Longrightarrow> (case r of Inl e \<Rightarrow> f e | Inr x \<Rightarrow> g x) \<noteq> Inl NoReturn"
  by (simp split: sum.split)

lemma returns_option:
  "f \<noteq> Inl NoReturn \<Longrightarrow> (\<And>x. g x \<noteq> Inl NoReturn) \<Longrightarrow> (case r of None \<Rightarrow> f | Some x \<Rightarrow> g x) \<noteq> Inl NoReturn"
  by (simp split: option.split)

lemmas returns_intros = returns_if returns_sum returns_option

lemma prepareVolumeEntry_returns: "prepareVolumeEntryLocked L v node raw now \<noteq> Inl NoReturn"
proof -
  have batch: "submitted_batch L node raw now \<noteq> Inl NoReturn"
    unfolding submitted_batch_def by (intro returns_intros) simp_all
  have retain: "retainVolumeEntry L prior current node now \<noteq> Inl NoReturn" for prior current
    unfolding retainVolumeEntry_def by (intro returns_intros) simp_all
  show ?thesis
    unfolding prepareVolumeEntryLocked_def Let_def
    using batch retain by (auto split: sum.split option.split prod.split)
qed

lemma prepareTopologyEntry_returns: "prepareTopologyEntry L node raw prior now \<noteq> Inl NoReturn"
proof -
  have "topology_retained L current prior now \<noteq> Inl NoReturn" for current
    unfolding topology_retained_def by (intro returns_intros) simp_all
  then show ?thesis
    unfolding prepareTopologyEntry_def by (intro returns_intros) simp_all
qed

lemma evidence_checks_returns: "evidence_checks L now v volumes topology s \<noteq> Inl NoReturn"
  using prepareVolumeEntry_returns prepareTopologyEntry_returns
  by (auto simp: evidence_checks_def Let_def split: sum.split option.split)

lemma ReplaceNodeEvidence_returns:
  assumes "store_inv T s" and "T \<le> now"
  shows "ReplaceNodeEvidence L now v volumes topology s \<noteq> Inl NoReturn"
proof (cases "evidence_checks L now v volumes topology s")
  case (Inl e)
  then show ?thesis
    using evidence_checks_returns [of L now v volumes topology s] by (auto simp: ReplaceNodeEvidence_def)
next
  case (Inr r)
  obtain data previous entry topo where r: "r = (data, previous, entry, topo)"
    by (cases r)
  have uid: "ob_NodeUID v \<noteq> ''''"
    using evidence_checks_Inr(3) [OF Inr [unfolded r]] by (simp add: nodeIdentityCurrentLocked_def)
  have ok: "node_ok T (st_nodeContext s)"
    using assms(1) by (simp add: store_inv_def)
  show ?thesis
    using node_record_returns [OF ok assms(2) uid evidence_checks_Inr(2) [OF Inr [unfolded r]], of "ob_NodeName v"
        "ne_capturedAt (evidence_entry now v data previous topo)"]
    by (auto simp: ReplaceNodeEvidence_def Inr r Let_def)
qed

subsection \<open>A new inventory\<close>

text \<open>The part of the invariant the deletions of snapshots keep.\<close>

definition shrunk_from :: "store \<Rightarrow> store \<Rightarrow> bool" where
  "shrunk_from s r \<longleftrightarrow> counts_ok r \<and> dom (mget (st_nodes r)) \<subseteq> dom (mget (st_nodes s)) \<and>
     (\<exists>m c. r = s\<lparr>st_nodes := m, st_containerCount := c\<rparr>)"

lemma delete_snapshot_eq:
  "delete_snapshot uids (name, sn) r = (if snapshot_disowned uids (st_expectedNodeUIDs r) name sn
    then r\<lparr>st_containerCount := st_containerCount r - containers_of sn, st_nodes := mdel name (st_nodes r)\<rparr> else r)"
  by (simp add: delete_snapshot_def containers_of_def)

lemma counts_ok_smaller:
  assumes "counts_ok r" and "node_names r' \<subseteq> node_names r" and "st_limits r' = st_limits r" and "mwf (st_nodes r')"
    and "st_containerCount r' = msum containers_of (st_nodes r')" and "st_containerCount r' \<le> st_containerCount r"
  shows "counts_ok r'"
proof -
  have "card (node_names r') \<le> card (node_names r)"
    using assms(2) by (intro card_mono) (simp_all add: node_names_def)
  with assms show ?thesis
    by (simp add: counts_ok_def)
qed

lemma delete_snapshot_shrinks:
  assumes "shrunk_from s r" and "mget (st_nodes r) name = Some sn"
  shows "shrunk_from s (delete_snapshot uids (name, sn) r)"
proof (cases "snapshot_disowned uids (st_expectedNodeUIDs r) name sn")
  case True
  let ?r = "r\<lparr>st_containerCount := st_containerCount r - containers_of sn, st_nodes := mdel name (st_nodes r)\<rparr>"
  have counts: "counts_ok r"
    using assms(1) by (simp add: shrunk_from_def)
  then have wf: "mwf (st_nodes r)" and count: "st_containerCount r = msum containers_of (st_nodes r)"
    by (simp_all add: counts_ok_def)
  have "counts_ok ?r"
  proof (rule counts_ok_smaller [OF counts])
    show "node_names ?r \<subseteq> node_names r"
      by (auto simp: node_names_def dom_mdel)
  qed (use assms(2) in \<open>simp_all add: wf count mwf_mdel account_simps\<close>)
  moreover have "dom (mget (st_nodes ?r)) \<subseteq> dom (mget (st_nodes s))"
    using assms(1) by (simp add: shrunk_from_def dom_mdel) blast
  moreover obtain m c where "r = s\<lparr>st_nodes := m, st_containerCount := c\<rparr>"
    using assms(1) by (auto simp: shrunk_from_def)
  then have "?r = s\<lparr>st_nodes := mdel name m, st_containerCount := c - containers_of sn\<rparr>"
    by simp
  ultimately have "shrunk_from s ?r"
    unfolding shrunk_from_def by blast
  with True show ?thesis
    by (simp add: delete_snapshot_eq)
qed (use assms in \<open>simp add: delete_snapshot_eq\<close>)

lemma delete_snapshots:
  assumes "counts_ok s"
  shows "shrunk_from s (fold (delete_snapshot uids) (st_nodes s) s)"
    and "mget (st_nodes (fold (delete_snapshot uids) (st_nodes s) s)) name = (case mget (st_nodes s) name of None \<Rightarrow> None
    | Some sn \<Rightarrow> if snapshot_disowned uids (st_expectedNodeUIDs s) name sn then None else Some sn)"
proof -
  let ?r = "fold (delete_snapshot uids) (st_nodes s) s"
  have wf: "mwf (st_nodes s)"
    using assms(1) by (simp add: counts_ok_def)
  have "s = s\<lparr>st_nodes := st_nodes s, st_containerCount := st_containerCount s\<rparr>"
    by simp
  with assms(1) have start: "shrunk_from s s"
    unfolding shrunk_from_def by blast
  have own: "mget (st_nodes (delete_snapshot uids (k, sn) t)) j =
      (if j = k then if snapshot_disowned uids (st_expectedNodeUIDs s) k sn then None else Some sn else mget (st_nodes t) j)"
    if "shrunk_from s t" "mget (st_nodes t) k = Some sn" for k sn t j
    using that by (auto simp: delete_snapshot_eq gomap_simps shrunk_from_def)
  have "shrunk_from s ?r \<and> (\<forall>j. mget (st_nodes ?r) j = (case map_of (st_nodes s) j of None \<Rightarrow> mget (st_nodes s) j
      | Some sn \<Rightarrow> if snapshot_disowned uids (st_expectedNodeUIDs s) j sn then None else Some sn))"
    by (rule range_fold [where get = "\<lambda>s. mget (st_nodes s)"])
      (use start wf own delete_snapshot_shrinks in \<open>auto simp: mwf_def mget_in_iff [OF wf]\<close>)
  then show "shrunk_from s ?r" and "mget (st_nodes ?r) name = (case mget (st_nodes s) name of None \<Rightarrow> None
    | Some sn \<Rightarrow> if snapshot_disowned uids (st_expectedNodeUIDs s) name sn then None else Some sn)"
    by (auto simp: mget_def split: option.splits)
qed

definition named_uids :: "(string, string) gomap \<Rightarrow> (string, string) gomap" where
  "named_uids identities = mkeep (\<lambda>name _. name \<noteq> '''') identities"

text \<open>The state a new inventory leaves, field by field.\<close>

lemma Reconcile_Inr:
  assumes "ReconcileNodeIdentities identities observedAt s = Inr s'" and "store_inv T s"
  shows "mget (st_nodes s') name = (case mget (st_nodes s) name of None \<Rightarrow> None
      | Some sn \<Rightarrow> if snapshot_disowned (named_uids identities) (st_expectedNodeUIDs s) name sn then None else Some sn)"
    and "nc_latest (st_nodeContext s') =
      mkeep (\<lambda>name v. mget0 '''' (named_uids identities) name = ne_uid v) (nc_latest (st_nodeContext s))"
    and "mget (vs_entries (st_volumes s')) name = (case mget (vs_entries (st_volumes s)) name of None \<Rightarrow> None
      | Some e \<Rightarrow> if mget0 '''' (named_uids identities) name \<noteq> ve_uid e \<or> time_sub observedAt (ve_reportedAt e) > vol_ExpireAfter
          then None else Some e)"
    and "st_expectedNodeUIDs s' = named_uids identities"
    and "st_inventoryUpdatedAt s' = observedAt" and "st_inventoryKnown s'"
    and "st_inventoryUpdatedAt s \<le> observedAt" and "int (mlen identities) \<le> sl_MaxNodes (st_limits s)"
    and "store_inv T s'"
proof -
  let ?uids = "named_uids identities"
  have counts: "counts_ok s" and vol: "volume_ok (st_volumes s)"
    using assms(2) by (simp_all add: store_inv_def)
  let ?r = "fold (delete_snapshot ?uids) (st_nodes s) s"
  let ?v = "delete_entries (\<lambda>name entry. mget0 '''' ?uids name \<noteq> ve_uid entry) (st_volumes s)"
  let ?latest = "mkeep (\<lambda>name v. mget0 '''' ?uids name = ne_uid v) (nc_latest (st_nodeContext s))"
  note del = delete_snapshots [OF counts, of ?uids]
  from del(1) obtain m c where r: "?r = s\<lparr>st_nodes := m, st_containerCount := c\<rparr>"
    by (auto simp: shrunk_from_def)
  have s': "s' = s\<lparr>st_nodes := st_nodes ?r, st_containerCount := st_containerCount ?r,
      st_nodeContext := (st_nodeContext s)\<lparr>nc_latest := ?latest\<rparr>,
      st_volumes := pruneVolumeEntriesLocked observedAt ?v,
      st_expectedNodes := map (\<lambda>(name, _). (name, ())) ?uids, st_expectedNodeUIDs := ?uids,
      st_inventoryKnown := True, st_inventoryUpdatedAt := observedAt\<rparr>"
    using assms(1) by (simp add: ReconcileNodeIdentities_def Let_def named_uids_def [symmetric] r split: if_splits)
  show nodes: "mget (st_nodes s') name = (case mget (st_nodes s) name of None \<Rightarrow> None
      | Some sn \<Rightarrow> if snapshot_disowned ?uids (st_expectedNodeUIDs s) name sn then None else Some sn)"
    using del(2) by (simp add: s')
  show "mget (vs_entries (st_volumes s')) name = (case mget (vs_entries (st_volumes s)) name of None \<Rightarrow> None
      | Some e \<Rightarrow> if mget0 '''' ?uids name \<noteq> ve_uid e \<or> time_sub observedAt (ve_reportedAt e) > vol_ExpireAfter
          then None else Some e)"
    by (simp add: s' pruneVolumeEntriesLocked_def delete_entries_ok vol split: option.split)
  show "st_inventoryUpdatedAt s \<le> observedAt" and "int (mlen identities) \<le> sl_MaxNodes (st_limits s)"
    using assms(1) by (simp_all add: ReconcileNodeIdentities_def split: if_splits)
  have latest: "entries_ok ?latest" "dom (mget ?latest) \<subseteq> dom (mget (nc_latest (st_nodeContext s)))"
    using assms(2) by (auto simp: store_inv_def entries_ok_def mwf_mkeep mget_mkeep split: option.splits)
  have "counts_ok s'"
    by (rule counts_ok_smaller [of ?r])
      (use del(1) latest(2) in \<open>auto simp: shrunk_from_def counts_ok_def s' node_names_def r\<close>)
  then show "store_inv T s'"
    using assms(2) latest(1) delete_entries_ok(1) [OF delete_entries_ok(1) [OF vol]]
    by (simp add: store_inv_def) (simp add: s' pruneVolumeEntriesLocked_def)
  show "nc_latest (st_nodeContext s') = ?latest" "st_expectedNodeUIDs s' = ?uids" "st_inventoryUpdatedAt s' = observedAt"
    "st_inventoryKnown s'"
    by (simp_all add: s')
qed

end
