(* ===== verification/Store_Reads.thy ===== *)
theory Store_Reads
  imports Collector_Store
begin

text \<open>
  What the collector reports from its store: \<open>collector/reliability.go\<close>, the list functions of
  \<open>store.go\<close> and \<open>scoped_view.go\<close>, \<open>readShards\<close> of \<open>scoped_page.go\<close>, the Node context records of
  \<open>node_context.go\<close> and \<open>node_context_read.go\<close>, and the volume samples of \<open>volume_context.go\<close>. A
  read that prunes the histories or moves the collector's state also returns the store.

  \<open>int64(ttl.Seconds())\<close> goes through floating point; it is the argument \<open>seconds\<close>.
\<close>

subsection \<open>Freshness\<close>

definition isStale :: "time \<Rightarrow> time \<Rightarrow> duration \<Rightarrow> bool" where
  "isStale capturedAt now ttl =
    (if ttl \<le> 0 then False else if is_zero_time capturedAt then True else capturedAt + ttl < now)"

definition freshness :: "time \<Rightarrow> time \<Rightarrow> duration \<Rightarrow> string" where
  "freshness capturedAt now ttl = (if isStale capturedAt now ttl then EvidenceStale else EvidenceFresh)"

subsection \<open>Reliability of the collector\<close>

record collector_reliability =
  rl_State :: string
  rl_Generation :: string
  rl_StartedAt :: time
  rl_TransitionedAt :: time
  rl_FirstSnapshotAt :: time
  rl_LastSnapshotAt :: time
  rl_LastReceivedAt :: time
  rl_FreshNodes :: int
  rl_StaleNodes :: int
  rl_MissingNodes :: int
  rl_ExpectedNodes :: int
  rl_InventoryUpdatedAt :: time
  rl_Completeness :: string
  rl_SnapshotTTLSeconds :: int
  rl_History :: history_reliability

definition stale_nodes :: "store \<Rightarrow> time \<Rightarrow> duration \<Rightarrow> int" where
  "stale_nodes s now ttl = int (length (filter (\<lambda>(_, sn). isStale (sn_capturedAt sn) now ttl) (st_nodes s)))"

definition fresh_nodes :: "store \<Rightarrow> time \<Rightarrow> duration \<Rightarrow> int" where
  "fresh_nodes s now ttl = int (length (filter (\<lambda>(_, sn). \<not> isStale (sn_capturedAt sn) now ttl) (st_nodes s)))"

definition missing_nodes :: "store \<Rightarrow> int" where
  "missing_nodes s = (if st_inventoryKnown s
     then int (length (filter (\<lambda>node. mget (st_nodes s) node = None) (mkeys (st_expectedNodes s)))) else 0)"

definition collector_state :: "store \<Rightarrow> time \<Rightarrow> duration \<Rightarrow> string \<times> string" where
  "collector_state s now ttl =
    (let stale = stale_nodes s now ttl; fresh = fresh_nodes s now ttl;
         partial = list_ex (\<lambda>(_, sn). nodeEvidencePartial sn) (st_nodes s)
     in if mlen (st_nodes s) = 0 then (CollectorRebuilding, EvidencePartial)
        else if fresh = 0 \<and> stale > 0 then (CollectorStale, EvidencePartial)
        else if stale > 0 \<or> missing_nodes s > 0 \<or> partial then (CollectorDegraded, EvidencePartial)
        else (CollectorReady, EvidenceComplete))"

definition reliabilityLocked ::
    "(duration \<Rightarrow> int) \<Rightarrow> store \<Rightarrow> time \<Rightarrow> duration \<Rightarrow> collector_reliability \<times> store" where
  "reliabilityLocked seconds s now ttl =
    (let (state, completeness) = collector_state s now ttl;
         s1 = (if state \<noteq> st_state s then s\<lparr>st_state := state, st_transitionedAt := now\<rparr> else s)
     in (\<lparr>rl_State = state, rl_Generation = st_generation s1, rl_StartedAt = st_startedAt s1,
          rl_TransitionedAt = st_transitionedAt s1, rl_FirstSnapshotAt = st_firstSnapshotAt s1,
          rl_LastSnapshotAt = st_lastSnapshotAt s1, rl_LastReceivedAt = st_lastReceivedAt s1,
          rl_FreshNodes = fresh_nodes s now ttl, rl_StaleNodes = stale_nodes s now ttl,
          rl_MissingNodes = missing_nodes s, rl_ExpectedNodes = int (mlen (st_expectedNodes s1)),
          rl_InventoryUpdatedAt = st_inventoryUpdatedAt s1, rl_Completeness = completeness,
          rl_SnapshotTTLSeconds = seconds ttl, rl_History = history_reliability_all (st_history s1) now\<rparr>, s1))"

definition Reliability ::
    "(duration \<Rightarrow> int) \<Rightarrow> store \<Rightarrow> time \<Rightarrow> duration \<Rightarrow> collector_reliability \<times> store" where
  "Reliability seconds s now ttl =
    reliabilityLocked seconds (s\<lparr>st_history := history_prune (st_history s) now\<rparr>) now ttl"

definition HistoryReliability :: "store \<Rightarrow> time \<Rightarrow> history_reliability \<times> store" where
  "HistoryReliability s now =
    (let h = history_prune (st_history s) now in (history_reliability_all h now, s\<lparr>st_history := h\<rparr>))"

definition ListPodHistory ::
    "store \<Rightarrow> string \<Rightarrow> string \<Rightarrow> string \<Rightarrow> time \<Rightarrow> pod_history list \<times> store" where
  "ListPodHistory s namespace podName nodeName now =
    (let (series, h) = history_list (st_history s) namespace podName nodeName now in (series, s\<lparr>st_history := h\<rparr>))"

definition ListPodHistoryWithReliability ::
    "store \<Rightarrow> string \<Rightarrow> string \<Rightarrow> string \<Rightarrow> time \<Rightarrow> pod_history list \<times> history_reliability \<times> store" where
  "ListPodHistoryWithReliability s namespace podName nodeName now =
    (let (series, h) = history_list (st_history s) namespace podName nodeName now
     in (series, scopedReliability h namespace podName nodeName now, s\<lparr>st_history := h\<rparr>))"

definition RecordIngestion :: "string \<Rightarrow> duration \<Rightarrow> store \<Rightarrow> store" where
  "RecordIngestion result d s = s\<lparr>st_ingestionResults := mput result (mget0 0 (st_ingestionResults s) result + 1)
     (st_ingestionResults s), st_lastIngestionDuration := d\<rparr>"

subsection \<open>Lists\<close>

definition LatestByNode :: "store \<Rightarrow> (string, time) gomap" where
  "LatestByNode s = map (\<lambda>(node, sn). (node, sn_capturedAt sn))
     (filter (\<lambda>(node, sn). \<not> (node = '''' \<or> is_zero_time (sn_capturedAt sn))) (st_nodes s))"

record node_status =
  nd_NodeName :: string
  nd_CapturedAt :: time
  nd_ContainerCount :: int
  nd_Stale :: bool
  nd_Freshness :: string
  nd_Completeness :: string
  nd_Environment :: node_environment

definition status_of :: "time \<Rightarrow> duration \<Rightarrow> string \<times> node_snapshot \<Rightarrow> node_status" where
  "status_of now ttl = (\<lambda>(node, sn). \<lparr>nd_NodeName = node, nd_CapturedAt = sn_capturedAt sn,
     nd_ContainerCount = int (length (sn_containers sn)), nd_Stale = isStale (sn_capturedAt sn) now ttl,
     nd_Freshness = freshness (sn_capturedAt sn) now ttl, nd_Completeness = nodeCompleteness sn,
     nd_Environment = sn_environment sn\<rparr>)"

definition missing_status :: "string \<Rightarrow> node_status" where
  "missing_status node = \<lparr>nd_NodeName = node, nd_CapturedAt = 0, nd_ContainerCount = 0, nd_Stale = False,
     nd_Freshness = EvidenceMissing, nd_Completeness = EvidencePartial, nd_Environment = env_zero\<rparr>"

definition ListNodes :: "store \<Rightarrow> time \<Rightarrow> duration \<Rightarrow> node_status list" where
  "ListNodes s now ttl =
    (let observed = filter (\<lambda>(node, sn). \<not> (node = '''' \<or> is_zero_time (sn_capturedAt sn))) (st_nodes s);
         seen = map fst observed;
         absent = filter (\<lambda>node. node \<notin> set seen) (mkeys (st_expectedNodes s))
     in sort_slice (\<lambda>a b. nd_NodeName a < nd_NodeName b) (map (status_of now ttl) observed @ map missing_status absent))"

definition GetNode :: "store \<Rightarrow> string \<Rightarrow> time \<Rightarrow> duration \<Rightarrow> node_status option" where
  "GetNode s name now ttl = find (\<lambda>nd. nd_NodeName nd = name) (ListNodes s now ttl)"

definition readShards :: "store \<Rightarrow> time \<Rightarrow> duration \<Rightarrow> container_snapshot list list" where
  "readShards s now ttl =
    map (\<lambda>(_, sn). map (\<lambda>c. c\<lparr>cs_Freshness := freshness (sn_capturedAt sn) now ttl, cs_Completeness := nodeCompleteness sn\<rparr>)
      (sn_containers sn)) (filter (\<lambda>(_, sn). length (sn_containers sn) > 0) (st_nodes s))"

definition container_before :: "container_snapshot \<Rightarrow> container_snapshot \<Rightarrow> bool" where
  "container_before l r =
    (if cs_Namespace l \<noteq> cs_Namespace r then cs_Namespace l < cs_Namespace r
     else if cs_PodName l \<noteq> cs_PodName r then cs_PodName l < cs_PodName r
     else if cs_ContainerName l \<noteq> cs_ContainerName r then cs_ContainerName l < cs_ContainerName r
     else cs_ContainerID l < cs_ContainerID r)"

definition ListContainers :: "store \<Rightarrow> time \<Rightarrow> duration \<Rightarrow> container_snapshot list" where
  "ListContainers s now ttl = sort_slice container_before (concat (readShards s now ttl))"

text \<open>\<open>visitScopedShards\<close> calls its argument on these containers, in this order.\<close>

definition visitScopedShards :: "container_snapshot list list \<Rightarrow> string \<Rightarrow> container_snapshot list" where
  "visitScopedShards shards namespace = filter (\<lambda>c. namespace = '''' \<or> cs_Namespace c = namespace) (concat shards)"

definition ListContainersScoped :: "store \<Rightarrow> string \<Rightarrow> time \<Rightarrow> duration \<Rightarrow> container_snapshot list" where
  "ListContainersScoped s namespace now ttl = sort_slice container_before
     (filter (\<lambda>c. namespace = '''' \<or> cs_Namespace c = namespace) (concat (readShards s now ttl)))"

definition countPods :: "container_snapshot list \<Rightarrow> nat" where
  "countPods cs = length (remdups (map (\<lambda>c. cs_Namespace c @ nul @ cs_PodUID c @ nul @ cs_PodName c @ nul @ cs_NodeName c)
     (filter (\<lambda>c. \<not> (cs_Namespace c = '''' \<or> cs_PodName c = '''')) cs)))"

definition countNamespaces :: "container_snapshot list \<Rightarrow> nat" where
  "countNamespaces cs = length (remdups (filter (\<lambda>n. n \<noteq> '''') (map cs_Namespace cs)))"

subsection \<open>Node context records\<close>

record node_context_record =
  nr_NodeName :: string
  nr_NodeUID :: string
  nr_ReceivedAt :: time
  nr_Freshness :: string
  nr_Report :: "observation option"
  nr_LastGood :: "observation option"

definition decodeNodeObservation :: "store_lib \<Rightarrow> string \<Rightarrow> observation option" where
  "decodeNodeObservation L data = (if data = '''' then None else Some (lb_decode L data))"

definition with_freshness :: "string \<Rightarrow> observation \<Rightarrow> observation" where
  "with_freshness f ob = ob\<lparr>ob_Evidence := (ob_Evidence ob)\<lparr>en_Freshness := f\<rparr>\<rparr>"

definition nodeContextRecordLocked :: "store_lib \<Rightarrow> store \<Rightarrow> string \<Rightarrow> time \<Rightarrow> node_context_record" where
  "nodeContextRecordLocked L s name now =
    (let none = \<lparr>nr_NodeName = name, nr_NodeUID = mget0 '''' (st_expectedNodeUIDs s) name, nr_ReceivedAt = 0,
           nr_Freshness = cap_Rebuilding, nr_Report = None, nr_LastGood = None\<rparr>
     in case mget (nc_latest (st_nodeContext s)) name of
          None \<Rightarrow> none
        | Some entry \<Rightarrow>
           let report = decodeNodeObservation L (ne_report entry); good = decodeNodeObservation L (ne_good entry);
               r = none\<lparr>nr_NodeUID := ne_uid entry, nr_ReceivedAt := ne_receivedAt entry, nr_Report := report,
                 nr_LastGood := good, nr_Freshness := cap_UnknownFreshness\<rparr>
           in (case good of
                 None \<Rightarrow> r
               | Some ob \<Rightarrow>
                  let f = (if time_sub now (ne_capturedAt entry) > StaleAfter then cap_Stale else cap_Fresh)
                  in r\<lparr>nr_Freshness := f, nr_LastGood := Some (with_freshness f ob),
                       nr_Report := map_option (\<lambda>rep. if ob_Stats rep \<noteq> None then with_freshness f rep else rep) report\<rparr>))"

definition GetNodeContext :: "store_lib \<Rightarrow> store \<Rightarrow> string \<Rightarrow> time \<Rightarrow> node_context_record option" where
  "GetNodeContext L s name now =
    (if mget0 '''' (st_expectedNodeUIDs s) name = '''' then None else Some (nodeContextRecordLocked L s name now))"

record node_context_debug =
  db_SharedNodeRecords :: int
  db_Records :: int
  db_FreshRecords :: int
  db_StaleRecords :: int
  db_FailedRecords :: int
  db_MaxRecords :: int
  db_HistorySeries :: int
  db_HistoryPoints :: int
  db_HistoryBytes :: int
  db_CoverageLost :: bool

definition count_latest :: "(node_entry \<Rightarrow> bool) \<Rightarrow> node_store \<Rightarrow> int" where
  "count_latest P c = int (length (filter (\<lambda>(_, e). P e) (nc_latest c)))"

definition NodeContextDebug :: "store \<Rightarrow> time \<Rightarrow> node_context_debug \<times> store" where
  "NodeContextDebug s now =
    (let c = node_prune now (st_nodeContext s); s1 = s\<lparr>st_nodeContext := c\<rparr>;
         stale = (\<lambda>e. time_sub now (ne_capturedAt e) > StaleAfter)
     in (\<lparr>db_SharedNodeRecords = sharedNodeRecordsLocked s1, db_Records = int (mlen (nc_latest c)),
          db_FreshRecords = count_latest (\<lambda>e. \<not> is_zero_time (ne_capturedAt e) \<and> \<not> stale e) c,
          db_StaleRecords = count_latest (\<lambda>e. \<not> is_zero_time (ne_capturedAt e) \<and> stale e) c,
          db_FailedRecords = count_latest ne_failed c, db_MaxRecords = sl_MaxNodes (st_limits s1),
          db_HistorySeries = int (mlen (nc_history c)),
          db_HistoryPoints = sum_list (map (\<lambda>(_, series). int (length (nx_points series))) (nc_history c)),
          db_HistoryBytes = nc_historyBytes c, db_CoverageLost = (nc_lossAt c > now - HistoryDuration)\<rparr>, s1))"

text \<open>
  The completeness \<open>PageNodeContextHistory\<close> reports for a Node: complete only when the window of its
  current identity is, and no other identity of the name has history.
\<close>

definition node_history_completeness :: "store \<Rightarrow> string \<Rightarrow> time \<Rightarrow> string" where
  "node_history_completeness s name now =
    (let c = node_prune now (st_nodeContext s);
         keys = map fst (filter (\<lambda>(_, series). nx_name series = name) (nc_history c));
         lost = (nc_lossAt c > now - HistoryDuration)
     in if length keys = 1 \<and> hd keys = mget0 '''' (st_expectedNodeUIDs s) name \<and> \<not> lost \<and>
           \<not> st_startedAt s > now - HistoryDuration \<and>
           (case mget (nc_history c) (hd keys) of None \<Rightarrow> False | Some series \<Rightarrow> completeNodeWindow series now)
        then cap_Complete else cap_Partial)"

subsection \<open>Volume samples\<close>

record pod_scope =
  vsc_Namespace :: string
  vsc_PodName :: string
  vsc_PodUID :: string
  vsc_CreatedAt :: time
  vsc_NodeName :: string
  vsc_NodeUID :: string

definition ForPod :: "vol_batch \<Rightarrow> pod_scope \<Rightarrow> raw_usage list" where
  "ForPod b scope =
    (if vsc_NodeName scope \<noteq> vb_nodeName b \<or> vsc_NodeUID scope \<noteq> vb_nodeUID b then []
     else filter (\<lambda>r. ru_Namespace r = vsc_Namespace scope \<and> ru_PodUID r = vsc_PodUID scope) (vb_records b))"

record volume_samples =
  vsa_Current :: "raw_usage list"
  vsa_LastGood :: "raw_usage list"
  vsa_State :: vol_usage

definition decode_samples :: "vol_lib \<Rightarrow> string \<Rightarrow> time \<Rightarrow> pod_scope \<Rightarrow> vol_error + raw_usage list" where
  "decode_samples L data reportedAt scope =
    (if data = '''' then Inr [] else case DecodePrivate L data reportedAt of Inl e \<Rightarrow> Inl e | Inr b \<Rightarrow> Inr (ForPod b scope))"

definition VolumeSamples :: "vol_lib \<Rightarrow> store \<Rightarrow> pod_scope \<Rightarrow> time \<Rightarrow> store_error + volume_samples" where
  "VolumeSamples L s scope now =
    (let none = \<lparr>vsa_Current = [], vsa_LastGood = [], vsa_State = vol_SourceState vh_Unreported ''no-report''\<rparr> in
     if \<not> nodeIdentityCurrentLocked s (vsc_NodeName scope) (vsc_NodeUID scope) now then Inl NodeIdentityUnavailable
     else case mget (vs_entries (st_volumes s)) (vsc_NodeName scope) of
       None \<Rightarrow> Inr none
     | Some entry \<Rightarrow>
        if ve_uid entry \<noteq> vsc_NodeUID scope then Inl NodeIdentityUnavailable
        else (case decode_samples L (ve_current entry) (ve_reportedAt entry) scope of
            Inl e \<Rightarrow> Inl (VolumeError e)
          | Inr current \<Rightarrow> (case decode_samples L (ve_good entry) (ve_reportedAt entry) scope of
              Inl e \<Rightarrow> Inl (VolumeError e)
            | Inr good \<Rightarrow> Inr \<lparr>vsa_Current = current, vsa_LastGood = good, vsa_State = ve_state entry\<rparr>)))"

end
