(* ===== verification/Store_Run.thy ===== *)
theory Store_Run
  imports Store_Invariant Store_Reads
begin

text \<open>
  The store as a system of steps: every operation that changes it, at a clock that does not go
  back, with any argument. The properties of the store hold in every state this reaches from a new
  store, so whatever the agents send and in whatever order.
\<close>

subsection \<open>Steps\<close>

inductive store_step :: "store_lib \<Rightarrow> time \<times> store \<Rightarrow> time \<times> store \<Rightarrow> bool" for L where
  snapshot: "T \<le> now \<Longrightarrow> ReplaceAuthenticatedNodeSnapshot L now sn uid s = Inr (n, s') \<Longrightarrow>
    store_step L (T, s) (now, s')"
| evidence: "T \<le> now \<Longrightarrow> ReplaceNodeEvidence L now v volumes topology s = Inr s' \<Longrightarrow>
    store_step L (T, s) (now, s')"
| inventory: "T \<le> now \<Longrightarrow> ReconcileNodeIdentities identities observedAt s = Inr s' \<Longrightarrow>
    store_step L (T, s) (now, s')"
| reserve: "T \<le> now \<Longrightarrow> ReserveVolumeHealth s = Inr s' \<Longrightarrow> store_step L (T, s) (now, s')"
| enable_node_context: "T \<le> now \<Longrightarrow> store_step L (T, s) (now, EnableNodeContext s)"
| enable_replicas: "T \<le> now \<Longrightarrow> store_step L (T, s) (now, EnableReplicaComparisons s)"
| ingestion: "T \<le> now \<Longrightarrow> store_step L (T, s) (now, RecordIngestion result d s)"
| reliability: "T \<le> now \<Longrightarrow> store_step L (T, s) (now, snd (Reliability seconds s now ttl))"
| pod_history: "T \<le> now \<Longrightarrow> store_step L (T, s) (now, snd (ListPodHistory s namespace podName nodeName now))"
| node_debug: "T \<le> now \<Longrightarrow> store_step L (T, s) (now, snd (NodeContextDebug s now))"

inductive_cases store_stepE: "store_step L (T, s) (T', s')"

definition new_store :: "time \<times> store \<Rightarrow> bool" where
  "new_store p \<longleftrightarrow> (\<exists>opts limits startedAt. ho_Duration opts \<le> max_int64 \<and> ho_ContinuityGap opts < max_int64 \<and>
     p = (startedAt, newStore opts limits startedAt))"

lemma newStore_inv:
  assumes "ho_Duration opts \<le> max_int64" and "ho_ContinuityGap opts < max_int64"
  shows "store_inv T (newStore opts limits startedAt)"
  using normalise_history_options_ok [OF assms] newHistoryStore_wf newNodeContextStore_ok [of T]
  by (simp add: store_inv_def newStore_def Let_def counts_ok_def entries_ok_def volume_ok_def node_names_def
      newNodeContextStore_def newVolumeStore_def volumeUsageLimitLocked_def MaxRetainedBytes_def
      DefaultStoreLimits_def newHistoryStore_def dom_mget)

text \<open>Changes to fields the invariant does not mention, and prunings of the two histories.\<close>

lemma store_inv_frame:
  assumes "store_inv T s" and "T \<le> T'" and "st_nodes s' = st_nodes s" and "st_containerCount s' = st_containerCount s"
    and "st_limits s' = st_limits s" and "nc_latest (st_nodeContext s') = nc_latest (st_nodeContext s)"
    and "node_ok T' (st_nodeContext s')" and "volume_ok (st_volumes s')" and "history_wf (st_history s')"
    and "hs_opts (st_history s') = hs_opts (st_history s)"
  shows "store_inv T' s'"
  using assms by (simp add: store_inv_def counts_ok_def node_names_def)

lemma node_ok_mono: "node_ok T c \<Longrightarrow> T \<le> T' \<Longrightarrow> node_ok T' c"
  using node_wf_mono by (auto simp: node_ok_def)

lemma node_ok_prune: "node_ok T c \<Longrightarrow> T \<le> T' \<Longrightarrow> node_ok T' (node_prune now c) \<and> nc_latest (node_prune now c) = nc_latest c"
  using node_prune_keeps [of T c now] by (auto simp: node_ok_def intro: node_wf_mono)

lemma store_inv_parts:
  assumes "store_inv T s" and "T \<le> T'"
  shows "node_ok T' (st_nodeContext s)" "volume_ok (st_volumes s)" "history_wf (st_history s)"
    "history_wf (history_prune (st_history s) now)" "store_inv T' s"
proof -
  have "history_maps (st_history s)"
    using assms(1) by (simp add: store_inv_def history_wf_def)
  then show "history_wf (history_prune (st_history s) now)"
    by (rule history_wf_prune)
qed (use assms node_ok_mono in \<open>auto simp: store_inv_def\<close>)

lemma Reliability_frame:
  "st_nodes (snd (Reliability seconds s now ttl)) = st_nodes s"
  "st_containerCount (snd (Reliability seconds s now ttl)) = st_containerCount s"
  "st_limits (snd (Reliability seconds s now ttl)) = st_limits s"
  "st_nodeContext (snd (Reliability seconds s now ttl)) = st_nodeContext s"
  "st_volumes (snd (Reliability seconds s now ttl)) = st_volumes s"
  "st_history (snd (Reliability seconds s now ttl)) = history_prune (st_history s) now"
  by (simp_all add: Reliability_def reliabilityLocked_def Let_def split: prod.split)

lemma store_step_inv:
  assumes "store_step L (T, s) (T', s')" and "store_inv T s"
  shows "T \<le> T' \<and> store_inv T' s'"
  using assms(1)
proof cases
  case snapshot
  then show ?thesis
    using ReplaceSnapshot_inv assms(2) store_inv_parts(5) by blast
next
  case evidence
  then show ?thesis
    using ReplaceNodeEvidence_inv assms(2) by blast
next
  case inventory
  then show ?thesis
    using Reconcile_Inr(9) [OF _ assms(2)] store_inv_parts(5) by blast
next
  case reserve
  then have "s' = s\<lparr>st_volumes := (st_volumes s)\<lparr>vs_healthReserved := True\<rparr>\<rparr>"
    and "vs_bytes (st_volumes s) \<le> MaxRetainedBytes - MaxHealthBytes"
    by (simp_all add: ReserveVolumeHealth_def split: if_splits)
  with reserve(1) store_inv_parts [OF assms(2) reserve(1)] show ?thesis
    by (auto intro!: store_inv_frame [OF assms(2)] simp: volume_ok_def volumeUsageLimitLocked_def)
next
  case (reliability seconds ttl)
  then show ?thesis
    using store_inv_parts [OF assms(2)] by (auto intro!: store_inv_frame [OF assms(2)] simp: Reliability_frame)
next
  case (pod_history namespace podName nodeName)
  then show ?thesis
    using store_inv_parts [OF assms(2)]
    by (auto intro!: store_inv_frame [OF assms(2)] simp: ListPodHistory_def history_list_def Let_def)
next
  case node_debug
  then show ?thesis
    using store_inv_parts [OF assms(2)] node_ok_prune [of T "st_nodeContext s", OF store_inv_parts(1) [OF assms(2) order_refl]]
    by (auto intro!: store_inv_frame [OF assms(2)] simp: NodeContextDebug_def Let_def)
qed (use store_inv_parts [OF assms(2)] in \<open>auto intro!: store_inv_frame [OF assms(2)]
    simp: EnableNodeContext_def EnableReplicaComparisons_def RecordIngestion_def\<close>)

interpretation store_system: step_system new_store "store_step L" "\<lambda>(T, s). store_inv T s" for L
  by unfold_locales (auto simp: new_store_def newStore_inv dest: store_step_inv)

end
