(* ===== verification/Ingestion.thy ===== *)
theory Ingestion
  imports Store_Run
begin

text \<open>
  The ingestion coordinator, \<open>extension/coordinator.go\<close>, \<open>producer.go\<close> and
  \<open>producer_retirement.go\<close>: it decides which authenticated producer may write to the store, in
  which order, and remembers enough of the past to reject replays.

  \<^item> The coordinator's mutex is held from the first reading of the clock to the end of \<open>Accept\<close>,
    so a request is one step. The store has its own mutex and is shared: what
    \<open>CurrentNodeIdentities\<close> reads during the request is the store of that moment, an argument.
  \<^item> Every reading of the clock is an argument too (\<open>readings\<close>).
  \<^item> The canonical form of a request and its SHA-256 digest are \<open>json.Marshal\<close> and
    \<open>sha256.Sum256\<close>, fields of \<open>ingest_lib\<close> with the store's own libraries. Nothing is assumed of
    them.
  \<^item> \<open>metav1.ObjectMeta\<close> is a type of a library: the type variable of a request.
\<close>

subsection \<open>Producers\<close>

type_synonym producer_role = "8 word"

definition CgroupProducer :: producer_role where
  "CgroupProducer = 0"

definition NodeContextProducer :: producer_role where
  "NodeContextProducer = 1"

record agent_claims =
  cl_Role :: producer_role
  cl_PodUID :: string
  cl_NodeName :: string
  cl_NodeUID :: string
  cl_CredentialID :: string

definition claims_zero :: agent_claims where
  "claims_zero = \<lparr>cl_Role = CgroupProducer, cl_PodUID = '''', cl_NodeName = '''', cl_NodeUID = '''', cl_CredentialID = ''''\<rparr>"

text \<open>An authenticated principal, as the interface \<open>user.Info\<close> shows it.\<close>

record principal =
  pr_Name :: string
  pr_Extra :: "(string, string list) gomap"

definition PodUIDExtra :: string where
  "PodUIDExtra = ''authentication.kubernetes.io/pod-uid''"

definition NodeNameExtra :: string where
  "NodeNameExtra = ''authentication.kubernetes.io/node-name''"

definition NodeUIDExtra :: string where
  "NodeUIDExtra = ''authentication.kubernetes.io/node-uid''"

definition CredentialIDExtra :: string where
  "CredentialIDExtra = ''authentication.kubernetes.io/credential-id''"

datatype claims_error = NotTheAgent | MissingClaim

definition oneExtra :: "(string, string list) gomap \<Rightarrow> string \<Rightarrow> claims_error + string" where
  "oneExtra extras name =
    (case mget0 [] extras name of
       [v] \<Rightarrow> if trims_to_empty v then Inl MissingClaim else Inr v
     | _ \<Rightarrow> Inl MissingClaim)"

definition claimsFromUser :: "principal option \<Rightarrow> string \<Rightarrow> claims_error + agent_claims" where
  "claimsFromUser info expectedUsername =
    (case info of None \<Rightarrow> Inl NotTheAgent
     | Some user \<Rightarrow>
        if pr_Name user \<noteq> expectedUsername then Inl NotTheAgent
        else case oneExtra (pr_Extra user) PodUIDExtra of Inl e \<Rightarrow> Inl e | Inr podUID \<Rightarrow>
             case oneExtra (pr_Extra user) NodeNameExtra of Inl e \<Rightarrow> Inl e | Inr nodeName \<Rightarrow>
             case oneExtra (pr_Extra user) NodeUIDExtra of Inl e \<Rightarrow> Inl e | Inr nodeUID \<Rightarrow>
             case oneExtra (pr_Extra user) CredentialIDExtra of Inl e \<Rightarrow> Inl e | Inr credentialID \<Rightarrow>
             Inr \<lparr>cl_Role = CgroupProducer, cl_PodUID = podUID, cl_NodeName = nodeName, cl_NodeUID = nodeUID,
               cl_CredentialID = credentialID\<rparr>)"

definition producerClaims :: "principal option \<Rightarrow> string \<Rightarrow> string \<Rightarrow> claims_error + agent_claims" where
  "producerClaims info cgroupUsername nodeContextUsername =
    (if nodeContextUsername \<noteq> '''' \<and> (case info of None \<Rightarrow> False | Some user \<Rightarrow> pr_Name user = nodeContextUsername)
     then (case claimsFromUser info nodeContextUsername of
         Inl e \<Rightarrow> Inl e | Inr claims \<Rightarrow> Inr (claims\<lparr>cl_Role := NodeContextProducer\<rparr>))
     else claimsFromUser info cgroupUsername)"

definition instanceKey :: "agent_claims \<Rightarrow> string" where
  "instanceKey c = (if cl_Role c = CgroupProducer then cl_PodUID c else ''node-context'' @ CHR 0x00 # cl_PodUID c)"

definition nodeKey :: "agent_claims \<Rightarrow> string" where
  "nodeKey c = decimal (unat (cl_Role c)) @ CHR 0x00 # cl_NodeUID c"

datatype producer_error = CgroupWithNodeData | NodeWithoutReport | StreamMismatch | RoleInvalid

definition validateProducerSnapshot :: "agent_claims \<Rightarrow> agent_snapshot \<Rightarrow> producer_error option" where
  "validateProducerSnapshot claims sn =
    (if cl_Role claims = CgroupProducer then
       (if as_NodeContext sn \<noteq> None \<or> as_VolumeBatch sn \<noteq> '''' \<or> as_Topology sn \<noteq> '''' then Some CgroupWithNodeData else None)
     else if cl_Role claims = NodeContextProducer then
       (if as_SchemaVersion sn < 3 \<or> as_NodeContext sn = None \<or> as_Containers sn \<noteq> [] \<or>
           env_ContainerRuntimes (as_Environment sn) \<noteq> [] \<or>
           (as_Environment sn)\<lparr>env_ContainerRuntimes := []\<rparr> \<noteq> env_zero then Some NodeWithoutReport
        else case as_NodeContext sn of None \<Rightarrow> Some NodeWithoutReport
          | Some v \<Rightarrow>
             if ob_NodeName v \<noteq> cl_NodeName claims \<or> ob_NodeUID v \<noteq> cl_NodeUID claims \<or>
                ob_ReportedAt v \<noteq> as_CapturedAt sn then Some StreamMismatch else None)
     else Some RoleInvalid)"

subsection \<open>Requests, responses and rejections\<close>

definition MemoryGroupVersion :: string where
  "MemoryGroupVersion = ''memory.kubememlens.io/v1alpha1''"

record 'm snapshot_request =
  rq_APIVersion :: string
  rq_Kind :: string
  rq_ObjectMeta :: 'm
  rq_NodeUID :: string
  rq_Epoch :: string
  rq_Sequence :: u64
  rq_Snapshot :: agent_snapshot

record snapshot_response =
  rs_APIVersion :: string
  rs_Kind :: string
  rs_Accepted :: bool
  rs_Duplicate :: bool
  rs_Containers :: int

text \<open>The message of a rejection: a fixed text, or the rendering of an error of a component.\<close>

datatype reject_message =
    Fixed string
  | OfProducer producer_error
  | OfSnapshot snapshot_error
  | OfStore store_error

record ingestion_error =
  ie_Status :: nat
  ie_Code :: string
  ie_Message :: reject_message
  ie_Result :: string

definition reject :: "nat \<Rightarrow> string \<Rightarrow> reject_message \<Rightarrow> string \<Rightarrow> ingestion_error" where
  "reject status code message result = \<lparr>ie_Status = status, ie_Code = code, ie_Message = message, ie_Result = result\<rparr>"

text \<open>
  The chain of \<open>errors.Is\<close> on the error of the store. What no line names (a value that cannot be
  encoded) is the last line.
\<close>

definition store_rejection :: "store_error \<Rightarrow> ingestion_error" where
  "store_rejection e =
    (case e of
       NodeIdentityUnavailable \<Rightarrow> reject 409 ''node_inventory'' (OfStore e) ''node_mismatch''
     | InvalidObservation \<Rightarrow> reject 400 ''invalid_snapshot'' (OfStore e) ''invalid_snapshot''
     | TopologyError TopoInvalid \<Rightarrow> reject 400 ''invalid_snapshot'' (OfStore e) ''invalid_snapshot''
     | TopologyError TopoBounds \<Rightarrow> reject 400 ''invalid_snapshot'' (OfStore e) ''invalid_snapshot''
     | VolumeError VolInvalid \<Rightarrow> reject 400 ''invalid_snapshot'' (Fixed ''invalid bounded volume observation'') ''invalid_snapshot''
     | VolumeError VolScope \<Rightarrow> reject 400 ''invalid_snapshot'' (Fixed ''invalid bounded volume observation'') ''invalid_snapshot''
     | VolumeError VolOutOfOrder \<Rightarrow> reject 409 ''snapshot_out_of_order'' (OfStore e) ''out_of_order''
     | SnapshotOutOfOrder \<Rightarrow> reject 409 ''snapshot_out_of_order'' (OfStore e) ''out_of_order''
     | StoreCapacity \<Rightarrow> reject 507 ''store_capacity'' (OfStore e) ''store_capacity''
     | _ \<Rightarrow> reject 500 ''store_error'' (Fixed ''store snapshot'') ''store_error'')"

subsection \<open>State\<close>

record agent_state =
  ag_nodeUID :: string
  ag_nodeKey :: string
  ag_nodeName :: string
  ag_role :: producer_role
  ag_sequence :: u64
  ag_digest :: string
  ag_response :: snapshot_response

record coordinator_options =
  co_Handler :: handler_options
  co_MaxAgents :: int
  co_MaxRetired :: int
  co_RetiredTTL :: duration

record coordinator =
  cd_store :: store
  cd_opts :: coordinator_options
  cd_epoch :: string
  cd_agents :: "(string, agent_state) gomap"
  cd_nodes :: "(string, string) gomap"
  cd_retired :: "(string, time) gomap"

record 'm ingest_lib =
  il_marshal :: "'m snapshot_request \<Rightarrow> string option"
  il_sum256 :: "string \<Rightarrow> string"
  il_store :: store_lib

record readings =
  rd_prune :: time
  rd_inactive :: time
  rd_validate :: time
  rd_store :: time
  rd_retire :: time

text \<open>\<open>NewCoordinator\<close>, with the configured epoch, or the random one drawn in its place.\<close>

datatype coordinator_error = StoreRequired | AgentsNotPositive | EpochUnavailable

definition NewCoordinator ::
    "store option \<Rightarrow> coordinator_options \<Rightarrow> string \<Rightarrow> string option \<Rightarrow> coordinator_error + coordinator" where
  "NewCoordinator s opts configured random =
    (case s of None \<Rightarrow> Inl StoreRequired
     | Some st \<Rightarrow>
        if co_MaxAgents opts \<le> 0 then Inl AgentsNotPositive
        else
          let o1 = (if co_MaxRetired opts \<le> 0 then opts\<lparr>co_MaxRetired := co_MaxAgents opts * 4\<rparr> else opts);
              o2 = (if co_RetiredTTL o1 \<le> 0 then o1\<lparr>co_RetiredTTL := 2 * minute\<rparr> else o1)
          in case (if configured = '''' then random else Some configured) of
               None \<Rightarrow> Inl EpochUnavailable
             | Some epoch \<Rightarrow> Inr \<lparr>cd_store = st, cd_opts = o2, cd_epoch = epoch, cd_agents = [], cd_nodes = [], cd_retired = []\<rparr>)"

subsection \<open>Retirement\<close>

definition pruneRetired :: "time \<Rightarrow> coordinator \<Rightarrow> coordinator" where
  "pruneRetired now c = c\<lparr>cd_retired := mkeep (\<lambda>_ expiresAt. expiresAt > now) (cd_retired c)\<rparr>"

text \<open>An owner leaves: its Node is free again and its key is blocked until the time given.\<close>

definition retire :: "string \<Rightarrow> time \<Rightarrow> coordinator \<Rightarrow> coordinator" where
  "retire key until c =
    (case mget (cd_agents c) key of
       None \<Rightarrow> c\<lparr>cd_nodes := mdel '''' (cd_nodes c), cd_retired := mput key until (cd_retired c)\<rparr>
     | Some st \<Rightarrow> c\<lparr>cd_nodes := mdel (ag_nodeKey st) (cd_nodes c), cd_agents := mdel key (cd_agents c),
         cd_retired := mput key until (cd_retired c)\<rparr>)"

definition inactive_keys :: "(string, string) gomap \<Rightarrow> coordinator \<Rightarrow> string list" where
  "inactive_keys identities c =
    sort (map fst (filter (\<lambda>(key, st). mget0 '''' identities (ag_nodeName st) \<noteq> ag_nodeUID st) (cd_agents c)))"

fun retire_all :: "time \<Rightarrow> string list \<Rightarrow> coordinator \<Rightarrow> coordinator" where
  "retire_all now [] c = c"
| "retire_all now (key # keys) c =
    (if int (mlen (cd_retired c)) \<ge> co_MaxRetired (cd_opts c) then c
     else retire_all now keys (retire key (now + co_RetiredTTL (cd_opts c)) c))"

definition pruneInactive :: "time \<Rightarrow> store \<Rightarrow> coordinator \<Rightarrow> coordinator" where
  "pruneInactive now seen c =
    (case CurrentNodeIdentities seen now of
       None \<Rightarrow> c
     | Some identities \<Rightarrow> retire_all now (inactive_keys identities c) c)"

subsection \<open>Epochs\<close>

record ingestion_epoch =
  ep_APIVersion :: string
  ep_Kind :: string
  ep_Name :: string
  ep_Epoch :: string
  ep_SchemaVersion :: int
  ep_LastSequence :: u64

definition Epoch :: "string \<Rightarrow> time \<Rightarrow> coordinator \<Rightarrow> ingestion_epoch \<times> coordinator" where
  "Epoch key now c =
    (\<lparr>ep_APIVersion = MemoryGroupVersion, ep_Kind = ''IngestionEpoch'', ep_Name = ''current'', ep_Epoch = cd_epoch c,
       ep_SchemaVersion = CurrentSnapshotSchemaVersion,
       ep_LastSequence = (case mget (cd_agents c) key of None \<Rightarrow> 0 | Some st \<Rightarrow> ag_sequence st)\<rparr>,
     pruneRetired now c)"

subsection \<open>Accepting a snapshot\<close>

text \<open>
  A request is rejected, answered, or does not return; the last is proved impossible. The Boolean
  of an answer says that the response is the stored one of a duplicate.
\<close>

datatype outcome = Rejected ingestion_error | Replied snapshot_response bool | Unreturned

definition store_outcome :: "store_error \<Rightarrow> outcome" where
  "store_outcome e = (if e = NoReturn then Unreturned else Rejected (store_rejection e))"

text \<open>The owner that a submission finds for its Node: the key, empty when there is none.\<close>

definition find_owner :: "agent_claims \<Rightarrow> coordinator \<Rightarrow> string" where
  "find_owner claims c =
    (let owner = mget0 '''' (cd_nodes c) (nodeKey claims)
     in if owner \<noteq> '''' then owner
        else case find (\<lambda>(key, previous). ag_nodeName previous = cl_NodeName claims \<and> ag_role previous = cl_Role claims) (cd_agents c) of
            None \<Rightarrow> ''''
          | Some (key, _) \<Rightarrow> key)"

definition new_owner :: "agent_claims \<Rightarrow> coordinator \<Rightarrow> bool" where
  "new_owner claims c \<longleftrightarrow> find_owner claims c \<noteq> '''' \<and> find_owner claims c \<noteq> instanceKey claims"

text \<open>
  The checks on identity and sequence, in the code's order. \<open>None\<close>: the submission is new and the
  checks that follow decide.
\<close>

definition sequence_checks :: "agent_claims \<Rightarrow> 'm snapshot_request \<Rightarrow> string \<Rightarrow> coordinator \<Rightarrow> outcome option" where
  "sequence_checks claims request digest c =
    (if rq_Epoch request \<noteq> cd_epoch c then
       Some (Rejected (reject 409 ''epoch_mismatch'' (Fixed ''ingestion epoch is no longer current'') ''epoch_mismatch''))
     else if as_NodeName (rq_Snapshot request) \<noteq> cl_NodeName claims \<or> rq_NodeUID request \<noteq> cl_NodeUID claims then
       Some (Rejected (reject 403 ''node_claim_mismatch'' (Fixed ''snapshot node does not match the authenticated agent'') ''node_mismatch''))
     else if rq_Sequence request = 0 then
       Some (Rejected (reject 400 ''invalid_sequence'' (Fixed ''sequence must be greater than zero'') ''invalid_sequence''))
     else if mget (cd_retired c) (instanceKey claims) \<noteq> None then
       Some (Rejected (reject 409 ''agent_replaced'' (Fixed ''agent instance has been replaced'') ''replaced_agent''))
     else case mget (cd_agents c) (instanceKey claims) of
         None \<Rightarrow> None
       | Some st \<Rightarrow>
          if ag_nodeKey st \<noteq> nodeKey claims \<or> ag_nodeName st \<noteq> cl_NodeName claims then
            Some (Rejected (reject 403 ''node_claim_mismatch'' (Fixed ''producer instance changed Node identity'') ''node_mismatch''))
          else if rq_Sequence request = ag_sequence st then
            (if ag_digest st \<noteq> digest then
               Some (Rejected (reject 409 ''sequence_conflict'' (Fixed ''sequence was already used for different content'') ''replay_conflict''))
             else Some (Replied ((ag_response st)\<lparr>rs_Duplicate := True\<rparr>) True))
          else if rq_Sequence request < ag_sequence st then
            Some (Rejected (reject 409 ''sequence_replayed'' (Fixed ''snapshot sequence is older than the last accepted sequence'') ''replayed''))
          else None)"

definition capacity_checks ::
    "agent_claims \<Rightarrow> 'm snapshot_request \<Rightarrow> time \<Rightarrow> coordinator \<Rightarrow> outcome option" where
  "capacity_checks claims request now c =
    (if mget (cd_agents c) (instanceKey claims) = None \<and> \<not> new_owner claims c \<and>
        int (mlen (cd_agents c)) \<ge> co_MaxAgents (cd_opts c) then
       Some (Rejected (reject 507 ''agent_capacity'' (Fixed ''collector agent identity capacity is exhausted'') ''agent_capacity''))
     else if new_owner claims c \<and> int (mlen (cd_retired c)) \<ge> co_MaxRetired (cd_opts c) then
       Some (Rejected (reject 507 ''retired_agent_capacity'' (Fixed ''collector retired identity capacity is exhausted'') ''agent_capacity''))
     else if rq_APIVersion request \<noteq> MemoryGroupVersion \<or> rq_Kind request \<noteq> ''NodeSnapshot'' then
       Some (Rejected (reject 400 ''invalid_type'' (Fixed ''request apiVersion or kind is invalid'') ''invalid_snapshot''))
     else case ValidateSnapshot (rq_Snapshot request) now (co_Handler (cd_opts c)) of
         Some e \<Rightarrow> Some (Rejected (reject 400 ''invalid_snapshot'' (OfSnapshot e) ''invalid_snapshot''))
       | None \<Rightarrow> None)"

text \<open>
  The write. A Node-context producer without a report was rejected before; reaching the write
  without one would be a nil dereference.
\<close>

definition submit :: "store_lib \<Rightarrow> time \<Rightarrow> agent_claims \<Rightarrow> agent_snapshot \<Rightarrow> store \<Rightarrow> store_error + (nat \<times> store)" where
  "submit L now claims sn s =
    (if cl_Role claims = NodeContextProducer then
       (case as_NodeContext sn of
          None \<Rightarrow> Inl NoReturn
        | Some v \<Rightarrow> (case ReplaceNodeEvidence L now v (as_VolumeBatch sn) (as_Topology sn) s of
            Inl e \<Rightarrow> Inl e | Inr s' \<Rightarrow> Inr (0, s')))
     else ReplaceAuthenticatedNodeSnapshot L now sn (cl_NodeUID claims) s)"

definition accepted_response :: "nat \<Rightarrow> snapshot_response" where
  "accepted_response n = \<lparr>rs_APIVersion = MemoryGroupVersion, rs_Kind = ''NodeSnapshotResult'', rs_Accepted = True,
     rs_Duplicate = False, rs_Containers = int n\<rparr>"

definition commit :: "agent_claims \<Rightarrow> u64 \<Rightarrow> string \<Rightarrow> snapshot_response \<Rightarrow> time \<Rightarrow> coordinator \<Rightarrow> coordinator" where
  "commit claims sequence digest response now c =
    (let c1 = (if new_owner claims c then retire (find_owner claims c) (now + co_RetiredTTL (cd_opts c)) c else c)
     in c1\<lparr>cd_nodes := mput (nodeKey claims) (instanceKey claims) (cd_nodes c1),
       cd_agents := mput (instanceKey claims) \<lparr>ag_nodeUID = cl_NodeUID claims, ag_nodeKey = nodeKey claims,
         ag_nodeName = cl_NodeName claims, ag_role = cl_Role claims, ag_sequence = sequence, ag_digest = digest,
         ag_response = response\<rparr> (cd_agents c1)\<rparr>)"

definition Accept ::
    "'m ingest_lib \<Rightarrow> readings \<Rightarrow> store \<Rightarrow> agent_claims \<Rightarrow> 'm snapshot_request \<Rightarrow> coordinator \<Rightarrow> outcome \<times> coordinator"
  where
  "Accept L rd seen claims request c =
    (case validateProducerSnapshot claims (rq_Snapshot request) of
       Some e \<Rightarrow> (Rejected (reject 403 ''producer_scope'' (OfProducer e) ''node_mismatch''), c)
     | None \<Rightarrow>
    (case il_marshal L request of
       None \<Rightarrow> (Rejected (reject 400 ''invalid_snapshot'' (Fixed ''snapshot request cannot be canonicalised'') ''invalid_snapshot''), c)
     | Some canonical \<Rightarrow>
        let digest = il_sum256 L canonical; c1 = pruneRetired (rd_prune rd) c in
        (case sequence_checks claims request digest c1 of
           Some r \<Rightarrow> (r, c1)
         | None \<Rightarrow>
            let c2 = (if mget (cd_agents c1) (instanceKey claims) = None \<and>
                  int (mlen (cd_agents c1)) \<ge> co_MaxAgents (cd_opts c1) then pruneInactive (rd_inactive rd) seen c1 else c1)
            in (case capacity_checks claims request (rd_validate rd) c2 of
                  Some r \<Rightarrow> (r, c2)
                | None \<Rightarrow>
                   (case submit (il_store L) (rd_store rd) claims (rq_Snapshot request) (cd_store c2) of
                      Inl e \<Rightarrow> (store_outcome e, c2)
                    | Inr (n, s') \<Rightarrow>
                       let response = accepted_response n
                       in (Replied response False,
                           commit claims (rq_Sequence request) digest response (rd_retire rd) (c2\<lparr>cd_store := s'\<rparr>)))))))"

end
