(* ===== verification/Ingestion_Run.thy ===== *)
theory Ingestion_Run
  imports Ingestion
begin

text \<open>
  The coordinator's invariant, what each request does to it, and the coordinator as a system of
  steps together with the store it shares with the other parts of the collector.
\<close>

subsection \<open>The tables of owners\<close>

text \<open>
  The table of Nodes is the inverse of the table of agents, no agent is retired, and both tables are
  within their configured sizes.
\<close>

definition tables_ok :: "coordinator \<Rightarrow> bool" where
  "tables_ok c \<longleftrightarrow> mwf (cd_agents c) \<and> mwf (cd_nodes c) \<and> mwf (cd_retired c) \<and>
     (\<forall>key st. mget (cd_agents c) key = Some st \<longrightarrow> key \<noteq> '''' \<and> ag_sequence st \<noteq> 0 \<and> mget (cd_nodes c) (ag_nodeKey st) = Some key
        \<and> mget (cd_retired c) key = None) \<and>
     (\<forall>node key. mget (cd_nodes c) node = Some key \<longrightarrow> (\<exists>st. mget (cd_agents c) key = Some st \<and> ag_nodeKey st = node))"

definition sizes_ok :: "coordinator \<Rightarrow> bool" where
  "sizes_ok c \<longleftrightarrow> 0 < co_MaxAgents (cd_opts c) \<and> 0 < co_MaxRetired (cd_opts c) \<and> 0 < co_RetiredTTL (cd_opts c) \<and>
     int (mlen (cd_agents c)) \<le> co_MaxAgents (cd_opts c) \<and> int (mlen (cd_retired c)) \<le> co_MaxRetired (cd_opts c)"

lemma tables_agentD:
  assumes "tables_ok c" and "mget (cd_agents c) key = Some st"
  shows "key \<noteq> ''''" "ag_sequence st \<noteq> 0" "mget (cd_nodes c) (ag_nodeKey st) = Some key" "mget (cd_retired c) key = None"
  using assms by (auto simp: tables_ok_def)

lemma tables_nodeE:
  assumes "tables_ok c" and "mget (cd_nodes c) node = Some key"
  obtains st where "mget (cd_agents c) key = Some st" "ag_nodeKey st = node"
  using assms unfolding tables_ok_def by blast

lemma tables_ok_cong:
  "cd_agents c' = cd_agents c \<Longrightarrow> cd_nodes c' = cd_nodes c \<Longrightarrow> cd_retired c' = cd_retired c \<Longrightarrow> tables_ok c' = tables_ok c"
  by (simp add: tables_ok_def)

subsection \<open>Pruning and retirement\<close>

lemma pruneRetired_fields [simp]:
  "cd_store (pruneRetired now c) = cd_store c" "cd_opts (pruneRetired now c) = cd_opts c"
  "cd_epoch (pruneRetired now c) = cd_epoch c" "cd_agents (pruneRetired now c) = cd_agents c"
  "cd_nodes (pruneRetired now c) = cd_nodes c"
  by (simp_all add: pruneRetired_def)

lemma pruneRetired_get:
  "mwf (cd_retired c) \<Longrightarrow> mget (cd_retired (pruneRetired now c)) key = (case mget (cd_retired c) key of None \<Rightarrow> None
     | Some e \<Rightarrow> if e > now then Some e else None)"
  by (simp add: pruneRetired_def mget_mkeep)

lemma pruneRetired_ok:
  assumes "tables_ok c"
  shows "tables_ok (pruneRetired now c)"
proof -
  have "mwf (cd_retired c)"
    using assms by (simp add: tables_ok_def)
  with assms show ?thesis
    unfolding tables_ok_def by (simp add: pruneRetired_get) (simp add: pruneRetired_def mwf_mkeep)
qed

lemma pruneRetired_sizes: "sizes_ok c \<Longrightarrow> sizes_ok (pruneRetired now c)"
  using mlen_mkeep_le [of "\<lambda>_ expiresAt. expiresAt > now" "cd_retired c"]
  by (auto simp: sizes_ok_def pruneRetired_def)

lemma retire_fields [simp]:
  "cd_store (retire key until c) = cd_store c" "cd_opts (retire key until c) = cd_opts c"
  "cd_epoch (retire key until c) = cd_epoch c" "cd_retired (retire key until c) = mput key until (cd_retired c)"
  by (simp_all add: retire_def split: option.split)

lemma retire_agents:
  "cd_agents (retire key until c) = (if mget (cd_agents c) key = None then cd_agents c else mdel key (cd_agents c))"
  by (simp add: retire_def split: option.split)

lemma retire_get: "mget (cd_agents (retire key until c)) k = (if k = key then None else mget (cd_agents c) k)"
  by (auto simp: retire_agents mget_mdel)

lemma retire_ok:
  assumes "tables_ok c" and "mget (cd_agents c) key = Some st"
  shows "tables_ok (retire key until c)"
proof -
  have wf: "mwf (cd_agents c)" "mwf (cd_nodes c)" "mwf (cd_retired c)"
    using assms(1) by (simp_all add: tables_ok_def)
  have nodes: "cd_nodes (retire key until c) = mdel (ag_nodeKey st) (cd_nodes c)"
    using assms(2) by (simp add: retire_def)
  have "k \<noteq> '''' \<and> ag_sequence st' \<noteq> 0 \<and> mget (cd_nodes (retire key until c)) (ag_nodeKey st') = Some k \<and>
      mget (cd_retired (retire key until c)) k = None"
    if "mget (cd_agents (retire key until c)) k = Some st'" for k st'
  proof -
    have k: "k \<noteq> key" "mget (cd_agents c) k = Some st'"
      using that by (auto simp: retire_get split: if_splits)
    with tables_agentD [OF assms(1) k(2)] tables_agentD [OF assms] show ?thesis
      by (auto simp: nodes gomap_simps)
  qed
  moreover have "\<exists>st'. mget (cd_agents (retire key until c)) k = Some st' \<and> ag_nodeKey st' = node"
    if "mget (cd_nodes (retire key until c)) node = Some k" for node k
  proof -
    have node: "node \<noteq> ag_nodeKey st" "mget (cd_nodes c) node = Some k"
      using that by (auto simp: nodes mget_mdel split: if_splits)
    with tables_nodeE [OF assms(1) node(2)] assms(2) show ?thesis
      by (metis option.inject retire_get)
  qed
  ultimately show ?thesis
    using wf by (simp add: tables_ok_def nodes retire_agents gomap_simps)
qed

lemma retire_sizes:
  assumes "tables_ok c" and "sizes_ok c" and "int (mlen (cd_retired c)) < co_MaxRetired (cd_opts c)"
  shows "sizes_ok (retire key until c)"
  using assms gm.del_within [of "cd_agents c" key]
  by (auto simp: sizes_ok_def tables_ok_def retire_agents gomap_simps split: if_splits)

text \<open>What a batch of retirements does: some of the keys leave the table for the retired one.\<close>

definition retired_from :: "coordinator \<Rightarrow> string set \<Rightarrow> time \<Rightarrow> coordinator \<Rightarrow> bool" where
  "retired_from c K until c' \<longleftrightarrow> tables_ok c' \<and> sizes_ok c' \<and> cd_store c' = cd_store c \<and> cd_opts c' = cd_opts c \<and>
     cd_epoch c' = cd_epoch c \<and>
     (\<forall>k. mget (cd_agents c') k = mget (cd_agents c) k \<and> mget (cd_retired c') k = mget (cd_retired c) k \<or>
       k \<in> K \<and> mget (cd_agents c') k = None \<and> mget (cd_retired c') k = Some until)"

lemma retire_all_from:
  assumes "tables_ok c" and "sizes_ok c" and "distinct keys" and "\<forall>k \<in> set keys. mget (cd_agents c) k \<noteq> None"
  shows "retired_from c (set keys) (now + co_RetiredTTL (cd_opts c)) (retire_all now keys c)"
  using assms
proof (induction keys arbitrary: c)
  case Nil
  then show ?case
    by (simp add: retired_from_def)
next
  case (Cons key keys)
  let ?c = "retire key (now + co_RetiredTTL (cd_opts c)) c"
  obtain st where st: "mget (cd_agents c) key = Some st"
    using Cons.prems(4) by auto
  show ?case
  proof (cases "int (mlen (cd_retired c)) \<ge> co_MaxRetired (cd_opts c)")
    case True
    with Cons.prems(1,2) show ?thesis
      by (simp add: retired_from_def)
  next
    case False
    have "retired_from ?c (set keys) (now + co_RetiredTTL (cd_opts ?c)) (retire_all now keys ?c)"
    proof (rule Cons.IH)
      show "sizes_ok ?c"
        by (rule retire_sizes [OF Cons.prems(1,2)]) (use False in simp)
      show "\<forall>k \<in> set keys. mget (cd_agents ?c) k \<noteq> None"
        using Cons.prems(3,4) by (auto simp: retire_get)
    qed (use Cons.prems retire_ok [OF Cons.prems(1) st] in auto)
    then show ?thesis
      using False Cons.prems(3) unfolding retired_from_def
      by (auto simp: retire_get gomap_simps) metis+
  qed
qed

lemma pruneInactive_from:
  assumes "tables_ok c" and "sizes_ok c"
  shows "\<exists>K. retired_from c K (now + co_RetiredTTL (cd_opts c)) (pruneInactive now seen c) \<and>
    (\<forall>k \<in> K. mget (cd_agents c) k \<noteq> None)"
proof (cases "CurrentNodeIdentities seen now")
  case None
  with assms show ?thesis
    by (auto simp: pruneInactive_def retired_from_def intro!: exI [of _ "{}"])
next
  case (Some identities)
  have wf: "mwf (cd_agents c)"
    using assms(1) by (simp add: tables_ok_def)
  have "distinct (inactive_keys identities c)"
    using wf by (simp add: inactive_keys_def mwf_def distinct_map_filter)
  moreover have "\<forall>k \<in> set (inactive_keys identities c). mget (cd_agents c) k \<noteq> None"
    using wf by (auto simp: inactive_keys_def simp flip: mget_in_iff)
  ultimately show ?thesis
    using retire_all_from [OF assms] Some by (auto simp: pruneInactive_def)
qed

lemma pruneInactive_store [simp]: "cd_store (pruneInactive now seen c) = cd_store c"
proof -
  have "cd_store (retire_all now keys c) = cd_store c" for keys c
    by (induction keys arbitrary: c) auto
  then show ?thesis
    by (simp add: pruneInactive_def split: option.split)
qed

subsection \<open>Taking ownership\<close>

lemma take_node_ok:
  assumes "tables_ok c" and "\<And>k. mget (cd_nodes c) node = Some k \<Longrightarrow> k = key"
    and "\<And>st'. mget (cd_agents c) key = Some st' \<Longrightarrow> ag_nodeKey st' = node"
    and "mget (cd_retired c) key = None" and "key \<noteq> ''''" and "ag_nodeKey st = node" and "ag_sequence st \<noteq> 0"
  shows "tables_ok (c\<lparr>cd_nodes := mput node key (cd_nodes c), cd_agents := mput key st (cd_agents c)\<rparr>)"
    (is "tables_ok ?c")
proof -
  have "k \<noteq> '''' \<and> ag_sequence st' \<noteq> 0 \<and> mget (cd_nodes ?c) (ag_nodeKey st') = Some k \<and> mget (cd_retired ?c) k = None"
    if "mget (cd_agents ?c) k = Some st'" for k st'
  proof (cases "k = key")
    case True
    with that assms(4-7) show ?thesis
      by (auto simp: mget_mput)
  next
    case False
    with that have st': "mget (cd_agents c) k = Some st'"
      by (simp add: mget_mput)
    from tables_agentD [OF assms(1) st'] assms(2) False show ?thesis
      by (auto simp: mget_mput)
  qed
  moreover have "\<exists>st'. mget (cd_agents ?c) k = Some st' \<and> ag_nodeKey st' = n" if "mget (cd_nodes ?c) n = Some k" for n k
  proof (cases "n = node")
    case True
    with that assms(6) show ?thesis
      by (simp add: mget_mput)
  next
    case False
    with that have "mget (cd_nodes c) n = Some k"
      by (simp add: mget_mput)
    with False assms(3) show ?thesis
      by (auto simp: mget_mput elim!: tables_nodeE [OF assms(1)])
  qed
  ultimately show ?thesis
    using assms(1) by (simp add: tables_ok_def mwf_mput)
qed

lemma find_owner_agent:
  assumes "tables_ok c" and "find_owner claims c \<noteq> ''''"
  obtains st where "mget (cd_agents c) (find_owner claims c) = Some st"
proof (cases "mget0 '''' (cd_nodes c) (nodeKey claims) = ''''")
  case True
  have "mwf (cd_agents c)"
    using assms(1) by (simp add: tables_ok_def)
  with True assms(2) that show ?thesis
    by (auto simp: find_owner_def find_Some_iff mget_in_iff split: option.splits) (metis nth_mem)
next
  case False
  then have "mget (cd_nodes c) (nodeKey claims) = Some (find_owner claims c)"
    by (auto simp: find_owner_def mget0_def split: option.splits)
  with that show ?thesis
    by (auto elim: tables_nodeE [OF assms(1)])
qed

lemma find_owner_node:
  assumes "tables_ok c" and "mget (cd_nodes c) (nodeKey claims) = Some k"
  shows "find_owner claims c = k" and "k \<noteq> ''''"
proof -
  show "k \<noteq> ''''"
    using tables_nodeE [OF assms] tables_agentD(1) [OF assms(1)] by metis
  with assms(2) show "find_owner claims c = k"
    by (simp add: find_owner_def)
qed

text \<open>The coordinator between the release of the old owner and the entry of the new one.\<close>

definition released :: "agent_claims \<Rightarrow> time \<Rightarrow> coordinator \<Rightarrow> coordinator" where
  "released claims now c =
    (if new_owner claims c then retire (find_owner claims c) (now + co_RetiredTTL (cd_opts c)) c else c)"

lemma released_fields [simp]:
  "cd_store (released claims now c) = cd_store c" "cd_opts (released claims now c) = cd_opts c"
  "cd_epoch (released claims now c) = cd_epoch c"
  by (simp_all add: released_def)

lemma released_ok:
  assumes "tables_ok c"
  shows "tables_ok (released claims now c)"
    and "mget (cd_agents (released claims now c)) k =
      (if new_owner claims c \<and> k = find_owner claims c then None else mget (cd_agents c) k)"
    and "mget (cd_retired (released claims now c)) k =
      (if new_owner claims c \<and> k = find_owner claims c then Some (now + co_RetiredTTL (cd_opts c)) else mget (cd_retired c) k)"
    and "mget (cd_nodes (released claims now c)) (nodeKey claims) \<in> {None, Some (instanceKey claims)}"
proof -
  show ok: "tables_ok (released claims now c)"
    using assms by (auto simp: released_def new_owner_def intro: find_owner_agent retire_ok)
  show "mget (cd_agents (released claims now c)) k =
      (if new_owner claims c \<and> k = find_owner claims c then None else mget (cd_agents c) k)"
    "mget (cd_retired (released claims now c)) k =
      (if new_owner claims c \<and> k = find_owner claims c then Some (now + co_RetiredTTL (cd_opts c)) else mget (cd_retired c) k)"
    by (auto simp: released_def retire_get mget_mput)
  show "mget (cd_nodes (released claims now c)) (nodeKey claims) \<in> {None, Some (instanceKey claims)}"
  proof (cases "new_owner claims c")
    case True
    then obtain st where st: "mget (cd_agents c) (find_owner claims c) = Some st"
      by (auto simp: new_owner_def intro: find_owner_agent [OF assms])
    have "mget (cd_nodes c) (nodeKey claims) = None \<or> ag_nodeKey st = nodeKey claims"
    proof (cases "mget (cd_nodes c) (nodeKey claims)")
      case (Some k)
      with find_owner_node [OF assms Some] st tables_nodeE [OF assms Some] show ?thesis
        by (metis option.inject)
    qed simp
    with True st show ?thesis
      by (auto simp: released_def retire_def mget_mdel)
  next
    case False
    then show ?thesis
      by (cases "mget (cd_nodes c) (nodeKey claims)")
        (auto simp: released_def new_owner_def dest: find_owner_node [OF assms])
  qed
qed

lemma commit_released:
  "commit claims sequence digest response now c = (let c1 = released claims now c in
     c1\<lparr>cd_nodes := mput (nodeKey claims) (instanceKey claims) (cd_nodes c1),
       cd_agents := mput (instanceKey claims) \<lparr>ag_nodeUID = cl_NodeUID claims, ag_nodeKey = nodeKey claims,
         ag_nodeName = cl_NodeName claims, ag_role = cl_Role claims, ag_sequence = sequence, ag_digest = digest,
         ag_response = response\<rparr> (cd_agents c1)\<rparr>)"
  by (simp add: commit_def released_def)

lemma commit_fields [simp]:
  "cd_store (commit claims sequence digest response now c) = cd_store c"
  "cd_opts (commit claims sequence digest response now c) = cd_opts c"
  "cd_epoch (commit claims sequence digest response now c) = cd_epoch c"
  "cd_retired (commit claims sequence digest response now c) = cd_retired (released claims now c)"
  by (simp_all add: commit_released Let_def)

lemma commit_get:
  assumes "tables_ok c"
  shows "mget (cd_agents (commit claims sequence digest response now c)) k =
    (if k = instanceKey claims then Some \<lparr>ag_nodeUID = cl_NodeUID claims, ag_nodeKey = nodeKey claims,
         ag_nodeName = cl_NodeName claims, ag_role = cl_Role claims, ag_sequence = sequence, ag_digest = digest,
         ag_response = response\<rparr>
     else if new_owner claims c \<and> k = find_owner claims c then None else mget (cd_agents c) k)"
  using released_ok(2) [OF assms] by (simp add: commit_released Let_def mget_mput)

lemma commit_ok:
  assumes "tables_ok c" and "mget (cd_retired c) (instanceKey claims) = None" and "instanceKey claims \<noteq> ''''"
    and "\<And>st. mget (cd_agents c) (instanceKey claims) = Some st \<Longrightarrow> ag_nodeKey st = nodeKey claims" and "sequence \<noteq> 0"
  shows "tables_ok (commit claims sequence digest response now c)"
proof -
  note released = released_ok [OF assms(1), of claims now]
  have "find_owner claims c \<noteq> instanceKey claims" if "new_owner claims c"
    using that by (simp add: new_owner_def)
  with assms(2) have "mget (cd_retired (released claims now c)) (instanceKey claims) = None"
    by (auto simp: released(3))
  moreover have "k = instanceKey claims" if "mget (cd_nodes (released claims now c)) (nodeKey claims) = Some k" for k
    using released(4) that by auto
  ultimately show ?thesis
    unfolding commit_released Let_def
    using assms(3-5) released(1)
    by (intro take_node_ok) (auto simp: released(2) split: if_splits)
qed

lemma commit_sizes:
  assumes "tables_ok c" and "sizes_ok c"
    and "new_owner claims c \<Longrightarrow> int (mlen (cd_retired c)) < co_MaxRetired (cd_opts c)"
    and "mget (cd_agents c) (instanceKey claims) = None \<Longrightarrow> \<not> new_owner claims c \<Longrightarrow>
      int (mlen (cd_agents c)) < co_MaxAgents (cd_opts c)"
  shows "sizes_ok (commit claims sequence digest response now c)"
proof -
  have wf: "mwf (cd_agents c)"
    using assms(1) by (simp add: tables_ok_def)
  show ?thesis
  proof (cases "new_owner claims c")
    case True
    then obtain st where st: "mget (cd_agents c) (find_owner claims c) = Some st"
      by (auto simp: new_owner_def intro: find_owner_agent [OF assms(1)])
    then have present: "mget (cd_agents c) (find_owner claims c) \<noteq> None"
      by simp
    have "mlen (mput (instanceKey claims) x (mdel (find_owner claims c) (cd_agents c))) \<le> mlen (cd_agents c)" for x
      by (rule gm.replace_within [OF wf present])
    with True st present assms(2) retire_sizes [OF assms(1,2) assms(3) [OF True], of "find_owner claims c"] show ?thesis
      unfolding commit_released released_def Let_def sizes_ok_def
      by (simp add: retire_agents) (meson dual_order.trans of_nat_mono)
  next
    case False
    have "int (mlen (mput (instanceKey claims) x (cd_agents c))) \<le> co_MaxAgents (cd_opts c)" for x
      using assms(2,4) False wf by (auto simp: sizes_ok_def gomap_simps)
    with False assms(2) show ?thesis
      by (simp add: commit_released released_def Let_def sizes_ok_def)
  qed
qed

subsection \<open>One request\<close>

lemma sequence_checks_None:
  assumes "sequence_checks claims request digest c = None"
  shows "rq_Epoch request = cd_epoch c" and "as_NodeName (rq_Snapshot request) = cl_NodeName claims"
    and "rq_NodeUID request = cl_NodeUID claims" and "rq_Sequence request \<noteq> 0"
    and "mget (cd_retired c) (instanceKey claims) = None"
    and "mget (cd_agents c) (instanceKey claims) = Some st \<Longrightarrow>
      ag_nodeKey st = nodeKey claims \<and> ag_nodeName st = cl_NodeName claims \<and> ag_sequence st < rq_Sequence request"
  using assms by (auto simp: sequence_checks_def split: if_splits option.splits)

lemma sequence_checks_not_new: "sequence_checks claims request digest c = Some out \<Longrightarrow> out \<noteq> Replied r False"
  by (auto simp: sequence_checks_def split: if_splits option.splits)

lemma capacity_checks_not_new: "capacity_checks claims request now c = Some out \<Longrightarrow> out \<noteq> Replied r dup"
  by (auto simp: capacity_checks_def split: if_splits option.splits)

lemma capacity_checks_None:
  assumes "capacity_checks claims request now c = None"
  shows "mget (cd_agents c) (instanceKey claims) = None \<Longrightarrow> \<not> new_owner claims c \<Longrightarrow>
      int (mlen (cd_agents c)) < co_MaxAgents (cd_opts c)"
    and "new_owner claims c \<Longrightarrow> int (mlen (cd_retired c)) < co_MaxRetired (cd_opts c)"
    and "ValidateSnapshot (rq_Snapshot request) now (co_Handler (cd_opts c)) = None"
  using assms by (auto simp: capacity_checks_def split: if_splits option.splits)

text \<open>
  What the prunings of a request do to the state: some retired keys expire, and some agents of
  other producers leave.
\<close>

definition pruned :: "readings \<Rightarrow> string \<Rightarrow> coordinator \<Rightarrow> coordinator \<Rightarrow> bool" where
  "pruned rd key c c' \<longleftrightarrow> (\<exists>K. retired_from (pruneRetired (rd_prune rd) c) K (rd_inactive rd + co_RetiredTTL (cd_opts c)) c' \<and>
     (\<forall>k \<in> K. mget (cd_agents c) k \<noteq> None) \<and> (mget (cd_agents c) key \<noteq> None \<longrightarrow> K = {}))"

lemma pruned_refl:
  assumes "tables_ok c" and "sizes_ok c"
  shows "pruned rd key c (pruneRetired (rd_prune rd) c)"
  unfolding pruned_def retired_from_def
  using pruneRetired_ok [OF assms(1)] pruneRetired_sizes [OF assms(2)] by (auto intro!: exI [of _ "{}"])

lemma pruned_frame:
  assumes "pruned rd key c c'"
  shows "cd_store c' = cd_store c" "cd_opts c' = cd_opts c" "cd_epoch c' = cd_epoch c" "tables_ok c'" "sizes_ok c'"
    "mget (cd_agents c') key = mget (cd_agents c) key"
proof -
  obtain K where K: "retired_from (pruneRetired (rd_prune rd) c) K (rd_inactive rd + co_RetiredTTL (cd_opts c)) c'"
    and empty: "mget (cd_agents c) key \<noteq> None \<longrightarrow> K = {}"
    using assms by (auto simp: pruned_def)
  from K show "cd_store c' = cd_store c" "cd_opts c' = cd_opts c" "cd_epoch c' = cd_epoch c" "tables_ok c'" "sizes_ok c'"
    by (simp_all add: retired_from_def)
  have "mget (cd_agents c') key = mget (cd_agents c) key \<or> key \<in> K \<and> mget (cd_agents c') key = None"
    using K unfolding retired_from_def by auto
  with empty show "mget (cd_agents c') key = mget (cd_agents c) key"
    by auto
qed

lemma pruned_inactive:
  assumes "tables_ok c" and "sizes_ok c" and "mget (cd_agents c) key = None"
  shows "pruned rd key c (pruneInactive (rd_inactive rd) seen (pruneRetired (rd_prune rd) c))"
  using pruneInactive_from [where now = "rd_inactive rd" and seen = seen,
      OF pruneRetired_ok [where now = "rd_prune rd", OF assms(1)] pruneRetired_sizes [where now = "rd_prune rd", OF assms(2)]]
    assms(3) by (auto simp: pruned_def)

text \<open>The three ways a request can end.\<close>

lemma Accept_cases:
  assumes "Accept L rd seen claims request c = (out, c')" and "tables_ok c" and "sizes_ok c"
  obtains (untouched) e where "c' = c" "out = Rejected e"
  | (refused) "pruned rd (instanceKey claims) c c'" "\<And>r. out \<noteq> Replied r False"
      "out = Unreturned \<Longrightarrow> submit (il_store L) (rd_store rd) claims (rq_Snapshot request) (cd_store c) = Inl NoReturn"
  | (accepted) canonical c2 n s' where
      "validateProducerSnapshot claims (rq_Snapshot request) = None"
      "il_marshal L request = Some canonical"
      "pruned rd (instanceKey claims) c c2"
      "sequence_checks claims request (il_sum256 L canonical) (pruneRetired (rd_prune rd) c) = None"
      "capacity_checks claims request (rd_validate rd) c2 = None"
      "submit (il_store L) (rd_store rd) claims (rq_Snapshot request) (cd_store c) = Inr (n, s')"
      "out = Replied (accepted_response n) False"
      "c' = commit claims (rq_Sequence request) (il_sum256 L canonical) (accepted_response n) (rd_retire rd) (c2\<lparr>cd_store := s'\<rparr>)"
proof (cases "validateProducerSnapshot claims (rq_Snapshot request)")
  case (Some e)
  with assms(1) that(1) show ?thesis
    by (auto simp: Accept_def)
next
  case None
  note producer = None
  show ?thesis
  proof (cases "il_marshal L request")
    case None
    with assms(1) producer that(1) show ?thesis
      by (auto simp: Accept_def)
  next
    case (Some canonical)
    let ?digest = "il_sum256 L canonical" and ?c1 = "pruneRetired (rd_prune rd) c"
    define c2 where "c2 = (if mget (cd_agents ?c1) (instanceKey claims) = None \<and>
      int (mlen (cd_agents ?c1)) \<ge> co_MaxAgents (cd_opts ?c1) then pruneInactive (rd_inactive rd) seen ?c1 else ?c1)"
    have pruned: "pruned rd (instanceKey claims) c c2"
      unfolding c2_def using pruned_refl [OF assms(2,3)] pruned_inactive [OF assms(2,3)] by simp
    have store: "cd_store c2 = cd_store c"
      using pruned by (rule pruned_frame)
    show ?thesis
    proof (cases "sequence_checks claims request ?digest ?c1")
      case (Some r)
      with assms(1) producer \<open>il_marshal L request = Some canonical\<close> have "out = r" "c' = ?c1"
        by (auto simp: Accept_def Let_def)
      moreover have "r \<noteq> Unreturned"
        using Some by (auto simp: sequence_checks_def split: if_splits option.splits)
      ultimately show ?thesis
        using that(2) pruned_refl [OF assms(2,3)] sequence_checks_not_new [OF Some] by simp
    next
      case None
      note seqs = None
      show ?thesis
      proof (cases "capacity_checks claims request (rd_validate rd) c2")
        case (Some r)
        with assms(1) producer \<open>il_marshal L request = Some canonical\<close> seqs have "out = r" "c' = c2"
          by (auto simp: Accept_def Let_def c2_def)
        moreover have "r \<noteq> Unreturned"
          using Some by (auto simp: capacity_checks_def split: if_splits option.splits)
        ultimately show ?thesis
          using that(2) pruned capacity_checks_not_new [OF Some] by simp
      next
        case None
        have "Accept L rd seen claims request c =
          (case submit (il_store L) (rd_store rd) claims (rq_Snapshot request) (cd_store c2) of
             Inl e \<Rightarrow> (store_outcome e, c2)
           | Inr (n, s') \<Rightarrow> (Replied (accepted_response n) False,
               commit claims (rq_Sequence request) ?digest (accepted_response n) (rd_retire rd) (c2\<lparr>cd_store := s'\<rparr>)))"
          by (simp only: Accept_def Let_def producer \<open>il_marshal L request = Some canonical\<close> option.case seqs
              c2_def [symmetric] None)
        with assms(1) have result: "(out, c') =
          (case submit (il_store L) (rd_store rd) claims (rq_Snapshot request) (cd_store c) of
             Inl e \<Rightarrow> (store_outcome e, c2)
           | Inr (n, s') \<Rightarrow> (Replied (accepted_response n) False,
               commit claims (rq_Sequence request) ?digest (accepted_response n) (rd_retire rd) (c2\<lparr>cd_store := s'\<rparr>)))"
          using store by simp
        show ?thesis
        proof (cases "submit (il_store L) (rd_store rd) claims (rq_Snapshot request) (cd_store c)")
          case (Inl e)
          with result have c': "c' = c2" and out: "out = store_outcome e"
            by simp_all
          show ?thesis
          proof (rule that(2))
            show "pruned rd (instanceKey claims) c c'"
              using pruned c' by simp
            show "out \<noteq> Replied r False" for r
              by (simp add: out store_outcome_def)
            show "submit (il_store L) (rd_store rd) claims (rq_Snapshot request) (cd_store c) = Inl NoReturn" if "out = Unreturned"
              using that Inl by (simp add: out store_outcome_def split: if_splits)
          qed
        next
          case (Inr r)
          obtain n s' where r: "r = (n, s')"
            by (cases r)
          with Inr result have "out = Replied (accepted_response n) False"
            "c' = commit claims (rq_Sequence request) ?digest (accepted_response n) (rd_retire rd) (c2\<lparr>cd_store := s'\<rparr>)"
            by simp_all
          from that(3) [OF producer \<open>il_marshal L request = Some canonical\<close> pruned seqs None Inr [unfolded r] this]
          show ?thesis .
        qed
      qed
    qed
  qed
qed

lemma instanceKey_nonempty:
  assumes "producerClaims info cgroupUsername nodeContextUsername = Inr claims"
  shows "instanceKey claims \<noteq> ''''"
proof -
  have "v \<noteq> ''''" if "oneExtra extras name = Inr v" for extras name v
    using that by (auto simp: oneExtra_def trims_to_empty_def split: list.splits if_splits)
  then have "cl_PodUID c \<noteq> ''''" if "claimsFromUser info user = Inr c" for user c
    using that by (auto simp: claimsFromUser_def split: option.splits sum.splits if_splits)
  then have "cl_PodUID claims \<noteq> ''''"
    using assms by (auto simp: producerClaims_def split: if_splits sum.splits)
  then show ?thesis
    by (simp add: instanceKey_def)
qed

lemma pruned_key_retired:
  assumes "tables_ok c" and "pruned rd key c c'" and "mget (cd_retired (pruneRetired (rd_prune rd) c)) key = None"
  shows "mget (cd_retired c') key = None"
  using assms(2) unfolding pruned_def retired_from_def
  by (metis (no_types, lifting) assms(3) emptyE)

lemma Accept_ok:
  assumes "Accept L rd seen claims request c = (out, c')" and "tables_ok c" and "sizes_ok c" and "instanceKey claims \<noteq> ''''"
  shows "tables_ok c' \<and> sizes_ok c' \<and> cd_opts c' = cd_opts c \<and> cd_epoch c' = cd_epoch c"
  using assms(1-3)
proof (cases rule: Accept_cases)
  case untouched
  with assms show ?thesis
    by simp
next
  case refused
  then show ?thesis
    using pruned_frame by metis
next
  case (accepted canonical c2 n s')
  let ?c = "c2\<lparr>cd_store := s'\<rparr>"
  note frame = pruned_frame [OF accepted(3)]
  note seqs = sequence_checks_None [OF accepted(4)]
  have tables: "tables_ok ?c" and sizes: "sizes_ok ?c"
    using frame(4,5) by (simp_all add: tables_ok_def sizes_ok_def)
  have owner: "new_owner claims ?c = new_owner claims c2"
    by (simp add: new_owner_def find_owner_def Let_def)
  have "tables_ok c'"
    unfolding accepted(8)
  proof (rule commit_ok [OF tables])
    show "mget (cd_retired ?c) (instanceKey claims) = None"
      using pruned_key_retired [OF assms(2) accepted(3) seqs(5)] by simp
  qed (use assms(4) seqs(4,6) frame(6) in auto)
  moreover have "sizes_ok c'"
    unfolding accepted(8)
    by (rule commit_sizes [OF tables sizes]) (use capacity_checks_None [OF accepted(5)] owner in auto)
  ultimately show ?thesis
    using frame by (simp add: accepted(8))
qed

lemma ReplaceSnapshot_returns: "ReplaceAuthenticatedNodeSnapshot L now sn uid s \<noteq> Inl NoReturn"
  unfolding ReplaceSnapshot_guards Let_def by (intro returns_intros) simp_all

lemma submit_store:
  assumes "store_inv T s" and "T \<le> now"
  shows "submit L now claims sn s = Inr (n, s') \<Longrightarrow> store_inv now s'"
    and "validateProducerSnapshot claims sn = None \<Longrightarrow> submit L now claims sn s \<noteq> Inl NoReturn"
proof -
  show "submit L now claims sn s = Inr (n, s') \<Longrightarrow> store_inv now s'"
    using ReplaceSnapshot_inv [OF assms(1)] store_inv_parts(5) [OF _ assms(2)] ReplaceNodeEvidence_inv [OF assms]
    by (auto simp: submit_def split: if_splits option.splits sum.splits)
  show "submit L now claims sn s \<noteq> Inl NoReturn" if "validateProducerSnapshot claims sn = None"
  proof (cases "cl_Role claims = NodeContextProducer")
    case True
    with that have "as_NodeContext sn \<noteq> None"
      by (auto simp: validateProducerSnapshot_def NodeContextProducer_def CgroupProducer_def split: if_splits)
    then obtain v where v: "as_NodeContext sn = Some v"
      by auto
    with True show ?thesis
      using ReplaceNodeEvidence_returns [OF assms, of L v "as_VolumeBatch sn" "as_Topology sn"]
      by (auto simp: submit_def split: sum.split)
  next
    case False
    then show ?thesis
      by (simp add: submit_def ReplaceSnapshot_returns)
  qed
qed

subsection \<open>The coordinator as a system of steps\<close>

definition ordered :: "time \<Rightarrow> readings \<Rightarrow> bool" where
  "ordered T rd \<longleftrightarrow> T \<le> rd_prune rd \<and> rd_prune rd \<le> rd_inactive rd \<and> rd_inactive rd \<le> rd_validate rd \<and>
     rd_validate rd \<le> rd_store rd \<and> rd_store rd \<le> rd_retire rd"

text \<open>
  Requests with authenticated claims, questions for the epoch, and the steps that other parts of the
  collector make on the store.
\<close>

inductive coordinator_step :: "'m ingest_lib \<Rightarrow> time \<times> coordinator \<Rightarrow> time \<times> coordinator \<Rightarrow> bool" for L where
  request: "ordered T rd \<Longrightarrow> producerClaims info agent node = Inr claims \<Longrightarrow>
    Accept L rd seen claims req c = (out, c') \<Longrightarrow> coordinator_step L (T, c) (rd_retire rd, c')"
| epoch: "T \<le> now \<Longrightarrow> coordinator_step L (T, c) (now, snd (Epoch key now c))"
| shared: "store_step (il_store L) (T, cd_store c) (T', s') \<Longrightarrow> coordinator_step L (T, c) (T', c\<lparr>cd_store := s'\<rparr>)"

inductive_cases coordinator_stepE: "coordinator_step L (T, c) (T', c')"

definition coordinator_inv :: "time \<times> coordinator \<Rightarrow> bool" where
  "coordinator_inv p \<longleftrightarrow> (case p of (T, c) \<Rightarrow> tables_ok c \<and> sizes_ok c \<and> store_inv T (cd_store c))"

definition new_coordinator :: "time \<times> coordinator \<Rightarrow> bool" where
  "new_coordinator p \<longleftrightarrow> (\<exists>T s opts configured random. new_store (T, s) \<and> fst p = T \<and>
     NewCoordinator (Some s) opts configured random = Inr (snd p))"

lemma new_coordinator_inv: "new_coordinator p \<Longrightarrow> coordinator_inv p"
proof -
  assume "new_coordinator p"
  then obtain T s opts configured random where new: "new_store (T, s)" "fst p = T"
    "NewCoordinator (Some s) opts configured random = Inr (snd p)"
    unfolding new_coordinator_def by blast
  have "store_inv T s"
    using store_system.inv_initial [OF new(1)] by simp
  with new(2,3) show "coordinator_inv p"
    by (cases p) (auto simp: coordinator_inv_def NewCoordinator_def tables_ok_def sizes_ok_def Let_def go_simps
      split: option.splits if_splits)
qed

lemma coordinator_step_inv:
  assumes "coordinator_step L p q" and "coordinator_inv p"
  shows "coordinator_inv q \<and> fst p \<le> fst q \<and> cd_opts (snd q) = cd_opts (snd p)"
  using assms(1)
proof cases
  case (request T rd info agent node claims seen req c out c')
  have inv: "tables_ok c" "sizes_ok c" "store_inv T (cd_store c)"
    using assms(2) request(1) by (auto simp: coordinator_inv_def)
  have le: "T \<le> rd_store rd" "rd_store rd \<le> rd_retire rd"
    using request(3) by (auto simp: ordered_def)
  have "store_inv (rd_retire rd) (cd_store c')"
    using request(5) inv(1,2)
  proof (cases rule: Accept_cases)
    case untouched
    with inv(3) le show ?thesis
      by (metis store_inv_parts(5) order.trans)
  next
    case refused
    with inv(3) le show ?thesis
      by (metis store_inv_parts(5) order.trans pruned_frame(1))
  next
    case (accepted canonical c2 n s')
    then have "store_inv (rd_store rd) s'"
      by (blast intro: submit_store(1) [OF inv(3) le(1)])
    then have "store_inv (rd_retire rd) s'"
      by (rule store_inv_parts(5)) (rule le(2))
    then show ?thesis
      by (simp add: accepted(8))
  qed
  moreover have "tables_ok c' \<and> sizes_ok c' \<and> cd_opts c' = cd_opts c"
    using Accept_ok [OF request(5) inv(1,2) instanceKey_nonempty [OF request(4)]] by simp
  ultimately show ?thesis
    using request(1,2) le by (simp add: coordinator_inv_def)
next
  case (epoch T now c key)
  then show ?thesis
    using assms(2) pruneRetired_ok [of c now] pruneRetired_sizes [of c now] store_inv_parts(5) [of T "cd_store c" now]
    by (simp add: coordinator_inv_def Epoch_def)
next
  case (shared T c T' s')
  then show ?thesis
    using assms(2) store_step_inv [OF shared(3)]
    by (auto simp: coordinator_inv_def sizes_ok_def tables_ok_def)
qed

interpretation coordinator_system: step_system new_coordinator "coordinator_step L" coordinator_inv for L
  by unfold_locales (auto simp: new_coordinator_inv dest: coordinator_step_inv)

end
