(* ===== verification/Store_Properties.thy ===== *)
theory Store_Properties
  imports Store_Run
begin

text \<open>
  The properties of the collector's store: its counters and limits in every reachable state, what an
  accepted snapshot, report or inventory changes, and what its summaries promise.
\<close>

subsection \<open>A store to apply them to\<close>

definition sample_limits :: store_limits where
  "sample_limits = \<lparr>sl_MaxNodes = 2, sl_MaxContainers = 3\<rparr>"

definition empty_store :: store where
  "empty_store = newStore DefaultHistoryOptions sample_limits 50"

definition sample_store_lib :: store_lib where
  "sample_store_lib = \<lparr>lb_hash = const_hash, lb_node = sample_lib, lb_volume = sample_vol_lib 0 0,
     lb_topology = plain_topo_lib, lb_decode = (\<lambda>_. sample_report)\<rparr>"

lemma empty_store_new: "new_store (50, empty_store)"
  unfolding new_store_def empty_store_def
  by (intro exI [of _ DefaultHistoryOptions] exI [of _ sample_limits] exI [of _ 50])
    (simp add: DefaultHistoryOptions_def go_simps)

lemma empty_store_inv: "store_inv T empty_store"
  unfolding empty_store_def by (rule newStore_inv) (simp_all add: DefaultHistoryOptions_def go_simps)

lemma empty_store_fields [simp]:
  "st_nodes empty_store = []" "st_containerCount empty_store = 0" "st_limits empty_store = sample_limits"
  "nc_latest (st_nodeContext empty_store) = []" "st_expectedNodeUIDs empty_store = []"
  "vs_entries (st_volumes empty_store) = []" "st_inventoryUpdatedAt empty_store = 0" "st_volumes empty_store = newVolumeStore"
  by (simp_all add: empty_store_def newStore_def sample_limits_def newNodeContextStore_def newVolumeStore_def Let_def)

lemma sample_snapshot_accepted:
  "ReplaceAuthenticatedNodeSnapshot sample_store_lib 120 (sample_snapshot 100 memory_zero) ''u1'' empty_store
    = Inr (2, snapshot_step sample_store_lib 120 (sample_snapshot 100 memory_zero) ''u1'' snapshot_zero empty_store)"
  by (simp add: ReplaceSnapshot_guards sample_snapshot_fields previous_snapshot_def snapshot_zero_def containers_of_def
      nodeRecordCountLocked_def sharedNodeRecordsLocked_def mkeys_def sample_limits_def)

subsection \<open>Counters and limits\<close>

text \<open>
  C2. Whatever the store is sent, its counters are exact and its limits hold: the container count
  is the number of stored containers and within the limit, no more Nodes than the limit have a
  snapshot or a context record, the volume byte count is the exact size of the stored entries and
  within the budget, and so is the byte count of the Node history.
\<close>

theorem store_counters_exact:
  assumes "new_store (T0, s0)" and "(store_step L)\<^sup>*\<^sup>* (T0, s0) (T, s)"
  shows "st_containerCount s = (\<Sum>(name, sn) \<leftarrow> st_nodes s. int (length (sn_containers sn)))
    \<and> st_containerCount s \<le> sl_MaxContainers (st_limits s)
    \<and> int (card (dom (mget (st_nodes s)) \<union> dom (mget (nc_latest (st_nodeContext s))))) \<le> sl_MaxNodes (st_limits s)
    \<and> vs_bytes (st_volumes s) = (\<Sum>(name, e) \<leftarrow> vs_entries (st_volumes s). volume_entry_bytes e)
    \<and> vs_bytes (st_volumes s) \<le> volumeUsageLimitLocked (st_volumes s)
    \<and> nc_historyBytes (st_nodeContext s) =
        (\<Sum>(uid, series) \<leftarrow> nc_history (st_nodeContext s). points_bytes (nx_points series))
    \<and> nc_historyBytes (st_nodeContext s) \<le> int MaxHistoryBytes"
proof -
  have "store_inv T s"
    using store_system.reachable_inv [OF assms] by simp
  then show ?thesis
    by (simp add: store_inv_def counts_ok_def volume_ok_def node_ok_def node_wf_def node_names_def msum_def
        containers_of_def series_bytes_def)
qed

theorem store_counters_exact_witness:
  "let s = snapshot_step sample_store_lib 120 (sample_snapshot 100 memory_zero) ''u1'' snapshot_zero empty_store
   in st_containerCount s = 2 \<and> st_containerCount s \<le> 3
    \<and> st_containerCount s = (\<Sum>(name, sn) \<leftarrow> st_nodes s. int (length (sn_containers sn)))"
proof -
  let ?s = "snapshot_step sample_store_lib 120 (sample_snapshot 100 memory_zero) ''u1'' snapshot_zero empty_store"
  have "store_step sample_store_lib (50, empty_store) (120, ?s)"
    by (rule snapshot [OF _ sample_snapshot_accepted]) simp
  then have "(store_step sample_store_lib)\<^sup>*\<^sup>* (50, empty_store) (120, ?s)"
    by blast
  from store_counters_exact [OF empty_store_new this] have
    "st_containerCount ?s = (\<Sum>(name, sn) \<leftarrow> st_nodes ?s. int (length (sn_containers sn)))"
    "st_containerCount ?s \<le> sl_MaxContainers (st_limits ?s)"
    by simp_all
  moreover have "st_containerCount ?s = 2" "sl_MaxContainers (st_limits ?s) = 3"
    by (simp_all add: snapshot_step_def Let_def containers_of_def snapshot_zero_def sample_snapshot_fields sample_limits_def)
  ultimately show ?thesis
    by (simp only: Let_def)
qed

subsection \<open>A snapshot replaces the Node\<close>

lemma fold_mput_get:
  "mget (fold (\<lambda>c m. mput (f c) c m) cs m0) k = Some p \<Longrightarrow> p \<in> set cs \<and> f p = k \<or> mget m0 k = Some p"
proof (induction cs arbitrary: m0)
  case (Cons c cs)
  then show ?case
    using Cons.IH [of "mput (f c) c m0"] by (auto simp: mget_mput split: if_splits)
qed simp

lemma store_container_fields [simp]:
  "cs_ContainerID (store_container sn prev m c) = cs_ContainerID c"
  "cs_CapturedAt (store_container sn prev m c) = as_CapturedAt sn"
  "cs_NodeName (store_container sn prev m c) = as_NodeName sn"
  by (simp_all add: store_container_def Let_def)

lemma store_container_window:
  assumes "c \<in> set (store_containers sn prev)" and "cs_DeltaWindowKnown c"
  shows "\<exists>p \<in> set (sn_containers prev). sameContainerInstance c p \<and> cs_DeltaStartedAt c = sn_capturedAt prev"
proof -
  define m where "m = fold (\<lambda>c m. mput (cs_ContainerID c) c m) (sn_containers prev) []"
  obtain c0 where c: "c = store_container sn prev m c0"
    using assms(1) by (auto simp: store_containers_def m_def Let_def)
  from assms(2) obtain p where p: "mget m (cs_ContainerID c0) = Some p"
    and same: "sameContainerInstance c p" and "cs_DeltaStartedAt c = sn_capturedAt prev"
    unfolding c by (auto simp: store_container_def Let_def sameContainerInstance_def mget0_def split: if_splits option.splits)
  moreover have "p \<in> set (sn_containers prev)"
    using fold_mput_get [of cs_ContainerID "sn_containers prev" "[]"] p by (auto simp: m_def)
  ultimately show ?thesis
    by blast
qed

text \<open>
  C3. A snapshot newer than the stored one replaces everything the Node had reported: its entry
  holds exactly the containers of the snapshot, in their order, at the snapshot's time and under the
  producer's identity; no other Node changes; and a delta window is claimed only over the previous
  snapshot of the same identity, for an instance that was in it, and starts at its capture.
\<close>

theorem snapshot_replaces_node:
  assumes "ReplaceAuthenticatedNodeSnapshot L now sn uid s = Inr (n, s')"
    and "as_CapturedAt sn \<noteq> sn_capturedAt (mget0 snapshot_zero (st_nodes s) (as_NodeName sn))"
  shows "\<exists>cs prev. mget (st_nodes s') (as_NodeName sn) = Some \<lparr>sn_uid = uid, sn_capturedAt = as_CapturedAt sn,
        sn_environment = as_Environment sn, sn_containers = cs\<rparr>
    \<and> n = length cs \<and> map cs_ContainerID cs = map cs_ContainerID (as_Containers sn)
    \<and> (\<forall>name. name \<noteq> as_NodeName sn \<longrightarrow> mget (st_nodes s') name = mget (st_nodes s) name)
    \<and> (prev = mget0 snapshot_zero (st_nodes s) (as_NodeName sn) \<and> (uid = '''' \<or> sn_uid prev \<in> {'''', uid})
        \<and> (sn_capturedAt prev = 0 \<or> sn_capturedAt prev < as_CapturedAt sn) \<or> sn_containers prev = [])
    \<and> (\<forall>c \<in> set cs. cs_CapturedAt c = as_CapturedAt sn \<and> cs_NodeName c = as_NodeName sn \<and>
        (cs_DeltaWindowKnown c \<longrightarrow> (\<exists>p \<in> set (sn_containers prev).
          sameContainerInstance c p \<and> cs_DeltaStartedAt c = sn_capturedAt prev)))"
  using assms(1)
proof (cases rule: ReplaceSnapshot_cases)
  case held
  with assms(2) show ?thesis
    by simp
next
  case stored
  define prev where "prev = previous_snapshot uid (mget0 snapshot_zero (st_nodes s) (as_NodeName sn))"
  have "prev = mget0 snapshot_zero (st_nodes s) (as_NodeName sn) \<and> (uid = '''' \<or> sn_uid prev \<in> {'''', uid})
      \<and> (sn_capturedAt prev = 0 \<or> sn_capturedAt prev < as_CapturedAt sn) \<or> sn_containers prev = []"
    using stored(5) by (auto simp: prev_def previous_snapshot_def snapshot_zero_def)
  moreover have "\<forall>c \<in> set (store_containers sn prev). cs_CapturedAt c = as_CapturedAt sn \<and> cs_NodeName c = as_NodeName sn \<and>
      (cs_DeltaWindowKnown c \<longrightarrow> (\<exists>p \<in> set (sn_containers prev).
          sameContainerInstance c p \<and> cs_DeltaStartedAt c = sn_capturedAt prev))"
    using store_container_window by (fastforce simp: store_containers_def Let_def)
  moreover have "map cs_ContainerID (store_containers sn prev) = map cs_ContainerID (as_Containers sn)"
    by (simp add: store_containers_def Let_def)
  ultimately show ?thesis
    unfolding stored(1,2) prev_def [symmetric]
    by (intro exI [of _ "store_containers sn prev"] exI [of _ prev]) (simp add: snapshot_step_def Let_def mget_mput)
qed

theorem snapshot_replaces_node_witness:
  "\<exists>cs. mget (st_nodes (snapshot_step sample_store_lib 120 (sample_snapshot 100 memory_zero) ''u1'' snapshot_zero empty_store))
      ''n1'' = Some \<lparr>sn_uid = ''u1'', sn_capturedAt = 100, sn_environment = sample_env, sn_containers = cs\<rparr>
    \<and> map cs_ContainerID cs = [''a'', ''b'']"
  using snapshot_replaces_node [OF sample_snapshot_accepted]
  by (auto simp: sample_snapshot_fields snapshot_zero_def sample_snapshot_def sample_container_ContainerID)

subsection \<open>Node evidence advances\<close>

definition inventoried_store :: store where
  "inventoried_store = (case ReconcileNodeIdentities [(''n1'', ''u1'')] 100 empty_store of Inr s \<Rightarrow> s | Inl _ \<Rightarrow> empty_store)"

lemma inventoried_reconciled: "ReconcileNodeIdentities [(''n1'', ''u1'')] 100 empty_store = Inr inventoried_store"
  by (simp add: inventoried_store_def ReconcileNodeIdentities_def mlen_def sample_limits_def Let_def)

lemma inventoried_store_inv: "store_inv T inventoried_store"
  by (rule Reconcile_Inr(9) [OF inventoried_reconciled empty_store_inv])

lemma inventoried_store_fields:
  "st_expectedNodeUIDs inventoried_store = [(''n1'', ''u1'')]" "st_inventoryKnown inventoried_store"
  "st_inventoryUpdatedAt inventoried_store = 100" "nc_latest (st_nodeContext inventoried_store) = []"
  "st_nodes inventoried_store = []" "st_limits inventoried_store = sample_limits"
  "st_volumes inventoried_store = newVolumeStore"
  by (simp_all add: inventoried_store_def ReconcileNodeIdentities_def mlen_def sample_limits_def mkeep_def Let_def
      pruneVolumeEntriesLocked_def delete_entries_def newVolumeStore_def)

lemma sample_report_valid_window: "obs_Validate sample_lib sample_report 120 (2 * minute) (30 * second)"
  by (simp add: obs_Validate_def sample_report_defs header_ok_def valid_time_def caveats_ok_def
      validateContext_def stats_ok_def HasMeasurements_def known_measurement_def check_sample_def
      sample_times_def validatePSI_def cap_defs node_limit_defs Let_def go_simps)

lemma sample_evidence_checked:
  "\<exists>r. evidence_checks sample_store_lib 120 sample_report '''' '''' inventoried_store = Inr r"
proof -
  have "lib_marshal sample_lib sample_report = Some ''n1u1''"
    by (simp add: sample_lib_def sample_report_def)
  moreover have "nodeIdentityCurrentLocked inventoried_store (ob_NodeName sample_report) (ob_NodeUID sample_report) 120"
    by (simp add: nodeIdentityCurrentLocked_def inventoried_store_fields sample_report_def mget0_def mget_def node_limit_defs go_simps)
  moreover have "\<not> clock_before (observationClock sample_report) zero_clock"
    by (simp add: clock_before_def observationClock_def sample_report_defs zero_clock_def numeral_eq_Suc Let_def)
  ultimately show ?thesis
    using sample_report_valid_window
    by (simp add: evidence_checks_def sample_store_lib_def inventoried_store_fields node_entry_zero_def mget0_def
        nodeRecordCountLocked_def sharedNodeRecordsLocked_def mkeys_def sample_limits_def prepareVolumeEntryLocked_def
        newVolumeStore_def volume_entry_zero_def prepareTopologyEntry_def topology_zero_def MaxObservationBytes_def Let_def)
      (simp add: sample_report_def)
qed

lemma sample_evidence_accepted:
  "\<exists>s'. ReplaceNodeEvidence sample_store_lib 120 sample_report '''' '''' inventoried_store = Inr s'"
proof -
  obtain data previous entry topo where
    "evidence_checks sample_store_lib 120 sample_report '''' '''' inventoried_store = Inr (data, previous, entry, topo)"
    using sample_evidence_checked by (metis prod_cases4)
  then show ?thesis
    using ReplaceNodeEvidence_returns [OF inventoried_store_inv [of 120], of 120 sample_store_lib sample_report "''''" "''''"]
    by (auto simp: ReplaceNodeEvidence_def Let_def split: option.splits)
qed

text \<open>
  C4. An accepted Node report is for the identity the current inventory gives the Node, and it
  moves that identity's evidence forward only: its report time is later than the retained one and
  no measurement clock goes back. Other Nodes keep their entries.
\<close>

theorem accepted_evidence_advances:
  assumes "store_inv T s" and "T \<le> now" and "ReplaceNodeEvidence L now v volumes topology s = Inr s'"
  shows "mget0 '''' (st_expectedNodeUIDs s) (ob_NodeName v) = ob_NodeUID v
    \<and> now - st_inventoryUpdatedAt s \<le> StaleAfter
    \<and> (\<exists>e'. mget (nc_latest (st_nodeContext s')) (ob_NodeName v) = Some e' \<and> ne_uid e' = ob_NodeUID v \<and>
        ne_reportedAt e' = ob_ReportedAt v \<and>
        (\<forall>e. mget (nc_latest (st_nodeContext s)) (ob_NodeName v) = Some e \<longrightarrow> ne_uid e = ob_NodeUID v \<longrightarrow>
          ne_reportedAt e < ne_reportedAt e' \<and> clock_le (ne_clock e) (ne_clock e')))
    \<and> (\<forall>name. name \<noteq> ob_NodeName v \<longrightarrow>
        mget (nc_latest (st_nodeContext s')) name = mget (nc_latest (st_nodeContext s)) name)"
  using assms(3)
proof (rule ReplaceNodeEvidence_Inr)
  fix data previous entry topo held
  assume checks: "evidence_checks L now v volumes topology s = Inr (data, previous, entry, topo)"
    and held: "held = st_nodeContext s \<or>
      node_record (ob_NodeName v) (ob_NodeUID v) (ne_capturedAt (evidence_entry now v data previous topo)) data now
        (st_nodeContext s) = Some held"
    and s': "s' = s\<lparr>st_nodeContext := held\<lparr>nc_latest := mput (ob_NodeName v)
          (evidence_entry now v data previous topo) (nc_latest held)\<rparr>,
        st_volumes := commitVolumeEntryLocked (ob_NodeName v) entry (st_volumes s)\<rparr>"
  note latest = ReplaceNodeEvidence_context(2) [OF assms(1,2) checks held]
  note facts = evidence_checks_Inr [OF checks]
  have "min_int64 \<le> StaleAfter" "StaleAfter < max_int64"
    by (simp_all add: StaleAfter_def go_simps)
  then have identity: "mget0 '''' (st_expectedNodeUIDs s) (ob_NodeName v) = ob_NodeUID v"
    "now - st_inventoryUpdatedAt s \<le> StaleAfter"
    using facts(3) by (simp_all add: nodeIdentityCurrentLocked_def)
  have advance: "ne_reportedAt e < ob_ReportedAt v \<and> clock_le (ne_clock e) (retainingMissing (observationClock v) (ne_clock previous))"
    if e: "mget (nc_latest (st_nodeContext s)) (ob_NodeName v) = Some e" and "ne_uid e = ob_NodeUID v" for e
  proof -
    have "previous = e"
      using that by (simp add: facts(6) Let_def)
    moreover have "length (ne_clock e) = 16"
      using assms(1) e by (simp add: store_inv_def entries_ok_def)
    ultimately show ?thesis
      using facts(7,8) retainingMissing_le [of "observationClock v" "ne_clock e"] by simp
  qed
  show ?thesis
    using identity advance by (simp add: s' latest mget_mput)
qed

theorem accepted_evidence_advances_witness:
  "\<exists>s'. ReplaceNodeEvidence sample_store_lib 120 sample_report '''' '''' inventoried_store = Inr s' \<and>
    (\<exists>e. mget (nc_latest (st_nodeContext s')) ''n1'' = Some e \<and> ne_uid e = ''u1'' \<and> ne_reportedAt e = 110)"
proof -
  obtain s' where s': "ReplaceNodeEvidence sample_store_lib 120 sample_report '''' '''' inventoried_store = Inr s'"
    using sample_evidence_accepted by blast
  have "(100::time) \<le> 120"
    by simp
  from accepted_evidence_advances [OF inventoried_store_inv this s'] s' show ?thesis
    by (auto simp: sample_report_def)
qed

text \<open>
  The store never hangs on a report: in every reachable state, accepting Node evidence returns
  a result, whatever has to be evicted to make room for it.
\<close>

theorem evidence_returns:
  assumes "new_store (T0, s0)" and "(store_step L)\<^sup>*\<^sup>* (T0, s0) (T, s)" and "T \<le> now"
  shows "ReplaceNodeEvidence L now v volumes topology s \<noteq> Inl NoReturn"
proof -
  have "store_inv T s"
    using store_system.reachable_inv [OF assms(1,2)] by simp
  then show ?thesis
    using assms(3) by (rule ReplaceNodeEvidence_returns)
qed

theorem evidence_returns_witness:
  "ReplaceNodeEvidence sample_store_lib 120 sample_report '''' '''' inventoried_store \<noteq> Inl NoReturn"
proof -
  have "store_step sample_store_lib (50, empty_store) (110, inventoried_store)"
    by (rule inventory [OF _ inventoried_reconciled]) simp
  then have "(store_step sample_store_lib)\<^sup>*\<^sup>* (50, empty_store) (110, inventoried_store)"
    by blast
  then show ?thesis
    by (rule evidence_returns [OF empty_store_new]) simp
qed

subsection \<open>A new inventory disowns\<close>

text \<open>What is left under a new inventory.\<close>

lemma inventory_leaves:
  assumes "store_inv T s" and "ReconcileNodeIdentities identities observedAt s = Inr s'"
  shows "\<forall>name e. mget (nc_latest (st_nodeContext s')) name = Some e \<longleftrightarrow>
      mget (nc_latest (st_nodeContext s)) name = Some e \<and> mget0 '''' (st_expectedNodeUIDs s') name = ne_uid e"
    and "\<forall>name e. mget (vs_entries (st_volumes s')) name = Some e \<longleftrightarrow>
      mget (vs_entries (st_volumes s)) name = Some e \<and> mget0 '''' (st_expectedNodeUIDs s') name = ve_uid e \<and>
      observedAt - ve_reportedAt e \<le> vol_ExpireAfter"
    and "\<forall>name sn. mget (st_nodes s') name = Some sn \<longrightarrow>
      mget (st_nodes s) name = Some sn \<and> mget (st_expectedNodeUIDs s') name \<noteq> None"
    and "\<forall>name uid sn. mget (st_nodes s) name = Some sn \<longrightarrow> mget (st_expectedNodeUIDs s') name = Some uid \<longrightarrow>
      mget0 '''' (st_expectedNodeUIDs s) name \<in> {'''', uid} \<longrightarrow> mget (st_nodes s') name = Some sn"
proof -
  note rec = Reconcile_Inr [OF assms(2,1)]
  have wf: "mwf (nc_latest (st_nodeContext s))"
    using assms(1) by (simp add: store_inv_def entries_ok_def)
  have expire: "min_int64 \<le> vol_ExpireAfter" "vol_ExpireAfter < max_int64"
    by (simp_all add: vol_ExpireAfter_def go_simps)
  show "\<forall>name e. mget (nc_latest (st_nodeContext s')) name = Some e \<longleftrightarrow>
      mget (nc_latest (st_nodeContext s)) name = Some e \<and> mget0 '''' (st_expectedNodeUIDs s') name = ne_uid e"
    unfolding rec(2,4) by (simp add: mget_mkeep_Some [OF wf])
  show "\<forall>name e. mget (vs_entries (st_volumes s')) name = Some e \<longleftrightarrow>
      mget (vs_entries (st_volumes s)) name = Some e \<and> mget0 '''' (st_expectedNodeUIDs s') name = ve_uid e \<and>
      observedAt - ve_reportedAt e \<le> vol_ExpireAfter"
    unfolding rec(3,4) using expire by (auto split: option.splits)
  show "\<forall>name sn. mget (st_nodes s') name = Some sn \<longrightarrow>
      mget (st_nodes s) name = Some sn \<and> mget (st_expectedNodeUIDs s') name \<noteq> None"
    unfolding rec(1,4) by (auto simp: snapshot_disowned_def split: option.splits if_splits)
  show "\<forall>name uid sn. mget (st_nodes s) name = Some sn \<longrightarrow> mget (st_expectedNodeUIDs s') name = Some uid \<longrightarrow>
      mget0 '''' (st_expectedNodeUIDs s) name \<in> {'''', uid} \<longrightarrow> mget (st_nodes s') name = Some sn"
    unfolding rec(1,4) by (auto simp: snapshot_disowned_def split: option.splits)
qed



text \<open>
  Snapshots are weaker there: only the previous inventory's identity is compared with the new one,
  never the identity the snapshot was accepted under. A snapshot accepted before the first inventory
  stays in place under an inventory that names another identity.
\<close>

lemma inventory_keeps_foreign_snapshot:
  assumes "mget (st_nodes s) name = Some sn" and "sn_uid sn = old" and "old \<noteq> ''''" and "uid \<noteq> old"
    and "mget (st_expectedNodeUIDs s) name = None" and "name \<noteq> ''''" and "store_inv T s"
    and "ReconcileNodeIdentities identities observedAt s = Inr s'" and "mget identities name = Some uid" and "mwf identities"
  shows "mget (st_nodes s') name = Some sn \<and> mget (st_expectedNodeUIDs s') name = Some uid \<and> sn_uid sn \<noteq> uid"
proof -
  have "mget (named_uids identities) name = Some uid"
    using assms(6,9,10) by (simp add: named_uids_def mget_mkeep)
  then show ?thesis
    using Reconcile_Inr(1,4) [OF assms(8,7)] assms(1,2,4,5) by (simp add: snapshot_disowned_def)
qed

subsection \<open>What the summaries promise\<close>

text \<open>When the collector is ready, and when its evidence is complete.\<close>

lemma ready_state:
  "rl_State (fst (Reliability seconds s now ttl)) = CollectorReady \<longleftrightarrow>
    st_nodes s \<noteq> [] \<and> (\<forall>(name, sn) \<in> set (st_nodes s). \<not> isStale (sn_capturedAt sn) now ttl \<and> \<not> nodeEvidencePartial sn)
    \<and> (st_inventoryKnown s \<longrightarrow> (\<forall>name \<in> set (mkeys (st_expectedNodes s)). mget (st_nodes s) name \<noteq> None))"
  "(rl_Completeness (fst (Reliability seconds s now ttl)) = EvidenceComplete) =
    (rl_State (fst (Reliability seconds s now ttl)) = CollectorReady)"
proof -
  let ?s = "s\<lparr>st_history := history_prune (st_history s) now\<rparr>"
  have fields: "rl_State (fst (Reliability seconds s now ttl)) = fst (collector_state ?s now ttl)"
    "rl_Completeness (fst (Reliability seconds s now ttl)) = snd (collector_state ?s now ttl)"
    by (simp_all add: Reliability_def reliabilityLocked_def Let_def split: prod.split)
  have stale: "stale_nodes ?s now ttl > 0 \<longleftrightarrow> (\<exists>(name, sn) \<in> set (st_nodes s). isStale (sn_capturedAt sn) now ttl)"
    by (auto simp: stale_nodes_def filter_empty_conv)
  have missing: "missing_nodes ?s > 0 \<longleftrightarrow>
      st_inventoryKnown s \<and> (\<exists>name \<in> set (mkeys (st_expectedNodes s)). mget (st_nodes s) name = None)"
    by (auto simp: missing_nodes_def filter_empty_conv)
  have ready: "fst (collector_state ?s now ttl) = CollectorReady \<longleftrightarrow>
      st_nodes s \<noteq> [] \<and> \<not> stale_nodes ?s now ttl > 0 \<and> \<not> missing_nodes ?s > 0 \<and>
      \<not> (\<exists>(name, sn) \<in> set (st_nodes s). nodeEvidencePartial sn)"
    by (auto simp: collector_state_def Let_def mlen_def list_ex_iff CollectorReady_def CollectorRebuilding_def
        CollectorStale_def CollectorDegraded_def)
  show "rl_State (fst (Reliability seconds s now ttl)) = CollectorReady \<longleftrightarrow>
    st_nodes s \<noteq> [] \<and> (\<forall>(name, sn) \<in> set (st_nodes s). \<not> isStale (sn_capturedAt sn) now ttl \<and> \<not> nodeEvidencePartial sn)
    \<and> (st_inventoryKnown s \<longrightarrow> (\<forall>name \<in> set (mkeys (st_expectedNodes s)). mget (st_nodes s) name \<noteq> None))"
    unfolding fields ready stale missing by auto
  show "(rl_Completeness (fst (Reliability seconds s now ttl)) = EvidenceComplete) =
    (rl_State (fst (Reliability seconds s now ttl)) = CollectorReady)"
    unfolding fields by (simp add: collector_state_def Let_def CollectorReady_def CollectorRebuilding_def
        CollectorStale_def CollectorDegraded_def)
qed

text \<open>
  The collector calls itself ready, with complete evidence, exactly when it holds at least one
  Node snapshot, none of them is stale or partial, and every Node of a known inventory has one.
\<close>

theorem ready_state_exact:
  "(rl_State (fst (Reliability seconds s now ttl)) = CollectorReady \<longleftrightarrow>
      st_nodes s \<noteq> [] \<and> (\<forall>(name, sn) \<in> set (st_nodes s). \<not> isStale (sn_capturedAt sn) now ttl \<and> \<not> nodeEvidencePartial sn)
      \<and> (st_inventoryKnown s \<longrightarrow> (\<forall>name \<in> set (mkeys (st_expectedNodes s)). mget (st_nodes s) name \<noteq> None)))
    \<and> (rl_Completeness (fst (Reliability seconds s now ttl)) = EvidenceComplete \<longleftrightarrow>
      rl_State (fst (Reliability seconds s now ttl)) = CollectorReady)"
  by (intro conjI ready_state)

theorem ready_state_exact_witness:
  "rl_State (fst (Reliability (\<lambda>d. d div second) empty_store 60 (30 * second))) \<noteq> CollectorReady"
  using ready_state_exact [of "\<lambda>d. d div second" empty_store 60 "30 * second"] by simp

text \<open>The order and the elements of the list of Nodes.\<close>

lemma node_list:
  assumes "store_inv T s" and "distinct (mkeys (st_expectedNodes s))"
  shows "sorted_wrt (<) (map nd_NodeName (ListNodes s now ttl))"
    and "nd \<in> set (ListNodes s now ttl) \<longleftrightarrow>
      (\<exists>sn. mget (st_nodes s) (nd_NodeName nd) = Some sn \<and> nd_NodeName nd \<noteq> '''' \<and> sn_capturedAt sn \<noteq> 0 \<and>
        nd = status_of now ttl (nd_NodeName nd, sn)) \<or>
      (nd_NodeName nd \<in> set (mkeys (st_expectedNodes s)) \<and> nd = missing_status (nd_NodeName nd) \<and>
        \<not> (\<exists>sn. mget (st_nodes s) (nd_NodeName nd) = Some sn \<and> nd_NodeName nd \<noteq> '''' \<and> sn_capturedAt sn \<noteq> 0))"
proof -
  define observed where "observed = filter (\<lambda>(node, sn). \<not> (node = '''' \<or> is_zero_time (sn_capturedAt sn))) (st_nodes s)"
  define absent where "absent = filter (\<lambda>node. node \<notin> set (map fst observed)) (mkeys (st_expectedNodes s))"
  have list: "ListNodes s now ttl = sort_slice (\<lambda>a b. nd_NodeName a < nd_NodeName b)
      (map (status_of now ttl) observed @ map missing_status absent)"
    by (simp add: ListNodes_def observed_def absent_def Let_def)
  have wf: "mwf (st_nodes s)"
    using assms(1) by (simp add: store_inv_def counts_ok_def)
  have obs: "(name, sn) \<in> set observed \<longleftrightarrow> mget (st_nodes s) name = Some sn \<and> name \<noteq> '''' \<and> sn_capturedAt sn \<noteq> 0" for name sn
    by (auto simp: observed_def mget_in_iff [OF wf])
  have names: "map nd_NodeName (map (status_of now ttl) observed @ map missing_status absent) = map fst observed @ absent"
    by (auto simp: status_of_def missing_status_def intro!: map_idI)
  have "distinct (map fst observed @ absent)"
    using wf assms(2) by (auto simp: observed_def absent_def mwf_def distinct_map_filter)
  moreover have "mset (map nd_NodeName (ListNodes s now ttl)) = mset (map fst observed @ absent)"
    unfolding list mset_map mset_sort_slice names [symmetric] ..
  ultimately have "distinct (map nd_NodeName (ListNodes s now ttl))"
    using mset_eq_imp_distinct_iff by blast
  moreover have "sorted_wrt (\<lambda>a b. \<not> b < a) (map nd_NodeName (ListNodes s now ttl))"
    using sorted_sort_slice [OF weak_order_key [of nd_NodeName]] by (simp add: list sorted_wrt_map)
  ultimately show "sorted_wrt (<) (map nd_NodeName (ListNodes s now ttl))"
    by (simp add: not_less strict_sorted_iff)
  show "nd \<in> set (ListNodes s now ttl) \<longleftrightarrow>
      (\<exists>sn. mget (st_nodes s) (nd_NodeName nd) = Some sn \<and> nd_NodeName nd \<noteq> '''' \<and> sn_capturedAt sn \<noteq> 0 \<and>
        nd = status_of now ttl (nd_NodeName nd, sn)) \<or>
      (nd_NodeName nd \<in> set (mkeys (st_expectedNodes s)) \<and> nd = missing_status (nd_NodeName nd) \<and>
        \<not> (\<exists>sn. mget (st_nodes s) (nd_NodeName nd) = Some sn \<and> nd_NodeName nd \<noteq> '''' \<and> sn_capturedAt sn \<noteq> 0))"
    unfolding list set_sort_slice set_append set_map
  proof -
    have "name \<in> set absent \<longleftrightarrow> name \<in> set (mkeys (st_expectedNodes s)) \<and>
        \<not> (\<exists>sn. mget (st_nodes s) name = Some sn \<and> name \<noteq> '''' \<and> sn_capturedAt sn \<noteq> 0)" for name
      unfolding obs [symmetric] by (force simp: absent_def)
    moreover have "nd \<in> status_of now ttl ` set observed \<longleftrightarrow> (\<exists>sn. (nd_NodeName nd, sn) \<in> set observed \<and>
        nd = status_of now ttl (nd_NodeName nd, sn))"
      by (force simp: status_of_def)
    ultimately show "(nd \<in> status_of now ttl ` set observed \<union> missing_status ` set absent) \<longleftrightarrow>
      (\<exists>sn. mget (st_nodes s) (nd_NodeName nd) = Some sn \<and> nd_NodeName nd \<noteq> '''' \<and> sn_capturedAt sn \<noteq> 0 \<and>
        nd = status_of now ttl (nd_NodeName nd, sn)) \<or>
      (nd_NodeName nd \<in> set (mkeys (st_expectedNodes s)) \<and> nd = missing_status (nd_NodeName nd) \<and>
        \<not> (\<exists>sn. mget (st_nodes s) (nd_NodeName nd) = Some sn \<and> nd_NodeName nd \<noteq> '''' \<and> sn_capturedAt sn \<noteq> 0))"
      by (force simp: obs missing_status_def)
  qed
qed

text \<open>
  The list of Nodes is sorted by name without duplicates; it holds exactly the Nodes with a
  dated snapshot, with that snapshot's time and container count, and the expected Nodes that have
  none, as missing.
\<close>

theorem node_list_exact:
  assumes "store_inv T s" and "distinct (mkeys (st_expectedNodes s))"
  shows "sorted_wrt (<) (map nd_NodeName (ListNodes s now ttl))
    \<and> (\<forall>nd. nd \<in> set (ListNodes s now ttl) \<longleftrightarrow>
      (\<exists>sn. mget (st_nodes s) (nd_NodeName nd) = Some sn \<and> nd_NodeName nd \<noteq> '''' \<and> sn_capturedAt sn \<noteq> 0 \<and>
        nd = status_of now ttl (nd_NodeName nd, sn)) \<or>
      (nd_NodeName nd \<in> set (mkeys (st_expectedNodes s)) \<and> nd = missing_status (nd_NodeName nd) \<and>
        \<not> (\<exists>sn. mget (st_nodes s) (nd_NodeName nd) = Some sn \<and> nd_NodeName nd \<noteq> '''' \<and> sn_capturedAt sn \<noteq> 0)))"
  by (intro conjI allI node_list [OF assms])

theorem node_list_exact_witness:
  "sorted_wrt (<) (map nd_NodeName (ListNodes inventoried_store 120 (30 * second)))
   \<and> missing_status ''n1'' \<in> set (ListNodes inventoried_store 120 (30 * second))"
proof -
  have expected: "mkeys (st_expectedNodes inventoried_store) = [''n1'']"
    by (simp add: inventoried_store_def ReconcileNodeIdentities_def mlen_def sample_limits_def mkeep_def Let_def mkeys_def)
  then have "distinct (mkeys (st_expectedNodes inventoried_store))"
    by simp
  from node_list_exact [OF inventoried_store_inv this] expected
  show ?thesis
    by (simp add: inventoried_store_fields missing_status_def)
qed

end
