(* ===== verification/Ingestion_Properties.thy ===== *)
theory Ingestion_Properties
  imports Ingestion_Run Store_Properties
begin

text \<open>
  The properties of ingestion: no replays, ownership of Nodes, bounded tables, what a rejected or
  repeated request may change, the separation of the two producers, and progress.
\<close>

subsection \<open>The guard against replays\<close>

text \<open>
  After an instance was accepted with sequence \<open>n\<close>, its key is held by an agent with at least that
  sequence, or blocked until \<open>until\<close>, or that time has passed.
\<close>

definition replay_guarded :: "string \<Rightarrow> u64 \<Rightarrow> time \<Rightarrow> time \<Rightarrow> coordinator \<Rightarrow> bool" where
  "replay_guarded key n until T c \<longleftrightarrow> (\<exists>st. mget (cd_agents c) key = Some st \<and> n \<le> ag_sequence st) \<or>
     (\<exists>e. mget (cd_retired c) key = Some e \<and> until \<le> e) \<or> until \<le> T"

definition guard_state :: "string \<Rightarrow> u64 \<Rightarrow> time \<Rightarrow> duration \<Rightarrow> time \<times> coordinator \<Rightarrow> bool" where
  "guard_state key n since ttl p \<longleftrightarrow> coordinator_inv p \<and> since \<le> fst p \<and> co_RetiredTTL (cd_opts (snd p)) = ttl \<and>
     replay_guarded key n (since + ttl) (fst p) (snd p)"

lemma pruned_key:
  assumes "pruned rd key c c'" and "tables_ok c"
  shows "mget (cd_agents c') k = mget (cd_agents c) k \<and> mget (cd_retired c') k =
      (case mget (cd_retired c) k of None \<Rightarrow> None | Some e \<Rightarrow> if e > rd_prune rd then Some e else None) \<or>
    mget (cd_agents c) k \<noteq> None \<and> mget (cd_agents c') k = None \<and>
      mget (cd_retired c') k = Some (rd_inactive rd + co_RetiredTTL (cd_opts c))"
proof -
  obtain K where K: "retired_from (pruneRetired (rd_prune rd) c) K (rd_inactive rd + co_RetiredTTL (cd_opts c)) c'"
    and present: "\<forall>k \<in> K. mget (cd_agents c) k \<noteq> None"
    using assms(1) by (auto simp: pruned_def)
  have wf: "mwf (cd_retired c)"
    using assms(2) by (simp add: tables_ok_def)
  show ?thesis
    using K present unfolding retired_from_def by (simp add: pruneRetired_get [OF wf]) meson
qed

lemma replay_guarded_pruned:
  assumes "replay_guarded key n (since + co_RetiredTTL (cd_opts c)) T c" and "pruned rd inst c c'" and "tables_ok c"
    and "ordered T rd" and "since \<le> T" and "rd_prune rd \<le> T'"
  shows "replay_guarded key n (since + co_RetiredTTL (cd_opts c)) T' c'"
  using pruned_key [OF assms(2,3), of key] assms(1,4-6)
  by (auto simp: replay_guarded_def ordered_def split: option.splits if_splits)

lemma Accept_guard:
  assumes "Accept L rd seen claims request c = (out, c')" and "tables_ok c" and "sizes_ok c" and "ordered T rd"
    and "since \<le> T" and "replay_guarded key n (since + co_RetiredTTL (cd_opts c)) T c"
  shows "replay_guarded key n (since + co_RetiredTTL (cd_opts c)) (rd_retire rd) c'"
  using assms(1-3)
proof (cases rule: Accept_cases)
  case untouched
  with assms(4,6) show ?thesis
    by (auto simp: replay_guarded_def ordered_def)
next
  case refused
  show ?thesis
    by (rule replay_guarded_pruned [OF assms(6) refused(1) assms(2,4,5)]) (use assms(4) in \<open>simp add: ordered_def\<close>)
next
  case (accepted canonical c2 m s')
  let ?c = "c2\<lparr>cd_store := s'\<rparr>"
  note seqs = sequence_checks_None [OF accepted(4)]
  note frame = pruned_frame [OF accepted(3)]
  have tables: "tables_ok ?c"
    using frame(4) by (simp add: tables_ok_def)
  have guarded: "replay_guarded key n (since + co_RetiredTTL (cd_opts c)) (rd_prune rd) c2"
    by (rule replay_guarded_pruned [OF assms(6) accepted(3) assms(2,4,5)]) simp
  have held: "n \<le> rq_Sequence request \<or> since + co_RetiredTTL (cd_opts c) \<le> rd_prune rd" if "key = instanceKey claims"
    using guarded seqs(5,6) that frame(6) pruned_key_retired [OF assms(2) accepted(3) seqs(5)]
    by (auto simp: replay_guarded_def)
  have late: "rd_prune rd \<le> rd_retire rd" "since \<le> rd_retire rd"
    using assms(4,5) by (simp_all add: ordered_def)
  have retired: "mget (cd_retired c') key = (if new_owner claims ?c \<and> key = find_owner claims ?c
      then Some (rd_retire rd + co_RetiredTTL (cd_opts c)) else mget (cd_retired c2) key)"
    unfolding accepted(8) by (simp add: released_ok(3) [OF tables] frame(2))
  have agents: "mget (cd_agents c') key = (if key = instanceKey claims then Some \<lparr>ag_nodeUID = cl_NodeUID claims,
        ag_nodeKey = nodeKey claims, ag_nodeName = cl_NodeName claims, ag_role = cl_Role claims,
        ag_sequence = rq_Sequence request, ag_digest = il_sum256 L canonical, ag_response = accepted_response m\<rparr>
      else if new_owner claims ?c \<and> key = find_owner claims ?c then None else mget (cd_agents c2) key)"
    unfolding accepted(8) by (simp add: commit_get [OF tables])
  show ?thesis
  proof (cases "key = instanceKey claims")
    case True
    with held late agents show ?thesis
      by (auto simp: replay_guarded_def)
  next
    case False
    with guarded late agents retired show ?thesis
      by (auto simp: replay_guarded_def)
  qed
qed

lemma guard_state_step:
  assumes "guard_state key n since ttl p" and "coordinator_step L p q"
  shows "guard_state key n since ttl q"
proof -
  have inv: "coordinator_inv q" "fst p \<le> fst q" "cd_opts (snd q) = cd_opts (snd p)"
    using coordinator_step_inv [OF assms(2)] assms(1) by (simp_all add: guard_state_def)
  have "replay_guarded key n (since + ttl) (fst q) (snd q)"
    using assms(2)
  proof cases
    case (request T rd info agent node claims seen req c out c')
    have "replay_guarded key n (since + co_RetiredTTL (cd_opts c)) (rd_retire rd) c'"
      by (rule Accept_guard [OF request(5) _ _ request(3)])
        (use assms(1) request(1) in \<open>auto simp: guard_state_def coordinator_inv_def\<close>)
    with request(1,2) assms(1) show ?thesis
      by (simp add: guard_state_def)
  next
    case (epoch T now c k)
    have "mwf (cd_retired c)"
      using assms(1) epoch(1) by (simp add: guard_state_def coordinator_inv_def tables_ok_def)
    with epoch assms(1) show ?thesis
      by (auto simp: guard_state_def replay_guarded_def Epoch_def pruneRetired_get)
  next
    case (shared T c T' s')
    with assms(1) inv(2) show ?thesis
      by (auto simp: guard_state_def replay_guarded_def)
  qed
  with inv assms(1) show ?thesis
    by (simp add: guard_state_def)
qed

interpretation replay_system: step_system "guard_state key n since ttl" "coordinator_step L" "guard_state key n since ttl"
  for key n since ttl L
  by unfold_locales (auto intro: guard_state_step)

lemma accepted_guard:
  assumes "Accept L rd seen claims request c = (Replied r False, c')" and "coordinator_inv (T, c)" and "ordered T rd"
    and "producerClaims info agent node = Inr claims"
  shows "guard_state (instanceKey claims) (rq_Sequence request) (rd_retire rd) (co_RetiredTTL (cd_opts c)) (rd_retire rd, c')"
proof -
  have ok: "tables_ok c" "sizes_ok c"
    using assms(2) by (auto simp: coordinator_inv_def)
  have step: "coordinator_step L (T, c) (rd_retire rd, c')"
    by (rule request [OF assms(3,4,1)])
  have "\<exists>st. mget (cd_agents c') (instanceKey claims) = Some st \<and> ag_sequence st = rq_Sequence request"
    using assms(1) ok
  proof (cases rule: Accept_cases)
    case (accepted canonical c2 m s')
    have "tables_ok (c2\<lparr>cd_store := s'\<rparr>)"
      using pruned_frame(4) [OF accepted(3)] by (simp add: tables_ok_def)
    then show ?thesis
      unfolding accepted(8) by (simp add: commit_get)
  qed auto
  then show ?thesis
    using coordinator_step_inv [OF step assms(2)] by (auto simp: guard_state_def replay_guarded_def)
qed

lemma Accept_forward:
  assumes "validateProducerSnapshot claims (rq_Snapshot request) = None" and "il_marshal L request = Some canonical"
    and "sequence_checks claims request (il_sum256 L canonical) (pruneRetired (rd_prune rd) c) = None"
    and "mget (cd_agents c) (instanceKey claims) \<noteq> None \<or> int (mlen (cd_agents c)) < co_MaxAgents (cd_opts c)"
    and "capacity_checks claims request (rd_validate rd) (pruneRetired (rd_prune rd) c) = None"
    and "submit (il_store L) (rd_store rd) claims (rq_Snapshot request) (cd_store c) = Inr (n, s')"
  shows "Accept L rd seen claims request c = (Replied (accepted_response n) False,
    commit claims (rq_Sequence request) (il_sum256 L canonical) (accepted_response n) (rd_retire rd)
      ((pruneRetired (rd_prune rd) c)\<lparr>cd_store := s'\<rparr>))"
proof -
  have "(if mget (cd_agents (pruneRetired (rd_prune rd) c)) (instanceKey claims) = None \<and>
      int (mlen (cd_agents (pruneRetired (rd_prune rd) c))) \<ge> co_MaxAgents (cd_opts (pruneRetired (rd_prune rd) c))
      then x else pruneRetired (rd_prune rd) c) = pruneRetired (rd_prune rd) c" for x
    using assms(4) by auto
  then show ?thesis
    using assms(6) by (simp only: Accept_def Let_def assms(1-3,5) option.case) simp
qed

subsection \<open>A coordinator to apply the properties to\<close>

definition sample_ingest_lib :: "unit ingest_lib" where
  "sample_ingest_lib = \<lparr>il_marshal = (\<lambda>r. Some (decimal (unat (rq_Sequence r)))), il_sum256 = (\<lambda>s. s), il_store = sample_store_lib\<rparr>"

definition sample_user :: principal where
  "sample_user = \<lparr>pr_Name = ''agent'', pr_Extra = [(PodUIDExtra, [''pod'']), (NodeNameExtra, [''n1'']),
     (NodeUIDExtra, [''u1'']), (CredentialIDExtra, [''key''])]\<rparr>"

definition sample_claims :: agent_claims where
  "sample_claims = \<lparr>cl_Role = CgroupProducer, cl_PodUID = ''pod'', cl_NodeName = ''n1'', cl_NodeUID = ''u1'', cl_CredentialID = ''key''\<rparr>"

definition sample_request :: "u64 \<Rightarrow> unit snapshot_request" where
  "sample_request n = \<lparr>rq_APIVersion = MemoryGroupVersion, rq_Kind = ''NodeSnapshot'', rq_ObjectMeta = (), rq_NodeUID = ''u1'',
     rq_Epoch = ''e'', rq_Sequence = n, rq_Snapshot = sample_snapshot 100 memory_zero\<rparr>"

definition sample_coordinator :: coordinator where
  "sample_coordinator = \<lparr>cd_store = empty_store, cd_opts = \<lparr>co_Handler = sample_options, co_MaxAgents = 1, co_MaxRetired = 4,
     co_RetiredTTL = 2 * minute\<rparr>, cd_epoch = ''e'', cd_agents = [], cd_nodes = [], cd_retired = []\<rparr>"

definition sample_readings :: readings where
  "sample_readings = \<lparr>rd_prune = 120, rd_inactive = 120, rd_validate = 120, rd_store = 120, rd_retire = 120\<rparr>"

definition held_store :: store where
  "held_store = snapshot_step sample_store_lib 120 (sample_snapshot 100 memory_zero) ''u1'' snapshot_zero empty_store"

text \<open>The coordinator after the sample request with sequence \<open>n\<close>.\<close>

definition held_coordinator :: "u64 \<Rightarrow> coordinator" where
  "held_coordinator n = sample_coordinator\<lparr>cd_store := held_store, cd_nodes := [(nodeKey sample_claims, ''pod'')],
     cd_agents := [(''pod'', \<lparr>ag_nodeUID = ''u1'', ag_nodeKey = nodeKey sample_claims, ag_nodeName = ''n1'', ag_role = CgroupProducer,
       ag_sequence = n, ag_digest = decimal (unat n), ag_response = accepted_response 2\<rparr>)]\<rparr>"

lemma sample_coordinator_new: "new_coordinator (50, sample_coordinator)"
proof -
  have "NewCoordinator (Some empty_store) \<lparr>co_Handler = sample_options, co_MaxAgents = 1, co_MaxRetired = 0, co_RetiredTTL = 0\<rparr>
      ''e'' None = Inr sample_coordinator"
    by (simp add: NewCoordinator_def sample_coordinator_def)
  with empty_store_new show ?thesis
    unfolding new_coordinator_def fst_conv snd_conv by blast
qed

lemma sample_claims_user: "producerClaims (Some sample_user) ''agent'' '''' = Inr sample_claims"
  by (simp add: producerClaims_def claimsFromUser_def oneExtra_def sample_user_def sample_claims_def mget0_def mget_def
      PodUIDExtra_def NodeNameExtra_def NodeUIDExtra_def CredentialIDExtra_def trims_to_empty_def ascii_space_def)

lemma sample_readings_ordered: "T \<le> 120 \<Longrightarrow> ordered T sample_readings"
  by (simp add: ordered_def sample_readings_def)

lemma sample_claims_fields [simp]:
  "cl_Role sample_claims = CgroupProducer" "cl_NodeName sample_claims = ''n1''" "cl_NodeUID sample_claims = ''u1''"
  "instanceKey sample_claims = ''pod''"
  by (simp_all add: sample_claims_def instanceKey_def)

lemma sample_request_fields [simp]:
  "rq_Snapshot (sample_request n) = sample_snapshot 100 memory_zero" "rq_Sequence (sample_request n) = n"
  "rq_APIVersion (sample_request n) = MemoryGroupVersion" "rq_Kind (sample_request n) = ''NodeSnapshot''"
  "rq_NodeUID (sample_request n) = ''u1''" "rq_Epoch (sample_request n) = ''e''"
  by (simp_all add: sample_request_def)

lemma sample_snapshot_kept:
  "ReplaceAuthenticatedNodeSnapshot sample_store_lib 120 (sample_snapshot 100 memory_zero) ''u1'' held_store = Inr (2, held_store)"
  by (simp add: ReplaceSnapshot_guards sample_snapshot_fields previous_snapshot_def snapshot_zero_def containers_of_def held_store_def
      snapshot_step_def mget0_def mget_mput sample_limits_def Let_def)

lemma sample_valid: "ValidateSnapshot (sample_snapshot 100 memory_zero) 120 sample_options = None"
  by (rule sample_snapshot_valid) (simp_all add: io_Validate_zero go_simps)

lemma sample_producer_valid: "validateProducerSnapshot sample_claims (sample_snapshot 100 memory_zero) = None"
  by (simp add: validateProducerSnapshot_def sample_snapshot_fields)

lemma sample_first:
  assumes "n \<noteq> 0"
  shows "Accept sample_ingest_lib sample_readings seen sample_claims (sample_request n) sample_coordinator
    = (Replied (accepted_response 2) False, held_coordinator n)"
proof (subst Accept_forward)
  show "il_marshal sample_ingest_lib (sample_request n) = Some (decimal (unat n))"
    by (simp add: sample_ingest_lib_def)
  show "submit (il_store sample_ingest_lib) (rd_store sample_readings) sample_claims (rq_Snapshot (sample_request n))
      (cd_store sample_coordinator) = Inr (2, held_store)"
    using sample_snapshot_accepted
    by (simp add: submit_def sample_ingest_lib_def sample_readings_def sample_coordinator_def held_store_def
        CgroupProducer_def NodeContextProducer_def)
  show "capacity_checks sample_claims (sample_request n) (rd_validate sample_readings)
      (pruneRetired (rd_prune sample_readings) sample_coordinator) = None"
    using sample_valid by (simp add: capacity_checks_def new_owner_def find_owner_def sample_coordinator_def pruneRetired_def
        mget0_def sample_readings_def)
qed (use assms in \<open>simp_all add: sample_producer_valid sequence_checks_def sample_coordinator_def pruneRetired_def mkeep_def
    sample_snapshot_fields commit_def new_owner_def find_owner_def held_coordinator_def mget0_def mput_def sample_ingest_lib_def\<close>)

lemma sample_second:
  assumes "0 < m" and "m < n"
  shows "\<exists>c'. Accept sample_ingest_lib sample_readings seen sample_claims (sample_request n) (held_coordinator m)
    = (Replied (accepted_response 2) False, c')"
proof -
  have order: "n \<noteq> 0" "n \<noteq> m" "\<not> n < m"
    using less_trans [OF assms] assms(2) by auto
  show ?thesis
  proof (subst Accept_forward)
    show "il_marshal sample_ingest_lib (sample_request n) = Some (decimal (unat n))"
      by (simp add: sample_ingest_lib_def)
    show "submit (il_store sample_ingest_lib) (rd_store sample_readings) sample_claims (rq_Snapshot (sample_request n))
        (cd_store (held_coordinator m)) = Inr (2, held_store)"
      using sample_snapshot_kept
      by (simp add: submit_def sample_ingest_lib_def sample_readings_def held_coordinator_def
          CgroupProducer_def NodeContextProducer_def)
    show "capacity_checks sample_claims (sample_request n) (rd_validate sample_readings)
        (pruneRetired (rd_prune sample_readings) (held_coordinator m)) = None"
      using sample_valid by (simp add: capacity_checks_def new_owner_def find_owner_def held_coordinator_def sample_coordinator_def
          pruneRetired_def mget0_def mget_def sample_readings_def)
  qed (use order in \<open>simp_all add: sample_producer_valid sequence_checks_def sample_coordinator_def held_coordinator_def
      pruneRetired_def mkeep_def sample_snapshot_fields mget_def\<close>)
qed

subsection \<open>No replays\<close>

lemma accepted_not_guarded:
  assumes "Accept L rd seen claims request c = (Replied r False, c')" and "coordinator_inv (T, c)" and "ordered T rd"
    and "replay_guarded (instanceKey claims) n until T c"
  shows "n < rq_Sequence request \<or> until \<le> rd_prune rd"
proof -
  have ok: "tables_ok c" "sizes_ok c"
    using assms(2) by (auto simp: coordinator_inv_def)
  have wf: "mwf (cd_retired c)"
    using ok(1) by (simp add: tables_ok_def)
  show ?thesis
    using assms(1) ok
  proof (cases rule: Accept_cases)
    case (accepted canonical c2 m s')
    note seqs = sequence_checks_None [OF accepted(4)]
    from seqs(5) have "until \<le> rd_prune rd" if "mget (cd_retired c) (instanceKey claims) = Some e" "until \<le> e" for e
      using that by (auto simp: pruneRetired_get [OF wf] split: if_splits)
    with assms(3,4) seqs(6) show ?thesis
      by (auto simp: replay_guarded_def ordered_def)
  qed auto
qed

text \<open>
  C1. An accepted snapshot cannot be accepted again: of two requests of the same producer instance
  that are both accepted as new, at any distance in any run, the later one has the larger sequence
  number, or the configured retirement time has passed in between.
\<close>

theorem accepted_sequences_increase:
  assumes "new_coordinator p0" and "(coordinator_step L)\<^sup>*\<^sup>* p0 (T1, c1)" and "ordered T1 rd1"
    and "producerClaims info agent node = Inr claims1"
    and "Accept L rd1 seen1 claims1 req1 c1 = (Replied r1 False, c1')"
    and "(coordinator_step L)\<^sup>*\<^sup>* (rd_retire rd1, c1') (T2, c2)" and "ordered T2 rd2"
    and "Accept L rd2 seen2 claims2 req2 c2 = (Replied r2 False, c2')" and "instanceKey claims2 = instanceKey claims1"
  shows "rq_Sequence req1 < rq_Sequence req2 \<or> rd_retire rd1 + co_RetiredTTL (cd_opts c1) \<le> rd_prune rd2"
proof -
  have inv: "coordinator_inv (T1, c1)"
    by (rule coordinator_system.reachable_inv [OF assms(1,2)])
  note guard = accepted_guard [OF assms(5) inv assms(3,4)]
  have later: "guard_state (instanceKey claims1) (rq_Sequence req1) (rd_retire rd1) (co_RetiredTTL (cd_opts c1)) (T2, c2)"
    by (rule replay_system.reachable_inv [OF guard assms(6)])
  then have "coordinator_inv (T2, c2)"
    "replay_guarded (instanceKey claims2) (rq_Sequence req1) (rd_retire rd1 + co_RetiredTTL (cd_opts c1)) T2 c2"
    by (simp_all add: guard_state_def assms(9))
  then show ?thesis
    by (intro accepted_not_guarded [OF assms(8) _ assms(7)])
qed

theorem accepted_sequences_increase_witness:
  "rq_Sequence (sample_request 1) < rq_Sequence (sample_request 2)
   \<or> rd_retire sample_readings + co_RetiredTTL (cd_opts sample_coordinator) \<le> rd_prune sample_readings"
proof -
  obtain c' where second: "Accept sample_ingest_lib sample_readings empty_store sample_claims (sample_request 2) (held_coordinator 1)
      = (Replied (accepted_response 2) False, c')"
    using sample_second [of 1 2 empty_store] by auto
  have first: "Accept sample_ingest_lib sample_readings empty_store sample_claims (sample_request 1) sample_coordinator
      = (Replied (accepted_response 2) False, held_coordinator 1)"
    by (rule sample_first) simp
  show ?thesis
    by (rule accepted_sequences_increase [OF sample_coordinator_new rtranclp.rtrancl_refl _ sample_claims_user first
          rtranclp.rtrancl_refl _ second]) (simp_all add: ordered_def sample_readings_def)
qed

subsection \<open>Ownership and capacity\<close>

text \<open>
  C9. In every reachable state a Node's entry names the agent that holds it and conversely, so no
  two agents hold one Node; no agent is among the retired keys; every agent has a positive sequence
  number; and both tables are within their configured capacity.
\<close>

theorem ownership_consistent:
  assumes "new_coordinator p0" and "(coordinator_step L)\<^sup>*\<^sup>* p0 (T, c)"
  shows "(\<forall>node key. mget (cd_nodes c) node = Some key \<longleftrightarrow>
      (\<exists>st. mget (cd_agents c) key = Some st \<and> ag_nodeKey st = node))
    \<and> dom (mget (cd_agents c)) \<inter> dom (mget (cd_retired c)) = {}
    \<and> (\<forall>st \<in> ran (mget (cd_agents c)). 0 < ag_sequence st)
    \<and> int (card (dom (mget (cd_agents c)))) \<le> co_MaxAgents (cd_opts c)
    \<and> int (card (dom (mget (cd_retired c)))) \<le> co_MaxRetired (cd_opts c)"
proof -
  have "coordinator_inv (T, c)"
    by (rule coordinator_system.reachable_inv [OF assms])
  then have ok: "tables_ok c" "sizes_ok c"
    by (simp_all add: coordinator_inv_def)
  have "mget (cd_nodes c) node = Some key \<longleftrightarrow> (\<exists>st. mget (cd_agents c) key = Some st \<and> ag_nodeKey st = node)" for node key
    using tables_agentD(3) [OF ok(1)] tables_nodeE [OF ok(1)] by metis
  moreover have "dom (mget (cd_agents c)) \<inter> dom (mget (cd_retired c)) = {}"
    using tables_agentD(4) [OF ok(1)] by fastforce
  moreover have "\<forall>st \<in> ran (mget (cd_agents c)). 0 < ag_sequence st"
    using tables_agentD(2) [OF ok(1)] by (auto simp: ran_def word_gt_0)
  ultimately show ?thesis
    using ok by (simp add: sizes_ok_def tables_ok_def mlen_card)
qed

theorem ownership_consistent_witness:
  "mget (cd_nodes (held_coordinator 1)) (nodeKey sample_claims) = Some ''pod''
   \<and> int (card (dom (mget (cd_agents (held_coordinator 1))))) \<le> 1"
proof -
  have "coordinator_step sample_ingest_lib (50, sample_coordinator) (rd_retire sample_readings, held_coordinator 1)"
    by (rule request [OF sample_readings_ordered sample_claims_user sample_first [where seen = empty_store]]) simp_all
  then have "(coordinator_step sample_ingest_lib)\<^sup>*\<^sup>* (50, sample_coordinator) (rd_retire sample_readings, held_coordinator 1)"
    by blast
  from ownership_consistent [OF sample_coordinator_new this] show ?thesis
    by (auto simp: held_coordinator_def sample_coordinator_def mget_def)
qed

subsection \<open>What a request changes\<close>



text \<open>
  C23. Sending an accepted request once more is answered with the stored response, marked as a
  duplicate, and changes neither the store nor any agent.
\<close>

theorem resend_is_duplicate:
  assumes "coordinator_inv (T, c)" and "Accept L rd seen claims request c = (Replied r False, c')"
    and "producerClaims info agent node = Inr claims"
  shows "Accept L rd' seen' claims request c' = (Replied (r\<lparr>rs_Duplicate := True\<rparr>) True, pruneRetired (rd_prune rd') c')"
proof -
  have ok: "tables_ok c" "sizes_ok c"
    using assms(1) by (simp_all add: coordinator_inv_def)
  have ok': "tables_ok c'"
    using Accept_ok [OF assms(2) ok instanceKey_nonempty [OF assms(3)]] by simp
  show ?thesis
    using assms(2) ok
  proof (cases rule: Accept_cases)
    case (accepted canonical c2 n s')
    note seqs = sequence_checks_None [OF accepted(4)]
    have "tables_ok (c2\<lparr>cd_store := s'\<rparr>)"
      using pruned_frame(4) [OF accepted(3)] by (simp add: tables_ok_def)
    then have agent: "mget (cd_agents c') (instanceKey claims) = Some \<lparr>ag_nodeUID = cl_NodeUID claims, ag_nodeKey = nodeKey claims,
        ag_nodeName = cl_NodeName claims, ag_role = cl_Role claims, ag_sequence = rq_Sequence request,
        ag_digest = il_sum256 L canonical, ag_response = accepted_response n\<rparr>"
      unfolding accepted(8) by (simp add: commit_get)
    from tables_agentD(4) [OF pruneRetired_ok [OF ok'], of "rd_prune rd'"] agent
    have "mget (cd_retired (pruneRetired (rd_prune rd') c')) (instanceKey claims) = None"
      by simp
    moreover have "cd_epoch c' = cd_epoch c"
      unfolding accepted(8) using pruned_frame(3) [OF accepted(3)] by simp
    ultimately have "sequence_checks claims request (il_sum256 L canonical) (pruneRetired (rd_prune rd') c')
        = Some (Replied (r\<lparr>rs_Duplicate := True\<rparr>) True)"
      using seqs(1-4) agent accepted(7) by (simp add: sequence_checks_def)
    with accepted(1,2) show ?thesis
      by (simp add: Accept_def)
  qed auto
qed

theorem resend_is_duplicate_witness:
  "fst (Accept sample_ingest_lib sample_readings empty_store sample_claims (sample_request 1) (held_coordinator 1))
   = Replied ((accepted_response 2)\<lparr>rs_Duplicate := True\<rparr>) True"
proof -
  have inv: "coordinator_inv (50, sample_coordinator)"
    by (rule new_coordinator_inv [OF sample_coordinator_new])
  have first: "Accept sample_ingest_lib sample_readings empty_store sample_claims (sample_request 1) sample_coordinator
      = (Replied (accepted_response 2) False, held_coordinator 1)"
    by (rule sample_first) simp
  from resend_is_duplicate [OF inv first sample_claims_user] show ?thesis
    by simp
qed

subsection \<open>The two producers\<close>

text \<open>What a write can reach: the entries of one Node, in the half of the store that belongs to the role.\<close>

definition same_elsewhere :: "string \<Rightarrow> store \<Rightarrow> store \<Rightarrow> bool" where
  "same_elsewhere node s s' \<longleftrightarrow> (\<forall>name. name \<noteq> node \<longrightarrow> mget (st_nodes s') name = mget (st_nodes s) name \<and>
     mget (nc_latest (st_nodeContext s')) name = mget (nc_latest (st_nodeContext s)) name \<and>
     mget (vs_entries (st_volumes s')) name = mget (vs_entries (st_volumes s)) name)"

lemma evidence_write:
  assumes "store_inv T s" and "T \<le> now" and "ReplaceNodeEvidence L now v volumes topology s = Inr s'"
  shows "same_elsewhere (ob_NodeName v) s s' \<and> st_nodes s' = st_nodes s \<and> st_history s' = st_history s \<and>
    st_containerCount s' = st_containerCount s"
  using assms(3)
proof (rule ReplaceNodeEvidence_Inr)
  fix data previous entry topo held
  assume checks: "evidence_checks L now v volumes topology s = Inr (data, previous, entry, topo)"
    and held: "held = st_nodeContext s \<or>
      node_record (ob_NodeName v) (ob_NodeUID v) (ne_capturedAt (evidence_entry now v data previous topo)) data now
        (st_nodeContext s) = Some held"
    and s': "s' = s\<lparr>st_nodeContext := held\<lparr>nc_latest := mput (ob_NodeName v)
          (evidence_entry now v data previous topo) (nc_latest held)\<rparr>,
        st_volumes := commitVolumeEntryLocked (ob_NodeName v) entry (st_volumes s)\<rparr>"
  have "volume_ok (st_volumes s)"
    using assms(1) by (simp add: store_inv_def)
  then have "mget (vs_entries (commitVolumeEntryLocked (ob_NodeName v) entry (st_volumes s))) name
      = mget (vs_entries (st_volumes s)) name" if "name \<noteq> ob_NodeName v" for name
    using that by (simp add: commitVolumeEntryLocked_def Let_def deleteVolumeEntry_ok(4) mget_mput)
  with ReplaceNodeEvidence_context(2) [OF assms(1,2) checks held] show ?thesis
    by (simp add: s' same_elsewhere_def mget_mput)
qed

lemma snapshot_write:
  assumes "ReplaceAuthenticatedNodeSnapshot L now sn uid s = Inr (n, s')"
  shows "same_elsewhere (as_NodeName sn) s s' \<and> st_nodeContext s' = st_nodeContext s \<and> st_volumes s' = st_volumes s"
  using assms
proof (cases rule: ReplaceSnapshot_cases)
  case stored
  then show ?thesis
    by (simp add: same_elsewhere_def snapshot_step_frame) (simp add: snapshot_step_def Let_def mget_mput)
qed (simp add: same_elsewhere_def)

lemma submit_write:
  assumes "store_inv T s" and "T \<le> now" and "submit L now claims sn s = Inr (n, s')"
    and "validateProducerSnapshot claims sn = None" and "as_NodeName sn = cl_NodeName claims"
  shows "same_elsewhere (cl_NodeName claims) s s' \<and>
    (if cl_Role claims = NodeContextProducer
     then st_nodes s' = st_nodes s \<and> st_history s' = st_history s \<and> st_containerCount s' = st_containerCount s
     else st_nodeContext s' = st_nodeContext s \<and> st_volumes s' = st_volumes s)"
proof (cases "cl_Role claims = NodeContextProducer")
  case True
  with assms(4) obtain v where v: "as_NodeContext sn = Some v" "ob_NodeName v = cl_NodeName claims"
    by (auto simp: validateProducerSnapshot_def NodeContextProducer_def CgroupProducer_def split: if_splits)
  with assms(3) True have "ReplaceNodeEvidence L now v (as_VolumeBatch sn) (as_Topology sn) s = Inr s'"
    by (simp add: submit_def split: sum.splits)
  from evidence_write [OF assms(1,2) this] True v(2) show ?thesis
    by simp
next
  case False
  with assms(3) have "ReplaceAuthenticatedNodeSnapshot L now sn (cl_NodeUID claims) s = Inr (n, s')"
    by (simp add: submit_def)
  from snapshot_write [OF this] False assms(5) show ?thesis
    by simp
qed

text \<open>
  The two producers are separate: an accepted request of a Node-context producer leaves every
  cgroup snapshot and the Pod history alone, one of a cgroup producer leaves every Node report,
  topology report and volume batch alone, and neither changes what is held of another Node than
  the one its credentials name.
\<close>

theorem producers_separate:
  assumes "coordinator_inv (T, c)" and "ordered T rd" and "Accept L rd seen claims request c = (Replied r False, c')"
  shows "same_elsewhere (cl_NodeName claims) (cd_store c) (cd_store c')
    \<and> (if cl_Role claims = NodeContextProducer
       then st_nodes (cd_store c') = st_nodes (cd_store c) \<and> st_history (cd_store c') = st_history (cd_store c)
       else st_nodeContext (cd_store c') = st_nodeContext (cd_store c) \<and> st_volumes (cd_store c') = st_volumes (cd_store c))"
proof -
  have inv: "tables_ok c" "sizes_ok c" "store_inv T (cd_store c)" "T \<le> rd_store rd"
    using assms(1,2) by (simp_all add: coordinator_inv_def ordered_def)
  show ?thesis
    using assms(3) inv(1,2)
  proof (cases rule: Accept_cases)
    case (accepted canonical c2 n s')
    from submit_write [OF inv(3,4) accepted(6,1)] sequence_checks_None(2) [OF accepted(4)] accepted(8) show ?thesis
      by (simp split: if_splits)
  qed auto
qed

theorem producers_separate_witness:
  "st_nodeContext (cd_store (held_coordinator 1)) = st_nodeContext (cd_store sample_coordinator)"
proof -
  have inv: "coordinator_inv (50, sample_coordinator)"
    by (rule new_coordinator_inv [OF sample_coordinator_new])
  have first: "Accept sample_ingest_lib sample_readings empty_store sample_claims (sample_request 1) sample_coordinator
      = (Replied (accepted_response 2) False, held_coordinator 1)"
    by (rule sample_first) simp
  from producers_separate [OF inv _ first] show ?thesis
    by (simp add: sample_readings_ordered CgroupProducer_def NodeContextProducer_def)
qed

subsection \<open>Progress\<close>

text \<open>C24. In every reachable state, every request is answered: \<open>Accept\<close> returns.\<close>

theorem request_is_answered:
  assumes "new_coordinator p0" and "(coordinator_step L)\<^sup>*\<^sup>* p0 (T, c)" and "ordered T rd"
  shows "fst (Accept L rd seen claims request c) \<noteq> Unreturned"
proof -
  have "coordinator_inv (T, c)"
    by (rule coordinator_system.reachable_inv [OF assms(1,2)])
  then have inv: "tables_ok c" "sizes_ok c" "store_inv T (cd_store c)" "T \<le> rd_store rd"
    using assms(3) by (simp_all add: coordinator_inv_def ordered_def)
  obtain out c' where result: "Accept L rd seen claims request c = (out, c')"
    by (cases "Accept L rd seen claims request c")
  show ?thesis
    using result inv(1,2)
  proof (cases rule: Accept_cases)
    case refused
    show ?thesis
    proof (cases "validateProducerSnapshot claims (rq_Snapshot request)")
      case None
      with refused(3) submit_store(2) [OF inv(3,4) None] show ?thesis
        by (auto simp: result)
    next
      case (Some e)
      then show ?thesis
        by (simp add: Accept_def)
    qed
  qed (simp_all add: result)
qed

theorem request_is_answered_witness:
  "fst (Accept sample_ingest_lib sample_readings empty_store sample_claims (sample_request 1) sample_coordinator) \<noteq> Unreturned"
  by (rule request_is_answered [OF sample_coordinator_new rtranclp.rtrancl_refl sample_readings_ordered]) simp

lemma retired_from_shrinks:
  assumes "retired_from c K until c'"
  shows "dom (mget (cd_agents c')) \<subseteq> dom (mget (cd_agents c))"
proof -
  have "mget (cd_agents c') k = mget (cd_agents c) k \<or> mget (cd_agents c') k = None" for k
    using assms unfolding retired_from_def by (elim conjE allE [of _ k]) auto
  then have "k \<in> dom (mget (cd_agents c))" if "k \<in> dom (mget (cd_agents c'))" for k
    using that by (metis domIff)
  then show ?thesis ..
qed

lemma pruneInactive_frees:
  assumes "tables_ok c" and "sizes_ok c" and "CurrentNodeIdentities seen now = Some identities"
    and "mget (cd_agents c) key = Some st" and "mget0 '''' identities (ag_nodeName st) \<noteq> ag_nodeUID st"
    and "int (mlen (cd_retired c)) < co_MaxRetired (cd_opts c)"
  shows "int (mlen (cd_agents (pruneInactive now seen c))) < co_MaxAgents (cd_opts c)"
proof -
  have wf: "mwf (cd_agents c)"
    using assms(1) by (simp add: tables_ok_def)
  have "key \<in> set (inactive_keys identities c)"
    using assms(4,5) wf by (force simp: inactive_keys_def mget_in_iff)
  then obtain k ks where keys: "inactive_keys identities c = k # ks"
    by (cases "inactive_keys identities c") auto
  have "set (inactive_keys identities c) \<subseteq> dom (mget (cd_agents c))"
    by (auto simp: inactive_keys_def dom_mget)
  then have present: "\<forall>j \<in> set (k # ks). mget (cd_agents c) j \<noteq> None"
    by (auto simp: keys)
  have distinct: "distinct (k # ks)"
    using wf by (simp flip: keys add: inactive_keys_def mwf_def distinct_map_filter)
  obtain st' where st': "mget (cd_agents c) k = Some st'"
    using present by auto
  let ?c = "retire k (now + co_RetiredTTL (cd_opts c)) c"
  have "retired_from ?c (set ks) (now + co_RetiredTTL (cd_opts ?c)) (retire_all now ks ?c)"
    by (rule retire_all_from [OF retire_ok [OF assms(1) st'] retire_sizes [OF assms(1,2,6)]])
      (use present distinct in \<open>auto simp: retire_get\<close>)
  note rest = this retired_from_shrinks [OF this]
  have eq: "pruneInactive now seen c = retire_all now ks ?c"
    using assms(3,6) by (simp add: pruneInactive_def keys)
  have "dom (mget (cd_agents ?c)) = dom (mget (cd_agents c)) - {k}"
    by (auto simp: retire_get split: if_splits)
  with rest(2) have sub: "dom (mget (cd_agents (pruneInactive now seen c))) \<subseteq> dom (mget (cd_agents c)) - {k}"
    by (simp add: eq)
  have "k \<in> dom (mget (cd_agents c))"
    using st' by auto
  with sub have "dom (mget (cd_agents (pruneInactive now seen c))) \<subset> dom (mget (cd_agents c))"
    by blast
  then have "card (dom (mget (cd_agents (pruneInactive now seen c)))) < card (dom (mget (cd_agents c)))"
    by (intro psubset_card_mono) simp_all
  moreover have "mwf (cd_agents (pruneInactive now seen c))"
    using rest(1) by (simp add: eq retired_from_def tables_ok_def)
  ultimately show ?thesis
    using assms(2) wf by (simp add: sizes_ok_def mlen_card)
qed

text \<open>
  C25. Capacity recovers: while the inventory is current, as soon as one agent's Node has left it
  and a retired slot is free, a new producer is not turned away for the number of agents.
\<close>

theorem capacity_recovers:
  assumes "coordinator_inv (T, c)"
    and "CurrentNodeIdentities seen (rd_inactive rd) = Some identities"
    and "mget (cd_agents c) key = Some st" and "mget0 '''' identities (ag_nodeName st) \<noteq> ag_nodeUID st"
    and "int (mlen (cd_retired (pruneRetired (rd_prune rd) c))) < co_MaxRetired (cd_opts c)"
  shows "\<nexists>e. fst (Accept L rd seen claims request c) = Rejected e \<and> ie_Code e = ''agent_capacity''"
proof -
  let ?c1 = "pruneRetired (rd_prune rd) c"
  define c2 where "c2 = (if mget (cd_agents ?c1) (instanceKey claims) = None \<and>
      int (mlen (cd_agents ?c1)) \<ge> co_MaxAgents (cd_opts ?c1) then pruneInactive (rd_inactive rd) seen ?c1 else ?c1)"
  have ok: "tables_ok ?c1" "sizes_ok ?c1"
    using assms(1) by (simp_all add: coordinator_inv_def pruneRetired_ok pruneRetired_sizes)
  have "cd_opts c2 = cd_opts c"
    using pruneInactive_from [OF ok, of "rd_inactive rd" seen] by (auto simp: c2_def retired_from_def)
  moreover have "mget (cd_agents c2) (instanceKey claims) = None \<Longrightarrow> int (mlen (cd_agents c2)) < co_MaxAgents (cd_opts c)"
    using pruneInactive_frees [OF ok assms(2), of key st] assms(3-5) by (auto simp: c2_def split: if_splits)
  ultimately have capacity: "capacity_checks claims request now c2 = Some (Rejected e) \<Longrightarrow> ie_Code e \<noteq> ''agent_capacity''" for now e
    by (auto simp: capacity_checks_def reject_def split: if_splits option.splits)
  have sequence: "sequence_checks claims request digest ?c1 = Some (Rejected e) \<Longrightarrow> ie_Code e \<noteq> ''agent_capacity''" for digest e
    by (auto simp: sequence_checks_def reject_def split: if_splits option.splits)
  have store: "store_outcome x = Rejected e \<Longrightarrow> ie_Code e \<noteq> ''agent_capacity''" for x e
    by (auto simp: store_outcome_def store_rejection_def reject_def split: if_splits store_error.splits topo_error.splits vol_error.splits)
  have accept: "Accept L rd seen claims request c =
    (case validateProducerSnapshot claims (rq_Snapshot request) of
       Some e \<Rightarrow> (Rejected (reject 403 ''producer_scope'' (OfProducer e) ''node_mismatch''), c)
     | None \<Rightarrow>
    (case il_marshal L request of
       None \<Rightarrow> (Rejected (reject 400 ''invalid_snapshot'' (Fixed ''snapshot request cannot be canonicalised'') ''invalid_snapshot''), c)
     | Some canonical \<Rightarrow>
        (case sequence_checks claims request (il_sum256 L canonical) ?c1 of
           Some r \<Rightarrow> (r, ?c1)
         | None \<Rightarrow> (case capacity_checks claims request (rd_validate rd) c2 of
              Some r \<Rightarrow> (r, c2)
            | None \<Rightarrow> (case submit (il_store L) (rd_store rd) claims (rq_Snapshot request) (cd_store c2) of
                 Inl e \<Rightarrow> (store_outcome e, c2)
               | Inr (n, s') \<Rightarrow> (Replied (accepted_response n) False, commit claims (rq_Sequence request)
                   (il_sum256 L canonical) (accepted_response n) (rd_retire rd) (c2\<lparr>cd_store := s'\<rparr>)))))))"
    by (simp only: Accept_def Let_def c2_def [symmetric])
  show ?thesis
    using capacity sequence store
    by (auto simp: accept reject_def split: option.splits sum.splits prod.splits)
qed

theorem capacity_recovers_witness:
  "\<nexists>e. fst (Accept sample_ingest_lib (sample_readings\<lparr>rd_inactive := 130\<rparr>) (inventoried_store\<lparr>st_expectedNodeUIDs := []\<rparr>)
       (sample_claims\<lparr>cl_PodUID := ''newcomer''\<rparr>) (sample_request 1) (held_coordinator 1)) = Rejected e \<and> ie_Code e = ''agent_capacity''"
proof -
  have "coordinator_step sample_ingest_lib (50, sample_coordinator) (rd_retire sample_readings, held_coordinator 1)"
    by (rule request [OF sample_readings_ordered sample_claims_user sample_first [where seen = empty_store]]) simp_all
  then have inv: "coordinator_inv (rd_retire sample_readings, held_coordinator 1)"
    using coordinator_step_inv new_coordinator_inv [OF sample_coordinator_new] by blast
  have "CurrentNodeIdentities (inventoried_store\<lparr>st_expectedNodeUIDs := []\<rparr>) (rd_inactive (sample_readings\<lparr>rd_inactive := 130\<rparr>)) = Some []"
    by (simp add: CurrentNodeIdentities_def inventoried_store_fields StaleAfter_def go_simps)
  then show ?thesis
    by (rule capacity_recovers [OF inv, where key = "''pod''"])
      ((simp_all add: held_coordinator_def sample_coordinator_def mget_def mget0_def pruneRetired_def mkeep_def)+)
qed

end
