(* ===== verification/Aggregates.thy ===== *)
theory Aggregates
  imports Store_Reads
begin

text \<open>
  The aggregates of the collector, \<open>aggregate/\<close>: containers into Pods, Pods into namespaces and
  workloads, and the summary accumulator that builds Pods without keeping their containers. A loop
  over a list of containers is a \<open>fold\<close>; a map of pointers that the loop fills is a map whose values
  are updated.
\<close>

subsection \<open>Data\<close>

record pod_context =
  pc_Resources :: pod_memory_resources
  pc_MemoryRequestBytes :: u64
  pc_MemoryRequestContainers :: int
  pc_MemoryLimitBytes :: u64
  pc_MemoryLimitContainers :: int
  pc_QoSClass :: string
  pc_RestartCount :: int
  pc_LastTerminationKnown :: bool
  pc_LastTerminationReason :: string
  pc_LastTerminationExitCode :: int
  pc_LastTerminationFinishedAt :: time
  pc_Phase :: string
  pc_CreatedAt :: time
  pc_OwnerKind :: string
  pc_OwnerName :: string
  pc_WorkloadKind :: string
  pc_WorkloadName :: string
  pc_NodeMemoryPressure :: string
  pc_NodeMemoryAllocatable :: u64
  pc_NodeMemoryAllocatableKnown :: bool
  pc_RuntimeClassName :: string
  pc_MemoryEmptyDirCount :: int
  pc_MemoryEmptyDirLimited :: int
  pc_MemoryEmptyDirLimitBytes :: u64
  pc_Labels :: "(string, string) gomap"

definition pod_context_zero :: pod_context where
  "pod_context_zero = \<lparr>pc_Resources = pr_zero, pc_MemoryRequestBytes = 0, pc_MemoryRequestContainers = 0,
     pc_MemoryLimitBytes = 0, pc_MemoryLimitContainers = 0, pc_QoSClass = '''', pc_RestartCount = 0,
     pc_LastTerminationKnown = False, pc_LastTerminationReason = '''', pc_LastTerminationExitCode = 0,
     pc_LastTerminationFinishedAt = 0, pc_Phase = '''', pc_CreatedAt = 0, pc_OwnerKind = '''', pc_OwnerName = '''',
     pc_WorkloadKind = '''', pc_WorkloadName = '''', pc_NodeMemoryPressure = '''', pc_NodeMemoryAllocatable = 0,
     pc_NodeMemoryAllocatableKnown = False, pc_RuntimeClassName = '''', pc_MemoryEmptyDirCount = 0,
     pc_MemoryEmptyDirLimited = 0, pc_MemoryEmptyDirLimitBytes = 0, pc_Labels = []\<rparr>"

record pod_snapshot =
  ps_Namespace :: string
  ps_PodName :: string
  ps_PodUID :: string
  ps_NodeName :: string
  ps_CapturedAt :: time
  ps_Freshness :: string
  ps_Completeness :: string
  ps_Containers :: "container_snapshot list"
  ps_Context :: pod_context
  ps_Memory :: memory_breakdown

record namespace_snapshot =
  ns_Namespace :: string
  ns_CapturedAt :: time
  ns_Freshness :: string
  ns_Completeness :: string
  ns_PodCount :: int
  ns_Memory :: memory_breakdown

record workload_snapshot =
  wl_Namespace :: string
  wl_Kind :: string
  wl_Name :: string
  wl_CapturedAt :: time
  wl_Freshness :: string
  wl_Completeness :: string
  wl_PodCount :: int
  wl_LargestPodName :: string
  wl_LargestPodBytes :: u64
  wl_Pods :: "pod_snapshot list"
  wl_Memory :: memory_breakdown

text \<open>\<open>strings.Join(parts, "\x00")\<close>.\<close>

fun join_nul :: "string list \<Rightarrow> string" where
  "join_nul [] = ''''"
| "join_nul [p] = p"
| "join_nul (p # q # ps) = p @ CHR 0x00 # join_nul (q # ps)"

subsection \<open>The context of a Pod\<close>

text \<open>A sum of two \<open>int32\<close> values wraps.\<close>

definition int32_add :: "int \<Rightarrow> int \<Rightarrow> int" where
  "int32_add a b = (a + b + 2 ^ 31) mod 2 ^ 32 - 2 ^ 31"

definition setFirst :: "string \<Rightarrow> string \<Rightarrow> string" where
  "setFirst target v = (if target = '''' then v else target)"

definition copyLabels :: "(string, string) gomap \<Rightarrow> (string, string) gomap \<Rightarrow> (string, string) gomap" where
  "copyLabels target labels = (if target \<noteq> [] \<or> labels = [] then target else labels)"

definition addContainerContext :: "container_context \<Rightarrow> pod_context \<Rightarrow> pod_context" where
  "addContainerContext c p =
    (let later = cc_LastTerminationKnown c \<and>
           (\<not> pc_LastTerminationKnown p \<or> cc_LastTerminationFinishedAt c > pc_LastTerminationFinishedAt p);
         created = is_zero_time (pc_CreatedAt p) \<or> (\<not> is_zero_time (cc_PodCreatedAt c) \<and> cc_PodCreatedAt c < pc_CreatedAt p);
         allocatable = \<not> pc_NodeMemoryAllocatableKnown p \<and> cc_NodeMemoryAllocatableKnown c;
         emptyDir = pc_MemoryEmptyDirCount p = 0 \<and> cc_MemoryEmptyDirCount c > 0
     in \<lparr>pc_Resources = (if pr_IsZero (pc_Resources p) then cr_Pod (cc_Resources c) else pc_Resources p),
       pc_MemoryRequestBytes = pc_MemoryRequestBytes p + (if cc_MemoryRequestKnown c then cc_MemoryRequestBytes c else 0),
       pc_MemoryRequestContainers = pc_MemoryRequestContainers p + (if cc_MemoryRequestKnown c then 1 else 0),
       pc_MemoryLimitBytes = pc_MemoryLimitBytes p + (if cc_MemoryLimitKnown c then cc_MemoryLimitBytes c else 0),
       pc_MemoryLimitContainers = pc_MemoryLimitContainers p + (if cc_MemoryLimitKnown c then 1 else 0),
       pc_QoSClass = setFirst (pc_QoSClass p) (cc_QoSClass c),
       pc_RestartCount = int32_add (pc_RestartCount p) (cc_RestartCount c),
       pc_LastTerminationKnown = (pc_LastTerminationKnown p \<or> later),
       pc_LastTerminationReason = (if later then cc_LastTerminationReason c else pc_LastTerminationReason p),
       pc_LastTerminationExitCode = (if later then cc_LastTerminationExitCode c else pc_LastTerminationExitCode p),
       pc_LastTerminationFinishedAt = (if later then cc_LastTerminationFinishedAt c else pc_LastTerminationFinishedAt p),
       pc_Phase = setFirst (pc_Phase p) (cc_PodPhase c),
       pc_CreatedAt = (if created then cc_PodCreatedAt c else pc_CreatedAt p),
       pc_OwnerKind = (if pc_OwnerKind p = '''' then cc_OwnerKind c else pc_OwnerKind p),
       pc_OwnerName = (if pc_OwnerKind p = '''' then cc_OwnerName c else pc_OwnerName p),
       pc_WorkloadKind = (if pc_WorkloadKind p = '''' then cc_WorkloadKind c else pc_WorkloadKind p),
       pc_WorkloadName = (if pc_WorkloadKind p = '''' then cc_WorkloadName c else pc_WorkloadName p),
       pc_NodeMemoryPressure = setFirst (pc_NodeMemoryPressure p) (cc_NodeMemoryPressure c),
       pc_NodeMemoryAllocatable = (if allocatable then cc_NodeMemoryAllocatable c else pc_NodeMemoryAllocatable p),
       pc_NodeMemoryAllocatableKnown = (pc_NodeMemoryAllocatableKnown p \<or> allocatable),
       pc_RuntimeClassName = setFirst (pc_RuntimeClassName p) (cc_RuntimeClassName c),
       pc_MemoryEmptyDirCount = (if emptyDir then cc_MemoryEmptyDirCount c else pc_MemoryEmptyDirCount p),
       pc_MemoryEmptyDirLimited = (if emptyDir then cc_MemoryEmptyDirLimited c else pc_MemoryEmptyDirLimited p),
       pc_MemoryEmptyDirLimitBytes = (if emptyDir then cc_MemoryEmptyDirLimitBytes c else pc_MemoryEmptyDirLimitBytes p),
       pc_Labels = copyLabels (pc_Labels p) (cc_Labels c)\<rparr>)"

definition ContextForContainers :: "container_context list \<Rightarrow> pod_context" where
  "ContextForContainers cs = fold addContainerContext cs pod_context_zero"

subsection \<open>Evidence\<close>

definition evidence_of :: "bool \<Rightarrow> bool \<Rightarrow> bool \<Rightarrow> string \<times> string" where
  "evidence_of fresh stale partial =
    (if stale \<and> \<not> fresh then (EvidenceStale, if partial then EvidencePartial else EvidenceComplete)
     else if stale \<or> partial then (EvidenceFresh, EvidencePartial)
     else (EvidenceFresh, EvidenceComplete))"

definition containerEvidence :: "container_snapshot list \<Rightarrow> string \<times> string" where
  "containerEvidence cs = evidence_of (list_ex (\<lambda>c. cs_Freshness c \<noteq> EvidenceStale) cs)
     (list_ex (\<lambda>c. cs_Freshness c = EvidenceStale) cs) (list_ex (\<lambda>c. cs_Completeness c = EvidencePartial) cs)"

definition mergeEvidence :: "string \<times> string \<Rightarrow> string \<times> string \<Rightarrow> string \<times> string" where
  "mergeEvidence current incoming =
    (let (freshness, completeness) = current; (nextFreshness, nextCompleteness) = incoming in
     if freshness = '''' then (nextFreshness, nextCompleteness)
     else (if freshness = EvidenceStale \<and> nextFreshness = EvidenceFresh then EvidenceFresh else freshness,
           if freshness \<noteq> nextFreshness \<or> nextCompleteness = EvidencePartial then EvidencePartial else completeness))"

subsection \<open>Pods\<close>

definition pod_key_of :: "container_snapshot \<Rightarrow> string" where
  "pod_key_of c = join_nul [cs_Namespace c, cs_PodUID c, cs_PodName c, cs_NodeName c]"

definition new_pod :: "container_snapshot \<Rightarrow> pod_snapshot" where
  "new_pod c = \<lparr>ps_Namespace = cs_Namespace c, ps_PodName = cs_PodName c, ps_PodUID = cs_PodUID c, ps_NodeName = cs_NodeName c,
     ps_CapturedAt = 0, ps_Freshness = '''', ps_Completeness = '''', ps_Containers = [], ps_Context = pod_context_zero,
     ps_Memory = memory_zero\<rparr>"

definition seen_at :: "container_snapshot \<Rightarrow> pod_snapshot \<Rightarrow> pod_snapshot" where
  "seen_at c pod = (if cs_CapturedAt c > ps_CapturedAt pod then pod\<lparr>ps_CapturedAt := cs_CapturedAt c\<rparr> else pod)"

text \<open>The map of Pods and the order in which their keys first appeared.\<close>

type_synonym 'p pods_table = "(string, 'p) gomap \<times> string list"

definition named :: "container_snapshot \<Rightarrow> bool" where
  "named c \<longleftrightarrow> \<not> (cs_Namespace c = '''' \<or> cs_PodName c = '''')"

definition group_container :: "container_snapshot \<Rightarrow> pod_snapshot pods_table \<Rightarrow> pod_snapshot pods_table" where
  "group_container c table =
    (if \<not> named c then table
     else let (byPod, order) = table; key = pod_key_of c;
         (pod, order') = (case mget byPod key of None \<Rightarrow> (new_pod c, order @ [key]) | Some p \<Rightarrow> (p, order))
       in (mput key (seen_at c (pod\<lparr>ps_Containers := ps_Containers pod @ [c]\<rparr>)) byPod, order'))"

definition pod_before :: "pod_snapshot \<Rightarrow> pod_snapshot \<Rightarrow> bool" where
  "pod_before a b = (if ps_Namespace a = ps_Namespace b then ps_PodName a < ps_PodName b else ps_Namespace a < ps_Namespace b)"

definition pod_title :: "pod_snapshot \<Rightarrow> string" where
  "pod_title pod = ps_Namespace pod @ ''/'' @ ps_PodName pod"

definition finish_pod :: "pod_snapshot \<Rightarrow> pod_snapshot" where
  "finish_pod pod =
    (let (freshness, completeness) = containerEvidence (ps_Containers pod)
     in pod\<lparr>ps_Context := fold (\<lambda>c. addContainerContext (cs_Context c)) (ps_Containers pod) (ps_Context pod),
          ps_Memory := SumMemory (pod_title pod) (map cs_Memory (ps_Containers pod)),
          ps_Freshness := freshness, ps_Completeness := completeness,
          ps_Containers := sort_slice container_before (ps_Containers pod)\<rparr>)"

definition pod_empty :: pod_snapshot where
  "pod_empty = new_pod container_zero"

definition Pods :: "container_snapshot list \<Rightarrow> pod_snapshot list" where
  "Pods containers =
    (let (byPod, order) = fold group_container containers ([], [])
     in sort_slice pod_before (map (\<lambda>key. finish_pod (mget0 pod_empty byPod key)) order))"

subsection \<open>Pod summaries\<close>

record pod_summary_state =
  ss_pod :: pod_snapshot
  ss_fresh :: bool
  ss_stale :: bool
  ss_partial :: bool

definition new_summary :: "container_snapshot \<Rightarrow> pod_summary_state" where
  "new_summary c = \<lparr>ss_pod = new_pod c, ss_fresh = False, ss_stale = False, ss_partial = False\<rparr>"

definition NewPodSummaryAccumulator :: "pod_summary_state pods_table" where
  "NewPodSummaryAccumulator = ([], [])"

definition summary_add :: "container_snapshot \<Rightarrow> pod_summary_state \<Rightarrow> pod_summary_state" where
  "summary_add c st =
    (let pod = ss_pod st;
         pod1 = pod\<lparr>ps_Memory := AddMemory (ps_Memory pod) (cs_Memory c),
           ps_Context := addContainerContext (cs_Context c) (ps_Context pod)\<rparr>
     in \<lparr>ss_pod = seen_at c pod1, ss_fresh = (ss_fresh st \<or> cs_Freshness c \<noteq> EvidenceStale),
         ss_stale = (ss_stale st \<or> cs_Freshness c = EvidenceStale),
         ss_partial = (ss_partial st \<or> cs_Completeness c = EvidencePartial)\<rparr>)"

definition PodSummaryAdd :: "container_snapshot \<Rightarrow> pod_summary_state pods_table \<Rightarrow> pod_summary_state pods_table" where
  "PodSummaryAdd c table =
    (if \<not> named c then table
     else let (byPod, order) = table; key = pod_key_of c;
         (st, order') = (case mget byPod key of None \<Rightarrow> (new_summary c, order @ [key]) | Some st \<Rightarrow> (st, order))
       in (mput key (summary_add c st) byPod, order'))"

definition finish_summary :: "pod_summary_state \<Rightarrow> pod_snapshot" where
  "finish_summary st =
    (let pod = ss_pod st; (freshness, completeness) = evidence_of (ss_fresh st) (ss_stale st) (ss_partial st)
     in pod\<lparr>ps_Memory := (ps_Memory pod)\<lparr>mb_Name := pod_title pod\<rparr>, ps_Freshness := freshness, ps_Completeness := completeness\<rparr>)"

definition PodSummarySnapshots :: "pod_summary_state pods_table \<Rightarrow> pod_snapshot list" where
  "PodSummarySnapshots table =
    (let (byPod, order) = table
     in sort_slice pod_before (map (\<lambda>key. finish_summary (mget0 (new_summary container_zero) byPod key)) order))"

subsection \<open>Namespaces\<close>

definition namespace_zero :: "string \<Rightarrow> namespace_snapshot" where
  "namespace_zero name = \<lparr>ns_Namespace = name, ns_CapturedAt = 0, ns_Freshness = '''', ns_Completeness = '''', ns_PodCount = 0,
     ns_Memory = memory_zero\<rparr>"

definition namespace_add :: "pod_snapshot \<Rightarrow> namespace_snapshot \<Rightarrow> namespace_snapshot" where
  "namespace_add pod ns =
    (let (freshness, completeness) = mergeEvidence (ns_Freshness ns, ns_Completeness ns) (ps_Freshness pod, ps_Completeness pod)
     in \<lparr>ns_Namespace = ns_Namespace ns,
         ns_CapturedAt = (if ps_CapturedAt pod > ns_CapturedAt ns then ps_CapturedAt pod else ns_CapturedAt ns),
         ns_Freshness = freshness, ns_Completeness = completeness, ns_PodCount = ns_PodCount ns + 1,
         ns_Memory = (AddMemory (ns_Memory ns) (ps_Memory pod))\<lparr>mb_Name := ps_Namespace pod\<rparr>\<rparr>)"

definition group_namespace :: "pod_snapshot \<Rightarrow> (string, namespace_snapshot) gomap \<Rightarrow> (string, namespace_snapshot) gomap" where
  "group_namespace pod m =
    mput (ps_Namespace pod) (namespace_add pod (mget0 (namespace_zero (ps_Namespace pod)) m (ps_Namespace pod))) m"

definition Namespaces :: "pod_snapshot list \<Rightarrow> namespace_snapshot list" where
  "Namespaces pods = sort_slice (\<lambda>a b. ns_Namespace a < ns_Namespace b) (map snd (fold group_namespace pods []))"

subsection \<open>Workloads\<close>

definition known_boundaries :: "pod_snapshot \<Rightarrow> memory_breakdown \<Rightarrow> memory_breakdown" where
  "known_boundaries pod m =
    m\<lparr>MinKnown := MinKnown m \<and> MinKnown (ps_Memory pod), LowKnown := LowKnown m \<and> LowKnown (ps_Memory pod),
      HighKnown := HighKnown m \<and> HighKnown (ps_Memory pod), MaxKnown := MaxKnown m \<and> MaxKnown (ps_Memory pod),
      SwapMaxKnown := SwapMaxKnown m \<and> SwapMaxKnown (ps_Memory pod)\<rparr>"

definition normaliseWorkloadBoundaries :: "pod_snapshot list \<Rightarrow> memory_breakdown \<Rightarrow> memory_breakdown" where
  "normaliseWorkloadBoundaries pods m = fold known_boundaries pods (m\<lparr>PeakKnown := False\<rparr>)"

definition podWorkload :: "pod_snapshot \<Rightarrow> string \<times> string" where
  "podWorkload pod =
    (if pc_WorkloadKind (ps_Context pod) \<noteq> '''' \<and> pc_WorkloadName (ps_Context pod) \<noteq> ''''
     then (pc_WorkloadKind (ps_Context pod), pc_WorkloadName (ps_Context pod))
     else if pc_OwnerKind (ps_Context pod) \<noteq> '''' \<and> pc_OwnerName (ps_Context pod) \<noteq> ''''
     then (pc_OwnerKind (ps_Context pod), pc_OwnerName (ps_Context pod))
     else (''Pod'', ps_PodName pod))"

definition summarise_pod :: "pod_snapshot \<Rightarrow> workload_snapshot \<Rightarrow> workload_snapshot" where
  "summarise_pod pod w =
    (let larger = (wl_LargestPodName w = '''' \<or> TotalBytes (ps_Memory pod) > wl_LargestPodBytes w);
         (freshness, completeness) = mergeEvidence (wl_Freshness w, wl_Completeness w) (ps_Freshness pod, ps_Completeness pod)
     in w\<lparr>wl_CapturedAt := (if ps_CapturedAt pod > wl_CapturedAt w then ps_CapturedAt pod else wl_CapturedAt w),
          wl_LargestPodName := (if larger then ps_PodName pod else wl_LargestPodName w),
          wl_LargestPodBytes := (if larger then TotalBytes (ps_Memory pod) else wl_LargestPodBytes w),
          wl_Freshness := freshness, wl_Completeness := completeness\<rparr>)"

definition workload_zero :: "string \<Rightarrow> string \<Rightarrow> string \<Rightarrow> workload_snapshot" where
  "workload_zero namespace kind name = \<lparr>wl_Namespace = namespace, wl_Kind = kind, wl_Name = name, wl_CapturedAt = 0, wl_Freshness = '''',
     wl_Completeness = '''', wl_PodCount = 0, wl_LargestPodName = '''', wl_LargestPodBytes = 0, wl_Pods = [], wl_Memory = memory_zero\<rparr>"

text \<open>\<open>sort.SliceStable\<close> is the insertion sort that keeps the order of equal elements.\<close>

definition SummariseWorkload :: "string \<Rightarrow> string \<Rightarrow> string \<Rightarrow> pod_snapshot list \<Rightarrow> workload_snapshot" where
  "SummariseWorkload namespace kind name pods =
    (let w = fold summarise_pod pods ((workload_zero namespace kind name)\<lparr>wl_PodCount := int (length pods)\<rparr>)
     in w\<lparr>wl_Memory := normaliseWorkloadBoundaries pods
            (SumMemory (namespace @ ''/'' @ kind @ ''/'' @ name) (map ps_Memory pods)),
          wl_Pods := sort_slice (\<lambda>a b. TotalBytes (ps_Memory a) > TotalBytes (ps_Memory b)) pods\<rparr>)"

definition workload_key :: "pod_snapshot \<Rightarrow> string" where
  "workload_key pod = (let (kind, name) = podWorkload pod in join_nul [ps_Namespace pod, kind, name])"

definition group_workload :: "pod_snapshot \<Rightarrow> workload_snapshot pods_table \<Rightarrow> workload_snapshot pods_table" where
  "group_workload pod table =
    (let (byWorkload, keys) = table; (kind, name) = podWorkload pod; key = workload_key pod;
         (w, keys') = (case mget byWorkload key of None \<Rightarrow> (workload_zero (ps_Namespace pod) kind name, keys @ [key])
           | Some w \<Rightarrow> (w, keys))
     in (mput key (w\<lparr>wl_Pods := wl_Pods w @ [pod]\<rparr>) byWorkload, keys'))"

definition Workloads :: "pod_snapshot list \<Rightarrow> workload_snapshot list" where
  "Workloads pods =
    (let (byWorkload, keys) = fold group_workload pods ([], [])
     in map (\<lambda>key. let w = mget0 (workload_zero '''' '''' '''') byWorkload key
          in SummariseWorkload (wl_Namespace w) (wl_Kind w) (wl_Name w) (wl_Pods w)) (sort keys))"

end
