(* ===== verification/Aggregate_Properties.thy ===== *)
theory Aggregate_Properties
  imports Aggregates
begin

text \<open>
  The properties of the aggregates: the summary accumulator implements the full aggregation, and
  aggregation loses and invents no memory.
\<close>

subsection \<open>Sorting and mapping\<close>

lemma insert_by_map: "insert_by lt (f x) (map f ys) = map f (insert_by (\<lambda>a b. lt (f a) (f b)) x ys)"
  by (induction ys) auto

lemma sort_slice_map: "sort_slice lt (map f xs) = map f (sort_slice (\<lambda>a b. lt (f a) (f b)) xs)"
  by (induction xs) (simp_all add: sort_slice_def insert_by_map)

subsection \<open>The summary refines the Pod\<close>

text \<open>The summary state that stands for a Pod with its containers.\<close>

definition summary_of :: "pod_snapshot \<Rightarrow> pod_summary_state" where
  "summary_of pod = \<lparr>ss_pod = pod\<lparr>ps_Containers := [],
       ps_Memory := sumFrom (ps_Memory pod) (map cs_Memory (ps_Containers pod)),
       ps_Context := fold (\<lambda>c. addContainerContext (cs_Context c)) (ps_Containers pod) (ps_Context pod)\<rparr>,
     ss_fresh = list_ex (\<lambda>c. cs_Freshness c \<noteq> EvidenceStale) (ps_Containers pod),
     ss_stale = list_ex (\<lambda>c. cs_Freshness c = EvidenceStale) (ps_Containers pod),
     ss_partial = list_ex (\<lambda>c. cs_Completeness c = EvidencePartial) (ps_Containers pod)\<rparr>"

definition summaries_of :: "pod_snapshot pods_table \<Rightarrow> pod_summary_state pods_table" where
  "summaries_of table = (map (\<lambda>(key, pod). (key, summary_of pod)) (fst table), snd table)"

lemma sumFrom_append: "sumFrom acc (xs @ [x]) = AddMemory (sumFrom acc xs) x"
  by (simp add: sumFrom_fold)

lemma summary_of_new: "summary_of (new_pod c) = new_summary c"
  by (simp add: summary_of_def new_pod_def new_summary_def)

lemma summary_of_add:
  "summary_of (seen_at c (pod\<lparr>ps_Containers := ps_Containers pod @ [c]\<rparr>)) = summary_add c (summary_of pod)"
  by (simp add: summary_of_def seen_at_def summary_add_def sumFrom_append Let_def)

lemma mput_map_values: "mput k (f v) (map (\<lambda>(k, v). (k, f v)) m) = map (\<lambda>(k, v). (k, f v)) (mput k v m)"
  by (induction m) (auto simp: mput_def)

lemma group_container_named:
  "named c \<Longrightarrow> group_container c (byPod, order) = (let pod = mget0 (new_pod c) byPod (pod_key_of c) in
    (mput (pod_key_of c) (seen_at c (pod\<lparr>ps_Containers := ps_Containers pod @ [c]\<rparr>)) byPod,
     if mget byPod (pod_key_of c) = None then order @ [pod_key_of c] else order))"
  by (simp add: group_container_def Let_def mget0_def split: option.split)

lemma PodSummaryAdd_named:
  "named c \<Longrightarrow> PodSummaryAdd c (byPod, order) =
    (mput (pod_key_of c) (summary_add c (mget0 (new_summary c) byPod (pod_key_of c))) byPod,
     if mget byPod (pod_key_of c) = None then order @ [pod_key_of c] else order)"
  by (simp add: PodSummaryAdd_def Let_def mget0_def split: option.split)

lemma summary_of_mget0:
  "mget0 (new_summary c) (map (\<lambda>(key, pod). (key, summary_of pod)) m) k = summary_of (mget0 (new_pod c) m k)"
  by (simp add: mget0_def mget_map_values summary_of_new split: option.split)

lemma PodSummaryAdd_refines: "PodSummaryAdd c (summaries_of table) = summaries_of (group_container c table)"
proof (cases "named c")
  case True
  obtain byPod order where table: "table = (byPod, order)"
    by (cases table)
  show ?thesis
    unfolding table summaries_of_def fst_conv snd_conv PodSummaryAdd_named [OF True] group_container_named [OF True] Let_def
    by (simp add: summary_of_mget0 mget_map_values mput_map_values flip: summary_of_add)
next
  case False
  then show ?thesis
    by (simp add: PodSummaryAdd_def group_container_def)
qed

lemma PodSummary_fold:
  "fold PodSummaryAdd cs (summaries_of table) = summaries_of (fold group_container cs table)"
  by (induction cs arbitrary: table) (simp_all add: PodSummaryAdd_refines)

text \<open>In every table the grouping builds, Pods start from zero memory and context, and the order lists the keys.\<close>

definition table_ok :: "pod_snapshot pods_table \<Rightarrow> bool" where
  "table_ok table \<longleftrightarrow> mwf (fst table) \<and> mkeys (fst table) = snd table \<and>
     (\<forall>key pod. mget (fst table) key = Some pod \<longrightarrow> ps_Memory pod = memory_zero \<and> ps_Context pod = pod_context_zero)"

lemma mkeys_mput: "mkeys (mput k v m) = (if mget m k = None then mkeys m @ [k] else mkeys m)"
  by (induction m) (auto simp: mkeys_def mput_def mget_def)



lemma group_container_ok: "table_ok table \<Longrightarrow> table_ok (group_container c table)"
proof (cases table)
  case (Pair byPod order)
  assume ok: "table_ok table"
  let ?pod = "mget0 (new_pod c) byPod (pod_key_of c)"
  have "ps_Memory ?pod = memory_zero \<and> ps_Context ?pod = pod_context_zero"
  proof (cases "mget byPod (pod_key_of c)")
    case None
    then show ?thesis
      by (simp add: new_pod_def)
  next
    case (Some pod)
    moreover have "ps_Memory pod = memory_zero \<and> ps_Context pod = pod_context_zero"
      using ok Some unfolding table_ok_def Pair fst_conv by blast
    ultimately show ?thesis
      by simp
  qed
  then have zero: "ps_Memory (seen_at c (?pod\<lparr>ps_Containers := cs\<rparr>)) = memory_zero"
    "ps_Context (seen_at c (?pod\<lparr>ps_Containers := cs\<rparr>)) = pod_context_zero" for cs
    by (simp_all add: seen_at_def)
  show ?thesis
  proof (cases "named c")
    case True
    show ?thesis
      using ok zero unfolding Pair group_container_named [OF True] Let_def table_ok_def fst_conv snd_conv
      by (auto simp: mwf_mput mkeys_mput mget_mput split: if_splits)
  qed (use ok in \<open>simp add: group_container_def\<close>)
qed

lemma grouped_ok: "table_ok (fold group_container cs ([], []))"
proof -
  have "table_ok (fold group_container cs table)" if "table_ok table" for table
    using that by (induction cs arbitrary: table) (simp_all add: group_container_ok)
  moreover have "table_ok ([], [])"
    by (simp add: table_ok_def mkeys_def)
  ultimately show ?thesis .
qed

lemma AddMemory_name: "AddMemory (a\<lparr>mb_Name := n\<rparr>) b = (AddMemory a b)\<lparr>mb_Name := n\<rparr>"
  by (simp add: AddMemory_def)

lemma sumFrom_name: "sumFrom (a\<lparr>mb_Name := n\<rparr>) ms = (sumFrom a ms)\<lparr>mb_Name := n\<rparr>"
  by (induction a ms rule: sumFrom.induct) (simp_all add: AddMemory_name)

lemma SumMemory_name: "SumMemory n ms = (sumFrom memory_zero ms)\<lparr>mb_Name := n\<rparr>"
  by (simp add: SumMemory_def sumFrom_name)

lemma finish_summary_of:
  assumes "ps_Memory pod = memory_zero" and "ps_Context pod = pod_context_zero"
  shows "finish_summary (summary_of pod) = (finish_pod pod)\<lparr>ps_Containers := []\<rparr>"
  using assms
  by (simp add: finish_summary_def summary_of_def finish_pod_def containerEvidence_def SumMemory_name pod_title_def
      split: prod.split)

text \<open>
  C26. The summary accumulator implements the full aggregation: fed the same containers in the same
  order, it yields the Pods of the full aggregation, in the same order and with the same memory,
  context and evidence, only without their containers.
\<close>

theorem summaries_refine_pods:
  "PodSummarySnapshots (fold PodSummaryAdd cs NewPodSummaryAccumulator) = map (\<lambda>pod. pod\<lparr>ps_Containers := []\<rparr>) (Pods cs)"
proof -
  obtain byPod order where table: "fold group_container cs ([], []) = (byPod, order)"
    by (cases "fold group_container cs ([], [])")
  then have ok: "table_ok (byPod, order)"
    using grouped_ok [of cs] by simp
  have "fold PodSummaryAdd cs NewPodSummaryAccumulator = summaries_of (byPod, order)"
    using PodSummary_fold [of cs "([], [])"] by (simp add: table NewPodSummaryAccumulator_def summaries_of_def)
  moreover have "finish_summary (mget0 (new_summary container_zero) (map (\<lambda>(key, pod). (key, summary_of pod)) byPod) key)
      = (finish_pod (mget0 pod_empty byPod key))\<lparr>ps_Containers := []\<rparr>" if "key \<in> set order" for key
  proof -
    from ok that have "mget byPod key \<noteq> None"
      using set_mkeys [of key byPod] by (simp add: table_ok_def)
    then obtain pod where pod: "mget byPod key = Some pod"
      by auto
    with ok have "ps_Memory pod = memory_zero" "ps_Context pod = pod_context_zero"
      by (simp_all add: table_ok_def)
    from finish_summary_of [OF this] pod show ?thesis
      by (simp add: mget0_def mget_map_values)
  qed
  ultimately have "PodSummarySnapshots (fold PodSummaryAdd cs NewPodSummaryAccumulator)
      = sort_slice pod_before (map (\<lambda>key. (finish_pod (mget0 pod_empty byPod key))\<lparr>ps_Containers := []\<rparr>) order)"
    by (simp add: PodSummarySnapshots_def summaries_of_def cong: map_cong)
  also have "\<dots> = sort_slice pod_before (map (\<lambda>pod. pod\<lparr>ps_Containers := []\<rparr>)
      (map (\<lambda>key. finish_pod (mget0 pod_empty byPod key)) order))"
    by (simp add: comp_def)
  also have "\<dots> = map (\<lambda>pod. pod\<lparr>ps_Containers := []\<rparr>) (Pods cs)"
  proof -
    have "(\<lambda>a b. pod_before (a\<lparr>ps_Containers := []\<rparr>) (b\<lparr>ps_Containers := []\<rparr>)) = pod_before"
      by (simp add: pod_before_def fun_eq_iff)
    then show ?thesis
      by (simp only: sort_slice_map Pods_def table Let_def split_conv)
  qed
  finally show ?thesis .
qed

subsection \<open>Aggregation conserves memory\<close>

text \<open>A weight summed over the values of a map, and how an update changes it.\<close>

definition weigh :: "('v \<Rightarrow> 'w :: ab_group_add) \<Rightarrow> ('k, 'v) gomap \<Rightarrow> 'w" where
  "weigh w m = sum_list (map (\<lambda>(k, v). w v) m)"

lemma weigh_mput:
  "weigh w (mput k v m) = weigh w m + (w v - (case mget m k of None \<Rightarrow> 0 | Some old \<Rightarrow> w old))"
  by (induction m) (auto simp: weigh_def mput_def mget_def algebra_simps)

lemma weigh_Nil [simp]: "weigh w [] = 0"
  by (simp add: weigh_def)

lemma values_of_keys: "mwf m \<Longrightarrow> map (mget0 z m) (mkeys m) = map snd m"
proof -
  assume wf: "mwf m"
  have "mget0 z m k = v" if "(k, v) \<in> set m" for k v
    using that wf by (simp add: mget0_def mget_in_iff [OF wf, symmetric])
  then show ?thesis
    by (auto simp: mkeys_def)
qed

lemma sum_of_keys: "mwf m \<Longrightarrow> sum_list (map (\<lambda>k. w (mget0 z m k)) (mkeys m)) = weigh w m"
  using arg_cong [OF values_of_keys, of m "map w" z]
  by (simp add: weigh_def comp_def case_prod_beta')

lemma sum_sort_slice [simp]:
  "sum_list (map (f :: 'a \<Rightarrow> 'w :: comm_monoid_add) (sort_slice lt xs)) = sum_list (map f xs)"
  by (metis mset_map mset_sort_slice sum_mset_sum_list)

lemma sum_sort [simp]: "sum_list (map (f :: string \<Rightarrow> 'w :: comm_monoid_add) (sort xs)) = sum_list (map f xs)"
  by (metis mset_map mset_sort sum_mset_sum_list)

definition charged :: "container_snapshot list \<Rightarrow> u64" where
  "charged cs = sum_list (map (\<lambda>c. TotalBytes (cs_Memory c)) cs)"

lemma group_container_weighs:
  "weigh (\<lambda>pod. charged (ps_Containers pod)) (fst (group_container c table))
    = weigh (\<lambda>pod. charged (ps_Containers pod)) (fst table) + charged (filter named [c])"
proof (cases table)
  case (Pair byPod order)
  show ?thesis
  proof (cases "named c")
    case True
    have "ps_Containers (seen_at c pod) = ps_Containers pod" for pod
      by (simp add: seen_at_def)
    then show ?thesis
      unfolding Pair group_container_named [OF True] Let_def fst_conv weigh_mput
      using True by (cases "mget byPod (pod_key_of c)") (simp_all add: charged_def new_pod_def)
  qed (simp add: group_container_def charged_def)
qed

lemma grouped_weighs:
  "weigh (\<lambda>pod. charged (ps_Containers pod)) (fst (fold group_container cs table))
    = weigh (\<lambda>pod. charged (ps_Containers pod)) (fst table) + charged (filter named cs)"
proof (induction cs arbitrary: table)
  case (Cons c cs)
  have "charged (filter named (c # cs)) = charged (filter named [c]) + charged (filter named cs)"
    by (simp add: charged_def)
  then show ?case
    by (simp only: fold_Cons comp_apply Cons.IH group_container_weighs add.assoc)
qed (simp add: charged_def)

lemma TotalBytes_finish_pod: "TotalBytes (ps_Memory (finish_pod pod)) = charged (ps_Containers pod)"
  by (simp add: finish_pod_def SumMemory_def TotalBytes_sumFrom memory_zero_def charged_def comp_def split: prod.split)

lemma Pods_conserve:
  "sum_list (map (\<lambda>pod. TotalBytes (ps_Memory pod)) (Pods cs)) = charged (filter named cs)"
proof -
  obtain byPod order where table: "fold group_container cs ([], []) = (byPod, order)"
    by (cases "fold group_container cs ([], [])")
  then have ok: "mwf byPod" "mkeys byPod = order"
    using grouped_ok [of cs] by (simp_all add: table_ok_def)
  have "sum_list (map (\<lambda>pod. TotalBytes (ps_Memory pod)) (Pods cs))
      = sum_list (map (\<lambda>key. charged (ps_Containers (mget0 pod_empty byPod key))) order)"
    by (simp add: Pods_def table comp_def TotalBytes_finish_pod)
  also have "\<dots> = weigh (\<lambda>pod. charged (ps_Containers pod)) byPod"
    using sum_of_keys [OF ok(1)] by (simp add: ok(2))
  finally show ?thesis
    using grouped_weighs [of cs "([], [])"] by (simp add: table)
qed

lemma group_namespace_weighs:
  assumes "w (namespace_zero (ps_Namespace pod)) = 0"
    and "\<And>ns. w (namespace_add pod ns) = w ns + v"
  shows "weigh w (group_namespace pod m) = weigh w m + v"
  using assms by (simp add: group_namespace_def weigh_mput mget0_def split: option.split)

lemma Namespaces_conserve:
  assumes "\<And>name. w (namespace_zero name) = (0 :: 'w :: ab_group_add)" and "\<And>pod ns. w (namespace_add pod ns) = w ns + v pod"
  shows "sum_list (map w (Namespaces pods)) = sum_list (map v pods)"
proof -
  have "weigh w (fold group_namespace pods m) = weigh w m + sum_list (map v pods)" for m
    by (induction pods arbitrary: m) (simp_all add: group_namespace_weighs [of w, OF assms] add.assoc)
  from this [of "[]"] show ?thesis
    by (simp add: Namespaces_def weigh_def case_prod_beta' comp_def)
qed

lemma group_workload_step:
  "group_workload pod (byWorkload, keys) =
    (let key = workload_key pod; (kind, name) = podWorkload pod;
       w = mget0 (workload_zero (ps_Namespace pod) kind name) byWorkload key
     in (mput key (w\<lparr>wl_Pods := wl_Pods w @ [pod]\<rparr>) byWorkload,
         if mget byWorkload key = None then keys @ [key] else keys))"
  by (simp add: group_workload_def Let_def mget0_def split: option.split prod.split)

lemma group_workload_ok:
  assumes "mwf (fst table)" and "mkeys (fst table) = snd table"
  shows "mwf (fst (group_workload pod table)) \<and> mkeys (fst (group_workload pod table)) = snd (group_workload pod table)
    \<and> weigh (\<lambda>w. sum_list (map v (wl_Pods w))) (fst (group_workload pod table))
      = weigh (\<lambda>w. sum_list (map v (wl_Pods w))) (fst table) + v pod"
proof (cases table)
  case (Pair byWorkload keys)
  show ?thesis
    using assms unfolding Pair group_workload_step
    by (simp add: Let_def mwf_mput mkeys_mput weigh_mput mget0_def workload_zero_def split: prod.split option.split)
qed

lemma grouped_workloads:
  assumes "mwf (fst table)" and "mkeys (fst table) = snd table"
  shows "mwf (fst (fold group_workload pods table)) \<and> mkeys (fst (fold group_workload pods table)) = snd (fold group_workload pods table)
    \<and> weigh (\<lambda>w. sum_list (map v (wl_Pods w))) (fst (fold group_workload pods table))
      = weigh (\<lambda>w. sum_list (map v (wl_Pods w))) (fst table) + sum_list (map v pods)"
  using assms
proof (induction pods arbitrary: table)
  case (Cons pod pods)
  show ?case
    using Cons.IH [of "group_workload pod table"] group_workload_ok [OF Cons.prems, of pod v]
    by (simp add: add.assoc)
qed simp

lemma Workloads_conserve:
  assumes "\<And>namespace kind name pods. f (SummariseWorkload namespace kind name pods) = sum_list (map (v :: _ \<Rightarrow> 'w :: ab_group_add) pods)"
  shows "sum_list (map f (Workloads pods)) = sum_list (map v pods)"
proof -
  obtain byWorkload keys where table: "fold group_workload pods ([], []) = (byWorkload, keys)"
    by (cases "fold group_workload pods ([], [])")
  have ok: "mwf byWorkload" "mkeys byWorkload = keys"
    "weigh (\<lambda>w. sum_list (map v (wl_Pods w))) byWorkload = sum_list (map v pods)"
    using grouped_workloads [of "([], [])" pods v] by (simp_all add: table mkeys_def)
  have "sum_list (map f (Workloads pods))
      = sum_list (map (\<lambda>key. sum_list (map v (wl_Pods (mget0 (workload_zero '''' '''' '''') byWorkload key)))) keys)"
    by (simp add: Workloads_def table comp_def assms Let_def)
  also have "\<dots> = weigh (\<lambda>w. sum_list (map v (wl_Pods w))) byWorkload"
    using sum_of_keys [OF ok(1), of "\<lambda>w. sum_list (map v (wl_Pods w))"] by (simp add: ok(2))
  finally show ?thesis
    by (simp add: ok(3))
qed

lemma normalise_TotalBytes: "TotalBytes (normaliseWorkloadBoundaries pods m) = TotalBytes m"
proof -
  have "TotalBytes (fold known_boundaries pods a) = TotalBytes a" for a
    by (induction pods arbitrary: a) (simp_all add: known_boundaries_def)
  then show ?thesis
    by (simp add: normaliseWorkloadBoundaries_def)
qed

lemma SummariseWorkload_fields:
  "TotalBytes (wl_Memory (SummariseWorkload namespace kind name pods)) = sum_list (map (\<lambda>pod. TotalBytes (ps_Memory pod)) pods)"
  "wl_PodCount (SummariseWorkload namespace kind name pods) = sum_list (map (\<lambda>pod. 1) pods)"
proof -
  have "wl_PodCount (fold summarise_pod pods w) = wl_PodCount w" for w
    by (induction pods arbitrary: w) (simp_all add: summarise_pod_def Let_def split: prod.split)
  then show "wl_PodCount (SummariseWorkload namespace kind name pods) = sum_list (map (\<lambda>pod. 1) pods)"
    by (simp add: SummariseWorkload_def Let_def sum_list_triv)
qed (simp add: SummariseWorkload_def Let_def normalise_TotalBytes SumMemory_def TotalBytes_sumFrom memory_zero_def comp_def)


end
