(* ===== verification/Go_Heap.thy ===== *)
theory Go_Heap
  imports Go_Prelude "HOL-Library.Multiset"
begin

text \<open>
  \<open>container/heap\<close> on a slice whose \<open>Less(i, j)\<close> is \<open>h[i] > h[j]\<close>, as the page selection uses it:
  the heap is a list, its first element the largest. \<open>heap_up\<close> and \<open>heap_down\<close> are the two loops
  of the package, \<open>heap_Push\<close> and \<open>heap_Pop\<close> its operations. The contract a client relies on is the
  locale \<open>max_queue\<close>.
\<close>

subsection \<open>The contract of a queue that returns its largest element\<close>

locale max_queue =
  fixes push :: "'a :: linorder \<Rightarrow> 'q \<Rightarrow> 'q" and pop :: "'q \<Rightarrow> 'a \<times> 'q" and top :: "'q \<Rightarrow> 'a"
    and elems :: "'q \<Rightarrow> 'a multiset" and inv :: "'q \<Rightarrow> bool"
  assumes elems_push: "inv q \<Longrightarrow> elems (push x q) = add_mset x (elems q)"
    and inv_push: "inv q \<Longrightarrow> inv (push x q)"
    and top_max: "inv q \<Longrightarrow> elems q \<noteq> {#} \<Longrightarrow> top q = Max_mset (elems q)"
    and pop_top: "inv q \<Longrightarrow> elems q \<noteq> {#} \<Longrightarrow> fst (pop q) = top q"
    and elems_pop: "inv q \<Longrightarrow> elems q \<noteq> {#} \<Longrightarrow> elems (snd (pop q)) = elems q - {# top q #}"
    and inv_pop: "inv q \<Longrightarrow> elems q \<noteq> {#} \<Longrightarrow> inv (snd (pop q))"
begin

text \<open>Replacing the largest element by a smaller one keeps the smallest elements seen.\<close>

lemma replace_top:
  assumes "inv q" and "elems q \<noteq> {#}"
  shows "inv (push x (snd (pop q)))" and "elems (push x (snd (pop q))) = add_mset x (elems q - {# Max_mset (elems q) #})"
  using assms by (simp_all add: inv_push inv_pop elems_push elems_pop top_max)

end

subsection \<open>The loops\<close>

definition swap_at :: "nat \<Rightarrow> nat \<Rightarrow> 'a list \<Rightarrow> 'a list" where
  "swap_at i j xs = xs[i := xs ! j, j := xs ! i]"

fun heap_up :: "nat \<Rightarrow> 'a :: linorder list \<Rightarrow> 'a list" where
  "heap_up 0 xs = xs"
| "heap_up (Suc k) xs =
    (let i = k div 2 in if \<not> xs ! Suc k > xs ! i then xs else heap_up i (swap_at i (Suc k) xs))"

declare heap_up.simps [simp del]

function heap_down :: "nat \<Rightarrow> nat \<Rightarrow> 'a :: linorder list \<Rightarrow> 'a list" where
  "heap_down i n xs =
    (let j1 = 2 * i + 1 in
     if j1 \<ge> n then xs
     else let j = (if j1 + 1 < n \<and> xs ! (j1 + 1) > xs ! j1 then j1 + 1 else j1)
       in if \<not> xs ! j > xs ! i then xs else heap_down j n (swap_at i j xs))"
  by pat_completeness auto
termination
  by (relation "measure (\<lambda>(i, n, xs). n - i)") (auto split: if_splits)

declare heap_down.simps [simp del]

definition heap_Push :: "'a :: linorder \<Rightarrow> 'a list \<Rightarrow> 'a list" where
  "heap_Push x h = heap_up (length h) (h @ [x])"

definition heap_Pop :: "'a :: linorder list \<Rightarrow> 'a \<times> 'a list" where
  "heap_Pop h = (let n = length h - 1; h1 = heap_down 0 n (swap_at 0 n h) in (h1 ! n, take n h1))"

subsection \<open>The order\<close>

definition heap_ok :: "nat \<Rightarrow> 'a :: linorder list \<Rightarrow> bool" where
  "heap_ok n xs \<longleftrightarrow> n \<le> length xs \<and> (\<forall>i. 0 < i \<longrightarrow> i < n \<longrightarrow> xs ! i \<le> xs ! ((i - 1) div 2))"

text \<open>All pairs but that of \<open>j\<close> with its parent are in order, also after exchanging the two.\<close>

definition ok_but_up :: "nat \<Rightarrow> nat \<Rightarrow> 'a :: linorder list \<Rightarrow> bool" where
  "ok_but_up j n xs \<longleftrightarrow> n \<le> length xs \<and> j < n \<and>
     (\<forall>i. 0 < i \<longrightarrow> i < n \<longrightarrow> i \<noteq> j \<longrightarrow> xs ! i \<le> xs ! ((i - 1) div 2)) \<and>
     (\<forall>i. 0 < i \<longrightarrow> i < n \<longrightarrow> (i - 1) div 2 = j \<longrightarrow> 0 < j \<longrightarrow> xs ! i \<le> xs ! ((j - 1) div 2))"

definition ok_but_down :: "nat \<Rightarrow> nat \<Rightarrow> 'a :: linorder list \<Rightarrow> bool" where
  "ok_but_down j n xs \<longleftrightarrow> n \<le> length xs \<and>
     (\<forall>i. 0 < i \<longrightarrow> i < n \<longrightarrow> (i - 1) div 2 \<noteq> j \<longrightarrow> xs ! i \<le> xs ! ((i - 1) div 2)) \<and>
     (\<forall>i. 0 < i \<longrightarrow> i < n \<longrightarrow> (i - 1) div 2 = j \<longrightarrow> 0 < j \<longrightarrow> xs ! i \<le> xs ! ((j - 1) div 2))"

lemma length_swap_at [simp]: "length (swap_at i j xs) = length xs"
  by (simp add: swap_at_def)

lemma mset_swap_at [simp]: "i < length xs \<Longrightarrow> j < length xs \<Longrightarrow> mset (swap_at i j xs) = mset xs"
  unfolding swap_at_def by (rule mset_swap)

lemma nth_swap_at:
  "i < length xs \<Longrightarrow> j < length xs \<Longrightarrow> k < length xs \<Longrightarrow>
    swap_at i j xs ! k = (if k = j then xs ! i else if k = i then xs ! j else xs ! k)"
  by (simp add: swap_at_def nth_list_update)

lemma heap_up_ok:
  "ok_but_up j n xs \<Longrightarrow> heap_ok n (heap_up j xs) \<and> mset (heap_up j xs) = mset xs"
proof (induction j xs rule: heap_up.induct)
  case (1 xs)
  then show ?case
    by (auto simp: heap_up.simps ok_but_up_def heap_ok_def)
next
  case (2 k xs)
  let ?i = "k div 2"
  show ?case
  proof (cases "xs ! Suc k > xs ! ?i")
    case False
    have "xs ! i \<le> xs ! ((i - 1) div 2)" if "0 < i" "i < n" for i
      using that 2(2) False by (cases "i = Suc k") (simp_all add: ok_but_up_def)
    with 2(2) False show ?thesis
      by (simp add: heap_up.simps ok_but_up_def heap_ok_def)
  next
    case True
    let ?ys = "swap_at ?i (Suc k) xs"
    have len: "n \<le> length xs" "Suc k < n" "?i < n"
      using 2(2) by (auto simp: ok_but_up_def)
    note nth = nth_swap_at [of ?i xs "Suc k"]
    have order: "\<And>i. 0 < i \<Longrightarrow> i < n \<Longrightarrow> i \<noteq> Suc k \<Longrightarrow> xs ! i \<le> xs ! ((i - 1) div 2)"
      and below: "\<And>i. 0 < i \<Longrightarrow> i < n \<Longrightarrow> (i - 1) div 2 = Suc k \<Longrightarrow> xs ! i \<le> xs ! ?i"
      using 2(2) by (auto simp: ok_but_up_def)
    have "ok_but_up ?i n ?ys"
      unfolding ok_but_up_def
    proof (intro conjI allI impI)
      fix i
      assume i: "0 < i" "i < n" "i \<noteq> ?i"
      have parent: "(i - 1) div 2 < n"
        using i by simp
      show "?ys ! i \<le> ?ys ! ((i - 1) div 2)"
      proof (cases "i = Suc k")
        case True
        then show ?thesis
          using len \<open>xs ! Suc k > xs ! ?i\<close> by (auto simp: nth less_imp_le)
      next
        case False
        then show ?thesis
          using i len order [OF i(1,2)] below [OF i(1,2)] \<open>xs ! Suc k > xs ! ?i\<close> parent
          by (auto simp: nth)
      qed
    next
      fix i
      assume i: "0 < i" "i < n" "(i - 1) div 2 = ?i" "0 < ?i"
      have up: "xs ! ?i \<le> xs ! ((?i - 1) div 2)"
        by (rule order) (use i len in auto)
      have far: "(?i - 1) div 2 \<noteq> Suc k" "(?i - 1) div 2 \<noteq> ?i" "(?i - 1) div 2 < n" "i \<noteq> ?i"
        using i len by auto
      show "?ys ! i \<le> ?ys ! ((?i - 1) div 2)"
        using i len far up order [OF i(1,2)] by (cases "i = Suc k") (auto simp: nth)
    qed (use len in auto)
    with 2(1) [OF refl] True len show ?thesis
      by (simp add: heap_up.simps Let_def)
  qed
qed

lemma heap_down_ok:
  "ok_but_down j n xs \<Longrightarrow> heap_ok n (heap_down j n xs) \<and> mset (heap_down j n xs) = mset xs \<and>
    drop n (heap_down j n xs) = drop n xs"
proof (induction j n xs rule: heap_down.induct)
  case (1 i n xs)
  let ?j1 = "2 * i + 1"
  define j where "j = (if ?j1 + 1 < n \<and> xs ! (?j1 + 1) > xs ! ?j1 then ?j1 + 1 else ?j1)"
  have children: "k = ?j1 \<or> k = ?j1 + 1" if "(k - 1) div 2 = i" "0 < k" for k
    using that by auto
  show ?case
  proof (cases "?j1 < n")
    case False
    then have "(k - 1) div 2 \<noteq> i" if "0 < k" "k < n" for k
      using children that by fastforce
    with 1(2) False show ?thesis
      by (auto simp: heap_down.simps heap_ok_def ok_but_down_def)
  next
    case True
    have len: "n \<le> length xs" "j < n" "i < n" "i < j" "(j - 1) div 2 = i" "0 < j"
      using 1(2) True by (auto simp: ok_but_down_def j_def)
    have order: "\<And>k. 0 < k \<Longrightarrow> k < n \<Longrightarrow> (k - 1) div 2 \<noteq> i \<Longrightarrow> xs ! k \<le> xs ! ((k - 1) div 2)"
      and above: "\<And>k. 0 < k \<Longrightarrow> k < n \<Longrightarrow> (k - 1) div 2 = i \<Longrightarrow> 0 < i \<Longrightarrow> xs ! k \<le> xs ! ((i - 1) div 2)"
      using 1(2) by (auto simp: ok_but_down_def)
    have largest: "xs ! k \<le> xs ! j" if "0 < k" "k < n" "(k - 1) div 2 = i" for k
      using children [OF that(3,1)] that(2) by (auto simp: j_def not_less)
    show ?thesis
    proof (cases "xs ! j > xs ! i")
      case False
      have "xs ! k \<le> xs ! ((k - 1) div 2)" if "0 < k" "k < n" for k
        using order [OF that] largest [OF that] False by (cases "(k - 1) div 2 = i") auto
      moreover have "heap_down i n xs = xs"
        using True False unfolding j_def by (auto simp: heap_down.simps [of i n xs] Let_def split: if_split_asm)
      ultimately show ?thesis
        using len by (simp add: heap_ok_def)
    next
      case False2: True
      let ?ys = "swap_at i j xs"
      note nth = nth_swap_at [of i xs j]
      have "ok_but_down j n ?ys"
        unfolding ok_but_down_def
      proof (intro conjI allI impI)
        fix k
        assume k: "0 < k" "k < n" "(k - 1) div 2 \<noteq> j"
        have parent: "(k - 1) div 2 < n"
          using k by simp
        show "?ys ! k \<le> ?ys ! ((k - 1) div 2)"
        proof (cases "k = j \<or> k = i")
          case True
          with k len False2 above [OF len(6,2,5)] show ?thesis
            by (auto simp: nth)
        next
          case False
          with k len parent order [OF k(1,2)] largest [OF k(1,2)] show ?thesis
            by (auto simp: nth)
        qed
      next
        fix k
        assume k: "0 < k" "k < n" "(k - 1) div 2 = j" "0 < j"
        then have "k \<noteq> i" "k \<noteq> j"
          using len by auto
        with k len order [OF k(1,2)] show "?ys ! k \<le> ?ys ! ((j - 1) div 2)"
          by (simp add: nth)
      qed (use len in simp)
      from 1(1) [OF refl _ j_def _ this] True False2
      have "heap_ok n (heap_down j n ?ys) \<and> mset (heap_down j n ?ys) = mset ?ys \<and> drop n (heap_down j n ?ys) = drop n ?ys"
        by simp
      moreover have "heap_down i n xs = heap_down j n ?ys"
        using True False2 unfolding j_def by (auto simp: heap_down.simps [of i n xs] Let_def split: if_split_asm)
      moreover have "drop n ?ys = drop n xs"
        using len by (simp add: swap_at_def)
      ultimately show ?thesis
        using len by simp
    qed
  qed
qed

lemma heap_root_max: "heap_ok n xs \<Longrightarrow> i < n \<Longrightarrow> xs ! i \<le> xs ! 0"
proof (induction i rule: less_induct)
  case (less i)
  show ?case
  proof (cases "i = 0")
    case False
    then have "(i - 1) div 2 < i"
      by simp
    with less False show ?thesis
      by (meson heap_ok_def less_trans order_trans neq0_conv)
  qed simp
qed

subsection \<open>The operations\<close>

lemma heap_Push_ok:
  assumes "heap_ok (length h) h"
  shows "heap_ok (length (heap_Push x h)) (heap_Push x h)" and "mset (heap_Push x h) = add_mset x (mset h)"
proof -
  have "ok_but_up (length h) (Suc (length h)) (h @ [x])"
    unfolding ok_but_up_def
  proof (intro conjI allI impI)
    fix i
    assume i: "0 < i" "i < Suc (length h)" "i \<noteq> length h"
    then have "(i - 1) div 2 < length h"
      by simp
    with i assms show "(h @ [x]) ! i \<le> (h @ [x]) ! ((i - 1) div 2)"
      by (simp add: heap_ok_def nth_append)
  next
    fix i
    assume "0 < i" "i < Suc (length h)" "(i - 1) div 2 = length h"
    then show "(h @ [x]) ! i \<le> (h @ [x]) ! ((length h - 1) div 2)"
      by auto
  qed simp_all
  from heap_up_ok [OF this] have up: "heap_ok (Suc (length h)) (heap_Push x h)" "mset (heap_Push x h) = mset (h @ [x])"
    by (simp_all add: heap_Push_def)
  show mset: "mset (heap_Push x h) = add_mset x (mset h)"
    using up(2) by simp
  then have "length (heap_Push x h) = Suc (length h)"
    by (metis size_add_mset size_mset)
  with up(1) show "heap_ok (length (heap_Push x h)) (heap_Push x h)"
    by simp
qed

lemma heap_head_max:
  assumes "heap_ok (length h) h" and "h \<noteq> []"
  shows "h ! 0 = Max (set h)"
proof (rule sym, rule Max_eqI)
  show "y \<le> h ! 0" if "y \<in> set h" for y
    using that heap_root_max [OF assms(1)] by (auto simp: in_set_conv_nth)
qed (use assms(2) in simp_all)

lemma heap_Pop_ok:
  assumes "heap_ok (length h) h" and "h \<noteq> []"
  shows "fst (heap_Pop h) = h ! 0" and "mset (snd (heap_Pop h)) = mset h - {# h ! 0 #}"
    and "heap_ok (length (snd (heap_Pop h))) (snd (heap_Pop h))"
proof -
  define n where "n = length h - 1"
  have n: "n < length h" "length h = Suc n" "0 < length h"
    using assms(2) by (auto simp: n_def)
  let ?ys = "swap_at 0 n h"
  have "ok_but_down 0 n ?ys"
    unfolding ok_but_down_def
  proof (intro conjI allI impI)
    fix i
    assume i: "0 < i" "i < n" "(i - 1) div 2 \<noteq> 0"
    then have "(i - 1) div 2 < n"
      by simp
    with i n assms(1) show "?ys ! i \<le> ?ys ! ((i - 1) div 2)"
      by (simp add: nth_swap_at heap_ok_def)
  qed (use n in simp_all)
  from heap_down_ok [OF this] have down: "heap_ok n (heap_down 0 n ?ys)" "mset (heap_down 0 n ?ys) = mset h"
    "drop n (heap_down 0 n ?ys) = drop n ?ys"
    using n by simp_all
  have last: "drop n ?ys = [h ! 0]"
    by (rule nth_equalityI) (use n in \<open>auto simp: nth_swap_at\<close>)
  have len: "length (heap_down 0 n ?ys) = Suc n"
    using down(2) n(2) by (metis size_mset)
  have split: "heap_down 0 n ?ys = take n (heap_down 0 n ?ys) @ [h ! 0]"
    using down(3) last by (metis append_take_drop_id)
  have pop: "heap_Pop h = (heap_down 0 n ?ys ! n, take n (heap_down 0 n ?ys))"
    by (simp add: heap_Pop_def Let_def n_def)
  show "fst (heap_Pop h) = h ! 0"
    unfolding pop fst_conv by (subst split) (simp add: nth_append len)
  have "mset h = mset (take n (heap_down 0 n ?ys)) + {# h ! 0 #}"
    using down(2) by (subst (asm) split) simp
  then show "mset (snd (heap_Pop h)) = mset h - {# h ! 0 #}"
    by (simp add: pop)
  show "heap_ok (length (snd (heap_Pop h))) (snd (heap_Pop h))"
    using down(1) len by (auto simp: pop heap_ok_def)
qed

interpretation digest_heap: max_queue heap_Push heap_Pop "\<lambda>h. h ! 0" mset "\<lambda>h. heap_ok (length h) h"
  by unfold_locales (auto simp: heap_Push_ok heap_Pop_ok heap_head_max)

end
