(* ===== verification/Store_Pages.thy ===== *)
theory Store_Pages
  imports Aggregates Go_Heap
begin

text \<open>
  Pages of the collector's lists: \<open>collector/pagination.go\<close>, \<open>scoped_page.go\<close>, \<open>scoped_view.go\<close> and
  the list operations of \<open>store.go\<close>. An item is identified by the SHA-256 digest of its identity;
  pages are in the order of digests, and a continuation token is the last digest, bound to the scope
  of the request. SHA-256 and the JSON encoder (the bytes of a value with its final newline) are parameters.

  A digest is the string of its 32 bytes, so the order of strings is \<open>bytes.Compare\<close>.
\<close>

record page_lib =
  pl_sum256 :: "string \<Rightarrow> string"
  pl_encode :: "container_snapshot \<Rightarrow> string option"

record page_query =
  pq_limit :: string
  pq_continue :: string

datatype page_error = LimitInvalid | TokenInvalid | ReadPageTooLarge

subsection \<open>Numbers, hexadecimal and splitting\<close>

definition is_digit :: "char \<Rightarrow> bool" where
  "is_digit c \<longleftrightarrow> 48 \<le> (of_char c :: nat) \<and> (of_char c :: nat) \<le> 57"

definition digits_value :: "string \<Rightarrow> nat" where
  "digits_value s = foldl (\<lambda>n c. n * 10 + (of_char c - 48)) 0 s"

text \<open>\<open>strconv.Atoi\<close>: an optional sign and decimal digits, in the range of \<open>int64\<close>.\<close>

definition atoi :: "string \<Rightarrow> int option" where
  "atoi s =
    (let neg = (s \<noteq> '''' \<and> hd s = CHR ''-'');
         ds = (if s \<noteq> '''' \<and> (hd s = CHR ''-'' \<or> hd s = CHR ''+'') then tl s else s);
         v = (if neg then - int (digits_value ds) else int (digits_value ds))
     in if ds = '''' \<or> \<not> list_all is_digit ds \<or> v < min_int64 \<or> v > max_int64 then None else Some v)"

definition hex_encode :: "string \<Rightarrow> string" where
  "hex_encode s = concat (map (\<lambda>c. let b = (of_char c :: nat) in [hex_digit (b div 16), hex_digit (b mod 16)]) s)"

definition hex_value :: "char \<Rightarrow> nat option" where
  "hex_value c =
    (let b = (of_char c :: nat)
     in if 48 \<le> b \<and> b \<le> 57 then Some (b - 48)
        else if 97 \<le> b \<and> b \<le> 102 then Some (b - 87)
        else if 65 \<le> b \<and> b \<le> 70 then Some (b - 55) else None)"

fun hex_decode :: "string \<Rightarrow> string option" where
  "hex_decode [] = Some []"
| "hex_decode [c] = None"
| "hex_decode (c # d # s) =
    (case hex_value c of None \<Rightarrow> None | Some h \<Rightarrow>
     case hex_value d of None \<Rightarrow> None | Some l \<Rightarrow>
     case hex_decode s of None \<Rightarrow> None | Some t \<Rightarrow> Some (char_of (16 * h + l) # t))"

text \<open>\<open>strings.Split\<close> at one character.\<close>

fun split_at :: "char \<Rightarrow> string \<Rightarrow> string list" where
  "split_at sep [] = [[]]"
| "split_at sep (c # s) =
    (if c = sep then [] # split_at sep s else case split_at sep s of [] \<Rightarrow> [[c]] | p # ps \<Rightarrow> (c # p) # ps)"

text \<open>\<open>sort.Search\<close>: the loop that narrows \<open>[i, j)\<close>.\<close>

function sort_search :: "(nat \<Rightarrow> bool) \<Rightarrow> nat \<Rightarrow> nat \<Rightarrow> nat" where
  "sort_search f i j =
    (if i < j then (let h = (i + j) div 2 in if \<not> f h then sort_search f (h + 1) j else sort_search f i h) else i)"
  by pat_completeness auto
termination
  by (relation "measure (\<lambda>(f, i, j). j - i)") auto

declare sort_search.simps [simp del]

subsection \<open>Tokens and limits\<close>

definition maxContainerPageSize :: int where
  "maxContainerPageSize = 500"

definition defaultContainerPageSize :: int where
  "defaultContainerPageSize = 500"

definition scopedContinueTokenBytes :: nat where
  "scopedContinueTokenBytes = 84"

definition pageLimit :: "page_query \<Rightarrow> page_error + nat" where
  "pageLimit q =
    (if pq_limit q = '''' then Inr (nat defaultContainerPageSize)
     else case atoi (pq_limit q) of
         None \<Rightarrow> Inl LimitInvalid
       | Some limit \<Rightarrow> if limit < 1 \<or> limit > maxContainerPageSize then Inl LimitInvalid else Inr (nat limit))"

definition scope_tag :: "page_lib \<Rightarrow> string \<Rightarrow> string" where
  "scope_tag L scope = hex_encode (take 8 (pl_sum256 L scope))"

definition encodeScopedContainerCursor :: "page_lib \<Rightarrow> string \<Rightarrow> string \<Rightarrow> string" where
  "encodeScopedContainerCursor L scope key = ''v2.'' @ scope_tag L scope @ ''.'' @ key"

definition decodeScopedContainerCursor :: "page_lib \<Rightarrow> string \<Rightarrow> string \<Rightarrow> page_error + string" where
  "decodeScopedContainerCursor L token scope =
    (if token = '''' then Inr ''''
     else if length token \<noteq> scopedContinueTokenBytes \<or> take 3 token \<noteq> ''v2.'' then Inl TokenInvalid
     else case split_at (CHR ''.'') token of
         [a, b, c] \<Rightarrow>
           if b = '''' \<or> c = '''' then Inl TokenInvalid
           else if b \<noteq> scope_tag L scope then Inl TokenInvalid
           else if hex_decode c = None \<or> length c \<noteq> 64 then Inl TokenInvalid
           else Inr c
       | _ \<Rightarrow> Inl TokenInvalid)"

subsection \<open>Pages of keys\<close>

record page_selection =
  sel_Indexes :: "nat list"
  sel_Continue :: string

text \<open>The pairs of digest and index, in the order of the digests.\<close>

definition keyed_indexes :: "page_lib \<Rightarrow> string list \<Rightarrow> (string \<times> nat) list" where
  "keyed_indexes L keys = sort_slice (\<lambda>a b. fst a < fst b)
     (map (\<lambda>(index, identity). (hex_encode (pl_sum256 L identity), index)) (enumerate 0 keys))"

definition PaginateKeys :: "page_lib \<Rightarrow> string list \<Rightarrow> page_query \<Rightarrow> string \<Rightarrow> page_error + page_selection" where
  "PaginateKeys L keys q scope =
    (case pageLimit q of Inl e \<Rightarrow> Inl e | Inr limit \<Rightarrow>
     case decodeScopedContainerCursor L (pq_continue q) scope of Inl e \<Rightarrow> Inl e | Inr after \<Rightarrow>
      let keyed = keyed_indexes L keys;
          first = sort_search (\<lambda>index. fst (keyed ! index) > after) 0 (length keyed);
          last = min (first + limit) (length keyed)
      in Inr \<lparr>sel_Indexes = map snd (take (last - first) (drop first keyed)),
           sel_Continue = (if last < length keyed \<and> last > first
             then encodeScopedContainerCursor L scope (fst (keyed ! (last - 1))) else '''')\<rparr>)"

record container_page =
  cp_Items :: "container_snapshot list"
  cp_Continue :: string

definition container_identity :: "container_snapshot \<Rightarrow> string" where
  "container_identity c = join_nul [cs_Namespace c, cs_PodUID c, cs_PodName c, cs_ContainerName c, cs_ContainerID c, cs_NodeName c]"

definition PaginateContainers ::
    "page_lib \<Rightarrow> container_snapshot list \<Rightarrow> page_query \<Rightarrow> string \<Rightarrow> page_error + container_page" where
  "PaginateContainers L items q scope =
    (case PaginateKeys L (map container_identity items) q scope of
       Inl e \<Rightarrow> Inl e
     | Inr sel \<Rightarrow> Inr \<lparr>cp_Items = map (\<lambda>i. items ! i) (sel_Indexes sel), cp_Continue = sel_Continue sel\<rparr>)"

subsection \<open>The bounded selection of digests\<close>

record digest_selection =
  ds_after :: string
  ds_limit :: nat
  ds_selected :: "string list"
  ds_seen :: "(string, unit) gomap"

text \<open>\<open>[sha256.Size]byte{}\<close>, the zero value of a digest.\<close>

definition zero_digest :: string where
  "zero_digest = replicate 32 (CHR 0x00)"

definition newDigestSelection :: "page_lib \<Rightarrow> page_query \<Rightarrow> string \<Rightarrow> page_error + digest_selection" where
  "newDigestSelection L q scope =
    (case pageLimit q of Inl e \<Rightarrow> Inl e | Inr limit \<Rightarrow>
     case decodeScopedContainerCursor L (pq_continue q) scope of Inl e \<Rightarrow> Inl e | Inr after \<Rightarrow>
      Inr \<lparr>ds_after = (if after = '''' then zero_digest else case hex_decode after of None \<Rightarrow> zero_digest | Some d \<Rightarrow> d),
        ds_limit = limit, ds_selected = [], ds_seen = []\<rparr>)"

definition selection_add :: "string \<Rightarrow> digest_selection \<Rightarrow> digest_selection" where
  "selection_add key s =
    (if key \<le> ds_after s then s
     else if mget (ds_seen s) key \<noteq> None then s
     else if length (ds_selected s) < ds_limit s + 1 then
       s\<lparr>ds_selected := heap_Push key (ds_selected s), ds_seen := mput key () (ds_seen s)\<rparr>
     else if key \<ge> ds_selected s ! 0 then s
     else let (largest, rest) = heap_Pop (ds_selected s)
       in s\<lparr>ds_selected := heap_Push key rest, ds_seen := mput key () (mdel largest (ds_seen s))\<rparr>)"

definition selection_page :: "page_lib \<Rightarrow> string \<Rightarrow> digest_selection \<Rightarrow> string list \<times> string" where
  "selection_page L scope s =
    (let keys = sort (ds_selected s); hasMore = length keys > ds_limit s;
         shown = (if hasMore then take (ds_limit s) keys else keys)
     in (shown, if hasMore \<and> shown \<noteq> [] then encodeScopedContainerCursor L scope (hex_encode (last shown)) else ''''))"

subsection \<open>Identities\<close>

definition container_digest :: "page_lib \<Rightarrow> container_snapshot \<Rightarrow> string" where
  "container_digest L c = pl_sum256 L (container_identity c)"

definition pod_digest :: "page_lib \<Rightarrow> container_snapshot \<Rightarrow> string option" where
  "pod_digest L c = (if cs_Namespace c = '''' \<or> cs_PodName c = '''' then None else Some (pl_sum256 L (pod_key_of c)))"

definition workload_digest :: "page_lib \<Rightarrow> container_snapshot \<Rightarrow> string option" where
  "workload_digest L c =
    (if cs_Namespace c = '''' \<or> cs_PodName c = '''' then None
     else
       let ctx = cs_Context c;
           (kind, name) = (if cc_WorkloadKind ctx = '''' \<or> cc_WorkloadName ctx = ''''
             then (cc_OwnerKind ctx, cc_OwnerName ctx) else (cc_WorkloadKind ctx, cc_WorkloadName ctx));
           (kind1, name1) = (if kind = '''' \<or> name = '''' then (''Pod'', cs_PodName c) else (kind, name))
       in Some (pl_sum256 L (join_nul [cs_Namespace c, kind1, name1])))"

subsection \<open>Budgets\<close>

definition budget_add :: "page_lib \<Rightarrow> container_snapshot \<Rightarrow> int \<Rightarrow> int option" where
  "budget_add L c remaining =
    (if remaining \<le> 0 then None
     else case pl_encode L c of None \<Rightarrow> None
       | Some body \<Rightarrow> if int (length body) > remaining then None else Some (remaining - int (length body)))"

text \<open>The containers a test selects, in order, until the budget is exceeded.\<close>

fun within_budget ::
    "page_lib \<Rightarrow> (container_snapshot \<Rightarrow> bool) \<Rightarrow> int \<Rightarrow> container_snapshot list \<Rightarrow> container_snapshot list option" where
  "within_budget L wanted remaining [] = Some []"
| "within_budget L wanted remaining (c # cs) =
    (if \<not> wanted c then within_budget L wanted remaining cs
     else case budget_add L c remaining of None \<Rightarrow> None
       | Some left \<Rightarrow> map_option (Cons c) (within_budget L wanted left cs))"

definition containersForSelection ::
    "page_lib \<Rightarrow> container_snapshot list list \<Rightarrow> string \<Rightarrow> string list \<Rightarrow> (container_snapshot \<Rightarrow> string option) \<Rightarrow> int \<Rightarrow>
      page_error + container_snapshot list" where
  "containersForSelection L shards scope keys digester maxNestedBytes =
    (case within_budget L (\<lambda>c. case digester c of None \<Rightarrow> False | Some k \<Rightarrow> k \<in> set keys) maxNestedBytes
        (visitScopedShards shards scope) of
       None \<Rightarrow> Inl ReadPageTooLarge | Some cs \<Rightarrow> Inr cs)"

subsection \<open>The pages of the store\<close>

definition select_digests :: "(container_snapshot \<Rightarrow> string option) \<Rightarrow> container_snapshot list \<Rightarrow> digest_selection \<Rightarrow> digest_selection" where
  "select_digests digester cs s = fold (\<lambda>c s. case digester c of None \<Rightarrow> s | Some k \<Rightarrow> selection_add k s) cs s"

text \<open>\<open>items[index] = container\<close> for every visited container whose digest is selected.\<close>

definition fill_items :: "(container_snapshot \<Rightarrow> string) \<Rightarrow> string list \<Rightarrow> container_snapshot list \<Rightarrow> container_snapshot list" where
  "fill_items digester keys cs =
    (let selected = fold (\<lambda>(i, k) m. mput k i m) (enumerate 0 keys) []
     in fold (\<lambda>c items. case mget selected (digester c) of None \<Rightarrow> items | Some i \<Rightarrow> items[i := c]) cs
          (replicate (length keys) container_zero))"

definition PageContainersScoped ::
    "page_lib \<Rightarrow> store \<Rightarrow> string \<Rightarrow> time \<Rightarrow> duration \<Rightarrow> page_query \<Rightarrow> string \<Rightarrow> page_error + container_page" where
  "PageContainersScoped L s scope now ttl q tokenScope =
    (case newDigestSelection L q tokenScope of Inl e \<Rightarrow> Inl e | Inr sel \<Rightarrow>
      let visited = visitScopedShards (readShards s now ttl) scope;
          (keys, continuation) = selection_page L tokenScope (select_digests (\<lambda>c. Some (container_digest L c)) visited sel)
      in Inr \<lparr>cp_Items = fill_items (container_digest L) keys visited, cp_Continue = continuation\<rparr>)"

definition pod_snapshot_digest :: "page_lib \<Rightarrow> pod_snapshot \<Rightarrow> string" where
  "pod_snapshot_digest L pod = pl_sum256 L (join_nul [ps_Namespace pod, ps_PodUID pod, ps_PodName pod, ps_NodeName pod])"

definition orderPodsByDigest :: "page_lib \<Rightarrow> pod_snapshot list \<Rightarrow> string list \<Rightarrow> pod_snapshot list" where
  "orderPodsByDigest L items keys =
    (let byKey = fold (\<lambda>pod m. mput (pod_snapshot_digest L pod) pod m) items []
     in List.map_filter (mget byKey) keys)"

definition PagePodsScoped ::
    "page_lib \<Rightarrow> store \<Rightarrow> string \<Rightarrow> time \<Rightarrow> duration \<Rightarrow> page_query \<Rightarrow> string \<Rightarrow> int \<Rightarrow> page_error + (pod_snapshot list \<times> string)" where
  "PagePodsScoped L s scope now ttl q tokenScope maxNestedBytes =
    (case newDigestSelection L q tokenScope of Inl e \<Rightarrow> Inl e | Inr sel \<Rightarrow>
      let shards = readShards s now ttl;
          (keys, continuation) = selection_page L tokenScope (select_digests (pod_digest L) (visitScopedShards shards scope) sel)
      in case containersForSelection L shards scope keys (pod_digest L) maxNestedBytes of
           Inl e \<Rightarrow> Inl e
         | Inr cs \<Rightarrow> Inr (orderPodsByDigest L (Pods cs) keys, continuation))"

definition PagePodSummariesScoped ::
    "page_lib \<Rightarrow> store \<Rightarrow> string \<Rightarrow> time \<Rightarrow> duration \<Rightarrow> page_query \<Rightarrow> string \<Rightarrow> page_error + (pod_snapshot list \<times> string)" where
  "PagePodSummariesScoped L s scope now ttl q tokenScope =
    (case newDigestSelection L q tokenScope of Inl e \<Rightarrow> Inl e | Inr sel \<Rightarrow>
      let visited = visitScopedShards (readShards s now ttl) scope;
          (keys, continuation) = selection_page L tokenScope (select_digests (pod_digest L) visited sel);
          wanted = filter (\<lambda>c. case pod_digest L c of None \<Rightarrow> False | Some k \<Rightarrow> k \<in> set keys) visited
      in Inr (orderPodsByDigest L (PodSummarySnapshots (fold PodSummaryAdd wanted NewPodSummaryAccumulator)) keys, continuation))"

definition orderWorkloadsByDigest :: "page_lib \<Rightarrow> workload_snapshot list \<Rightarrow> string list \<Rightarrow> workload_snapshot list" where
  "orderWorkloadsByDigest L items keys =
    (let byKey = fold (\<lambda>w m. mput (pl_sum256 L (join_nul [wl_Namespace w, wl_Kind w, wl_Name w])) w m) items []
     in List.map_filter (mget byKey) keys)"

definition PageWorkloadsScoped ::
    "page_lib \<Rightarrow> store \<Rightarrow> string \<Rightarrow> time \<Rightarrow> duration \<Rightarrow> page_query \<Rightarrow> string \<Rightarrow> int \<Rightarrow>
      page_error + (workload_snapshot list \<times> string)" where
  "PageWorkloadsScoped L s scope now ttl q tokenScope maxNestedBytes =
    (case newDigestSelection L q tokenScope of Inl e \<Rightarrow> Inl e | Inr sel \<Rightarrow>
      let shards = readShards s now ttl;
          (keys, continuation) = selection_page L tokenScope (select_digests (workload_digest L) (visitScopedShards shards scope) sel)
      in case containersForSelection L shards scope keys (workload_digest L) maxNestedBytes of
           Inl e \<Rightarrow> Inl e
         | Inr cs \<Rightarrow> Inr (orderWorkloadsByDigest L (Workloads (Pods cs)) keys, continuation))"

subsection \<open>One Pod\<close>

text \<open>The latest of several Pods of one name; equal times are told apart by the UID.\<close>

fun latest_pod :: "pod_snapshot \<Rightarrow> pod_snapshot list \<Rightarrow> pod_snapshot" where
  "latest_pod latest [] = latest"
| "latest_pod latest (pod # pods) =
    latest_pod (if ps_CapturedAt pod > ps_CapturedAt latest \<or>
        ps_CapturedAt pod = ps_CapturedAt latest \<and> ps_PodUID pod < ps_PodUID latest then pod else latest) pods"

definition first_latest :: "pod_snapshot list \<Rightarrow> pod_snapshot option" where
  "first_latest pods = (case pods of [] \<Rightarrow> None | pod # rest \<Rightarrow> Some (latest_pod pod rest))"

definition GetPodBounded ::
    "page_lib \<Rightarrow> store \<Rightarrow> string \<Rightarrow> string \<Rightarrow> time \<Rightarrow> duration \<Rightarrow> int \<Rightarrow> page_error + pod_snapshot option" where
  "GetPodBounded L s namespace name now ttl maxNestedBytes =
    (case within_budget L (\<lambda>c. cs_PodName c = name) maxNestedBytes (visitScopedShards (readShards s now ttl) namespace) of
       None \<Rightarrow> Inl ReadPageTooLarge
     | Some cs \<Rightarrow> Inr (first_latest (Pods cs)))"

definition GetPod :: "store \<Rightarrow> string \<Rightarrow> string \<Rightarrow> time \<Rightarrow> duration \<Rightarrow> pod_snapshot option" where
  "GetPod s namespace name now ttl =
    first_latest (Pods (filter (\<lambda>c. cs_PodName c = name) (ListContainersScoped s namespace now ttl)))"

subsection \<open>The unpaged lists\<close>

definition ListPods :: "store \<Rightarrow> time \<Rightarrow> duration \<Rightarrow> pod_snapshot list" where
  "ListPods s now ttl = Pods (ListContainers s now ttl)"

definition ListNamespaces :: "store \<Rightarrow> time \<Rightarrow> duration \<Rightarrow> namespace_snapshot list" where
  "ListNamespaces s now ttl = Namespaces (ListPods s now ttl)"

definition ListWorkloads :: "store \<Rightarrow> time \<Rightarrow> duration \<Rightarrow> workload_snapshot list" where
  "ListWorkloads s now ttl = Workloads (ListPods s now ttl)"

definition ListPodsScoped :: "store \<Rightarrow> string \<Rightarrow> time \<Rightarrow> duration \<Rightarrow> pod_snapshot list" where
  "ListPodsScoped s scope now ttl = Pods (ListContainersScoped s scope now ttl)"

definition ListNamespacesScoped :: "store \<Rightarrow> string \<Rightarrow> time \<Rightarrow> duration \<Rightarrow> namespace_snapshot list" where
  "ListNamespacesScoped s scope now ttl = Namespaces (ListPodsScoped s scope now ttl)"

definition ListWorkloadsScoped :: "store \<Rightarrow> string \<Rightarrow> time \<Rightarrow> duration \<Rightarrow> workload_snapshot list" where
  "ListWorkloadsScoped s scope now ttl = Workloads (ListPodsScoped s scope now ttl)"

end
