(* ===== verification/Page_Properties.thy ===== *)
theory Page_Properties
  imports Store_Pages
begin

text \<open>
  The properties of pages: a token round trips in its own scope and is refused in another; the
  bounded heap selects exactly the smallest digests after the cursor; and a client that follows the
  tokens sees every item once.
\<close>

subsection \<open>Hexadecimal and splitting\<close>

lemma hex_value_digit: "d < 16 \<Longrightarrow> hex_value (hex_digit d) = Some d"
  by (auto simp: hex_value_def hex_digit_def)

lemma high_nibble: "(of_char c :: nat) div 16 < 16"
  by (rule less_mult_imp_div_less) simp

lemma hex_decode_encode: "hex_decode (hex_encode s) = Some s"
proof (induction s)
  case (Cons c s)
  then show ?case
    using high_nibble [of c] by (simp add: hex_encode_def Let_def hex_value_digit)
qed (simp add: hex_encode_def)

lemma length_hex_encode [simp]: "length (hex_encode s) = 2 * length s"
  by (induction s) (simp_all add: hex_encode_def Let_def)

lemma hex_digit_not_dot: "d < 16 \<Longrightarrow> hex_digit d \<noteq> CHR ''.''"
proof -
  assume "d < 16"
  then have "hex_value (hex_digit d) \<noteq> None"
    by (simp add: hex_value_digit)
  then show ?thesis
    by (auto simp: hex_value_def)
qed

lemma hex_encode_no_dot: "CHR ''.'' \<notin> set (hex_encode s)"
proof (induction s)
  case (Cons c s)
  have "hex_digit (of_char c div 16) \<noteq> CHR ''.''" "hex_digit (of_char c mod 16) \<noteq> CHR ''.''"
    using high_nibble [of c] by (auto intro!: hex_digit_not_dot)
  with Cons show ?case
    by (auto simp: hex_encode_def Let_def)
qed (simp add: hex_encode_def)

lemma split_at_no: "sep \<notin> set s \<Longrightarrow> split_at sep s = [s]"
  by (induction s) auto

lemma split_at_sep: "sep \<notin> set s \<Longrightarrow> split_at sep (s @ sep # t) = s # split_at sep t"
  by (induction s) auto

lemma hex_encode_eq_iff: "hex_encode s = hex_encode t \<longleftrightarrow> s = t"
  by (metis hex_decode_encode option.inject)

subsection \<open>Tokens\<close>

definition digests :: "page_lib \<Rightarrow> bool" where
  "digests L \<longleftrightarrow> (\<forall>s. length (pl_sum256 L s) = 32)"

lemma cursor_parts:
  assumes "digests L" and "length key = 32"
  shows "length (encodeScopedContainerCursor L scope (hex_encode key)) = 84"
    and "split_at (CHR ''.'') (encodeScopedContainerCursor L scope (hex_encode key)) = [''v2'', scope_tag L scope, hex_encode key]"
    and "scope_tag L scope \<noteq> '''' \<and> hex_encode key \<noteq> ''''"
proof -
  have tag: "length (scope_tag L scope) = 16"
    using assms(1) by (simp add: scope_tag_def digests_def)
  then show "length (encodeScopedContainerCursor L scope (hex_encode key)) = 84"
    using assms(2) by (simp add: encodeScopedContainerCursor_def)
  have "length (hex_encode key) = 64"
    using assms(2) by simp
  with tag show "scope_tag L scope \<noteq> '''' \<and> hex_encode key \<noteq> ''''"
    by (metis list.size(3) zero_neq_numeral)
  have "encodeScopedContainerCursor L scope (hex_encode key) = ''v2'' @ CHR ''.'' # scope_tag L scope @ CHR ''.'' # hex_encode key"
    by (simp add: encodeScopedContainerCursor_def)
  then show "split_at (CHR ''.'') (encodeScopedContainerCursor L scope (hex_encode key)) = [''v2'', scope_tag L scope, hex_encode key]"
    by (simp only: split_at_sep split_at_no hex_encode_no_dot scope_tag_def list.set) (simp add: split_at_sep split_at_no hex_encode_no_dot)
qed

text \<open>
  A continuation token gives back its digest in the scope it was issued for, and is refused in
  every scope whose digest has another 8-byte prefix, so a token of one namespace or view cannot be
  replayed against another.
\<close>

theorem token_roundtrip:
  assumes "\<forall>s. length (pl_sum256 L s) = 32" and "length key = 32"
  shows "decodeScopedContainerCursor L (encodeScopedContainerCursor L scope (hex_encode key)) scope = Inr (hex_encode key)
    \<and> (take 8 (pl_sum256 L other) \<noteq> take 8 (pl_sum256 L scope) \<longrightarrow>
        decodeScopedContainerCursor L (encodeScopedContainerCursor L scope (hex_encode key)) other = Inl TokenInvalid)"
proof -
  have "digests L"
    using assms(1) by (simp add: digests_def)
  note parts = cursor_parts [OF this assms(2), of scope]
  have "take 3 (encodeScopedContainerCursor L scope (hex_encode key)) = ''v2.''"
    "encodeScopedContainerCursor L scope (hex_encode key) \<noteq> ''''"
    by (simp_all add: encodeScopedContainerCursor_def numeral_eq_Suc)
  moreover have "length (hex_encode key) = 64"
    using assms(2) by simp
  ultimately show ?thesis
    using parts by (auto simp: decodeScopedContainerCursor_def scopedContinueTokenBytes_def hex_decode_encode
        hex_encode_eq_iff scope_tag_def simp del: length_hex_encode)
qed

text \<open>A stand-in for SHA-256 that pads or cuts its input to 32 bytes.\<close>

definition pad_lib :: page_lib where
  "pad_lib = \<lparr>pl_sum256 = (\<lambda>s. take 32 (s @ replicate 32 (CHR 0x00))), pl_encode = (\<lambda>_. Some ''{}'')\<rparr>"

lemma pad_lib_digests: "length (pl_sum256 pad_lib s) = 32"
  by (simp add: pad_lib_def)

theorem token_roundtrip_witness:
  "decodeScopedContainerCursor pad_lib (encodeScopedContainerCursor pad_lib ''a'' (hex_encode zero_digest)) ''b'' = Inl TokenInvalid"
proof -
  have "length zero_digest = 32"
    by (simp add: zero_digest_def)
  from token_roundtrip [of pad_lib zero_digest "''a''" "''b''", OF _ this] show ?thesis
    by (simp add: pad_lib_digests) (simp add: pad_lib_def)
qed

subsection \<open>The smallest digests\<close>

text \<open>\<open>T\<close> holds the \<open>m\<close> smallest elements of \<open>S\<close>, or all of them when there are fewer.\<close>

definition smallest :: "nat \<Rightarrow> 'a :: linorder set \<Rightarrow> 'a set \<Rightarrow> bool" where
  "smallest m S T \<longleftrightarrow> T \<subseteq> S \<and> card T = min m (card S) \<and> (\<forall>t \<in> T. \<forall>s \<in> S - T. t < s)"

lemma smallest_take:
  assumes "finite S"
  shows "smallest m S (set (take m (sorted_list_of_set S)))"
  unfolding smallest_def
proof (intro conjI ballI)
  let ?xs = "sorted_list_of_set S"
  show "set (take m ?xs) \<subseteq> S"
    using assms set_take_subset [of m ?xs] by simp
  show "card (set (take m ?xs)) = min m (card S)"
  proof -
    have "distinct (take m ?xs)"
      by (rule distinct_take) (rule distinct_sorted_list_of_set)
    from distinct_card [OF this] show ?thesis
      by (simp only: length_take length_sorted_list_of_set min.commute)
  qed
  show "t < s" if "t \<in> set (take m ?xs)" "s \<in> S - set (take m ?xs)" for t s
  proof -
    have "s \<in> set (drop m ?xs)"
      using that(2) assms set_append [of "take m ?xs" "drop m ?xs"] by auto
    moreover have "sorted_wrt (<) (take m ?xs @ drop m ?xs)"
      by (simp add: strict_sorted_list_of_set)
    ultimately show ?thesis
      using that(1) unfolding sorted_wrt_append by blast
  qed
qed

lemma smallest_unique:
  assumes "finite S" and "smallest m S T" and "smallest m S U"
  shows "T = U"
proof (rule ccontr)
  assume "T \<noteq> U"
  have fin: "finite T" "finite U" and card: "card T = card U"
    using assms finite_subset by (auto simp: smallest_def)
  have "\<not> T \<subseteq> U" "\<not> U \<subseteq> T"
    using card_subset_eq [OF fin(2), of T] card_subset_eq [OF fin(1), of U] card \<open>T \<noteq> U\<close> by auto
  then obtain t u where tu: "t \<in> T" "t \<notin> U" "u \<in> U" "u \<notin> T"
    by auto
  have "t \<in> S" "u \<in> S"
    using assms(2,3) tu unfolding smallest_def by auto
  with assms(2,3) tu have "t < u" "u < t"
    unfolding smallest_def by auto
  then show False
    by simp
qed

lemma smallest_insert:
  assumes "finite S" and "smallest (Suc m) S T" and "k \<notin> S"
  shows "card T < Suc m \<Longrightarrow> smallest (Suc m) (insert k S) (insert k T)"
    and "card T = Suc m \<Longrightarrow> Max T < k \<Longrightarrow> smallest (Suc m) (insert k S) T"
    and "card T = Suc m \<Longrightarrow> k < Max T \<Longrightarrow> smallest (Suc m) (insert k S) (insert k (T - {Max T}))"
proof -
  have fin: "finite T" and sub: "T \<subseteq> S" and k: "k \<notin> T"
    using assms finite_subset by (auto simp: smallest_def)
  show "smallest (Suc m) (insert k S) (insert k T)" if "card T < Suc m"
  proof -
    have "card T = card S"
      using that assms(2) by (auto simp: smallest_def)
    then have "T = S"
      by (rule card_subset_eq [OF assms(1) sub])
    then show ?thesis
      using that assms fin by (auto simp: smallest_def)
  qed
  show "smallest (Suc m) (insert k S) T" if "card T = Suc m" "Max T < k"
  proof -
    have "t < k" if "t \<in> T" for t
      using Max_ge [OF fin that] \<open>Max T < k\<close> by simp
    then show ?thesis
      using that assms fin by (auto simp: smallest_def)
  qed
  show "smallest (Suc m) (insert k S) (insert k (T - {Max T}))" if "card T = Suc m" "k < Max T"
  proof -
    have ne: "T \<noteq> {}"
      using that by auto
    have max: "Max T \<in> T"
      by (rule Max_in [OF fin ne])
    have below: "t < Max T" if "t \<in> T - {Max T}" for t
      using that Max_ge [OF fin, of t] by (simp add: less_le)
    have "t < s" if "t \<in> insert k (T - {Max T})" "s \<in> insert k S - insert k (T - {Max T})" for t s
    proof (cases "s = Max T")
      case True
      with that below \<open>k < Max T\<close> show ?thesis
        by auto
    next
      case False
      with that have "s \<in> S - T"
        by auto
      with assms(2) max have "Max T < s"
        by (simp add: smallest_def)
      with that(1) below \<open>k < Max T\<close> show ?thesis
        by (auto intro: less_trans)
    qed
    moreover have "card (insert k (T - {Max T})) = Suc m"
      using that fin max k by simp
    ultimately show ?thesis
      using that assms sub unfolding smallest_def by auto
  qed
qed

subsection \<open>The selection\<close>

definition selection_ok :: "nat \<Rightarrow> string \<Rightarrow> string set \<Rightarrow> digest_selection \<Rightarrow> bool" where
  "selection_ok limit after S s \<longleftrightarrow> finite S \<and> ds_limit s = limit \<and> ds_after s = after \<and>
     heap_ok (length (ds_selected s)) (ds_selected s) \<and>
     (\<exists>T. smallest (Suc limit) S T \<and> mset (ds_selected s) = mset_set T \<and> (\<forall>k. mget (ds_seen s) k = None \<longleftrightarrow> k \<notin> T))"

lemma smallest_full:
  assumes "finite S" and "smallest (Suc m) S T" and "k \<in> S" and "k \<notin> T"
  shows "card T = Suc m" and "Max T < k"
proof -
  have fin: "finite T" and sub: "T \<subseteq> S"
    using assms finite_subset by (auto simp: smallest_def)
  have "card T < card S"
    using assms sub by (intro psubset_card_mono) auto
  then show card: "card T = Suc m"
    using assms(2) by (auto simp: smallest_def)
  then have "Max T \<in> T"
    using fin by (intro Max_in) auto
  with assms show "Max T < k"
    by (auto simp: smallest_def)
qed

lemma selection_okI:
  assumes "finite S" and "ds_limit s = limit" and "ds_after s = after" and "heap_ok (length (ds_selected s)) (ds_selected s)"
    and "smallest (Suc limit) S T" and "mset (ds_selected s) = mset_set T" and "\<And>k. mget (ds_seen s) k = None \<longleftrightarrow> k \<notin> T"
  shows "selection_ok limit after S s"
  using assms unfolding selection_ok_def by blast

lemma selection_add_ok:
  assumes "selection_ok limit after S s"
  shows "selection_ok limit after (if after < key then insert key S else S) (selection_add key s)"
proof -
  obtain T where T: "smallest (Suc limit) S T" "mset (ds_selected s) = mset_set T"
    and seen: "\<And>k. mget (ds_seen s) k = None \<longleftrightarrow> k \<notin> T"
    using assms unfolding selection_ok_def by blast
  have fin: "finite S" "finite T"
    using assms T(1) finite_subset by (auto simp: selection_ok_def smallest_def)
  have heap: "heap_ok (length (ds_selected s)) (ds_selected s)"
    and fields: "ds_limit s = limit" "ds_after s = after"
    using assms by (simp_all add: selection_ok_def)
  have size: "length (ds_selected s) = card T"
    using T(2) by (metis size_mset size_mset_set)
  have "card T \<le> Suc limit"
    using T(1) by (auto simp: smallest_def)
  have set: "set_mset (mset (ds_selected s)) = T"
    using T(2) fin by simp
  have top: "ds_selected s ! 0 = Max T" if "T \<noteq> {}"
    using digest_heap.top_max [OF heap] that fin by (simp add: T(2) mset_set_empty_iff)
  show ?thesis
  proof (cases "after < key \<and> key \<notin> T")
    case False
    have "S = (if after < key then insert key S else S)"
      using False T(1) by (auto simp: smallest_def)
    moreover have "selection_add key s = s"
    proof (cases "after < key")
      case True
      with False have "mget (ds_seen s) key \<noteq> None"
        by (simp only: seen) simp
      then show ?thesis
        by (simp add: selection_add_def del: not_None_eq)
    qed (simp add: selection_add_def fields)
    ultimately show ?thesis
      using assms by simp
  next
    case True
    then have unseen: "\<not> key \<le> ds_after s" "mget (ds_seen s) key = None"
      by (simp_all add: fields seen not_le)
    show ?thesis
    proof (cases "card T < Suc limit")
      case less: True
      then have "key \<notin> S"
        using smallest_full(1) [OF fin(1) T(1)] True by auto
      note insert = smallest_insert(1) [OF fin(1) T(1) this less]
      have "selection_add key s = s\<lparr>ds_selected := heap_Push key (ds_selected s), ds_seen := mput key () (ds_seen s)\<rparr>"
        using unseen less by (simp add: selection_add_def size fields)
      with insert T(2) True heap fin fields seen show ?thesis
        by (intro selection_okI [where T = "insert key T"]) (simp_all add: heap_Push_ok mget_mput)
    next
      case full: False
      with \<open>card T \<le> Suc limit\<close> have card: "card T = Suc limit"
        by simp
      then have ne: "T \<noteq> {}"
        by auto
      then have max: "Max T \<in> T"
        using fin by simp
      show ?thesis
      proof (cases "key < Max T")
        case False
        then have unchanged: "selection_add key s = s"
          using unseen card by (simp add: selection_add_def size fields top [OF ne])
        have "Max T < key"
          using False True max by (metis linorder_cases)
        then have "smallest (Suc limit) (insert key S) T"
          using smallest_insert(2) [OF fin(1) T(1) _ card] T(1) by (cases "key \<in> S") (simp_all add: insert_absorb)
        with T(2) True heap fin fields seen show ?thesis
          by (intro selection_okI [where T = T]) (simp_all add: unchanged)
      next
        case below: True
        then have "key \<notin> S"
          using smallest_full(2) [OF fin(1) T(1)] True by (metis less_asym)
        note insert = smallest_insert(3) [OF fin(1) T(1) this card below]
        obtain largest rest where pop: "heap_Pop (ds_selected s) = (largest, rest)"
          by (cases "heap_Pop (ds_selected s)")
        have nonempty: "ds_selected s \<noteq> []"
          using size card by auto
        note popped = heap_Pop_ok [OF heap nonempty, unfolded pop fst_conv snd_conv]
        have largest: "largest = Max T"
          using popped(1) top [OF ne] by simp
        have add: "selection_add key s = s\<lparr>ds_selected := heap_Push key rest, ds_seen := mput key () (mdel largest (ds_seen s))\<rparr>"
          using unseen card below by (simp add: selection_add_def size fields top [OF ne] pop)
        have "mset rest = mset_set (T - {Max T})"
          using popped(2) fin max by (simp add: T(2) top [OF ne] mset_set_Diff)
        then have "mset (heap_Push key rest) = mset_set (insert key (T - {Max T}))"
          using popped(3) fin True by (simp add: heap_Push_ok)
        with insert True popped(3) fin fields below max seen show ?thesis
          by (intro selection_okI [where T = "insert key (T - {Max T})"]) (auto simp: add largest heap_Push_ok mget_mput mget_mdel)
      qed
    qed
  qed
qed

lemma selection_fold:
  assumes "selection_ok limit after S s"
  shows "selection_ok limit after (S \<union> {k \<in> set ks. after < k}) (fold selection_add ks s)"
  using assms
proof (induction ks arbitrary: S s)
  case (Cons k ks)
  have "(if after < k then insert k S else S) \<union> {j \<in> set ks. after < j} = S \<union> {j \<in> set (k # ks). after < j}"
    by auto
  with Cons.IH [OF selection_add_ok [OF Cons.prems, of k]] show ?case
    by simp
qed simp

lemma selection_sorted:
  assumes "selection_ok limit after S s"
  shows "sort (ds_selected s) = take (Suc limit) (sorted_list_of_set S)"
proof -
  obtain T where T: "smallest (Suc limit) S T" "mset (ds_selected s) = mset_set T" and fin: "finite S"
    using assms by (auto simp: selection_ok_def)
  let ?xs = "take (Suc limit) (sorted_list_of_set S)"
  have "T = set ?xs"
    by (rule smallest_unique [OF fin T(1) smallest_take [OF fin]])
  moreover have "mset ?xs = mset_set (set ?xs)"
    by (rule mset_set_set [symmetric]) (rule distinct_take, rule distinct_sorted_list_of_set)
  ultimately have "mset (ds_selected s) = mset ?xs"
    using T(2) by simp
  moreover have "sorted ?xs"
    by (rule sorted_wrt_take) (rule sorted_sorted_list_of_set)
  ultimately show ?thesis
    by (metis properties_for_sort)
qed

text \<open>What the page should be: the first digests after the cursor, and a token when there are more.\<close>

definition reference_page :: "page_lib \<Rightarrow> string \<Rightarrow> nat \<Rightarrow> string \<Rightarrow> string set \<Rightarrow> string list \<times> string" where
  "reference_page L scope limit after K =
    (let keys = sorted_list_of_set {k \<in> K. after < k}
     in (take limit keys, if limit < length keys then encodeScopedContainerCursor L scope (hex_encode (keys ! (limit - 1))) else ''''))"

lemma pageLimit_positive: "pageLimit q = Inr limit \<Longrightarrow> 0 < limit \<and> limit \<le> 500"
  by (auto simp: pageLimit_def defaultContainerPageSize_def maxContainerPageSize_def split: if_splits option.splits)

lemma newDigestSelection_ok:
  assumes "newDigestSelection L q scope = Inr sel"
  shows "selection_ok (ds_limit sel) (ds_after sel) {} sel" and "0 < ds_limit sel" and "ds_limit sel \<le> 500"
  using assms pageLimit_positive
  by (auto simp: newDigestSelection_def selection_ok_def heap_ok_def smallest_def split: sum.splits)

lemma selection_page_reference:
  assumes "selection_ok limit after S s" and "0 < limit"
  shows "selection_page L scope s = (take limit (sorted_list_of_set S),
    if limit < card S then encodeScopedContainerCursor L scope (hex_encode (sorted_list_of_set S ! (limit - 1))) else '''')"
proof -
  let ?xs = "sorted_list_of_set S"
  have keys: "sort (ds_selected s) = take (Suc limit) ?xs" and limit: "ds_limit s = limit"
    using selection_sorted [OF assms(1)] assms(1) by (simp_all add: selection_ok_def)
  have ne: "?xs \<noteq> []" if "limit < card S"
    using that by (metis length_sorted_list_of_set list.size(3) not_less_zero)
  then have "last (take limit ?xs) = ?xs ! (limit - 1)" if "limit < card S"
    using that assms(2) by (subst last_conv_nth) (simp_all add: min_def)
  with ne show ?thesis
    using assms(2) by (auto simp: selection_page_def keys limit Let_def min_def take_all_iff)
qed

lemma selection_is_reference:
  assumes "newDigestSelection L q scope = Inr sel"
  shows "selection_page L scope (fold selection_add ks sel) = reference_page L scope (ds_limit sel) (ds_after sel) (set ks)"
    and "length (ds_selected (fold selection_add ks sel)) \<le> Suc (ds_limit sel)"
proof -
  note sel = newDigestSelection_ok [OF assms]
  have ok: "selection_ok (ds_limit sel) (ds_after sel) {k \<in> set ks. ds_after sel < k} (fold selection_add ks sel)"
    using selection_fold [OF sel(1), of ks] by simp
  show "selection_page L scope (fold selection_add ks sel) = reference_page L scope (ds_limit sel) (ds_after sel) (set ks)"
    using selection_page_reference [OF ok sel(2)] by (simp add: reference_page_def Let_def)
  have "length (ds_selected (fold selection_add ks sel)) = length (take (Suc (ds_limit sel))
      (sorted_list_of_set {k \<in> set ks. ds_after sel < k}))"
    using selection_sorted [OF ok] by (metis length_sort)
  then show "length (ds_selected (fold selection_add ks sel)) \<le> Suc (ds_limit sel)"
    by simp
qed

text \<open>
  C30. The bounded heap is equivalent to sorting everything: whatever digests are added, in whatever
  order and however often, the page is the first \<open>limit\<close> digests after the cursor in sorted order,
  with a token exactly when there are more, and the heap never holds more than \<open>limit + 1\<close> of them.
\<close>

theorem heap_selection_is_sorting:
  assumes "newDigestSelection L q scope = Inr sel"
  shows "selection_page L scope (fold selection_add ks sel) = reference_page L scope (ds_limit sel) (ds_after sel) (set ks)
    \<and> length (ds_selected (fold selection_add ks sel)) \<le> Suc (ds_limit sel) \<and> ds_limit sel \<le> 500"
  using selection_is_reference [OF assms] newDigestSelection_ok(3) [OF assms] by simp

definition first_page :: page_query where
  "first_page = \<lparr>pq_limit = ''1'', pq_continue = ''''\<rparr>"

lemma first_page_selection:
  "newDigestSelection L first_page scope = Inr \<lparr>ds_after = zero_digest, ds_limit = 1, ds_selected = [], ds_seen = []\<rparr>"
  by (simp add: newDigestSelection_def pageLimit_def first_page_def atoi_def digits_value_def is_digit_def
      maxContainerPageSize_def decodeScopedContainerCursor_def go_simps)

theorem heap_selection_is_sorting_witness:
  "\<exists>sel. newDigestSelection pad_lib first_page ''s'' = Inr sel \<and>
    selection_page pad_lib ''s'' (fold selection_add [''c'', ''b'', ''c'', ''a''] sel)
      = reference_page pad_lib ''s'' 1 zero_digest {''a'', ''b'', ''c''}"
  using heap_selection_is_sorting [OF first_page_selection, of pad_lib "''s''" "[''c'', ''b'', ''c'', ''a'']"]
  by (simp add: first_page_selection insert_commute insert_absorb)

subsection \<open>Following the tokens\<close>

text \<open>A client that asks for pages until there is no token left; the number bounds its requests.\<close>

fun follow :: "nat \<Rightarrow> (string \<Rightarrow> page_error + container_page) \<Rightarrow> string \<Rightarrow> container_page list option" where
  "follow 0 request token = None"
| "follow (Suc n) request token =
    (case request token of
       Inl e \<Rightarrow> None
     | Inr page \<Rightarrow> if cp_Continue page = '''' then Some [page]
         else map_option (Cons page) (follow n request (cp_Continue page)))"

lemma select_digests_fold: "select_digests (\<lambda>c. Some (f c)) cs s = fold selection_add (map f cs) s"
  by (induction cs arbitrary: s) (simp_all add: select_digests_def)

lemma selected_absent:
  "k \<notin> set keys \<Longrightarrow> mget (fold (\<lambda>(i, k) m. mput k i m) (enumerate n keys) m) k = mget m k"
  by (induction keys arbitrary: n m) (auto simp: mget_mput)

lemma selected_index:
  "distinct keys \<Longrightarrow> i < length keys \<Longrightarrow>
    mget (fold (\<lambda>(i, k) m. mput k i m) (enumerate n keys) m) (keys ! i) = Some (n + i)"
proof (induction keys arbitrary: n m i)
  case (Cons key keys)
  show ?case
  proof (cases i)
    case 0
    with Cons.prems show ?thesis
      using selected_absent [of key keys "Suc n" "mput key n m"] by (simp add: mget_mput)
  next
    case (Suc j)
    with Cons show ?thesis
      by simp
  qed
qed simp

lemma fill_items_digests:
  assumes "distinct keys" and "set keys \<subseteq> f ` set cs"
  shows "map f (fill_items f keys cs) = keys"
proof -
  define selected where "selected = fold (\<lambda>(i, k) m. mput k i m) (enumerate 0 keys) []"
  have index: "mget selected k = Some i \<longleftrightarrow> i < length keys \<and> keys ! i = k" for k i
  proof (cases "k \<in> set keys")
    case True
    then obtain j where "j < length keys" "keys ! j = k"
      unfolding in_set_conv_nth by blast
    with selected_index [OF assms(1), of j 0 "[]"] assms(1) show ?thesis
      by (auto simp: selected_def nth_eq_iff_index_eq)
  next
    case False
    with selected_absent [OF False, of 0 "[]"] show ?thesis
      by (auto simp: selected_def)
  qed
  let ?fill = "\<lambda>c items. case mget selected (f c) of None \<Rightarrow> items | Some i \<Rightarrow> items[i := c]"
  have "length (fold ?fill cs items) = length keys \<and> (\<forall>i < length keys. f (fold ?fill cs items ! i) = keys ! i)"
    if "length items = length keys" "\<forall>i < length keys. f (items ! i) = keys ! i \<or> keys ! i \<in> f ` set cs" for items
    using that
  proof (induction cs arbitrary: items)
    case (Cons c cs)
    have "f (?fill c items ! i) = keys ! i \<or> keys ! i \<in> f ` set cs" if i: "i < length keys" for i
    proof (cases "mget selected (f c)")
      case None
      then have "f c \<noteq> keys ! i"
        using index [of "keys ! i" i] i by auto
      with None Cons.prems i show ?thesis
        by auto
    next
      case (Some j)
      then have j: "j < length keys" "keys ! j = f c"
        using index by auto
      then have "keys ! i \<noteq> f c" if "i \<noteq> j"
        using that i assms(1) nth_eq_iff_index_eq by metis
      with Some Cons.prems i j show ?thesis
        by (cases "i = j") auto
    qed
    moreover have "length (?fill c items) = length keys"
      using Cons.prems(1) by (simp split: option.split)
    ultimately show ?case
      using Cons.IH [of "?fill c items"] by simp
  qed simp
  moreover have "keys ! i \<in> f ` set cs" if "i < length keys" for i
    using that assms(2) nth_mem by blast
  ultimately have "length (fold ?fill cs (replicate (length keys) container_zero)) = length keys"
    "i < length keys \<Longrightarrow> f (fold ?fill cs (replicate (length keys) container_zero) ! i) = keys ! i" for i
    by simp_all
  then show ?thesis
    by (intro nth_equalityI) (simp_all add: fill_items_def Let_def flip: selected_def)
qed

definition visible_digests :: "page_lib \<Rightarrow> store \<Rightarrow> string \<Rightarrow> time \<Rightarrow> duration \<Rightarrow> string set" where
  "visible_digests L s scope now ttl = container_digest L ` set (visitScopedShards (readShards s now ttl) scope)"

lemma PageContainers_reference:
  assumes "newDigestSelection L q tokenScope = Inr sel"
  obtains page where "PageContainersScoped L s scope now ttl q tokenScope = Inr page"
    "(map (container_digest L) (cp_Items page), cp_Continue page)
      = reference_page L tokenScope (ds_limit sel) (ds_after sel) (visible_digests L s scope now ttl)"
proof -
  let ?visited = "visitScopedShards (readShards s now ttl) scope"
  obtain keys continuation where page: "reference_page L tokenScope (ds_limit sel) (ds_after sel)
      (visible_digests L s scope now ttl) = (keys, continuation)"
    by (cases "reference_page L tokenScope (ds_limit sel) (ds_after sel) (visible_digests L s scope now ttl)")
  then have "selection_page L tokenScope (select_digests (\<lambda>c. Some (container_digest L c)) ?visited sel) = (keys, continuation)"
    using selection_is_reference(1) [OF assms, of "map (container_digest L) ?visited"]
    by (simp add: select_digests_fold visible_digests_def)
  then have "PageContainersScoped L s scope now ttl q tokenScope
      = Inr \<lparr>cp_Items = fill_items (container_digest L) keys ?visited, cp_Continue = continuation\<rparr>"
    by (simp add: PageContainersScoped_def assms)
  moreover have "map (container_digest L) (fill_items (container_digest L) keys ?visited) = keys"
  proof (rule fill_items_digests)
    have "keys = take (ds_limit sel) (sorted_list_of_set {k \<in> visible_digests L s scope now ttl. ds_after sel < k})"
      using page by (simp add: reference_page_def Let_def)
    moreover have "finite {k \<in> visible_digests L s scope now ttl. ds_after sel < k}"
      by (simp add: visible_digests_def)
    ultimately show "distinct keys" "set keys \<subseteq> container_digest L ` set ?visited"
      using set_take_subset [of "ds_limit sel" "sorted_list_of_set {k \<in> visible_digests L s scope now ttl. ds_after sel < k}"]
      by (auto simp: visible_digests_def)
  qed
  ultimately show thesis
    using that page by simp
qed

lemma zero_digest_least: "length s = 32 \<Longrightarrow> s \<noteq> zero_digest \<Longrightarrow> zero_digest < s"
proof -
  have "replicate n (CHR 0x00) \<le> s" if "length s = n" for n and s :: string
    using that
  proof (induction n arbitrary: s)
    case (Suc n)
    then obtain c t where "s = c # t"
      by (cases s) auto
    moreover have "CHR 0x00 \<le> c"
      by (simp add: less_eq_char_def)
    ultimately show ?case
      using Suc by (auto simp: less_le)
  qed simp
  then show "length s = 32 \<Longrightarrow> s \<noteq> zero_digest \<Longrightarrow> zero_digest < s"
    unfolding zero_digest_def by (metis less_le)
qed

lemma rest_of_page:
  assumes "finite K" and "0 < e" and "e \<le> card K"
  shows "sorted_list_of_set {k \<in> K. sorted_list_of_set K ! (e - 1) < k} = drop e (sorted_list_of_set K)"
proof -
  let ?xs = "sorted_list_of_set K"
  have sorted: "sorted_wrt (<) ?xs" and len: "length ?xs = card K" and set: "set ?xs = K"
    using assms(1) by simp_all
  have "{k \<in> K. ?xs ! (e - 1) < k} = set (drop e ?xs)"
  proof (intro set_eqI iffI)
    fix k
    assume "k \<in> {k \<in> K. ?xs ! (e - 1) < k}"
    then have "k \<in> set ?xs" "?xs ! (e - 1) < k"
      using set by simp_all
    then obtain i where i: "i < length ?xs" "?xs ! i = k" "?xs ! (e - 1) < ?xs ! i"
      unfolding in_set_conv_nth by blast
    have "e \<le> i"
    proof (rule ccontr)
      assume "\<not> e \<le> i"
      then have "?xs ! i \<le> ?xs ! (e - 1)"
        using assms(2,3) len by (intro sorted_nth_mono) auto
      with i(3) show False
        by simp
    qed
    with i show "k \<in> set (drop e ?xs)"
      by (auto simp: in_set_conv_nth intro!: exI [of _ "i - e"])
  next
    fix k
    assume "k \<in> set (drop e ?xs)"
    then obtain i where "i < length (drop e ?xs)" "drop e ?xs ! i = k"
      unfolding in_set_conv_nth by blast
    then have i: "e + i < length ?xs" "?xs ! (e + i) = k"
      by simp_all
    moreover from i have "?xs ! (e - 1) < ?xs ! (e + i)"
      using assms(2) by (intro sorted_wrt_nth_less [OF sorted]) auto
    ultimately show "k \<in> {k \<in> K. ?xs ! (e - 1) < k}"
      using nth_mem [of "e + i" ?xs] set by simp
  qed
  moreover have "sorted (drop e ?xs)" "distinct (drop e ?xs)"
    by (simp_all add: sorted_wrt_drop)
  ultimately show ?thesis
    by (metis sorted_list_of_set.idem_if_sorted_distinct)
qed

text \<open>The token at position \<open>e\<close> of the sorted digests, and the selection a request with it starts from.\<close>

definition token_at :: "page_lib \<Rightarrow> string \<Rightarrow> string set \<Rightarrow> nat \<Rightarrow> string" where
  "token_at L scope K e = (if e = 0 then '''' else encodeScopedContainerCursor L scope (hex_encode (sorted_list_of_set K ! (e - 1))))"

lemma selection_at:
  assumes "digests L" and "finite K" and "\<forall>k \<in> K. length k = 32" and "zero_digest \<notin> K" and "e \<le> card K"
    and "pageLimit \<lparr>pq_limit = size_text, pq_continue = token_at L scope K e\<rparr> = Inr limit"
  obtains after where "newDigestSelection L \<lparr>pq_limit = size_text, pq_continue = token_at L scope K e\<rparr> scope
      = Inr \<lparr>ds_after = after, ds_limit = limit, ds_selected = [], ds_seen = []\<rparr>"
    "sorted_list_of_set {k \<in> K. after < k} = drop e (sorted_list_of_set K)"
proof (cases "e = 0")
  case True
  have "{k \<in> K. zero_digest < k} = K"
    using assms(3,4) zero_digest_least by auto
  with True assms(6) that [of zero_digest] show ?thesis
    by (simp add: newDigestSelection_def token_at_def decodeScopedContainerCursor_def)
next
  case False
  let ?key = "sorted_list_of_set K ! (e - 1)"
  have "?key \<in> set (sorted_list_of_set K)"
    using False assms(2,5) by (intro nth_mem) simp
  then have key: "length ?key = 32"
    using assms(2,3) by simp
  have split: "split_at (CHR ''.'') (encodeScopedContainerCursor L scope (hex_encode ?key)) = [''v2'', scope_tag L scope, hex_encode ?key]"
    and len: "length (encodeScopedContainerCursor L scope (hex_encode ?key)) = 84"
    and ne: "scope_tag L scope \<noteq> '''' \<and> hex_encode ?key \<noteq> ''''"
    using cursor_parts [OF assms(1) key] by simp_all
  have "take 3 (encodeScopedContainerCursor L scope (hex_encode ?key)) = ''v2.''"
    "encodeScopedContainerCursor L scope (hex_encode ?key) \<noteq> ''''"
    by (simp_all add: encodeScopedContainerCursor_def numeral_eq_Suc)
  with split len ne key have "decodeScopedContainerCursor L (token_at L scope K e) scope = Inr (hex_encode ?key)"
    using False by (simp add: decodeScopedContainerCursor_def token_at_def scopedContinueTokenBytes_def hex_decode_encode)
  with assms(6) ne have "newDigestSelection L \<lparr>pq_limit = size_text, pq_continue = token_at L scope K e\<rparr> scope
      = Inr \<lparr>ds_after = ?key, ds_limit = limit, ds_selected = [], ds_seen = []\<rparr>"
    by (simp add: newDigestSelection_def hex_decode_encode)
  with that rest_of_page [OF assms(2) _ assms(5)] False show ?thesis
    by simp
qed

lemma follow_pages:
  assumes "digests L" and "zero_digest \<notin> visible_digests L s scope now ttl"
    and "\<And>token. pageLimit \<lparr>pq_limit = size_text, pq_continue = token\<rparr> = Inr limit" and "e \<le> card (visible_digests L s scope now ttl)"
    and "card (visible_digests L s scope now ttl) - e < n"
  shows "\<exists>pages. follow n (\<lambda>token. PageContainersScoped L s scope now ttl \<lparr>pq_limit = size_text, pq_continue = token\<rparr> tokenScope)
      (token_at L tokenScope (visible_digests L s scope now ttl) e) = Some pages \<and>
    concat (map (\<lambda>page. map (container_digest L) (cp_Items page)) pages)
      = drop e (sorted_list_of_set (visible_digests L s scope now ttl))"
  using assms(4,5)
proof (induction n arbitrary: e)
  case (Suc n)
  let ?K = "visible_digests L s scope now ttl"
  let ?xs = "sorted_list_of_set ?K"
  have K: "finite ?K" "\<forall>k \<in> ?K. length k = 32"
    using assms(1) by (auto simp: visible_digests_def container_digest_def digests_def)
  have limit: "0 < limit"
    using pageLimit_positive [OF assms(3)] by simp
  obtain after where sel: "newDigestSelection L \<lparr>pq_limit = size_text, pq_continue = token_at L tokenScope ?K e\<rparr> tokenScope
      = Inr \<lparr>ds_after = after, ds_limit = limit, ds_selected = [], ds_seen = []\<rparr>"
    and rest: "sorted_list_of_set {k \<in> ?K. after < k} = drop e ?xs"
    by (rule selection_at [OF assms(1) K assms(2) Suc.prems(1) assms(3)])
  obtain page where page: "PageContainersScoped L s scope now ttl \<lparr>pq_limit = size_text, pq_continue = token_at L tokenScope ?K e\<rparr> tokenScope
      = Inr page" "(map (container_digest L) (cp_Items page), cp_Continue page) = reference_page L tokenScope limit after ?K"
    by (rule PageContainers_reference [OF sel]) simp
  then have items: "map (container_digest L) (cp_Items page) = take limit (drop e ?xs)"
    and continuation: "cp_Continue page = (if limit < length ?xs - e
      then encodeScopedContainerCursor L tokenScope (hex_encode (drop e ?xs ! (limit - 1))) else '''')"
    by (simp_all add: reference_page_def Let_def rest)
  show ?case
  proof (cases "limit < card ?K - e")
    case True
    then have "cp_Continue page = token_at L tokenScope ?K (e + limit)"
      using continuation limit Suc.prems(1) K(1) by (simp add: token_at_def add.commute)
    moreover have "cp_Continue page \<noteq> ''''"
      using True continuation by (simp add: encodeScopedContainerCursor_def)
    moreover obtain pages where "follow n (\<lambda>token. PageContainersScoped L s scope now ttl \<lparr>pq_limit = size_text, pq_continue = token\<rparr> tokenScope)
        (token_at L tokenScope ?K (e + limit)) = Some pages"
      "concat (map (\<lambda>page. map (container_digest L) (cp_Items page)) pages) = drop (e + limit) ?xs"
    proof -
      have "e + limit \<le> card ?K" "card ?K - (e + limit) < n"
        using Suc.prems True limit by auto
      from Suc.IH [OF this] that show thesis
        by blast
    qed
    moreover have "take limit (drop e ?xs) @ drop (e + limit) ?xs = drop e ?xs"
      by (metis add.commute append_take_drop_id drop_drop)
    ultimately show ?thesis
      using page(1) items by (intro exI [of _ "page # pages"]) simp
  next
    case False
    then have "cp_Continue page = ''''" "take limit (drop e ?xs) = drop e ?xs"
      using continuation K(1) by simp_all
    with page(1) items show ?thesis
      by (intro exI [of _ "[page]"]) simp
  qed
qed simp

text \<open>
  C31. A client that starts without a token and follows the tokens of the pages gets to the end, and
  the pages it has then seen hold every container of its scope exactly once, in the order of the
  digests of their identities. (SHA-256 yields 32 bytes; no identity has the digest of zeros.)
\<close>

theorem pages_enumerate_containers:
  assumes "\<forall>text. length (pl_sum256 L text) = 32"
    and "zero_digest \<notin> container_digest L ` set (visitScopedShards (readShards s now ttl) scope)"
    and "\<forall>token. pageLimit \<lparr>pq_limit = size_text, pq_continue = token\<rparr> = Inr limit"
  shows "\<exists>n pages. follow n (\<lambda>token. PageContainersScoped L s scope now ttl \<lparr>pq_limit = size_text, pq_continue = token\<rparr> tokenScope) ''''
      = Some pages \<and>
    concat (map (\<lambda>page. map (container_digest L) (cp_Items page)) pages)
      = sorted_list_of_set (container_digest L ` set (visitScopedShards (readShards s now ttl) scope))"
proof -
  have "digests L"
    using assms(1) by (simp add: digests_def)
  then have "\<exists>pages. follow (Suc (card (visible_digests L s scope now ttl)))
        (\<lambda>token. PageContainersScoped L s scope now ttl \<lparr>pq_limit = size_text, pq_continue = token\<rparr> tokenScope)
        (token_at L tokenScope (visible_digests L s scope now ttl) 0) = Some pages \<and>
      concat (map (\<lambda>page. map (container_digest L) (cp_Items page)) pages)
        = drop 0 (sorted_list_of_set (visible_digests L s scope now ttl))"
    by (rule follow_pages) (use assms(2,3) in \<open>auto simp: visible_digests_def\<close>)
  then show ?thesis
    by (simp only: token_at_def visible_digests_def simp_thms if_True drop_0) (rule exI)
qed

definition paged_store :: store where
  "paged_store = (newStore DefaultHistoryOptions DefaultStoreLimits 50)\<lparr>st_nodes :=
     [(''n1'', snapshot_zero\<lparr>sn_capturedAt := 100, sn_containers := [sample_container ''a'' ''p1'' memory_zero,
       sample_container ''b'' ''p2'' memory_zero]\<rparr>)]\<rparr>"

lemma paged_containers:
  "container_digest pad_lib ` set (visitScopedShards (readShards paged_store 120 60) ''ns'')
    = {pl_sum256 pad_lib (join_nul [''ns'', ''p1'', ''p1'', ''c'', ''a'', '''']), pl_sum256 pad_lib (join_nul [''ns'', ''p2'', ''p2'', ''c'', ''b'', ''''])}"
  by (simp add: visitScopedShards_def readShards_def paged_store_def container_digest_def container_identity_def
      sample_container_def container_zero_def)

theorem pages_enumerate_containers_witness:
  "\<exists>n pages. follow n (\<lambda>token. PageContainersScoped pad_lib paged_store ''ns'' 120 60 \<lparr>pq_limit = ''1'', pq_continue = token\<rparr> ''s'') ''''
      = Some pages \<and> length (concat (map cp_Items pages)) = 2"
proof -
  have "pageLimit \<lparr>pq_limit = ''1'', pq_continue = token\<rparr> = Inr 1" for token
    by (simp add: pageLimit_def atoi_def digits_value_def is_digit_def maxContainerPageSize_def go_simps)
  moreover have "zero_digest \<notin> container_digest pad_lib ` set (visitScopedShards (readShards paged_store 120 60) ''ns'')"
    unfolding paged_containers by (simp add: pad_lib_def zero_digest_def numeral_eq_Suc)
  ultimately obtain n pages where pages:
    "follow n (\<lambda>token. PageContainersScoped pad_lib paged_store ''ns'' 120 60 \<lparr>pq_limit = ''1'', pq_continue = token\<rparr> ''s'') '''' = Some pages"
    "concat (map (\<lambda>page. map (container_digest pad_lib) (cp_Items page)) pages)
      = sorted_list_of_set (container_digest pad_lib ` set (visitScopedShards (readShards paged_store 120 60) ''ns''))"
    using pages_enumerate_containers [of pad_lib paged_store 120 60 "''ns''" "''1''" 1 "''s''"] pad_lib_digests by blast
  have "length (concat (map cp_Items pages)) = length (concat (map (\<lambda>page. map (container_digest pad_lib) (cp_Items page)) pages))"
    by (simp add: length_concat comp_def)
  also have "\<dots> = 2"
    unfolding pages(2) paged_containers by (simp add: pad_lib_def card_insert_if)
  finally show ?thesis
    using pages(1) by blast
qed

end
