(* ===== verification/Go_Text.thy ===== *)
theory Go_Text
  imports Go_Prelude
begin

text \<open>
  Strings as Go sees them: a \<open>string\<close> is a list of bytes, and \<open>range\<close>, \<open>utf8.Valid\<close> and
  \<open>strings.ContainsFunc\<close> read it as UTF-8. The classes of runes that the validators refuse are those of
  package \<open>unicode\<close>.

  The lemmas: ASCII text decodes to its bytes.
\<close>

subsection \<open>UTF-8\<close>

definition byte :: "char \<Rightarrow> nat" where
  "byte c = of_char c"

definition utf8_tail :: "nat \<Rightarrow> nat \<Rightarrow> char \<Rightarrow> bool" where
  "utf8_tail lo hi c \<longleftrightarrow> lo \<le> byte c \<and> byte c \<le> hi"

text \<open>
  The runes of a valid string, \<open>None\<close> if a byte sequence is not well-formed: overlong forms, surrogates
  and runes above \<open>0x10FFFF\<close> are excluded by the range of the second byte.
\<close>

fun utf8_runes :: "string \<Rightarrow> nat list option" where
  "utf8_runes [] = Some []"
| "utf8_runes (a # s) =
    (let x = byte a
     in if x < 128 then map_option ((#) x) (utf8_runes s)
        else if 194 \<le> x \<and> x \<le> 223 then
          (case s of b # s' \<Rightarrow>
             if utf8_tail 128 191 b then map_option ((#) ((x - 192) * 64 + (byte b - 128))) (utf8_runes s') else None
           | [] \<Rightarrow> None)
        else if 224 \<le> x \<and> x \<le> 239 then
          (case s of b # c # s' \<Rightarrow>
             if utf8_tail (if x = 224 then 160 else 128) (if x = 237 then 159 else 191) b \<and> utf8_tail 128 191 c then
               map_option ((#) ((x - 224) * 4096 + (byte b - 128) * 64 + (byte c - 128))) (utf8_runes s')
             else None
           | _ \<Rightarrow> None)
        else if 240 \<le> x \<and> x \<le> 244 then
          (case s of b # c # d # s' \<Rightarrow>
             if utf8_tail (if x = 240 then 144 else 128) (if x = 244 then 143 else 191) b \<and> utf8_tail 128 191 c \<and>
                utf8_tail 128 191 d then
               map_option ((#) ((x - 240) * 262144 + (byte b - 128) * 4096 + (byte c - 128) * 64 + (byte d - 128)))
                 (utf8_runes s')
             else None
           | _ \<Rightarrow> None)
        else None)"

definition utf8_valid :: "string \<Rightarrow> bool" where
  "utf8_valid s \<longleftrightarrow> utf8_runes s \<noteq> None"

subsection \<open>Classes of runes\<close>

definition is_control :: "nat \<Rightarrow> bool" where
  "is_control r \<longleftrightarrow> r < 32 \<or> 127 \<le> r \<and> r < 160"

text \<open>\<open>unicode.Cf\<close>, the format characters, as ranges.\<close>

definition format_ranges :: "(nat \<times> nat) list" where
  "format_ranges =
    [(0xAD, 0xAD), (0x600, 0x605), (0x61C, 0x61C), (0x6DD, 0x6DD), (0x70F, 0x70F), (0x890, 0x891), (0x8E2, 0x8E2),
     (0x180E, 0x180E), (0x200B, 0x200F), (0x202A, 0x202E), (0x2060, 0x2064), (0x2066, 0x206F), (0xFEFF, 0xFEFF),
     (0xFFF9, 0xFFFB), (0x110BD, 0x110BD), (0x110CD, 0x110CD), (0x13430, 0x1343F), (0x1BCA0, 0x1BCA3),
     (0x1D173, 0x1D17A), (0xE0001, 0xE0001), (0xE0020, 0xE007F)]"

definition is_format :: "nat \<Rightarrow> bool" where
  "is_format r \<longleftrightarrow> list_ex (\<lambda>(lo, hi). lo \<le> r \<and> r \<le> hi) format_ranges"

text \<open>\<open>unicode.Zl\<close> and \<open>unicode.Zp\<close>, the separators of lines and paragraphs.\<close>

definition is_separator :: "nat \<Rightarrow> bool" where
  "is_separator r \<longleftrightarrow> r = 0x2028 \<or> r = 0x2029"

subsection \<open>Hexadecimal\<close>

definition lower_hex :: "char \<Rightarrow> bool" where
  "lower_hex c \<longleftrightarrow> 48 \<le> byte c \<and> byte c \<le> 57 \<or> 97 \<le> byte c \<and> byte c \<le> 102"

subsection \<open>ASCII text\<close>

lemma utf8_ascii: "list_all (\<lambda>c. byte c < 128) s \<Longrightarrow> utf8_runes s = Some (map byte s)"
  by (induction s) (simp_all add: Let_def)

lemma utf8_valid_ascii: "list_all (\<lambda>c. byte c < 128) s \<Longrightarrow> utf8_valid s"
  by (simp add: utf8_valid_def utf8_ascii)

end
