(* ===== verification/Memory_History.thy ===== *)
theory Memory_History
  imports Go_Text
begin

text \<open>
  Package \<open>memoryhistory\<close>: the contract of a bounded read of memory history (\<open>types.go\<close>), the validation of a
  request, a query, a selection (\<open>validate.go\<close>) and a report (\<open>report.go\<close>), the empty grid and the summary
  of a filled one (\<open>grid.go\<close>), and the defaults of a query (\<open>parse.go\<close>). The string types are strings;
  a nil slice is the empty list; a map used as a set is a list. The DNS name checks of apimachinery and
  \<open>time.Parse\<close> are parameters.

  The lemmas: the grid has one point for each step of the query and nothing in it, and a summary
  changes only the summarising fields.
\<close>

subsection \<open>Data\<close>

text \<open>\<open>validation.IsDNS1123Subdomain\<close> and \<open>validation.IsDNS1123Label\<close> of apimachinery, as the absence of errors.\<close>

record kube_names =
  kn_subdomain :: "string \<Rightarrow> bool"
  kn_label :: "string \<Rightarrow> bool"

datatype history_error = HistoryInvalid | HistoryBounds | HistoryChanged | HistoryContext

definition hour :: duration where
  "hour = 60 * minute"

definition mh_MaxTargets :: nat where
  "mh_MaxTargets = 16"

definition mh_MaxPoints :: int where
  "mh_MaxPoints = 241"

definition mh_MaxRange :: duration where
  "mh_MaxRange = 7 * 24 * hour"

definition mh_MinStep :: duration where
  "mh_MinStep = minute"

definition SampleMaxAge :: duration where
  "SampleMaxAge = 2 * minute"

record mh_request =
  re_Scope :: string
  re_Namespace :: string
  re_Name :: string
  re_Container :: string
  re_WorkloadKind :: string

record mh_target =
  tg_Namespace :: string
  tg_Pod :: string
  tg_PodUID :: string
  tg_Container :: string
  tg_ContainerID :: string
  tg_Node :: string
  tg_NodeUID :: string
  tg_PodCreatedAt :: time
  tg_StartedAt :: time

record mh_selection =
  sl_Request :: mh_request
  sl_UID :: string
  sl_Revision :: string
  sl_ResolvedAt :: time
  sl_Targets :: "mh_target list"

record mh_query =
  qy_Source :: string
  qy_Metric :: string
  qy_Start :: time
  qy_End :: time
  qy_Step :: duration

record mh_point =
  pt_At :: time
  pt_SampledAt :: time
  pt_Bytes :: "u64 option"
  pt_State :: string

record mh_series =
  sr_FreshFor :: duration
  sr_Origin :: string
  sr_SampleClock :: string
  sr_Target :: mh_target
  sr_Source :: string
  sr_Metric :: string
  sr_Resolution :: duration
  sr_Freshness :: string
  sr_Completeness :: string
  sr_Points :: "mh_point list"

record mh_report =
  rp_SchemaVersion :: int
  rp_Selection :: mh_selection
  rp_Query :: mh_query
  rp_ReceivedAt :: time
  rp_State :: string
  rp_Completeness :: string
  rp_Reason :: string
  rp_Series :: "mh_series list"

subsection \<open>Validation of a request\<close>

definition printable_identity :: "nat \<Rightarrow> string \<Rightarrow> bool" where
  "printable_identity most s \<longleftrightarrow> 0 < length s \<and> length s \<le> most \<and> list_all (\<lambda>c. 33 \<le> byte c \<and> byte c \<le> 126) s"

definition validIdentity :: "string \<Rightarrow> bool" where
  "validIdentity = printable_identity 256"

definition request_Validate :: "kube_names \<Rightarrow> mh_request \<Rightarrow> history_error option" where
  "request_Validate N r =
    (if \<not> kn_subdomain N (re_Name r) then Some HistoryInvalid
     else if re_Scope r = ''node'' then
       (if re_Namespace r \<noteq> '''' \<or> re_Container r \<noteq> '''' \<or> re_WorkloadKind r \<noteq> '''' then Some HistoryInvalid else None)
     else if re_Scope r \<in> {''pod'', ''container'', ''workload''} then
       (if \<not> kn_label N (re_Namespace r) then Some HistoryInvalid
        else if (re_Scope r = ''container'') \<noteq> (re_Container r \<noteq> '''') \<or>
           (re_Scope r = ''workload'') \<noteq> (re_WorkloadKind r \<noteq> '''') then Some HistoryInvalid
        else if re_Container r \<noteq> '''' \<and> \<not> kn_label N (re_Container r) then Some HistoryInvalid
        else None)
     else Some HistoryInvalid)"

text \<open>\<open>Nanosecond() != 0\<close>: the instant is not a whole second.\<close>

definition query_Validate :: "mh_query \<Rightarrow> time \<Rightarrow> history_error option" where
  "query_Validate q now =
    (if qy_Source q \<notin> {''local'', ''prometheus''} \<or> qy_Metric q \<notin> {''cgroup-charge'', ''working-set'', ''rss''} then
       Some HistoryInvalid
     else if is_zero_time (qy_Start q) \<or> qy_End q < qy_Start q \<or> qy_End q > now \<or>
        qy_Start q mod second \<noteq> 0 \<or> qy_End q mod second \<noteq> 0 then Some HistoryInvalid
     else if qy_Step q < mh_MinStep \<or> qy_Step q > hour \<or> qy_Step q mod second \<noteq> 0 \<or>
        time_sub (qy_End q) (qy_Start q) > mh_MaxRange \<or>
        time_sub (qy_End q) (qy_Start q) div qy_Step q \<ge> mh_MaxPoints then Some HistoryBounds
     else None)"

text \<open>The body of the loop over the targets; \<open>seen\<close> is the map of keys.\<close>

definition mh_target_ok :: "kube_names \<Rightarrow> mh_selection \<Rightarrow> mh_target \<Rightarrow> bool" where
  "mh_target_ok N s t \<longleftrightarrow>
    kn_subdomain N (tg_Node t) \<and> validIdentity (tg_NodeUID t) \<and> \<not> is_zero_time (tg_StartedAt t) \<and>
    \<not> tg_StartedAt t > sl_ResolvedAt s \<and>
    (if re_Scope (sl_Request s) = ''node'' then
       length (sl_Targets s) = 1 \<and> tg_Node t = re_Name (sl_Request s) \<and> tg_NodeUID t = sl_UID s \<and>
       tg_Namespace t = '''' \<and> tg_Pod t = '''' \<and> tg_PodUID t = '''' \<and> tg_Container t = '''' \<and> tg_ContainerID t = ''''
     else
       tg_Namespace t = re_Namespace (sl_Request s) \<and> kn_subdomain N (tg_Pod t) \<and> validIdentity (tg_PodUID t) \<and>
       kn_label N (tg_Container t) \<and> validIdentity (tg_ContainerID t) \<and>
       (re_Scope (sl_Request s) \<noteq> ''workload'' \<longrightarrow> tg_Pod t = re_Name (sl_Request s) \<and> tg_PodUID t = sl_UID s) \<and>
       (re_Scope (sl_Request s) = ''container'' \<longrightarrow>
          length (sl_Targets s) = 1 \<and> tg_Container t = re_Container (sl_Request s)))"

definition target_key :: "mh_target \<Rightarrow> string" where
  "target_key t = tg_Namespace t @ ''/'' @ tg_Pod t @ ''/'' @ tg_Container t"

fun targets_ok :: "kube_names \<Rightarrow> mh_selection \<Rightarrow> string list \<Rightarrow> mh_target list \<Rightarrow> bool" where
  "targets_ok N s seen [] = True"
| "targets_ok N s seen (t # ts) =
    (target_key t \<notin> set seen \<and> mh_target_ok N s t \<and> targets_ok N s (target_key t # seen) ts)"

definition selection_Validate :: "kube_names \<Rightarrow> mh_selection \<Rightarrow> history_error option" where
  "selection_Validate N s =
    (if request_Validate N (sl_Request s) \<noteq> None \<or> \<not> validIdentity (sl_UID s) \<or> length (sl_Revision s) > 128 \<or>
        is_zero_time (sl_ResolvedAt s) then Some HistoryInvalid
     else if sl_Targets s = [] \<or> length (sl_Targets s) > mh_MaxTargets then Some HistoryBounds
     else if \<not> targets_ok N s [] (sl_Targets s) then Some HistoryInvalid
     else None)"

subsection \<open>The grid\<close>

definition missing_point :: "time \<Rightarrow> mh_point" where
  "missing_point t = \<lparr>pt_At = t, pt_SampledAt = 0, pt_Bytes = None, pt_State = ''missing''\<rparr>"

text \<open>
  The loop over \<open>at\<close> from the start to the end. A step that is not positive would not end; the query is
  validated before, and the loop stands still at once here.
\<close>

function grid_points :: "time \<Rightarrow> time \<Rightarrow> duration \<Rightarrow> mh_point list" where
  "grid_points t stop step =
    (if t > stop \<or> step \<le> 0 then [] else missing_point t # grid_points (t + step) stop step)"
  by pat_completeness auto
termination
  by (relation "measure (\<lambda>(t, stop, step). nat (stop + 1 - t))") auto

declare grid_points.simps [simp del]

definition empty_series :: "mh_query \<Rightarrow> mh_target \<Rightarrow> mh_series" where
  "empty_series q target =
    \<lparr>sr_FreshFor = SampleMaxAge, sr_Origin = '''', sr_SampleClock = '''', sr_Target = target,
     sr_Source = qy_Source q, sr_Metric = qy_Metric q, sr_Resolution = qy_Step q, sr_Freshness = ''missing'',
     sr_Completeness = ''partial'', sr_Points = grid_points (qy_Start q) (qy_End q) (qy_Step q)\<rparr>"

definition NewReport :: "kube_names \<Rightarrow> mh_selection \<Rightarrow> mh_query \<Rightarrow> time \<Rightarrow> history_error + mh_report" where
  "NewReport N s q now =
    (case selection_Validate N s of Some e \<Rightarrow> Inl e | None \<Rightarrow>
     case query_Validate q now of Some e \<Rightarrow> Inl e | None \<Rightarrow>
       Inr \<lparr>rp_SchemaVersion = 1, rp_Selection = s, rp_Query = q, rp_ReceivedAt = now, rp_State = ''missing'',
         rp_Completeness = ''partial'', rp_Reason = '''', rp_Series = map (empty_series q) (sl_Targets s)\<rparr>)"

subsection \<open>Summaries\<close>

text \<open>The freshness the loop over the points leaves: of the last point that has bytes.\<close>

definition series_freshness :: "time \<Rightarrow> duration \<Rightarrow> mh_point list \<Rightarrow> string" where
  "series_freshness received freshFor points =
    fold (\<lambda>p f. if pt_Bytes p = None then f
        else if time_sub received (pt_SampledAt p) \<le> freshFor then ''fresh'' else ''stale'') points ''missing''"

definition summarise_series :: "time \<Rightarrow> bool \<Rightarrow> mh_series \<Rightarrow> mh_series" where
  "summarise_series received providerPartial s =
    s\<lparr>sr_Freshness := series_freshness received (sr_FreshFor s) (sr_Points s),
      sr_Completeness :=
        (if providerPartial \<or> list_ex (\<lambda>p. pt_State p \<noteq> ''fresh'') (sr_Points s) then ''partial'' else ''complete'')\<rparr>"

definition Summarise :: "mh_report \<Rightarrow> bool \<Rightarrow> mh_report" where
  "Summarise r providerPartial =
    (let series = map (summarise_series (rp_ReceivedAt r) providerPartial) (rp_Series r);
         (state, completeness) = fold (\<lambda>s (state, completeness).
             (if sr_Freshness s = ''fresh'' \<or> sr_Freshness s = ''stale'' \<and> state = ''missing'' then sr_Freshness s else state,
              if sr_Completeness s \<noteq> ''complete'' then ''partial'' else completeness))
           series (''missing'', ''complete'')
     in r\<lparr>rp_Series := series, rp_State := state, rp_Completeness := completeness\<rparr>)"

subsection \<open>Validation of a report\<close>

definition validCompleteness :: "string \<Rightarrow> bool" where
  "validCompleteness c \<longleftrightarrow> c = ''complete'' \<or> c = ''partial''"

definition known_reasons :: "string list" where
  "known_reasons = ['''', ''provider-partial'', ''series-unreported'', ''local-history-unreported'',
     ''metric-not-supported'', ''local-metric-not-retained'', ''local-node-source-disabled'']"

text \<open>A local series describes a whole Pod: the target without its container, since the Pod's creation.\<close>

definition pod_target :: "mh_target \<Rightarrow> mh_target" where
  "pod_target t = t\<lparr>tg_Container := '''', tg_ContainerID := '''', tg_StartedAt := tg_PodCreatedAt t\<rparr>"

definition local_pods :: "mh_report \<Rightarrow> bool" where
  "local_pods r \<longleftrightarrow> qy_Source (rp_Query r) = ''local'' \<and> re_Scope (sl_Request (rp_Selection r)) \<noteq> ''node''"

text \<open>The targets the series must have; \<open>None\<close> is the early return.\<close>

fun expected_targets :: "mh_report \<Rightarrow> mh_target list \<Rightarrow> mh_target list option" where
  "expected_targets r [] = Some []"
| "expected_targets r (t # ts) =
    (if local_pods r \<and> (qy_Metric (rp_Query r) \<noteq> ''cgroup-charge'' \<or> re_Scope (sl_Request (rp_Selection r)) = ''container'' \<or>
        is_zero_time (tg_PodCreatedAt t)) then None
     else map_option (List.insert (if local_pods r then pod_target t else t)) (expected_targets r ts))"

text \<open>The origin and the clock of a series.\<close>

definition expected_origin :: "mh_report \<Rightarrow> string \<times> string" where
  "expected_origin r =
    (if qy_Source (rp_Query r) = ''local'' then
       (if re_Scope (sl_Request (rp_Selection r)) = ''node'' then (''kubelet-summary'', ''kubelet-sample'')
        else (''cgroup-v2'', ''collector-capture''))
     else (''cadvisor'', ''prometheus-sample''))"

definition mh_point_ok :: "mh_report \<Rightarrow> mh_series \<Rightarrow> nat \<Rightarrow> mh_point \<Rightarrow> bool" where
  "mh_point_ok r s i p \<longleftrightarrow>
    pt_At p = qy_Start (rp_Query r) + sr_Resolution s * int i \<and>
    (if pt_State p = ''missing'' then pt_Bytes p = None \<and> is_zero_time (pt_SampledAt p)
     else pt_Bytes p \<noteq> None \<and> \<not> is_zero_time (pt_SampledAt p) \<and> \<not> pt_SampledAt p > pt_At p \<and>
       \<not> pt_SampledAt p < tg_StartedAt (sr_Target s) \<and>
       pt_State p = (if time_sub (pt_At p) (pt_SampledAt p) > sr_FreshFor s then ''stale'' else ''fresh''))"

definition mh_series_ok :: "mh_report \<Rightarrow> mh_series \<Rightarrow> bool" where
  "mh_series_ok r s \<longleftrightarrow>
    \<not> (sr_FreshFor s \<le> 0 \<or> sr_FreshFor s > SampleMaxAge \<or> sr_Source s = ''prometheus'' \<and> sr_FreshFor s \<noteq> SampleMaxAge) \<and>
    sr_Source s = qy_Source (rp_Query r) \<and> sr_Metric s = qy_Metric (rp_Query r) \<and> sr_Resolution s = qy_Step (rp_Query r) \<and>
    (sr_Origin s, sr_SampleClock s) = expected_origin r \<and>
    int (length (sr_Points s)) = time_sub (qy_End (rp_Query r)) (qy_Start (rp_Query r)) div qy_Step (rp_Query r) + 1 \<and>
    list_all (\<lambda>(i, p). mh_point_ok r s i p) (enumerate 0 (sr_Points s))"

text \<open>The loop over the series; every expected target is used once.\<close>

fun all_series_ok :: "mh_report \<Rightarrow> mh_target list \<Rightarrow> mh_series list \<Rightarrow> bool" where
  "all_series_ok r expected [] = True"
| "all_series_ok r expected (s # ss) =
    (sr_Target s \<in> set expected \<and> mh_series_ok r s \<and> all_series_ok r (removeAll (sr_Target s) expected) ss)"

definition report_Validate :: "kube_names \<Rightarrow> mh_report \<Rightarrow> history_error option" where
  "report_Validate N r =
    (if rp_SchemaVersion r \<noteq> 1 \<or> selection_Validate N (rp_Selection r) \<noteq> None \<or>
        query_Validate (rp_Query r) (rp_ReceivedAt r) \<noteq> None \<or> rp_ReceivedAt r < sl_ResolvedAt (rp_Selection r) then
       Some HistoryInvalid
     else if rp_Reason r \<notin> set known_reasons then Some HistoryInvalid
     else if rp_State r = ''unsupported'' \<or> rp_State r = ''disabled'' then
       (if rp_State r = ''disabled'' \<and> (qy_Source (rp_Query r) \<noteq> ''local'' \<or>
            re_Scope (sl_Request (rp_Selection r)) \<noteq> ''node'' \<or> rp_Reason r \<noteq> ''local-node-source-disabled'') then
          Some HistoryInvalid
        else if rp_Series r \<noteq> [] \<or> rp_Completeness r \<noteq> ''partial'' then Some HistoryInvalid
        else None)
     else case expected_targets r (sl_Targets (rp_Selection r)) of
         None \<Rightarrow> Some HistoryInvalid
       | Some expected \<Rightarrow>
         (let check = Summarise r False
          in if length (rp_Series r) \<noteq> length expected \<or> \<not> all_series_ok r expected (rp_Series r) then
               Some HistoryInvalid
             else if rp_State r \<noteq> rp_State check \<or> \<not> validCompleteness (rp_Completeness r) \<or>
                rp_Completeness r = ''complete'' \<and> rp_Completeness check \<noteq> ''complete'' then Some HistoryInvalid
             else if \<not> list_all2 (\<lambda>s c. sr_Freshness s = sr_Freshness c \<and> validCompleteness (sr_Completeness s) \<and>
                   (sr_Completeness s = ''complete'' \<longrightarrow> sr_Completeness c = ''complete'')) (rp_Series r) (rp_Series check)
               then Some HistoryInvalid
             else None))"

subsection \<open>Defaults of a query\<close>

text \<open>
  \<open>url.Values\<close> maps a key to the list of its values; \<open>Get\<close> reads the first. \<open>parse_rfc3339\<close> and
  \<open>parse_int32\<close> stand for \<open>time.Parse\<close> and \<open>strconv.ParseInt(value, 10, 32)\<close>.
\<close>

definition values_get :: "(string, string list) gomap \<Rightarrow> string \<Rightarrow> string" where
  "values_get values key = (case mget values key of Some (v # _) \<Rightarrow> v | _ \<Rightarrow> '''')"

definition parsed_instant :: "(string \<Rightarrow> time option) \<Rightarrow> string \<Rightarrow> time \<Rightarrow> time option" where
  "parsed_instant parse_rfc3339 value fallback = (if value = '''' then Some fallback else parse_rfc3339 value)"

definition default_step :: "duration \<Rightarrow> duration" where
  "default_step span =
    (let minimumStep = (span + (mh_MaxPoints - 2)) div (mh_MaxPoints - 1)
     in max mh_MinStep ((minimumStep + minute - 1) div minute * minute))"

definition ParseQuery ::
  "(string \<Rightarrow> time option) \<Rightarrow> (string \<Rightarrow> int option) \<Rightarrow> (string, string list) gomap \<Rightarrow> string \<Rightarrow> time \<Rightarrow> history_error + mh_query"
where
  "ParseQuery parse_rfc3339 parse_int32 values scope now =
    (if list_ex (\<lambda>(key, v). key \<notin> set [''source'', ''metric'', ''start'', ''end'', ''step'', ''container'', ''kind''] \<or>
          length v \<noteq> 1 \<or> list_ex (\<lambda>x. length x > 128) (take 1 v)) values then Inl HistoryInvalid
     else
      (let source = (if values_get values ''source'' \<noteq> '''' then values_get values ''source'' else ''local'');
           window = (if source = ''prometheus'' then 24 * hour else 15 * minute);
           metric = (if values_get values ''metric'' \<noteq> '''' then values_get values ''metric''
              else if source = ''prometheus'' \<or> scope = ''node'' then ''working-set'' else ''cgroup-charge'')
       in case parsed_instant parse_rfc3339 (values_get values ''end'') (now - now mod second) of
            None \<Rightarrow> Inl HistoryInvalid
          | Some end_at \<Rightarrow>
          (case parsed_instant parse_rfc3339 (values_get values ''start'') (end_at - window) of
             None \<Rightarrow> Inl HistoryInvalid
           | Some start_at \<Rightarrow>
             (let span = time_sub end_at start_at
              in if span < 0 then Inl HistoryInvalid
                 else if span > mh_MaxRange then Inl HistoryBounds
                 else case (if values_get values ''step'' = '''' then Some (default_step span)
                     else case parse_int32 (values_get values ''step'') of
                         None \<Rightarrow> None
                       | Some seconds \<Rightarrow> if seconds < 60 \<or> seconds > 3600 then None else Some (seconds * second)) of
                     None \<Rightarrow> Inl HistoryBounds
                   | Some step \<Rightarrow>
                     (let q = \<lparr>qy_Source = source, qy_Metric = metric, qy_Start = start_at, qy_End = end_at, qy_Step = step\<rparr>
                      in case query_Validate q now of Some e \<Rightarrow> Inl e | None \<Rightarrow> Inr q)))))"

subsection \<open>Facts about the grid and the summary\<close>

lemma grid_points_nth:
  assumes "0 < step"
  shows "grid_points t stop step = map (\<lambda>i. missing_point (t + step * int i)) [0 ..< nat ((stop - t) div step + 1)]"
  using assms
proof (induction t stop step rule: grid_points.induct)
  case (1 t stop step)
  show ?case
  proof (cases "t > stop")
    case True
    then have "(stop - t) div step < 0"
      using 1(2) by (simp add: div_neg_pos_less0)
    with True show ?thesis
      by (subst grid_points.simps) simp
  next
    case False
    define n where "n = nat ((stop - (t + step)) div step + 1)"
    have "(stop - (t + step)) div step = (stop - t) div step - 1"
      using 1(2) div_add_self2 [of step "stop - (t + step)"] by (simp add: algebra_simps)
    moreover have "0 \<le> (stop - t) div step"
      using False 1(2) by (simp add: pos_imp_zdiv_nonneg_iff)
    ultimately have n: "nat ((stop - t) div step + 1) = Suc n"
      by (simp add: n_def)
    have "grid_points t stop step = missing_point t # map (\<lambda>i. missing_point (t + step + step * int i)) [0 ..< n]"
      using False 1(2) by (subst grid_points.simps) (simp add: 1(1) n_def)
    also have "\<dots> = map (\<lambda>i. missing_point (t + step * int i)) [0 ..< Suc n]"
      unfolding upt_conv_Cons [OF zero_less_Suc] map_Suc_upt [symmetric] by (simp add: algebra_simps)
    finally show ?thesis
      by (simp only: n)
  qed
qed

lemma fold_pair: "fold (\<lambda>x (a, b). (f x a, g x b)) xs (a, b) = (fold f xs a, fold g xs b)"
  by (induction xs arbitrary: a b) simp_all

definition report_state :: "string list \<Rightarrow> string" where
  "report_state freshness =
    fold (\<lambda>f state. if f = ''fresh'' \<or> f = ''stale'' \<and> state = ''missing'' then f else state) freshness ''missing''"

lemma fold_partial:
  "fold (\<lambda>s c. if sr_Completeness s \<noteq> ''complete'' then ''partial'' else c) xs c0
    = (if list_ex (\<lambda>s. sr_Completeness s \<noteq> ''complete'') xs then ''partial'' else c0)"
  by (induction xs arbitrary: c0) auto

lemma summarise_series_fields [simp]:
  "sr_FreshFor (summarise_series received b s) = sr_FreshFor s" "sr_Points (summarise_series received b s) = sr_Points s"
  "sr_Target (summarise_series received b s) = sr_Target s"
  "sr_Freshness (summarise_series received b s) = series_freshness received (sr_FreshFor s) (sr_Points s)"
  by (simp_all add: summarise_series_def)

lemma Summarise_eq:
  "Summarise r b = r\<lparr>rp_Series := map (summarise_series (rp_ReceivedAt r) b) (rp_Series r),
     rp_State := report_state (map (\<lambda>s. series_freshness (rp_ReceivedAt r) (sr_FreshFor s) (sr_Points s)) (rp_Series r)),
     rp_Completeness := (if list_ex (\<lambda>s. sr_Completeness (summarise_series (rp_ReceivedAt r) b s) \<noteq> ''complete'') (rp_Series r)
       then ''partial'' else ''complete'')\<rparr>"
  by (simp add: Summarise_def Let_def fold_pair fold_partial report_state_def fold_map comp_def list_ex_iff
      cong: if_cong split: prod.split)

lemma report_state_cases: "set fs \<subseteq> {''missing'', ''fresh'', ''stale''} \<Longrightarrow> report_state fs \<in> {''missing'', ''fresh'', ''stale''}"
proof -
  have "fold (\<lambda>f state. if f = ''fresh'' \<or> f = ''stale'' \<and> state = ''missing'' then f else state) fs c
      \<in> {''missing'', ''fresh'', ''stale''}"
    if "set fs \<subseteq> {''missing'', ''fresh'', ''stale''}" "c \<in> {''missing'', ''fresh'', ''stale''}" for c
    using that by (induction fs arbitrary: c) auto
  then show "set fs \<subseteq> {''missing'', ''fresh'', ''stale''} \<Longrightarrow> ?thesis"
    by (simp add: report_state_def)
qed

lemma series_freshness_cases: "series_freshness received f ps \<in> {''missing'', ''fresh'', ''stale''}"
proof -
  have "fold (\<lambda>p f'. if pt_Bytes p = None then f'
      else if time_sub received (pt_SampledAt p) \<le> f then ''fresh'' else ''stale'') ps c \<in> {''missing'', ''fresh'', ''stale''}"
    if "c \<in> {''missing'', ''fresh'', ''stale''}" for c
    using that by (induction ps arbitrary: c) auto
  then show ?thesis
    by (simp add: series_freshness_def)
qed

text \<open>A summary validates against its own check, whether or not the provider was partial.\<close>

lemma Summarise_agrees:
  assumes "r' = Summarise r b"
  shows "rp_State r' = rp_State (Summarise r' False)" and "validCompleteness (rp_Completeness r')"
    and "rp_Completeness r' = ''complete'' \<Longrightarrow> rp_Completeness (Summarise r' False) = ''complete''"
    and "list_all2 (\<lambda>s c. sr_Freshness s = sr_Freshness c \<and> validCompleteness (sr_Completeness s) \<and>
      (sr_Completeness s = ''complete'' \<longrightarrow> sr_Completeness c = ''complete'')) (rp_Series r') (rp_Series (Summarise r' False))"
    and "rp_State r' \<in> {''missing'', ''fresh'', ''stale''}"
proof -
  show "rp_State r' = rp_State (Summarise r' False)"
    by (simp add: assms Summarise_eq comp_def)
  show "validCompleteness (rp_Completeness r')"
    by (simp add: assms Summarise_eq validCompleteness_def)
  show "rp_Completeness (Summarise r' False) = ''complete''" if "rp_Completeness r' = ''complete''"
    using that by (auto simp: assms Summarise_eq list_ex_iff summarise_series_def split: if_splits)
  show "list_all2 (\<lambda>s c. sr_Freshness s = sr_Freshness c \<and> validCompleteness (sr_Completeness s) \<and>
      (sr_Completeness s = ''complete'' \<longrightarrow> sr_Completeness c = ''complete'')) (rp_Series r') (rp_Series (Summarise r' False))"
    by (auto simp: assms Summarise_eq list_all2_conv_all_nth summarise_series_def validCompleteness_def)
  show "rp_State r' \<in> {''missing'', ''fresh'', ''stale''}"
    using report_state_cases [of "map (\<lambda>s. series_freshness (rp_ReceivedAt r) (sr_FreshFor s) (sr_Points s)) (rp_Series r)"]
      series_freshness_cases by (auto simp: assms Summarise_eq image_subset_iff)
qed

end
