(* ===== verification/Collector_History.thy ===== *)
theory Collector_History
  imports Store_Run Memory_History
begin

text \<open>
  The collector as a provider of memory history: \<open>collector/memory_history.go\<close> and
  \<open>memory_history_node.go\<close>. A query reads the retained Pod history, or the retained Node reports, into the
  grid of package \<open>memoryhistory\<close>. Reading prunes the history, so a query returns the next store. The
  clock reading and the cancellation of the context at each round of the loop are arguments.

  The lemmas: what the grid holds after retained samples are filled in, and that a report answered from
  retained evidence passes the validation clients apply to it.
\<close>

record retained_sample =
  rs_at :: time
  rs_bytes :: u64

subsection \<open>Filling the grid\<close>

text \<open>\<open>index\<close> only grows, so the loop keeps the samples from \<open>index\<close> on.\<close>

fun advance :: "time \<Rightarrow> retained_sample list \<Rightarrow> retained_sample list" where
  "advance t (a # b # samples) = (if \<not> rs_at b > t then advance t (b # samples) else a # b # samples)"
| "advance t samples = samples"

definition fill_point :: "duration \<Rightarrow> retained_sample list \<Rightarrow> mh_point \<Rightarrow> mh_point" where
  "fill_point continuity samples p =
    (case samples of [] \<Rightarrow> p
     | x # _ \<Rightarrow> if rs_at x > pt_At p \<or> time_sub (pt_At p) (rs_at x) > continuity then p
         else \<lparr>pt_At = pt_At p, pt_SampledAt = rs_at x, pt_Bytes = Some (rs_bytes x), pt_State = ''fresh''\<rparr>)"

fun fillRetained :: "retained_sample list \<Rightarrow> duration \<Rightarrow> mh_point list \<Rightarrow> mh_point list" where
  "fillRetained samples continuity [] = []"
| "fillRetained samples continuity (p # ps) =
    (let rest = advance (pt_At p) samples
     in fill_point continuity rest p # fillRetained rest continuity ps)"

subsection \<open>Retained samples\<close>

definition retainedPodMemory ::
  "store \<Rightarrow> mh_target \<Rightarrow> mh_query \<Rightarrow> time \<Rightarrow> (retained_sample list \<times> bool) \<times> store" where
  "retainedPodMemory s target q now =
    (let h = history_prune (st_history s) now; s1 = s\<lparr>st_history := h\<rparr>;
         key = historyKey (tg_Namespace target) (tg_Pod target) (tg_PodUID target) (tg_Node target)
     in case mget (hs_series h) key of
          None \<Rightarrow> (([], True), s1)
        | Some series \<Rightarrow>
          (let samples = map (\<lambda>p. \<lparr>rs_at = hp_CapturedAt p, rs_bytes = hp_TotalBytes p\<rparr>)
                 (filter (\<lambda>p. \<not> hp_CapturedAt p < tg_PodCreatedAt target) (ph_Points series));
               coverage = mget (hs_coverage h) key;
               lost = (coverage = None \<or> hs_resetAt h > qy_Start q \<or>
                 (case coverage of None \<Rightarrow> False
                  | Some c \<Rightarrow> cov_lastLossAt c > qy_Start q \<and> \<not> cov_lastLossAt c > qy_End q))
           in ((samples, lost), s1)))"

definition node_sample :: "store_lib \<Rightarrow> mh_query \<Rightarrow> mh_target \<Rightarrow> node_point \<Rightarrow> retained_sample option" where
  "node_sample L q target point =
    (case decodeNodeObservation L (pt_data point) of None \<Rightarrow> None | Some ob \<Rightarrow>
     case ob_Stats ob of None \<Rightarrow> None | Some stats \<Rightarrow>
     case ns_Memory stats of None \<Rightarrow> None | Some memory \<Rightarrow>
     case (if qy_Metric q = ''rss'' then nm_RSSBytes memory else nm_WorkingSetBytes memory) of None \<Rightarrow> None
     | Some bytes \<Rightarrow> if nm_CapturedAt memory < tg_StartedAt target then None
         else Some \<lparr>rs_at = nm_CapturedAt memory, rs_bytes = bytes\<rparr>)"

definition retainedNodeMemory ::
  "store_lib \<Rightarrow> store \<Rightarrow> mh_target \<Rightarrow> mh_query \<Rightarrow> time \<Rightarrow> (retained_sample list \<times> bool) \<times> store" where
  "retainedNodeMemory L s target q now =
    (let c = node_prune now (st_nodeContext s); s1 = s\<lparr>st_nodeContext := c\<rparr>
     in case mget (nc_history c) (tg_NodeUID target) of
          None \<Rightarrow> (([], True), s1)
        | Some series \<Rightarrow>
          if nx_name series \<noteq> tg_Node target then (([], True), s1)
          else ((List.map_filter (node_sample L q target) (nx_points series),
                 st_startedAt s1 > qy_Start q \<or> nc_lossAt c > qy_Start q \<and> \<not> nc_lossAt c > qy_End q), s1))"

subsection \<open>The query\<close>

definition unsupportedLocal :: "mh_report \<Rightarrow> mh_report" where
  "unsupportedLocal r = r\<lparr>rp_State := ''unsupported'', rp_Reason := ''local-metric-not-retained'', rp_Series := []\<rparr>"

definition unreported :: "mh_report \<Rightarrow> mh_report" where
  "unreported r = (if rp_State r = ''missing'' then r\<lparr>rp_Reason := ''local-history-unreported''\<rparr> else r)"

text \<open>\<open>nodeHistory\<close>. A validated selection of a Node has one target, and so the report has one series.\<close>

definition nodeHistory :: "store_lib \<Rightarrow> bool \<Rightarrow> mh_report \<Rightarrow> store \<Rightarrow> (history_error + mh_report) \<times> store" where
  "nodeHistory L cancelled r s =
    (if qy_Metric (rp_Query r) = ''cgroup-charge'' then (Inr (unsupportedLocal r), s)
     else if \<not> st_nodeContextEnabled s then
       (Inr (r\<lparr>rp_State := ''disabled'', rp_Reason := ''local-node-source-disabled'', rp_Series := []\<rparr>), s)
     else if cancelled then (Inl HistoryContext, s)
     else
      (let target = hd (sl_Targets (rp_Selection r));
           ((samples, lost), s1) = retainedNodeMemory L s target (rp_Query r) (rp_ReceivedAt r);
           freshFor = min StaleAfter SampleMaxAge;
           fill = (\<lambda>x. x\<lparr>sr_Origin := ''kubelet-summary'', sr_SampleClock := ''kubelet-sample'', sr_FreshFor := freshFor,
             sr_Points := fillRetained samples freshFor (sr_Points x)\<rparr>);
           filled = r\<lparr>rp_Series := (case rp_Series r of [] \<Rightarrow> [] | x # xs \<Rightarrow> fill x # xs)\<rparr>
       in (Inr (unreported (Summarise filled lost)), s1)))"

text \<open>The series of one Pod.\<close>

definition pod_series :: "history_options \<Rightarrow> retained_sample list \<Rightarrow> mh_series \<Rightarrow> mh_series" where
  "pod_series opts samples x =
    (let freshFor = min (ho_ContinuityGap opts) SampleMaxAge
     in x\<lparr>sr_Target := pod_target (sr_Target x), sr_Origin := ''cgroup-v2'', sr_SampleClock := ''collector-capture'',
          sr_FreshFor := freshFor, sr_Points := fillRetained samples freshFor (sr_Points x)\<rparr>)"

text \<open>
  The loop over the series of the empty report: containers of one Pod share a series. \<open>i\<close> counts the
  iterations, for the context that each of them reads.
\<close>

fun pod_loop ::
  "(nat \<Rightarrow> bool) \<Rightarrow> mh_query \<Rightarrow> time \<Rightarrow> nat \<Rightarrow> string list \<Rightarrow> mh_series list \<Rightarrow> store \<Rightarrow>
    (history_error + (mh_series list \<times> bool)) \<times> store" where
  "pod_loop cancelled q now i seen [] s = (Inr ([], False), s)"
| "pod_loop cancelled q now i seen (x # xs) s =
    (let target = sr_Target x;
         key = historyKey (tg_Namespace target) (tg_Pod target) (tg_PodUID target) (tg_Node target)
     in if cancelled i then (Inl HistoryContext, s)
        else if key \<in> set seen then pod_loop cancelled q now (Suc i) seen xs s
        else if is_zero_time (tg_PodCreatedAt target) then (Inl HistoryChanged, s)
        else
         (let ((samples, lost), s1) = retainedPodMemory s (pod_target target) q now
          in case pod_loop cancelled q now (Suc i) (key # seen) xs s1 of
               (Inl e, s2) \<Rightarrow> (Inl e, s2)
             | (Inr (rest, partial), s2) \<Rightarrow>
                 (Inr (pod_series (hs_opts (st_history s1)) samples x # rest, lost \<or> partial), s2)))"

definition Query ::
  "store_lib \<Rightarrow> kube_names \<Rightarrow> (nat \<Rightarrow> bool) \<Rightarrow> mh_selection \<Rightarrow> mh_query \<Rightarrow> time \<Rightarrow> store \<Rightarrow> (history_error + mh_report) \<times> store"
where
  "Query L N cancelled sel q now s =
    (case NewReport N sel q now of
       Inl e \<Rightarrow> (Inl e, s)
     | Inr r \<Rightarrow>
        if qy_Source q \<noteq> ''local'' then (Inr (unsupportedLocal r), s)
        else if re_Scope (sl_Request sel) = ''container'' then (Inr (unsupportedLocal r), s)
        else if re_Scope (sl_Request sel) = ''node'' then nodeHistory L (cancelled 0) r s
        else if qy_Metric q \<noteq> ''cgroup-charge'' then (Inr (unsupportedLocal r), s)
        else case pod_loop cancelled q now 0 [] (rp_Series r) s of
            (Inl e, s1) \<Rightarrow> (Inl e, s1)
          | (Inr (series, partial), s1) \<Rightarrow> (Inr (unreported (Summarise (r\<lparr>rp_Series := series\<rparr>) partial)), s1))"

subsection \<open>Filled grids\<close>

lemma set_advance: "set (advance t samples) \<subseteq> set samples"
  by (induction t samples rule: advance.induct) auto

text \<open>What a point of a filled grid is: the missing point, or a retained sample that is not too old for it.\<close>

definition filled_by :: "retained_sample list \<Rightarrow> duration \<Rightarrow> mh_point \<Rightarrow> mh_point \<Rightarrow> bool" where
  "filled_by samples continuity p p' \<longleftrightarrow> p' = p \<or> (\<exists>x \<in> set samples. rs_at x \<le> pt_At p \<and>
     \<not> time_sub (pt_At p) (rs_at x) > continuity \<and>
     p' = \<lparr>pt_At = pt_At p, pt_SampledAt = rs_at x, pt_Bytes = Some (rs_bytes x), pt_State = ''fresh''\<rparr>)"

lemma filled_by_mono: "set rest \<subseteq> set samples \<Longrightarrow> filled_by rest continuity p p' \<Longrightarrow> filled_by samples continuity p p'"
  unfolding filled_by_def by blast

lemma fillRetained_points: "list_all2 (filled_by samples continuity) ps (fillRetained samples continuity ps)"
proof (induction samples continuity ps rule: fillRetained.induct)
  case (2 samples continuity p ps)
  define rest where "rest = advance (pt_At p) samples"
  have sub: "set rest \<subseteq> set samples"
    unfolding rest_def by (rule set_advance)
  have "filled_by samples continuity p (fill_point continuity rest p)"
    using sub by (cases rest) (auto simp: filled_by_def fill_point_def)
  moreover have "list_all2 (filled_by samples continuity) ps (fillRetained rest continuity ps)"
    using 2 [OF rest_def] filled_by_mono [OF sub] by (rule list_all2_mono)
  ultimately show ?case
    by (simp add: rest_def [symmetric] Let_def)
qed simp

text \<open>A grid of missing points, filled with samples taken since the target started, validates.\<close>

lemma filled_series_ok:
  assumes "query_Validate (rp_Query r) now = None"
    and "sr_Source x = qy_Source (rp_Query r)" "sr_Metric x = qy_Metric (rp_Query r)" "sr_Resolution x = qy_Step (rp_Query r)"
    and "(sr_Origin x, sr_SampleClock x) = expected_origin r" and "0 < sr_FreshFor x" "sr_FreshFor x \<le> SampleMaxAge"
    and "sr_Source x = ''local''"
    and "sr_Points x = fillRetained samples (sr_FreshFor x) (grid_points (qy_Start (rp_Query r)) (qy_End (rp_Query r)) (qy_Step (rp_Query r)))"
    and "\<And>p. p \<in> set samples \<Longrightarrow> 0 < rs_at p \<and> tg_StartedAt (sr_Target x) \<le> rs_at p"
  shows "mh_series_ok r x"
proof -
  let ?q = "rp_Query r"
  let ?grid = "grid_points (qy_Start ?q) (qy_End ?q) (qy_Step ?q)"
  have step: "0 < qy_Step ?q"
    using assms(1) by (auto simp: query_Validate_def mh_MinStep_def go_simps split: if_splits)
  have span: "qy_Start ?q \<le> qy_End ?q" "time_sub (qy_End ?q) (qy_Start ?q) = qy_End ?q - qy_Start ?q"
  proof -
    show "qy_Start ?q \<le> qy_End ?q"
      using assms(1) by (auto simp: query_Validate_def split: if_splits)
    moreover have "time_sub (qy_End ?q) (qy_Start ?q) \<le> mh_MaxRange"
      using assms(1) by (auto simp: query_Validate_def split: if_splits)
    ultimately show "time_sub (qy_End ?q) (qy_Start ?q) = qy_End ?q - qy_Start ?q"
      by (auto simp: time_sub_def sat64_def mh_MaxRange_def hour_def go_simps split: if_splits)
  qed
  have points: "list_all2 (filled_by samples (sr_FreshFor x)) ?grid (sr_Points x)"
    unfolding assms(9) by (rule fillRetained_points)
  have len: "length (sr_Points x) = nat ((qy_End ?q - qy_Start ?q) div qy_Step ?q + 1)"
    using list_all2_lengthD [OF points] by (simp add: grid_points_nth [OF step])
  have "0 \<le> (qy_End ?q - qy_Start ?q) div qy_Step ?q"
    using span(1) step by (simp add: pos_imp_zdiv_nonneg_iff)
  then have count: "int (length (sr_Points x)) = time_sub (qy_End ?q) (qy_Start ?q) div qy_Step ?q + 1"
    by (simp add: len span(2))
  have "mh_point_ok r x i (sr_Points x ! i)" if i: "i < length (sr_Points x)" for i
  proof -
    have "?grid ! i = missing_point (qy_Start ?q + qy_Step ?q * int i)"
      using i by (simp add: grid_points_nth [OF step] len)
    moreover have "filled_by samples (sr_FreshFor x) (?grid ! i) (sr_Points x ! i)"
      using points i by (simp add: list_all2_conv_all_nth)
    ultimately consider "sr_Points x ! i = missing_point (qy_Start ?q + qy_Step ?q * int i)"
      | p where "p \<in> set samples" "rs_at p \<le> qy_Start ?q + qy_Step ?q * int i"
          "\<not> time_sub (qy_Start ?q + qy_Step ?q * int i) (rs_at p) > sr_FreshFor x"
          "sr_Points x ! i = \<lparr>pt_At = qy_Start ?q + qy_Step ?q * int i, pt_SampledAt = rs_at p, pt_Bytes = Some (rs_bytes p),
             pt_State = ''fresh''\<rparr>"
      by (auto simp: filled_by_def missing_point_def)
    then show ?thesis
    proof cases
      case 1
      with assms(4) show ?thesis
        by (simp add: mh_point_ok_def missing_point_def)
    next
      case 2
      with assms(4) assms(10) [OF 2(1)] show ?thesis
        by (simp add: mh_point_ok_def)
    qed
  qed
  then have "list_all (\<lambda>(i, p). mh_point_ok r x i p) (enumerate 0 (sr_Points x))"
    by (auto simp: list_all_iff in_set_enumerate_eq)
  with count assms show ?thesis
    by (auto simp: mh_series_ok_def)
qed

lemma all_series_okI:
  assumes "distinct (map sr_Target ss)" and "\<And>x. x \<in> set ss \<Longrightarrow> sr_Target x \<in> set expected \<and> mh_series_ok r x"
  shows "all_series_ok r expected ss"
  using assms
proof (induction r expected ss rule: all_series_ok.induct)
  case (2 r expected s ss)
  have "sr_Target x \<noteq> sr_Target s" if "x \<in> set ss" for x
    using 2(2) imageI [OF that, of sr_Target] by auto
  with 2 show ?case
    by auto
qed simp

lemma series_ok_report:
  "rp_Query r' = rp_Query r \<Longrightarrow> rp_Selection r' = rp_Selection r \<Longrightarrow> mh_series_ok r' x = mh_series_ok r x"
  by (simp add: mh_series_ok_def mh_point_ok_def [abs_def] expected_origin_def)

lemma series_ok_summarised [simp]: "mh_series_ok r (summarise_series received b x) = mh_series_ok r x"
  by (simp add: mh_series_ok_def mh_point_ok_def [abs_def] summarise_series_def)

text \<open>A summarised report validates if its series do and are those the selection expects.\<close>

lemma summarised_report_validates:
  assumes "selection_Validate N (rp_Selection r) = None" "query_Validate (rp_Query r) (rp_ReceivedAt r) = None"
    and "sl_ResolvedAt (rp_Selection r) \<le> rp_ReceivedAt r" "rp_SchemaVersion r = 1" "rp_Reason r = ''''"
    and "expected_targets r (sl_Targets (rp_Selection r)) = Some expected" "distinct expected"
    and "distinct (map sr_Target (rp_Series r))" "sr_Target ` set (rp_Series r) = set expected"
    and "\<And>x. x \<in> set (rp_Series r) \<Longrightarrow> mh_series_ok r x"
  shows "report_Validate N (unreported (Summarise r lost)) = None"
proof -
  define r' where "r' = unreported (Summarise r lost)"
  have fields: "rp_Selection r' = rp_Selection r" "rp_Query r' = rp_Query r" "rp_ReceivedAt r' = rp_ReceivedAt r"
      "rp_SchemaVersion r' = 1" "rp_Series r' = map (summarise_series (rp_ReceivedAt r) lost) (rp_Series r)"
      "rp_State r' = rp_State (Summarise r lost)" "rp_Completeness r' = rp_Completeness (Summarise r lost)"
      "rp_Reason r' = '''' \<or> rp_Reason r' = ''local-history-unreported''"
    using assms(4,5) by (auto simp: r'_def unreported_def Summarise_eq)
  have again: "Summarise r' False = Summarise (Summarise r lost) False \<or>
      Summarise r' False = (Summarise (Summarise r lost) False)\<lparr>rp_Reason := ''local-history-unreported''\<rparr>"
    by (auto simp: r'_def unreported_def Summarise_eq)
  then have check: "rp_State (Summarise r' False) = rp_State (Summarise (Summarise r lost) False)"
      "rp_Completeness (Summarise r' False) = rp_Completeness (Summarise (Summarise r lost) False)"
      "rp_Series (Summarise r' False) = rp_Series (Summarise (Summarise r lost) False)"
    by auto
  have "local_pods r' = local_pods r"
    by (simp add: local_pods_def fields)
  then have "expected_targets r' ts = expected_targets r ts" for ts
    by (induction ts) (auto simp: fields)
  then have expected: "expected_targets r' (sl_Targets (rp_Selection r')) = Some expected"
    using assms(6) by (simp add: fields)
  have "all_series_ok r' expected (rp_Series r')"
    using assms(8,9,10) series_ok_report [OF fields(2,1)] by (intro all_series_okI) (auto simp: fields comp_def)
  moreover have "length (rp_Series r') = length expected"
    using assms(7-9) by (metis distinct_card fields(5) length_map set_map)
  moreover have "rp_Series r' = rp_Series (Summarise r lost)"
    by (simp add: fields(5) Summarise_eq)
  then have agree: "rp_State r' = rp_State (Summarise r' False)" "validCompleteness (rp_Completeness r')"
      "\<not> (rp_Completeness r' = ''complete'' \<and> rp_Completeness (Summarise r' False) \<noteq> ''complete'')"
      "list_all2 (\<lambda>s c. sr_Freshness s = sr_Freshness c \<and> validCompleteness (sr_Completeness s) \<and>
        (sr_Completeness s = ''complete'' \<longrightarrow> sr_Completeness c = ''complete'')) (rp_Series r') (rp_Series (Summarise r' False))"
      "rp_State r' \<notin> {''unsupported'', ''disabled''}"
    using Summarise_agrees [OF refl, of r lost] by (simp_all only: fields(6,7) check) auto
  moreover have "rp_Reason r' \<in> set known_reasons"
    using fields(8) by (auto simp: known_reasons_def)
  moreover have "rp_SchemaVersion r' = 1" "selection_Validate N (rp_Selection r') = None"
      "query_Validate (rp_Query r') (rp_ReceivedAt r') = None" "\<not> rp_ReceivedAt r' < sl_ResolvedAt (rp_Selection r')"
    using assms(1-3) by (simp_all add: fields)
  ultimately show ?thesis
    unfolding r'_def [symmetric] report_Validate_def Let_def by (simp add: expected)
qed

subsection \<open>The series of a query\<close>

lemma expected_targets_Some:
  assumes "\<And>t. t \<in> set ts \<Longrightarrow> local_pods r \<Longrightarrow> qy_Metric (rp_Query r) = ''cgroup-charge'' \<and>
      re_Scope (sl_Request (rp_Selection r)) \<noteq> ''container'' \<and> tg_PodCreatedAt t \<noteq> 0"
  shows "\<exists>es. expected_targets r ts = Some es \<and> distinct es \<and> set es = (\<lambda>t. if local_pods r then pod_target t else t) ` set ts"
  using assms
proof (induction ts)
  case (Cons t ts)
  then obtain es where "expected_targets r ts = Some es" "distinct es" "set es = (\<lambda>t. if local_pods r then pod_target t else t) ` set ts"
    by fastforce
  with Cons.prems [of t] show ?case
    by (auto simp: distinct_insert)
qed simp

definition pod_key :: "mh_target \<Rightarrow> string" where
  "pod_key t = historyKey (tg_Namespace t) (tg_Pod t) (tg_PodUID t) (tg_Node t)"

lemma pod_target_fields [simp]:
  "pod_key (pod_target t) = pod_key t" "tg_PodCreatedAt (pod_target t) = tg_PodCreatedAt t"
  "tg_StartedAt (pod_target t) = tg_PodCreatedAt t"
  by (simp_all add: pod_key_def pod_target_def)

text \<open>Targets that name one Pod instance on one Node describe the same Pod.\<close>

definition pods_agree :: "mh_target list \<Rightarrow> bool" where
  "pods_agree ts \<longleftrightarrow> (\<forall>t \<in> set ts. \<forall>u \<in> set ts. pod_key t = pod_key u \<longrightarrow> pod_target t = pod_target u)"

lemma retainedPodMemory_samples:
  assumes "retainedPodMemory s target q now = ((samples, lost), s1)"
  shows "st_history s1 = history_prune (st_history s) now" and "\<And>p. p \<in> set samples \<Longrightarrow> tg_PodCreatedAt target \<le> rs_at p"
  using assms by (auto simp: retainedPodMemory_def Let_def split: option.splits)

lemma retainedNodeMemory_samples:
  assumes "retainedNodeMemory L s target q now = ((samples, lost), s1)" and "p \<in> set samples"
  shows "tg_StartedAt target \<le> rs_at p"
proof -
  have "tg_StartedAt target \<le> rs_at x" if "node_sample L q target point = Some x" for point x
    using that by (auto simp: node_sample_def split: option.splits if_splits)
  moreover have "\<exists>point. node_sample L q target point = Some p"
    using assms unfolding retainedNodeMemory_def Let_def
    by (simp split: option.splits if_splits) (auto simp: List.map_filter_def, blast+)
  ultimately show ?thesis
    by blast
qed

lemma pod_loop_seen:
  "pod_key (sr_Target x) \<in> set seen \<Longrightarrow> pod_loop cancelled q now i seen (x # xs) s =
    (if cancelled i then (Inl HistoryContext, s) else pod_loop cancelled q now (Suc i) seen xs s)"
  by (simp add: pod_key_def Let_def)

lemma pod_loop_new:
  "pod_key (sr_Target x) \<notin> set seen \<Longrightarrow> retainedPodMemory s (pod_target (sr_Target x)) q now = ((samples, lost), s1) \<Longrightarrow>
    pod_loop cancelled q now i seen (x # xs) s =
      (if cancelled i then (Inl HistoryContext, s) else if tg_PodCreatedAt (sr_Target x) = 0 then (Inl HistoryChanged, s)
       else case pod_loop cancelled q now (Suc i) (pod_key (sr_Target x) # seen) xs s1 of
          (Inl e, s2) \<Rightarrow> (Inl e, s2)
        | (Inr (rest, partial), s2) \<Rightarrow> (Inr (pod_series (hs_opts (st_history s1)) samples x # rest, lost \<or> partial), s2))"
  by (simp add: pod_key_def Let_def)

lemma pod_loop_series:
  assumes "pod_loop cancelled (rp_Query r) now i seen (map (empty_series (rp_Query r)) ts) s = (Inr (series, partial), s')"
    and "history_opts_ok (hs_opts (st_history s))" and "\<And>t. t \<in> set ts \<Longrightarrow> 0 \<le> tg_PodCreatedAt t" and "pods_agree ts"
    and "query_Validate (rp_Query r) now = None" and "qy_Source (rp_Query r) = ''local''"
    and "re_Scope (sl_Request (rp_Selection r)) \<noteq> ''node''"
  shows "sr_Target ` set series = pod_target ` {t \<in> set ts. pod_key t \<notin> set seen} \<and> distinct (map sr_Target series) \<and>
    (\<forall>x \<in> set series. tg_PodCreatedAt (sr_Target x) \<noteq> 0 \<and> mh_series_ok r x)"
  using assms
proof (induction ts arbitrary: i seen s series partial)
  case (Cons t ts)
  let ?x = "empty_series (rp_Query r) t"
  have target: "sr_Target ?x = t"
    by (simp add: empty_series_def)
  have agree: "pods_agree ts"
    using Cons.prems(4) unfolding pods_agree_def by (meson list.set_intros(2))
  show ?case
  proof (cases "pod_key t \<in> set seen")
    case True
    then have "pod_loop cancelled (rp_Query r) now (Suc i) seen (map (empty_series (rp_Query r)) ts) s = (Inr (series, partial), s')"
      using Cons.prems(1) by (simp add: target pod_loop_seen del: pod_loop.simps split: if_splits)
    moreover have "{u \<in> set (t # ts). pod_key u \<notin> set seen} = {u \<in> set ts. pod_key u \<notin> set seen}"
      using True by auto
    ultimately show ?thesis
      using Cons.IH [OF _ Cons.prems(2) _ agree Cons.prems(5-7)] Cons.prems(3) by simp
  next
    case False
    obtain samples lost s1 where samples: "retainedPodMemory s (pod_target t) (rp_Query r) now = ((samples, lost), s1)"
      by (metis prod.collapse)
    have opts: "hs_opts (st_history s1) = hs_opts (st_history s)"
      by (simp add: retainedPodMemory_samples(1) [OF samples])
    have new: "pod_key (sr_Target ?x) \<notin> set seen" "retainedPodMemory s (pod_target (sr_Target ?x)) (rp_Query r) now = ((samples, lost), s1)"
      using False samples by (simp_all add: target)
    from Cons.prems(1) have created: "tg_PodCreatedAt t \<noteq> 0"
      by (simp add: pod_loop_new [OF new] target del: pod_loop.simps split: if_splits)
    from Cons.prems(1) obtain rest partial' where
        rest: "pod_loop cancelled (rp_Query r) now (Suc i) (pod_key t # seen) (map (empty_series (rp_Query r)) ts) s1 = (Inr (rest, partial'), s')"
      and series: "series = pod_series (hs_opts (st_history s)) samples ?x # rest"
      by (simp add: pod_loop_new [OF new] target opts del: pod_loop.simps split: if_splits prod.splits sum.splits)
    have IH: "sr_Target ` set rest = pod_target ` {u \<in> set ts. pod_key u \<notin> set (pod_key t # seen)}" "distinct (map sr_Target rest)"
        "\<forall>x \<in> set rest. tg_PodCreatedAt (sr_Target x) \<noteq> 0 \<and> mh_series_ok r x"
      using Cons.IH [OF rest _ _ agree] Cons.prems(2,3,5-7) opts by auto
    let ?y = "pod_series (hs_opts (st_history s)) samples ?x"
    have y: "sr_Target ?y = pod_target t"
      by (simp add: pod_series_def Let_def target)
    have "mh_series_ok r ?y"
    proof (rule filled_series_ok [OF Cons.prems(5)])
      show "0 < rs_at p \<and> tg_StartedAt (sr_Target ?y) \<le> rs_at p" if "p \<in> set samples" for p
        using retainedPodMemory_samples(2) [OF samples that] created Cons.prems(3) [of t] by (simp add: y)
      show "sr_Points ?y = fillRetained samples (sr_FreshFor ?y)
          (grid_points (qy_Start (rp_Query r)) (qy_End (rp_Query r)) (qy_Step (rp_Query r)))"
        by (simp add: pod_series_def empty_series_def Let_def)
    qed (use Cons.prems(2,6,7) in \<open>simp_all add: pod_series_def empty_series_def expected_origin_def history_opts_ok_def
        SampleMaxAge_def go_simps Let_def\<close>)
    moreover have "pod_target t \<notin> sr_Target ` set rest"
      using IH(1) by (auto simp: image_iff) (metis pod_target_fields(1))
    moreover have "pod_target ` {u \<in> set (t # ts). pod_key u \<notin> set seen} = insert (pod_target t) (sr_Target ` set rest)"
    proof -
      have "pod_target u = pod_target t" if "u \<in> set ts" "pod_key u = pod_key t" for u
        using Cons.prems(4) that unfolding pods_agree_def by (meson list.set_intros)
      then show ?thesis
        unfolding IH(1) using False by (auto simp: image_iff)
    qed
    ultimately show ?thesis
      using IH(2,3) created by (simp add: series y)
  qed
qed simp

subsection \<open>A query is a run of the store\<close>

lemma retained_prunes:
  "snd (retainedPodMemory s target q now) = snd (ListPodHistory s namespace podName nodeName now)"
  "snd (retainedNodeMemory L s target q now) = snd (NodeContextDebug s now)"
  by (simp_all add: retainedPodMemory_def retainedNodeMemory_def ListPodHistory_def history_list_def NodeContextDebug_def
      Let_def split: option.split prod.split)

text \<open>The store after a query is one that the steps reach: a query only prunes.\<close>

lemma pod_loop_run:
  assumes "T \<le> now"
  shows "\<exists>T'. T \<le> T' \<and> T' \<le> now \<and> (store_step L)\<^sup>*\<^sup>* (T, s) (T', snd (pod_loop cancelled q now i seen xs s))"
  using assms
proof (induction xs arbitrary: i seen s T)
  case (Cons x xs)
  show ?case
  proof (cases "pod_key (sr_Target x) \<in> set seen")
    case True
    with Cons show ?thesis
      by (auto simp: pod_loop_seen simp del: pod_loop.simps)
  next
    case False
    obtain samples lost s1 where samples: "retainedPodMemory s (pod_target (sr_Target x)) q now = ((samples, lost), s1)"
      by (metis prod.collapse)
    have "s1 = snd (ListPodHistory s '''' '''' '''' now)"
      using retained_prunes(1) samples by (metis snd_conv)
    then have "store_step L (T, s) (now, s1)"
      using pod_history [OF Cons.prems] by metis
    moreover obtain T' where "now \<le> T'" "T' \<le> now"
        "(store_step L)\<^sup>*\<^sup>* (now, s1) (T', snd (pod_loop cancelled q now (Suc i) (pod_key (sr_Target x) # seen) xs s1))"
      using Cons.IH [where T = now and i = "Suc i" and seen = "pod_key (sr_Target x) # seen" and s = s1] by blast
    ultimately have "(store_step L)\<^sup>*\<^sup>* (T, s) (now, snd (pod_loop cancelled q now (Suc i) (pod_key (sr_Target x) # seen) xs s1))"
      by (metis converse_rtranclp_into_rtranclp order_antisym)
    with Cons.prems show ?thesis
      by (auto simp: pod_loop_new [OF False samples] simp del: pod_loop.simps split: prod.split sum.split)
  qed
qed auto

lemma Query_run:
  assumes "T \<le> now"
  shows "\<exists>T'. T \<le> T' \<and> T' \<le> now \<and> (store_step L)\<^sup>*\<^sup>* (T, s) (T', snd (Query L N cancelled sel q now s))"
proof (cases "NewReport N sel q now")
  case (Inr r)
  have rp: "rp_ReceivedAt r = now"
    using Inr by (auto simp: NewReport_def split: option.splits)
  obtain samples lost s1 where samples: "retainedNodeMemory L s (hd (sl_Targets (rp_Selection r))) (rp_Query r) now = ((samples, lost), s1)"
    by (metis prod.collapse)
  have "s1 = snd (NodeContextDebug s now)"
    using retained_prunes(2) samples by (metis snd_conv)
  then have "(store_step L)\<^sup>*\<^sup>* (T, s) (now, s1)"
    using node_debug [OF assms] by (metis r_into_rtranclp)
  then have "snd (nodeHistory L (cancelled 0) r s) \<in> {s, s1} \<and> (store_step L)\<^sup>*\<^sup>* (T, s) (now, s1)"
    by (auto simp: nodeHistory_def rp samples Let_def)
  then show ?thesis
    using assms pod_loop_run [OF assms, of L s cancelled q 0 "[]" "rp_Series r"] Inr
    by (auto simp: Query_def split: sum.splits prod.splits)
qed (use assms in \<open>auto simp: Query_def\<close>)

subsection \<open>Answers validate\<close>

lemma SampleMaxAge_pos: "0 < SampleMaxAge"
  by (simp add: SampleMaxAge_def go_simps)

lemma StaleAfter_pos: "0 < StaleAfter"
  by (simp add: StaleAfter_def go_simps)

lemma unsupported_validates:
  assumes "NewReport N sel q now = Inr r" and "sl_ResolvedAt sel \<le> now"
  shows "report_Validate N (unsupportedLocal r) = None"
  using assms by (auto simp: NewReport_def report_Validate_def unsupportedLocal_def known_reasons_def split: option.splits)

lemma disabled_validates:
  assumes "NewReport N sel q now = Inr r" and "sl_ResolvedAt sel \<le> now" and "qy_Source q = ''local''"
    and "re_Scope (sl_Request sel) = ''node''"
  shows "report_Validate N (r\<lparr>rp_State := ''disabled'', rp_Reason := ''local-node-source-disabled'', rp_Series := []\<rparr>) = None"
  using assms by (auto simp: NewReport_def report_Validate_def known_reasons_def split: option.splits)

lemma one_target:
  assumes "selection_Validate N sel = None" and "re_Scope (sl_Request sel) = ''node''"
  obtains t where "sl_Targets sel = [t]"
proof -
  have "sl_Targets sel \<noteq> []" and "targets_ok N sel [] (sl_Targets sel)"
    using assms(1) by (auto simp: selection_Validate_def split: if_splits)
  then have "length (sl_Targets sel) = 1"
    using assms(2) by (cases "sl_Targets sel") (auto simp: mh_target_ok_def)
  then show ?thesis
    using that by (auto simp: length_Suc_conv)
qed

lemma nodeHistory_validates:
  assumes "NewReport N sel q now = Inr r0" and "sl_ResolvedAt sel \<le> now" and "qy_Source q = ''local''"
    and "re_Scope (sl_Request sel) = ''node''" and "\<And>t. t \<in> set (sl_Targets sel) \<Longrightarrow> 0 < tg_StartedAt t"
    and "nodeHistory L cancelled r0 s = (Inr r, s')"
  shows "report_Validate N r = None"
proof -
  have valid: "selection_Validate N sel = None" "query_Validate q now = None"
      and r0: "r0 = \<lparr>rp_SchemaVersion = 1, rp_Selection = sel, rp_Query = q, rp_ReceivedAt = now, rp_State = ''missing'',
        rp_Completeness = ''partial'', rp_Reason = '''', rp_Series = map (empty_series q) (sl_Targets sel)\<rparr>"
    using assms(1) by (auto simp: NewReport_def split: option.splits)
  obtain t where t: "sl_Targets sel = [t]"
    using one_target [OF valid(1) assms(4)] by blast
  obtain samples lost s1 where samples: "retainedNodeMemory L s t q now = ((samples, lost), s1)"
    by (metis prod.collapse)
  let ?x = "(empty_series q t)\<lparr>sr_Origin := ''kubelet-summary'', sr_SampleClock := ''kubelet-sample'',
      sr_FreshFor := min StaleAfter SampleMaxAge,
      sr_Points := fillRetained samples (min StaleAfter SampleMaxAge) (sr_Points (empty_series q t))\<rparr>"
  let ?r = "r0\<lparr>rp_Series := [?x]\<rparr>"
  consider "r = unsupportedLocal r0"
    | "r = r0\<lparr>rp_State := ''disabled'', rp_Reason := ''local-node-source-disabled'', rp_Series := []\<rparr>"
    | "r = unreported (Summarise ?r lost)"
    using assms(6) samples by (auto simp: nodeHistory_def r0 t Let_def split: if_splits)
  then show ?thesis
  proof cases
    case 1
    with unsupported_validates [OF assms(1,2)] show ?thesis
      by simp
  next
    case 2
    with disabled_validates [OF assms(1-4)] show ?thesis
      by simp
  next
    case 3
    have "mh_series_ok ?r ?x"
    proof (rule filled_series_ok)
      show "0 < rs_at p \<and> tg_StartedAt (sr_Target ?x) \<le> rs_at p" if "p \<in> set samples" for p
        using retainedNodeMemory_samples [OF samples that] assms(5) [of t] by (simp add: t empty_series_def)
      show "0 < sr_FreshFor ?x"
        by (simp add: SampleMaxAge_pos StaleAfter_pos)
    qed (use assms(3,4) valid in \<open>simp_all add: r0 empty_series_def expected_origin_def\<close>)
    then show ?thesis
      unfolding 3 using valid assms(2,4)
      by (intro summarised_report_validates [where expected = "[t]"]) (simp_all add: r0 t local_pods_def empty_series_def)
  qed
qed

lemma podHistory_validates:
  assumes "NewReport N sel q now = Inr r0" and "sl_ResolvedAt sel \<le> now" and "qy_Source q = ''local''"
    and "re_Scope (sl_Request sel) \<notin> {''node'', ''container''}" and "qy_Metric q = ''cgroup-charge''"
    and "\<And>t. t \<in> set (sl_Targets sel) \<Longrightarrow> 0 \<le> tg_PodCreatedAt t" and "pods_agree (sl_Targets sel)"
    and "history_opts_ok (hs_opts (st_history s))" and "pod_loop cancelled q now 0 [] (rp_Series r0) s = (Inr (series, lost), s')"
  shows "report_Validate N (unreported (Summarise (r0\<lparr>rp_Series := series\<rparr>) lost)) = None"
proof -
  have valid: "selection_Validate N sel = None" "query_Validate q now = None"
      and r0: "r0 = \<lparr>rp_SchemaVersion = 1, rp_Selection = sel, rp_Query = q, rp_ReceivedAt = now, rp_State = ''missing'',
        rp_Completeness = ''partial'', rp_Reason = '''', rp_Series = map (empty_series q) (sl_Targets sel)\<rparr>"
    using assms(1) by (auto simp: NewReport_def split: option.splits)
  let ?r = "r0\<lparr>rp_Series := series\<rparr>"
  have series: "sr_Target ` set series = pod_target ` set (sl_Targets sel)" "distinct (map sr_Target series)"
      "\<forall>x \<in> set series. tg_PodCreatedAt (sr_Target x) \<noteq> 0 \<and> mh_series_ok ?r x"
    using pod_loop_series [where r = ?r, of cancelled now 0 "[]" "sl_Targets sel" s series lost s'] assms valid(2)
    by (simp_all add: r0)
  have created: "tg_PodCreatedAt t \<noteq> 0" if "t \<in> set (sl_Targets sel)" for t
    using series(1,3) that by (metis imageE imageI pod_target_fields(2))
  have "local_pods ?r"
    using assms(3,4) by (simp add: local_pods_def r0)
  then obtain es where "expected_targets ?r (sl_Targets sel) = Some es" "distinct es" "set es = pod_target ` set (sl_Targets sel)"
    using expected_targets_Some [of "sl_Targets sel" ?r] created assms(4,5) by (auto simp: r0)
  then show ?thesis
    using series valid assms(2)
    by (intro summarised_report_validates [where expected = es]) (simp_all add: r0)
qed

lemma Query_validates:
  assumes "history_opts_ok (hs_opts (st_history s))" and "fst (Query L N cancelled sel q now s) = Inr r"
    and "sl_ResolvedAt sel \<le> now" and "pods_agree (sl_Targets sel)"
    and "\<And>t. t \<in> set (sl_Targets sel) \<Longrightarrow> 0 \<le> tg_PodCreatedAt t \<and> 0 < tg_StartedAt t"
  shows "report_Validate N r = None"
proof -
  obtain r0 where r0: "NewReport N sel q now = Inr r0"
    using assms(2) by (auto simp: Query_def split: sum.splits)
  consider "r = unsupportedLocal r0"
    | s' where "qy_Source q = ''local''" "re_Scope (sl_Request sel) = ''node''" "nodeHistory L (cancelled 0) r0 s = (Inr r, s')"
    | series lost s' where "qy_Source q = ''local''" "re_Scope (sl_Request sel) \<notin> {''node'', ''container''}"
        "qy_Metric q = ''cgroup-charge''" "pod_loop cancelled q now 0 [] (rp_Series r0) s = (Inr (series, lost), s')"
        "r = unreported (Summarise (r0\<lparr>rp_Series := series\<rparr>) lost)"
    using assms(2) r0 by (auto simp: Query_def prod_eq_iff split: sum.splits if_splits prod.splits)
  then show ?thesis
  proof cases
    case 1
    with unsupported_validates [OF r0 assms(3)] show ?thesis
      by simp
  next
    case 2
    with nodeHistory_validates [OF r0 assms(3)] assms(5) show ?thesis
      by blast
  next
    case 3
    with podHistory_validates [OF r0 assms(3) 3(1,2,3) _ assms(4,1) 3(4)] assms(5) show ?thesis
      by blast
  qed
qed

end
