(* ===== verification/History_Properties.thy ===== *)
theory History_Properties
  imports Collector_History Store_Properties
begin

text \<open>
  What a client of the memory history can rely on: an answer of the collector passes the validation the
  client applies to it. The samples below are a Pod with one container and a query of one minute.
\<close>

definition any_name :: kube_names where
  "any_name = \<lparr>kn_subdomain = (\<lambda>_. True), kn_label = (\<lambda>_. True)\<rparr>"

definition sample_target :: mh_target where
  "sample_target = \<lparr>tg_Namespace = ''ns'', tg_Pod = ''p'', tg_PodUID = ''u'', tg_Container = ''c'', tg_ContainerID = ''id'',
     tg_Node = ''n1'', tg_NodeUID = ''u1'', tg_PodCreatedAt = second, tg_StartedAt = 2 * second\<rparr>"

definition sample_selection :: mh_selection where
  "sample_selection = \<lparr>sl_Request = \<lparr>re_Scope = ''pod'', re_Namespace = ''ns'', re_Name = ''p'', re_Container = '''',
     re_WorkloadKind = ''''\<rparr>, sl_UID = ''u'', sl_Revision = '''', sl_ResolvedAt = 90 * second, sl_Targets = [sample_target]\<rparr>"

definition sample_query :: mh_query where
  "sample_query = \<lparr>qy_Source = ''local'', qy_Metric = ''cgroup-charge'', qy_Start = minute, qy_End = minute, qy_Step = minute\<rparr>"

text \<open>
  C32. An answer of the collector to a query of retained memory history passes the report's own
  validation: the series are those of the selected targets, on the grid of the query, no point is newer
  than its place in the grid or older than its target, and neither freshness nor completeness is
  overstated. This holds in every store the collector can reach, for a selection resolved before the
  query whose targets agree about each Pod.
\<close>

theorem answered_history_validates:
  assumes "new_store p" and "(store_step SL)\<^sup>*\<^sup>* p (T, s)"
    and "fst (Query L N cancelled sel q now s) = Inr r"
    and "sl_ResolvedAt sel \<le> now" and "pods_agree (sl_Targets sel)"
    and "\<And>t. t \<in> set (sl_Targets sel) \<Longrightarrow> 0 \<le> tg_PodCreatedAt t \<and> 0 < tg_StartedAt t"
  shows "report_Validate N r = None"
proof (rule Query_validates [OF _ assms(3-6)])
  show "history_opts_ok (hs_opts (st_history s))"
    using store_system.reachable_inv [OF assms(1,2)] by (simp add: store_inv_def)
qed

lemma sample_NewReport:
  "NewReport any_name sample_selection sample_query (2 * minute) =
    Inr \<lparr>rp_SchemaVersion = 1, rp_Selection = sample_selection, rp_Query = sample_query, rp_ReceivedAt = 2 * minute,
      rp_State = ''missing'', rp_Completeness = ''partial'', rp_Reason = '''', rp_Series = [empty_series sample_query sample_target]\<rparr>"
  by (simp add: NewReport_def selection_Validate_def request_Validate_def any_name_def sample_selection_def sample_target_def
      mh_target_ok_def validIdentity_def printable_identity_def byte_def mh_MaxTargets_def query_Validate_def sample_query_def
      mh_MinStep_def hour_def mh_MaxRange_def mh_MaxPoints_def time_sub_def sat64_def go_simps)

theorem answered_history_validates_witness:
  "\<exists>r. fst (Query sample_store_lib any_name (\<lambda>_. False) sample_selection sample_query (2 * minute)
      (newStore DefaultHistoryOptions DefaultStoreLimits 0)) = Inr r \<and> report_Validate any_name r = None"
proof -
  let ?s = "newStore DefaultHistoryOptions DefaultStoreLimits 0"
  have new: "new_store (0, ?s)"
    unfolding new_store_def by (rule exI [of _ DefaultHistoryOptions]) (auto simp: DefaultHistoryOptions_def go_simps)
  let ?x = "empty_series sample_query sample_target"
  obtain samples lost s1 where samples: "retainedPodMemory ?s (pod_target (sr_Target ?x)) sample_query (2 * minute) = ((samples, lost), s1)"
    by (metis prod.collapse)
  have "pod_key (sr_Target ?x) \<notin> set []" and created: "tg_PodCreatedAt (sr_Target ?x) \<noteq> 0"
    by (simp_all add: empty_series_def sample_target_def go_simps)
  from pod_loop_new [OF this(1) samples, of "\<lambda>_. False" 0 "[]"] created
  have loop: "pod_loop (\<lambda>_. False) sample_query (2 * minute) 0 [] [?x] ?s = (Inr ([pod_series (hs_opts (st_history s1)) samples ?x], lost), s1)"
    by (simp del: pod_loop.simps(2))
  have local: "qy_Source sample_query = ''local''" "qy_Metric sample_query = ''cgroup-charge''"
      "re_Scope (sl_Request sample_selection) = ''pod''"
    by (simp_all add: sample_query_def sample_selection_def)
  obtain r where r: "fst (Query sample_store_lib any_name (\<lambda>_. False) sample_selection sample_query (2 * minute) ?s) = Inr r"
    using sample_NewReport loop by (simp add: Query_def local del: pod_loop.simps)
  have targets: "sl_ResolvedAt sample_selection \<le> 2 * minute" "sl_Targets sample_selection = [sample_target]"
      "0 \<le> tg_PodCreatedAt sample_target \<and> 0 < tg_StartedAt sample_target"
    by (simp_all add: sample_selection_def sample_target_def go_simps)
  have "report_Validate any_name r = None"
    by (rule answered_history_validates [OF new rtranclp.rtrancl_refl r targets(1)]) (use targets in \<open>auto simp: pods_agree_def\<close>)
  with r show ?thesis
    by blast
qed

end
