(* ===== verification/Json_Walk.thy ===== *)
theory Json_Walk
  imports Go_Text
begin

text \<open>
  The walks that bound a JSON document before it is decoded into Go structs. Ten packages repeat one
  recursive function over the tokens of \<open>json.Decoder\<close>; it differs in its limits, in what it asks of keys
  and scalars, and in which error it returns. The function is written once here, over a record of
  those choices, and each package's walk is an instance in \<open>Wire_Policies\<close>.

  \<open>json.Decoder\<close> is a parameter: the tokens it yields until its first error. The end of the list is \<open>io.EOF\<close>;
  any other error is the token \<open>Broken\<close>, which says whether \<open>More\<close> sees another element there.

  The lemmas: on the tokens of a JSON tree the walk decides a structural bound of the tree, and the
  fuel that stands for the call stack is never exhausted.
\<close>

subsection \<open>Tokens and trees\<close>

datatype jtok = ObjectStart | ObjectEnd | ArrayStart | ArrayEnd | Text string | Number | Truth bool | Null | Broken bool

datatype json =
    JObject "(string \<times> json) list"
  | JArray "json list"
  | JString string
  | JNumber
  | JBool bool
  | JNull

fun tokens :: "json \<Rightarrow> jtok list" and members_tokens :: "(string \<times> json) list \<Rightarrow> jtok list" and items_tokens :: "json list \<Rightarrow> jtok list" where
  "tokens (JObject ms) = ObjectStart # members_tokens ms @ [ObjectEnd]"
| "tokens (JArray vs) = ArrayStart # items_tokens vs @ [ArrayEnd]"
| "tokens (JString s) = [Text s]"
| "tokens JNumber = [Number]"
| "tokens (JBool b) = [Truth b]"
| "tokens JNull = [Null]"
| "members_tokens [] = []"
| "members_tokens ((k, v) # ms) = Text k # tokens v @ members_tokens ms"
| "items_tokens [] = []"
| "items_tokens (v # vs) = tokens v @ items_tokens vs"

definition compound :: "jtok \<Rightarrow> bool" where
  "compound t \<longleftrightarrow> t \<in> {ObjectStart, ObjectEnd, ArrayStart, ArrayEnd}"

text \<open>\<open>Decoder.More\<close>: another element follows in the current array or object.\<close>

fun has_more :: "jtok list \<Rightarrow> bool" where
  "has_more [] = False"
| "has_more (t # ts) = (t \<noteq> ObjectEnd \<and> t \<noteq> ArrayEnd \<and> t \<noteq> Broken False)"

fun broken :: "jtok \<Rightarrow> bool" where
  "broken (Broken _) = True"
| "broken _ = False"

subsection \<open>Limits\<close>

text \<open>
  A failing walk says why. \<open>Exhausted\<close> is not a failure of the code: it stands for a call that does not
  return, and is proved impossible.
\<close>

datatype walk_error = TooDeep | Unreadable | ScalarRefused | KeyRefused | TooManyMembers | KeyRepeated | FieldMissing
  | TooManyItems | OutOfBudget | Exhausted

text \<open>
  The choices of a package. \<open>pol_scalar\<close> is given the depth and the field; \<open>pol_fold\<close> is the key under which
  duplicates are looked for; \<open>pol_child\<close> is the field name a member's value is walked with and \<open>pol_element\<close>
  the one an array's elements are walked with; \<open>pol_budget\<close> limits the number of values.
\<close>

record wire_policy =
  pol_depth :: nat
  pol_budget :: "nat option"
  pol_any :: "nat \<Rightarrow> string \<Rightarrow> jtok \<Rightarrow> bool"
  pol_scalar :: "string \<Rightarrow> jtok \<Rightarrow> bool"
  pol_key :: "string \<Rightarrow> bool"
  pol_members :: "string \<Rightarrow> nat"
  pol_unique :: bool
  pol_fold :: "string \<Rightarrow> string \<Rightarrow> string"
  pol_child :: "string \<Rightarrow> string"
  pol_required :: "nat \<Rightarrow> string \<Rightarrow> string list"
  pol_items :: "nat \<Rightarrow> string \<Rightarrow> nat"
  pol_element :: "string \<Rightarrow> string"

definition over_budget :: "wire_policy \<Rightarrow> nat \<Rightarrow> bool" where
  "over_budget P n \<longleftrightarrow> (case pol_budget P of None \<Rightarrow> False | Some b \<Rightarrow> n > b)"

subsection \<open>The walk\<close>

text \<open>
  \<open>walk_value\<close> is the recursive function; its two loops take the recursive call as an argument. The state is
  the number of values seen and the tokens that are left.
\<close>

type_synonym walk_state = "nat \<times> jtok list"

type_synonym walker = "nat \<Rightarrow> string \<Rightarrow> walk_state \<Rightarrow> walk_error + walk_state"

primrec walk_members :: "nat \<Rightarrow> wire_policy \<Rightarrow> walker \<Rightarrow> nat \<Rightarrow> string \<Rightarrow> string list \<Rightarrow> walk_state \<Rightarrow>
    walk_error + (string list \<times> walk_state)" where
  "walk_members 0 P walk depth field seen st = Inl Exhausted"
| "walk_members (Suc fuel) P walk depth field seen st =
    (if \<not> has_more (snd st) then Inr (seen, st)
     else case hd (snd st) of
         Text key \<Rightarrow>
           if \<not> pol_key P key then Inl KeyRefused
           else if length seen \<ge> pol_members P field then Inl TooManyMembers
           else if pol_unique P \<and> pol_fold P field key \<in> set seen then Inl KeyRepeated
           else (case walk (Suc depth) (pol_child P key) (fst st, tl (snd st)) of
               Inl e \<Rightarrow> Inl e
             | Inr st' \<Rightarrow> walk_members fuel P walk depth field (pol_fold P field key # seen) st')
       | _ \<Rightarrow> Inl KeyRefused)"

primrec walk_items :: "nat \<Rightarrow> wire_policy \<Rightarrow> walker \<Rightarrow> nat \<Rightarrow> string \<Rightarrow> nat \<Rightarrow> walk_state \<Rightarrow> walk_error + walk_state" where
  "walk_items 0 P walk depth field i st = Inl Exhausted"
| "walk_items (Suc fuel) P walk depth field i st =
    (if \<not> has_more (snd st) then Inr st
     else if i \<ge> pol_items P depth field then Inl TooManyItems
     else (case walk (Suc depth) (pol_element P field) st of
         Inl e \<Rightarrow> Inl e
       | Inr st' \<Rightarrow> walk_items fuel P walk depth field (Suc i) st'))"

text \<open>The token that closes an object or an array.\<close>

definition close_token :: "walk_state \<Rightarrow> walk_error + walk_state" where
  "close_token st = (case snd st of [] \<Rightarrow> Inl Unreadable | t # rest \<Rightarrow> if broken t then Inl Unreadable else Inr (fst st, rest))"

primrec walk_value :: "nat \<Rightarrow> wire_policy \<Rightarrow> walker" where
  "walk_value 0 P = (\<lambda>depth field st. Inl Exhausted)"
| "walk_value (Suc fuel) P = (\<lambda>depth field st.
    (let n = Suc (fst st)
     in if depth > pol_depth P then Inl TooDeep
        else if over_budget P n then Inl OutOfBudget
        else case snd st of
            [] \<Rightarrow> Inl Unreadable
          | t # rest \<Rightarrow>
             if broken t then Inl Unreadable
             else if \<not> pol_any P depth field t then Inl ScalarRefused
             else if \<not> compound t then (if pol_scalar P field t then Inr (n, rest) else Inl ScalarRefused)
             else if t = ObjectStart then
               (case walk_members fuel P (walk_value fuel P) depth field [] (n, rest) of
                  Inl e \<Rightarrow> Inl e
                | Inr (seen, st') \<Rightarrow>
                    if \<not> list_all (\<lambda>k. k \<in> set seen) (pol_required P depth field) then Inl FieldMissing
                    else close_token st')
             else if t = ArrayStart then
               (case walk_items fuel P (walk_value fuel P) depth field 0 (n, rest) of
                  Inl e \<Rightarrow> Inl e
                | Inr st' \<Rightarrow> close_token st')
             else Inl Unreadable))"

definition walk_fuel :: "jtok list \<Rightarrow> nat" where
  "walk_fuel ts = Suc (length ts)"

text \<open>A document: one value, and then the end of the data. \<open>None\<close> is the nil error.\<close>

definition bounded_document :: "wire_policy \<Rightarrow> jtok list \<Rightarrow> walk_error option" where
  "bounded_document P ts =
    (case walk_value (walk_fuel ts) P 0 '''' (0, ts) of
       Inl e \<Rightarrow> Some e
     | Inr (n, rest) \<Rightarrow> if rest = [] then None else Some Unreadable)"

subsection \<open>What the walk decides\<close>

text \<open>The number of values of a tree, and the trees within the limits of a policy.\<close>

fun json_values :: "json \<Rightarrow> nat" where
  "json_values (JObject ms) = Suc (sum_list (map (\<lambda>m. json_values (snd m)) ms))"
| "json_values (JArray vs) = Suc (sum_list (map json_values vs))"
| "json_values (JString s) = 1"
| "json_values JNumber = 1"
| "json_values (JBool b) = 1"
| "json_values JNull = 1"

definition scalar_fits :: "wire_policy \<Rightarrow> nat \<Rightarrow> string \<Rightarrow> jtok \<Rightarrow> bool" where
  "scalar_fits P depth field t \<longleftrightarrow> depth \<le> pol_depth P \<and> pol_any P depth field t \<and> pol_scalar P field t"

fun fits :: "wire_policy \<Rightarrow> nat \<Rightarrow> string \<Rightarrow> json \<Rightarrow> bool" where
  "fits P depth field (JObject ms) \<longleftrightarrow> depth \<le> pol_depth P \<and> pol_any P depth field ObjectStart \<and>
     length ms \<le> pol_members P field \<and> (\<forall>m \<in> set ms. pol_key P (fst m)) \<and>
     (pol_unique P \<longrightarrow> distinct (map (\<lambda>m. pol_fold P field (fst m)) ms)) \<and>
     set (pol_required P depth field) \<subseteq> (\<lambda>m. pol_fold P field (fst m)) ` set ms \<and>
     (\<forall>m \<in> set ms. fits P (Suc depth) (pol_child P (fst m)) (snd m))"
| "fits P depth field (JArray vs) \<longleftrightarrow> depth \<le> pol_depth P \<and> pol_any P depth field ArrayStart \<and>
     length vs \<le> pol_items P depth field \<and> (\<forall>v \<in> set vs. fits P (Suc depth) (pol_element P field) v)"
| "fits P depth field (JString s) \<longleftrightarrow> scalar_fits P depth field (Text s)"
| "fits P depth field JNumber \<longleftrightarrow> scalar_fits P depth field Number"
| "fits P depth field (JBool b) \<longleftrightarrow> scalar_fits P depth field (Truth b)"
| "fits P depth field JNull \<longleftrightarrow> scalar_fits P depth field Null"

definition within_budget :: "wire_policy \<Rightarrow> nat \<Rightarrow> bool" where
  "within_budget P n \<longleftrightarrow> \<not> over_budget P n"

lemma within_budget_mono: "within_budget P n \<Longrightarrow> m \<le> n \<Longrightarrow> within_budget P m"
  by (auto simp: within_budget_def over_budget_def split: option.splits)

lemma json_values_pos: "0 < json_values v"
  by (cases v) simp_all

lemma tokens_nonempty: "\<exists>t ts. tokens v = t # ts \<and> t \<noteq> ObjectEnd \<and> t \<noteq> ArrayEnd \<and> \<not> broken t"
  by (cases v) simp_all

lemma has_more_tokens [simp]: "has_more (tokens v @ rest)"
  using tokens_nonempty [of v] by auto

text \<open>What is to be shown of a call on the tokens of one value.\<close>

definition decides :: "wire_policy \<Rightarrow> walker \<Rightarrow> nat \<Rightarrow> string \<Rightarrow> json \<Rightarrow> bool" where
  "decides P walk depth field v \<longleftrightarrow> (\<forall>n rest.
     if fits P depth field v \<and> within_budget P (n + json_values v)
     then walk depth field (n, tokens v @ rest) = Inr (n + json_values v, rest)
     else \<exists>e. walk depth field (n, tokens v @ rest) = Inl e)"

lemma decides_Inr:
  "decides P walk depth field v \<Longrightarrow> fits P depth field v \<Longrightarrow> within_budget P (n + json_values v) \<Longrightarrow>
    walk depth field (n, tokens v @ rest) = Inr (n + json_values v, rest)"
  by (simp add: decides_def)

lemma decides_Inl:
  "decides P walk depth field v \<Longrightarrow> \<not> (fits P depth field v \<and> within_budget P (n + json_values v)) \<Longrightarrow>
    \<exists>e. walk depth field (n, tokens v @ rest) = Inl e"
  unfolding decides_def by meson

lemma walk_items_decides:
  assumes "\<forall>v \<in> set vs. decides P walk (Suc depth) (pol_element P field) v" and "length vs < fuel"
    and "within_budget P n"
  shows "if i + length vs \<le> pol_items P depth field \<or> vs = [] then
      (if (\<forall>v \<in> set vs. fits P (Suc depth) (pol_element P field) v) \<and> within_budget P (n + sum_list (map json_values vs))
       then walk_items fuel P walk depth field i (n, items_tokens vs @ ArrayEnd # rest)
         = Inr (n + sum_list (map json_values vs), ArrayEnd # rest)
       else \<exists>e. walk_items fuel P walk depth field i (n, items_tokens vs @ ArrayEnd # rest) = Inl e)
    else \<exists>e. walk_items fuel P walk depth field i (n, items_tokens vs @ ArrayEnd # rest) = Inl e"
  using assms
proof (induction vs arbitrary: fuel i n)
  case Nil
  then show ?case
    by (cases fuel) simp_all
next
  case (Cons v vs)
  then obtain fuel' where fuel: "fuel = Suc fuel'" "length vs < fuel'"
    by (cases fuel) auto
  let ?tail = "items_tokens vs @ ArrayEnd # rest"
  have dec: "decides P walk (Suc depth) (pol_element P field) v"
    using Cons.prems(1) by simp
  show ?case
  proof (cases "i < pol_items P depth field \<and> fits P (Suc depth) (pol_element P field) v \<and> within_budget P (n + json_values v)")
    case True
    then have "walk_items fuel P walk depth field i (n, items_tokens (v # vs) @ ArrayEnd # rest)
        = walk_items fuel' P walk depth field (Suc i) (n + json_values v, ?tail)"
      using decides_Inr [OF dec, of n ?tail] by (simp add: fuel)
    moreover have "within_budget P (n + json_values v)"
      using True by simp
    ultimately show ?thesis
      using Cons.IH [where fuel = fuel' and i = "Suc i" and n = "n + json_values v"] Cons.prems(1) fuel(2) True
      by (auto simp: add.assoc split: if_splits)
  next
    case False
    then have "\<exists>e. walk_items fuel P walk depth field i (n, items_tokens (v # vs) @ ArrayEnd # rest) = Inl e"
      using decides_Inl [OF dec, of n ?tail] by (auto simp: fuel)
    moreover have "\<not> (i + length (v # vs) \<le> pol_items P depth field \<and> (\<forall>u \<in> set (v # vs). fits P (Suc depth) (pol_element P field) u) \<and>
        within_budget P (n + sum_list (map json_values (v # vs))))"
      using False within_budget_mono [of P "n + sum_list (map json_values (v # vs))" "n + json_values v"] by auto
    ultimately show ?thesis
      by auto
  qed
qed

definition members_fit :: "wire_policy \<Rightarrow> nat \<Rightarrow> string \<Rightarrow> string list \<Rightarrow> (string \<times> json) list \<Rightarrow> bool" where
  "members_fit P depth field seen ms \<longleftrightarrow> (ms \<noteq> [] \<longrightarrow> length seen + length ms \<le> pol_members P field) \<and>
     (\<forall>m \<in> set ms. pol_key P (fst m) \<and> fits P (Suc depth) (pol_child P (fst m)) (snd m)) \<and>
     (pol_unique P \<longrightarrow> distinct (map (\<lambda>m. pol_fold P field (fst m)) ms) \<and>
       set seen \<inter> (\<lambda>m. pol_fold P field (fst m)) ` set ms = {})"

lemma members_fit_Cons:
  "members_fit P depth field seen ((k, v) # ms) \<longleftrightarrow>
    length seen < pol_members P field \<and> pol_key P k \<and> \<not> (pol_unique P \<and> pol_fold P field k \<in> set seen) \<and>
    fits P (Suc depth) (pol_child P k) v \<and> members_fit P depth field (pol_fold P field k # seen) ms"
  by (cases ms) (auto simp: members_fit_def)

lemma walk_members_decides:
  assumes "\<forall>m \<in> set ms. decides P walk (Suc depth) (pol_child P (fst m)) (snd m)" and "length ms < fuel"
    and "within_budget P n"
  shows "if members_fit P depth field seen ms \<and> within_budget P (n + sum_list (map (\<lambda>m. json_values (snd m)) ms))
    then walk_members fuel P walk depth field seen (n, members_tokens ms @ ObjectEnd # rest)
      = Inr (rev (map (\<lambda>m. pol_fold P field (fst m)) ms) @ seen, n + sum_list (map (\<lambda>m. json_values (snd m)) ms), ObjectEnd # rest)
    else \<exists>e. walk_members fuel P walk depth field seen (n, members_tokens ms @ ObjectEnd # rest) = Inl e"
  using assms
proof (induction ms arbitrary: fuel seen n)
  case Nil
  then show ?case
    by (cases fuel) (simp_all add: members_fit_def)
next
  case (Cons m ms)
  obtain k v where m: "m = (k, v)"
    by (cases m)
  obtain fuel' where fuel: "fuel = Suc fuel'" "length ms < fuel'"
    using Cons.prems(2) by (cases fuel) auto
  let ?tail = "members_tokens ms @ ObjectEnd # rest"
  let ?ok = "length seen < pol_members P field \<and> pol_key P k \<and> \<not> (pol_unique P \<and> pol_fold P field k \<in> set seen) \<and>
    fits P (Suc depth) (pol_child P k) v \<and> within_budget P (n + json_values v)"
  have dec: "decides P walk (Suc depth) (pol_child P k) v"
    using Cons.prems(1) by (simp add: m)
  show ?case
  proof (cases ?ok)
    case True
    then have "walk_members fuel P walk depth field seen (n, members_tokens (m # ms) @ ObjectEnd # rest)
        = walk_members fuel' P walk depth field (pol_fold P field k # seen) (n + json_values v, ?tail)"
      using decides_Inr [OF dec, of n ?tail] by (auto simp: fuel m)
    then show ?thesis
      using Cons.IH [where fuel = fuel' and seen = "pol_fold P field k # seen" and n = "n + json_values v"] Cons.prems(1) fuel(2) True
      by (simp add: m members_fit_Cons add.assoc)
  next
    case False
    then have "\<exists>e. walk_members fuel P walk depth field seen (n, members_tokens (m # ms) @ ObjectEnd # rest) = Inl e"
      using decides_Inl [OF dec, of n ?tail] by (auto simp: fuel m)
    moreover have "\<not> (members_fit P depth field seen (m # ms) \<and> within_budget P (n + sum_list (map (\<lambda>m. json_values (snd m)) (m # ms))))"
      using False within_budget_mono [of P "n + sum_list (map (\<lambda>m. json_values (snd m)) (m # ms))" "n + json_values v"]
      by (auto simp: m members_fit_Cons)
    ultimately show ?thesis
      by (simp only: if_False)
  qed
qed

lemma length_members_tokens: "(k, v) \<in> set ms \<Longrightarrow> length (tokens v) < length (members_tokens ms)"
  by (induction ms) auto

lemma length_items_tokens: "v \<in> set vs \<Longrightarrow> length (tokens v) \<le> length (items_tokens vs)"
  by (induction vs) auto

lemma members_length: "length ms \<le> length (members_tokens ms)"
proof (induction ms)
  case (Cons m ms)
  then show ?case
    by (cases m) auto
qed simp

lemma items_length: "length vs \<le> length (items_tokens vs)"
proof (induction vs)
  case (Cons v vs)
  moreover obtain t ts where "tokens v = t # ts"
    using tokens_nonempty [of v] by blast
  ultimately show ?case
    by simp
qed simp

text \<open>With fuel for its tokens, the walk of a value decides whether the value fits.\<close>

lemma walk_value_decides: "length (tokens v) \<le> fuel \<Longrightarrow> decides P (walk_value fuel P) depth field v"
proof (induction v arbitrary: fuel depth field)
  case (JObject ms)
  then obtain g where fuel: "fuel = Suc g"
    by (cases fuel) auto
  have sub: "decides P (walk_value g P) (Suc depth) (pol_child P (fst m)) (snd m)" if "m \<in> set ms" for m
  proof (rule JObject.IH [OF that])
    show "snd m \<in> Basic_BNFs.snds m"
      by (simp add: snds.simps)
    show "length (tokens (snd m)) \<le> g"
      using length_members_tokens [of "fst m" "snd m" ms] that JObject.prems by (simp add: fuel)
  qed
  have len: "length ms < g"
    using JObject.prems members_length [of ms] by (simp add: fuel)
  show ?case
    unfolding decides_def
  proof (intro allI)
    fix n rest
    let ?total = "sum_list (map (\<lambda>m. json_values (snd m)) ms)"
    show "if fits P depth field (JObject ms) \<and> within_budget P (n + json_values (JObject ms))
      then walk_value fuel P depth field (n, tokens (JObject ms) @ rest) = Inr (n + json_values (JObject ms), rest)
      else \<exists>e. walk_value fuel P depth field (n, tokens (JObject ms) @ rest) = Inl e"
    proof (cases "depth \<le> pol_depth P \<and> within_budget P (Suc n) \<and> pol_any P depth field ObjectStart")
      case True
      then have budget: "within_budget P (Suc n)"
        by simp
      have "\<forall>m \<in> set ms. decides P (walk_value g P) (Suc depth) (pol_child P (fst m)) (snd m)"
        using sub by blast
      note loop = walk_members_decides [OF this len budget, where seen = "[]" and rest = rest and field = field]
      have fit: "fits P depth field (JObject ms) \<longleftrightarrow> members_fit P depth field [] ms \<and>
          set (pol_required P depth field) \<subseteq> (\<lambda>m. pol_fold P field (fst m)) ` set ms"
        using True by (auto simp: members_fit_def)
      have all: "list_all (\<lambda>k. k \<in> set (rev (map (\<lambda>m. pol_fold P field (fst m)) ms) @ [])) (pol_required P depth field)
          \<longleftrightarrow> set (pol_required P depth field) \<subseteq> (\<lambda>m. pol_fold P field (fst m)) ` set ms"
        by (auto simp: list_all_iff)
      show ?thesis
      proof (cases "members_fit P depth field [] ms \<and> within_budget P (Suc n + ?total)")
        case inner: True
        then have "walk_members g P (walk_value g P) depth field [] (Suc n, members_tokens ms @ ObjectEnd # rest)
            = Inr (rev (map (\<lambda>m. pol_fold P field (fst m)) ms) @ [], Suc n + ?total, ObjectEnd # rest)"
          using loop True by (simp add: if_P)
        then show ?thesis
          using True inner fit all by (simp add: fuel Let_def compound_def close_token_def within_budget_def del: fits.simps)
      next
        case inner: False
        then have "\<exists>e. walk_members g P (walk_value g P) depth field [] (Suc n, members_tokens ms @ ObjectEnd # rest) = Inl e"
          using loop by (simp only: if_False)
        then show ?thesis
          using True inner fit by (auto simp: fuel Let_def compound_def within_budget_def simp del: fits.simps)
      qed
    next
      case False
      moreover have "within_budget P (n + json_values (JObject ms)) \<Longrightarrow> within_budget P (Suc n)"
        by (erule within_budget_mono) simp
      ultimately show ?thesis
        by (auto simp: fuel Let_def within_budget_def)
    qed
  qed
next
  case (JArray vs)
  then obtain g where fuel: "fuel = Suc g"
    by (cases fuel) auto
  have sub: "decides P (walk_value g P) (Suc depth) (pol_element P field) v" if "v \<in> set vs" for v
    using JArray.IH [OF that] length_items_tokens [OF that] JArray.prems by (simp add: fuel)
  have len: "length vs < g"
    using JArray.prems items_length [of vs] by (simp add: fuel)
  show ?case
    unfolding decides_def
  proof (intro allI)
    fix n rest
    let ?total = "sum_list (map json_values vs)"
    show "if fits P depth field (JArray vs) \<and> within_budget P (n + json_values (JArray vs))
      then walk_value fuel P depth field (n, tokens (JArray vs) @ rest) = Inr (n + json_values (JArray vs), rest)
      else \<exists>e. walk_value fuel P depth field (n, tokens (JArray vs) @ rest) = Inl e"
    proof (cases "depth \<le> pol_depth P \<and> within_budget P (Suc n) \<and> pol_any P depth field ArrayStart")
      case True
      then have budget: "within_budget P (Suc n)"
        by simp
      have "\<forall>v \<in> set vs. decides P (walk_value g P) (Suc depth) (pol_element P field) v"
        using sub by blast
      note loop = walk_items_decides [OF this len budget, where i = 0 and rest = rest]
      show ?thesis
        using loop True by (cases "walk_items g P (walk_value g P) depth field 0 (Suc n, items_tokens vs @ ArrayEnd # rest)")
          (auto simp: fuel Let_def compound_def close_token_def within_budget_def split: if_splits)
    next
      case False
      moreover have "within_budget P (n + json_values (JArray vs)) \<Longrightarrow> within_budget P (Suc n)"
        by (erule within_budget_mono) simp
      ultimately show ?thesis
        by (auto simp: fuel Let_def within_budget_def)
    qed
  qed
qed (auto simp: decides_def scalar_fits_def within_budget_def compound_def Let_def dest!: Suc_le_D)

text \<open>A document accepted is a tree within the limits.\<close>

lemma bounded_document_tree:
  "bounded_document P (tokens v) = None \<longleftrightarrow> fits P 0 '''' v \<and> within_budget P (json_values v)"
proof -
  have "decides P (walk_value (walk_fuel (tokens v)) P) 0 '''' v"
    by (rule walk_value_decides) (simp add: walk_fuel_def)
  note dec = decides_Inr [OF this, of 0 "[]"] decides_Inl [OF this, of 0 "[]"]
  show ?thesis
  proof (cases "fits P 0 '''' v \<and> within_budget P (json_values v)")
    case True
    then show ?thesis
      using dec(1) by (simp add: bounded_document_def)
  next
    case False
    then obtain e where "walk_value (walk_fuel (tokens v)) P 0 '''' (0, tokens v) = Inl e"
      using dec(2) by auto
    with False show ?thesis
      by (simp add: bounded_document_def)
  qed
qed

subsection \<open>The walk returns\<close>

text \<open>Whatever the tokens are: fuel for their number is enough, and a value consumes at least one.\<close>

definition returns :: "nat \<Rightarrow> walk_error + walk_state \<Rightarrow> bool" where
  "returns most r \<longleftrightarrow> (case r of Inl e \<Rightarrow> e \<noteq> Exhausted | Inr st \<Rightarrow> length (snd st) < most)"

definition returning :: "walker \<Rightarrow> nat \<Rightarrow> bool" where
  "returning walk most \<longleftrightarrow> (\<forall>depth field st. length (snd st) < most \<longrightarrow> returns (length (snd st)) (walk depth field st))"

lemma returningD: "returning walk most \<Longrightarrow> length (snd st) < most \<Longrightarrow> returns (length (snd st)) (walk depth field st)"
  unfolding returning_def by blast

lemma walk_items_returns:
  assumes "returning walk most" and "length (snd st) < most" and "length (snd st) < fuel"
  shows "returns (Suc (length (snd st))) (walk_items fuel P walk depth field i st)"
  using assms(2,3)
proof (induction fuel arbitrary: st i)
  case (Suc fuel)
  show ?case
  proof (cases "walk (Suc depth) (pol_element P field) st")
    case (Inl e)
    with returningD [OF assms(1) Suc.prems(1), of "Suc depth" "pol_element P field"] show ?thesis
      by (simp add: returns_def)
  next
    case (Inr st')
    with returningD [OF assms(1) Suc.prems(1), of "Suc depth" "pol_element P field"] have "length (snd st') < length (snd st)"
      by (simp add: returns_def)
    with Suc.IH [of st' "Suc i"] Suc.prems Inr show ?thesis
      by (auto simp: returns_def split: sum.splits)
  qed
qed simp

lemma walk_members_returns:
  assumes "returning walk most" and "length (snd st) < most" and "length (snd st) < fuel"
  shows "case walk_members fuel P walk depth field seen st of Inl e \<Rightarrow> e \<noteq> Exhausted
    | Inr (seen', st') \<Rightarrow> length (snd st') \<le> length (snd st)"
  using assms(2,3)
proof (induction fuel arbitrary: st seen)
  case (Suc fuel)
  show ?case
  proof (cases "\<exists>key. has_more (snd st) \<and> hd (snd st) = Text key")
    case True
    then obtain key where key: "has_more (snd st)" "hd (snd st) = Text key"
      by blast
    let ?tail = "(fst st, tl (snd st))"
    have shorter: "length (snd ?tail) < length (snd st)"
      using key(1) by (cases "snd st") simp_all
    show ?thesis
    proof (cases "walk (Suc depth) (pol_child P key) ?tail")
      case (Inl e)
      with returningD [OF assms(1), of ?tail "Suc depth" "pol_child P key"] shorter Suc.prems(1) key show ?thesis
        by (simp add: returns_def)
    next
      case (Inr st')
      with returningD [OF assms(1), of ?tail "Suc depth" "pol_child P key"] shorter Suc.prems(1)
      have "length (snd st') < length (snd st)"
        by (simp add: returns_def)
      with Suc.IH [of st' "pol_fold P field key # seen"] Suc.prems Inr key show ?thesis
        by (auto split: sum.splits)
    qed
  qed (auto split: jtok.split)
qed simp

lemma close_token_returns: "length (snd st) \<le> most \<Longrightarrow> returns (Suc most) (close_token st)"
  by (cases "snd st") (auto simp: close_token_def returns_def)

lemma close_token_shorter: "length (snd st) \<le> most \<Longrightarrow> close_token st = Inr st' \<Longrightarrow> length (snd st') < most"
  by (auto simp: close_token_def split: list.splits if_splits)

lemma close_token_error: "close_token st \<noteq> Inl Exhausted"
  by (simp add: close_token_def split: list.split)

lemma walk_value_returns: "returning (walk_value fuel P) fuel"
proof (induction fuel)
  case (Suc fuel)
  show ?case
    unfolding returning_def
  proof (intro allI impI)
    fix depth field and st :: walk_state
    assume len: "length (snd st) < Suc fuel"
    show "returns (length (snd st)) (walk_value (Suc fuel) P depth field st)"
    proof (cases "snd st")
      case (Cons t rest)
      let ?st = "(Suc (fst st), rest)"
      have short: "length (snd ?st) < fuel"
        using len Cons by simp
      note items = walk_items_returns [OF Suc.IH short short, of P depth field 0]
      note members = walk_members_returns [OF Suc.IH short short, of P depth field "[]"]
      have "returns (length (snd st)) (case walk_items fuel P (walk_value fuel P) depth field 0 ?st of Inl e \<Rightarrow> Inl e | Inr st' \<Rightarrow> close_token st')"
        using items close_token_shorter close_token_error by (fastforce simp: returns_def Cons split: sum.splits)
      moreover have "returns (length (snd st)) (case walk_members fuel P (walk_value fuel P) depth field [] ?st of
          Inl e \<Rightarrow> Inl e
        | Inr (seen, st') \<Rightarrow> if \<not> list_all (\<lambda>k. k \<in> set seen) (pol_required P depth field) then Inl FieldMissing else close_token st')"
        using members close_token_shorter close_token_error by (fastforce simp: returns_def Cons split: sum.splits)
      ultimately show ?thesis
        by (simp add: Cons Let_def) (auto simp: returns_def)
    qed (simp add: returns_def Let_def)
  qed
qed (simp add: returning_def)

lemma bounded_document_returns: "bounded_document P ts \<noteq> Some Exhausted"
  using returningD [OF walk_value_returns [of "walk_fuel ts" P], of "(0, ts)" 0 "''''"]
  by (auto simp: bounded_document_def walk_fuel_def returns_def split: sum.splits)

end
