(* ===== verification/Change_Markers.thy ===== *)
theory Change_Markers
  imports Memory_History Go_Sort
begin

text \<open>
  Package \<open>changemarkers\<close>: markers of workload changes beside memory history. The data (\<open>types.go\<close>), its
  validation (\<open>validate.go\<close>), the composition of a bounded report and the alignment of its markers with the grid
  of a query (\<open>compose.go\<close>). \<open>json.Marshal\<close> is a parameter, of which only the number of bytes is used; the DNS
  name checks are those of \<open>Memory_History\<close>.

  The lemmas: a composed report holds the newest candidates of its interval in the order of
  \<open>compareMarker\<close>, and every marker that was left out is older than every marker kept.
\<close>

subsection \<open>Data\<close>

definition cm_MaxEvents :: nat where
  "cm_MaxEvents = 256"

definition cm_MaxMarkers :: nat where
  "cm_MaxMarkers = 64"

definition cm_MaxOwners :: nat where
  "cm_MaxOwners = 3"

definition MaxReportBytes :: nat where
  "MaxReportBytes = 128 * 1024"

definition MaxResponseBytes :: nat where
  "MaxResponseBytes = 1024 * 1024"

record kube_object =
  ko_APIVersion :: string
  ko_Kind :: string
  ko_Namespace :: string
  ko_Name :: string
  ko_UID :: string

record change_marker =
  wm_Kind :: string
  wm_At :: time
  wm_Until :: time
  wm_Clock :: string
  wm_SourceUID :: string
  wm_Subject :: kube_object
  wm_Owners :: "kube_object list"
  wm_Container :: string
  wm_Revision :: int
  wm_ResizeState :: string
  wm_PreviousUID :: string
  wm_Count :: u64
  wm_Uncertain :: bool

record change_report =
  wr_SchemaVersion :: int
  wr_Request :: mh_request
  wr_UID :: string
  wr_Start :: time
  wr_End :: time
  wr_ObservedAt :: time
  wr_Events :: string
  wr_Truncated :: bool
  wr_Markers :: "change_marker list"

record change_context =
  wx_SchemaVersion :: int
  wx_History :: mh_report
  wx_Changes :: change_report

datatype change_error = ChangeInvalid | ChangeBounds

text \<open>The number of bytes of \<open>json.Marshal\<close>; \<open>None\<close> is its error.\<close>

record change_lib =
  ch_names :: kube_names
  ch_report_bytes :: "change_report \<Rightarrow> nat option"
  ch_context_bytes :: "change_context \<Rightarrow> nat option"

definition marshals_within :: "nat option \<Rightarrow> nat \<Rightarrow> bool" where
  "marshals_within size_of most = (case size_of of None \<Rightarrow> False | Some n \<Rightarrow> n \<le> most)"

subsection \<open>Validation of a marker\<close>

definition object_version :: "string \<Rightarrow> string" where
  "object_version kind =
    (if kind \<in> {''Pod'', ''ReplicationController''} then ''v1''
     else if kind \<in> {''Deployment'', ''ReplicaSet'', ''StatefulSet'', ''DaemonSet''} then ''apps/v1''
     else if kind \<in> {''Job'', ''CronJob''} then ''batch/v1'' else '''')"

definition object_ok :: "kube_names \<Rightarrow> kube_object \<Rightarrow> bool" where
  "object_ok N o' \<longleftrightarrow>
    kn_subdomain N (ko_Name o') \<and> kn_label N (ko_Namespace o') \<and> printable_identity 256 (ko_UID o') \<and>
    object_version (ko_Kind o') \<noteq> '''' \<and> ko_APIVersion o' = object_version (ko_Kind o')"

text \<open>The loop over the owners; \<open>seen\<close> is the map of UIDs.\<close>

fun owners_ok :: "kube_names \<Rightarrow> string \<Rightarrow> string list \<Rightarrow> kube_object list \<Rightarrow> bool" where
  "owners_ok N namespace seen [] = True"
| "owners_ok N namespace seen (w # ws) =
    (object_ok N w \<and> ko_Kind w \<noteq> ''Pod'' \<and> ko_Namespace w = namespace \<and> ko_UID w \<notin> set seen \<and>
     owners_ok N namespace (ko_UID w # seen) ws)"

definition owner_revision :: "change_marker \<Rightarrow> bool" where
  "owner_revision m \<longleftrightarrow> wm_Kind m = ''revision-observed'' \<and> ko_Kind (wm_Subject m) = ''Pod'' \<and>
     list_ex (\<lambda>w. ko_UID w = wm_SourceUID m \<and> ko_Kind w \<in> {''ReplicaSet'', ''Deployment''}) (wm_Owners m)"

text \<open>The final switch over the kinds.\<close>

definition marker_kind_ok :: "change_marker \<Rightarrow> bool" where
  "marker_kind_ok m =
    (let kind = wm_Kind m; clock = wm_Clock m; subject = ko_Kind (wm_Subject m)
     in if kind = ''created'' then clock = ''api-creation''
        else if kind = ''restarted'' then clock = ''container-state'' \<and> wm_Container m \<noteq> ''''
        else if kind = ''revision-observed'' then
          clock = ''observation-interval'' \<and> (owner_revision m \<or> subject \<in> {''ReplicaSet'', ''Deployment''})
        else if kind = ''pod-replacement'' then
          clock = ''observation-interval'' \<and> subject = ''Pod'' \<and> printable_identity 256 (wm_PreviousUID m) \<and>
          wm_PreviousUID m \<noteq> ko_UID (wm_Subject m) \<and> wm_Container m = ''''
        else if kind = ''resize'' then
          subject = ''Pod'' \<and> clock \<in> {''pod-condition'', ''kubernetes-event'', ''observation-interval''} \<and>
          (if wm_ResizeState m \<in> {''started'', ''completed'', ''deferred'', ''infeasible'', ''error''} then clock = ''kubernetes-event''
           else if wm_ResizeState m \<in> {''pending'', ''in-progress''} then clock = ''pod-condition''
           else False)
        else if kind \<in> {''rollout'', ''scheduled'', ''started'', ''stopped'', ''back-off'', ''evicted''} then clock = ''kubernetes-event''
        else False)"

definition marker_ok :: "kube_names \<Rightarrow> change_marker \<Rightarrow> bool" where
  "marker_ok N m \<longleftrightarrow>
    object_ok N (wm_Subject m) \<and> \<not> is_zero_time (wm_At m) \<and> \<not> wm_Until m < wm_At m \<and>
    printable_identity 256 (wm_SourceUID m) \<and> wm_Count m \<noteq> 0 \<and> wm_Count m \<le> 0x7FFFFFFF \<and>
    length (wm_Owners m) \<le> cm_MaxOwners \<and>
    (wm_Container m \<noteq> '''' \<longrightarrow> ko_Kind (wm_Subject m) = ''Pod'' \<and> kn_label N (wm_Container m)) \<and>
    owners_ok N (ko_Namespace (wm_Subject m)) [ko_UID (wm_Subject m)] (wm_Owners m) \<and>
    (wm_Clock m \<noteq> ''kubernetes-event'' \<longrightarrow>
       (owner_revision m \<or> wm_SourceUID m = ko_UID (wm_Subject m)) \<and> wm_Count m = 1) \<and>
    (wm_Clock m \<noteq> ''observation-interval'' \<and> wm_Clock m \<noteq> ''kubernetes-event'' \<longrightarrow> wm_At m = wm_Until m) \<and>
    (wm_Clock m = ''observation-interval'' \<longrightarrow> wm_Uncertain m) \<and>
    0 \<le> wm_Revision m \<and> (wm_Kind m = ''revision-observed'' \<longleftrightarrow> 0 < wm_Revision m) \<and>
    (wm_Kind m = ''pod-replacement'' \<longleftrightarrow> wm_PreviousUID m \<noteq> '''') \<and>
    (wm_Kind m \<noteq> ''resize'' \<longrightarrow> wm_ResizeState m = '''') \<and>
    marker_kind_ok m"

subsection \<open>Order of markers\<close>

definition nul :: string where
  "nul = [char_of (0 :: nat)]"

definition markerKey :: "change_marker \<Rightarrow> string" where
  "markerKey m = wm_Clock m @ nul @ wm_Kind m @ nul @ wm_SourceUID m @ nul @ ko_UID (wm_Subject m) @ nul @
     wm_Container m @ nul @ wm_ResizeState m"

text \<open>\<open>compareMarker(a, b) < 0\<close>.\<close>

definition marker_less :: "change_marker \<Rightarrow> change_marker \<Rightarrow> bool" where
  "marker_less a b \<longleftrightarrow> wm_At a < wm_At b \<or> wm_At a = wm_At b \<and> markerKey a < markerKey b"

subsection \<open>Validation of a report\<close>

definition marker_included :: "mh_request \<Rightarrow> string \<Rightarrow> change_marker \<Rightarrow> bool" where
  "marker_included q uid m =
    (if re_Scope q \<noteq> ''workload'' then
       ko_Kind (wm_Subject m) = ''Pod'' \<and> ko_Name (wm_Subject m) = re_Name q \<and> ko_UID (wm_Subject m) = uid \<and>
       (re_Scope q \<noteq> ''container'' \<or> wm_Container m = '''' \<or> wm_Container m = re_Container q)
     else list_ex (\<lambda>w. ko_Kind w = re_WorkloadKind q \<and> ko_Name w = re_Name q \<and> ko_UID w = uid)
       (wm_Subject m # wm_Owners m))"

definition workload_kinds :: "string list" where
  "workload_kinds = [''Deployment'', ''ReplicaSet'', ''StatefulSet'', ''DaemonSet'', ''ReplicationController'', ''Job'', ''CronJob'']"

definition coverages :: "string list" where
  "coverages = [''partial'', ''missing'', ''denied'', ''unavailable'', ''disabled'']"

definition report_marker_ok :: "kube_names \<Rightarrow> change_report \<Rightarrow> change_marker \<Rightarrow> bool" where
  "report_marker_ok N r m \<longleftrightarrow>
    marker_ok N m \<and> ko_Namespace (wm_Subject m) = re_Namespace (wr_Request r) \<and> marker_included (wr_Request r) (wr_UID r) m \<and>
    \<not> wm_Until m > wr_ObservedAt r \<and> (wm_Clock m = ''kubernetes-event'' \<longrightarrow> wr_Events r = ''partial'') \<and>
    (if wm_Kind m \<noteq> ''revision-observed'' then \<not> (wm_Until m < wr_Start r \<or> wm_At m > wr_End r)
     else wm_At m = wr_ObservedAt r \<and> wm_Until m = wr_ObservedAt r)"

text \<open>The loop over the markers, with the keys seen and the previous marker.\<close>

fun report_markers_ok :: "kube_names \<Rightarrow> change_report \<Rightarrow> string list \<Rightarrow> change_marker option \<Rightarrow> change_marker list \<Rightarrow> bool" where
  "report_markers_ok N r seen previous [] = True"
| "report_markers_ok N r seen previous (m # ms) =
    (report_marker_ok N r m \<and> markerKey m \<notin> set seen \<and>
     (case previous of None \<Rightarrow> True | Some p \<Rightarrow> marker_less p m) \<and>
     report_markers_ok N r (markerKey m # seen) (Some m) ms)"

definition change_Validate :: "change_lib \<Rightarrow> change_report \<Rightarrow> change_error option" where
  "change_Validate L r =
    (if wr_SchemaVersion r \<noteq> 1 \<or> request_Validate (ch_names L) (wr_Request r) \<noteq> None \<or>
        re_Scope (wr_Request r) = ''node'' \<or> \<not> printable_identity 256 (wr_UID r) \<or> is_zero_time (wr_Start r) \<or>
        wr_End r < wr_Start r \<or> time_sub (wr_End r) (wr_Start r) > mh_MaxRange \<or> wr_ObservedAt r < wr_End r then
       Some ChangeInvalid
     else if re_Scope (wr_Request r) = ''workload'' \<and> re_WorkloadKind (wr_Request r) \<notin> set workload_kinds then
       Some ChangeInvalid
     else if wr_Events r \<notin> set coverages then Some ChangeInvalid
     else if length (wr_Markers r) > cm_MaxMarkers then Some ChangeBounds
     else if \<not> report_markers_ok (ch_names L) r [] None (wr_Markers r) then Some ChangeInvalid
     else if \<not> marshals_within (ch_report_bytes L r) MaxReportBytes then Some ChangeBounds
     else None)"

definition context_Validate :: "change_lib \<Rightarrow> change_context \<Rightarrow> change_error option" where
  "context_Validate L c =
    (if wx_SchemaVersion c \<noteq> 1 \<or> report_Validate (ch_names L) (wx_History c) \<noteq> None then Some ChangeInvalid
     else case change_Validate L (wx_Changes c) of
         Some e \<Rightarrow> Some e
       | None \<Rightarrow>
          (let changes = wx_Changes c; selection = rp_Selection (wx_History c); query = rp_Query (wx_History c)
           in if wr_Request changes \<noteq> sl_Request selection \<or> wr_UID changes \<noteq> sl_UID selection \<or>
                 wr_Start changes \<noteq> qy_Start query \<or> wr_End changes \<noteq> qy_End query \<or>
                 wr_ObservedAt changes < sl_ResolvedAt selection then Some ChangeInvalid
              else if \<not> marshals_within (ch_context_bytes L c) MaxResponseBytes then Some ChangeBounds
              else None))"

subsection \<open>Composition\<close>

text \<open>The loop over the candidates: the markers of the interval, or the early return.\<close>

fun compose_markers :: "kube_names \<Rightarrow> mh_selection \<Rightarrow> mh_query \<Rightarrow> time \<Rightarrow> string list \<Rightarrow> change_marker list \<Rightarrow> change_marker list option" where
  "compose_markers N s q observed seen [] = Some []"
| "compose_markers N s q observed seen (m # ms) =
    (if \<not> marker_ok N m \<or> wm_Until m > observed then None
     else if ko_Namespace (wm_Subject m) \<noteq> re_Namespace (sl_Request s) \<or> \<not> marker_included (sl_Request s) (sl_UID s) m then None
     else if wm_Kind m \<noteq> ''revision-observed'' \<and> (wm_Until m < qy_Start q \<or> wm_At m > qy_End q) then
       compose_markers N s q observed seen ms
     else if markerKey m \<in> set seen then None
     else map_option ((#) m) (compose_markers N s q observed (markerKey m # seen) ms))"

definition Compose ::
  "change_lib \<Rightarrow> mh_selection \<Rightarrow> mh_query \<Rightarrow> time \<Rightarrow> string \<Rightarrow> change_marker list \<Rightarrow> bool \<Rightarrow> change_error + change_report"
where
  "Compose L s q observed coverage candidates truncated =
    (if selection_Validate (ch_names L) s \<noteq> None \<or> query_Validate q observed \<noteq> None \<or> observed < sl_ResolvedAt s then
       Inl ChangeInvalid
     else if length candidates > cm_MaxEvents + mh_MaxTargets * 8 then Inl ChangeBounds
     else case compose_markers (ch_names L) s q observed [] candidates of
         None \<Rightarrow> Inl ChangeInvalid
       | Some ms \<Rightarrow>
          (let markers = sort_slice marker_less ms;
               r = \<lparr>wr_SchemaVersion = 1, wr_Request = sl_Request s, wr_UID = sl_UID s, wr_Start = qy_Start q,
                 wr_End = qy_End q, wr_ObservedAt = observed, wr_Events = coverage,
                 wr_Truncated = truncated \<or> length markers > cm_MaxMarkers,
                 wr_Markers = drop (length markers - cm_MaxMarkers) markers\<rparr>
           in case change_Validate L r of Some e \<Rightarrow> Inl e | None \<Rightarrow> Inr r))"

subsection \<open>Alignment\<close>

record aligned =
  al_Marker :: change_marker
  al_First :: int
  al_Last :: int

definition align_marker :: "mh_query \<Rightarrow> change_marker \<Rightarrow> aligned" where
  "align_marker q m =
    (if wm_Kind m \<noteq> ''revision-observed'' \<and> \<not> wm_At m > qy_End q \<and> \<not> wm_Until m < qy_Start q then
       \<lparr>al_Marker = m,
         al_First = time_sub (max (wm_At m) (qy_Start q)) (qy_Start q) div qy_Step q,
         al_Last = time_sub (min (wm_Until m) (qy_End q)) (qy_Start q) div qy_Step q\<rparr>
     else \<lparr>al_Marker = m, al_First = -1, al_Last = -1\<rparr>)"

definition Align :: "change_lib \<Rightarrow> change_report \<Rightarrow> mh_query \<Rightarrow> change_error + aligned list" where
  "Align L r q =
    (if change_Validate L r \<noteq> None \<or> query_Validate q (wr_ObservedAt r) \<noteq> None \<or> wr_Start r \<noteq> qy_Start q \<or>
        wr_End r \<noteq> qy_End q then Inl ChangeInvalid
     else Inr (map (align_marker q) (wr_Markers r)))"

subsection \<open>What a composed report holds\<close>

definition in_interval :: "mh_query \<Rightarrow> change_marker \<Rightarrow> bool" where
  "in_interval q m \<longleftrightarrow> wm_Kind m = ''revision-observed'' \<or> qy_Start q \<le> wm_Until m \<and> wm_At m \<le> qy_End q"

lemma compose_markers_filter:
  "compose_markers N s q observed seen ms = Some kept \<Longrightarrow> kept = filter (in_interval q) ms"
  by (induction ms arbitrary: seen kept) (auto simp: in_interval_def split: if_splits)

lemma compose_markers_distinct:
  "compose_markers N s q observed seen ms = Some kept \<Longrightarrow>
    distinct (map markerKey kept) \<and> set (map markerKey kept) \<inter> set seen = {}"
proof (induction ms arbitrary: seen kept)
  case (Cons m ms)
  show ?case
  proof (cases "wm_Kind m \<noteq> ''revision-observed'' \<and> (wm_Until m < qy_Start q \<or> wm_At m > qy_End q)")
    case True
    with Cons show ?thesis
      by (auto split: if_splits)
  next
    case False
    with Cons.prems obtain rest where "kept = m # rest" "markerKey m \<notin> set seen"
      and "compose_markers N s q observed (markerKey m # seen) ms = Some rest"
      by (auto split: if_splits)
    with Cons.IH [of "markerKey m # seen" rest] show ?thesis
      by auto
  qed
qed simp

lemma weak_order_marker_less: "weak_order marker_less"
  unfolding weak_order_def marker_less_def by (auto simp: not_less)

lemma marker_less_total: "markerKey a \<noteq> markerKey b \<Longrightarrow> \<not> marker_less b a \<Longrightarrow> marker_less a b"
  by (auto simp: marker_less_def)

lemma strictly_sorted_markers:
  "distinct (map markerKey ms) \<Longrightarrow> sorted_wrt (\<lambda>a b. \<not> marker_less b a) ms \<Longrightarrow> sorted_wrt marker_less ms"
proof (induction ms)
  case (Cons m ms)
  have "marker_less m b" if "b \<in> set ms" for b
    using Cons.prems that by (intro marker_less_total) (auto simp: image_iff)
  with Cons show ?case
    by simp
qed simp

lemma Compose_markers:
  assumes "Compose L s q observed coverage candidates truncated = Inr r"
  shows "\<exists>kept. set kept = set (filter (in_interval q) candidates) \<and> sorted_wrt marker_less kept \<and>
    wr_Markers r = drop (length kept - cm_MaxMarkers) kept \<and> (wr_Truncated r \<longleftrightarrow> truncated \<or> length kept > cm_MaxMarkers)"
proof -
  obtain ms where ms: "compose_markers (ch_names L) s q observed [] candidates = Some ms"
    using assms by (auto simp: Compose_def split: if_splits option.splits)
  let ?kept = "sort_slice marker_less ms"
  have "distinct (map markerKey ms)"
    using compose_markers_distinct [OF ms] by simp
  then have "distinct (map markerKey ?kept)"
    by (metis mset_eq_imp_distinct_iff mset_map mset_sort_slice)
  from strictly_sorted_markers [OF this sorted_sort_slice [OF weak_order_marker_less]]
  have "sorted_wrt marker_less ?kept" .
  moreover have "set ?kept = set (filter (in_interval q) candidates)"
    using compose_markers_filter [OF ms] by simp
  moreover have "wr_Markers r = drop (length ?kept - cm_MaxMarkers) ?kept"
    and "wr_Truncated r \<longleftrightarrow> truncated \<or> length ?kept > cm_MaxMarkers"
    using assms ms by (auto simp: Compose_def Let_def split: if_splits option.splits)
  ultimately show ?thesis
    by blast
qed

lemma Compose_Validate: "Compose L s q observed coverage candidates truncated = Inr r \<Longrightarrow> change_Validate L r = None"
  by (auto simp: Compose_def Let_def split: if_splits option.splits)

text \<open>A candidate of the interval that was left out is older than everything kept, and the report says so.\<close>

lemma omitted_marker_older:
  assumes "Compose L s q observed coverage candidates truncated = Inr r"
    and "m \<in> set candidates" and "in_interval q m" and "m \<notin> set (wr_Markers r)"
  shows "wr_Truncated r \<and> (\<forall>k \<in> set (wr_Markers r). marker_less m k)"
proof -
  obtain kept where kept: "set kept = set (filter (in_interval q) candidates)" "sorted_wrt marker_less kept"
    and markers: "wr_Markers r = drop (length kept - cm_MaxMarkers) kept"
    and truncated: "wr_Truncated r \<longleftrightarrow> truncated \<or> length kept > cm_MaxMarkers"
    using Compose_markers [OF assms(1)] by blast
  let ?n = "length kept - cm_MaxMarkers"
  have "m \<in> set (take ?n kept @ drop ?n kept)"
    using kept(1) assms(2,3) by simp
  with assms(4) have m: "m \<in> set (take ?n kept)"
    by (simp only: markers set_append) blast
  with kept(2) have "\<forall>k \<in> set (drop ?n kept). marker_less m k"
    by (metis append_take_drop_id sorted_wrt_append)
  moreover have "?n > 0"
    using m by (cases "?n = 0") auto
  ultimately show ?thesis
    by (simp add: markers truncated)
qed

end
