(* ===== verification/Wire_Policies.thy ===== *)
theory Wire_Policies
  imports Json_Walk Change_Markers Memory_Topology Volume_Context
begin

text \<open>
  The bounded walks of the packages, as instances of \<open>Json_Walk\<close>: \<open>nodecontext/decode.go\<close>,
  \<open>memorytopology/wire.go\<close>, \<open>memoryhistory/wire.go\<close>, \<open>changemarkers/wire.go\<close>, \<open>replicabaseline/wire.go\<close>,
  \<open>volumecontext/wire.go\<close>, \<open>extension/node_context_wire.go\<close>, \<open>api/volume_context_wire.go\<close>,
  \<open>incident/volume_wire.go\<close>, \<open>incidentsession/capture_syntax.go\<close> and \<open>kube/volume_context_wire.go\<close>. The tokens of the
  data and the strict decoder of \<open>encoding/json\<close> are parameters of a reader.

  \<open>strings.ToLower\<close> is written out for ASCII; \<open>unicode_lower\<close> stands for its tables on other strings.
\<close>

subsection \<open>Keys and scalars\<close>

definition ascii_lower :: "char \<Rightarrow> char" where
  "ascii_lower c = (if 65 \<le> byte c \<and> byte c \<le> 90 then char_of (byte c + 32) else c)"

definition to_lower :: "(string \<Rightarrow> string) \<Rightarrow> string \<Rightarrow> string" where
  "to_lower unicode_lower s = (if list_all (\<lambda>c. byte c < 128) s then map ascii_lower s else unicode_lower s)"

definition text_within :: "nat \<Rightarrow> jtok \<Rightarrow> bool" where
  "text_within most t = (case t of Text s \<Rightarrow> length s \<le> most | _ \<Rightarrow> True)"

text \<open>The limit of the first list of fields that holds the field.\<close>

fun field_limit :: "(string list \<times> nat) list \<Rightarrow> nat \<Rightarrow> string \<Rightarrow> nat" where
  "field_limit [] other field = other"
| "field_limit ((names, n) # rest) other field = (if field \<in> set names then n else field_limit rest other field)"

text \<open>
  The common case: a depth, a bound of text, of the length and the number of keys, duplicates looked for
  without case, and limits of arrays by field.
\<close>

definition folded_policy :: "(string \<Rightarrow> string) \<Rightarrow> nat \<Rightarrow> nat \<Rightarrow> nat \<Rightarrow> nat \<Rightarrow> (string list \<times> nat) list \<Rightarrow> wire_policy" where
  "folded_policy unicode_lower depth text key members limits =
    \<lparr>pol_depth = depth, pol_budget = None, pol_any = (\<lambda>_ _ _. True), pol_scalar = (\<lambda>_. text_within text),
     pol_key = (\<lambda>k. length k \<le> key), pol_members = (\<lambda>_. members), pol_unique = True, pol_fold = (\<lambda>_. to_lower unicode_lower),
     pol_child = id, pol_required = (\<lambda>_ _. []), pol_items = (\<lambda>_. field_limit limits 0), pol_element = (\<lambda>_. '''')\<rparr>"

subsection \<open>The packages\<close>

definition observationKeys :: "string list" where
  "observationKeys = [''nodeName'', ''nodeUID'', ''reportedAt'', ''availability'', ''reason'', ''evidence'', ''stats'', ''context'',
     ''source'', ''apiVersion'', ''capturedAt'', ''receivedAt'', ''windowNanoseconds'', ''scope'', ''freshness'', ''completeness'',
     ''capability'', ''caveats'', ''startedAt'', ''provenance'', ''memory'', ''swap'', ''systemContainers'', ''availableBytes'',
     ''usageBytes'', ''workingSetBytes'', ''rssBytes'', ''pageFaults'', ''majorPageFaults'', ''psi'', ''some'', ''full'',
     ''totalNanoseconds'', ''avg10'', ''avg60'', ''avg300'', ''category'', ''capacityBytes'', ''allocatableBytes'', ''memoryPressure'',
     ''hugepages'', ''resource'']"

definition psi_fields :: "string list" where
  "psi_fields = [''totalNanoseconds'', ''avg10'', ''avg60'', ''avg300'']"

definition observation_policy :: wire_policy where
  "observation_policy =
    \<lparr>pol_depth = 8, pol_budget = None, pol_any = (\<lambda>_ _ _. True),
     pol_scalar = (\<lambda>field t. \<not> (field \<in> set (''some'' # ''full'' # psi_fields) \<and> t = Null)),
     pol_key = (\<lambda>k. k \<in> set observationKeys), pol_members = (\<lambda>_. 32), pol_unique = True, pol_fold = (\<lambda>_ k. k), pol_child = id,
     pol_required = (\<lambda>_ field. if field = ''psi'' then [''some'', ''full'']
        else if field \<in> {''some'', ''full''} then psi_fields else []),
     pol_items = (\<lambda>_. field_limit [([''systemContainers''], MaxSystemContainers), ([''hugepages''], MaxHugepages),
        ([''caveats''], MaxCaveats)] 0),
     pol_element = (\<lambda>_. '''')\<rparr>"

definition topology_policy :: "(string \<Rightarrow> string) \<Rightarrow> wire_policy" where
  "topology_policy U = folded_policy U 12 512 64 24
     [([''items'', ''pools''], topo_MaxPageSizes), ([''nodes'', ''numa''], topo_MaxNodes), ([''caveats''], 8)]"

definition history_policy :: "(string \<Rightarrow> string) \<Rightarrow> wire_policy" where
  "history_policy U = folded_policy U 8 512 64 24
     [([''targets'', ''series''], mh_MaxTargets), ([''points''], nat mh_MaxPoints)]"

definition markers_policy :: "(string \<Rightarrow> string) \<Rightarrow> wire_policy" where
  "markers_policy U = folded_policy U 10 512 64 24
     [([''markers''], cm_MaxMarkers), ([''owners''], cm_MaxOwners), ([''targets'', ''series''], mh_MaxTargets),
      ([''points''], nat mh_MaxPoints)]"

definition rb_MaxPeers :: nat where
  "rb_MaxPeers = 16"

text \<open>\<open>len(policies)\<close>: the number of comparison policies of \<open>replicabaseline/policy.go\<close>.\<close>

definition rb_policies :: nat where
  "rb_policies = 8"

definition replica_policy :: "(string \<Rightarrow> string) \<Rightarrow> wire_policy" where
  "replica_policy U = folded_policy U 8 512 64 24
     [([''peers'', ''referenceUIDs'', ''omittedReferences'', ''excludedReferences''], rb_MaxPeers),
      ([''comparisons''], rb_policies), ([''caveats''], 8)]"

definition wireKeys :: "string list" where
  "wireKeys = [''schemaVersion'', ''nodeName'', ''nodeUID'', ''reportedAt'', ''state'', ''records'', ''namespace'', ''podUID'',
     ''volumeName'', ''pvcNamespace'', ''pvcName'', ''filesystem'', ''source'', ''availability'', ''reason'', ''freshness'',
     ''completeness'', ''capturedAt'', ''capacityBytes'', ''usedBytes'', ''availableBytes'', ''inodes'', ''inodesUsed'', ''inodesFree'']"

definition validText :: "string \<Rightarrow> nat \<Rightarrow> bool" where
  "validText value most \<longleftrightarrow> length value \<le> most \<and>
     (case utf8_runes value of None \<Rightarrow> False | Some rs \<Rightarrow> \<not> list_ex (\<lambda>r. is_control r \<or> is_format r) rs)"

definition MaxBatchRecords :: nat where
  "MaxBatchRecords = 1024"

text \<open>An array other than the records at depth one is refused whether or not it is empty.\<close>

definition batch_policy :: "(string \<Rightarrow> string) \<Rightarrow> wire_policy" where
  "batch_policy U =
    \<lparr>pol_depth = 8, pol_budget = None,
     pol_any = (\<lambda>depth field t. t = ArrayStart \<longrightarrow> field = ''records'' \<and> depth = 1),
     pol_scalar = (\<lambda>_ t. case t of Text s \<Rightarrow> validText s vol_MaxNameBytes | _ \<Rightarrow> True),
     pol_key = (\<lambda>k. length k \<le> 32 \<and> k \<in> set wireKeys), pol_members = (\<lambda>_. 16), pol_unique = True,
     pol_fold = (\<lambda>_. to_lower U), pol_child = id, pol_required = (\<lambda>_ _. []), pol_items = (\<lambda>_ _. MaxBatchRecords),
     pol_element = (\<lambda>_. '''')\<rparr>"

definition node_wire_policy :: "(string \<Rightarrow> string) \<Rightarrow> nat \<Rightarrow> wire_policy" where
  "node_wire_policy U volumeLimit =
    \<lparr>pol_depth = 16, pol_budget = None, pol_any = (\<lambda>_ _ _. True), pol_scalar = (\<lambda>_ _. True),
     pol_key = (\<lambda>k. length k \<le> 64), pol_members = (\<lambda>_. 64), pol_unique = True, pol_fold = (\<lambda>_. to_lower U),
     pol_child = to_lower U, pol_required = (\<lambda>_ _. []),
     pol_items = (\<lambda>_. field_limit [([''items'', ''pools'', ''numa''], topo_MaxPageSizes), ([''records''], volumeLimit),
        ([''systemcontainers''], MaxSystemContainers), ([''hugepages''], MaxHugepages), ([''caveats''], MaxCaveats)] 0),
     pol_element = (\<lambda>_. '''')\<rparr>"

definition vol_MaxVolumesPerPod :: nat where
  "vol_MaxVolumesPerPod = 64"

definition volume_read_policy :: "(string \<Rightarrow> string) \<Rightarrow> wire_policy" where
  "volume_read_policy U = folded_policy U 12 1024 64 64
     [([''volumes''], vol_MaxVolumesPerPod), ([''health''], 3), ([''conditions''], 16)]"

definition MaxVolumeHistoryPoints :: nat where
  "MaxVolumeHistoryPoints = 181"

text \<open>\<open>EqualFold\<close> with a word of these letters is equality without the case of ASCII.\<close>

definition volume_incident_policy :: "(string \<Rightarrow> string) \<Rightarrow> wire_policy" where
  "volume_incident_policy U =
    \<lparr>pol_depth = 24, pol_budget = Some 200000,
     pol_any = (\<lambda>depth field t. depth = 1 \<and> map ascii_lower field = ''redacted'' \<longrightarrow> (\<exists>b \<in> {True, False}. t = Truth b)),
     pol_scalar = (\<lambda>_. text_within 4096), pol_key = (\<lambda>k. length k \<le> 253), pol_members = (\<lambda>_. 256), pol_unique = True,
     pol_fold = (\<lambda>_. to_lower U), pol_child = id,
     pol_required = (\<lambda>depth _. if depth = 0 then
        [''schemaversion'', ''capturedat'', ''toolversion'', ''redacted'', ''pod'', ''volumes''] else []),
     pol_items = (\<lambda>_. field_limit [([''containers''], 256), ([''volumes''], 64), ([''health''], 3),
        ([''conditions'', ''caveats''], 16), ([''points''], MaxVolumeHistoryPoints)] 0),
     pol_element = (\<lambda>_. '''')\<rparr>"

text \<open>The walk of a captured document does not look for duplicates, and an array hands down its own field.\<close>

definition capture_policy :: wire_policy where
  "capture_policy =
    \<lparr>pol_depth = 16, pol_budget = Some 8192, pol_any = (\<lambda>_ _ _. True), pol_scalar = (\<lambda>_ _. True),
     pol_key = (\<lambda>k. length k \<le> 256), pol_members = (\<lambda>_. 128), pol_unique = False, pol_fold = (\<lambda>_ k. k), pol_child = id,
     pol_required = (\<lambda>_ _. []), pol_items = (\<lambda>_ field. if field = ''points'' then nat mh_MaxPoints else 128),
     pol_element = id\<rparr>"

definition kube_object_policy :: "(string \<Rightarrow> string) \<Rightarrow> nat \<Rightarrow> wire_policy" where
  "kube_object_policy U items =
    \<lparr>pol_depth = 32, pol_budget = None, pol_any = (\<lambda>_ _ _. True), pol_scalar = (\<lambda>_ _. True),
     pol_key = (\<lambda>k. length k \<le> 1024), pol_members = (\<lambda>_. 1024), pol_unique = True, pol_fold = (\<lambda>_. to_lower U),
     pol_child = to_lower U, pol_required = (\<lambda>_ _. []),
     pol_items = (\<lambda>_. field_limit [([''items''], items),
        ([''volumes'', ''volumemounts'', ''volumehealth'', ''ownerreferences''], vol_MaxVolumesPerPod),
        ([''containers'', ''initcontainers'', ''ephemeralcontainers'', ''containerstatuses'', ''initcontainerstatuses'',
          ''ephemeralcontainerstatuses''], 256),
        ([''healthconditions''], 16), ([''drivers'', ''storagehealth''], 128)] 1024),
     pol_element = (\<lambda>_. '''')\<rparr>"

subsection \<open>Readers\<close>

text \<open>
  What the walks of \<open>memoryhistory\<close>, \<open>changemarkers\<close>, \<open>memorytopology\<close> and \<open>replicabaseline\<close> return: their
  \<open>ErrBounds\<close> for a document that is too large, their \<open>ErrInvalid\<close> for one that is malformed.
  (\<open>changemarkers\<close> returns the decoder's own error when the closing token is missing.)
\<close>

datatype wire_fault = BoundsExceeded | WireInvalid

fun fault_of :: "walk_error \<Rightarrow> wire_fault" where
  "fault_of Unreadable = WireInvalid"
| "fault_of KeyRepeated = WireInvalid"
| "fault_of _ = BoundsExceeded"

record 'a wire_reader =
  wr_tokens :: "string \<Rightarrow> jtok list"
  wr_strict :: "string \<Rightarrow> 'a option"

text \<open>Size and UTF-8, then the walk, then the strict decoder.\<close>

definition read_bounded :: "nat \<Rightarrow> wire_policy \<Rightarrow> 'a wire_reader \<Rightarrow> string \<Rightarrow> wire_fault + 'a" where
  "read_bounded most P R data =
    (if length data > most \<or> \<not> utf8_valid data then Inl BoundsExceeded
     else case bounded_document P (wr_tokens R data) of
         Some e \<Rightarrow> Inl (fault_of e)
       | None \<Rightarrow> (case wr_strict R data of None \<Rightarrow> Inl WireInvalid | Some x \<Rightarrow> Inr x))"

definition read_topology :: "nat \<Rightarrow> (string \<Rightarrow> string) \<Rightarrow> 'a wire_reader \<Rightarrow> string \<Rightarrow> wire_fault + 'a" where
  "read_topology most U = read_bounded most (topology_policy U)"

definition read_history :: "(string \<Rightarrow> string) \<Rightarrow> 'a wire_reader \<Rightarrow> string \<Rightarrow> wire_fault + 'a" where
  "read_history U = read_bounded (1024 * 1024) (history_policy U)"

definition read_markers :: "nat \<Rightarrow> (string \<Rightarrow> string) \<Rightarrow> 'a wire_reader \<Rightarrow> string \<Rightarrow> wire_fault + 'a" where
  "read_markers most U = read_bounded most (markers_policy U)"

definition read_replicas :: "(string \<Rightarrow> string) \<Rightarrow> 'a wire_reader \<Rightarrow> string \<Rightarrow> wire_fault + 'a" where
  "read_replicas U = read_bounded (256 * 1024) (replica_policy U)"

text \<open>\<open>Observation.UnmarshalJSON\<close> of \<open>nodecontext\<close>: every failure is one error.\<close>

definition read_observation :: "'a wire_reader \<Rightarrow> string \<Rightarrow> 'a option" where
  "read_observation R data =
    (if length data > MaxObservationBytes then None
     else if bounded_document observation_policy (wr_tokens R data) \<noteq> None then None
     else wr_strict R data)"

definition boundedWire :: "(string \<Rightarrow> string) \<Rightarrow> jtok list \<Rightarrow> bool" where
  "boundedWire U ts \<longleftrightarrow> bounded_document (batch_policy U) ts = None"

definition boundedNodeWireWithVolumes :: "(string \<Rightarrow> string) \<Rightarrow> nat \<Rightarrow> jtok list \<Rightarrow> bool" where
  "boundedNodeWireWithVolumes U volumeLimit ts \<longleftrightarrow> bounded_document (node_wire_policy U volumeLimit) ts = None"

definition boundedNodeWire :: "(string \<Rightarrow> string) \<Rightarrow> jtok list \<Rightarrow> bool" where
  "boundedNodeWire U = boundedNodeWireWithVolumes U 0"

definition read_volume_context :: "(string \<Rightarrow> string) \<Rightarrow> 'a wire_reader \<Rightarrow> string \<Rightarrow> 'a option" where
  "read_volume_context U R data =
    (if length data > 256 * 1024 then None
     else if bounded_document (volume_read_policy U) (wr_tokens R data) \<noteq> None then None
     else wr_strict R data)"

definition decodeVolume_bounded :: "(string \<Rightarrow> string) \<Rightarrow> nat \<Rightarrow> 'a wire_reader \<Rightarrow> string \<Rightarrow> 'a option" where
  "decodeVolume_bounded U most R data =
    (if length data > most then None
     else if bounded_document (volume_incident_policy U) (wr_tokens R data) \<noteq> None then None
     else wr_strict R data)"

definition boundedCaptureData :: "jtok list \<Rightarrow> bool" where
  "boundedCaptureData ts \<longleftrightarrow> bounded_document capture_policy ts = None"

definition vol_MaxWorkloadPods :: nat where
  "vol_MaxWorkloadPods = 32"

definition boundedObjectItems :: "(string \<Rightarrow> string) \<Rightarrow> (string \<Rightarrow> jtok list) \<Rightarrow> string \<Rightarrow> nat \<Rightarrow> bool" where
  "boundedObjectItems U toks body items \<longleftrightarrow>
     length body \<le> 1024 * 1024 \<and> bounded_document (kube_object_policy U items) (toks body) = None"

definition boundedVolumeObject :: "(string \<Rightarrow> string) \<Rightarrow> (string \<Rightarrow> jtok list) \<Rightarrow> string \<Rightarrow> bool" where
  "boundedVolumeObject U toks body = boundedObjectItems U toks body (vol_MaxWorkloadPods + 1)"

end
