(* ===== verification/Wire_Properties.thy ===== *)
theory Wire_Properties
  imports Wire_Policies
begin

text \<open>What the bounded walks of the wire formats establish.\<close>

text \<open>
  C33. The walk over the tokens of a document accepts it exactly if the tree it denotes is within the
  limits of the policy: nesting, number and names of members, repeated keys, required fields, length of
  arrays, scalars, and the number of values. So no order of members or items, and no content outside
  the limits, changes what is accepted.
\<close>

theorem bounded_walk_is_structural:
  "bounded_document P (tokens v) = None \<longleftrightarrow> fits P 0 '''' v \<and> within_budget P (json_values v)"
  by (rule bounded_document_tree)

end
