(* ===== verification/Incident_Documents.thy ===== *)
theory Incident_Documents
  imports Aggregates Change_Markers
begin

text \<open>
  The incident documents of package \<open>api\<close>: the bundle of Pod and Node snapshots with its schema versions
  (\<open>types.go\<close>, \<open>resource_schema.go\<close>, \<open>io_schema.go\<close>, \<open>incident_validation.go\<close>) and the incident of memory history
  (\<open>history_incident.go\<close>). The size of a marshalled document is a parameter.

  The lemmas: a bundle projected to schema 1 is a valid bundle of schema 1, with nothing left of what its readers do
  not know.
\<close>

subsection \<open>Projections of Pods\<close>

definition podForSchema :: "pod_snapshot \<Rightarrow> int \<Rightarrow> pod_snapshot" where
  "podForSchema p version =
    (let p1 = (if version = LegacySchemaVersion then p\<lparr>ps_Context := (ps_Context p)\<lparr>pc_Resources := pr_zero\<rparr>\<rparr> else p)
     in if version < IOPressureSnapshotSchemaVersion
        then p1\<lparr>ps_Memory := (ps_Memory p1)\<lparr>IOPressure := io_zero\<rparr>,
          ps_Containers := containersForSchema (ps_Containers p1) version\<rparr> else p1)"

definition podsForSchema :: "pod_snapshot list \<Rightarrow> int \<Rightarrow> pod_snapshot list" where
  "podsForSchema pods version = map (\<lambda>p. podForSchema p version) pods"

definition legacyPods :: "pod_snapshot list \<Rightarrow> pod_snapshot list" where
  "legacyPods pods = podsForSchema pods LegacySchemaVersion"

definition LegacyPodSnapshot :: "pod_snapshot \<Rightarrow> pod_snapshot" where
  "LegacyPodSnapshot p = podForSchema p LegacySchemaVersion"

definition workloadForSchema :: "workload_snapshot \<Rightarrow> int \<Rightarrow> workload_snapshot" where
  "workloadForSchema w version =
    w\<lparr>wl_Pods := podsForSchema (wl_Pods w) version, wl_Memory := (wl_Memory w)\<lparr>IOPressure := io_zero\<rparr>\<rparr>"

subsection \<open>Incident bundles\<close>

record incident_bundle =
  ib_SchemaVersion :: int
  ib_CapturedAt :: time
  ib_ToolVersion :: string
  ib_Redacted :: bool
  ib_Partial :: bool
  ib_Caveats :: "string list"
  ib_Reliability :: "collector_reliability option"
  ib_Pods :: "pod_snapshot list"
  ib_Nodes :: "node_status list"
  ib_Histories :: "pod_history list"

definition CurrentIncidentSchemaVersion :: int where
  "CurrentIncidentSchemaVersion = 2"

definition PodHasResourceContext :: "pod_snapshot \<Rightarrow> bool" where
  "PodHasResourceContext p \<longleftrightarrow> \<not> pr_IsZero (pc_Resources (ps_Context p)) \<or>
     list_ex (\<lambda>c. \<not> cr_IsZero (cc_Resources (cs_Context c))) (ps_Containers p)"

definition IncidentSchema :: "pod_snapshot list \<Rightarrow> int" where
  "IncidentSchema pods = (if list_ex PodHasResourceContext pods then CurrentIncidentSchemaVersion else LegacySchemaVersion)"

definition pod_has_io :: "pod_snapshot \<Rightarrow> bool" where
  "pod_has_io p \<longleftrightarrow> io_State (IOPressure (ps_Memory p)) \<noteq> '''' \<or>
     list_ex (\<lambda>c. io_State (IOPressure (cs_Memory c)) \<noteq> '''') (ps_Containers p)"

definition io_caveat :: string where
  "io_caveat = ''Cgroup I/O pressure was omitted for incident schema 1/2; use a volume incident to retain it.''"

definition resource_caveat :: string where
  "resource_caveat = ''Pod resource and resize context was omitted for incident schema 1.''"

text \<open>\<open>VolumeHealthSnapshotSchemaVersion\<close> is 5.\<close>

definition WithoutIOIncident :: "incident_bundle \<Rightarrow> incident_bundle" where
  "WithoutIOIncident b =
    (if list_ex pod_has_io (ib_Pods b)
     then b\<lparr>ib_Partial := True, ib_Caveats := ib_Caveats b @ [io_caveat], ib_Pods := podsForSchema (ib_Pods b) 5\<rparr> else b)"

definition LegacyIncident :: "incident_bundle \<Rightarrow> incident_bundle" where
  "LegacyIncident bundle =
    (let b = WithoutIOIncident bundle;
         b1 = (if IncidentSchema (ib_Pods b) \<noteq> LegacySchemaVersion
           then b\<lparr>ib_Partial := True, ib_Caveats := ib_Caveats b @ [resource_caveat]\<rparr> else b)
     in b1\<lparr>ib_SchemaVersion := LegacySchemaVersion, ib_Pods := legacyPods (ib_Pods b1)\<rparr>)"

datatype incident_error = UnsupportedIncidentSchema | NeedsIncidentSchema2 | NeedsVolumeIncident | IncidentResources resource_error

fun container_incident_error :: "container_snapshot list \<Rightarrow> incident_error option" where
  "container_incident_error [] = None"
| "container_incident_error (c # cs) =
    (if io_State (IOPressure (cs_Memory c)) \<noteq> '''' then Some NeedsVolumeIncident
     else case cr_Validate (cc_Resources (cs_Context c)) of
         Some e \<Rightarrow> Some (IncidentResources e) | None \<Rightarrow> container_incident_error cs)"

fun pods_incident_error :: "pod_snapshot list \<Rightarrow> incident_error option" where
  "pods_incident_error [] = None"
| "pods_incident_error (p # ps) =
    (if io_State (IOPressure (ps_Memory p)) \<noteq> '''' then Some NeedsVolumeIncident
     else case cr_Validate (cr_zero\<lparr>cr_Pod := pc_Resources (ps_Context p)\<rparr>) of
         Some e \<Rightarrow> Some (IncidentResources e)
       | None \<Rightarrow> (case container_incident_error (ps_Containers p) of Some e \<Rightarrow> Some e | None \<Rightarrow> pods_incident_error ps))"

definition ValidateIncidentSchema :: "incident_bundle \<Rightarrow> incident_error option" where
  "ValidateIncidentSchema b =
    (if ib_SchemaVersion b \<noteq> LegacySchemaVersion \<and> ib_SchemaVersion b \<noteq> CurrentIncidentSchemaVersion then
       Some UnsupportedIncidentSchema
     else if ib_SchemaVersion b = LegacySchemaVersion \<and> IncidentSchema (ib_Pods b) \<noteq> LegacySchemaVersion then
       Some NeedsIncidentSchema2
     else pods_incident_error (ib_Pods b))"

subsection \<open>History incidents\<close>

record history_incident =
  hi_SchemaVersion :: int
  hi_CapturedAt :: time
  hi_ToolVersion :: string
  hi_Redacted :: bool
  hi_Context :: change_context
  hi_Caveats :: "string list"

definition HistoryIncidentSchemaVersion :: int where
  "HistoryIncidentSchemaVersion = 6"

definition MaxHistoryIncidentBytes :: nat where
  "MaxHistoryIncidentBytes = 2 * 1024 * 1024"

definition HistoryIncidentAliasCaveat :: string where
  "HistoryIncidentAliasCaveat = ''Aliases apply only within this capture; they cannot establish identity continuity across captures.''"

definition HistoryIncidentCaveats :: "string list" where
  "HistoryIncidentCaveats =
    [''Retained events are best-effort reports; missing events do not prove no changes.'',
     ''Source clocks may differ; correlation does not establish causation.'',
     ''History covers current selected instances; markers do not join memory across UIDs.'']"

text \<open>The runes refused in the version of the tool are single bytes in UTF-8.\<close>

definition ValidateHistoryIncident :: "change_lib \<Rightarrow> (history_incident \<Rightarrow> nat option) \<Rightarrow> history_incident \<Rightarrow> bool" where
  "ValidateHistoryIncident L bytes b \<longleftrightarrow>
    hi_SchemaVersion b = HistoryIncidentSchemaVersion \<and> context_Validate L (hi_Context b) = None \<and>
    \<not> is_zero_time (hi_CapturedAt b) \<and> \<not> wr_ObservedAt (wx_Changes (hi_Context b)) > hi_CapturedAt b \<and>
    \<not> rp_ReceivedAt (wx_History (hi_Context b)) > hi_CapturedAt b \<and> hi_ToolVersion b \<noteq> '''' \<and>
    length (hi_ToolVersion b) \<le> 512 \<and> \<not> list_ex (\<lambda>c. byte c < 32 \<or> byte c = 127) (hi_ToolVersion b) \<and>
    hi_Caveats b = HistoryIncidentCaveats @ (if hi_Redacted b then [HistoryIncidentAliasCaveat] else []) \<and>
    marshals_within (bytes b) MaxHistoryIncidentBytes"

subsection \<open>The projection to schema 1\<close>

lemma LegacyIncident_schema [simp]: "ib_SchemaVersion (LegacyIncident b) = LegacySchemaVersion"
  by (simp add: LegacyIncident_def Let_def)

lemma legacy_container_plain:
  "c \<in> set (containersForSchema cs LegacySchemaVersion) \<Longrightarrow>
    cc_Resources (cs_Context c) = cr_zero \<and> IOPressure (cs_Memory c) = io_zero"
  by (auto simp: containersForSchema_def containerForSchema_def Let_def schema_defs)

lemma legacy_containers_valid: "container_incident_error (containersForSchema cs LegacySchemaVersion) = None"
proof (induction cs)
  case (Cons c cs)
  have "cc_Resources (cs_Context (containerForSchema c LegacySchemaVersion)) = cr_zero"
    and "IOPressure (cs_Memory (containerForSchema c LegacySchemaVersion)) = io_zero"
    using legacy_container_plain [of "containerForSchema c LegacySchemaVersion" "c # cs"]
    by (simp_all add: containersForSchema_def)
  with Cons show ?case
    by (simp add: containersForSchema_def io_zero_def cr_Validate_zero)
qed (simp add: containersForSchema_def)

lemma podForSchema_legacy:
  "pc_Resources (ps_Context (podForSchema p LegacySchemaVersion)) = pr_zero"
  "IOPressure (ps_Memory (podForSchema p LegacySchemaVersion)) = io_zero"
  "ps_Containers (podForSchema p LegacySchemaVersion) = containersForSchema (ps_Containers p) LegacySchemaVersion"
  by (simp_all add: podForSchema_def Let_def schema_defs)

lemma legacy_pods_valid: "pods_incident_error (podsForSchema ps LegacySchemaVersion) = None"
proof (induction ps)
  case (Cons p ps)
  have "cr_zero\<lparr>cr_Pod := pr_zero\<rparr> = cr_zero"
    by (simp add: cr_zero_def)
  with Cons show ?case
    by (simp add: podsForSchema_def podForSchema_legacy legacy_containers_valid io_zero_def cr_Validate_zero)
qed (simp add: podsForSchema_def)

lemma legacy_pod_context: "\<not> PodHasResourceContext (podForSchema p LegacySchemaVersion)"
  using legacy_container_plain
  by (auto simp: PodHasResourceContext_def podForSchema_legacy pr_IsZero_def cr_IsZero_def list_ex_iff)

lemma legacy_pods_schema: "IncidentSchema (podsForSchema ps LegacySchemaVersion) = LegacySchemaVersion"
  using legacy_pod_context by (auto simp: IncidentSchema_def podsForSchema_def list_ex_iff)

lemma LegacyIncident_valid: "ValidateIncidentSchema (LegacyIncident b) = None"
  by (simp add: ValidateIncidentSchema_def LegacyIncident_def Let_def legacyPods_def legacy_pods_valid legacy_pods_schema)

end
