(* ===== verification/Trace_Reference.thy ===== *)
theory Trace_Reference
  imports Go_Text
begin

text \<open>
  \<open>tracereport\<close>: the reference that identifies an operator-supplied trace report, its outcome and the validation
  of both (\<open>reference.go\<close>, \<open>reference_outcome.go\<close>, \<open>reference_validation.go\<close>, \<open>archiveError\<close>), with the stream
  versions of \<open>traceframe\<close> and the contract negotiation of \<open>tracecompat\<close>. A validation is the absence of an error:
  each of them returns one error value only.

  The lemmas: a complete reference reports no loss, and negotiation agrees on a contract both sides offer.
\<close>

subsection \<open>Stream versions and contracts\<close>

definition AllowsKind :: "int \<Rightarrow> string \<Rightarrow> bool" where
  "AllowsKind version kind \<longleftrightarrow>
    (if version = 1 then kind \<in> {''files'', ''cache'', ''oom''}
     else if version = 2 then kind \<in> {''files'', ''cache''}
     else if version = 3 then kind = ''oom''
     else False)"

definition SupportedVersion :: "int \<Rightarrow> bool" where
  "SupportedVersion version \<longleftrightarrow> version = 1 \<or> version = 2 \<or> version = 3"

definition Reserve :: "int \<Rightarrow> int" where
  "Reserve version = (if version = 2 then 4 * 1024 else if version = 3 then 6 * 1024 else 2 * 1024)"

definition StreamCompatible :: "string \<Rightarrow> int \<Rightarrow> bool" where
  "StreamCompatible kind version \<longleftrightarrow>
    (if kind \<in> {''files'', ''cache''} then version = 2 else if kind = ''oom'' then version = 3 else False)"

datatype negotiation_error = OfferInvalid | Incompatible

text \<open>
  \<open>number\<close>: a canonical decimal of 16 bits that is not zero. \<open>strconv.ParseUint\<close> accepts digits only, so a text
  that \<open>FormatUint\<close> gives back has no leading zero.
\<close>

definition decimal_digit :: "char \<Rightarrow> bool" where
  "decimal_digit c \<longleftrightarrow> 48 \<le> byte c \<and> byte c \<le> 57"

definition offer_number :: "string \<Rightarrow> nat option" where
  "offer_number s =
    (let v = foldl (\<lambda>n c. n * 10 + (byte c - 48)) 0 s
     in if s = '''' \<or> \<not> list_all decimal_digit s \<or> hd s = CHR ''0'' \<or> v \<ge> 65536 then None else Some v)"

fun split_dash :: "string \<Rightarrow> string list" where
  "split_dash [] = [[]]"
| "split_dash (c # s) =
    (if c = CHR ''-'' then [] # split_dash s else case split_dash s of [] \<Rightarrow> [[c]] | p # ps \<Rightarrow> (c # p) # ps)"

definition Negotiate :: "string list \<Rightarrow> nat \<Rightarrow> nat \<Rightarrow> negotiation_error + nat" where
  "Negotiate values lowest highest =
    (if \<not> (lowest > 0 \<and> highest \<ge> lowest) then Inl OfferInvalid
     else case values of
         [] \<Rightarrow> if lowest \<noteq> 1 then Inl Incompatible else Inr 0
       | [value] \<Rightarrow>
           if length value > 11 then Inl OfferInvalid
           else (case split_dash value of
               [a, b] \<Rightarrow>
                 (case offer_number a of None \<Rightarrow> Inl OfferInvalid | Some low \<Rightarrow>
                  case offer_number b of None \<Rightarrow> Inl OfferInvalid | Some high \<Rightarrow>
                    if high < low then Inl OfferInvalid
                    else if min high highest < max low lowest then Inl Incompatible
                    else Inr (min high highest))
             | _ \<Rightarrow> Inl OfferInvalid)
       | _ \<Rightarrow> Inl OfferInvalid)"

definition AcceptResponse :: "string list \<Rightarrow> bool" where
  "AcceptResponse values \<longleftrightarrow> values = [''1'']"

subsection \<open>References\<close>

record reference_count =
  rc_Known :: bool
  rc_Value :: u64

record trace_reference =
  tf_SchemaVersion :: int
  tf_Provenance :: string
  tf_Digest :: string
  tf_Bytes :: int
  tf_ReportSchemaVersion :: int
  tf_CapturedAt :: time
  tf_TraceKind :: string
  tf_Contract :: string
  tf_StreamVersion :: int
  tf_EngineDigest :: string
  tf_ProgrammeDigest :: string
  tf_State :: string
  tf_Cleanup :: string
  tf_Failure :: string
  tf_CleanupFailure :: string
  tf_TransportComplete :: bool
  tf_Termination :: string
  tf_Coverage :: string
  tf_Produced :: reference_count
  tf_Sampled :: reference_count
  tf_Lost :: reference_count
  tf_Rejected :: reference_count

record reference_outcome =
  oc_TraceKind :: string
  oc_State :: string
  oc_Cleanup :: string
  oc_TransportComplete :: bool
  oc_Termination :: string
  oc_Coverage :: string
  oc_Loss :: string

definition Outcome :: "trace_reference \<Rightarrow> reference_outcome" where
  "Outcome r = \<lparr>oc_TraceKind = tf_TraceKind r, oc_State = tf_State r, oc_Cleanup = tf_Cleanup r,
     oc_TransportComplete = tf_TransportComplete r, oc_Termination = tf_Termination r, oc_Coverage = tf_Coverage r,
     oc_Loss = (if \<not> rc_Known (tf_Lost r) then ''unreported''
       else if rc_Value (tf_Lost r) \<noteq> 0 then ''reported'' else ''none-reported'')\<rparr>"

definition terminal_state :: "string \<Rightarrow> bool" where
  "terminal_state s \<longleftrightarrow> s \<in> {''completed'', ''cancelled'', ''truncated'', ''failed''}"

definition outcome_valid :: "reference_outcome \<Rightarrow> bool" where
  "outcome_valid x \<longleftrightarrow>
    terminal_state (oc_State x) \<and> oc_Cleanup x \<in> {''confirmed'', ''unconfirmed'', ''not_requested''} \<and>
    oc_TraceKind x \<in> {''unreported'', ''files'', ''cache'', ''oom''} \<and>
    oc_Loss x \<in> {''unreported'', ''none-reported'', ''reported''} \<and>
    (if oc_Termination x = ''unreported'' then
       \<not> (oc_Coverage x \<noteq> ''unreported'' \<or> oc_Loss x \<noteq> ''unreported'' \<or> oc_TransportComplete x \<or>
          oc_State x = ''completed'' \<or> oc_State x = ''truncated'')
     else
       oc_TraceKind x \<noteq> ''unreported'' \<and> oc_Coverage x \<in> {''complete'', ''incomplete''} \<and>
       oc_Termination x \<in> {''expired'', ''cancelled'', ''target_changed'', ''output_limit'', ''event_limit'', ''engine_failed'',
         ''authorisation_lost''} \<and>
       \<not> (oc_State x = ''completed'' \<and> (oc_Termination x \<noteq> ''expired'' \<or> \<not> oc_TransportComplete x)) \<and>
       \<not> (oc_State x = ''truncated'' \<and> (oc_Termination x \<notin> {''event_limit'', ''output_limit''} \<or> \<not> oc_TransportComplete x)) \<and>
       \<not> (oc_Coverage x = ''complete'' \<and> (oc_Termination x \<noteq> ''expired'' \<or> oc_Loss x \<noteq> ''none-reported'')))"

definition archive_errors :: "string list" where
  "archive_errors = [''invalid'', ''configuration'', ''unavailable'', ''denied'', ''target_changed'', ''capacity'', ''gone'',
     ''invalid_response'', ''outcome_unknown'', ''incomplete'', ''cancelled'', ''deadline_exceeded'', ''unreported'']"

definition archiveError :: "string option \<Rightarrow> int \<Rightarrow> bool" where
  "archiveError value version \<longleftrightarrow> (case value of None \<Rightarrow> True
     | Some v \<Rightarrow> v \<in> set archive_errors \<or> v = ''incompatible'' \<and> version \<ge> 2)"

definition reportDigest :: "string \<Rightarrow> bool" where
  "reportDigest value \<longleftrightarrow> length value = 71 \<and> take 7 value = ''sha256:'' \<and> list_all lower_hex (drop 7 value)"

text \<open>\<open>time.Time.MarshalJSON\<close> refuses a year outside 0 to 9999; the bounds are in days since year 1. The offset an imported time
  carries is not modelled, only its instant.\<close>

definition serialisable :: "time \<Rightarrow> bool" where
  "serialisable t \<longleftrightarrow> - 366 * 86400 * second \<le> t \<and> t < 3652059 * 86400 * second"

text \<open>\<open>bits.Add64\<close> with the carry checked: the sum, if it fits.\<close>

fun checked_sum :: "u64 list \<Rightarrow> u64 option" where
  "checked_sum [] = Some 0"
| "checked_sum (x # xs) = (case checked_sum xs of None \<Rightarrow> None
     | Some y \<Rightarrow> if unat x + unat y \<ge> 2 ^ 64 then None else Some (x + y))"

definition counts_of :: "trace_reference \<Rightarrow> reference_count list" where
  "counts_of r = [tf_Produced r, tf_Sampled r, tf_Lost r, tf_Rejected r]"

definition reference_valid :: "trace_reference \<Rightarrow> bool" where
  "reference_valid r \<longleftrightarrow>
    tf_SchemaVersion r = 1 \<and> tf_Provenance r = ''operator-supplied'' \<and> length (tf_Digest r) = 64 \<and>
    list_all lower_hex (tf_Digest r) \<and> 1 \<le> tf_Bytes r \<and> tf_Bytes r \<le> 32 * 1024 \<and> 1 \<le> tf_ReportSchemaVersion r \<and>
    tf_ReportSchemaVersion r \<le> 2 \<and> \<not> is_zero_time (tf_CapturedAt r) \<and> outcome_valid (Outcome r) \<and>
    serialisable (tf_CapturedAt r) \<and>
    list_all (\<lambda>failure. failure = ''none'' \<or> archiveError (Some failure) (tf_ReportSchemaVersion r))
      [tf_Failure r, tf_CleanupFailure r] \<and>
    (tf_Contract r = ''unreported'' \<or> tf_Contract r = ''1'' \<and> tf_ReportSchemaVersion r = 2) \<and>
    (if tf_StreamVersion r = 0 then
       \<not> (tf_EngineDigest r \<noteq> '''' \<or> tf_ProgrammeDigest r \<noteq> '''' \<or> tf_TransportComplete r \<or> tf_Termination r \<noteq> ''unreported'')
     else AllowsKind (tf_StreamVersion r) (tf_TraceKind r) \<and> reportDigest (tf_EngineDigest r) \<and>
       reportDigest (tf_ProgrammeDigest r) \<and>
       \<not> (tf_Contract r = ''1'' \<and> \<not> StreamCompatible (tf_TraceKind r) (tf_StreamVersion r))) \<and>
    list_all (\<lambda>c. rc_Known c \<or> rc_Value c = 0) (counts_of r) \<and>
    (tf_StreamVersion r \<noteq> 0 \<and> tf_StreamVersion r \<noteq> 1 \<longrightarrow>
       tf_Coverage r \<noteq> ''complete'' \<and>
       (case checked_sum [rc_Value (tf_Sampled r), rc_Value (tf_Lost r), rc_Value (tf_Rejected r)] of
          None \<Rightarrow> False
        | Some lower \<Rightarrow> \<not> (rc_Known (tf_Produced r) \<and> lower > rc_Value (tf_Produced r)))) \<and>
    \<not> (tf_Termination r = ''unreported'' \<and> list_ex rc_Known (counts_of r)) \<and>
    \<not> (tf_State r = ''completed'' \<and> tf_Failure r \<noteq> ''none'') \<and>
    \<not> (tf_Coverage r = ''complete'' \<and> (\<not> list_all rc_Known (counts_of r) \<or> rc_Value (tf_Sampled r) \<noteq> 0 \<or>
       rc_Value (tf_Lost r) \<noteq> 0 \<or> rc_Value (tf_Rejected r) \<noteq> 0))"

subsection \<open>What validity says\<close>

lemma complete_reference_lossless:
  "reference_valid r \<Longrightarrow> tf_Coverage r = ''complete'' \<Longrightarrow>
    tf_Termination r = ''expired'' \<and> tf_Lost r = \<lparr>rc_Known = True, rc_Value = 0\<rparr>"
  by (auto simp: reference_valid_def outcome_valid_def Outcome_def counts_of_def split: if_splits)

lemma Negotiate_common:
  assumes "Negotiate [value] lowest highest = Inr version"
  shows "lowest \<le> version \<and> version \<le> highest"
  using assms by (auto simp: Negotiate_def Let_def split: if_splits list.splits option.splits)

end
