(* ===== verification/Session_Syntax.thy ===== *)
theory Session_Syntax
  imports Json_Walk Incident_Session
begin

text \<open>
  \<open>incidentsession/decode_syntax.go\<close>: the bounds of the raw syntax of a timeline. The walk counts every token,
  the keys and the closing ones too, and measures the objects of the field \<open>entries\<close> in bytes. A token comes with
  \<open>Decoder.InputOffset\<close> after it; the end of the list is \<open>io.EOF\<close> and \<open>Broken\<close> any other error, as in \<open>Json_Walk\<close>.

  The lemma: the fuel that stands for the call stack is never exhausted, so a refusal is the code's own.
\<close>

type_synonym offset_token = "jtok \<times> nat"

datatype syntax_result = SyntaxRefused | SyntaxUnreturned

text \<open>The tokens counted, the offset after the last one, and the tokens that are left.\<close>

type_synonym syntax_state = "nat \<times> nat \<times> offset_token list"

definition next_token :: "syntax_state \<Rightarrow> (jtok \<times> syntax_state) option" where
  "next_token st = (case st of (n, off, ts) \<Rightarrow>
     (if Suc n > 8192 then None
      else case ts of [] \<Rightarrow> None | (t, off') # rest \<Rightarrow> if broken t then None else Some (t, Suc n, off', rest)))"

definition syntax_more :: "syntax_state \<Rightarrow> bool" where
  "syntax_more st = has_more (map fst (snd (snd st)))"

fun required_names :: "string \<Rightarrow> string list option" where
  "required_names field =
    (if field = '''' then Some [''kind'', ''schemaVersion'', ''redacted'', ''openedAt'', ''expiresAt'', ''entries'', ''limitReached'']
     else if field = ''entries'' then
       Some [''sequence'', ''kind'', ''recordedAt'', ''observedAt'', ''namespace'', ''actor'', ''source'', ''sensitivity'', ''clockUncertain'']
     else if field = ''captures'' then Some [''namespaceUID'', ''digest'', ''schemaVersion'', ''observedAt'', ''data'']
     else if field = ''references'' then Some [''schemaVersion'', ''observedAt'']
     else if field = ''traceReference'' then
       Some [''provenance'', ''reportSchemaVersion'', ''traceKind'', ''state'', ''cleanup'', ''termination'', ''coverage'', ''transportComplete'']
     else if field \<in> {''produced'', ''sampled'', ''lost'', ''rejected''} then Some [''known'', ''value'']
     else None)"

definition requiredFields :: "string \<Rightarrow> string list \<Rightarrow> bool" where
  "requiredFields field seen = (case required_names field of None \<Rightarrow> False | Some names \<Rightarrow> list_all (\<lambda>k. k \<in> set seen) names)"

definition member_limit :: "string \<Rightarrow> nat" where
  "member_limit field = (if field = ''traceReference'' then 22 else 16)"

text \<open>The limit of an array; \<open>None\<close> for a field that may not be one.\<close>

definition array_limit :: "string \<Rightarrow> nat option" where
  "array_limit field = (if field = ''entries'' then Some MaxEntries else if field = ''captures'' then Some MaxCaptures
     else if field = ''references'' then Some 2 else None)"

type_synonym syntax_walker = "nat \<Rightarrow> string \<Rightarrow> syntax_state \<Rightarrow> syntax_result + syntax_state"

primrec syntax_members :: "nat \<Rightarrow> syntax_walker \<Rightarrow> nat \<Rightarrow> string \<Rightarrow> string list \<Rightarrow> syntax_state \<Rightarrow>
    syntax_result + (string list \<times> syntax_state)" where
  "syntax_members 0 walk depth field seen st = Inl SyntaxUnreturned"
| "syntax_members (Suc fuel) walk depth field seen st =
    (if \<not> syntax_more st then Inr (seen, st)
     else case next_token st of
         Some (Text key, st') \<Rightarrow>
           if length key > 32 \<or> key \<in> set seen \<or> length seen \<ge> member_limit field then Inl SyntaxRefused
           else (case walk (Suc depth) key st' of
               Inl e \<Rightarrow> Inl e
             | Inr st'' \<Rightarrow> syntax_members fuel walk depth field (key # seen) st'')
       | _ \<Rightarrow> Inl SyntaxRefused)"

primrec syntax_items :: "nat \<Rightarrow> syntax_walker \<Rightarrow> nat \<Rightarrow> string \<Rightarrow> nat \<Rightarrow> nat \<Rightarrow> syntax_state \<Rightarrow> syntax_result + syntax_state" where
  "syntax_items 0 walk depth field most i st = Inl SyntaxUnreturned"
| "syntax_items (Suc fuel) walk depth field most i st =
    (if \<not> syntax_more st then Inr st
     else if Suc i > most then Inl SyntaxRefused
     else (case walk (Suc depth) field st of
         Inl e \<Rightarrow> Inl e
       | Inr st' \<Rightarrow> syntax_items fuel walk depth field most (Suc i) st'))"

text \<open>The token that must close an object or an array.\<close>

definition closing :: "jtok \<Rightarrow> syntax_state \<Rightarrow> syntax_result + syntax_state" where
  "closing t st = (case next_token st of
     Some (t', st') \<Rightarrow> if t' = t then Inr st' else Inl SyntaxRefused | None \<Rightarrow> Inl SyntaxRefused)"

definition offset_of :: "syntax_state \<Rightarrow> nat" where
  "offset_of st = fst (snd st)"

primrec syntax_value :: "nat \<Rightarrow> syntax_walker" where
  "syntax_value 0 = (\<lambda>depth field st. Inl SyntaxUnreturned)"
| "syntax_value (Suc fuel) = (\<lambda>depth field st.
    (if depth > 5 then Inl SyntaxRefused
     else case next_token st of
         None \<Rightarrow> Inl SyntaxRefused
       | Some (t, st1) \<Rightarrow>
          if \<not> compound t then (if t = Null \<and> field \<noteq> ''observedAt'' then Inl SyntaxRefused else Inr st1)
          else if t = ObjectStart then
            (case syntax_members fuel (syntax_value fuel) depth field [] st1 of
               Inl e \<Rightarrow> Inl e
             | Inr (seen, st2) \<Rightarrow>
                (case closing ObjectEnd st2 of
                   Inl e \<Rightarrow> Inl e
                 | Inr st3 \<Rightarrow>
                     if field = ''entries'' \<and> offset_of st3 - (offset_of st1 - 1) > MaxEntryBytes then Inl SyntaxRefused
                     else if requiredFields field seen then Inr st3 else Inl SyntaxRefused))
          else if t = ArrayStart then
            (case array_limit field of
               None \<Rightarrow> Inl SyntaxRefused
             | Some most \<Rightarrow>
                (case syntax_items fuel (syntax_value fuel) depth field most 0 st1 of
                   Inl e \<Rightarrow> Inl e | Inr st2 \<Rightarrow> closing ArrayEnd st2))
          else Inl SyntaxRefused))"

definition syntax_document :: "offset_token list \<Rightarrow> syntax_result option" where
  "syntax_document ts =
    (case syntax_value (Suc (length ts)) 0 '''' (0, 0, ts) of
       Inl e \<Rightarrow> Some e
     | Inr (n, off, rest) \<Rightarrow> if rest = [] then None else Some SyntaxRefused)"

text \<open>The closing call of \<open>Token\<close> is not counted.\<close>

definition boundedSyntax :: "(string \<Rightarrow> offset_token list) \<Rightarrow> string \<Rightarrow> bool" where
  "boundedSyntax toks data \<longleftrightarrow> utf8_valid data \<and> syntax_document (toks data) = None"

subsection \<open>The walk returns\<close>

definition left_of :: "syntax_state \<Rightarrow> nat" where
  "left_of st = length (snd (snd st))"

text \<open>A walker with this fuel returns, and consumes a token.\<close>

definition syntax_returns :: "syntax_walker \<Rightarrow> nat \<Rightarrow> bool" where
  "syntax_returns walk most \<longleftrightarrow> (\<forall>depth field st. left_of st < most \<longrightarrow>
     (case walk depth field st of Inl e \<Rightarrow> e \<noteq> SyntaxUnreturned | Inr st' \<Rightarrow> left_of st' < left_of st))"

lemma syntax_returnsD:
  "syntax_returns walk most \<Longrightarrow> left_of st < most \<Longrightarrow>
    (case walk depth field st of Inl e \<Rightarrow> e \<noteq> SyntaxUnreturned | Inr st' \<Rightarrow> left_of st' < left_of st)"
  unfolding syntax_returns_def by blast

lemma syntax_returns_Inl:
  "syntax_returns walk most \<Longrightarrow> left_of st < most \<Longrightarrow> walk depth field st = Inl e \<Longrightarrow> e \<noteq> SyntaxUnreturned"
  using syntax_returnsD [of walk most st depth field] by simp

lemma syntax_returns_Inr:
  "syntax_returns walk most \<Longrightarrow> left_of st < most \<Longrightarrow> walk depth field st = Inr st' \<Longrightarrow> left_of st' < left_of st"
  using syntax_returnsD [of walk most st depth field] by simp

lemma next_token_left: "next_token st = Some (t, st') \<Longrightarrow> left_of st' < left_of st"
  by (auto simp: next_token_def left_of_def split: prod.splits if_splits list.splits)

lemma closing_left: "closing t st = Inr st' \<Longrightarrow> left_of st' < left_of st"
  by (auto simp: closing_def split: option.splits prod.splits if_splits dest: next_token_left)

lemma closing_error: "closing t st = Inl e \<Longrightarrow> e \<noteq> SyntaxUnreturned"
  by (auto simp: closing_def split: option.splits prod.splits if_splits)

lemma syntax_items_returns:
  assumes "syntax_returns walk most"
  shows "left_of st < most \<Longrightarrow> left_of st < fuel \<Longrightarrow>
    (case syntax_items fuel walk depth field n i st of Inl e \<Rightarrow> e \<noteq> SyntaxUnreturned | Inr st' \<Rightarrow> left_of st' \<le> left_of st)"
proof (induction fuel arbitrary: i st)
  case (Suc fuel)
  show ?case
  proof (cases "syntax_more st \<and> \<not> Suc i > n")
    case True
    show ?thesis
    proof (cases "walk (Suc depth) field st")
      case (Inl e)
      with True syntax_returns_Inl [OF assms Suc.prems(1) Inl] show ?thesis
        by simp
    next
      case (Inr st')
      from syntax_returns_Inr [OF assms Suc.prems(1) Inr] have "left_of st' < left_of st" .
      with True Inr Suc.IH [of st' "Suc i"] Suc.prems show ?thesis
        by (auto split: sum.splits)
    qed
  qed auto
qed simp

lemma syntax_members_returns:
  assumes "syntax_returns walk most"
  shows "left_of st \<le> most \<Longrightarrow> left_of st < fuel \<Longrightarrow>
    (case syntax_members fuel walk depth field seen st of
       Inl e \<Rightarrow> e \<noteq> SyntaxUnreturned | Inr (seen', st') \<Rightarrow> left_of st' \<le> left_of st)"
proof (induction fuel arbitrary: seen st)
  case (Suc fuel)
  show ?case
  proof (cases "\<exists>key st1. syntax_more st \<and> next_token st = Some (Text key, st1) \<and>
      \<not> (length key > 32 \<or> key \<in> set seen \<or> length seen \<ge> member_limit field)")
    case True
    then obtain key st1 where st1: "syntax_more st" "next_token st = Some (Text key, st1)"
      and key: "\<not> (length key > 32 \<or> key \<in> set seen \<or> length seen \<ge> member_limit field)"
      by blast
    from next_token_left [OF st1(2)] Suc.prems have less: "left_of st1 < left_of st" "left_of st1 < most"
      by simp_all
    show ?thesis
    proof (cases "walk (Suc depth) key st1")
      case (Inl e)
      with st1 key syntax_returns_Inl [OF assms less(2) Inl] show ?thesis
        by simp
    next
      case (Inr st2)
      from syntax_returns_Inr [OF assms less(2) Inr] less have "left_of st2 < left_of st" by simp
      with st1 key Inr Suc.IH [of st2 "key # seen"] Suc.prems show ?thesis
        by (auto split: sum.splits)
    qed
  next
    case False
    then show ?thesis
      by (auto split: option.splits jtok.splits)
  qed
qed simp

lemma syntax_value_returns: "syntax_returns (syntax_value fuel) fuel"
proof (induction fuel)
  case (Suc fuel)
  show ?case
    unfolding syntax_returns_def
  proof (intro allI impI)
    fix depth field st
    assume st: "left_of st < Suc fuel"
    show "case syntax_value (Suc fuel) depth field st of Inl e \<Rightarrow> e \<noteq> SyntaxUnreturned | Inr st' \<Rightarrow> left_of st' < left_of st"
    proof (cases "next_token st")
      case (Some p)
      obtain t st1 where p: "p = (t, st1)" by (cases p)
      from next_token_left [of st t st1] Some p have less: "left_of st1 < left_of st" by simp
      with st have fuel: "left_of st1 < fuel" by simp
      note members = syntax_members_returns [OF Suc.IH, of st1 fuel depth field "[]"]
      note items = syntax_items_returns [OF Suc.IH, of st1 fuel depth field "the (array_limit field)" 0]
      have object: ?thesis if "\<not> depth > 5" "t = ObjectStart"
      proof (cases "syntax_members fuel (syntax_value fuel) depth field [] st1")
        case (Inl e)
        with Some p that members fuel show ?thesis
          by (simp add: compound_def)
      next
        case (Inr r)
        obtain seen st2 where r: "r = (seen, st2)" by (cases r)
        with Inr members fuel have "left_of st2 \<le> left_of st1" by simp
        with Some p that Inr r less show ?thesis
          by (cases "closing ObjectEnd st2") (auto simp: compound_def dest: closing_error closing_left)
      qed
      have array: ?thesis if "\<not> depth > 5" "t = ArrayStart"
      proof (cases "array_limit field")
        case None
        with Some p that show ?thesis
          by (simp add: compound_def)
      next
        case (Some most)
        note limit = this
        show ?thesis
        proof (cases "syntax_items fuel (syntax_value fuel) depth field most 0 st1")
          case (Inl e)
          with \<open>next_token st = Some p\<close> p that limit items fuel show ?thesis
            by (simp add: compound_def)
        next
          case (Inr st2)
          with limit items fuel have "left_of st2 \<le> left_of st1" by simp
          with \<open>next_token st = Some p\<close> p that limit Inr less show ?thesis
            by (cases "closing ArrayEnd st2") (auto simp: compound_def dest: closing_error closing_left)
        qed
      qed
      have other: ?thesis if "depth > 5 \<or> t \<noteq> ObjectStart \<and> t \<noteq> ArrayStart"
        using Some p less that by auto
      show ?thesis
        using object array other by blast
    qed simp
  qed
qed (simp add: syntax_returns_def)

lemma syntax_document_returns: "syntax_document ts \<noteq> Some SyntaxUnreturned"
  using syntax_returns_Inl [OF syntax_value_returns [of "Suc (length ts)"], of "(0, 0, ts)" 0 "''''"]
  by (auto simp: syntax_document_def left_of_def split: sum.splits)

end
