(* ===== verification/Session_Evidence.thy ===== *)
theory Session_Evidence
  imports Session_Syntax Wire_Policies
begin

text \<open>
  Captured evidence of an incident session: \<open>incidentsession/capture.go\<close>, \<open>markers.go\<close> and the comparison of
  two captures in \<open>compare.go\<close>. The codecs of \<open>encoding/json\<close> (v1 and v2), the hash and the token streams are the fields of
  \<open>session_lib\<close>; \<open>hex.EncodeToString\<close> of the hash is written out.

  The lemmas: a decoded capture carries its own digest, a schema of its kind and the namespace of its principal, and
  the gaps derived from a history incident are valid inputs.
\<close>

subsection \<open>Parameters\<close>

text \<open>
  \<open>ssl_bundle\<close> and \<open>ssl_history\<close> are the strict decoders of v2 (unknown members refused, names matched exactly),
  \<open>ssl_history_lax\<close> the one of v2 without options, \<open>ssl_bundle_v1\<close> and \<open>ssl_history_v1\<close> the ones of v1; \<open>ssl_schema\<close>
  and \<open>ssl_redacted\<close> decode one member. \<open>None\<close> is an error.
\<close>

record session_lib =
  ssl_changes :: change_lib
  ssl_incident_bytes :: "history_incident \<Rightarrow> nat option"
  ssl_tokens :: "string \<Rightarrow> offset_token list"
  ssl_sha256 :: "string \<Rightarrow> 256 word"
  ssl_bundle :: "string \<Rightarrow> incident_bundle option"
  ssl_bundle_v1 :: "string \<Rightarrow> incident_bundle option"
  ssl_history :: "string \<Rightarrow> history_incident option"
  ssl_history_lax :: "string \<Rightarrow> history_incident option"
  ssl_history_v1 :: "string \<Rightarrow> history_incident option"
  ssl_schema :: "string \<Rightarrow> int option"
  ssl_redacted :: "string \<Rightarrow> bool option option"

abbreviation ssl_names :: "session_lib \<Rightarrow> kube_names" where
  "ssl_names L \<equiv> ch_names (ssl_changes L)"

text \<open>\<open>hex.EncodeToString\<close> of the 32 bytes of a hash.\<close>

definition hash_hex :: "256 word \<Rightarrow> string" where
  "hash_hex w = map (\<lambda>i. hex_digit (unat w div 16 ^ (63 - i) mod 16)) [0..<64]"

definition evidence_digest :: "session_lib \<Rightarrow> string \<Rightarrow> string" where
  "evidence_digest L data = hash_hex (ssl_sha256 L data)"

subsection \<open>Decoding\<close>

definition explicitPrivateCapture :: "session_lib \<Rightarrow> string \<Rightarrow> bool" where
  "explicitPrivateCapture L data \<longleftrightarrow> ssl_redacted L data = Some (Some False)"

definition capture_syntax_ok :: "session_lib \<Rightarrow> string \<Rightarrow> bool" where
  "capture_syntax_ok L data \<longleftrightarrow> data \<noteq> '''' \<and> length data \<le> MaxCaptureBytes \<and>
     boundedCaptureData (map fst (ssl_tokens L data)) \<and> explicitPrivateCapture L data"

definition evidence_of :: "session_lib \<Rightarrow> session_principal \<Rightarrow> int \<Rightarrow> time \<Rightarrow> string \<Rightarrow> captured_evidence" where
  "evidence_of L p version captured data = \<lparr>ev_NamespaceUID = sp_NamespaceUID p, ev_Digest = evidence_digest L data,
     ev_SchemaVersion = version, ev_ObservedAt = captured, ev_Data = data\<rparr>"

definition pod_bundle_ok :: "session_lib \<Rightarrow> session_principal \<Rightarrow> incident_bundle \<Rightarrow> bool" where
  "pod_bundle_ok L p b \<longleftrightarrow>
    \<not> is_zero_time (ib_CapturedAt b) \<and> text_ok (ib_ToolVersion b) 512 \<and> \<not> ib_Redacted b \<and> length (ib_Pods b) = 1 \<and>
    ib_Nodes b = [] \<and> length (ib_Histories b) \<le> 1 \<and> ib_Reliability b = None \<and>
    (let pod = ib_Pods b ! 0
     in ps_Namespace pod = sp_Namespace p \<and> kn_subdomain (ssl_names L) (ps_PodName pod) \<and> text_ok (ps_PodUID pod) 128 \<and>
        \<not> is_zero_time (ps_CapturedAt pod) \<and> length (ps_Containers pod) \<le> 128 \<and>
        list_all (\<lambda>c. cs_Namespace c = ps_Namespace pod \<and> cs_PodName c = ps_PodName pod \<and> cs_PodUID c = ps_PodUID pod)
          (ps_Containers pod) \<and>
        list_all (\<lambda>h. ph_Namespace h = ps_Namespace pod \<and> ph_PodName h = ps_PodName pod \<and> ph_PodUID h = ps_PodUID pod)
          (ib_Histories b))"

definition podCapture :: "session_lib \<Rightarrow> session_principal \<Rightarrow> string \<Rightarrow> captured_evidence option" where
  "podCapture L p data =
    (if \<not> capture_syntax_ok L data then None
     else case ssl_bundle L data of
         None \<Rightarrow> None
       | Some b \<Rightarrow>
           if ValidateIncidentSchema b \<noteq> None \<or> \<not> pod_bundle_ok L p b then None
           else Some (evidence_of L p (ib_SchemaVersion b) (ib_CapturedAt b) data))"

definition historyCapture :: "session_lib \<Rightarrow> session_principal \<Rightarrow> string \<Rightarrow> captured_evidence option" where
  "historyCapture L p data =
    (if \<not> capture_syntax_ok L data then None
     else case ssl_history L data of
         None \<Rightarrow> None
       | Some b \<Rightarrow>
           if \<not> ValidateHistoryIncident (ssl_changes L) (ssl_incident_bytes L) b \<or> hi_Redacted b then None
           else (let request = sl_Request (rp_Selection (wx_History (hi_Context b)))
                 in if re_Scope request \<noteq> ''pod'' \<or> re_Namespace request \<noteq> sp_Namespace p then None
                    else Some (evidence_of L p (hi_SchemaVersion b) (hi_CapturedAt b) data)))"

definition decodeRetainedCapture :: "session_lib \<Rightarrow> session_principal \<Rightarrow> string \<Rightarrow> captured_evidence option" where
  "decodeRetainedCapture L p data =
    (if data = '''' \<or> length data > MaxCaptureBytes then None
     else case ssl_schema L data of
         None \<Rightarrow> None
       | Some version \<Rightarrow> if version = HistoryIncidentSchemaVersion then historyCapture L p data else podCapture L p data)"

subsection \<open>Gaps of a history incident\<close>

definition gap_input :: "string \<Rightarrow> time \<Rightarrow> string \<Rightarrow> session_input" where
  "gap_input source observed reason =
    input_zero\<lparr>in_Kind := ''gap'', in_Source := source, in_ObservedAt := observed, in_GapReason := reason\<rparr>"

definition markerGaps :: "history_incident \<Rightarrow> session_input list" where
  "markerGaps b =
    (let changes = wx_Changes (hi_Context b); history = wx_History (hi_Context b);
         source = (if qy_Source (rp_Query history) = ''prometheus'' then ''prometheus'' else ''collector'')
     in [gap_input ''kubernetes'' (wr_ObservedAt changes) (''events-'' @ wr_Events changes)] @
        (if wr_Truncated changes then [gap_input ''kubernetes'' (wr_ObservedAt changes) ''events-truncated''] else []) @
        (if rp_State history \<noteq> ''fresh'' then
           [gap_input source (rp_ReceivedAt history) (''history-'' @ rp_State history)]
         else if rp_Completeness history \<noteq> ''complete'' then
           [gap_input source (rp_ReceivedAt history) ''partial-evidence'']
         else []))"

subsection \<open>Comparing two captures\<close>

text \<open>The discontinuities of identity and of the clock; \<open>None\<close> is the error.\<close>

definition captureChanges :: "session_lib \<Rightarrow> captured_evidence \<Rightarrow> captured_evidence \<Rightarrow> (bool \<times> bool) option" where
  "captureChanges L before after =
    (let clock = (ev_ObservedAt after < ev_ObservedAt before)
     in if ev_SchemaVersion before = HistoryIncidentSchemaVersion then
          (case (ssl_history_v1 L (ev_Data before), ssl_history_v1 L (ev_Data after)) of
             (Some left, Some right) \<Rightarrow>
               (let a = wx_History (hi_Context left); b = wx_History (hi_Context right)
                in Some (sl_Request (rp_Selection a) \<noteq> sl_Request (rp_Selection b) \<or>
                     sl_UID (rp_Selection a) \<noteq> sl_UID (rp_Selection b) \<or> qy_Source (rp_Query a) \<noteq> qy_Source (rp_Query b) \<or>
                     qy_Metric (rp_Query a) \<noteq> qy_Metric (rp_Query b) \<or> sl_Targets (rp_Selection a) \<noteq> sl_Targets (rp_Selection b),
                   clock \<or> wr_ObservedAt (wx_Changes (hi_Context right)) < wr_ObservedAt (wx_Changes (hi_Context left)) \<or>
                     rp_ReceivedAt b < rp_ReceivedAt a))
           | _ \<Rightarrow> None)
        else
          (case (ssl_bundle_v1 L (ev_Data before), ssl_bundle_v1 L (ev_Data after)) of
             (Some left, Some right) \<Rightarrow>
               (if length (ib_Pods left) \<noteq> 1 \<or> length (ib_Pods right) \<noteq> 1 then None
                else (let a = ib_Pods left ! 0; b = ib_Pods right ! 0
                  in Some (ps_Namespace a \<noteq> ps_Namespace b \<or> ps_PodName a \<noteq> ps_PodName b \<or> ps_PodUID a \<noteq> ps_PodUID b \<or>
                       ps_NodeName a \<noteq> ps_NodeName b,
                     clock \<or> ps_CapturedAt b < ps_CapturedAt a)))
           | _ \<Rightarrow> None))"

subsection \<open>What a decoded capture is\<close>

lemma lower_hex_digit: "d < 16 \<Longrightarrow> lower_hex (hex_digit d)"
  by (auto simp: lower_hex_def hex_digit_def byte_def)

lemma evidence_digest_ok: "digest (evidence_digest L data) 32"
  by (auto simp: digest_def evidence_digest_def hash_hex_def list_all_iff intro: lower_hex_digit)

lemma ValidateIncidentSchema_version: "ValidateIncidentSchema b = None \<Longrightarrow> ib_SchemaVersion b \<in> {1, 2}"
  by (auto simp: ValidateIncidentSchema_def LegacySchemaVersion_def CurrentIncidentSchemaVersion_def split: if_splits)

lemma podCaptureD:
  assumes "podCapture L p data = Some e"
  shows "ev_Data e = data \<and> ev_Digest e = evidence_digest L data \<and> ev_NamespaceUID e = sp_NamespaceUID p \<and>
    ev_SchemaVersion e \<in> {1, 2} \<and> ev_ObservedAt e \<noteq> 0 \<and>
    (\<exists>b. ssl_bundle L data = Some b \<and> ev_SchemaVersion e = ib_SchemaVersion b)"
proof -
  obtain b where b: "ssl_bundle L data = Some b" "ValidateIncidentSchema b = None" "pod_bundle_ok L p b"
    and e: "e = evidence_of L p (ib_SchemaVersion b) (ib_CapturedAt b) data"
    using assms by (auto simp: podCapture_def split: if_splits option.splits)
  with ValidateIncidentSchema_version [OF b(2)] show ?thesis
    by (simp add: evidence_of_def pod_bundle_ok_def)
qed

lemma historyCaptureD:
  assumes "historyCapture L p data = Some e"
  shows "ev_Data e = data \<and> ev_Digest e = evidence_digest L data \<and> ev_NamespaceUID e = sp_NamespaceUID p \<and>
    ev_SchemaVersion e = 6 \<and> ev_ObservedAt e \<noteq> 0 \<and>
    (\<exists>b. ssl_history L data = Some b \<and> ev_SchemaVersion e = hi_SchemaVersion b)"
  using assms
  by (auto simp: historyCapture_def evidence_of_def ValidateHistoryIncident_def HistoryIncidentSchemaVersion_def Let_def
      split: if_splits option.splits)

lemma capture_length: "capture_syntax_ok L data \<Longrightarrow> data \<noteq> '''' \<and> length data \<le> MaxCaptureBytes"
  by (simp add: capture_syntax_ok_def)

text \<open>What the state of a valid report of memory history is.\<close>

lemma fold_fst_in:
  assumes "\<And>x st. fst (f x st) \<in> insert (fst st) S"
  shows "fst (fold f xs st) \<in> insert (fst st) S"
proof (induction xs arbitrary: st)
  case (Cons x xs)
  show ?case
    using Cons.IH [of "f x st"] assms [of x st] by auto
qed simp

lemma Summarise_state: "rp_State (Summarise r p) \<in> {''missing'', ''fresh'', ''stale''}"
proof -
  let ?f = "\<lambda>s st. (if sr_Freshness s = ''fresh'' \<or> sr_Freshness s = ''stale'' \<and> fst st = ''missing'' then sr_Freshness s else fst st,
       if sr_Completeness s \<noteq> ''complete'' then ''partial'' else snd st)"
  have "fst (fold ?f ss (''missing'', ''complete'')) \<in> insert (fst (''missing'', ''complete'')) {''fresh'', ''stale''}" for ss
    by (rule fold_fst_in) auto
  then show ?thesis
    by (simp add: Summarise_def Let_def case_prod_unfold)
qed

lemma report_state:
  "report_Validate N r = None \<Longrightarrow> rp_State r \<in> {''unsupported'', ''disabled'', ''fresh'', ''stale'', ''missing''}"
  using Summarise_state [of r False] by (auto simp: report_Validate_def Let_def split: if_splits option.splits)

lemma change_events: "change_Validate L r = None \<Longrightarrow> wr_Events r \<in> set coverages"
  by (simp add: change_Validate_def split: if_splits)

lemma gap_input_valid: "validSource source \<Longrightarrow> validGap reason \<Longrightarrow> input_validate p (gap_input source observed reason)"
  by (simp add: input_validate_def input_kind_ok_def gap_input_def input_zero_def)

lemma validGap_events: "events \<in> set coverages \<Longrightarrow> validGap (''events-'' @ events)"
  by (auto simp: coverages_def validGap_def gap_reasons_def)

lemma validGap_history:
  "state \<in> {''unsupported'', ''disabled'', ''fresh'', ''stale'', ''missing''} \<Longrightarrow> state \<noteq> ''fresh'' \<Longrightarrow> validGap (''history-'' @ state)"
  by (auto simp: validGap_def gap_reasons_def)

lemma validGap_fixed: "validGap ''events-truncated''" "validGap ''partial-evidence''"
  by (simp_all add: validGap_def gap_reasons_def)

lemma validSource_fixed: "validSource ''kubernetes''" "validSource ''prometheus''" "validSource ''collector''" "validSource ''operator''"
  by (simp_all add: validSource_def)

lemma markerGaps_valid:
  assumes "ValidateHistoryIncident C bytes b" and "x \<in> set (markerGaps b)"
  shows "input_validate p x"
proof -
  have ctx: "context_Validate C (hi_Context b) = None"
    using assms(1) by (simp add: ValidateHistoryIncident_def)
  have events: "wr_Events (wx_Changes (hi_Context b)) \<in> set coverages"
    using ctx by (intro change_events) (auto simp: context_Validate_def split: if_splits option.splits)
  have state: "rp_State (wx_History (hi_Context b)) \<in> {''unsupported'', ''disabled'', ''fresh'', ''stale'', ''missing''}"
    using ctx by (intro report_state) (auto simp: context_Validate_def split: if_splits)
  note valid = gap_input_valid [OF validSource_fixed(1)] gap_input_valid [OF validSource_fixed(2)] gap_input_valid [OF validSource_fixed(3)]
  note reasons = validGap_events [OF events] validGap_history [OF state] validGap_fixed
  show ?thesis
    using assms(2) valid reasons unfolding markerGaps_def Let_def by (simp split: if_splits) (elim disjE; simp)+
qed

end
