(* ===== verification/Session_Export.thy ===== *)
theory Session_Export
  imports Session_Evidence
begin

text \<open>
  The documents of an incident session: \<open>incidentsession/export.go\<close>, \<open>decode.go\<close>, \<open>decode_validation.go\<close>,
  \<open>decode_sanitised.go\<close>, \<open>select_capture.go\<close>, \<open>validateCaptures\<close> and the sanitised trace references of
  \<open>trace_reference.go\<close>. A loop with an early return over the entries is a recursive predicate; the maps of aliases
  are passed along.
\<close>

subsection \<open>Documents\<close>

record authorised_export =
  ax_Kind :: string
  ax_SchemaVersion :: int
  ax_Redacted :: bool
  ax_ID :: string
  ax_OpenedAt :: time
  ax_ExpiresAt :: time
  ax_ClosedAt :: "time option"
  ax_Entries :: "session_entry list"
  ax_Captures :: "captured_evidence list"
  ax_LimitReached :: bool

record sanitised_reference =
  sf_Alias :: string
  sf_SchemaVersion :: int
  sf_ObservedAt :: time

record sanitised_trace =
  sq_Alias :: string
  sq_Provenance :: string
  sq_ReportSchemaVersion :: int
  sq_Outcome :: reference_outcome

record sanitised_entry =
  sy_Sequence :: u64
  sy_Kind :: string
  sy_RecordedAt :: time
  sy_ObservedAt :: "time option"
  sy_Namespace :: string
  sy_Actor :: string
  sy_Source :: string
  sy_Sensitivity :: string
  sy_ClockUncertain :: bool
  sy_References :: "sanitised_reference list"
  sy_GapReason :: string
  sy_TraceReference :: "sanitised_trace option"

record sanitised_export =
  sd_Kind :: string
  sd_SchemaVersion :: int
  sd_Redacted :: bool
  sd_Alias :: string
  sd_OpenedAt :: time
  sd_ExpiresAt :: time
  sd_ClosedAt :: "time option"
  sd_Entries :: "sanitised_entry list"
  sd_LimitReached :: bool

definition fullDocument :: "session_record \<Rightarrow> authorised_export" where
  "fullDocument r = \<lparr>ax_Kind = ''IncidentSession'', ax_SchemaVersion = exportSchema (ss_entries r), ax_Redacted = False,
     ax_ID = ss_id r, ax_OpenedAt = ss_opened r, ax_ExpiresAt = ss_expires r, ax_ClosedAt = ss_closed r,
     ax_Entries = ss_entries r, ax_Captures = ss_captures r, ax_LimitReached = ss_limitReached r\<rparr>"

subsection \<open>Aliases\<close>

text \<open>\<open>referenceAlias\<close> and \<open>traceAlias\<close>: the alias of a key, a new one being numbered in order of appearance.\<close>

definition alias_of :: "string \<Rightarrow> (string, string) gomap \<Rightarrow> string \<Rightarrow> string \<times> (string, string) gomap" where
  "alias_of stem aliases key =
    (case mget aliases key of
       Some a \<Rightarrow> (a, aliases)
     | None \<Rightarrow> (let a = stem @ itoa (int (mlen aliases) + 1) in (a, mput key a aliases)))"

definition alias_key :: "capture_reference \<Rightarrow> string" where
  "alias_key ref = itoa (cf_SchemaVersion ref) @ '':'' @ cf_Digest ref"

definition referenceAlias :: "(string, string) gomap \<Rightarrow> capture_reference \<Rightarrow> string \<times> (string, string) gomap" where
  "referenceAlias aliases ref = alias_of ''evidence-'' aliases (alias_key ref)"

definition traceAlias :: "(string, string) gomap \<Rightarrow> string \<Rightarrow> string \<times> (string, string) gomap" where
  "traceAlias aliases digest' = alias_of ''trace-'' aliases digest'"

subsection \<open>The sanitised document\<close>

fun sanitise_references :: "(string, string) gomap \<Rightarrow> capture_reference list \<Rightarrow> sanitised_reference list \<times> (string, string) gomap" where
  "sanitise_references aliases [] = ([], aliases)"
| "sanitise_references aliases (ref # refs) =
    (let (a, aliases1) = referenceAlias aliases ref;
         (rest, aliases2) = sanitise_references aliases1 refs
     in (\<lparr>sf_Alias = a, sf_SchemaVersion = cf_SchemaVersion ref, sf_ObservedAt = cf_ObservedAt ref\<rparr> # rest, aliases2))"

definition sanitiseTraceReference :: "(string, string) gomap \<Rightarrow> trace_reference \<Rightarrow> sanitised_trace \<times> (string, string) gomap" where
  "sanitiseTraceReference aliases ref =
    (let (a, aliases') = traceAlias aliases (tf_Digest ref)
     in (\<lparr>sq_Alias = a, sq_Provenance = tf_Provenance ref, sq_ReportSchemaVersion = tf_ReportSchemaVersion ref,
          sq_Outcome = Outcome ref\<rparr>, aliases'))"

definition sanitise_trace :: "(string, string) gomap \<Rightarrow> trace_reference option \<Rightarrow> sanitised_trace option \<times> (string, string) gomap" where
  "sanitise_trace traces ref =
    (case ref of None \<Rightarrow> (None, traces)
     | Some t \<Rightarrow> (let (v, traces') = sanitiseTraceReference traces t in (Some v, traces')))"

definition visible_entry :: "session_entry \<Rightarrow> sanitised_reference list \<Rightarrow> sanitised_trace option \<Rightarrow> sanitised_entry" where
  "visible_entry e refs ref =
    \<lparr>sy_Sequence = en_Sequence e, sy_Kind = en_Kind e, sy_RecordedAt = en_RecordedAt e, sy_ObservedAt = en_ObservedAt e,
     sy_Namespace = ''namespace-1'', sy_Actor = ''operator-1'', sy_Source = en_Source e, sy_Sensitivity = ''redacted'',
     sy_ClockUncertain = en_ClockUncertain e, sy_References = refs, sy_GapReason = en_GapReason e, sy_TraceReference = ref\<rparr>"

fun sanitise_entries :: "(string, string) gomap \<Rightarrow> (string, string) gomap \<Rightarrow> session_entry list \<Rightarrow> sanitised_entry list" where
  "sanitise_entries aliases traces [] = []"
| "sanitise_entries aliases traces (e # es) =
    (let (refs, aliases') = sanitise_references aliases (en_References e);
         (ref, traces') = sanitise_trace traces (en_TraceReference e)
     in visible_entry e refs ref # sanitise_entries aliases' traces' es)"

definition sanitisedDocument :: "session_record \<Rightarrow> sanitised_export" where
  "sanitisedDocument r = \<lparr>sd_Kind = ''IncidentSession'', sd_SchemaVersion = exportSchema (ss_entries r), sd_Redacted = True,
     sd_Alias = ''session-1'', sd_OpenedAt = ss_opened r, sd_ExpiresAt = ss_expires r, sd_ClosedAt = ss_closed r,
     sd_Entries = sanitise_entries [] [] (ss_entries r), sd_LimitReached = ss_limitReached r\<rparr>"

subsection \<open>Validation of a document\<close>

definition validHeader :: "string \<Rightarrow> int \<Rightarrow> time \<Rightarrow> time \<Rightarrow> time option \<Rightarrow> nat \<Rightarrow> bool" where
  "validHeader kind version opened expires closedAt n \<longleftrightarrow>
    kind = ''IncidentSession'' \<and> (version = ss_SchemaVersion \<or> version = TraceExportSchema) \<and> \<not> is_zero_time opened \<and>
    minute \<le> time_sub expires opened \<and> time_sub expires opened \<le> 4 * hour \<and> 1 \<le> n \<and> n \<le> MaxEntries \<and>
    (case closedAt of None \<Rightarrow> n < MaxEntries | Some t \<Rightarrow> \<not> is_zero_time t)"

definition validLifecycle ::
  "string \<Rightarrow> nat \<Rightarrow> nat \<Rightarrow> time \<Rightarrow> time option \<Rightarrow> string \<Rightarrow> nat \<Rightarrow> string \<Rightarrow> string \<Rightarrow> time option \<Rightarrow> bool"
where
  "validLifecycle kind i n recorded observed source refs note gap closedAt \<longleftrightarrow>
    source = ''operator'' \<and> observed = Some recorded \<and> refs = 0 \<and> note = '''' \<and> gap = '''' \<and>
    (if kind = ''opened'' then i = 0 else kind = ''closed'' \<and> Suc i = n \<and> closedAt = Some recorded)"

definition entry_principal :: "session_entry \<Rightarrow> session_principal" where
  "entry_principal e = \<lparr>sp_Namespace = en_Namespace e, sp_NamespaceUID = en_NamespaceUID e, sp_Actor = en_Actor e\<rparr>"

text \<open>The input an entry is checked as; \<open>None\<close> is the early return for an annotation.\<close>

definition entry_input :: "session_entry \<Rightarrow> session_input option" where
  "entry_input e =
    (let x = \<lparr>in_Kind = en_Kind e, in_Source = en_Source e,
           in_ObservedAt = (case en_ObservedAt e of None \<Rightarrow> 0 | Some t \<Rightarrow> t), in_Note = en_Note e,
           in_References = en_References e, in_GapReason = en_GapReason e, in_TraceReference = en_TraceReference e\<rparr>
     in if en_Kind e = ''annotated'' then
          (if en_ObservedAt e \<noteq> Some (en_RecordedAt e) then None else Some (x\<lparr>in_ObservedAt := 0\<rparr>))
        else Some x)"

definition lifecycle_kind :: "string \<Rightarrow> bool" where
  "lifecycle_kind kind \<longleftrightarrow> kind = ''opened'' \<or> kind = ''closed''"

definition entry_ok :: "session_principal \<Rightarrow> time option \<Rightarrow> nat \<Rightarrow> nat \<Rightarrow> session_entry \<Rightarrow> bool" where
  "entry_ok p closedAt n i e \<longleftrightarrow>
    en_Sequence e = of_nat (Suc i) \<and> \<not> is_zero_time (en_RecordedAt e) \<and> en_ObservedAt e \<noteq> Some 0 \<and>
    en_Sensitivity e = ''private'' \<and> entry_principal e = p \<and>
    (if lifecycle_kind (en_Kind e) then
       en_TraceReference e = None \<and>
       validLifecycle (en_Kind e) i n (en_RecordedAt e) (en_ObservedAt e) (en_Source e) (length (en_References e)) (en_Note e)
         (en_GapReason e) closedAt
     else (case entry_input e of None \<Rightarrow> False | Some x \<Rightarrow> input_validate p x))"

fun entries_ok :: "session_principal \<Rightarrow> time option \<Rightarrow> nat \<Rightarrow> chronology \<Rightarrow> nat \<Rightarrow> session_entry list \<Rightarrow> bool" where
  "entries_ok p closedAt n c i [] = True"
| "entries_ok p closedAt n c i (e # es) =
    (let (uncertain, c') = observe c (privatePoint e)
     in entry_ok p closedAt n i e \<and> (uncertain \<longrightarrow> en_ClockUncertain e) \<and> entries_ok p closedAt n c' (Suc i) es)"

definition reference_zero :: capture_reference where
  "reference_zero = \<lparr>cf_NamespaceUID = '''', cf_Digest = '''', cf_SchemaVersion = 0, cf_ObservedAt = 0\<rparr>"

definition references_by_digest :: "session_entry list \<Rightarrow> (string, capture_reference) gomap" where
  "references_by_digest es = fold (\<lambda>ref m. mput (cf_Digest ref) ref m) (concat (map en_References es)) []"

fun captures_ok :: "session_lib \<Rightarrow> session_principal \<Rightarrow> (string, capture_reference) gomap \<Rightarrow> string list \<Rightarrow> captured_evidence list \<Rightarrow> bool" where
  "captures_ok L p references seen [] = True"
| "captures_ok L p references seen (v # vs) =
    ((case decodeRetainedCapture L p (ev_Data v) of
        None \<Rightarrow> False
      | Some actual \<Rightarrow> evidence_reference v = evidence_reference actual) \<and>
     mget0 reference_zero references (ev_Digest v) = evidence_reference v \<and> ev_Digest v \<notin> set seen \<and>
     captures_ok L p references (ev_Digest v # seen) vs)"

definition validateCaptures :: "session_lib \<Rightarrow> authorised_export \<Rightarrow> session_principal \<Rightarrow> bool" where
  "validateCaptures L d p \<longleftrightarrow> length (ax_Captures d) \<le> MaxCaptures \<and>
     captures_ok L p (references_by_digest (ax_Entries d)) [] (ax_Captures d)"

definition validateAuthorised :: "session_lib \<Rightarrow> authorised_export \<Rightarrow> bool" where
  "validateAuthorised L d \<longleftrightarrow>
    \<not> ax_Redacted d \<and> digest (ax_ID d) 16 \<and>
    validHeader (ax_Kind d) (ax_SchemaVersion d) (ax_OpenedAt d) (ax_ExpiresAt d) (ax_ClosedAt d) (length (ax_Entries d)) \<and>
    (let es = ax_Entries d; p = entry_principal (hd es)
     in principal_valid (ssl_names L) p \<and> en_Kind (hd es) = ''opened'' \<and> en_RecordedAt (hd es) = ax_OpenedAt d \<and>
        (ax_ClosedAt d \<noteq> None \<longleftrightarrow> en_Kind (last es) = ''closed'') \<and> consistentReferences es \<and>
        ax_SchemaVersion d = exportSchema es \<and> consistentTraceReferences es \<and>
        entries_ok p (ax_ClosedAt d) (length es) (new_chronology (ax_OpenedAt d) (ax_ExpiresAt d)) 0 es \<and>
        validateCaptures L d p)"

subsection \<open>Validation of a sanitised document\<close>

definition publicPoint :: "sanitised_entry \<Rightarrow> chronology_point" where
  "publicPoint e = \<lparr>cp_source = sy_Source e, cp_gap = sy_GapReason e, cp_recorded = sy_RecordedAt e,
     cp_observed = sy_ObservedAt e, cp_references = map sf_ObservedAt (sy_References e)\<rparr>"

definition sanitised_trace_valid :: "sanitised_trace \<Rightarrow> bool" where
  "sanitised_trace_valid t \<longleftrightarrow> sq_Provenance t = ''operator-supplied'' \<and> 1 \<le> sq_ReportSchemaVersion t \<and>
     sq_ReportSchemaVersion t \<le> 2 \<and> outcome_valid (sq_Outcome t)"

definition validSanitisedPayload :: "sanitised_entry \<Rightarrow> bool" where
  "validSanitisedPayload e \<longleftrightarrow>
    (sy_Kind e \<noteq> ''gap'' \<longrightarrow> sy_GapReason e = '''') \<and>
    (sy_Kind e = ''trace-referenced'' \<longleftrightarrow> sy_TraceReference e \<noteq> None) \<and>
    (let kind = sy_Kind e; refs = sy_References e
     in if kind = ''trace-referenced'' then
          sy_Source e = traceReferenceSource \<and> refs = [] \<and> sy_ObservedAt e \<noteq> None \<and>
          (case sy_TraceReference e of None \<Rightarrow> False | Some t \<Rightarrow> sanitised_trace_valid t)
        else if kind = ''annotated'' then
          sy_Source e = ''operator'' \<and> refs = [] \<and> sy_ObservedAt e = Some (sy_RecordedAt e)
        else if kind = ''captured'' \<or> kind = ''marked'' then
          length refs = 1 \<and> sy_ObservedAt e \<noteq> None \<and> (kind = ''marked'' \<longrightarrow> sf_SchemaVersion (refs ! 0) = 6)
        else if kind = ''compared'' then
          length refs = 2 \<and> sy_ObservedAt e \<noteq> None \<and>
          compatibleCaptureSchemas (sf_SchemaVersion (refs ! 0)) (sf_SchemaVersion (refs ! 1))
        else if kind = ''gap'' then refs = [] \<and> validGap (sy_GapReason e)
        else False)"

text \<open>The loop over the references of an entry; \<open>None\<close> is the early return.\<close>

fun public_references :: "(string, sanitised_reference) gomap \<Rightarrow> sanitised_reference list \<Rightarrow> (string, sanitised_reference) gomap option" where
  "public_references aliases [] = Some aliases"
| "public_references aliases (ref # refs) =
    (if sf_SchemaVersion ref < 1 \<or> sf_SchemaVersion ref > 7 \<or> is_zero_time (sf_ObservedAt ref) then None
     else case mget aliases (sf_Alias ref) of
         Some previous \<Rightarrow>
           if sf_SchemaVersion previous \<noteq> sf_SchemaVersion ref \<or> sf_ObservedAt previous \<noteq> sf_ObservedAt ref then None
           else public_references aliases refs
       | None \<Rightarrow>
           if sf_Alias ref \<noteq> ''evidence-'' @ itoa (int (mlen aliases) + 1) then None
           else public_references (mput (sf_Alias ref) ref aliases) refs)"

definition public_trace ::
  "(string, sanitised_trace \<times> time) gomap \<Rightarrow> sanitised_entry \<Rightarrow> (string, sanitised_trace \<times> time) gomap option"
where
  "public_trace traces e =
    (case sy_TraceReference e of
       None \<Rightarrow> Some traces
     | Some ref \<Rightarrow>
        (let at' = (case sy_ObservedAt e of None \<Rightarrow> 0 | Some t \<Rightarrow> t); traces' = mput (sq_Alias ref) (ref, at') traces
         in case mget traces (sq_Alias ref) of
              Some (previous, captured) \<Rightarrow> if previous \<noteq> ref \<or> captured \<noteq> at' then None else Some traces'
            | None \<Rightarrow> if sq_Alias ref \<noteq> ''trace-'' @ itoa (int (mlen traces) + 1) then None else Some traces'))"

definition public_entry_ok :: "time option \<Rightarrow> nat \<Rightarrow> nat \<Rightarrow> sanitised_entry \<Rightarrow> bool" where
  "public_entry_ok closedAt n i e \<longleftrightarrow>
    sy_Sequence e = of_nat (Suc i) \<and> \<not> is_zero_time (sy_RecordedAt e) \<and> sy_ObservedAt e \<noteq> Some 0 \<and>
    sy_Namespace e = ''namespace-1'' \<and> sy_Actor e = ''operator-1'' \<and> sy_Sensitivity e = ''redacted'' \<and> validSource (sy_Source e) \<and>
    (if lifecycle_kind (sy_Kind e) then
       sy_TraceReference e = None \<and>
       validLifecycle (sy_Kind e) i n (sy_RecordedAt e) (sy_ObservedAt e) (sy_Source e) (length (sy_References e)) ''''
         (sy_GapReason e) closedAt
     else validSanitisedPayload e)"

text \<open>The loop over the entries: the trace aliases it leaves, or the early return.\<close>

fun public_entries ::
  "time option \<Rightarrow> nat \<Rightarrow> chronology \<Rightarrow> (string, sanitised_reference) gomap \<Rightarrow> (string, sanitised_trace \<times> time) gomap \<Rightarrow> nat \<Rightarrow>
   sanitised_entry list \<Rightarrow> (string, sanitised_trace \<times> time) gomap option"
where
  "public_entries closedAt n c aliases traces i [] = Some traces"
| "public_entries closedAt n c aliases traces i (e # es) =
    (let (uncertain, c') = observe c (publicPoint e)
     in if \<not> public_entry_ok closedAt n i e \<or> (uncertain \<and> \<not> sy_ClockUncertain e) then None
        else if lifecycle_kind (sy_Kind e) then public_entries closedAt n c' aliases traces (Suc i) es
        else (case public_trace traces e of
            None \<Rightarrow> None
          | Some traces' \<Rightarrow>
             (case public_references aliases (sy_References e) of
                None \<Rightarrow> None
              | Some aliases' \<Rightarrow> public_entries closedAt n c' aliases' traces' (Suc i) es)))"

definition validateSanitised :: "sanitised_export \<Rightarrow> bool" where
  "validateSanitised d \<longleftrightarrow>
    sd_Redacted d \<and> sd_Alias d = ''session-1'' \<and>
    validHeader (sd_Kind d) (sd_SchemaVersion d) (sd_OpenedAt d) (sd_ExpiresAt d) (sd_ClosedAt d) (length (sd_Entries d)) \<and>
    (let es = sd_Entries d
     in sy_Kind (hd es) = ''opened'' \<and> sy_RecordedAt (hd es) = sd_OpenedAt d \<and>
        (sd_ClosedAt d \<noteq> None \<longleftrightarrow> sy_Kind (last es) = ''closed'') \<and>
        (case public_entries (sd_ClosedAt d) (length es) (new_chronology (sd_OpenedAt d) (sd_ExpiresAt d)) [] [] 0 es of
           None \<Rightarrow> False
         | Some traces \<Rightarrow> (mlen traces \<noteq> 0) = (sd_SchemaVersion d = TraceExportSchema)))"

subsection \<open>Offline use of a document\<close>

definition Sanitise :: "session_lib \<Rightarrow> authorised_export \<Rightarrow> sanitised_export option" where
  "Sanitise L d =
    (if \<not> validateAuthorised L d then None
     else Some (sanitisedDocument \<lparr>ss_principal = entry_principal (hd (ax_Entries d)), ss_id = ax_ID d, ss_opened = ax_OpenedAt d,
       ss_expires = ax_ExpiresAt d, ss_closed = ax_ClosedAt d, ss_entries = ax_Entries d, ss_captures = [],
       ss_limitReached = ax_LimitReached d\<rparr>))"

datatype session_error = SessInvalid | SessDenied | SessNotFound | SessCapacity | SessClosed | SessStopped | SessUnavailable
  | SessContext

text \<open>The loops of \<open>SelectCapture\<close>: the digest of the last reference the selector names.\<close>

fun selected_digest :: "string \<Rightarrow> (string, string) gomap \<Rightarrow> string \<Rightarrow> capture_reference list \<Rightarrow> string" where
  "selected_digest selector aliases selected [] = selected"
| "selected_digest selector aliases selected (ref # refs) =
    (let (a, aliases') = referenceAlias aliases ref
     in selected_digest selector aliases' (if selector = a \<or> selector = cf_Digest ref then cf_Digest ref else selected) refs)"

definition SelectCapture :: "session_lib \<Rightarrow> authorised_export \<Rightarrow> string \<Rightarrow> session_error + captured_evidence" where
  "SelectCapture L d selector =
    (if \<not> validateAuthorised L d then Inl SessInvalid
     else (let selected = selected_digest selector [] '''' (concat (map en_References (ax_Entries d)))
           in case find (\<lambda>v. ev_Digest v = selected) (ax_Captures d) of
                None \<Rightarrow> Inl SessNotFound | Some v \<Rightarrow> Inr v))"

fun selected_trace :: "string \<Rightarrow> (string, string) gomap \<Rightarrow> trace_reference list \<Rightarrow> trace_reference option" where
  "selected_trace selector aliases [] = None"
| "selected_trace selector aliases (ref # refs) =
    (let (a, aliases') = traceAlias aliases (tf_Digest ref)
     in if selector = a \<or> selector = tf_Digest ref then Some ref else selected_trace selector aliases' refs)"

definition SelectTraceReference :: "session_lib \<Rightarrow> authorised_export \<Rightarrow> string \<Rightarrow> session_error + trace_reference" where
  "SelectTraceReference L d selector =
    (if \<not> validateAuthorised L d then Inl SessInvalid
     else case selected_trace selector [] (trace_references (ax_Entries d)) of
         None \<Rightarrow> Inl SessNotFound | Some ref \<Rightarrow> Inr ref)"

text \<open>The codecs of the documents: \<open>json.Marshal\<close> of v1, and the decoders of v2 that \<open>DecodeExport\<close> uses.\<close>

record export_codec =
  ec_marshal :: "authorised_export \<Rightarrow> string option"
  ec_marshal_sanitised :: "sanitised_export \<Rightarrow> string option"
  ec_entry_bytes :: "session_entry \<Rightarrow> nat option"
  ec_redacted :: "string \<Rightarrow> bool option"
  ec_authorised :: "string \<Rightarrow> authorised_export option"
  ec_sanitised :: "string \<Rightarrow> sanitised_export option"

definition DecodeExport :: "session_lib \<Rightarrow> export_codec \<Rightarrow> string \<Rightarrow> (sanitised_export + authorised_export) option" where
  "DecodeExport L C data =
    (if data = '''' \<or> length data > MaxExportBytes \<or> \<not> boundedSyntax (ssl_tokens L) data then None
     else case ec_redacted C data of
         None \<Rightarrow> None
       | Some True \<Rightarrow> (case ec_sanitised C data of
           None \<Rightarrow> None | Some d \<Rightarrow> if validateSanitised d then Some (Inl d) else None)
       | Some False \<Rightarrow> (case ec_authorised C data of
           None \<Rightarrow> None | Some d \<Rightarrow> if validateAuthorised L d then Some (Inr d) else None))"

end
