(* ===== verification/Session_Store.thy ===== *)
theory Session_Store
  imports Session_Export
begin

text \<open>
  The store of incident sessions: \<open>incidentsession/store.go\<close>, \<open>capture.go\<close>, \<open>markers.go\<close>, \<open>compare.go\<close>,
  \<open>trace_reference.go\<close>, \<open>inspect.go\<close>, \<open>export.go\<close> and \<open>export_capacity.go\<close>. After the authorisation every operation
  holds the store's mutex, so it is one function from the store to a result and the next store.

  Everything an operation reads from outside is an argument: the readings of the caller's context, of the
  store's own context and of the clock (each numbered in the order of the code), the verdict of the authoriser and
  the random identifier. A Go error is \<open>Inl\<close>.
\<close>

subsection \<open>State and readings\<close>

record session_store =
  ik_limits :: session_limits
  ik_records :: "(string, session_record) gomap"

datatype verdict = Authorised | Denied | AuthoriserFailed

record session_call =
  sc_nil :: bool
  sc_cancelled :: "nat \<Rightarrow> bool"
  sc_stopped :: "nat \<Rightarrow> bool"
  sc_verdict :: verdict
  sc_now :: "nat \<Rightarrow> time"
  sc_newID :: "string option"

definition newStore_sessions :: "session_limits \<Rightarrow> session_store option" where
  "newStore_sessions limits = (if limits_valid limits then Some \<lparr>ik_limits = limits, ik_records = []\<rparr> else None)"

definition prune :: "time \<Rightarrow> session_store \<Rightarrow> session_store" where
  "prune now s = s\<lparr>ik_records := mkeep (\<lambda>key r. now < ss_expires r) (ik_records s)\<rparr>"

text \<open>The two cases of the loop of \<open>sweep\<close>: a tick, and the end of the store's context.\<close>

definition sweep_tick :: "time \<Rightarrow> session_store \<Rightarrow> session_store" where
  "sweep_tick now s = prune now s"

definition sweep_done :: "session_store \<Rightarrow> session_store" where
  "sweep_done s = s\<lparr>ik_records := []\<rparr>"

definition available :: "session_call \<Rightarrow> nat \<Rightarrow> session_error option" where
  "available call i = (if sc_cancelled call i then Some SessContext else if sc_stopped call i then Some SessStopped else None)"

definition authorize :: "session_lib \<Rightarrow> session_call \<Rightarrow> session_principal \<Rightarrow> bool \<Rightarrow> string \<Rightarrow> session_error option" where
  "authorize L call p create sid =
    (if sc_nil call \<or> \<not> principal_valid (ssl_names L) p \<or> (\<not> create \<and> \<not> digest sid 16) then Some SessInvalid
     else case available call 0 of
         Some e \<Rightarrow> Some e
       | None \<Rightarrow>
          (if sc_verdict call \<noteq> Authorised then
             (case available call 1 of
                Some e \<Rightarrow> Some e
              | None \<Rightarrow> if sc_verdict call = Denied then Some SessDenied else Some SessUnavailable)
           else available call 2))"

definition put_record :: "session_record \<Rightarrow> session_store \<Rightarrow> session_store" where
  "put_record r s = s\<lparr>ik_records := mput (ss_id r) r (ik_records s)\<rparr>"

definition drop_record :: "string \<Rightarrow> session_store \<Rightarrow> session_store" where
  "drop_record sid s = s\<lparr>ik_records := mdel sid (ik_records s)\<rparr>"

definition find_session :: "session_principal \<Rightarrow> string \<Rightarrow> time \<Rightarrow> session_store \<Rightarrow> (session_error + session_record) \<times> session_store" where
  "find_session p sid now s =
    (case mget (ik_records s) sid of
       None \<Rightarrow> (Inl SessNotFound, s)
     | Some r \<Rightarrow>
         if \<not> now < ss_expires r then (Inl SessNotFound, drop_record sid s)
         else if ss_principal r \<noteq> p then (Inl SessNotFound, s)
         else (Inr r, s))"

text \<open>The beginning of the operations on a session: authorisation, mutex, \<open>available\<close>, \<open>find\<close>.\<close>

definition find_available ::
  "session_call \<Rightarrow> session_principal \<Rightarrow> string \<Rightarrow> session_store \<Rightarrow> (session_error + session_record) \<times> session_store"
where
  "find_available call p sid s =
    (case available call 3 of Some e \<Rightarrow> (Inl e, s) | None \<Rightarrow> find_session p sid (sc_now call 0) s)"

definition locate ::
  "session_lib \<Rightarrow> session_call \<Rightarrow> session_principal \<Rightarrow> string \<Rightarrow> session_store \<Rightarrow> (session_error + session_record) \<times> session_store"
where
  "locate L call p sid s =
    (case authorize L call p False sid of
       Some e \<Rightarrow> (Inl e, s)
     | None \<Rightarrow> find_available call p sid s)"

subsection \<open>Adding an entry\<close>

definition closing_input :: session_input where
  "closing_input = input_zero\<lparr>in_Kind := ''closed'', in_Source := ''operator''\<rparr>"

definition reserveExportSyntax :: "session_lib \<Rightarrow> export_codec \<Rightarrow> session_record \<Rightarrow> string \<Rightarrow> time \<Rightarrow> session_error option" where
  "reserveExportSyntax L C r encoded now =
    (if \<not> boundedSyntax (ssl_tokens L) encoded then Some SessCapacity
     else if ss_closed r \<noteq> None then None
     else (let e = newEntry (ss_principal r) closing_input now (Suc (length (ss_entries r)));
               closed' = r\<lparr>ss_entries := ss_entries r @ [e], ss_closed := Some now\<rparr>
           in case ec_marshal C (fullDocument closed') of
                None \<Rightarrow> Some SessCapacity
              | Some data \<Rightarrow> if \<not> boundedSyntax (ssl_tokens L) data then Some SessCapacity else None))"

definition dated_entry :: "session_record \<Rightarrow> session_input \<Rightarrow> time \<Rightarrow> session_entry" where
  "dated_entry r x now =
    (let e = newEntry (ss_principal r) x now (Suc (length (ss_entries r)))
     in e\<lparr>en_ClockUncertain := entryClockRisk r e\<rparr>)"

definition extended :: "session_record \<Rightarrow> session_input \<Rightarrow> time \<Rightarrow> session_record" where
  "extended r x now = r\<lparr>ss_entries := ss_entries r @ [dated_entry r x now],
     ss_closed := (if in_Kind x = ''closed'' then Some now else ss_closed r)\<rparr>"

definition add_entry ::
  "session_lib \<Rightarrow> export_codec \<Rightarrow> session_limits \<Rightarrow> session_error option \<Rightarrow> session_record \<Rightarrow> session_input \<Rightarrow> time \<Rightarrow>
   session_error + session_record"
where
  "add_entry L C limits ended r x now =
    (let terminal = (in_Kind x = ''closed'');
         entryLimit = (if terminal then li_Entries limits else li_Entries limits - 1);
         byteLimit = (if terminal then li_SessionBytes limits else li_SessionBytes limits - int MaxEntryBytes);
         next' = extended r x now
     in if int (length (ss_entries r)) \<ge> entryLimit then Inl SessCapacity
        else if \<not> marshals_within (ec_entry_bytes C (dated_entry r x now)) MaxEntryBytes then Inl SessInvalid
        else if \<not> consistentReferences (ss_entries next') \<or> \<not> consistentTraceReferences (ss_entries next') then Inl SessInvalid
        else case ec_marshal C (fullDocument next') of
            None \<Rightarrow> Inl SessInvalid
          | Some data \<Rightarrow>
              if int (length data) > byteLimit then Inl SessCapacity
              else (case reserveExportSyntax L C next' data now of
                  Some e \<Rightarrow> Inl e
                | None \<Rightarrow> (case ended of Some e \<Rightarrow> Inl e | None \<Rightarrow> Inr next')))"

text \<open>
  Several entries at once; the \<open>i\<close>-th reads the clock and \<open>available\<close> at the given places. Nothing is committed here.
\<close>

fun add_entries ::
  "session_lib \<Rightarrow> export_codec \<Rightarrow> session_limits \<Rightarrow> session_call \<Rightarrow> (nat \<Rightarrow> time) \<Rightarrow> nat \<Rightarrow> session_record \<Rightarrow> session_input list \<Rightarrow>
   session_error + session_record"
where
  "add_entries L C limits call clock i r [] = Inr r"
| "add_entries L C limits call clock i r (x # xs) =
    (case add_entry L C limits (available call (4 + i)) r x (clock i) of
       Inl e \<Rightarrow> Inl e | Inr r' \<Rightarrow> add_entries L C limits call clock (Suc i) r' xs)"

text \<open>What is committed of a record, whose error if it reports a full session marks the record.\<close>

definition commit_result ::
  "session_record \<Rightarrow> session_error + session_record \<Rightarrow> session_store \<Rightarrow> (session_error + session_summary) \<times> session_store"
where
  "commit_result r result s =
    (case result of
       Inl e \<Rightarrow> (Inl e, if e = SessCapacity then put_record (r\<lparr>ss_limitReached := True\<rparr>) s else s)
     | Inr r' \<Rightarrow> (Inr (summary r'), put_record r' s))"

subsection \<open>Operations\<close>

definition Start ::
  "session_lib \<Rightarrow> export_codec \<Rightarrow> session_call \<Rightarrow> session_principal \<Rightarrow> session_store \<Rightarrow> (session_error + session_summary) \<times> session_store"
where
  "Start L C call p s =
    (case authorize L call p True '''' of Some e \<Rightarrow> (Inl e, s) | None \<Rightarrow>
     case available call 3 of Some e \<Rightarrow> (Inl e, s) | None \<Rightarrow>
      (let now = sc_now call 0; s1 = prune now s;
           namespaceCount = length (filter (\<lambda>(key, r). sp_NamespaceUID (ss_principal r) = sp_NamespaceUID p) (ik_records s1))
       in if int (mlen (ik_records s1)) \<ge> li_Sessions (ik_limits s) \<or> int namespaceCount \<ge> li_NamespaceSessions (ik_limits s)
          then (Inl SessCapacity, s1)
          else case sc_newID call of None \<Rightarrow> (Inl SessUnavailable, s1) | Some sid \<Rightarrow>
            if \<not> digest sid 16 \<or> mget (ik_records s1) sid \<noteq> None then (Inl SessUnavailable, s1)
            else (let r = \<lparr>ss_principal = p, ss_id = sid, ss_opened = now, ss_expires = now + li_Retention (ik_limits s),
                        ss_closed = None, ss_entries = [], ss_captures = [], ss_limitReached = False\<rparr>;
                      opening = input_zero\<lparr>in_Kind := ''opened'', in_Source := ''operator''\<rparr>
                  in case add_entry L C (ik_limits s) (available call 4) r opening now of
                       Inl e \<Rightarrow> (Inl e, s1)
                     | Inr r' \<Rightarrow> (Inr (summary r'), put_record r' s1))))"

text \<open>\<open>mutate\<close>, after the authorisation and \<open>find\<close>.\<close>

definition mutate_found ::
  "session_lib \<Rightarrow> export_codec \<Rightarrow> session_call \<Rightarrow> session_record \<Rightarrow> session_input \<Rightarrow> session_store \<Rightarrow>
   (session_error + session_summary) \<times> session_store"
where
  "mutate_found L C call r x s =
    (if ss_closed r \<noteq> None then (Inl SessClosed, s)
     else commit_result r (add_entry L C (ik_limits s) (available call 4) r x (sc_now call 1)) s)"

text \<open>An operation that checks its input between the authorisation and the mutex.\<close>

definition mutate_checked ::
  "session_lib \<Rightarrow> export_codec \<Rightarrow> session_call \<Rightarrow> session_principal \<Rightarrow> string \<Rightarrow> bool \<Rightarrow> session_input \<Rightarrow> session_store \<Rightarrow>
   (session_error + session_summary) \<times> session_store"
where
  "mutate_checked L C call p sid valid x s =
    (case authorize L call p False sid of Some e \<Rightarrow> (Inl e, s) | None \<Rightarrow>
      if \<not> valid then (Inl SessInvalid, s)
      else case find_available call p sid s of
          (Inl e, s') \<Rightarrow> (Inl e, s')
        | (Inr r, s') \<Rightarrow> mutate_found L C call r x s')"

definition Append ::
  "session_lib \<Rightarrow> export_codec \<Rightarrow> session_call \<Rightarrow> session_principal \<Rightarrow> string \<Rightarrow> session_input \<Rightarrow> session_store \<Rightarrow>
   (session_error + session_summary) \<times> session_store"
where
  "Append L C call p sid x s = mutate_checked L C call p sid (in_Kind x \<noteq> ''trace-referenced'' \<and> input_validate p x) x s"

definition Close ::
  "session_lib \<Rightarrow> export_codec \<Rightarrow> session_call \<Rightarrow> session_principal \<Rightarrow> string \<Rightarrow> session_store \<Rightarrow>
   (session_error + session_summary) \<times> session_store"
where
  "Close L C call p sid s = mutate_checked L C call p sid True closing_input s"

definition RecordCaptureGap ::
  "session_lib \<Rightarrow> export_codec \<Rightarrow> session_call \<Rightarrow> session_principal \<Rightarrow> string \<Rightarrow> string \<Rightarrow> session_store \<Rightarrow>
   (session_error + session_summary) \<times> session_store"
where
  "RecordCaptureGap L C call p sid reason s =
    (let x = input_zero\<lparr>in_Kind := ''gap'', in_Source := ''collector'', in_GapReason := reason\<rparr>
     in mutate_checked L C call p sid (input_validate p x) x s)"

definition RecordMarkerGap ::
  "session_lib \<Rightarrow> export_codec \<Rightarrow> session_call \<Rightarrow> session_principal \<Rightarrow> string \<Rightarrow> string \<Rightarrow> session_store \<Rightarrow>
   (session_error + session_summary) \<times> session_store"
where
  "RecordMarkerGap L C call p sid reason s =
    (let x = input_zero\<lparr>in_Kind := ''gap'', in_Source := ''kubernetes'', in_GapReason := reason\<rparr>
     in mutate_checked L C call p sid (input_validate p x) x s)"

definition RecordTraceReference ::
  "session_lib \<Rightarrow> export_codec \<Rightarrow> session_call \<Rightarrow> session_principal \<Rightarrow> string \<Rightarrow> trace_reference \<Rightarrow> session_store \<Rightarrow>
   (session_error + session_summary) \<times> session_store"
where
  "RecordTraceReference L C call p sid ref s =
    (let x = input_zero\<lparr>in_Kind := ''trace-referenced'', in_Source := traceReferenceSource, in_ObservedAt := tf_CapturedAt ref,
           in_TraceReference := Some ref\<rparr>
     in mutate_checked L C call p sid (reference_valid ref \<and> input_validate p x) x s)"

subsection \<open>Captures\<close>

definition retain_found ::
  "session_lib \<Rightarrow> export_codec \<Rightarrow> session_call \<Rightarrow> captured_evidence \<Rightarrow> string \<Rightarrow> string \<Rightarrow> session_input list \<Rightarrow> session_record \<Rightarrow>
   session_store \<Rightarrow> (session_error + session_summary) \<times> session_store"
where
  "retain_found L C call evidence kind source gaps r s =
    (if ss_closed r \<noteq> None then (Inl SessClosed, s)
     else (let present = list_ex (\<lambda>v. ev_Digest v = ev_Digest evidence) (ss_captures r)
           in if \<not> present \<and> length (ss_captures r) \<ge> MaxCaptures then
                (Inl SessCapacity, put_record (r\<lparr>ss_limitReached := True\<rparr>) s)
              else (let r1 = (if present then r else r\<lparr>ss_captures := ss_captures r @ [evidence]\<rparr>);
                        x = input_zero\<lparr>in_Kind := kind, in_Source := source, in_ObservedAt := ev_ObservedAt evidence,
                          in_References := [evidence_reference evidence]\<rparr>
                    in commit_result r (add_entries L C (ik_limits s) call (\<lambda>i. sc_now call (Suc i)) 0 r1 (x # gaps)) s)))"

definition RecordCapture ::
  "session_lib \<Rightarrow> export_codec \<Rightarrow> session_call \<Rightarrow> session_principal \<Rightarrow> string \<Rightarrow> string \<Rightarrow> session_store \<Rightarrow>
   (session_error + session_summary) \<times> session_store"
where
  "RecordCapture L C call p sid data s =
    (case authorize L call p False sid of Some e \<Rightarrow> (Inl e, s) | None \<Rightarrow>
     case podCapture L p data of None \<Rightarrow> (Inl SessInvalid, s) | Some evidence \<Rightarrow>
     case find_available call p sid s of
        (Inl e, s') \<Rightarrow> (Inl e, s')
      | (Inr r, s') \<Rightarrow> retain_found L C call evidence ''captured'' ''collector'' [] r s')"

definition RecordMarkers ::
  "session_lib \<Rightarrow> export_codec \<Rightarrow> session_call \<Rightarrow> session_principal \<Rightarrow> string \<Rightarrow> string \<Rightarrow> session_store \<Rightarrow>
   (session_error + session_summary) \<times> session_store"
where
  "RecordMarkers L C call p sid data s =
    (case authorize L call p False sid of Some e \<Rightarrow> (Inl e, s) | None \<Rightarrow>
     case historyCapture L p data of None \<Rightarrow> (Inl SessInvalid, s) | Some evidence \<Rightarrow>
     case ssl_history_lax L data of None \<Rightarrow> (Inl SessInvalid, s) | Some bundle \<Rightarrow>
     case find_available call p sid s of
        (Inl e, s') \<Rightarrow> (Inl e, s')
      | (Inr r, s') \<Rightarrow> retain_found L C call evidence ''marked'' ''kubernetes'' (markerGaps bundle) r s')"

definition findCapture :: "session_record \<Rightarrow> string \<Rightarrow> captured_evidence option" where
  "findCapture r digest' = find (\<lambda>v. ev_Digest v = digest') (ss_captures r)"

definition compare_inputs :: "captured_evidence \<Rightarrow> captured_evidence \<Rightarrow> bool \<Rightarrow> bool \<Rightarrow> time \<Rightarrow> session_input list" where
  "compare_inputs before after identity clock now =
    [input_zero\<lparr>in_Kind := ''compared'', in_Source := ''operator'', in_ObservedAt := now,
       in_References := [evidence_reference before, evidence_reference after]\<rparr>] @
    (if identity then [input_zero\<lparr>in_Kind := ''gap'', in_Source := ''collector'', in_GapReason := ''source-changed''\<rparr>] else []) @
    (if clock then [input_zero\<lparr>in_Kind := ''gap'', in_Source := ''collector'', in_GapReason := ''clock-uncertain''\<rparr>] else [])"

definition CompareCaptures ::
  "session_lib \<Rightarrow> export_codec \<Rightarrow> session_call \<Rightarrow> session_principal \<Rightarrow> string \<Rightarrow> string \<Rightarrow> string \<Rightarrow> session_store \<Rightarrow>
   (session_error + session_summary) \<times> session_store"
where
  "CompareCaptures L C call p sid beforeDigest afterDigest s =
    (case authorize L call p False sid of Some e \<Rightarrow> (Inl e, s) | None \<Rightarrow>
      if \<not> digest beforeDigest 32 \<or> \<not> digest afterDigest 32 then (Inl SessInvalid, s)
      else case find_available call p sid s of
          (Inl e, s') \<Rightarrow> (Inl e, s')
        | (Inr r, s') \<Rightarrow>
           if ss_closed r \<noteq> None then (Inl SessClosed, s')
           else (case (findCapture r beforeDigest, findCapture r afterDigest) of
               (Some before, Some after) \<Rightarrow>
                 if \<not> compatibleCaptureSchemas (ev_SchemaVersion before) (ev_SchemaVersion after) then (Inl SessInvalid, s')
                 else (case captureChanges L before after of
                     None \<Rightarrow> (Inl SessInvalid, s')
                   | Some (identity, clock) \<Rightarrow>
                      (let now = sc_now call 1
                       in commit_result r (add_entries L C (ik_limits s') call (\<lambda>_. now) 0 r (compare_inputs before after identity clock now)) s'))
             | _ \<Rightarrow> (Inl SessNotFound, s')))"

subsection \<open>Deleting and reading\<close>

definition Delete ::
  "session_lib \<Rightarrow> session_call \<Rightarrow> session_principal \<Rightarrow> string \<Rightarrow> session_store \<Rightarrow> (session_error + unit) \<times> session_store"
where
  "Delete L call p sid s =
    (case locate L call p sid s of (Inl e, s') \<Rightarrow> (Inl e, s') | (Inr r, s') \<Rightarrow> (Inr (), drop_record sid s'))"

definition Inspect ::
  "session_lib \<Rightarrow> session_call \<Rightarrow> session_principal \<Rightarrow> string \<Rightarrow> session_store \<Rightarrow> (session_error + session_summary) \<times> session_store"
where
  "Inspect L call p sid s =
    (case locate L call p sid s of (Inl e, s') \<Rightarrow> (Inl e, s') | (Inr r, s') \<Rightarrow> (Inr (summary r), s'))"

definition CaptureData ::
  "session_lib \<Rightarrow> session_call \<Rightarrow> session_principal \<Rightarrow> string \<Rightarrow> string \<Rightarrow> session_store \<Rightarrow> (session_error + string) \<times> session_store"
where
  "CaptureData L call p sid digest' s =
    (case locate L call p sid s of
       (Inl e, s') \<Rightarrow> (Inl e, s')
     | (Inr r, s') \<Rightarrow> (case findCapture r digest' of None \<Rightarrow> (Inl SessNotFound, s') | Some v \<Rightarrow> (Inr (ev_Data v), s')))"

datatype export_operation = ExportSanitised | ExportAuthorised | OtherOperation

definition Export ::
  "session_lib \<Rightarrow> export_codec \<Rightarrow> session_call \<Rightarrow> session_principal \<Rightarrow> string \<Rightarrow> export_operation \<Rightarrow> session_store \<Rightarrow>
   (session_error + string) \<times> session_store"
where
  "Export L C call p sid operation s =
    (if operation = OtherOperation then (Inl SessInvalid, s)
     else case locate L call p sid s of
         (Inl e, s') \<Rightarrow> (Inl e, s')
       | (Inr r, s') \<Rightarrow>
          (case (if operation = ExportSanitised then ec_marshal_sanitised C (sanitisedDocument r) else ec_marshal C (fullDocument r)) of
             None \<Rightarrow> (Inl SessCapacity, s')
           | Some data \<Rightarrow>
               if int (length data) > li_SessionBytes (ik_limits s') then (Inl SessCapacity, s')
               else (case available call 4 of Some e \<Rightarrow> (Inl e, s') | None \<Rightarrow> (Inr data, s'))))"

end
