(* ===== verification/Session_Invariant.thy ===== *)
theory Session_Invariant
  imports Session_Store
begin

text \<open>
  The invariant of a session record: its full document is one that \<open>validateAuthorised\<close> accepts, it has room for its
  closing entry while it is open, and every reference is to a capture it holds. The lemmas: an entry that
  \<open>add\<close> accepts keeps the invariant, whichever operation builds it, and the invariant gives a valid document.
\<close>

subsection \<open>Chronologies\<close>

definition chronology_after :: "chronology \<Rightarrow> session_entry list \<Rightarrow> chronology" where
  "chronology_after c es = fold (\<lambda>e c. snd (observe c (privatePoint e))) es c"

lemma entries_ok_append:
  "entries_ok p closedAt n c i (es @ [e]) \<longleftrightarrow> entries_ok p closedAt n c i es \<and> entry_ok p closedAt n (i + length es) e \<and>
    (fst (observe (chronology_after c es) (privatePoint e)) \<longrightarrow> en_ClockUncertain e)"
proof (induction es arbitrary: c i)
  case Nil
  then show ?case
    by (simp add: chronology_after_def case_prod_beta Let_def)
next
  case (Cons a es)
  then show ?case
    by (simp add: chronology_after_def case_prod_beta Let_def conj_assoc)
qed

text \<open>While a session is open no entry depends on the number of entries or on the time of closing.\<close>

lemma open_entry_ok: "entry_ok p None n i e \<Longrightarrow> entry_ok p closedAt m i e"
  by (auto simp: entry_ok_def validLifecycle_def split: if_splits)

lemma open_entries_ok: "entries_ok p None n c i es \<Longrightarrow> entries_ok p closedAt m c i es"
  by (induction es arbitrary: c i) (auto intro: open_entry_ok split: prod.splits)

subsection \<open>Entries built from inputs\<close>

lemma dated_entry_simps [simp]:
  "en_Sequence (dated_entry r x now) = of_nat (Suc (length (ss_entries r)))" "en_Kind (dated_entry r x now) = in_Kind x"
  "en_RecordedAt (dated_entry r x now) = now" "en_Source (dated_entry r x now) = in_Source x"
  "en_Sensitivity (dated_entry r x now) = ''private''" "en_Note (dated_entry r x now) = in_Note x"
  "en_References (dated_entry r x now) = in_References x" "en_GapReason (dated_entry r x now) = in_GapReason x"
  "en_TraceReference (dated_entry r x now) = in_TraceReference x" "entry_principal (dated_entry r x now) = ss_principal r"
  by (simp_all add: dated_entry_def newEntry_def Let_def entry_principal_def)

lemma dated_entry_observed:
  "en_ObservedAt (dated_entry r x now) =
    (let observed = (if in_Source x = ''operator'' \<and> in_ObservedAt x = 0 then now else in_ObservedAt x)
     in if observed = 0 then None else Some observed)"
  by (simp add: dated_entry_def newEntry_def Let_def)

lemma dated_entry_risk:
  "en_ClockUncertain (dated_entry r x now) =
    fst (observe (chronology_after (new_chronology (ss_opened r) (ss_expires r)) (ss_entries r)) (privatePoint (dated_entry r x now)))"
  by (simp add: dated_entry_def Let_def entryClockRisk_def chronology_after_def privatePoint_def)

lemma input_validate_kind:
  "input_validate p x \<Longrightarrow> in_Kind x \<in> {''trace-referenced'', ''annotated'', ''captured'', ''marked'', ''compared'', ''gap''}"
  by (auto simp: input_validate_def input_kind_ok_def Let_def split: if_splits)

lemma dated_entry_ok:
  assumes "input_validate (ss_principal r) x" and "now \<noteq> 0"
  shows "entry_ok (ss_principal r) closedAt n (length (ss_entries r)) (dated_entry r x now)"
proof -
  let ?e = "dated_entry r x now"
  have kind: "\<not> lifecycle_kind (in_Kind x)"
    using input_validate_kind [OF assms(1)] by (auto simp: lifecycle_kind_def)
  have "\<exists>y. entry_input ?e = Some y \<and> input_validate (ss_principal r) y"
  proof (cases "in_Kind x = ''annotated''")
    case True
    with assms(1) have "in_Source x = ''operator''" "in_ObservedAt x = 0"
      by (simp_all add: input_validate_def input_kind_ok_def Let_def)
    with True assms(2) have "entry_input ?e = Some x"
      by (cases x) (simp add: entry_input_def dated_entry_observed Let_def)
    with assms(1) show ?thesis
      by blast
  next
    case False
    define t where "t = (case en_ObservedAt ?e of None \<Rightarrow> 0 | Some t \<Rightarrow> t)"
    have "entry_input ?e = Some (x\<lparr>in_ObservedAt := t\<rparr>)"
      using False by (simp add: entry_input_def Let_def t_def)
    moreover have "input_validate (ss_principal r) (x\<lparr>in_ObservedAt := t\<rparr>)"
    proof (cases "in_Kind x = ''gap''")
      case True
      with assms(1) show ?thesis
        by (simp add: input_validate_def input_kind_ok_def Let_def)
    next
      case other: False
      have "in_ObservedAt x \<noteq> 0"
        using assms(1) False other
        by (auto simp: input_validate_def input_kind_ok_def Let_def reference_valid_def split: if_splits option.splits)
      then have "t = in_ObservedAt x"
        by (simp add: t_def dated_entry_observed Let_def)
      with assms(1) show ?thesis
        by simp
    qed
    ultimately show ?thesis
      by blast
  qed
  then show ?thesis
    using kind assms(2) by (auto simp: entry_ok_def dated_entry_observed Let_def)
qed

subsection \<open>The invariant\<close>

definition record_references :: "session_record \<Rightarrow> capture_reference set" where
  "record_references r = (\<Union>e \<in> set (ss_entries r). set (en_References e))"

text \<open>\<open>D\<close> is the set of the documents that were recorded.\<close>

definition captures_held :: "session_lib \<Rightarrow> string set \<Rightarrow> session_record \<Rightarrow> bool" where
  "captures_held L D r \<longleftrightarrow> length (ss_captures r) \<le> MaxCaptures \<and> distinct (map ev_Digest (ss_captures r)) \<and>
     (\<forall>v \<in> set (ss_captures r). ev_Data v \<in> D \<and> decodeRetainedCapture L (ss_principal r) (ev_Data v) = Some v) \<and>
     record_references r \<subseteq> evidence_reference ` set (ss_captures r)"

definition timeline_ok :: "session_limits \<Rightarrow> session_record \<Rightarrow> bool" where
  "timeline_ok limits r \<longleftrightarrow> ss_entries r \<noteq> [] \<and> en_Kind (hd (ss_entries r)) = ''opened'' \<and>
     en_RecordedAt (hd (ss_entries r)) = ss_opened r \<and> (ss_closed r \<noteq> None \<longleftrightarrow> en_Kind (last (ss_entries r)) = ''closed'') \<and>
     int (length (ss_entries r)) + (if ss_closed r = None then 1 else 0) \<le> li_Entries limits \<and>
     consistentReferences (ss_entries r) \<and> consistentTraceReferences (ss_entries r) \<and>
     entries_ok (ss_principal r) (ss_closed r) (length (ss_entries r)) (new_chronology (ss_opened r) (ss_expires r)) 0 (ss_entries r)"

definition frame_ok :: "session_lib \<Rightarrow> session_limits \<Rightarrow> session_record \<Rightarrow> bool" where
  "frame_ok L limits r \<longleftrightarrow> digest (ss_id r) 16 \<and> principal_valid (ssl_names L) (ss_principal r) \<and> ss_opened r \<noteq> 0 \<and>
     ss_expires r = ss_opened r + li_Retention limits \<and> ss_closed r \<noteq> Some 0"

definition record_core :: "session_lib \<Rightarrow> string set \<Rightarrow> session_limits \<Rightarrow> session_record \<Rightarrow> bool" where
  "record_core L D limits r \<longleftrightarrow> frame_ok L limits r \<and> timeline_ok limits r \<and> captures_held L D r"

definition record_ok :: "session_lib \<Rightarrow> string set \<Rightarrow> session_limits \<Rightarrow> session_record \<Rightarrow> bool" where
  "record_ok L D limits r \<longleftrightarrow> record_core L D limits r \<and> evidence_reference ` set (ss_captures r) \<subseteq> record_references r"

subsection \<open>Adding entries\<close>

lemma add_entry_Inr:
  assumes "add_entry L C limits ended r x now = Inr r'"
  shows "r' = extended r x now \<and> consistentReferences (ss_entries r') \<and> consistentTraceReferences (ss_entries r') \<and>
    int (length (ss_entries r)) < (if in_Kind x = ''closed'' then li_Entries limits else li_Entries limits - 1)"
  using assms by (auto simp: add_entry_def Let_def split: if_splits option.splits)

lemma extended_simps [simp]:
  "ss_principal (extended r x now) = ss_principal r" "ss_id (extended r x now) = ss_id r"
  "ss_opened (extended r x now) = ss_opened r" "ss_expires (extended r x now) = ss_expires r"
  "ss_captures (extended r x now) = ss_captures r" "ss_entries (extended r x now) = ss_entries r @ [dated_entry r x now]"
  "ss_closed (extended r x now) = (if in_Kind x = ''closed'' then Some now else ss_closed r)"
  by (simp_all add: extended_def)

text \<open>What the operations add to an open session.\<close>

definition admissible :: "session_record \<Rightarrow> session_input \<Rightarrow> bool" where
  "admissible r x \<longleftrightarrow> (x = closing_input \<or> input_validate (ss_principal r) x) \<and>
     set (in_References x) \<subseteq> evidence_reference ` set (ss_captures r)"

lemma closing_entry_ok:
  assumes "now \<noteq> 0"
  shows "entry_ok (ss_principal r) (Some now) (Suc (length (ss_entries r))) (length (ss_entries r)) (dated_entry r closing_input now)"
  using assms
  by (auto simp: entry_ok_def lifecycle_kind_def validLifecycle_def dated_entry_observed closing_input_def input_zero_def Let_def)

lemma add_entry_core:
  assumes "record_core L D limits r" and "ss_closed r = None" and "now \<noteq> 0" and "admissible r x"
    and "add_entry L C limits ended r x now = Inr r'"
  shows "record_core L D limits r'"
proof -
  let ?c = "new_chronology (ss_opened r) (ss_expires r)" and ?closed = "if in_Kind x = ''closed'' then Some now else None"
  note r' = add_entry_Inr [OF assms(5)]
  have r: "r' = extended r x now"
    using r' by blast
  have timeline: "timeline_ok limits r" and frame: "frame_ok L limits r" and held: "captures_held L D r"
    using assms(1) by (simp_all add: record_core_def)
  have closing: "in_Kind x = ''closed'' \<longleftrightarrow> x = closing_input"
    using assms(4) input_validate_kind [of "ss_principal r" x] by (auto simp: admissible_def closing_input_def input_zero_def)
  have entry: "entry_ok (ss_principal r) ?closed (Suc (length (ss_entries r))) (length (ss_entries r)) (dated_entry r x now)"
  proof (cases "x = closing_input")
    case True
    with closing closing_entry_ok [OF assms(3)] show ?thesis
      by simp
  next
    case False
    with assms(3,4) dated_entry_ok show ?thesis
      by (simp add: admissible_def)
  qed
  have "entries_ok (ss_principal r) None (length (ss_entries r)) ?c 0 (ss_entries r)"
    using timeline assms(2) by (simp add: timeline_ok_def)
  then have "entries_ok (ss_principal r) ?closed (Suc (length (ss_entries r))) ?c 0 (ss_entries r @ [dated_entry r x now])"
    using entry by (auto simp: entries_ok_append dated_entry_risk intro: open_entries_ok)
  then have "timeline_ok limits r'"
    using timeline r' assms(2) by (auto simp: timeline_ok_def r split: if_splits)
  moreover have "frame_ok L limits r'"
    using frame assms(2,3) by (simp add: frame_ok_def r)
  moreover have "captures_held L D r'"
    using held assms(4) by (auto simp: captures_held_def record_references_def admissible_def r)
  ultimately show ?thesis
    by (simp add: record_core_def)
qed

lemma add_entry_same:
  "add_entry L C limits ended r x now = Inr r' \<Longrightarrow> ss_id r' = ss_id r \<and> ss_principal r' = ss_principal r \<and>
    ss_captures r' = ss_captures r \<and> record_references r' = record_references r \<union> set (in_References x) \<and>
    ss_expires r' = ss_expires r \<and> ss_closed r' = (if in_Kind x = ''closed'' then Some now else ss_closed r)"
  using add_entry_Inr [of L C limits ended r x now r'] by (auto simp: record_references_def)

lemma add_entries_core:
  "record_core L D limits r \<Longrightarrow> ss_closed r = None \<Longrightarrow> (\<And>i. clock i \<noteq> 0) \<Longrightarrow>
    (\<And>x. x \<in> set xs \<Longrightarrow> admissible r x \<and> in_Kind x \<noteq> ''closed'') \<Longrightarrow>
    add_entries L C limits call clock i r xs = Inr r' \<Longrightarrow>
    record_core L D limits r' \<and> ss_id r' = ss_id r \<and> ss_principal r' = ss_principal r \<and> ss_captures r' = ss_captures r \<and>
    ss_expires r' = ss_expires r \<and> record_references r' = record_references r \<union> (\<Union>x \<in> set xs. set (in_References x))"
proof (induction xs arbitrary: i r)
  case (Cons x xs)
  obtain r1 where r1: "add_entry L C limits (available call (4 + i)) r x (clock i) = Inr r1"
    and rest: "add_entries L C limits call clock (Suc i) r1 xs = Inr r'"
    using Cons.prems(5) by (auto split: sum.splits)
  have x: "admissible r x" "in_Kind x \<noteq> ''closed''"
    using Cons.prems(4) by auto
  have core: "record_core L D limits r1"
    by (rule add_entry_core [OF Cons.prems(1,2) Cons.prems(3) x(1) r1])
  note same = add_entry_same [OF r1]
  have "admissible r1 y \<and> in_Kind y \<noteq> ''closed''" if "y \<in> set xs" for y
    using Cons.prems(4) [of y] that same by (auto simp: admissible_def)
  from Cons.IH [OF core _ Cons.prems(3) this rest] same x(2) Cons.prems(2) show ?case
    by (simp add: Un_assoc)
qed simp

text \<open>The opening entry.\<close>

definition opening_input :: session_input where
  "opening_input = input_zero\<lparr>in_Kind := ''opened'', in_Source := ''operator''\<rparr>"

definition opening_record :: "session_limits \<Rightarrow> session_principal \<Rightarrow> string \<Rightarrow> time \<Rightarrow> session_record" where
  "opening_record limits p sid now = \<lparr>ss_principal = p, ss_id = sid, ss_opened = now, ss_expires = now + li_Retention limits,
     ss_closed = None, ss_entries = [], ss_captures = [], ss_limitReached = False\<rparr>"

lemma opening_record_ok:
  assumes "limits_valid limits" and "principal_valid (ssl_names L) p" and "digest sid 16" and "now \<noteq> 0"
    and "add_entry L C limits ended (opening_record limits p sid now) opening_input now = Inr r"
  shows "record_ok L D limits r"
proof -
  let ?r = "opening_record limits p sid now"
  let ?e = "dated_entry ?r opening_input now"
  note r = add_entry_Inr [OF assms(5)]
  have entry: "entry_ok p None 1 0 ?e"
    using assms(4) by (auto simp: entry_ok_def lifecycle_kind_def validLifecycle_def dated_entry_observed opening_input_def
        input_zero_def opening_record_def Let_def)
  have entries: "entries_ok p None 1 (new_chronology now (now + li_Retention limits)) 0 [?e]"
    using entries_ok_append [of p None 1 "new_chronology now (now + li_Retention limits)" 0 "[]" ?e] entry
    by (simp add: dated_entry_risk opening_record_def)
  have shape: "ss_entries r = [?e]" "ss_principal r = p" "ss_id r = sid" "ss_opened r = now"
    "ss_expires r = now + li_Retention limits" "ss_closed r = None" "ss_captures r = []"
    using r by (simp_all add: opening_record_def opening_input_def)
  have consistent: "consistentReferences (ss_entries r)" "consistentTraceReferences (ss_entries r)"
    using r by blast+
  have "2 \<le> li_Entries limits"
    using assms(1) by (simp add: limits_valid_def)
  then have "timeline_ok limits r"
    using consistent entries unfolding timeline_ok_def shape by (simp add: opening_input_def)
  moreover have "frame_ok L limits r"
    using assms by (simp add: frame_ok_def shape)
  moreover have "record_references r = {}"
    by (simp add: record_references_def shape opening_input_def input_zero_def)
  ultimately show ?thesis
    by (simp add: record_ok_def record_core_def captures_held_def shape)
qed

subsection \<open>A valid document\<close>

lemma entries_ok_principal: "entries_ok p closedAt n c i es \<Longrightarrow> e \<in> set es \<Longrightarrow> entry_principal e = p"
  by (induction es arbitrary: c i) (auto simp: entry_ok_def split: prod.splits)

lemma fold_mput_last: "k \<in> key ` set xs \<Longrightarrow> \<exists>x \<in> set xs. key x = k \<and> mget (fold (\<lambda>x m. mput (key x) x m) xs m) k = Some x"
proof (induction xs arbitrary: m rule: rev_induct)
  case (snoc y ys)
  then show ?case
    by (cases "key y = k") (auto simp: mget_mput)
qed simp

lemma captures_ok_intro:
  "(\<And>v. v \<in> set vs \<Longrightarrow> decodeRetainedCapture L p (ev_Data v) = Some v \<and> mget refs (ev_Digest v) = Some (evidence_reference v)) \<Longrightarrow>
    distinct (map ev_Digest vs) \<Longrightarrow> set (map ev_Digest vs) \<inter> set seen = {} \<Longrightarrow> captures_ok L p refs seen vs"
  by (induction vs arbitrary: seen) (auto simp: mget0_def)

lemma held_captures_valid:
  assumes "captures_held L D r" and "evidence_reference ` set (ss_captures r) \<subseteq> record_references r"
  shows "captures_ok L (ss_principal r) (references_by_digest (ss_entries r)) [] (ss_captures r)"
proof (rule captures_ok_intro)
  fix v
  assume v: "v \<in> set (ss_captures r)"
  let ?refs = "concat (map en_References (ss_entries r))"
  have all: "record_references r = set ?refs"
    by (simp add: record_references_def)
  have "ev_Digest v \<in> cf_Digest ` set ?refs"
    using v assms(2) all by (force simp: evidence_reference_def)
  from fold_mput_last [OF this, of "[]"] obtain ref where ref: "ref \<in> set ?refs" "cf_Digest ref = ev_Digest v"
    and found: "mget (references_by_digest (ss_entries r)) (ev_Digest v) = Some ref"
    by (auto simp: references_by_digest_def)
  then obtain w where w: "w \<in> set (ss_captures r)" "ref = evidence_reference w"
    using assms(1) all by (auto simp: captures_held_def)
  with ref(2) have "ev_Digest w = ev_Digest v"
    by (simp add: evidence_reference_def)
  then have "w = v"
    using assms(1) v w(1) by (auto simp: captures_held_def distinct_map inj_on_def)
  with found w assms(1) v show "decodeRetainedCapture L (ss_principal r) (ev_Data v) = Some v \<and>
      mget (references_by_digest (ss_entries r)) (ev_Digest v) = Some (evidence_reference v)"
    by (simp add: captures_held_def)
qed (use assms(1) in \<open>simp_all add: captures_held_def\<close>)

lemma record_ok_document:
  assumes "limits_valid limits" and "record_ok L D limits r"
  shows "validateAuthorised L (fullDocument r)"
proof -
  have timeline: "timeline_ok limits r" and frame: "frame_ok L limits r" and held: "captures_held L D r"
    and referenced: "evidence_reference ` set (ss_captures r) \<subseteq> record_references r"
    using assms(2) by (simp_all add: record_ok_def record_core_def)
  have "hd (ss_entries r) \<in> set (ss_entries r)"
    using timeline by (simp add: timeline_ok_def)
  then have principal: "entry_principal (hd (ss_entries r)) = ss_principal r"
    using timeline entries_ok_principal unfolding timeline_ok_def by blast
  have n: "1 \<le> length (ss_entries r)"
    using timeline by (cases "ss_entries r") (simp_all add: timeline_ok_def)
  have most: "int (length (ss_entries r)) + (if ss_closed r = None then 1 else 0) \<le> int MaxEntries"
    using timeline assms(1) unfolding timeline_ok_def limits_valid_def by linarith
  have span: "time_sub (ss_expires r) (ss_opened r) = li_Retention limits"
    using frame assms(1)
    by (simp add: frame_ok_def limits_valid_def time_sub_exact go_simps hour_def)
  have nonzero: "ss_opened r \<noteq> 0" "ss_closed r \<noteq> Some 0" and retention: "minute \<le> li_Retention limits" "li_Retention limits \<le> 4 * hour"
    using frame assms(1) by (simp_all add: frame_ok_def limits_valid_def)
  have header: "validHeader ''IncidentSession'' (exportSchema (ss_entries r)) (ss_opened r) (ss_expires r) (ss_closed r)
      (length (ss_entries r))"
    using nonzero retention n most
    by (cases "ss_closed r") (auto simp: validHeader_def span exportSchema_def)
  show ?thesis
    using header timeline frame held held_captures_valid [OF held referenced]
    by (simp add: validateAuthorised_def fullDocument_def Let_def principal timeline_ok_def frame_ok_def validateCaptures_def
        captures_held_def)
qed

end
