(* ===== verification/Session_Run.thy ===== *)
theory Session_Run
  imports Session_Invariant Step_Systems
begin

text \<open>
  The store of incident sessions as a step system. An action is one call of one principal; \<open>perform\<close> runs it and
  keeps its error. \<open>session_effect\<close> lists what an action can do to the store, once for all operations: keep it, drop an
  expired or a deleted session, mark a full one, replace a session of the caller by a longer one, prune, or open a
  new one. The invariants are kept by each of these effects.
\<close>

subsection \<open>Actions\<close>

datatype session_action =
    DoStart
  | DoAppend string session_input
  | DoClose string
  | DoCaptureGap string string
  | DoMarkerGap string string
  | DoTrace string trace_reference
  | DoCapture string string
  | DoMarkers string string
  | DoCompare string string string
  | DoDelete string
  | DoInspect string
  | DoCaptureData string string
  | DoExport string export_operation

definition failure :: "(session_error + 'a) \<times> session_store \<Rightarrow> session_error option \<times> session_store" where
  "failure r = (case fst r of Inl e \<Rightarrow> Some e | Inr _ \<Rightarrow> None, snd r)"

fun perform ::
  "session_lib \<Rightarrow> export_codec \<Rightarrow> session_call \<Rightarrow> session_principal \<Rightarrow> session_action \<Rightarrow> session_store \<Rightarrow>
   session_error option \<times> session_store"
where
  "perform L C call p DoStart s = failure (Start L C call p s)"
| "perform L C call p (DoAppend sid x) s = failure (Append L C call p sid x s)"
| "perform L C call p (DoClose sid) s = failure (Close L C call p sid s)"
| "perform L C call p (DoCaptureGap sid reason) s = failure (RecordCaptureGap L C call p sid reason s)"
| "perform L C call p (DoMarkerGap sid reason) s = failure (RecordMarkerGap L C call p sid reason s)"
| "perform L C call p (DoTrace sid ref) s = failure (RecordTraceReference L C call p sid ref s)"
| "perform L C call p (DoCapture sid data) s = failure (RecordCapture L C call p sid data s)"
| "perform L C call p (DoMarkers sid data) s = failure (RecordMarkers L C call p sid data s)"
| "perform L C call p (DoCompare sid a b) s = failure (CompareCaptures L C call p sid a b s)"
| "perform L C call p (DoDelete sid) s = failure (Delete L call p sid s)"
| "perform L C call p (DoInspect sid) s = failure (Inspect L call p sid s)"
| "perform L C call p (DoCaptureData sid d) s = failure (CaptureData L call p sid d s)"
| "perform L C call p (DoExport sid operation) s = failure (Export L C call p sid operation s)"

text \<open>
  What the API relies on: it appends annotations and gaps only, never references of the caller's choice; the
  documents recorded belong to \<open>D\<close>; and the clock is not at Go's zero time.
\<close>

fun action_allowed :: "string set \<Rightarrow> session_action \<Rightarrow> bool" where
  "action_allowed D (DoAppend sid x) \<longleftrightarrow> in_References x = []"
| "action_allowed D (DoCapture sid data) \<longleftrightarrow> data \<in> D"
| "action_allowed D (DoMarkers sid data) \<longleftrightarrow> data \<in> D"
| "action_allowed D _ \<longleftrightarrow> True"

text \<open>
  The decoders agree: the version a header decoder reads is that of the whole document, and the options of a strict
  decoder only refuse documents. The digests of the documents recorded are different.
\<close>

definition coherent_codecs :: "session_lib \<Rightarrow> bool" where
  "coherent_codecs L \<longleftrightarrow> (\<forall>data b. ssl_bundle L data = Some b \<longrightarrow> ssl_schema L data = Some (ib_SchemaVersion b)) \<and>
     (\<forall>data b. ssl_history L data = Some b \<longrightarrow> ssl_schema L data = Some (hi_SchemaVersion b) \<and> ssl_history_lax L data = Some b)"

definition distinct_digests :: "session_lib \<Rightarrow> string set \<Rightarrow> bool" where
  "distinct_digests L D \<longleftrightarrow> inj_on (evidence_digest L) D"

definition trusted :: "session_lib \<Rightarrow> string set \<Rightarrow> session_call \<Rightarrow> session_action \<Rightarrow> bool" where
  "trusted L D call a \<longleftrightarrow> coherent_codecs L \<and> distinct_digests L D \<and> action_allowed D a \<and> (\<forall>i. sc_now call i \<noteq> 0)"

subsection \<open>Effects\<close>

definition owned :: "session_call \<Rightarrow> session_principal \<Rightarrow> session_store \<Rightarrow> session_record \<Rightarrow> bool" where
  "owned call p s r \<longleftrightarrow> mget (ik_records s) (ss_id r) = Some r \<and> ss_principal r = p \<and> sc_now call 0 < ss_expires r"

text \<open>A session grown by entries; \<open>T\<close> says that the call is trusted.\<close>

definition grown :: "bool \<Rightarrow> session_lib \<Rightarrow> string set \<Rightarrow> session_limits \<Rightarrow> session_record \<Rightarrow> session_record \<Rightarrow> bool" where
  "grown T L D limits r r' \<longleftrightarrow> ss_id r' = ss_id r \<and> ss_principal r' = ss_principal r \<and> ss_expires r' = ss_expires r \<and>
     ss_opened r' = ss_opened r \<and> ss_closed r = None \<and> (\<exists>es. es \<noteq> [] \<and> ss_entries r' = ss_entries r @ es) \<and>
     (T \<and> record_ok L D limits r \<longrightarrow> record_ok L D limits r')"

inductive session_effect ::
  "bool \<Rightarrow> session_lib \<Rightarrow> string set \<Rightarrow> session_call \<Rightarrow> session_principal \<Rightarrow> session_store \<Rightarrow> session_error option \<Rightarrow>
   session_store \<Rightarrow> bool"
  for T L D call p s
where
  kept: "session_effect T L D call p s e s"
| expired: "mget (ik_records s) sid = Some r \<Longrightarrow> \<not> sc_now call 0 < ss_expires r \<Longrightarrow>
    session_effect T L D call p s (Some SessNotFound) (drop_record sid s)"
| marked: "owned call p s r \<Longrightarrow> session_effect T L D call p s (Some SessCapacity) (put_record (r\<lparr>ss_limitReached := True\<rparr>) s)"
| grew: "owned call p s r \<Longrightarrow> grown T L D (ik_limits s) r r' \<Longrightarrow> session_effect T L D call p s None (put_record r' s)"
| deleted: "owned call p s r \<Longrightarrow> session_effect T L D call p s None (drop_record (ss_id r) s)"
| pruned: "session_effect T L D call p s (Some e) (prune (sc_now call 0) s)"
| opened: "mget (ik_records (prune (sc_now call 0) s)) (ss_id r) = None \<Longrightarrow> ss_principal r = p \<Longrightarrow>
    int (mlen (ik_records (prune (sc_now call 0) s))) < li_Sessions (ik_limits s) \<Longrightarrow>
    int (length (filter (\<lambda>(key, q). sp_NamespaceUID (ss_principal q) = sp_NamespaceUID p)
      (ik_records (prune (sc_now call 0) s)))) < li_NamespaceSessions (ik_limits s) \<Longrightarrow>
    (T \<and> limits_valid (ik_limits s) \<longrightarrow> record_ok L D (ik_limits s) r) \<Longrightarrow>
    session_effect T L D call p s None (put_record r (prune (sc_now call 0) s))"

text \<open>The identifier of a record is its key.\<close>

definition keyed :: "session_store \<Rightarrow> bool" where
  "keyed s \<longleftrightarrow> mwf (ik_records s) \<and> (\<forall>sid r. mget (ik_records s) sid = Some r \<longrightarrow> ss_id r = sid)"

lemma find_session_effect:
  assumes "keyed s" and "find_session p sid (sc_now call 0) s = (result, s')"
  shows "(\<exists>e. result = Inl e \<and> session_effect T L D call p s (Some e) s') \<or>
    (\<exists>r. result = Inr r \<and> s' = s \<and> owned call p s r \<and> ss_id r = sid)"
  using assms by (auto simp: find_session_def keyed_def owned_def split: option.splits if_splits intro: session_effect.intros)

lemma find_available_effect:
  assumes "keyed s" and "find_available call p sid s = (result, s')"
  shows "(\<exists>e. result = Inl e \<and> session_effect T L D call p s (Some e) s') \<or>
    (\<exists>r. result = Inr r \<and> s' = s \<and> owned call p s r \<and> ss_id r = sid)"
  using assms find_session_effect [OF assms(1)]
  by (auto simp: find_available_def split: option.splits intro: session_effect.intros)

lemma locate_effect:
  assumes "keyed s" and "locate L call p sid s = (result, s')"
  shows "(\<exists>e. result = Inl e \<and> session_effect T L D call p s (Some e) s') \<or>
    (\<exists>r. result = Inr r \<and> s' = s \<and> owned call p s r \<and> ss_id r = sid \<and> principal_valid (ssl_names L) p)"
  using assms(2) find_available_effect [OF assms(1)]
  by (fastforce simp: locate_def authorize_def split: option.splits if_splits intro: session_effect.intros)

lemma commit_effect:
  assumes "owned call p s r" and "\<And>r'. result = Inr r' \<Longrightarrow> grown T L D (ik_limits s) r r'"
  shows "session_effect T L D call p s (fst (failure (commit_result r result s))) (snd (failure (commit_result r result s)))"
  using assms by (auto simp: commit_result_def failure_def split: sum.splits intro: session_effect.intros)

subsection \<open>Growth\<close>

lemma add_entry_grown:
  assumes "add_entry L C limits ended r x now = Inr r'" and "ss_closed r = None"
    and "T \<and> record_ok L D limits r \<Longrightarrow> now \<noteq> 0 \<and> admissible r x"
  shows "grown T L D limits r r'"
proof -
  have "record_ok L D limits r'" if "T" "record_ok L D limits r"
  proof -
    from that assms(3) have "now \<noteq> 0" "admissible r x" "record_core L D limits r"
      by (auto simp: record_ok_def)
    from add_entry_core [OF this(3) assms(2) this(1,2) assms(1)] add_entry_same [OF assms(1)] that(2)
    show ?thesis
      by (auto simp: record_ok_def)
  qed
  moreover have "r' = extended r x now"
    using add_entry_Inr [OF assms(1)] by blast
  ultimately show ?thesis
    using assms(2) by (simp add: grown_def)
qed

lemma add_entries_shape:
  "add_entries L C limits call clock i r xs = Inr r' \<Longrightarrow>
    ss_id r' = ss_id r \<and> ss_principal r' = ss_principal r \<and> ss_expires r' = ss_expires r \<and> ss_opened r' = ss_opened r \<and>
    (\<exists>es. length es = length xs \<and> ss_entries r' = ss_entries r @ es)"
proof (induction xs arbitrary: i r)
  case (Cons x xs)
  obtain r1 where r1: "add_entry L C limits (available call (4 + i)) r x (clock i) = Inr r1"
    and rest: "add_entries L C limits call clock (Suc i) r1 xs = Inr r'"
    using Cons.prems by (auto split: sum.splits)
  have "r1 = extended r x (clock i)"
    using add_entry_Inr [OF r1] by blast
  moreover obtain es where "length es = length xs" "ss_entries r' = ss_entries r1 @ es"
    using Cons.IH [OF rest] by blast
  ultimately show ?case
    using Cons.IH [OF rest] by (auto intro: exI [of _ "dated_entry r x (clock i) # es"])
qed simp

lemma pod_decode: "coherent_codecs L \<Longrightarrow> podCapture L p data = Some e \<Longrightarrow> decodeRetainedCapture L p data = Some e"
  using podCaptureD [of L p data e]
  by (auto simp: coherent_codecs_def decodeRetainedCapture_def HistoryIncidentSchemaVersion_def podCapture_def
      dest: capture_length split: if_splits)

lemma history_decode: "coherent_codecs L \<Longrightarrow> historyCapture L p data = Some e \<Longrightarrow> decodeRetainedCapture L p data = Some e"
  using historyCaptureD [of L p data e]
  by (auto simp: coherent_codecs_def decodeRetainedCapture_def HistoryIncidentSchemaVersion_def historyCapture_def
      dest: capture_length split: if_splits)

lemma decoded_evidence:
  assumes "decodeRetainedCapture L p data = Some e"
  shows "ev_Data e = data \<and> ev_Digest e = evidence_digest L data \<and> ev_NamespaceUID e = sp_NamespaceUID p \<and>
    ev_SchemaVersion e \<in> {1, 2, 6} \<and> ev_ObservedAt e \<noteq> 0"
  using assms podCaptureD [of L p data e] historyCaptureD [of L p data e]
  by (auto simp: decodeRetainedCapture_def split: if_splits option.splits)

lemma evidence_reference_ok:
  assumes "decodeRetainedCapture L p data = Some e"
  shows "reference_ok p (evidence_reference e)"
  using decoded_evidence [OF assms] evidence_digest_ok [of L data] by (auto simp: reference_ok_def evidence_reference_def)

subsection \<open>Retaining evidence\<close>

definition capture_input :: "captured_evidence \<Rightarrow> string \<Rightarrow> string \<Rightarrow> session_input" where
  "capture_input e kind source = input_zero\<lparr>in_Kind := kind, in_Source := source, in_ObservedAt := ev_ObservedAt e,
     in_References := [evidence_reference e]\<rparr>"

definition with_capture :: "captured_evidence \<Rightarrow> session_record \<Rightarrow> session_record" where
  "with_capture e r = (if list_ex (\<lambda>v. ev_Digest v = ev_Digest e) (ss_captures r) then r
     else r\<lparr>ss_captures := ss_captures r @ [e]\<rparr>)"

definition sound_capture ::
  "session_lib \<Rightarrow> string set \<Rightarrow> session_principal \<Rightarrow> captured_evidence \<Rightarrow> string \<Rightarrow> string \<Rightarrow> session_input list \<Rightarrow> bool"
where
  "sound_capture L D p e kind source gaps \<longleftrightarrow> decodeRetainedCapture L p (ev_Data e) = Some e \<and> ev_Data e \<in> D \<and>
     distinct_digests L D \<and> validSource source \<and> (kind = ''captured'' \<or> kind = ''marked'' \<and> ev_SchemaVersion e = 6) \<and>
     (\<forall>g \<in> set gaps. input_validate p g \<and> in_References g = [])"

lemma with_capture_core:
  assumes "record_ok L D limits r" and "sound_capture L D (ss_principal r) e kind source gaps"
    and "list_ex (\<lambda>v. ev_Digest v = ev_Digest e) (ss_captures r) \<or> length (ss_captures r) < MaxCaptures"
  shows "record_core L D limits (with_capture e r) \<and> set (ss_captures (with_capture e r)) = insert e (set (ss_captures r))"
proof (cases "list_ex (\<lambda>v. ev_Digest v = ev_Digest e) (ss_captures r)")
  case True
  then obtain v where v: "v \<in> set (ss_captures r)" "ev_Digest v = ev_Digest e"
    by (auto simp: list_ex_iff)
  have held: "captures_held L D r"
    using assms(1) by (simp add: record_ok_def record_core_def)
  then have decode: "decodeRetainedCapture L (ss_principal r) (ev_Data v) = Some v" and data: "ev_Data v \<in> D"
    using v(1) by (simp_all add: captures_held_def)
  have e: "decodeRetainedCapture L (ss_principal r) (ev_Data e) = Some e" "ev_Data e \<in> D" "distinct_digests L D"
    using assms(2) by (simp_all add: sound_capture_def)
  have same: "evidence_digest L (ev_Data v) = evidence_digest L (ev_Data e)"
    using decoded_evidence [OF decode] decoded_evidence [OF e(1)] v(2) by simp
  have "ev_Data v = ev_Data e"
    by (rule inj_onD [OF e(3) [unfolded distinct_digests_def] same data e(2)])
  from trans [OF decode [unfolded this, symmetric] e(1)] have "v = e"
    by (rule option.inject [THEN iffD1])
  with v True assms(1) show ?thesis
    by (auto simp: with_capture_def record_ok_def)
next
  case False
  have core: "frame_ok L limits r" "timeline_ok limits r" "captures_held L D r"
    using assms(1) by (simp_all add: record_ok_def record_core_def)
  have "ev_Digest e \<notin> ev_Digest ` set (ss_captures r)"
    using False by (auto simp: list_ex_iff)
  with False core assms(2,3) show ?thesis
    by (auto simp: with_capture_def record_core_def frame_ok_def timeline_ok_def captures_held_def record_references_def
        sound_capture_def)
qed

lemma capture_input_admissible:
  assumes "sound_capture L D (ss_principal r) e kind source gaps" and "e \<in> set (ss_captures r)"
    and "x \<in> set (capture_input e kind source # gaps)"
  shows "admissible r x \<and> in_Kind x \<noteq> ''closed''"
proof (cases "x = capture_input e kind source")
  case True
  have decode: "decodeRetainedCapture L (ss_principal r) (ev_Data e) = Some e"
    using assms(1) by (simp add: sound_capture_def)
  have "input_validate (ss_principal r) x"
    using True assms(1) evidence_reference_ok [OF decode] decoded_evidence [OF decode]
    by (auto simp: input_validate_def input_kind_ok_def capture_input_def input_zero_def sound_capture_def evidence_reference_def)
  with True assms(1,2) show ?thesis
    by (auto simp: admissible_def capture_input_def sound_capture_def)
next
  case False
  with assms(1,3) input_validate_kind [of "ss_principal r" x] show ?thesis
    by (auto simp: admissible_def sound_capture_def)
qed

lemma retained_grown:
  assumes "add_entries L C limits call clock i (with_capture e r) (capture_input e kind source # gaps) = Inr r'"
    and "ss_closed r = None"
    and "list_ex (\<lambda>v. ev_Digest v = ev_Digest e) (ss_captures r) \<or> length (ss_captures r) < MaxCaptures"
    and "T \<Longrightarrow> sound_capture L D (ss_principal r) e kind source gaps \<and> (\<forall>i. clock i \<noteq> 0)"
  shows "grown T L D limits r r'"
proof -
  have same: "ss_id (with_capture e r) = ss_id r" "ss_principal (with_capture e r) = ss_principal r"
    "ss_expires (with_capture e r) = ss_expires r" "ss_opened (with_capture e r) = ss_opened r"
    "ss_entries (with_capture e r) = ss_entries r" "ss_closed (with_capture e r) = ss_closed r"
    "record_references (with_capture e r) = record_references r"
    by (simp_all add: with_capture_def record_references_def)
  have "record_ok L D limits r'" if T: "T" and ok: "record_ok L D limits r"
  proof -
    have sound: "sound_capture L D (ss_principal r) e kind source gaps" and clock: "\<And>i. clock i \<noteq> 0"
      using assms(4) T by blast+
    from with_capture_core [OF ok sound assms(3)] have core: "record_core L D limits (with_capture e r)"
      and caps: "set (ss_captures (with_capture e r)) = insert e (set (ss_captures r))"
      by blast+
    have adm: "admissible (with_capture e r) x \<and> in_Kind x \<noteq> ''closed''" if "x \<in> set (capture_input e kind source # gaps)" for x
      using capture_input_admissible [of L D "with_capture e r" e kind source gaps x] sound caps that by (simp add: same)
    from add_entries_core [OF core _ clock adm assms(1)] assms(2) ok caps show ?thesis
      by (auto simp: record_ok_def same capture_input_def)
  qed
  moreover obtain es where "length es = Suc (length gaps)" "ss_entries r' = ss_entries r @ es"
    using add_entries_shape [OF assms(1)] by (auto simp: same)
  ultimately show ?thesis
    using add_entries_shape [OF assms(1)] assms(2) by (auto simp: grown_def same)
qed

lemma retain_effect:
  assumes "owned call p s r"
    and "T \<Longrightarrow> sound_capture L D p e kind source gaps \<and> (\<forall>i. sc_now call i \<noteq> 0)"
  shows "session_effect T L D call p s (fst (failure (retain_found L C call e kind source gaps r s)))
    (snd (failure (retain_found L C call e kind source gaps r s)))"
proof (cases "ss_closed r = None \<and> (list_ex (\<lambda>v. ev_Digest v = ev_Digest e) (ss_captures r) \<or> length (ss_captures r) < MaxCaptures)")
  case True
  have "retain_found L C call e kind source gaps r s =
      commit_result r (add_entries L C (ik_limits s) call (\<lambda>i. sc_now call (Suc i)) 0 (with_capture e r) (capture_input e kind source # gaps)) s"
    using True by (auto simp: retain_found_def with_capture_def capture_input_def Let_def)
  moreover have "ss_principal r = p"
    using assms(1) by (simp add: owned_def)
  ultimately show ?thesis
    using commit_effect [OF assms(1)] retained_grown True assms(2) by metis
next
  case False
  with assms(1) show ?thesis
    by (auto simp: retain_found_def failure_def Let_def intro: session_effect.intros)
qed

subsection \<open>Every operation\<close>

lemma mutate_effect:
  assumes "owned call p s r" and "T \<Longrightarrow> x = closing_input \<or> (input_validate p x \<and> in_References x = [])"
    and "T \<Longrightarrow> sc_now call 1 \<noteq> 0"
  shows "session_effect T L D call p s (fst (failure (mutate_found L C call r x s))) (snd (failure (mutate_found L C call r x s)))"
proof (cases "ss_closed r = None")
  case True
  have p: "ss_principal r = p"
    using assms(1) by (simp add: owned_def)
  have adm: "admissible r x" if T
    using assms(2) [OF that] p by (auto simp: admissible_def closing_input_def input_zero_def)
  have "grown T L D (ik_limits s) r r'" if "add_entry L C (ik_limits s) (available call 4) r x (sc_now call 1) = Inr r'" for r'
    using add_entry_grown [OF that True] adm assms(3) by blast
  with True commit_effect [OF assms(1)] show ?thesis
    by (simp add: mutate_found_def)
next
  case False
  then show ?thesis
    by (auto simp: mutate_found_def failure_def intro: session_effect.intros)
qed

lemma checked_effect:
  assumes "keyed s" and "T \<Longrightarrow> valid \<Longrightarrow> x = closing_input \<or> (input_validate p x \<and> in_References x = [])"
    and "T \<Longrightarrow> sc_now call 1 \<noteq> 0"
  shows "session_effect T L D call p s (fst (failure (mutate_checked L C call p sid valid x s)))
    (snd (failure (mutate_checked L C call p sid valid x s)))"
proof (cases "authorize L call p False sid = None \<and> valid")
  case True
  show ?thesis
  proof (cases "find_available call p sid s")
    case (Pair result s')
    from find_available_effect [OF assms(1) Pair, of T L D] show ?thesis
    proof (elim disjE exE conjE)
      fix e
      assume "result = Inl e" "session_effect T L D call p s (Some e) s'"
      with True Pair show ?thesis
        by (simp add: mutate_checked_def failure_def)
    next
      fix r
      assume r: "result = Inr r" "s' = s" "owned call p s r"
      have "session_effect T L D call p s (fst (failure (mutate_found L C call r x s))) (snd (failure (mutate_found L C call r x s)))"
        by (rule mutate_effect [OF r(3)]) (use True assms in auto)
      with True Pair r show ?thesis
        by (simp add: mutate_checked_def)
    qed
  qed
next
  case False
  then show ?thesis
    by (auto simp: mutate_checked_def failure_def split: option.splits intro: session_effect.intros)
qed

lemma find_held: "find (\<lambda>v. ev_Digest v = d) vs = Some v \<Longrightarrow> v \<in> set vs"
  by (auto simp: find_Some_iff)

lemma compare_inputs_admissible:
  assumes "record_ok L D limits r" and "a \<in> set (ss_captures r)" and "b \<in> set (ss_captures r)"
    and "compatibleCaptureSchemas (ev_SchemaVersion a) (ev_SchemaVersion b)" and "now \<noteq> 0"
    and "x \<in> set (compare_inputs a b identity clock now)"
  shows "admissible r x \<and> in_Kind x \<noteq> ''closed''"
proof -
  have held: "captures_held L D r"
    using assms(1) by (simp add: record_ok_def record_core_def)
  have refs: "reference_ok (ss_principal r) (evidence_reference a)" "reference_ok (ss_principal r) (evidence_reference b)"
    using held assms(2,3) by (auto simp: captures_held_def intro: evidence_reference_ok)
  show ?thesis
    using assms(2-6) refs
    by (auto simp: compare_inputs_def admissible_def input_validate_def input_kind_ok_def input_zero_def validSource_def
        validGap_def gap_reasons_def evidence_reference_def split: if_splits)
qed

lemma compared_grown:
  assumes "add_entries L C limits call (\<lambda>_. now) 0 r (compare_inputs a b identity clock now) = Inr r'" and "ss_closed r = None"
    and "a \<in> set (ss_captures r)" and "b \<in> set (ss_captures r)"
    and "compatibleCaptureSchemas (ev_SchemaVersion a) (ev_SchemaVersion b)" and "T \<Longrightarrow> now \<noteq> 0"
  shows "grown T L D limits r r'"
proof -
  have "record_ok L D limits r'" if T: "T" and ok: "record_ok L D limits r"
  proof -
    have core: "record_core L D limits r"
      using ok by (simp add: record_ok_def)
    have "admissible r x \<and> in_Kind x \<noteq> ''closed''" if "x \<in> set (compare_inputs a b identity clock now)" for x
      using compare_inputs_admissible [OF ok assms(3,4,5) _ that] assms(6) T by blast
    from add_entries_core [OF core assms(2) _ this assms(1)] assms(6) T ok show ?thesis
      by (auto simp: record_ok_def)
  qed
  moreover have "compare_inputs a b identity clock now \<noteq> []"
    by (simp add: compare_inputs_def)
  ultimately show ?thesis
    using add_entries_shape [OF assms(1)] assms(2) by (auto simp: grown_def)
qed

lemma compare_effect:
  assumes "keyed s" and "T \<Longrightarrow> sc_now call 1 \<noteq> 0"
  shows "session_effect T L D call p s (fst (failure (CompareCaptures L C call p sid d1 d2 s)))
    (snd (failure (CompareCaptures L C call p sid d1 d2 s)))"
proof (cases "authorize L call p False sid = None \<and> digest d1 32 \<and> digest d2 32")
  case True
  show ?thesis
  proof (cases "find_available call p sid s")
    case (Pair result s')
    from find_available_effect [OF assms(1) Pair, of T L D] show ?thesis
    proof (elim disjE exE conjE)
      fix e
      assume "result = Inl e" "session_effect T L D call p s (Some e) s'"
      with True Pair show ?thesis
        by (simp add: CompareCaptures_def failure_def)
    next
      fix r
      assume r: "result = Inr r" "s' = s" "owned call p s r"
      show ?thesis
      proof (cases "\<exists>a b identity clock. ss_closed r = None \<and> findCapture r d1 = Some a \<and> findCapture r d2 = Some b \<and>
          compatibleCaptureSchemas (ev_SchemaVersion a) (ev_SchemaVersion b) \<and> captureChanges L a b = Some (identity, clock)")
        case found: True
        then obtain a b identity clock where c: "ss_closed r = None" "findCapture r d1 = Some a" "findCapture r d2 = Some b"
          "compatibleCaptureSchemas (ev_SchemaVersion a) (ev_SchemaVersion b)" "captureChanges L a b = Some (identity, clock)"
          by blast
        have members: "a \<in> set (ss_captures r)" "b \<in> set (ss_captures r)"
          using c(2,3) by (auto simp: findCapture_def dest: find_held)
        let ?inputs = "compare_inputs a b identity clock (sc_now call 1)"
        have "CompareCaptures L C call p sid d1 d2 s =
            commit_result r (add_entries L C (ik_limits s) call (\<lambda>_. sc_now call 1) 0 r ?inputs) s"
          using True Pair r c by (simp add: CompareCaptures_def Let_def)
        with commit_effect [OF r(3)] compared_grown [OF _ c(1) members c(4) assms(2)] show ?thesis
          by simp
      next
        case False
        with True Pair r show ?thesis
          by (auto simp: CompareCaptures_def failure_def Let_def split: option.splits intro: session_effect.intros)
      qed
    qed
  qed
next
  case False
  then show ?thesis
    by (auto simp: CompareCaptures_def failure_def split: option.splits intro: session_effect.intros)
qed

lemma start_effect:
  assumes "T \<Longrightarrow> sc_now call 0 \<noteq> 0"
  shows "session_effect T L D call p s (fst (failure (Start L C call p s))) (snd (failure (Start L C call p s)))"
proof (cases "authorize L call p True '''' = None \<and> available call 3 = None")
  case True
  define now where "now = sc_now call 0"
  define s1 where "s1 = prune now s"
  define n where "n = length (filter (\<lambda>(key, q). sp_NamespaceUID (ss_principal q) = sp_NamespaceUID p) (ik_records s1))"
  have valid: "principal_valid (ssl_names L) p"
    using True by (auto simp: authorize_def split: if_splits)
  show ?thesis
  proof (cases "\<exists>sid r. int (mlen (ik_records s1)) < li_Sessions (ik_limits s) \<and> int n < li_NamespaceSessions (ik_limits s) \<and>
      sc_newID call = Some sid \<and> digest sid 16 \<and> mget (ik_records s1) sid = None \<and>
      add_entry L C (ik_limits s) (available call 4) (opening_record (ik_limits s) p sid now) opening_input now = Inr r")
    case found: True
    then obtain sid r where c: "int (mlen (ik_records s1)) < li_Sessions (ik_limits s)" "int n < li_NamespaceSessions (ik_limits s)"
      "sc_newID call = Some sid" "digest sid 16" "mget (ik_records s1) sid = None"
      and r: "add_entry L C (ik_limits s) (available call 4) (opening_record (ik_limits s) p sid now) opening_input now = Inr r"
      by blast
    have same: "ss_id r = sid" "ss_principal r = p"
      using add_entry_same [OF r] by (simp_all add: opening_record_def)
    have "Start L C call p s = (Inr (summary r), put_record r s1)"
      using True c r by (simp add: Start_def Let_def s1_def n_def now_def opening_record_def opening_input_def)
    moreover have "record_ok L D (ik_limits s) r" if "T" "limits_valid (ik_limits s)"
      by (rule opening_record_ok [OF that(2) valid c(4) _ r]) (use assms that in \<open>simp add: now_def\<close>)
    ultimately show ?thesis
      using c same session_effect.opened [where s = s and call = call and r = r and p = p and T = T and L = L and D = D]
      by (simp add: failure_def s1_def now_def n_def)
  next
    case False
    then have "\<exists>e. fst (Start L C call p s) = Inl e \<and> snd (Start L C call p s) = s1"
      using True by (auto simp: Start_def Let_def s1_def n_def now_def opening_record_def opening_input_def split: option.splits sum.splits)
    then show ?thesis
      by (auto simp: failure_def s1_def now_def intro: session_effect.intros)
  qed
next
  case False
  then show ?thesis
    by (auto simp: Start_def failure_def split: option.splits intro: session_effect.intros)
qed

text \<open>An operation that only reads the session it finds, or drops it.\<close>

lemma located_effect:
  assumes "keyed s" and "\<And>r. owned call p s r \<Longrightarrow> ss_id r = sid \<Longrightarrow> session_effect T L D call p s (fst (failure (k r s))) (snd (failure (k r s)))"
  shows "session_effect T L D call p s
    (fst (failure (case locate L call p sid s of (Inl e, s') \<Rightarrow> (Inl e, s') | (Inr r, s') \<Rightarrow> k r s')))
    (snd (failure (case locate L call p sid s of (Inl e, s') \<Rightarrow> (Inl e, s') | (Inr r, s') \<Rightarrow> k r s')))"
proof (cases "locate L call p sid s")
  case (Pair result s')
  from locate_effect [OF assms(1) Pair, of T D] show ?thesis
  proof (elim disjE exE conjE)
    fix e
    assume "result = Inl e" "session_effect T L D call p s (Some e) s'"
    with Pair show ?thesis
      by (simp add: failure_def)
  next
    fix r
    assume "result = Inr r" "s' = s" "owned call p s r" "ss_id r = sid"
    with Pair assms(2) show ?thesis
      by simp
  qed
qed

text \<open>The operations that decode evidence before they take the mutex.\<close>

lemma found_effect:
  assumes "keyed s" and "\<And>r. owned call p s r \<Longrightarrow> session_effect T L D call p s (fst (failure (k r s))) (snd (failure (k r s)))"
  shows "session_effect T L D call p s
    (fst (failure (case find_available call p sid s of (Inl e, s') \<Rightarrow> (Inl e, s') | (Inr r, s') \<Rightarrow> k r s')))
    (snd (failure (case find_available call p sid s of (Inl e, s') \<Rightarrow> (Inl e, s') | (Inr r, s') \<Rightarrow> k r s')))"
proof (cases "find_available call p sid s")
  case (Pair result s')
  from find_available_effect [OF assms(1) Pair, of T L D] show ?thesis
  proof (elim disjE exE conjE)
    fix e
    assume "result = Inl e" "session_effect T L D call p s (Some e) s'"
    with Pair show ?thesis
      by (simp add: failure_def)
  next
    fix r
    assume "result = Inr r" "s' = s" "owned call p s r"
    with Pair assms(2) show ?thesis
      by simp
  qed
qed

lemma pod_sound:
  assumes "podCapture L p data = Some e" and "coherent_codecs L" and "distinct_digests L D" and "data \<in> D"
  shows "sound_capture L D p e ''captured'' ''collector'' []"
  using pod_decode [OF assms(2,1)] podCaptureD [OF assms(1)] assms(3,4) by (simp add: sound_capture_def validSource_def)

lemma history_sound:
  assumes "historyCapture L p data = Some e" and "coherent_codecs L" and "distinct_digests L D" and "data \<in> D"
    and "ssl_history_lax L data = Some b"
  shows "sound_capture L D p e ''marked'' ''kubernetes'' (markerGaps b)"
proof -
  have "ssl_history L data = Some b \<and> ValidateHistoryIncident (ssl_changes L) (ssl_incident_bytes L) b"
    using assms(1,2,5) by (auto simp: historyCapture_def coherent_codecs_def split: if_splits option.splits)
  then have "\<forall>g \<in> set (markerGaps b). input_validate p g"
    using markerGaps_valid by blast
  moreover have "\<forall>g \<in> set (markerGaps b). in_References g = []"
    by (auto simp: markerGaps_def gap_input_def input_zero_def Let_def)
  ultimately show ?thesis
    using history_decode [OF assms(2,1)] historyCaptureD [OF assms(1)] assms(3,4) by (simp add: sound_capture_def validSource_def)
qed

lemma capture_effect:
  assumes "keyed s" and "T \<Longrightarrow> trusted L D call (DoCapture sid data)"
  shows "session_effect T L D call p s (fst (failure (RecordCapture L C call p sid data s))) (snd (failure (RecordCapture L C call p sid data s)))"
proof (cases "authorize L call p False sid = None \<and> podCapture L p data \<noteq> None")
  case True
  then obtain e where e: "podCapture L p data = Some e"
    by blast
  have "session_effect T L D call p s (fst (failure (retain_found L C call e ''captured'' ''collector'' [] r s)))
      (snd (failure (retain_found L C call e ''captured'' ''collector'' [] r s)))" if "owned call p s r" for r
    by (rule retain_effect [OF that]) (use assms(2) pod_sound [OF e] in \<open>auto simp: trusted_def\<close>)
  from found_effect [where k = "retain_found L C call e ''captured'' ''collector'' []", OF assms(1) this] True e show ?thesis
    by (simp add: RecordCapture_def)
next
  case False
  then show ?thesis
    by (auto simp: RecordCapture_def failure_def split: option.splits intro: session_effect.intros)
qed

lemma markers_effect:
  assumes "keyed s" and "T \<Longrightarrow> trusted L D call (DoMarkers sid data)"
  shows "session_effect T L D call p s (fst (failure (RecordMarkers L C call p sid data s))) (snd (failure (RecordMarkers L C call p sid data s)))"
proof (cases "authorize L call p False sid = None \<and> historyCapture L p data \<noteq> None \<and> ssl_history_lax L data \<noteq> None")
  case True
  then obtain e b where e: "historyCapture L p data = Some e" "ssl_history_lax L data = Some b"
    by blast
  have "session_effect T L D call p s (fst (failure (retain_found L C call e ''marked'' ''kubernetes'' (markerGaps b) r s)))
      (snd (failure (retain_found L C call e ''marked'' ''kubernetes'' (markerGaps b) r s)))" if "owned call p s r" for r
    by (rule retain_effect [OF that]) (use assms(2) history_sound [OF e(1) _ _ _ e(2)] in \<open>auto simp: trusted_def\<close>)
  from found_effect [where k = "retain_found L C call e ''marked'' ''kubernetes'' (markerGaps b)", OF assms(1) this] True e
  show ?thesis
    by (simp add: RecordMarkers_def)
next
  case False
  then show ?thesis
    by (auto simp: RecordMarkers_def failure_def split: option.splits intro: session_effect.intros)
qed

lemma perform_effect:
  assumes "keyed s" and "perform L C call p a s = (e, s')"
  shows "session_effect (trusted L D call a) L D call p s e s'"
proof -
  let ?T = "trusted L D call a"
  have clock: "sc_now call i \<noteq> 0" if ?T for i
    using that by (simp add: trusted_def)
  note checked = checked_effect [OF assms(1), of ?T]
  have "session_effect ?T L D call p s (fst (perform L C call p a s)) (snd (perform L C call p a s))"
  proof (cases a)
    case DoStart
    then show ?thesis
      using start_effect [of ?T call] clock by simp
  next
    case (DoAppend sid x)
    then show ?thesis
      unfolding DoAppend perform.simps Append_def by (intro checked_effect [OF assms(1)]) (simp_all add: trusted_def)
  next
    case (DoClose sid)
    then show ?thesis
      unfolding DoClose perform.simps Close_def by (intro checked_effect [OF assms(1)]) (simp_all add: trusted_def)
  next
    case (DoCaptureGap sid reason)
    then show ?thesis
      unfolding DoCaptureGap perform.simps RecordCaptureGap_def Let_def
      by (intro checked_effect [OF assms(1)]) (simp_all add: trusted_def input_zero_def)
  next
    case (DoMarkerGap sid reason)
    then show ?thesis
      unfolding DoMarkerGap perform.simps RecordMarkerGap_def Let_def
      by (intro checked_effect [OF assms(1)]) (simp_all add: trusted_def input_zero_def)
  next
    case (DoTrace sid ref)
    then show ?thesis
      unfolding DoTrace perform.simps RecordTraceReference_def Let_def
      by (intro checked_effect [OF assms(1)]) (simp_all add: trusted_def input_zero_def)
  next
    case (DoCapture sid data)
    then show ?thesis
      using capture_effect [OF assms(1), of ?T] by simp
  next
    case (DoMarkers sid data)
    then show ?thesis
      using markers_effect [OF assms(1), of ?T] by simp
  next
    case (DoCompare sid d1 d2)
    then show ?thesis
      using compare_effect [OF assms(1), of ?T] clock by simp
  next
    case (DoDelete sid)
    show ?thesis
      unfolding DoDelete perform.simps Delete_def
      by (rule located_effect [OF assms(1)]) (auto simp: failure_def dest: session_effect.deleted)
  next
    case (DoInspect sid)
    show ?thesis
      unfolding DoInspect perform.simps Inspect_def
      by (rule located_effect [OF assms(1)]) (auto simp: failure_def intro: session_effect.intros)
  next
    case (DoCaptureData sid d)
    show ?thesis
      unfolding DoCaptureData perform.simps CaptureData_def
      by (rule located_effect [OF assms(1)]) (auto simp: failure_def split: option.split intro: session_effect.intros)
  next
    case (DoExport sid operation)
    then show ?thesis
    proof (cases "operation = OtherOperation")
      case True
      with DoExport show ?thesis
        by (simp add: Export_def failure_def session_effect.intros)
    next
      case False
      show ?thesis
        unfolding DoExport perform.simps Export_def if_not_P [OF False]
        by (rule located_effect [OF assms(1)]) (auto simp: failure_def split: option.split intro: session_effect.intros)
    qed
  qed
  with assms(2) show ?thesis
    by simp
qed

end
