(* ===== verification/Session_Sanitised.thy ===== *)
theory Session_Sanitised
  imports Session_Export
begin

text \<open>
  The sanitised document of a valid document is itself valid: what \<open>Sanitise\<close> emits, \<open>DecodeExport\<close> accepts. The two
  sides keep different maps (from a private key to its alias, from an alias to what was shown with it), and the
  lemmas are about the relation between them.
\<close>

subsection \<open>Numbers as text\<close>

definition decimal_value :: "string \<Rightarrow> nat" where
  "decimal_value s = foldl (\<lambda>n c. n * 10 + (of_char c - 48)) 0 s"

lemma decimal_value_decimal: "decimal_value (decimal n) = n"
proof (induction n rule: less_induct)
  case (less n)
  show ?case
  proof (cases "n < 10")
    case True
    then show ?thesis
      by (simp add: decimal.simps decimal_value_def)
  next
    case False
    with less [of "n div 10"] have "decimal_value (decimal (n div 10)) = n div 10"
      by simp
    with False show ?thesis
      by (subst decimal.simps) (simp add: decimal_value_def)
  qed
qed

lemma itoa_nat_inject: "itoa (int m) = itoa (int n) \<longleftrightarrow> m = n"
  by (auto simp: itoa_def) (metis decimal_value_decimal)

lemma itoa_digit: "1 \<le> v \<Longrightarrow> v \<le> 7 \<Longrightarrow> itoa v = [char_of (48 + nat v)]"
  by (simp add: itoa_def decimal.simps)

lemma alias_key_inject:
  assumes "1 \<le> cf_SchemaVersion a" "cf_SchemaVersion a \<le> 7" "1 \<le> cf_SchemaVersion b" "cf_SchemaVersion b \<le> 7"
    and "alias_key a = alias_key b"
  shows "reference_key a = reference_key b"
proof -
  have "char_of (48 + nat (cf_SchemaVersion a)) = (char_of (48 + nat (cf_SchemaVersion b)) :: char)"
    and d: "cf_Digest a = cf_Digest b"
    using assms by (simp_all add: alias_key_def itoa_digit)
  then have "of_char (char_of (48 + nat (cf_SchemaVersion a)) :: char) = (of_char (char_of (48 + nat (cf_SchemaVersion b)) :: char) :: nat)"
    by simp
  with assms d show ?thesis
    by (simp add: reference_key_def)
qed

subsection \<open>Aliases on both sides\<close>

lemma mlen_update: "mlen (mput k v m) = (if mget m k = None then Suc (mlen m) else mlen m)"
  by (induction m) (auto simp: mlen_def mput_def mget_def)

lemma mput_same: "mget m k = Some v \<Longrightarrow> mput k v m = m"
  by (induction m) (auto simp: mput_def mget_def split: if_splits)

text \<open>
  \<open>given\<close> is the map of the side that invents aliases for the keys of \<open>X\<close>, \<open>shown\<close> that of the side that reads them.
\<close>

definition linked ::
  "string \<Rightarrow> ('x \<Rightarrow> string) \<Rightarrow> ('x \<Rightarrow> string \<Rightarrow> 'v) \<Rightarrow> 'x set \<Rightarrow> (string, string) gomap \<Rightarrow> (string, 'v) gomap \<Rightarrow> bool"
where
  "linked stem key val X given shown \<longleftrightarrow> mlen given = mlen shown \<and>
     (\<forall>k a. mget given k = Some a \<longrightarrow> (\<exists>x \<in> X. key x = k \<and> mget shown a = Some (val x a))) \<and>
     (\<forall>a. mget shown a \<noteq> None \<longrightarrow> (\<exists>j. 1 \<le> j \<and> j \<le> mlen shown \<and> a = stem @ itoa (int j)))"

lemma linked_Nil: "linked stem key val X [] []"
  by (simp add: linked_def mlen_def)

lemma linked_step:
  assumes "linked stem key val X given shown" and "x \<in> X" and "\<forall>y \<in> X. key y = key x \<longrightarrow> val y = val x"
    and "alias_of stem given (key x) = (a, given')"
  shows "(mget shown a = Some (val x a) \<and> given' = given) \<or>
    (mget shown a = None \<and> a = stem @ itoa (int (mlen shown) + 1) \<and> linked stem key val X given' (mput a (val x a) shown))"
proof (cases "mget given (key x)")
  case (Some b)
  with assms(4) have "a = b" "given' = given"
    by (auto simp: alias_of_def)
  moreover obtain y where "y \<in> X" "key y = key x" "mget shown b = Some (val y b)"
    using assms(1) Some unfolding linked_def by blast
  ultimately show ?thesis
    using assms(3) by simp
next
  case None
  have len: "mlen given = mlen shown"
    using assms(1) by (simp add: linked_def)
  with None assms(4) have a: "a = stem @ itoa (int (Suc (mlen shown)))" and given': "given' = mput (key x) a given"
    by (auto simp: alias_of_def Let_def add.commute)
  have fresh: "mget shown a = None"
  proof (rule ccontr)
    assume "mget shown a \<noteq> None"
    then obtain j where "j \<le> mlen shown" "a = stem @ itoa (int j)"
      using assms(1) unfolding linked_def by blast
    with a show False
      by (simp only: same_append_eq itoa_nat_inject)
  qed
  have "linked stem key val X given' (mput a (val x a) shown)"
    unfolding linked_def
  proof (intro conjI allI impI)
    show "mlen given' = mlen (mput a (val x a) shown)"
      using None fresh len by (simp add: given' mlen_update)
  next
    fix k b
    assume k: "mget given' k = Some b"
    show "\<exists>y \<in> X. key y = k \<and> mget (mput a (val x a) shown) b = Some (val y b)"
    proof (cases "k = key x")
      case True
      with k assms(2) show ?thesis
        by (auto simp: given' mget_mput)
    next
      case False
      with k have "mget given k = Some b"
        by (simp add: given' mget_mput)
      with assms(1) obtain y where y: "y \<in> X" "key y = k" "mget shown b = Some (val y b)"
        unfolding linked_def by blast
      with fresh have "b \<noteq> a"
        by auto
      with y show ?thesis
        by (auto simp: mget_mput)
    qed
  next
    fix b
    assume b: "mget (mput a (val x a) shown) b \<noteq> None"
    show "\<exists>j. 1 \<le> j \<and> j \<le> mlen (mput a (val x a) shown) \<and> b = stem @ itoa (int j)"
    proof (cases "b = a")
      case True
      with a fresh show ?thesis
        by (intro exI [of _ "Suc (mlen shown)"]) (simp add: mlen_update)
    next
      case False
      with b assms(1) obtain j where "1 \<le> j" "j \<le> mlen shown" "b = stem @ itoa (int j)"
        unfolding linked_def by (auto simp: mget_mput)
      with fresh show ?thesis
        by (intro exI [of _ j]) (simp add: mlen_update)
    qed
  qed
  with fresh a show ?thesis
    by (simp add: add.commute)
qed

subsection \<open>References and traces\<close>

definition shown_reference :: "capture_reference \<Rightarrow> string \<Rightarrow> sanitised_reference" where
  "shown_reference ref a = \<lparr>sf_Alias = a, sf_SchemaVersion = cf_SchemaVersion ref, sf_ObservedAt = cf_ObservedAt ref\<rparr>"

lemma shown_reference_simps [simp]:
  "sf_Alias (shown_reference ref a) = a" "sf_SchemaVersion (shown_reference ref a) = cf_SchemaVersion ref"
  "sf_ObservedAt (shown_reference ref a) = cf_ObservedAt ref"
  by (simp_all add: shown_reference_def)

definition shown_trace :: "trace_reference \<Rightarrow> string \<Rightarrow> sanitised_trace \<times> time" where
  "shown_trace t a = (\<lparr>sq_Alias = a, sq_Provenance = tf_Provenance t, sq_ReportSchemaVersion = tf_ReportSchemaVersion t,
     sq_Outcome = Outcome t\<rparr>, tf_CapturedAt t)"

abbreviation linked_references :: "capture_reference set \<Rightarrow> (string, string) gomap \<Rightarrow> (string, sanitised_reference) gomap \<Rightarrow> bool" where
  "linked_references \<equiv> linked ''evidence-'' alias_key shown_reference"

abbreviation linked_traces :: "trace_reference set \<Rightarrow> (string, string) gomap \<Rightarrow> (string, sanitised_trace \<times> time) gomap \<Rightarrow> bool" where
  "linked_traces \<equiv> linked ''trace-'' tf_Digest shown_trace"

text \<open>References that may stand in one document.\<close>

definition coherent :: "capture_reference set \<Rightarrow> bool" where
  "coherent X \<longleftrightarrow> (\<forall>x \<in> X. 1 \<le> cf_SchemaVersion x \<and> cf_SchemaVersion x \<le> 7 \<and> cf_ObservedAt x \<noteq> 0) \<and>
     (\<forall>x \<in> X. \<forall>y \<in> X. reference_key x = reference_key y \<longrightarrow> cf_ObservedAt x = cf_ObservedAt y)"

lemma coherent_shown: "coherent X \<Longrightarrow> x \<in> X \<Longrightarrow> \<forall>y \<in> X. alias_key y = alias_key x \<longrightarrow> shown_reference y = shown_reference x"
proof (intro ballI impI)
  fix y
  assume X: "coherent X" "x \<in> X" "y \<in> X" and key: "alias_key y = alias_key x"
  then have bounds: "1 \<le> cf_SchemaVersion x" "cf_SchemaVersion x \<le> 7" "1 \<le> cf_SchemaVersion y" "cf_SchemaVersion y \<le> 7"
    by (simp_all add: coherent_def)
  have same: "reference_key y = reference_key x"
    by (rule alias_key_inject [OF bounds(3,4,1,2) key])
  have "cf_ObservedAt y = cf_ObservedAt x"
    using X same unfolding coherent_def by blast
  with same show "shown_reference y = shown_reference x"
    by (simp add: shown_reference_def reference_key_def fun_eq_iff)
qed

lemma public_references_shown:
  assumes "1 \<le> cf_SchemaVersion ref" "cf_SchemaVersion ref \<le> 7" "cf_ObservedAt ref \<noteq> 0"
  shows "mget shown a = Some (shown_reference ref a) \<Longrightarrow>
      public_references shown (shown_reference ref a # rest) = public_references shown rest"
    and "mget shown a = None \<Longrightarrow> a = ''evidence-'' @ itoa (int (mlen shown) + 1) \<Longrightarrow>
      public_references shown (shown_reference ref a # rest) = public_references (mput a (shown_reference ref a) shown) rest"
  unfolding public_references.simps shown_reference_simps using assms by (simp_all only: option.case) auto

lemma public_references_link:
  assumes "coherent X"
  shows "set refs \<subseteq> X \<Longrightarrow> linked_references X given shown \<Longrightarrow>
    sanitise_references given refs = (vs, given') \<Longrightarrow>
    \<exists>shown'. public_references shown vs = Some shown' \<and> linked_references X given' shown'"
proof (induction refs arbitrary: given shown vs)
  case (Cons ref refs)
  obtain a given1 rest where step: "referenceAlias given ref = (a, given1)"
    and rest: "sanitise_references given1 refs = (rest, given')" and vs: "vs = shown_reference ref a # rest"
    using Cons.prems(3) by (auto simp: shown_reference_def split: prod.splits)
  have ref: "ref \<in> X" and sub: "set refs \<subseteq> X" and bounds: "1 \<le> cf_SchemaVersion ref" "cf_SchemaVersion ref \<le> 7" "cf_ObservedAt ref \<noteq> 0"
    using Cons.prems(1) assms by (auto simp: coherent_def)
  from linked_step [OF Cons.prems(2) ref coherent_shown [OF assms ref] step [unfolded referenceAlias_def]]
  show ?case
  proof
    assume old: "mget shown a = Some (shown_reference ref a) \<and> given1 = given"
    obtain shown' where "public_references shown rest = Some shown'" "linked_references X given' shown'"
      using Cons.IH [OF sub Cons.prems(2)] rest old by blast
    with old show ?thesis
      using public_references_shown(1) [OF bounds, of shown a rest] unfolding vs by auto
  next
    assume new: "mget shown a = None \<and> a = ''evidence-'' @ itoa (int (mlen shown) + 1) \<and>
      linked_references X given1 (mput a (shown_reference ref a) shown)"
    obtain shown' where "public_references (mput a (shown_reference ref a) shown) rest = Some shown'"
      "linked_references X given' shown'"
      using Cons.IH [OF sub _ rest] new by blast
    with new show ?thesis
      using public_references_shown(2) [OF bounds, of shown a rest] unfolding vs by auto
  qed
qed auto

lemma public_trace_shown:
  assumes "en_ObservedAt e = Some (tf_CapturedAt t)"
  shows "public_trace shown (visible_entry e refs (Some (fst (shown_trace t a)))) =
    (case mget shown a of
       Some q \<Rightarrow> if q \<noteq> shown_trace t a then None else Some (mput a (shown_trace t a) shown)
     | None \<Rightarrow> if a \<noteq> ''trace-'' @ itoa (int (mlen shown) + 1) then None else Some (mput a (shown_trace t a) shown))"
  unfolding public_trace_def visible_entry_def Let_def shown_trace_def
  by (simp add: assms split: option.split prod.split)

lemma public_trace_link:
  assumes "linked_traces T given shown" and "t \<in> T" and "\<forall>u \<in> T. tf_Digest u = tf_Digest t \<longrightarrow> u = t"
    and "sanitise_trace given (Some t) = (v, given')" and "en_ObservedAt e = Some (tf_CapturedAt t)"
  shows "\<exists>shown'. public_trace shown (visible_entry e refs v) = Some shown' \<and> linked_traces T given' shown' \<and> mlen shown' \<noteq> 0"
proof -
  obtain a where step: "alias_of ''trace-'' given (tf_Digest t) = (a, given')" and v: "v = Some (fst (shown_trace t a))"
    using assms(4) by (auto simp: sanitise_trace_def sanitiseTraceReference_def traceAlias_def shown_trace_def split: prod.splits)
  have "\<forall>u \<in> T. tf_Digest u = tf_Digest t \<longrightarrow> shown_trace u = shown_trace t"
    using assms(3) by auto
  from linked_step [OF assms(1,2) this step] show ?thesis
  proof
    assume old: "mget shown a = Some (shown_trace t a) \<and> given' = given"
    then have "0 < mlen shown"
      by (intro mlen_present [of _ a]) simp
    moreover have "public_trace shown (visible_entry e refs v) = Some shown"
      unfolding v public_trace_shown [OF assms(5)] using old by (simp add: mput_same)
    ultimately show ?thesis
      using assms(1) old by blast
  next
    assume new: "mget shown a = None \<and> a = ''trace-'' @ itoa (int (mlen shown) + 1) \<and>
      linked_traces T given' (mput a (shown_trace t a) shown)"
    then have none: "mget shown a = None" and "(a \<noteq> ''trace-'' @ itoa (int (mlen shown) + 1)) = False"
      by blast+
    then have "public_trace shown (visible_entry e refs v) = Some (mput a (shown_trace t a) shown)"
      unfolding v public_trace_shown [OF assms(5)] none by (simp only: option.case if_False)
    moreover have "mlen (mput a (shown_trace t a) shown) \<noteq> 0"
      using none by (simp add: mlen_update)
    ultimately show ?thesis
      using new by blast
  qed
qed

lemma sanitise_references_shape:
  "sanitise_references given refs = (vs, given') \<Longrightarrow>
    length vs = length refs \<and> map sf_ObservedAt vs = map cf_ObservedAt refs \<and> map sf_SchemaVersion vs = map cf_SchemaVersion refs"
  by (induction refs arbitrary: given vs) (auto split: prod.splits)

subsection \<open>Entries\<close>

text \<open>What the checks of a document give for the references and the traces of its entries.\<close>

definition document_items :: "capture_reference set \<Rightarrow> trace_reference set \<Rightarrow> session_entry list \<Rightarrow> bool" where
  "document_items X T es \<longleftrightarrow> coherent X \<and> (\<forall>t \<in> T. \<forall>u \<in> T. tf_Digest u = tf_Digest t \<longrightarrow> u = t) \<and>
     (\<forall>e \<in> set es. set (en_References e) \<subseteq> X \<and> (\<forall>t. en_TraceReference e = Some t \<longrightarrow> t \<in> T))"

lemma entry_input_kind:
  assumes "\<not> lifecycle_kind (en_Kind e)" and "entry_ok p closedAt n i e"
  shows "\<exists>x. entry_input e = Some x \<and> input_validate p x"
  using assms by (auto simp: entry_ok_def split: option.splits)

lemma valid_trace_entry:
  assumes "entry_ok p closedAt n i e" and "en_TraceReference e = Some t"
  shows "en_Kind e = ''trace-referenced'' \<and> en_ObservedAt e = Some (tf_CapturedAt t) \<and> reference_valid t \<and> en_References e = []
    \<and> en_Source e = traceReferenceSource"
proof -
  have "\<not> lifecycle_kind (en_Kind e)"
    using assms by (auto simp: entry_ok_def)
  from entry_input_kind [OF this assms(1)] obtain x where x: "entry_input e = Some x" "input_validate p x"
    by blast
  have fields: "in_Kind x = en_Kind e" "in_TraceReference x = en_TraceReference e" "in_References x = en_References e"
    "in_Source x = en_Source e"
    using x(1) by (auto simp: entry_input_def Let_def split: if_splits)
  have kind: "en_Kind e = ''trace-referenced''"
    using x(2) assms(2) fields by (auto simp: input_validate_def)
  then have "in_ObservedAt x = (case en_ObservedAt e of None \<Rightarrow> 0 | Some t \<Rightarrow> t)"
    using x(1) by (auto simp: entry_input_def Let_def split: if_splits)
  moreover have "in_Source x = traceReferenceSource \<and> in_References x = [] \<and> reference_valid t \<and> in_ObservedAt x = tf_CapturedAt t"
    using x(2) kind fields assms(2) by (simp add: input_validate_def input_kind_ok_def Let_def)
  moreover have "tf_CapturedAt t \<noteq> 0" if "reference_valid t"
    using that by (simp add: reference_valid_def)
  ultimately show ?thesis
    using kind fields by (auto split: option.splits)
qed

lemma reference_valid_outcome:
  "reference_valid t \<Longrightarrow> tf_Provenance t = ''operator-supplied'' \<and> 1 \<le> tf_ReportSchemaVersion t \<and> tf_ReportSchemaVersion t \<le> 2 \<and>
    outcome_valid (Outcome t)"
  by (simp add: reference_valid_def)

lemma trace_kind_has_trace:
  assumes "entry_ok p closedAt n i e"
  shows "en_Kind e = ''trace-referenced'' \<longleftrightarrow> en_TraceReference e \<noteq> None"
proof
  assume kind: "en_Kind e = ''trace-referenced''"
  then have "\<not> lifecycle_kind (en_Kind e)"
    by (simp add: lifecycle_kind_def)
  from entry_input_kind [OF this assms] obtain x where "entry_input e = Some x" "input_validate p x"
    by blast
  with kind show "en_TraceReference e \<noteq> None"
    by (auto simp: entry_input_def input_validate_def input_kind_ok_def Let_def split: option.splits)
next
  assume "en_TraceReference e \<noteq> None"
  with valid_trace_entry [OF assms] show "en_Kind e = ''trace-referenced''"
    by auto
qed

lemma visible_entry_simps [simp]:
  "sy_Kind (visible_entry e refs v) = en_Kind e" "sy_RecordedAt (visible_entry e refs v) = en_RecordedAt e"
  "sy_ObservedAt (visible_entry e refs v) = en_ObservedAt e" "sy_Source (visible_entry e refs v) = en_Source e"
  "sy_References (visible_entry e refs v) = refs" "sy_TraceReference (visible_entry e refs v) = v"
  "sy_GapReason (visible_entry e refs v) = en_GapReason e" "sy_ClockUncertain (visible_entry e refs v) = en_ClockUncertain e"
  "sy_Sequence (visible_entry e refs v) = en_Sequence e" "sy_Namespace (visible_entry e refs v) = ''namespace-1''"
  "sy_Actor (visible_entry e refs v) = ''operator-1''" "sy_Sensitivity (visible_entry e refs v) = ''redacted''"
  by (simp_all add: visible_entry_def)

lemma nth_schema: "map sf_SchemaVersion vs = map cf_SchemaVersion refs \<Longrightarrow> i < length refs \<Longrightarrow> sf_SchemaVersion (vs ! i) = cf_SchemaVersion (refs ! i)"
  by (metis length_map nth_map)

lemma public_payload:
  assumes "\<not> lifecycle_kind (en_Kind e)" and "entry_ok p closedAt n i e"
    and "length vs = length (en_References e)" and "map sf_SchemaVersion vs = map cf_SchemaVersion (en_References e)"
    and "v = None \<longleftrightarrow> en_TraceReference e = None"
    and "\<And>t. en_TraceReference e = Some t \<Longrightarrow> \<exists>a. v = Some (fst (shown_trace t a))"
  shows "validSource (en_Source e) \<and> validSanitisedPayload (visible_entry e vs v)"
proof -
  obtain x where x: "entry_input e = Some x" "input_validate p x"
    using entry_input_kind [OF assms(1,2)] by blast
  have fields: "in_Kind x = en_Kind e" "in_TraceReference x = en_TraceReference e" "in_References x = en_References e"
    "in_Source x = en_Source e" "in_GapReason x = en_GapReason e"
    using x(1) by (auto simp: entry_input_def Let_def split: if_splits)
  have source: "validSource (en_Source e)" and gap: "en_Kind e \<noteq> ''gap'' \<longrightarrow> en_GapReason e = ''''"
    and kind: "input_kind_ok x"
    using x(2) fields by (simp_all add: input_validate_def)
  show ?thesis
  proof (cases "en_TraceReference e")
    case (Some t)
    note t = valid_trace_entry [OF assms(2) Some]
    obtain a where v: "v = Some (fst (shown_trace t a))"
      using assms(6) [OF Some] by blast
    have "vs = []"
      using assms(3) t by simp
    with t v source gap reference_valid_outcome [of t] show ?thesis
      by (simp add: validSanitisedPayload_def Let_def shown_trace_def sanitised_trace_valid_def)
  next
    case None
    then have v: "v = None" and not_trace: "en_Kind e \<noteq> ''trace-referenced''"
      using assms(5) trace_kind_has_trace [OF assms(2)] by simp_all
    have observed: "in_ObservedAt x = (case en_ObservedAt e of None \<Rightarrow> 0 | Some t \<Rightarrow> t)" if "en_Kind e \<noteq> ''annotated''"
      using x(1) that by (auto simp: entry_input_def Let_def split: if_splits)
    have annotated: "en_ObservedAt e = Some (en_RecordedAt e)" if "en_Kind e = ''annotated''"
      using x(1) that by (auto simp: entry_input_def Let_def split: if_splits)
    note nth = nth_schema [OF assms(4)]
    show ?thesis
      using kind source gap not_trace v fields observed annotated assms(3) nth
      by (auto simp: validSanitisedPayload_def input_kind_ok_def Let_def split: if_splits option.splits)
  qed
qed

lemma public_entry:
  assumes "entry_ok p closedAt n i e" and "length vs = length (en_References e)"
    and "map sf_SchemaVersion vs = map cf_SchemaVersion (en_References e)" and "v = None \<longleftrightarrow> en_TraceReference e = None"
    and "\<And>t. en_TraceReference e = Some t \<Longrightarrow> \<exists>a. v = Some (fst (shown_trace t a))"
  shows "public_entry_ok closedAt n i (visible_entry e vs v)"
proof (cases "lifecycle_kind (en_Kind e)")
  case True
  with assms show ?thesis
    by (auto simp: public_entry_ok_def entry_ok_def validLifecycle_def validSource_def)
next
  case False
  with assms public_payload [OF False assms] show ?thesis
    by (simp add: public_entry_ok_def entry_ok_def)
qed

lemma public_point:
  assumes "map sf_ObservedAt vs = map cf_ObservedAt (en_References e)"
  shows "publicPoint (visible_entry e vs v) = privatePoint e"
  using assms by (simp add: publicPoint_def privatePoint_def)

lemma sanitise_trace_shape:
  "sanitise_trace given ref = (v, given') \<Longrightarrow> (v = None \<longleftrightarrow> ref = None) \<and> (ref = None \<longrightarrow> given' = given) \<and>
    (\<forall>t. ref = Some t \<longrightarrow> (\<exists>a. v = Some (fst (shown_trace t a))))"
  by (auto simp: sanitise_trace_def sanitiseTraceReference_def shown_trace_def split: option.splits prod.splits)

subsection \<open>Documents\<close>

lemma public_entries_link:
  assumes "document_items X T all"
  shows "set es \<subseteq> set all \<Longrightarrow> entries_ok p closedAt n c i es \<Longrightarrow> linked_references X given shown \<Longrightarrow>
    linked_traces T tgiven tshown \<Longrightarrow>
    \<exists>tshown'. public_entries closedAt n c shown tshown i (sanitise_entries given tgiven es) = Some tshown' \<and>
      (mlen tshown' \<noteq> 0 \<longleftrightarrow> mlen tshown \<noteq> 0 \<or> (\<exists>e \<in> set es. en_TraceReference e \<noteq> None))"
proof (induction es arbitrary: c i given shown tgiven tshown)
  case (Cons e es)
  obtain uncertain c' where obs: "observe c (privatePoint e) = (uncertain, c')"
    by fastforce
  with Cons.prems(2) have ok: "entry_ok p closedAt n i e" and risk: "uncertain \<longrightarrow> en_ClockUncertain e"
    and rest: "entries_ok p closedAt n c' (Suc i) es"
    by simp_all
  obtain vs given' where vs: "sanitise_references given (en_References e) = (vs, given')"
    by fastforce
  obtain v tgiven' where v: "sanitise_trace tgiven (en_TraceReference e) = (v, tgiven')"
    by fastforce
  note shape = sanitise_references_shape [OF vs]
  note tshape = sanitise_trace_shape [OF v]
  have entry: "public_entry_ok closedAt n i (visible_entry e vs v)"
    by (rule public_entry [OF ok]) (use shape tshape in simp_all)
  have point: "observe c (publicPoint (visible_entry e vs w)) = (uncertain, c')" for w
    using obs shape by (simp add: public_point)
  have member: "e \<in> set all"
    using Cons.prems(1) by simp
  have items: "set (en_References e) \<subseteq> X" "\<And>t. en_TraceReference e = Some t \<Longrightarrow> t \<in> T"
    and coherent: "coherent X" and digests: "\<And>t. t \<in> T \<Longrightarrow> \<forall>u \<in> T. tf_Digest u = tf_Digest t \<longrightarrow> u = t"
    using assms member unfolding document_items_def by blast+
  have sub: "set es \<subseteq> set all"
    using Cons.prems(1) by simp
  have head: "sanitise_entries given tgiven (e # es) = visible_entry e vs v # sanitise_entries given' tgiven' es"
    by (simp add: vs v)
  show ?case
  proof (cases "lifecycle_kind (en_Kind e)")
    case True
    with ok have none: "en_References e = []" "en_TraceReference e = None"
      by (auto simp: entry_ok_def validLifecycle_def)
    with vs v tshape have same: "given' = given" "tgiven' = tgiven"
      by simp_all
    with Cons.IH [OF sub rest Cons.prems(3,4)] show ?thesis
      using True none entry risk by (simp add: point head del: sanitise_entries.simps)
  next
    case False
    obtain shown' where refs: "public_references shown vs = Some shown'" and link: "linked_references X given' shown'"
      using public_references_link [OF coherent items(1) Cons.prems(3) vs] by blast
    show ?thesis
    proof (cases "en_TraceReference e")
      case None
      with v tshape have same: "v = None" "tgiven' = tgiven"
        by simp_all
      then have "public_trace tshown (visible_entry e vs v) = Some tshown"
        by (simp add: public_trace_def)
      with Cons.IH [OF sub rest link Cons.prems(4)] show ?thesis
        using False None same entry risk refs by (simp add: point head del: sanitise_entries.simps)
    next
      case (Some t)
      note ref = valid_trace_entry [OF ok Some]
      obtain tshown' where trace: "public_trace tshown (visible_entry e vs v) = Some tshown'"
        and tlink: "linked_traces T tgiven' tshown'" and "mlen tshown' \<noteq> 0"
        using public_trace_link [OF Cons.prems(4) items(2) [OF Some] digests [OF items(2) [OF Some]] v [unfolded Some]] ref
        by blast
      with Cons.IH [OF sub rest link tlink] show ?thesis
        using False Some entry risk refs by (simp add: point head del: sanitise_entries.simps)
    qed
  qed
qed simp

lemma entries_ok_member: "entries_ok p closedAt n c i es \<Longrightarrow> e \<in> set es \<Longrightarrow> \<exists>j. entry_ok p closedAt n j e"
  by (induction es arbitrary: c i) (auto split: prod.splits)

lemma entry_references_ok:
  assumes "entry_ok p closedAt n i e" and "ref \<in> set (en_References e)"
  shows "reference_ok p ref"
proof (cases "lifecycle_kind (en_Kind e)")
  case True
  with assms show ?thesis
    by (auto simp: entry_ok_def validLifecycle_def)
next
  case False
  from entry_input_kind [OF this assms(1)] obtain x where x: "entry_input e = Some x" "input_validate p x"
    by blast
  then have "in_References x = en_References e"
    by (auto simp: entry_input_def Let_def split: if_splits)
  with x assms(2) show ?thesis
    by (simp add: input_validate_def list_all_iff)
qed

lemma sanitise_entries_ends:
  "es \<noteq> [] \<Longrightarrow> sy_Kind (hd (sanitise_entries given tgiven es)) = en_Kind (hd es) \<and>
    sy_RecordedAt (hd (sanitise_entries given tgiven es)) = en_RecordedAt (hd es)"
  by (cases es) (auto split: prod.splits)

lemma sanitise_entries_kinds: "map sy_Kind (sanitise_entries given tgiven es) = map en_Kind es"
  by (induction es arbitrary: given tgiven) (auto split: prod.splits)

lemma sanitised_valid:
  assumes "validateAuthorised L d" and "Sanitise L d = Some x"
  shows "validateSanitised x"
proof -
  let ?es = "ax_Entries d" and ?p = "entry_principal (hd (ax_Entries d))"
  let ?c = "new_chronology (ax_OpenedAt d) (ax_ExpiresAt d)"
  let ?X = "set (concat (map en_References ?es))" and ?T = "set (trace_references ?es)"
  have ok: "entries_ok ?p (ax_ClosedAt d) (length ?es) ?c 0 ?es"
    and refs: "consistentReferences ?es" and traces: "consistentTraceReferences ?es"
    and schema: "ax_SchemaVersion d = exportSchema ?es"
    using assms(1) unfolding validateAuthorised_def Let_def by blast+
  have header: "validHeader (ax_Kind d) (ax_SchemaVersion d) (ax_OpenedAt d) (ax_ExpiresAt d) (ax_ClosedAt d) (length ?es)"
    and ends: "en_Kind (hd ?es) = ''opened''" "en_RecordedAt (hd ?es) = ax_OpenedAt d"
      "ax_ClosedAt d \<noteq> None \<longleftrightarrow> en_Kind (last ?es) = ''closed''"
    using assms(1) unfolding validateAuthorised_def Let_def by blast+
  have nonempty: "?es \<noteq> []"
    using header by (auto simp: validHeader_def)
  have "coherent ?X"
    unfolding coherent_def
  proof (intro conjI ballI impI)
    fix ref assume "ref \<in> ?X"
    then obtain e where "e \<in> set ?es" "ref \<in> set (en_References e)" by auto
    with entries_ok_member [OF ok] entry_references_ok have "reference_ok ?p ref" by blast
    then show "1 \<le> cf_SchemaVersion ref" "cf_SchemaVersion ref \<le> 7" "cf_ObservedAt ref \<noteq> 0"
      by (simp_all add: reference_ok_def)
  next
    fix a b assume "a \<in> ?X" "b \<in> ?X" "reference_key a = reference_key b"
    then show "cf_ObservedAt a = cf_ObservedAt b"
      using refs by (auto simp: consistentReferences_iff)
  qed
  moreover have "\<forall>t \<in> ?T. \<forall>u \<in> ?T. tf_Digest u = tf_Digest t \<longrightarrow> u = t"
    using traces by (auto simp: consistentTraceReferences_iff set_trace_references)
  ultimately have items: "document_items ?X ?T ?es"
    by (auto simp: document_items_def set_trace_references)
  obtain shown where shown: "public_entries (ax_ClosedAt d) (length ?es) ?c [] [] 0 (sanitise_entries [] [] ?es) = Some shown"
    and count: "mlen shown \<noteq> 0 \<longleftrightarrow> (\<exists>e \<in> set ?es. en_TraceReference e \<noteq> None)"
    using public_entries_link [OF items order_refl ok linked_Nil linked_Nil] by auto
  have kinds: "en_Kind e = ''trace-referenced'' \<longleftrightarrow> en_TraceReference e \<noteq> None" if "e \<in> set ?es" for e
    using entries_ok_member [OF ok that] trace_kind_has_trace by blast
  then have version: "(mlen shown \<noteq> 0) = (exportSchema ?es = TraceExportSchema)"
    using count by (auto simp: exportSchema_def TraceExportSchema_def ss_SchemaVersion_def list_ex_iff)
  have len: "length (sanitise_entries [] [] ?es) = length ?es"
    using arg_cong [OF sanitise_entries_kinds, of length] by simp
  have last: "sy_Kind (last (sanitise_entries [] [] ?es)) = en_Kind (last ?es)"
    using nonempty len sanitise_entries_kinds [of "[]" "[]" ?es] by (metis last_map length_0_conv)
  have x: "x = sanitisedDocument \<lparr>ss_principal = ?p, ss_id = ax_ID d, ss_opened = ax_OpenedAt d,
       ss_expires = ax_ExpiresAt d, ss_closed = ax_ClosedAt d, ss_entries = ?es, ss_captures = [],
       ss_limitReached = ax_LimitReached d\<rparr>"
    using assms by (simp add: Sanitise_def)
  show ?thesis
    using header ends nonempty shown version len last schema sanitise_entries_ends [OF nonempty, of "[]" "[]"]
    by (simp add: x validateSanitised_def sanitisedDocument_def Let_def validHeader_def)
qed

end
