(* ===== verification/Session_Privacy.thy ===== *)
theory Session_Privacy
  imports Session_Sanitised
begin

text \<open>
  What a sanitised document does not show. \<open>disguised\<close> replaces every private part of a record by that of a donor:
  the principal, the identifier, the captures, the notes, namespaces and actors of the entries, the digests (renamed
  without merging two of them) and the unpublished fields of the trace references. The sanitised document stays the
  same.
\<close>

subsection \<open>Disguised records\<close>

definition disguised_reference :: "(string \<Rightarrow> string) \<Rightarrow> capture_reference \<Rightarrow> capture_reference \<Rightarrow> capture_reference" where
  "disguised_reference rename donor ref = donor\<lparr>cf_Digest := rename (cf_Digest ref), cf_SchemaVersion := cf_SchemaVersion ref,
     cf_ObservedAt := cf_ObservedAt ref\<rparr>"

definition disguised_trace :: "(string \<Rightarrow> string) \<Rightarrow> trace_reference \<Rightarrow> trace_reference \<Rightarrow> trace_reference" where
  "disguised_trace rename donor t = donor\<lparr>tf_Digest := rename (tf_Digest t), tf_Provenance := tf_Provenance t,
     tf_ReportSchemaVersion := tf_ReportSchemaVersion t, tf_TraceKind := tf_TraceKind t, tf_State := tf_State t,
     tf_Cleanup := tf_Cleanup t, tf_TransportComplete := tf_TransportComplete t, tf_Termination := tf_Termination t,
     tf_Coverage := tf_Coverage t, tf_Lost := tf_Lost t\<rparr>"

lemma disguised_trace_simps [simp]:
  "tf_Digest (disguised_trace rename donor t) = rename (tf_Digest t)"
  "tf_Provenance (disguised_trace rename donor t) = tf_Provenance t"
  "tf_ReportSchemaVersion (disguised_trace rename donor t) = tf_ReportSchemaVersion t"
  "Outcome (disguised_trace rename donor t) = Outcome t"
  by (simp_all add: disguised_trace_def Outcome_def)

text \<open>The donors of the private parts.\<close>

record donors =
  dn_record :: session_record
  dn_entry :: "session_entry \<Rightarrow> session_entry"
  dn_reference :: "capture_reference \<Rightarrow> capture_reference"
  dn_trace :: "trace_reference \<Rightarrow> trace_reference"
  dn_rename :: "string \<Rightarrow> string"

definition disguised_entry :: "donors \<Rightarrow> session_entry \<Rightarrow> session_entry" where
  "disguised_entry D e = (dn_entry D e)\<lparr>en_Sequence := en_Sequence e, en_Kind := en_Kind e, en_RecordedAt := en_RecordedAt e,
     en_ObservedAt := en_ObservedAt e, en_Source := en_Source e, en_ClockUncertain := en_ClockUncertain e,
     en_References := map (\<lambda>ref. disguised_reference (dn_rename D) (dn_reference D ref) ref) (en_References e),
     en_GapReason := en_GapReason e,
     en_TraceReference := map_option (\<lambda>t. disguised_trace (dn_rename D) (dn_trace D t) t) (en_TraceReference e)\<rparr>"

definition disguised :: "donors \<Rightarrow> session_record \<Rightarrow> session_record" where
  "disguised D r = (dn_record D)\<lparr>ss_opened := ss_opened r, ss_expires := ss_expires r, ss_closed := ss_closed r,
     ss_entries := map (disguised_entry D) (ss_entries r), ss_limitReached := ss_limitReached r\<rparr>"

text \<open>The digests a record mentions.\<close>

definition record_digests :: "session_record \<Rightarrow> string set" where
  "record_digests r = (\<Union>e \<in> set (ss_entries r). cf_Digest ` set (en_References e) \<union> tf_Digest ` set_option (en_TraceReference e))"

subsection \<open>Keys of aliases\<close>

lemma decimal_digits: "c \<in> set (decimal n) \<Longrightarrow> 48 \<le> byte c \<and> byte c \<le> 57"
proof (induction n rule: less_induct)
  case (less n)
  show ?case
  proof (cases "n < 10")
    case True
    with less.prems show ?thesis
      by (auto simp: decimal.simps byte_def)
  next
    case False
    then have "decimal n = decimal (n div 10) @ [char_of (48 + n mod 10)]"
      by (subst decimal.simps) simp
    with less.prems less.IH [of "n div 10"] False show ?thesis
      by (auto simp: byte_def)
  qed
qed

lemma byte_marks: "byte CHR '':'' = 58" "byte CHR ''-'' = 45"
  by (simp_all add: byte_def)

lemma itoa_no_colon: "CHR '':'' \<notin> set (itoa v)"
  using decimal_digits [of "CHR '':''"] by (auto simp: itoa_def byte_marks)

lemma decimal_inject: "decimal m = decimal n \<longleftrightarrow> m = n"
  by (metis decimal_value_decimal)

lemma decimal_no_minus: "decimal n \<noteq> CHR ''-'' # s"
proof
  assume "decimal n = CHR ''-'' # s"
  then have "CHR ''-'' \<in> set (decimal n)"
    by simp
  then show False
    using decimal_digits byte_marks(2) by fastforce
qed

lemma itoa_inject: "itoa v = itoa w \<longleftrightarrow> v = w"
  by (cases "v < 0"; cases "w < 0") (auto simp: itoa_def decimal_inject decimal_no_minus decimal_no_minus [symmetric])

lemma schema_of_key: "takeWhile (\<lambda>c. c \<noteq> CHR '':'') (alias_key x) = itoa (cf_SchemaVersion x)"
proof -
  have "takeWhile (\<lambda>c. c \<noteq> CHR '':'') (itoa (cf_SchemaVersion x) @ CHR '':'' # cf_Digest x) = itoa (cf_SchemaVersion x)"
    using itoa_no_colon [of "cf_SchemaVersion x"] by (subst takeWhile_append2) auto
  then show ?thesis
    by (simp add: alias_key_def)
qed

lemma alias_key_eq: "alias_key a = alias_key b \<longleftrightarrow> cf_SchemaVersion a = cf_SchemaVersion b \<and> cf_Digest a = cf_Digest b"
proof
  assume eq: "alias_key a = alias_key b"
  then have "itoa (cf_SchemaVersion a) = itoa (cf_SchemaVersion b)"
    by (metis schema_of_key)
  with eq show "cf_SchemaVersion a = cf_SchemaVersion b \<and> cf_Digest a = cf_Digest b"
    by (simp add: alias_key_def itoa_inject)
qed (simp add: alias_key_def)

subsection \<open>Two maps of aliases in step\<close>

definition in_step :: "('x \<Rightarrow> string) \<Rightarrow> ('x \<Rightarrow> string) \<Rightarrow> 'x set \<Rightarrow> (string, string) gomap \<Rightarrow> (string, string) gomap \<Rightarrow> bool" where
  "in_step key key' X A A' \<longleftrightarrow> mlen A = mlen A' \<and> (\<forall>x \<in> X. mget A (key x) = mget A' (key' x))"

lemma in_step_Nil: "in_step key key' X [] []"
  by (simp add: in_step_def)

lemma in_step_alias:
  assumes "in_step key key' X A A'" and "x \<in> X" and "\<forall>y \<in> X. key y = key x \<longleftrightarrow> key' y = key' x"
    and "alias_of stem A (key x) = (a, A1)"
  shows "\<exists>A1'. alias_of stem A' (key' x) = (a, A1') \<and> in_step key key' X A1 A1'"
proof (cases "mget A (key x)")
  case None
  then have none: "mget A' (key' x) = None" and len: "mlen A = mlen A'"
    using assms(1,2) by (simp_all add: in_step_def)
  with None assms(4) have a: "a = stem @ itoa (int (mlen A') + 1)" "A1 = mput (key x) a A"
    by (auto simp: alias_of_def Let_def)
  have "in_step key key' X A1 (mput (key' x) a A')"
    using assms(1,3) None none len by (simp add: in_step_def a(2) mget_mput mlen_update)
  with none a show ?thesis
    by (simp add: alias_of_def Let_def)
next
  case (Some b)
  with assms show ?thesis
    by (auto simp: alias_of_def in_step_def)
qed

lemma in_step_references:
  assumes "\<forall>x \<in> X. \<forall>y \<in> X. alias_key y = alias_key x \<longleftrightarrow> key' y = key' x"
    and "\<And>ref. alias_key (h ref) = key' ref" and "\<And>ref. cf_SchemaVersion (h ref) = cf_SchemaVersion ref"
    and "\<And>ref. cf_ObservedAt (h ref) = cf_ObservedAt ref"
  shows "set refs \<subseteq> X \<Longrightarrow> in_step alias_key key' X A A' \<Longrightarrow> sanitise_references A refs = (vs, A1) \<Longrightarrow>
    \<exists>A1'. sanitise_references A' (map h refs) = (vs, A1') \<and> in_step alias_key key' X A1 A1'"
proof (induction refs arbitrary: A A' vs)
  case (Cons ref refs)
  obtain a A2 rest where step: "referenceAlias A ref = (a, A2)" and rest: "sanitise_references A2 refs = (rest, A1)"
    and vs: "vs = shown_reference ref a # rest"
    using Cons.prems(3) by (auto simp: shown_reference_def split: prod.splits)
  have ref: "ref \<in> X" "\<forall>y \<in> X. alias_key y = alias_key ref \<longleftrightarrow> key' y = key' ref" and sub: "set refs \<subseteq> X"
    using Cons.prems(1) assms(1) by auto
  obtain A2' where step': "alias_of ''evidence-'' A' (key' ref) = (a, A2')" and link: "in_step alias_key key' X A2 A2'"
    using in_step_alias [OF Cons.prems(2) ref step [unfolded referenceAlias_def]] by blast
  obtain A1' where "sanitise_references A2' (map h refs) = (rest, A1')" "in_step alias_key key' X A1 A1'"
    using Cons.IH [OF sub link rest] by blast
  with step' assms(2-4) show ?case
    by (simp add: vs referenceAlias_def shown_reference_def)
qed auto

lemma in_step_trace:
  assumes "\<forall>x \<in> T. \<forall>y \<in> T. tf_Digest y = tf_Digest x \<longleftrightarrow> key' y = key' x"
    and "\<And>t. tf_Digest (h t) = key' t" and "\<And>t. Outcome (h t) = Outcome t" and "\<And>t. tf_Provenance (h t) = tf_Provenance t"
    and "\<And>t. tf_ReportSchemaVersion (h t) = tf_ReportSchemaVersion t"
    and "set_option ref \<subseteq> T" and "in_step tf_Digest key' T A A'" and "sanitise_trace A ref = (v, A1)"
  shows "\<exists>A1'. sanitise_trace A' (map_option h ref) = (v, A1') \<and> in_step tf_Digest key' T A1 A1'"
proof (cases ref)
  case None
  with assms(7,8) show ?thesis
    by (auto simp: sanitise_trace_def)
next
  case (Some t)
  obtain a where step: "alias_of ''trace-'' A (tf_Digest t) = (a, A1)" and v: "v = Some (fst (shown_trace t a))"
    using assms(8) Some
    by (auto simp: sanitise_trace_def sanitiseTraceReference_def traceAlias_def shown_trace_def split: prod.splits)
  have "t \<in> T" "\<forall>y \<in> T. tf_Digest y = tf_Digest t \<longleftrightarrow> key' y = key' t"
    using assms(1,6) Some by auto
  from in_step_alias [OF assms(7) this step] obtain A1' where "alias_of ''trace-'' A' (key' t) = (a, A1')"
    "in_step tf_Digest key' T A1 A1'"
    by blast
  with assms(2-5) show ?thesis
    by (simp add: Some v sanitise_trace_def sanitiseTraceReference_def traceAlias_def shown_trace_def)
qed

subsection \<open>Disguised records look the same\<close>

lemma visible_disguised: "visible_entry (disguised_entry D e) refs v = visible_entry e refs v"
  by (simp add: visible_entry_def disguised_entry_def)

lemma sanitise_disguised:
  assumes "inj_on (dn_rename D) (cf_Digest ` X)" and "inj_on (dn_rename D) (tf_Digest ` T)"
  shows "(\<And>e. e \<in> set es \<Longrightarrow> set (en_References e) \<subseteq> X \<and> set_option (en_TraceReference e) \<subseteq> T) \<Longrightarrow>
    in_step alias_key (\<lambda>ref. alias_key (disguised_reference (dn_rename D) (dn_reference D ref) ref)) X A A' \<Longrightarrow>
    in_step tf_Digest (\<lambda>t. dn_rename D (tf_Digest t)) T B B' \<Longrightarrow>
    sanitise_entries A' B' (map (disguised_entry D) es) = sanitise_entries A B es"
proof (induction es arbitrary: A A' B B')
  case (Cons e es)
  let ?h = "\<lambda>ref. disguised_reference (dn_rename D) (dn_reference D ref) ref"
  let ?g = "\<lambda>t. disguised_trace (dn_rename D) (dn_trace D t) t"
  have e: "set (en_References e) \<subseteq> X" "set_option (en_TraceReference e) \<subseteq> T"
    using Cons.prems(1) by auto
  obtain vs A1 where vs: "sanitise_references A (en_References e) = (vs, A1)" by fastforce
  obtain v B1 where v: "sanitise_trace B (en_TraceReference e) = (v, B1)" by fastforce
  have keys: "\<forall>x \<in> X. \<forall>y \<in> X. alias_key y = alias_key x \<longleftrightarrow> alias_key (?h y) = alias_key (?h x)"
    using assms(1) by (auto simp: alias_key_eq disguised_reference_def inj_on_def)
  obtain A1' where vs': "sanitise_references A' (map ?h (en_References e)) = (vs, A1')"
    and link: "in_step alias_key (\<lambda>ref. alias_key (?h ref)) X A1 A1'"
    using in_step_references [OF keys refl _ _ e(1) Cons.prems(2) vs] by (auto simp: disguised_reference_def)
  have digests: "\<forall>x \<in> T. \<forall>y \<in> T. tf_Digest y = tf_Digest x \<longleftrightarrow> dn_rename D (tf_Digest y) = dn_rename D (tf_Digest x)"
    using assms(2) by (auto simp: inj_on_def)
  obtain B1' where v': "sanitise_trace B' (map_option ?g (en_TraceReference e)) = (v, B1')"
    and tlink: "in_step tf_Digest (\<lambda>t. dn_rename D (tf_Digest t)) T B1 B1'"
    using in_step_trace [OF digests _ _ _ _ e(2) Cons.prems(3) v, of ?g] by auto
  have "sanitise_entries A1' B1' (map (disguised_entry D) es) = sanitise_entries A1 B1 es"
    using Cons.IH [OF _ link tlink] Cons.prems(1) by auto
  moreover have "en_References (disguised_entry D e) = map ?h (en_References e)"
    "en_TraceReference (disguised_entry D e) = map_option ?g (en_TraceReference e)"
    by (simp_all add: disguised_entry_def)
  ultimately show ?case
    using vs v vs' v' by (simp add: visible_disguised)
qed simp

lemma exportSchema_disguised: "exportSchema (map (disguised_entry D) es) = exportSchema es"
  by (simp add: exportSchema_def list_ex_iff disguised_entry_def)

lemma disguised_sanitised:
  assumes "inj_on (dn_rename D) (record_digests r)"
  shows "sanitisedDocument (disguised D r) = sanitisedDocument r"
proof -
  let ?X = "\<Union>e \<in> set (ss_entries r). set (en_References e)" and ?T = "\<Union>e \<in> set (ss_entries r). set_option (en_TraceReference e)"
  have "cf_Digest ` ?X \<subseteq> record_digests r" "tf_Digest ` ?T \<subseteq> record_digests r"
    by (auto simp: record_digests_def)
  then have "inj_on (dn_rename D) (cf_Digest ` ?X)" "inj_on (dn_rename D) (tf_Digest ` ?T)"
    using assms by (auto intro: inj_on_subset)
  then have "sanitise_entries [] [] (map (disguised_entry D) (ss_entries r)) = sanitise_entries [] [] (ss_entries r)"
    by (rule sanitise_disguised) (auto intro: in_step_Nil)
  then show ?thesis
    by (simp add: sanitisedDocument_def disguised_def exportSchema_disguised)
qed

end
