(* ===== verification/Session_System.thy ===== *)
theory Session_System
  imports Session_Run Session_Privacy
begin

text \<open>
  The runs of the store of incident sessions: its steps, the invariant of all its records and its limits, and what an
  action leaves alone.
\<close>

subsection \<open>Counting sessions\<close>

definition in_namespace :: "string \<Rightarrow> (string, session_record) gomap \<Rightarrow> nat" where
  "in_namespace ns m = length (filter (\<lambda>(key, r). sp_NamespaceUID (ss_principal r) = ns) m)"

lemma mput_new: "mget m k = None \<Longrightarrow> mput k v m = m @ [(k, v)]"
  by (induction m) (auto simp: mget_def mput_def split: if_splits)

lemma in_namespace_new:
  "mget m k = None \<Longrightarrow> in_namespace ns (mput k r m) = in_namespace ns m + (if sp_NamespaceUID (ss_principal r) = ns then 1 else 0)"
  by (simp add: mput_new in_namespace_def)

lemma in_namespace_replace:
  "mget m k = Some q \<Longrightarrow> ss_principal r = ss_principal q \<Longrightarrow> in_namespace ns (mput k r m) = in_namespace ns m"
  by (induction m) (auto simp: mget_def mput_def in_namespace_def split: if_splits)

lemma in_namespace_keep: "in_namespace ns (mkeep P m) \<le> in_namespace ns m"
  by (induction m) (auto simp: in_namespace_def mkeep_def)

lemma in_namespace_del: "in_namespace ns (mdel k m) \<le> in_namespace ns m"
  by (induction m) (auto simp: in_namespace_def mdel_def)

lemma mlen_del: "mlen (mdel k m) \<le> mlen m"
  by (induction m) (auto simp: mlen_def mdel_def)

subsection \<open>The invariant\<close>

definition within_limits :: "session_store \<Rightarrow> bool" where
  "within_limits s \<longleftrightarrow> int (mlen (ik_records s)) \<le> li_Sessions (ik_limits s) \<and>
     (\<forall>ns. int (in_namespace ns (ik_records s)) \<le> li_NamespaceSessions (ik_limits s))"

definition sessions_inv :: "session_lib \<Rightarrow> string set \<Rightarrow> session_store \<Rightarrow> bool" where
  "sessions_inv L D s \<longleftrightarrow> limits_valid (ik_limits s) \<and> keyed s \<and> within_limits s \<and>
     (\<forall>sid r. mget (ik_records s) sid = Some r \<longrightarrow> record_ok L D (ik_limits s) r)"

inductive session_step :: "session_lib \<Rightarrow> export_codec \<Rightarrow> string set \<Rightarrow> session_store \<Rightarrow> session_store \<Rightarrow> bool"
  for L C D
where
  tick: "session_step L C D s (sweep_tick now s)"
| stop: "session_step L C D s (sweep_done s)"
| act: "trusted L D call a \<Longrightarrow> session_step L C D s (snd (perform L C call p a s))"

definition fresh_sessions :: "session_store \<Rightarrow> bool" where
  "fresh_sessions s \<longleftrightarrow> (\<exists>limits. newStore_sessions limits = Some s)"

lemma keyed_prune: "keyed s \<Longrightarrow> keyed (prune now s)"
  by (auto simp: keyed_def prune_def mwf_mkeep mget_mkeep_Some)

lemma within_fewer:
  assumes "within_limits s" and "ik_limits s' = ik_limits s" and "mlen (ik_records s') \<le> mlen (ik_records s)"
    and "\<And>ns. in_namespace ns (ik_records s') \<le> in_namespace ns (ik_records s)"
  shows "within_limits s'"
proof -
  have "int (mlen (ik_records s')) \<le> li_Sessions (ik_limits s)"
    using assms(1,3) unfolding within_limits_def by linarith
  moreover have "int (in_namespace ns (ik_records s')) \<le> li_NamespaceSessions (ik_limits s)" for ns
    using assms(1) assms(4) [of ns] unfolding within_limits_def by (meson of_nat_mono order_trans)
  ultimately show ?thesis
    by (simp add: within_limits_def assms(2))
qed

lemma inv_prune:
  assumes "sessions_inv L D s"
  shows "sessions_inv L D (prune now s)"
proof -
  have "within_limits (prune now s)"
    by (rule within_fewer [of s])
      (use assms in \<open>simp_all add: sessions_inv_def prune_def in_namespace_keep mlen_mkeep_le\<close>)
  with assms keyed_prune [of s now] show ?thesis
    by (auto simp: sessions_inv_def prune_def keyed_def mget_mkeep_Some)
qed

lemma inv_drop:
  assumes "sessions_inv L D s"
  shows "sessions_inv L D (drop_record sid s)"
proof -
  have "within_limits (drop_record sid s)"
    by (rule within_fewer [of s]) (use assms in \<open>simp_all add: sessions_inv_def drop_record_def in_namespace_del mlen_del\<close>)
  with assms show ?thesis
    by (auto simp: sessions_inv_def drop_record_def keyed_def mwf_mdel mget_mdel)
qed

lemma inv_replace:
  assumes "sessions_inv L D s" and "mget (ik_records s) (ss_id r) = Some q" and "ss_principal r = ss_principal q"
    and "record_ok L D (ik_limits s) r"
  shows "sessions_inv L D (put_record r s)"
  using assms
  by (auto simp: sessions_inv_def within_limits_def put_record_def keyed_def mwf_mput mget_mput mlen_mput in_namespace_replace)

lemma inv_open:
  assumes "sessions_inv L D s" and "mget (ik_records s) (ss_id r) = None" and "record_ok L D (ik_limits s) r"
    and "int (mlen (ik_records s)) < li_Sessions (ik_limits s)"
    and "int (in_namespace (sp_NamespaceUID (ss_principal r)) (ik_records s)) < li_NamespaceSessions (ik_limits s)"
  shows "sessions_inv L D (put_record r s)"
  using assms
  by (auto simp: sessions_inv_def within_limits_def put_record_def keyed_def mwf_mput mget_mput mlen_mput in_namespace_new)

lemma record_ok_limit: "record_ok L D limits (r\<lparr>ss_limitReached := b\<rparr>) = record_ok L D limits r"
  by (simp add: record_ok_def record_core_def frame_ok_def timeline_ok_def captures_held_def record_references_def)

lemma effect_inv:
  assumes "session_effect True L D call p s e s'" and "sessions_inv L D s"
  shows "sessions_inv L D s'"
  using assms(1)
proof cases
  case (marked r)
  with assms(2) show ?thesis
    by (auto simp: owned_def record_ok_limit sessions_inv_def [of L D s] intro!: inv_replace [OF assms(2)])
next
  case (grew r r')
  with assms(2) have "record_ok L D (ik_limits s) r'"
    by (auto simp: owned_def grown_def sessions_inv_def)
  with grew show ?thesis
    by (auto simp: owned_def grown_def intro!: inv_replace [OF assms(2)])
next
  case (opened r)
  then show ?thesis
    using assms(2) inv_prune [OF assms(2), of "sc_now call 0"]
    by (auto simp: sessions_inv_def [of L D s] in_namespace_def prune_def intro!: inv_open)
qed (use assms(2) inv_prune inv_drop in auto)

lemma step_inv: "sessions_inv L D s \<Longrightarrow> session_step L C D s t \<Longrightarrow> sessions_inv L D t"
proof (erule session_step.cases)
  fix q now
  assume "sessions_inv L D s" "s = q" "t = sweep_tick now q"
  then show ?thesis
    by (simp add: sweep_tick_def inv_prune)
next
  fix q
  assume "sessions_inv L D s" "s = q" "t = sweep_done q"
  then show ?thesis
    by (auto simp: sweep_done_def sessions_inv_def within_limits_def keyed_def in_namespace_def limits_valid_def)
next
  fix call a q p
  assume inv: "sessions_inv L D s" and "s = q" "t = snd (perform L C call p a q)" and t: "trusted L D call a"
  then have "session_effect (trusted L D call a) L D call p s (fst (perform L C call p a s)) t"
    by (intro perform_effect [where a = a and C = C]) (simp_all add: sessions_inv_def)
  with t inv show ?thesis
    using effect_inv [of L D call p s _ t] by simp
qed

lemma fresh_inv: "fresh_sessions s \<Longrightarrow> sessions_inv L D s"
  by (auto simp: fresh_sessions_def newStore_sessions_def sessions_inv_def within_limits_def keyed_def in_namespace_def
      limits_valid_def split: if_splits)

interpretation session_system: step_system fresh_sessions "session_step L C D" "sessions_inv L D" for L C D
  by unfold_locales (auto intro: fresh_inv step_inv)

subsection \<open>What an action leaves alone\<close>

text \<open>A session that has not expired at any reading of the clock.\<close>

definition alive :: "session_call \<Rightarrow> session_record \<Rightarrow> bool" where
  "alive call r \<longleftrightarrow> (\<forall>i. sc_now call i < ss_expires r)"

lemma foreign_effect:
  assumes "session_effect T L D call p s e s'" and "mget (ik_records s) sid = Some r" and "ss_principal r \<noteq> p" and "alive call r"
    and "keyed s"
  shows "mget (ik_records s') sid = Some r"
  using assms(1)
proof cases
  case (grew q q')
  then have "ss_id q \<noteq> sid"
    using assms(2,3) by (auto simp: owned_def)
  with grew assms(2) show ?thesis
    by (simp add: put_record_def mget_mput grown_def)
next
  case (opened q)
  have live: "mget (ik_records (prune (sc_now call 0) s)) sid = Some r"
    using assms(2,4,5) by (simp add: prune_def mget_mkeep_Some keyed_def alive_def)
  with opened have "ss_id q \<noteq> sid"
    by auto
  with opened live show ?thesis
    by (simp add: put_record_def mget_mput)
next
  case kept
  with assms(2) show ?thesis
    by simp
next
  case (expired k q)
  with assms(2,4) have "k \<noteq> sid"
    by (auto simp: alive_def)
  with expired assms(2) show ?thesis
    by (simp add: drop_record_def mget_mdel)
next
  case (marked q)
  then have "ss_id q \<noteq> sid"
    using assms(2,3) by (auto simp: owned_def)
  with marked assms(2) show ?thesis
    by (simp add: put_record_def mget_mput)
next
  case (deleted q)
  then have "ss_id q \<noteq> sid"
    using assms(2,3) by (auto simp: owned_def)
  with deleted assms(2) show ?thesis
    by (simp add: drop_record_def mget_mdel)
next
  case pruned
  with assms(2,4,5) show ?thesis
    by (simp add: prune_def mget_mkeep_Some keyed_def alive_def)
qed

lemma failed_effect:
  assumes "session_effect T L D call p s (Some e) s'" and "mget (ik_records s) sid = Some r" and "alive call r" and "keyed s"
  shows "\<exists>b. mget (ik_records s') sid = Some (r\<lparr>ss_limitReached := b\<rparr>)"
  using assms(1)
proof cases
  case kept
  with assms(2) show ?thesis
    by (intro exI [of _ "ss_limitReached r"]) simp
next
  case (marked q)
  with assms(2) show ?thesis
    by (cases "ss_id q = sid")
      (auto simp: owned_def put_record_def mget_mput intro: exI [of _ True] exI [of _ "ss_limitReached r"])
next
  case (expired k q)
  with assms(2,3) have "k \<noteq> sid"
    by (auto simp: alive_def)
  with expired assms(2) show ?thesis
    by (intro exI [of _ "ss_limitReached r"]) (simp add: drop_record_def mget_mdel)
next
  case pruned
  with assms show ?thesis
    by (intro exI [of _ "ss_limitReached r"]) (simp add: prune_def mget_mkeep_Some keyed_def alive_def)
qed

end
