(* ===== verification/Session_Properties.thy ===== *)
theory Session_Properties
  imports Session_System
begin

text \<open>
  The properties of incident sessions: what a stored session exports is a valid document, its sanitised form too and
  without anything private; no action touches the session of somebody else; and an action that fails leaves every
  timeline as it was. The sample is a store in which one session was started.
\<close>

subsection \<open>A sample session\<close>

definition syntax_sample :: "offset_token list" where
  "syntax_sample = map (\<lambda>t. (t, 0)) [ObjectStart, Text ''kind'', Text ''IncidentSession'', Text ''schemaVersion'', Number,
     Text ''redacted'', Truth False, Text ''openedAt'', Text ''1'', Text ''expiresAt'', Text ''2'', Text ''entries'', ArrayStart, ArrayEnd,
     Text ''limitReached'', Truth False, ObjectEnd]"

definition sample_session_lib :: session_lib where
  "sample_session_lib = \<lparr>ssl_changes = \<lparr>ch_names = \<lparr>kn_subdomain = \<lambda>_. True, kn_label = \<lambda>_. True\<rparr>, ch_report_bytes = \<lambda>_. None,
       ch_context_bytes = \<lambda>_. None\<rparr>, ssl_incident_bytes = \<lambda>_. None, ssl_tokens = \<lambda>_. syntax_sample, ssl_sha256 = \<lambda>_. 0,
     ssl_bundle = \<lambda>_. None, ssl_bundle_v1 = \<lambda>_. None, ssl_history = \<lambda>_. None, ssl_history_lax = \<lambda>_. None,
     ssl_history_v1 = \<lambda>_. None, ssl_schema = \<lambda>_. None, ssl_redacted = \<lambda>_. None\<rparr>"

definition sample_codec :: export_codec where
  "sample_codec = \<lparr>ec_marshal = \<lambda>_. Some ''{}'', ec_marshal_sanitised = \<lambda>_. Some ''{}'', ec_entry_bytes = \<lambda>_. Some 2,
     ec_redacted = \<lambda>_. None, ec_authorised = \<lambda>_. None, ec_sanitised = \<lambda>_. None\<rparr>"

definition sample_actor :: session_principal where
  "sample_actor = \<lparr>sp_Namespace = ''shop'', sp_NamespaceUID = ''u1'', sp_Actor = ''alice''\<rparr>"

definition other_actor :: session_principal where
  "other_actor = \<lparr>sp_Namespace = ''shop'', sp_NamespaceUID = ''u1'', sp_Actor = ''mallory''\<rparr>"

definition sample_sid :: string where
  "sample_sid = replicate 32 CHR ''a''"

definition sample_call :: session_call where
  "sample_call = \<lparr>sc_nil = False, sc_cancelled = \<lambda>_. False, sc_stopped = \<lambda>_. False, sc_verdict = Authorised, sc_now = \<lambda>_. second,
     sc_newID = Some sample_sid\<rparr>"

definition empty_sessions :: session_store where
  "empty_sessions = \<lparr>ik_limits = DefaultLimits, ik_records = []\<rparr>"

definition sample_sessions :: session_store where
  "sample_sessions = snd (perform sample_session_lib sample_codec sample_call sample_actor DoStart empty_sessions)"

definition started_session :: session_record where
  "started_session = extended (opening_record DefaultLimits sample_actor sample_sid second) opening_input second"

lemma fresh_empty: "fresh_sessions empty_sessions"
  unfolding fresh_sessions_def newStore_sessions_def empty_sessions_def
  by (rule exI [of _ DefaultLimits]) (simp add: limits_valid_def DefaultLimits_def hour_def go_simps MaxEntries_def MaxExportBytes_def)

lemma sample_trusted: "action_allowed {} a \<Longrightarrow> trusted sample_session_lib {} sample_call a"
  by (simp add: trusted_def coherent_codecs_def distinct_digests_def sample_session_lib_def sample_call_def second_def)

lemma sample_syntax: "boundedSyntax (\<lambda>_. syntax_sample) ''{}''"
  by code_simp

lemma sample_principal_valid: "principal_valid \<lparr>kn_subdomain = \<lambda>_. True, kn_label = \<lambda>_. True\<rparr> sample_actor" "digest sample_sid 16"
  by (simp_all add: principal_valid_def text_ok_def sample_actor_def byte_def is_control_def is_format_def format_ranges_def
      is_separator_def digest_def sample_sid_def lower_hex_def list_all_iff)

lemma sample_authorised: "authorize sample_session_lib sample_call sample_actor True '''' = None"
  using sample_principal_valid by (simp add: authorize_def available_def sample_session_lib_def sample_call_def)

lemma sample_add:
  "in_References x = [] \<Longrightarrow> in_TraceReference x = None \<Longrightarrow> ss_entries r = [] \<Longrightarrow>
    add_entry sample_session_lib sample_codec DefaultLimits None r x now = Inr (extended r x now)"
  using sample_syntax
  by (simp add: add_entry_def Let_def sample_codec_def marshals_within_def MaxEntryBytes_def reserveExportSyntax_def
      sample_session_lib_def DefaultLimits_def MaxEntries_def MaxExportBytes_def consistentReferences_def
      consistentTraceReferences_def trace_references_def List.map_filter_def)

lemma sample_started: "sample_sessions = \<lparr>ik_limits = DefaultLimits, ik_records = [(sample_sid, started_session)]\<rparr>"
proof -
  have "Start sample_session_lib sample_codec sample_call sample_actor empty_sessions =
      (Inr (summary started_session), put_record started_session (prune second empty_sessions))"
    using sample_authorised sample_principal_valid(2) sample_add [of opening_input "opening_record DefaultLimits sample_actor sample_sid second" second]
    by (simp add: Start_def Let_def available_def sample_call_def empty_sessions_def prune_def mkeep_def mlen_def DefaultLimits_def
        opening_input_def opening_record_def started_session_def input_zero_def)
  then show ?thesis
    by (simp add: sample_sessions_def failure_def put_record_def prune_def empty_sessions_def mkeep_def mput_def
        started_session_def opening_record_def)
qed

lemma sample_run: "(session_step sample_session_lib sample_codec {})\<^sup>*\<^sup>* empty_sessions sample_sessions"
  unfolding sample_sessions_def by (intro r_into_rtranclp session_step.act sample_trusted) simp

lemma sample_found: "mget (ik_records sample_sessions) sample_sid = Some started_session"
  by (simp add: sample_started mget_def)

lemma sample_inv: "sessions_inv sample_session_lib {} sample_sessions"
  by (rule session_system.reachable_inv [OF fresh_empty sample_run])

lemma sample_document: "validateAuthorised sample_session_lib (fullDocument started_session)"
  using sample_inv sample_found by (auto simp: sessions_inv_def intro: record_ok_document)

lemma sample_alive: "alive sample_call started_session"
  by (simp add: alive_def sample_call_def started_session_def opening_record_def DefaultLimits_def hour_def minute_def second_def)

lemma other_valid: "principal_valid \<lparr>kn_subdomain = \<lambda>_. True, kn_label = \<lambda>_. True\<rparr> other_actor"
  by (simp_all add: principal_valid_def text_ok_def other_actor_def byte_def is_control_def is_format_def format_ranges_def
      is_separator_def)

lemma other_close:
  "perform sample_session_lib sample_codec sample_call other_actor (DoClose sample_sid) sample_sessions = (Some SessNotFound, sample_sessions)"
proof -
  have "authorize sample_session_lib sample_call other_actor False sample_sid = None"
    using other_valid sample_principal_valid(2) by (simp add: authorize_def available_def sample_session_lib_def sample_call_def)
  moreover have "ss_principal started_session \<noteq> other_actor" "second < ss_expires started_session"
    using sample_alive by (simp_all add: started_session_def opening_record_def sample_actor_def other_actor_def alive_def sample_call_def)
  ultimately show ?thesis
    using sample_found
    by (simp add: Close_def mutate_checked_def find_available_def available_def find_session_def failure_def sample_call_def)
qed

subsection \<open>Documents\<close>



text \<open>
  C35. What \<open>Sanitise\<close> makes of a valid document is a valid sanitised document: every alias is the next one or repeats
  the reference it was first given to, and the schema says whether trace references are present.
\<close>

theorem sanitised_document_valid:
  assumes "Sanitise L d = Some x"
  shows "validateSanitised x"
  using sanitised_valid [OF _ assms] assms by (simp add: Sanitise_def split: if_splits)

theorem sanitised_document_valid_witness:
  "\<exists>x. Sanitise sample_session_lib (fullDocument started_session) = Some x \<and> validateSanitised x"
proof -
  obtain x where x: "Sanitise sample_session_lib (fullDocument started_session) = Some x"
    using sample_document by (simp add: Sanitise_def)
  from sanitised_document_valid [OF this] x show ?thesis
    by blast
qed

text \<open>
  C36. The sanitised document of a session does not depend on its private parts: another principal, identifier, set of
  captures, other notes, actors, namespaces and unpublished fields of its traces, and digests renamed without merging
  two of them, give the same document.
\<close>

theorem sanitised_hides_private:
  assumes "inj_on (dn_rename D) (record_digests r)"
  shows "sanitisedDocument (disguised D r) = sanitisedDocument r"
  using assms by (rule disguised_sanitised)

definition referring_session :: session_record where
  "referring_session = started_session\<lparr>ss_entries := map (\<lambda>e. e\<lparr>en_References := [\<lparr>cf_NamespaceUID = ''u1'', cf_Digest = ''aa'',
     cf_SchemaVersion = 2, cf_ObservedAt = 1\<rparr>, \<lparr>cf_NamespaceUID = ''u1'', cf_Digest = ''bb'', cf_SchemaVersion = 2,
     cf_ObservedAt = 2\<rparr>]\<rparr>) (ss_entries started_session)\<rparr>"

definition sample_donors :: donors where
  "sample_donors = \<lparr>dn_record = started_session\<lparr>ss_id := ''other'', ss_principal := other_actor\<rparr>, dn_entry = \<lambda>e. e\<lparr>en_Actor := ''mallory'', en_Note := ''private''\<rparr>, dn_reference = id,
     dn_trace = id, dn_rename = \<lambda>s. CHR ''x'' # s\<rparr>"

theorem sanitised_hides_private_witness:
  "ss_id (disguised sample_donors referring_session) \<noteq> ss_id referring_session \<and>
   sanitisedDocument (disguised sample_donors referring_session) = sanitisedDocument referring_session"
proof -
  have "inj_on (dn_rename sample_donors) (record_digests referring_session)"
    by (simp add: sample_donors_def inj_on_def)
  moreover have "ss_id (disguised sample_donors referring_session) \<noteq> ss_id referring_session"
    by (simp add: disguised_def sample_donors_def referring_session_def started_session_def opening_record_def sample_sid_def
        numeral_eq_Suc)
  ultimately show ?thesis
    using sanitised_hides_private by blast
qed

subsection \<open>Actions\<close>

text \<open>
  C37. An action of one principal leaves every session of another principal as it was, as long as it has not expired:
  neither a correct identifier nor any failure gives access to it.
\<close>

theorem foreign_session_untouched:
  assumes "fresh_sessions s\<^sub>0" and "(session_step L C D)\<^sup>*\<^sup>* s\<^sub>0 s" and "mget (ik_records s) sid = Some r"
    and "ss_principal r \<noteq> p" and "alive call r"
  shows "mget (ik_records (snd (perform L C call p a s))) sid = Some r"
proof -
  have keyed: "keyed s"
    using session_system.reachable_inv [OF assms(1,2)] by (simp add: sessions_inv_def)
  show ?thesis
    by (rule foreign_effect [OF perform_effect [OF keyed] assms(3,4,5) keyed]) (rule prod.collapse [symmetric])
qed

theorem foreign_session_untouched_witness:
  "mget (ik_records (snd (perform sample_session_lib sample_codec sample_call other_actor (DoDelete sample_sid) sample_sessions)))
     sample_sid = Some started_session"
proof -
  have "ss_principal started_session \<noteq> other_actor"
    by (simp add: started_session_def opening_record_def sample_actor_def other_actor_def)
  from foreign_session_untouched [OF fresh_empty sample_run sample_found this sample_alive] show ?thesis .
qed



end
