(* ===== verification/Trace_Request.thy ===== *)
theory Trace_Request
  imports Memory_History Trace_Reference
begin

text \<open>
  What a trace request is made of and who may make one: \<open>trace/specification.go\<close> (bounds, targets, specifications),
  \<open>kubeprincipal/principal.go\<close>, and \<open>request.go\<close>, \<open>selection.go\<close>, \<open>policy.go\<close>, \<open>contracts.go\<close> and
  \<open>preflight.go\<close> of \<open>traceadmission\<close>. The decoders of encoding/json, SHA-256 and the Kubernetes name checks are
  parameters.

  The lemmas: a request that decodes is within the absolute ceilings, and a selection pins one lifetime.
\<close>

subsection \<open>Bounds and targets\<close>

datatype trace_error = TrInvalidRequest | TrUnauthenticated | TrDenied | TrUnavailable | TrCapacity | TrExpired
  | TrTargetChanged | TrNotFound | TrCancelled | TrOther

record trace_bounds =
  tb_Duration :: duration
  tb_Events :: u64
  tb_OutputBytes :: u64
  tb_MapBytes :: u64
  tb_PathBytes :: u64

definition DefaultBounds :: trace_bounds where
  "DefaultBounds = \<lparr>tb_Duration = 30 * second, tb_Events = 10000, tb_OutputBytes = 0x800000, tb_MapBytes = 0x800000,
     tb_PathBytes = 256\<rparr>"

definition bounds_valid :: "trace_bounds \<Rightarrow> bool" where
  "bounds_valid b \<longleftrightarrow>
    \<not> tb_Duration b \<le> 0 \<and> \<not> tb_Duration b > 5 * minute \<and> tb_Events b \<noteq> 0 \<and> \<not> tb_Events b > 100000 \<and>
    tb_OutputBytes b \<noteq> 0 \<and> \<not> tb_OutputBytes b > 0x2000000 \<and> tb_MapBytes b \<noteq> 0 \<and> \<not> tb_MapBytes b > 0x2000000 \<and>
    tb_PathBytes b \<noteq> 0 \<and> \<not> tb_PathBytes b > 512"

definition ValidateIntent :: "string \<Rightarrow> string \<Rightarrow> trace_bounds \<Rightarrow> bool" where
  "ValidateIntent kind paths b \<longleftrightarrow>
    kind \<in> {''files'', ''cache'', ''oom''} \<and> \<not> (paths \<noteq> ''omit'' \<and> paths \<noteq> ''confirmed'') \<and>
    \<not> (paths = ''confirmed'' \<and> kind \<noteq> ''files'') \<and> bounds_valid b"

record target_identity =
  ti_Namespace :: string
  ti_PodName :: string
  ti_PodUID :: string
  ti_ContainerName :: string
  ti_ContainerID :: string
  ti_ContainerStartedAt :: time
  ti_NodeUID :: string
  ti_CgroupID :: u64

text \<open>\<open>strings.Trim(s, cutset) != ""\<close> asks for a byte outside the set; \<open>strings.ContainsAny\<close> for one inside.\<close>

definition only :: "string \<Rightarrow> string \<Rightarrow> bool" where
  "only cutset s \<longleftrightarrow> list_all (\<lambda>c. c \<in> set cutset) s"

definition lower_hex_digits :: string where
  "lower_hex_digits = ''0123456789abcdef''"

definition identity_separators :: string where
  "identity_separators = map char_of [0 :: nat, 13, 10, 9, 32, 47, 92]"

definition ValidateLifetime :: "target_identity \<Rightarrow> bool" where
  "ValidateLifetime t \<longleftrightarrow>
    list_all (\<lambda>v. v \<noteq> '''' \<and> length v \<le> 253 \<and> \<not> list_ex (\<lambda>c. c \<in> set identity_separators) v)
      [ti_Namespace t, ti_PodName t, ti_PodUID t, ti_ContainerName t, ti_NodeUID t] \<and>
    length (ti_PodUID t) \<le> 128 \<and> length (ti_NodeUID t) \<le> 128 \<and>
    length (ti_ContainerID t) = 64 \<and> only lower_hex_digits (ti_ContainerID t) \<and> \<not> is_zero_time (ti_ContainerStartedAt t)"

definition validateTarget :: "target_identity \<Rightarrow> bool" where
  "validateTarget t \<longleftrightarrow> ValidateLifetime t \<and> ti_CgroupID t \<noteq> 0"

record trace_specification =
  tq_kind :: string
  tq_target :: target_identity
  tq_paths :: string
  tq_bounds :: trace_bounds

definition NewSpecification :: "string \<Rightarrow> target_identity \<Rightarrow> string \<Rightarrow> trace_bounds \<Rightarrow> trace_specification option" where
  "NewSpecification kind target paths b =
    (if \<not> ValidateIntent kind paths b \<or> \<not> validateTarget target then None
     else Some \<lparr>tq_kind = kind, tq_target = target, tq_paths = paths, tq_bounds = b\<rparr>)"

definition specification_valid :: "trace_specification \<Rightarrow> bool" where
  "specification_valid s \<longleftrightarrow> NewSpecification (tq_kind s) (tq_target s) (tq_paths s) (tq_bounds s) \<noteq> None"

subsection \<open>Principals\<close>

text \<open>The well-known names of \<open>k8s.io/apiserver/pkg/authentication/user\<close> and the hash are parameters.\<close>

record kube_users =
  ku_anonymous :: string
  ku_all_unauthenticated :: string
  ku_all_authenticated :: string
  ku_sha256 :: "string \<Rightarrow> 256 word"

record user_info =
  ui_Name :: string
  ui_UID :: string
  ui_Groups :: "string list"
  ui_Extra :: "(string, string list) gomap"

definition maxPrincipalBytes :: nat where
  "maxPrincipalBytes = 16 * 1024"

definition identityText :: "string \<Rightarrow> bool" where
  "identityText s = (case utf8_runes s of None \<Rightarrow> False | Some rs \<Rightarrow> \<not> list_ex (\<lambda>r. r < 32 \<or> r = 127) rs)"

text \<open>The loops over the groups and the extra claims; they return the number of bytes, or the early return.\<close>

fun principal_groups :: "kube_users \<Rightarrow> bool \<Rightarrow> nat \<Rightarrow> string list \<Rightarrow> (bool \<times> nat) option" where
  "principal_groups K authenticated bytes [] = Some (authenticated, bytes)"
| "principal_groups K authenticated bytes (g # gs) =
    (if g = ku_all_unauthenticated K \<or> length g > 1024 \<or> \<not> identityText g then None
     else principal_groups K (authenticated \<or> g = ku_all_authenticated K) (bytes + length g) gs)"

fun claim_values :: "nat \<Rightarrow> string list \<Rightarrow> nat option" where
  "claim_values bytes [] = Some bytes"
| "claim_values bytes (v # vs) = (if length v > 1024 \<or> \<not> identityText v then None else claim_values (bytes + length v) vs)"

fun principal_claims :: "nat \<Rightarrow> (string \<times> string list) list \<Rightarrow> nat option" where
  "principal_claims bytes [] = Some bytes"
| "principal_claims bytes ((name, values) # claims) =
    (if length name > 1024 \<or> \<not> identityText name \<or> length values > 32 then None
     else case claim_values (bytes + length name) values of
         None \<Rightarrow> None
       | Some bytes' \<Rightarrow> if bytes' > maxPrincipalBytes then None else principal_claims bytes' claims)"

text \<open>The copy of the principal is the principal; the key is the hash of its name and UID. \<open>None\<close> is \<open>nil\<close>.\<close>

definition SnapshotPrincipal :: "kube_users \<Rightarrow> user_info option \<Rightarrow> 256 word option" where
  "SnapshotPrincipal K info =
    (case info of None \<Rightarrow> None | Some u \<Rightarrow>
      (if ui_Name u = '''' \<or> ui_Name u = ku_anonymous K \<or> length (ui_Name u) > 1024 \<or> length (ui_UID u) > 1024 then None
       else if length (ui_Groups u) > 128 \<or> mlen (ui_Extra u) > 32 then None
       else if \<not> identityText (ui_Name u) \<or> \<not> identityText (ui_UID u) then None
       else case principal_groups K False (length (ui_Name u) + length (ui_UID u)) (ui_Groups u) of
           None \<Rightarrow> None
         | Some (authenticated, bytes) \<Rightarrow>
             if \<not> authenticated then None
             else (case principal_claims bytes (ui_Extra u) of
                 None \<Rightarrow> None
               | Some bytes' \<Rightarrow>
                   if bytes' > maxPrincipalBytes then None
                   else Some (ku_sha256 K (ui_Name u @ [char_of (0 :: nat)] @ ui_UID u)))))"

subsection \<open>Requests\<close>

record selected_lifetime =
  sv_podUID :: string
  sv_containerID :: string
  sv_nodeName :: string
  sv_startedAt :: time

record trace_request =
  tr_schemaVersion :: int
  tr_namespace :: string
  tr_pod :: string
  tr_container :: string
  tr_kind :: string
  tr_paths :: string
  tr_bounds :: trace_bounds
  tr_selection :: "selected_lifetime option"

record trace_workload =
  tw_Target :: target_identity
  tw_NodeName :: string
  tw_QoS :: string

record request_body =
  rb_SchemaVersion :: int
  rb_ContractVersion :: "16 word option"
  rb_Pod :: string
  rb_Container :: string
  rb_Kind :: string
  rb_RawPaths :: bool
  rb_DurationSeconds :: "u64 option"
  rb_MaxEvents :: "u64 option"
  rb_MaxOutputBytes :: "u64 option"
  rb_MaxMapBytes :: "u64 option"
  rb_MaxPathBytes :: "u64 option"
  rb_ExpectedPodUID :: "string option"
  rb_ExpectedContainerID :: "string option"
  rb_ExpectedContainerStartedAt :: "time option"
  rb_ExpectedNodeName :: "string option"

definition MaxRequestBytes :: nat where
  "MaxRequestBytes = 4096"

definition RequestSchema :: int where
  "RequestSchema = 3"

definition uid_characters :: string where
  "uid_characters = ''abcdefghijklmnopqrstuvwxyzABCDEFGHIJKLMNOPQRSTUVWXYZ0123456789-_.''"

fun dot_labels :: "string \<Rightarrow> string list" where
  "dot_labels [] = [[]]"
| "dot_labels (c # s) =
    (if c = CHR ''.'' then [] # dot_labels s else case dot_labels s of [] \<Rightarrow> [[c]] | p # ps \<Rightarrow> (c # p) # ps)"

text \<open>\<open>None\<close> is the error, \<open>Some None\<close> a request without a selection.\<close>

definition decodeSelection :: "kube_names \<Rightarrow> request_body \<Rightarrow> selected_lifetime option option" where
  "decodeSelection N b =
    (if (if rb_SchemaVersion b = RequestSchema then rb_ContractVersion b \<noteq> Some 1 else rb_ContractVersion b \<noteq> None) then None
     else if rb_SchemaVersion b = 1 \<and> rb_ExpectedPodUID b = None \<and> rb_ExpectedContainerID b = None \<and>
        rb_ExpectedContainerStartedAt b = None \<and> rb_ExpectedNodeName b = None then Some None
     else if rb_SchemaVersion b \<noteq> 2 \<and> rb_SchemaVersion b \<noteq> RequestSchema then None
     else case (rb_ExpectedPodUID b, rb_ExpectedContainerID b, rb_ExpectedContainerStartedAt b, rb_ExpectedNodeName b) of
         (Some uid, Some container, Some started, Some node) \<Rightarrow>
           if length uid = 0 \<or> length uid > 128 \<or> \<not> only uid_characters uid \<or> length container \<noteq> 64 \<or>
              \<not> only lower_hex_digits container \<or> is_zero_time started \<or> \<not> kn_subdomain N node then None
           else if list_ex (\<lambda>l. length l > 63) (dot_labels node) then None
           else Some (Some \<lparr>sv_podUID = uid, sv_containerID = container, sv_nodeName = node, sv_startedAt = started\<rparr>)
       | _ \<Rightarrow> None)"

definition matchesSelection :: "trace_request \<Rightarrow> trace_workload \<Rightarrow> bool" where
  "matchesSelection r w =
    (case tr_selection r of
       None \<Rightarrow> True
     | Some s \<Rightarrow> sv_podUID s = ti_PodUID (tw_Target w) \<and> sv_containerID s = ti_ContainerID (tw_Target w) \<and>
         sv_startedAt s = ti_ContainerStartedAt (tw_Target w) \<and> sv_nodeName s = tw_NodeName w)"

text \<open>
  What the decoder of encoding/json reads of the data: the first token, the members as the token of the name (\<open>None\<close>
  if it is an error or no string) with the raw value (\<open>None\<close> if it does not decode), whether the object is closed and
  nothing follows, and the body decoded with unknown fields refused.
\<close>

record request_json =
  rj_object :: bool
  rj_members :: "(string option \<times> string option) list"
  rj_closed :: bool
  rj_body :: "request_body option"

definition request_names :: "string list" where
  "request_names = [''schemaVersion'', ''contractVersion'', ''pod'', ''container'', ''kind'', ''rawPaths'', ''durationSeconds'',
     ''maxEvents'', ''maxOutputBytes'', ''maxMapBytes'', ''maxPathBytes'', ''expectedPodUID'', ''expectedContainerID'',
     ''expectedContainerStartedAt'', ''expectedNodeName'']"

fun unique_members :: "string list \<Rightarrow> (string option \<times> string option) list \<Rightarrow> bool" where
  "unique_members names [] = True"
| "unique_members names ((key, raw) # ms) =
    (case key of
       None \<Rightarrow> False
     | Some name \<Rightarrow> name \<notin> set names \<and> name \<in> set request_names \<and> raw \<noteq> None \<and> raw \<noteq> Some ''null'' \<and>
         unique_members (name # names) ms)"

definition uniqueObject :: "request_json \<Rightarrow> bool" where
  "uniqueObject j \<longleftrightarrow> rj_object j \<and> unique_members [] (rj_members j) \<and> rj_closed j"

definition setBound :: "u64 \<Rightarrow> u64 option \<Rightarrow> u64" where
  "setBound target v = (case v of None \<Rightarrow> target | Some n \<Rightarrow> n)"

definition requested_bounds :: "request_body \<Rightarrow> trace_bounds" where
  "requested_bounds b =
    \<lparr>tb_Duration = (case rb_DurationSeconds b of None \<Rightarrow> tb_Duration DefaultBounds | Some n \<Rightarrow> uint n * second),
     tb_Events = setBound (tb_Events DefaultBounds) (rb_MaxEvents b),
     tb_OutputBytes = setBound (tb_OutputBytes DefaultBounds) (rb_MaxOutputBytes b),
     tb_MapBytes = setBound (tb_MapBytes DefaultBounds) (rb_MaxMapBytes b),
     tb_PathBytes = setBound (tb_PathBytes DefaultBounds) (rb_MaxPathBytes b)\<rparr>"

text \<open>\<open>reader\<close> is what the reader would deliver, \<open>None\<close> for a \<open>nil\<close> reader or an error; it is read up to the limit.\<close>

definition DecodeRequest ::
  "kube_names \<Rightarrow> (string \<Rightarrow> request_json) \<Rightarrow> string \<Rightarrow> string option \<Rightarrow> trace_request option"
where
  "DecodeRequest N json namespace reader =
    (if \<not> kn_label N namespace then None
     else case reader of None \<Rightarrow> None | Some stream \<Rightarrow>
      (let data = take (MaxRequestBytes + 1) stream
       in if length data > MaxRequestBytes \<or> \<not> utf8_valid data \<or> \<not> uniqueObject (json data) then None
          else case rj_body (json data) of None \<Rightarrow> None | Some b \<Rightarrow>
            if \<not> kn_subdomain N (rb_Pod b) \<or> \<not> kn_label N (rb_Container b) then None
            else case decodeSelection N b of None \<Rightarrow> None | Some selection \<Rightarrow>
              if rb_Kind b \<notin> {''files'', ''cache'', ''oom''} then None
              else if rb_RawPaths b \<and> rb_Kind b \<noteq> ''files'' then None
              else if (case rb_DurationSeconds b of None \<Rightarrow> False | Some n \<Rightarrow> n = 0 \<or> n > 300) then None
              else if \<not> bounds_valid (requested_bounds b) then None
              else Some \<lparr>tr_schemaVersion = rb_SchemaVersion b, tr_namespace = namespace, tr_pod = rb_Pod b,
                tr_container = rb_Container b, tr_kind = rb_Kind b,
                tr_paths = (if rb_RawPaths b then ''confirmed'' else ''omit''), tr_bounds = requested_bounds b,
                tr_selection = selection\<rparr>))"

subsection \<open>The policy of the installation\<close>

record trace_policy =
  tp_EngineDigest :: string
  tp_MaxBounds :: trace_bounds
  tp_Paths :: string
  tp_PerPrincipal :: int
  tp_PerNamespace :: int
  tp_PerNode :: int
  tp_Global :: int
  tp_PendingTTL :: duration

definition BaselineEngineDigest :: string where
  "BaselineEngineDigest = ''sha256:bdb8f3ee121d94736570f6554b07d86022d887db9d6e9b9da20f7db31e32a7a1''"

definition DefaultPolicy :: trace_policy where
  "DefaultPolicy = \<lparr>tp_EngineDigest = BaselineEngineDigest, tp_MaxBounds = DefaultBounds, tp_Paths = ''omit'',
     tp_PerPrincipal = 1, tp_PerNamespace = 2, tp_PerNode = 1, tp_Global = 32, tp_PendingTTL = 15 * second\<rparr>"

definition sha256_text :: "string \<Rightarrow> bool" where
  "sha256_text s \<longleftrightarrow> length s = 71 \<and> take 7 s = ''sha256:'' \<and> only lower_hex_digits (drop 7 s)"

definition policy_valid :: "trace_policy \<Rightarrow> bool" where
  "policy_valid p \<longleftrightarrow>
    sha256_text (tp_EngineDigest p) \<and> bounds_valid (tp_MaxBounds p) \<and>
    \<not> (tp_Paths p \<noteq> ''omit'' \<and> tp_Paths p \<noteq> ''confirmed'') \<and>
    1 \<le> tp_PerPrincipal p \<and> tp_PerPrincipal p \<le> 2 \<and> 1 \<le> tp_PerNamespace p \<and> tp_PerNamespace p \<le> 4 \<and>
    1 \<le> tp_PerNode p \<and> tp_PerNode p \<le> 2 \<and> 1 \<le> tp_Global p \<and> tp_Global p \<le> 64 \<and>
    \<not> tp_PendingTTL p \<le> 0 \<and> \<not> tp_PendingTTL p > 15 * second"

definition permits :: "trace_policy \<Rightarrow> trace_request \<Rightarrow> trace_error option" where
  "permits p r =
    (if tr_namespace r = '''' then Some TrInvalidRequest
     else if tb_Duration (tr_bounds r) > tb_Duration (tp_MaxBounds p) \<or> tb_Events (tr_bounds r) > tb_Events (tp_MaxBounds p) \<or>
        tb_OutputBytes (tr_bounds r) > tb_OutputBytes (tp_MaxBounds p) \<or> tb_MapBytes (tr_bounds r) > tb_MapBytes (tp_MaxBounds p) \<or>
        tb_PathBytes (tr_bounds r) > tb_PathBytes (tp_MaxBounds p) then Some TrInvalidRequest
     else if tr_paths r = ''confirmed'' \<and> tp_Paths p \<noteq> ''confirmed'' then Some TrDenied
     else None)"

subsection \<open>Checks of a workload\<close>

definition validateWorkload :: "trace_request \<Rightarrow> trace_workload \<Rightarrow> trace_error option" where
  "validateWorkload r w =
    (if \<not> ValidateLifetime (tw_Target w) \<or> ti_CgroupID (tw_Target w) \<noteq> 0 \<or> ti_Namespace (tw_Target w) \<noteq> tr_namespace r \<or>
        ti_PodName (tw_Target w) \<noteq> tr_pod r \<or> ti_ContainerName (tw_Target w) \<noteq> tr_container r \<or> tw_NodeName w = '''' \<or>
        \<not> matchesSelection r w then Some TrTargetChanged
     else if tw_QoS w \<notin> {''Guaranteed'', ''Burstable'', ''BestEffort''} then Some TrUnavailable
     else None)"

definition sameLifetime :: "target_identity \<Rightarrow> target_identity \<Rightarrow> bool" where
  "sameLifetime a b \<longleftrightarrow> ti_Namespace a = ti_Namespace b \<and> ti_PodName a = ti_PodName b \<and> ti_PodUID a = ti_PodUID b \<and>
     ti_ContainerName a = ti_ContainerName b \<and> ti_ContainerID a = ti_ContainerID b \<and>
     ti_ContainerStartedAt a = ti_ContainerStartedAt b \<and> ti_NodeUID a = ti_NodeUID b"

definition safeDependencyError :: "trace_error \<Rightarrow> trace_error" where
  "safeDependencyError e = (if e \<in> {TrDenied, TrCapacity, TrExpired, TrTargetChanged, TrNotFound} then e else TrUnavailable)"

text \<open>The node's answer to a preflight; whether its baseline encodes and is supported is a parameter.\<close>

record node_preflight =
  np_Baseline :: bool
  np_EngineDigest :: string
  np_ProgrammeDigest :: string
  np_StreamVersion :: int

definition preflight_valid :: "node_preflight \<Rightarrow> string \<Rightarrow> bool" where
  "preflight_valid p kind \<longleftrightarrow> np_Baseline p \<and> AllowsKind (np_StreamVersion p) kind \<and>
     list_all sha256_text [np_EngineDigest p, np_ProgrammeDigest p]"

subsection \<open>What a decoded request holds\<close>

lemma DecodeRequest_bounds: "DecodeRequest N json namespace reader = Some r \<Longrightarrow> bounds_valid (tr_bounds r)"
  by (auto simp: DecodeRequest_def Let_def split: option.splits if_splits)

lemma DecodeRequest_intent:
  "DecodeRequest N json namespace reader = Some r \<Longrightarrow> ValidateIntent (tr_kind r) (tr_paths r) (tr_bounds r)"
  by (auto simp: DecodeRequest_def ValidateIntent_def Let_def split: option.splits if_splits)

text \<open>A request with a selection is admitted for one container lifetime only.\<close>

lemma selection_pins:
  assumes "validateWorkload r w = None" and "validateWorkload r v = None" and "tr_selection r \<noteq> None"
    and "ti_NodeUID (tw_Target w) = ti_NodeUID (tw_Target v)"
  shows "sameLifetime (tw_Target w) (tw_Target v)"
  using assms by (auto simp: validateWorkload_def matchesSelection_def sameLifetime_def split: if_splits)

text \<open>A target of the same lifetime as a validated one lacks only its cgroup.\<close>

lemma sameLifetime_valid: "sameLifetime a b \<Longrightarrow> ValidateLifetime b \<Longrightarrow> ValidateLifetime a"
  by (simp add: sameLifetime_def ValidateLifetime_def)

lemma NewSpecification_None_iff:
  "NewSpecification kind target paths b = None \<longleftrightarrow> \<not> (ValidateIntent kind paths b \<and> validateTarget target)"
  by (simp add: NewSpecification_def)

lemma NewSpecification_idempotent: "NewSpecification kind target paths b = Some s \<Longrightarrow> specification_valid s"
  by (auto simp: NewSpecification_def specification_valid_def split: if_splits)

end
