(* ===== verification/Trace_Manager.thy ===== *)
theory Trace_Manager
  imports Trace_Request
begin

text \<open>
  The manager of trace admissions, \<open>traceadmission/manager.go\<close>, \<open>reservations.go\<close>, \<open>lease.go\<close>, \<open>operations.go\<close>,
  \<open>cleanup.go\<close>, \<open>expiry_schedule.go\<close> and the audit gate of \<open>audit.go\<close>: its state, and one function per critical
  section of its mutex. The operations that interleave these sections are in \<open>Trace_Admission\<close>.

  The code shares entries by pointer and looks them up by identifier, and compares the two. Pointers are indices into
  \<open>tm_objects\<close>; \<open>tm_entries\<close> maps identifiers to them. An entry that has left the map keeps its object, since the
  operations in flight still read it.
\<close>

subsection \<open>State\<close>

datatype trace_stage = StPending | StAdmitted | StActive | StClosing

record trace_binding =
  bd_Target :: target_identity
  bd_ProfileDigest :: string

record trace_admission =
  td_state :: string
  td_id :: string
  td_specification :: trace_specification
  td_engineDigest :: string
  td_expiresAt :: time

text \<open>
  \<open>tn_cause\<close> is \<open>closeCause\<close>; \<open>tn_terminal\<close> is the result of the \<open>sync.Once\<close> of the audit lifecycle once it has run (whether
  it failed). The result is \<open>None\<close> for the zero value, whose identifier is empty. Contexts and timers belong to the Go
  runtime: \<open>cancelActive\<close> changes a context only, and what a context says is a reading of the operation that asks.
\<close>

record trace_entry =
  tn_id :: string
  tn_owner :: "256 word"
  tn_request :: trace_request
  tn_nodeUID :: string
  tn_expires :: time
  tn_stage :: trace_stage
  tn_workload :: "trace_workload option"
  tn_binding :: "trace_binding option"
  tn_result :: "trace_admission option"
  tn_initializing :: bool
  tn_cleanupRunning :: bool
  tn_retryCleanup :: time
  tn_consumerRunning :: bool

  tn_cause :: "trace_error option"
  tn_terminal :: "bool option"

record trace_manager =
  tm_policy :: trace_policy
  tm_objects :: "trace_entry list"
  tm_entries :: "(string, nat) gomap"
  tm_auditFailed :: bool
  tm_inflight :: nat
  tm_stopped :: bool
  tm_closed :: bool
  tm_parents :: "nat list"
  tm_shutdown :: "trace_error option option"

definition object_at :: "trace_manager \<Rightarrow> nat \<Rightarrow> trace_entry" where
  "object_at m k = tm_objects m ! k"

definition edit :: "nat \<Rightarrow> (trace_entry \<Rightarrow> trace_entry) \<Rightarrow> trace_manager \<Rightarrow> trace_manager" where
  "edit k f m = m\<lparr>tm_objects := (tm_objects m)[k := f (object_at m k)]\<rparr>"

text \<open>\<open>m.entries[e.id] == e\<close>.\<close>

definition registered :: "trace_manager \<Rightarrow> nat \<Rightarrow> bool" where
  "registered m k \<longleftrightarrow> mget (tm_entries m) (tn_id (object_at m k)) = Some k"

text \<open>
  \<open>NewManager\<close> with its dependencies in place and a context that is not done, and whether the configuration was audited.
\<close>

definition NewManager :: "trace_policy \<Rightarrow> bool \<Rightarrow> trace_manager option" where
  "NewManager p audited =
    (if \<not> policy_valid p \<or> \<not> audited then None
     else Some \<lparr>tm_policy = p, tm_objects = [], tm_entries = [], tm_auditFailed = False, tm_inflight = 0, tm_stopped = False,
       tm_closed = False, tm_parents = [], tm_shutdown = None\<rparr>)"

subsection \<open>The audit gate\<close>

text \<open>
  \<open>emitAudit\<close>: once a record could not be built or delivered, nothing is audited any more. The contents of the records
  belong to package \<open>traceaudit\<close>; \<open>delivered\<close> is whether building and delivering this one succeeds.
\<close>

definition AuditHealthy :: "trace_manager \<Rightarrow> trace_error option" where
  "AuditHealthy m = (if tm_auditFailed m then Some TrUnavailable else None)"

definition emitAudit :: "bool \<Rightarrow> trace_manager \<Rightarrow> trace_error option \<times> trace_manager" where
  "emitAudit delivered m =
    (if AuditHealthy m \<noteq> None then (Some TrUnavailable, m)
     else if \<not> delivered then (Some TrUnavailable, m\<lparr>tm_auditFailed := True\<rparr>)
     else (None, m))"

text \<open>\<open>recordTerminal\<close>: at most one terminal record of an entry.\<close>

definition recordTerminal :: "bool \<Rightarrow> nat \<Rightarrow> trace_manager \<Rightarrow> trace_error option \<times> trace_manager" where
  "recordTerminal delivered k m =
    (case tn_terminal (object_at m k) of
       Some failed \<Rightarrow> (if failed then Some TrUnavailable else None, m)
     | None \<Rightarrow>
        (let (e, m1) = emitAudit delivered m
         in (e, edit k (\<lambda>x. x\<lparr>tn_terminal := Some (e \<noteq> None)\<rparr>) m1)))"

subsection \<open>Operations in flight\<close>

definition beginOperation :: "trace_manager \<Rightarrow> trace_manager option" where
  "beginOperation m = (if tm_closed m \<or> tm_stopped m then None else Some (m\<lparr>tm_inflight := Suc (tm_inflight m)\<rparr>))"

definition endOperation :: "trace_manager \<Rightarrow> trace_manager" where
  "endOperation m = m\<lparr>tm_inflight := tm_inflight m - 1\<rparr>"

subsection \<open>Reservations\<close>

definition live_objects :: "trace_manager \<Rightarrow> trace_entry list" where
  "live_objects m = map (\<lambda>(key, k). object_at m k) (tm_entries m)"

definition held :: "(trace_entry \<Rightarrow> bool) \<Rightarrow> trace_manager \<Rightarrow> int" where
  "held P m = int (length (filter P (live_objects m)))"

definition new_entry :: "string \<Rightarrow> 256 word \<Rightarrow> trace_request \<Rightarrow> time \<Rightarrow> trace_entry" where
  "new_entry key owner r expires = \<lparr>tn_id = key, tn_owner = owner, tn_request = r, tn_nodeUID = '''', tn_expires = expires,
     tn_stage = StPending, tn_workload = None, tn_binding = None, tn_result = None, tn_initializing = True,
     tn_cleanupRunning = False, tn_retryCleanup = 0, tn_consumerRunning = False, tn_cause = None, tn_terminal = None\<rparr>"

text \<open>\<open>fresh\<close> is the random identifier, \<open>None\<close> if the source of randomness fails.\<close>

definition reserve :: "string option \<Rightarrow> time \<Rightarrow> 256 word \<Rightarrow> trace_request \<Rightarrow> trace_manager \<Rightarrow> (trace_error + nat) \<times> trace_manager" where
  "reserve fresh now owner r m =
    (case fresh of
       None \<Rightarrow> (Inl TrUnavailable, m)
     | Some key \<Rightarrow>
         if tm_closed m \<or> tm_stopped m then (Inl TrUnavailable, m)
         else if int (mlen (tm_entries m)) \<ge> tp_Global (tm_policy m) \<or>
            held (\<lambda>e. tn_owner e = owner) m \<ge> tp_PerPrincipal (tm_policy m) \<or>
            held (\<lambda>e. tr_namespace (tn_request e) = tr_namespace r) m \<ge> tp_PerNamespace (tm_policy m) then (Inl TrCapacity, m)
         else if mget (tm_entries m) key \<noteq> None then (Inl TrUnavailable, m)
         else (Inr (length (tm_objects m)),
           m\<lparr>tm_objects := tm_objects m @ [new_entry key owner r (now + tp_PendingTTL (tm_policy m))],
             tm_entries := mput key (length (tm_objects m)) (tm_entries m)\<rparr>))"

definition assignNode :: "time \<Rightarrow> nat \<Rightarrow> string \<Rightarrow> trace_manager \<Rightarrow> trace_error option \<times> trace_manager" where
  "assignNode now k nodeUID m =
    (if tm_closed m \<or> \<not> registered m k \<or> \<not> now < tn_expires (object_at m k) then (Some TrExpired, m)
     else if held (\<lambda>e. tn_nodeUID e = nodeUID) m \<ge> tp_PerNode (tm_policy m) then (Some TrCapacity, m)
     else (None, edit k (\<lambda>e. e\<lparr>tn_nodeUID := nodeUID\<rparr>) m))"

text \<open>The last section of \<open>Admit\<close>: the entry becomes an admission, unless it is too late.\<close>

definition admission_of :: "trace_manager \<Rightarrow> nat \<Rightarrow> trace_specification \<Rightarrow> trace_admission" where
  "admission_of m k spec = \<lparr>td_state = ''admitted'', td_id = tn_id (object_at m k), td_specification = spec,
     td_engineDigest = tp_EngineDigest (tm_policy m), td_expiresAt = tn_expires (object_at m k)\<rparr>"

definition commit_admission ::
  "time \<Rightarrow> nat \<Rightarrow> trace_workload \<Rightarrow> trace_binding \<Rightarrow> trace_specification \<Rightarrow> trace_manager \<Rightarrow> trace_error option \<times> trace_manager"
where
  "commit_admission now k w b spec m =
    (if tm_closed m \<or> \<not> registered m k \<or> \<not> now < tn_expires (object_at m k) then (Some TrExpired, m)
     else (None, edit k (\<lambda>e. e\<lparr>tn_workload := Some w, tn_binding := Some b, tn_result := Some (admission_of m k spec),
       tn_stage := StAdmitted\<rparr>) m))"

subsection \<open>Closing\<close>

definition closing_entry :: "trace_error option \<Rightarrow> trace_entry \<Rightarrow> trace_entry" where
  "closing_entry cause e = e\<lparr>tn_cause := (if tn_stage e \<noteq> StClosing then cause else tn_cause e), tn_stage := StClosing\<rparr>"

definition markClosing :: "nat \<Rightarrow> trace_error option \<Rightarrow> trace_manager \<Rightarrow> trace_manager" where
  "markClosing k cause m = edit k (closing_entry cause) m"

text \<open>\<open>finishAdmission\<close>: the error of the admission and whether its entry is to be closed.\<close>

definition finishAdmission :: "time \<Rightarrow> nat \<Rightarrow> trace_error option \<Rightarrow> trace_manager \<Rightarrow> (trace_error option \<times> bool) \<times> trace_manager" where
  "finishAdmission now k e m =
    (let m1 = edit k (\<lambda>x. x\<lparr>tn_initializing := False\<rparr>) m; x = object_at m1 k;
         e' = (if e = None \<and> (tm_closed m \<or> \<not> registered m k \<or> tn_stage x \<noteq> StAdmitted \<or> \<not> now < tn_expires x)
               then Some TrExpired else e)
     in ((e', e' \<noteq> None \<or> tn_stage x = StClosing \<or> tm_closed m), m1))"

text \<open>The first section of \<open>closeEntry\<close>: what it finds decides how it goes on.\<close>

datatype closing_turn = TurnGone | TurnConsumer | TurnCleaning | TurnBusy | TurnClean

definition close_turn :: "nat \<Rightarrow> trace_manager \<Rightarrow> closing_turn" where
  "close_turn k m =
    (let e = object_at m k
     in if \<not> registered m k then TurnGone
        else if tn_consumerRunning e then TurnConsumer
        else if tn_cleanupRunning e then TurnCleaning
        else if tn_initializing e then TurnBusy
        else TurnClean)"

definition start_cleanup :: "nat \<Rightarrow> trace_manager \<Rightarrow> trace_manager" where
  "start_cleanup k m = edit k (\<lambda>e. e\<lparr>tn_cleanupRunning := True\<rparr>) m"

text \<open>The section after \<open>binding.Close\<close>, with its error.\<close>

definition end_cleanup :: "time \<Rightarrow> nat \<Rightarrow> trace_error option \<Rightarrow> trace_manager \<Rightarrow> trace_manager" where
  "end_cleanup now k failed m =
    (let m1 = edit k (\<lambda>e. e\<lparr>tn_cleanupRunning := False\<rparr>) m
     in if failed = None then m1\<lparr>tm_entries := mdel (tn_id (object_at m k)) (tm_entries m1)\<rparr>
        else edit k (\<lambda>e. e\<lparr>tn_retryCleanup := now + second\<rparr>) m1)"

text \<open>\<open>sweep\<close>: what is expired starts closing; the entries that can be closed now are returned.\<close>

definition sweep_marked :: "bool \<Rightarrow> time \<Rightarrow> trace_entry \<Rightarrow> trace_entry" where
  "sweep_marked shutdown now e =
    (if shutdown \<or> \<not> now < tn_expires e then closing_entry (Some TrExpired) e else e)"

definition sweep_ready :: "bool \<Rightarrow> time \<Rightarrow> trace_entry \<Rightarrow> bool" where
  "sweep_ready shutdown now e \<longleftrightarrow> tn_stage e = StClosing \<and> \<not> tn_initializing e \<and> \<not> tn_cleanupRunning e \<and>
     (shutdown \<or> \<not> now < tn_retryCleanup e)"

definition edit_live :: "(trace_entry \<Rightarrow> trace_entry) \<Rightarrow> trace_manager \<Rightarrow> trace_manager" where
  "edit_live f m = fold (\<lambda>k. edit k f) (map snd (tm_entries m)) m"

definition sweep :: "bool \<Rightarrow> time \<Rightarrow> trace_manager \<Rightarrow> nat list \<times> trace_manager" where
  "sweep shutdown now m =
    (let m1 = edit_live (sweep_marked shutdown now) (if shutdown then m\<lparr>tm_closed := True\<rparr> else m)
     in (filter (\<lambda>k. sweep_ready shutdown now (object_at m1 k)) (map snd (tm_entries m1)), m1))"

text \<open>The section of \<open>expiryLoop\<close> that begins the shutdown.\<close>

definition begin_shutdown :: "trace_manager \<Rightarrow> trace_manager" where
  "begin_shutdown m = edit_live (closing_entry (Some TrCancelled)) (m\<lparr>tm_closed := True\<rparr>)"

definition end_shutdown :: "trace_error option \<Rightarrow> trace_manager \<Rightarrow> trace_manager" where
  "end_shutdown failed m = m\<lparr>tm_shutdown := Some (if mlen (tm_entries m) \<noteq> 0 then Some TrUnavailable else failed)\<rparr>"

text \<open>\<open>nextExpiry\<close>; \<open>None\<close> is the zero time, at which the timer stays stopped.\<close>

definition wake_time :: "time \<Rightarrow> trace_entry \<Rightarrow> time" where
  "wake_time now e =
    (if tn_stage e = StClosing then (if \<not> tn_retryCleanup e > now then now + 100 * millisecond else tn_retryCleanup e)
     else tn_expires e)"

definition nextExpiry :: "time \<Rightarrow> trace_manager \<Rightarrow> time option" where
  "nextExpiry now m =
    fold (\<lambda>e best. case best of None \<Rightarrow> Some (wake_time now e)
      | Some t \<Rightarrow> if wake_time now e < t then Some (wake_time now e) else Some t) (live_objects m) None"

subsection \<open>Reading and claiming\<close>

definition owned_entry :: "time \<Rightarrow> 256 word \<Rightarrow> string \<Rightarrow> string \<Rightarrow> trace_manager \<Rightarrow> trace_error + nat" where
  "owned_entry now owner namespace key m =
    (case mget (tm_entries m) key of
       None \<Rightarrow> Inl TrNotFound
     | Some k \<Rightarrow>
        (let e = object_at m k
         in if tn_owner e \<noteq> owner \<or> tr_namespace (tn_request e) \<noteq> namespace \<or> (tn_stage e \<noteq> StAdmitted \<and> tn_stage e \<noteq> StActive) then
              Inl TrNotFound
            else if tm_closed m \<or> \<not> now < tn_expires e then Inl TrExpired
            else Inr k))"

text \<open>\<open>discardOwned\<close>: whether the identifier names an entry of this owner and namespace.\<close>

definition discard_owned :: "256 word \<Rightarrow> string \<Rightarrow> string \<Rightarrow> trace_manager \<Rightarrow> bool" where
  "discard_owned owner namespace key m =
    (case mget (tm_entries m) key of
       None \<Rightarrow> False
     | Some k \<Rightarrow> tn_owner (object_at m k) = owner \<and> tr_namespace (tn_request (object_at m k)) = namespace)"

text \<open>The last section of \<open>Get\<close>.\<close>

definition admission_shown :: "trace_entry \<Rightarrow> trace_admission option" where
  "admission_shown e =
    (if tn_stage e = StActive
     then map_option (\<lambda>a. a\<lparr>td_state := ''active'', td_expiresAt := tn_expires e\<rparr>) (tn_result e) else tn_result e)"

definition get_final :: "time \<Rightarrow> string \<Rightarrow> nat \<Rightarrow> trace_manager \<Rightarrow> trace_error + trace_admission option" where
  "get_final now key k m =
    (let e = object_at m k
     in if mget (tm_entries m) key \<noteq> Some k \<or> (tn_stage e \<noteq> StAdmitted \<and> tn_stage e \<noteq> StActive) \<or> \<not> now < tn_expires e then
          Inl TrExpired
        else Inr (admission_shown e))"

text \<open>The section of \<open>Claim\<close>; \<open>cancelled\<close> is whether the context of the operation is done.\<close>

definition claim_commit ::
  "bool \<Rightarrow> time \<Rightarrow> 256 word \<Rightarrow> string \<Rightarrow> string \<Rightarrow> duration \<Rightarrow> trace_manager \<Rightarrow> (trace_error + nat) \<times> trace_manager"
where
  "claim_commit cancelled now owner namespace key lasting m =
    (case mget (tm_entries m) key of
       None \<Rightarrow> (Inl TrNotFound, m)
     | Some k \<Rightarrow>
        (let e = object_at m k
         in if tn_owner e \<noteq> owner \<or> tr_namespace (tn_request e) \<noteq> namespace then (Inl TrNotFound, m)
            else if tn_stage e \<noteq> StAdmitted \<or> tn_initializing e then (Inl TrCapacity, m)
            else if cancelled \<or> \<not> now < tn_expires e then (Inl TrExpired, m)
            else (Inr k, (edit k (\<lambda>e. e\<lparr>tn_expires := now + lasting, tn_stage := StActive, tn_consumerRunning := True\<rparr>) m)
                \<lparr>tm_parents := k # tm_parents m\<rparr>)))"

definition endConsumer :: "string \<Rightarrow> trace_manager \<Rightarrow> trace_manager" where
  "endConsumer key m =
    (case mget (tm_entries m) key of
       None \<Rightarrow> m
     | Some k \<Rightarrow> if tn_consumerRunning (object_at m k) then edit k (\<lambda>e. e\<lparr>tn_consumerRunning := False\<rparr>) m else m)"



definition safeLeaseCause :: "trace_error \<Rightarrow> trace_error" where
  "safeLeaseCause e = (if e = TrCancelled then TrCancelled else safeDependencyError e)"

text \<open>\<open>terminationFromCause\<close>.\<close>

definition terminationFromCause :: "trace_error option \<Rightarrow> string" where
  "terminationFromCause cause =
    (case cause of
       Some TrExpired \<Rightarrow> ''expired'' | Some TrDenied \<Rightarrow> ''authorisation_lost'' | Some TrTargetChanged \<Rightarrow> ''target_changed''
     | Some TrCancelled \<Rightarrow> ''cancelled'' | _ \<Rightarrow> ''engine_failed'')"

end
