(* ===== verification/Trace_Admission.thy ===== *)
theory Trace_Admission
  imports Trace_Manager
begin

text \<open>
  The operations of the manager of trace admissions, which release its mutex while they call the authoriser, the
  resolver, the node and the audit. An operation is a stack of frames, each at the beginning of a critical section or
  of a stretch of calls; \<open>turn\<close> runs the topmost frame up to the next one. What the calls return is a reading, chosen
  anew at every turn, so that any interleaving of the operations is a sequence of turns.
\<close>

subsection \<open>Readings\<close>

text \<open>
  \<open>tx_trace i\<close> and \<open>tx_pod i\<close> are the answers of the authoriser in the \<open>i\<close>-th check of a stretch, \<open>tx_cancelled i\<close> whether
  the context is found done there; \<open>tx_alive\<close> is the answer of the node's binding; \<open>tx_woken\<close> says that the awaited
  channel is closed, \<open>tx_timeout\<close> that the context of the wait ends first.
\<close>

datatype selected_case = WakeUp | ContextDone | Tick

record trace_reading =
  tx_now :: time
  tx_id :: "string option"
  tx_identified :: bool
  tx_cancelled :: "nat \<Rightarrow> bool"
  tx_trace :: "nat \<Rightarrow> trace_error option"
  tx_pod :: "nat \<Rightarrow> trace_error option"
  tx_resolve :: "trace_error + trace_workload"
  tx_revalidate :: "trace_error option"
  tx_bound :: "trace_binding option \<times> trace_error option"
  tx_alive :: "trace_error option"
  tx_preflight :: "(trace_error + node_preflight) option"
  tx_lease :: "trace_error option"
  tx_delivered :: bool
  tx_woken :: bool
  tx_timeout :: bool
  tx_case :: selected_case

definition access :: "trace_reading \<Rightarrow> nat \<Rightarrow> trace_error option" where
  "access x i =
    (if tx_cancelled x i then Some TrUnavailable
     else case tx_trace x i of Some e \<Rightarrow> Some (safeDependencyError e) | None \<Rightarrow> map_option safeDependencyError (tx_pod x i))"

text \<open>The names, the principals and the digest of the baseline profile.\<close>

record trace_lib =
  tl_names :: kube_names
  tl_users :: kube_users
  tl_baseline :: string

subsection \<open>The checks of the operations\<close>

definition admit_checks :: "trace_lib \<Rightarrow> trace_reading \<Rightarrow> trace_manager \<Rightarrow> user_info option \<Rightarrow> trace_request \<Rightarrow> trace_error + 256 word" where
  "admit_checks L x m info r =
    (if AuditHealthy m \<noteq> None then Inl TrUnavailable
     else case SnapshotPrincipal (tl_users L) info of None \<Rightarrow> Inl TrUnauthenticated | Some owner \<Rightarrow>
       if \<not> tx_identified x then Inl TrUnavailable
       else case permits (tm_policy m) r of Some e \<Rightarrow> Inl e | None \<Rightarrow>
       case access x 0 of Some e \<Rightarrow> Inl e | None \<Rightarrow> Inr owner)"

text \<open>What \<open>Admit\<close> checks of the binding it was given.\<close>

definition admit_verify ::
  "trace_lib \<Rightarrow> trace_reading \<Rightarrow> trace_request \<Rightarrow> trace_workload \<Rightarrow> trace_binding \<Rightarrow> trace_error + trace_specification"
where
  "admit_verify L x r w b =
    (if \<not> sameLifetime (bd_Target b) (tw_Target w) \<or> bd_ProfileDigest b \<noteq> tl_baseline L then Inl TrTargetChanged
     else case NewSpecification (tr_kind r) (bd_Target b) (tr_paths r) (tr_bounds r) of None \<Rightarrow> Inl TrTargetChanged | Some spec \<Rightarrow>
       if \<not> tx_identified x then Inl TrUnavailable
       else case tx_revalidate x of Some e \<Rightarrow> Inl (safeDependencyError e) | None \<Rightarrow>
       case tx_alive x of Some e \<Rightarrow> Inl (safeDependencyError e) | None \<Rightarrow>
       case access x 0 of Some e \<Rightarrow> Inl e | None \<Rightarrow>
       if tx_cancelled x 1 then Inl TrUnavailable else Inr spec)"

text \<open>\<open>Get\<close>: an error with the owner whose entry it discards first, if the permission itself is refused.\<close>

definition get_checks ::
  "trace_lib \<Rightarrow> trace_reading \<Rightarrow> trace_manager \<Rightarrow> user_info option \<Rightarrow> string \<Rightarrow> (trace_error \<times> 256 word option) + 256 word"
where
  "get_checks L x m info namespace =
    (if AuditHealthy m \<noteq> None then Inl (TrUnavailable, None)
     else case SnapshotPrincipal (tl_users L) info of None \<Rightarrow> Inl (TrUnauthenticated, None) | Some owner \<Rightarrow>
       if \<not> tx_identified x then Inl (TrUnavailable, None)
       else if \<not> kn_label (tl_names L) namespace then Inl (TrInvalidRequest, None)
       else case tx_trace x 0 of Some e \<Rightarrow> Inl (safeDependencyError e, Some owner) | None \<Rightarrow> Inr owner)"

text \<open>The later checks of \<open>Get\<close>: the error, and whether the entry is discarded for it.\<close>

definition get_verify :: "trace_reading \<Rightarrow> (trace_error \<times> bool) option" where
  "get_verify x =
    (case tx_pod x 0 of Some e \<Rightarrow> Some (safeDependencyError e, True) | None \<Rightarrow>
     case tx_revalidate x of Some e \<Rightarrow> Some (safeDependencyError e, True) | None \<Rightarrow>
     case tx_alive x of Some e \<Rightarrow> Some (safeDependencyError e, True) | None \<Rightarrow>
     case access x 1 of Some e \<Rightarrow> Some (e, True) | None \<Rightarrow>
     if tx_cancelled x 2 then Some (TrUnavailable, False) else None)"

definition cancel_checks :: "trace_lib \<Rightarrow> trace_reading \<Rightarrow> user_info option \<Rightarrow> string \<Rightarrow> trace_error + 256 word" where
  "cancel_checks L x info namespace =
    (case SnapshotPrincipal (tl_users L) info of None \<Rightarrow> Inl TrUnauthenticated | Some owner \<Rightarrow>
      if \<not> tx_identified x then Inl TrUnavailable
      else if \<not> kn_label (tl_names L) namespace then Inl TrInvalidRequest
      else case tx_trace x 0 of Some e \<Rightarrow> Inl (safeDependencyError e) | None \<Rightarrow> Inr owner)"

definition claim_checks :: "trace_lib \<Rightarrow> trace_reading \<Rightarrow> trace_manager \<Rightarrow> user_info option \<Rightarrow> string \<Rightarrow> trace_error + 256 word" where
  "claim_checks L x m info namespace =
    (if AuditHealthy m \<noteq> None then Inl TrUnavailable else cancel_checks L x info namespace)"

definition preflightAccess :: "trace_reading \<Rightarrow> nat \<Rightarrow> trace_error option" where
  "preflightAccess x i = (case tx_trace x i of Some e \<Rightarrow> Some (safeDependencyError e) | None \<Rightarrow> access x (Suc i))"

text \<open>The body of \<open>Preflight\<close>; \<open>tx_preflight\<close> is \<open>None\<close> for a binder that cannot check.\<close>

definition preflight_body ::
  "trace_lib \<Rightarrow> trace_reading \<Rightarrow> trace_manager \<Rightarrow> user_info option \<Rightarrow> trace_request \<Rightarrow> trace_error + node_preflight"
where
  "preflight_body L x m info r =
    (if AuditHealthy m \<noteq> None then Inl TrUnavailable
     else case SnapshotPrincipal (tl_users L) info of None \<Rightarrow> Inl TrUnauthenticated | Some owner \<Rightarrow>
       if \<not> tx_identified x then Inl TrUnavailable
       else if tr_selection r = None then Inl TrInvalidRequest
       else case permits (tm_policy m) r of Some e \<Rightarrow> Inl e | None \<Rightarrow>
       case preflightAccess x 0 of Some e \<Rightarrow> Inl e | None \<Rightarrow>
       case tx_preflight x of None \<Rightarrow> Inl TrUnavailable | Some answer \<Rightarrow>
       case tx_resolve x of Inl e \<Rightarrow> Inl (safeDependencyError e) | Inr w \<Rightarrow>
       case validateWorkload r w of Some e \<Rightarrow> Inl e | None \<Rightarrow>
       case answer of Inl e \<Rightarrow> Inl (safeDependencyError e) | Inr p \<Rightarrow>
       if \<not> preflight_valid p (tr_kind r) \<or> np_EngineDigest p \<noteq> tp_EngineDigest (tm_policy m) then Inl TrUnavailable
       else case tx_revalidate x of Some e \<Rightarrow> Inl (safeDependencyError e) | None \<Rightarrow>
       case preflightAccess x 2 of Some e \<Rightarrow> Inl e | None \<Rightarrow>
       if tx_cancelled x 4 then Inl TrUnavailable else Inr p)"

text \<open>\<open>RevalidateStream\<close>, which changes nothing; \<open>deadline\<close> is the deadline of the lease.\<close>

definition RevalidateStream :: "trace_reading \<Rightarrow> trace_manager \<Rightarrow> time \<Rightarrow> trace_error option" where
  "RevalidateStream x m deadline =
    (if AuditHealthy m \<noteq> None then Some TrUnavailable
     else if tx_lease x \<noteq> None \<and> tx_lease x \<noteq> Some TrExpired then map_option safeLeaseCause (tx_lease x)
     else if tx_now x > deadline + 2 * second then Some TrExpired
     else case tx_trace x 0 of Some e \<Rightarrow> Some (safeDependencyError e) | None \<Rightarrow>
     case tx_pod x 0 of Some e \<Rightarrow> Some (safeDependencyError e) | None \<Rightarrow>
     case tx_revalidate x of Some e \<Rightarrow> Some (safeDependencyError e) | None \<Rightarrow>
     map_option safeDependencyError (tx_trace x 1))"

subsection \<open>Frames\<close>

datatype admit_frame =
    AdmitCall "user_info option" trace_request
  | AdmitChecks "user_info option" trace_request
  | AdmitReserve "256 word" trace_request
  | AdmitResolve nat
  | AdmitAssign nat trace_workload
  | AdmitBind nat trace_workload
  | AdmitStore nat trace_workload "trace_binding option" "trace_error option"
  | AdmitVerify nat trace_workload trace_binding
  | AdmitCommit nat trace_workload trace_binding trace_specification
  | AdmitRecord "nat option" "trace_error option"
  | AdmitFinish nat "trace_error option"
  | AdmitEnd "nat option" "trace_error option"

datatype get_frame =
    GetCall "user_info option" string string
  | GetChecks "user_info option" string string
  | GetOwned "256 word" string string
  | GetVerify string nat
  | GetFinal string nat
  | GetRecord "trace_error + trace_admission option"
  | GetEnd "trace_error + trace_admission option"

datatype cancel_frame =
    CancelCall "user_info option" string string
  | CancelChecks "user_info option" string string
  | CancelOwned "256 word" string string
  | CancelPod string nat
  | CancelRecord "trace_error option"
  | CancelEnd "trace_error option"

datatype claim_frame =
    ClaimCall "user_info option" string string
  | ClaimChecks "user_info option" string string
  | ClaimGot "256 word" string string
  | ClaimCommit "256 word" string string "trace_admission option"
  | ClaimRecord "trace_error + nat"
  | ClaimEnd "trace_error option"

datatype preflight_frame =
    PreflightCall "user_info option" trace_request
  | PreflightChecks "user_info option" trace_request
  | PreflightRecord "trace_error option"
  | PreflightEnd "trace_error option"

datatype lease_frame =
    LeaseRevalidate "user_info option" nat
  | LeaseAnswer "trace_error option"
  | LeaseClose nat
  | ConsumerEnd nat

datatype close_frame =
    DiscardOwned "256 word" string string
  | Discard string "trace_error option"
  | CloseEntry nat
  | AwaitCleanup nat
  | Unbind nat
  | EndCleanup nat "trace_error option"
  | ReportTerminal nat "trace_error option"
  | ReportCleanup "trace_error option" bool

datatype expiry_frame =
    SweepCall bool
  | SweepNext "nat list" bool
  | ExpiryLoop
  | ExpirySelect "time option"
  | AwaitInflight
  | ShutdownSwept "trace_error option"

datatype trace_frame =
    Admitting admit_frame
  | Getting get_frame
  | Cancelling cancel_frame
  | Claiming claim_frame
  | Preflighting preflight_frame
  | Leasing lease_frame
  | Closing close_frame
  | Expiring expiry_frame

text \<open>A frame waits, goes on as other frames, or returns an error or an admission.\<close>

datatype trace_turn = Waits | Goes "trace_frame list" | Returns "trace_error option" "trace_admission option"

text \<open>\<open>discard\<close> and its variants as frames.\<close>

abbreviation discarding :: "string \<Rightarrow> trace_error option \<Rightarrow> trace_frame" where
  "discarding key cause \<equiv> Closing (Discard key cause)"

subsection \<open>Turns\<close>

text \<open>\<open>record\<close>: the error of an operation once its audit record has been emitted.\<close>

definition recorded :: "trace_reading \<Rightarrow> trace_error option \<Rightarrow> trace_manager \<Rightarrow> trace_error option \<times> trace_manager" where
  "recorded x e m = (let (a, m') = emitAudit (tx_delivered x) m in (if a \<noteq> None then Some TrUnavailable else e, m'))"

text \<open>The beginning of an operation.\<close>

definition begun :: "trace_frame \<Rightarrow> trace_manager \<Rightarrow> trace_turn \<times> trace_manager" where
  "begun f m = (case beginOperation m of None \<Rightarrow> (Returns (Some TrUnavailable) None, m) | Some m' \<Rightarrow> (Goes [f], m'))"

text \<open>\<open>Admit\<close>.\<close>

fun admit_turn :: "trace_lib \<Rightarrow> trace_reading \<Rightarrow> trace_manager \<Rightarrow> admit_frame \<Rightarrow> trace_turn \<times> trace_manager" where
  "admit_turn L x m (AdmitCall info r) = begun (Admitting (AdmitChecks info r)) m"
| "admit_turn L x m (AdmitChecks info r) =
    (case admit_checks L x m info r of
       Inl e \<Rightarrow> (Goes [Admitting (AdmitRecord None (Some e))], m)
     | Inr owner \<Rightarrow> (Goes [Admitting (AdmitReserve owner r)], m))"
| "admit_turn L x m (AdmitReserve owner r) =
    (case reserve (tx_id x) (tx_now x) owner r m of
       (Inl e, m') \<Rightarrow> (Goes [Admitting (AdmitRecord None (Some e))], m')
     | (Inr k, m') \<Rightarrow> (Goes [Admitting (AdmitResolve k)], m'))"
| "admit_turn L x m (AdmitResolve k) =
    (case tx_resolve x of
       Inl e \<Rightarrow> (Goes [Admitting (AdmitRecord (Some k) (Some (safeDependencyError e)))], m)
     | Inr w \<Rightarrow>
        (case validateWorkload (tn_request (object_at m k)) w of
           Some e \<Rightarrow> (Goes [Admitting (AdmitRecord (Some k) (Some e))], m)
         | None \<Rightarrow> (Goes [Admitting (AdmitAssign k w)], m)))"
| "admit_turn L x m (AdmitAssign k w) =
    (case assignNode (tx_now x) k (ti_NodeUID (tw_Target w)) m of
       (Some e, m') \<Rightarrow> (Goes [Admitting (AdmitRecord (Some k) (Some e))], m')
     | (None, m') \<Rightarrow> (Goes [Admitting (AdmitBind k w)], m'))"
| "admit_turn L x m (AdmitBind k w) = (Goes [Admitting (AdmitStore k w (fst (tx_bound x)) (snd (tx_bound x)))], m)"
| "admit_turn L x m (AdmitStore k w b e) =
    (Goes [Admitting (case (e, b) of
       (Some e', _) \<Rightarrow> AdmitRecord (Some k) (Some (safeDependencyError e'))
     | (None, None) \<Rightarrow> AdmitRecord (Some k) (Some TrUnavailable)
     | (None, Some b') \<Rightarrow> AdmitVerify k w b')], edit k (\<lambda>o'. o'\<lparr>tn_binding := b\<rparr>) m)"
| "admit_turn L x m (AdmitVerify k w b) =
    (case admit_verify L x (tn_request (object_at m k)) w b of
       Inl e \<Rightarrow> (Goes [Admitting (AdmitRecord (Some k) (Some e))], m)
     | Inr spec \<Rightarrow> (Goes [Admitting (AdmitCommit k w b spec)], m))"
| "admit_turn L x m (AdmitCommit k w b spec) =
    (let (e, m') = commit_admission (tx_now x) k w b spec m in (Goes [Admitting (AdmitRecord (Some k) e)], m'))"
| "admit_turn L x m (AdmitRecord reserved e) =
    (let (e', m') = recorded x e m
     in (Goes [Admitting (case reserved of None \<Rightarrow> AdmitEnd None e' | Some k \<Rightarrow> AdmitFinish k e')], m'))"
| "admit_turn L x m (AdmitFinish k e) =
    (let ((e', close), m') = finishAdmission (tx_now x) k e m
     in (Goes ((if close then [discarding (tn_id (object_at m k)) e'] else []) @ [Admitting (AdmitEnd (Some k) e')]), m'))"
| "admit_turn L x m (AdmitEnd reserved e) =
    (Returns e (if e = None then Option.bind reserved (\<lambda>k. tn_result (object_at m k)) else None), endOperation m)"

text \<open>\<open>Get\<close>.\<close>

fun get_turn :: "trace_lib \<Rightarrow> trace_reading \<Rightarrow> trace_manager \<Rightarrow> get_frame \<Rightarrow> trace_turn \<times> trace_manager" where
  "get_turn L x m (GetCall info namespace key) = begun (Getting (GetChecks info namespace key)) m"
| "get_turn L x m (GetChecks info namespace key) =
    (case get_checks L x m info namespace of
       Inl (e, None) \<Rightarrow> (Goes [Getting (GetRecord (Inl e))], m)
     | Inl (e, Some owner) \<Rightarrow> (Goes [Closing (DiscardOwned owner namespace key), Getting (GetRecord (Inl e))], m)
     | Inr owner \<Rightarrow> (Goes [Getting (GetOwned owner namespace key)], m))"
| "get_turn L x m (GetOwned owner namespace key) =
    (case owned_entry (tx_now x) owner namespace key m of
       Inl e \<Rightarrow> (Goes [Getting (GetRecord (Inl e))], m)
     | Inr k \<Rightarrow> (Goes [Getting (GetVerify key k)], m))"
| "get_turn L x m (GetVerify key k) =
    (case get_verify x of
       Some (e, True) \<Rightarrow> (Goes [discarding key (Some e), Getting (GetRecord (Inl e))], m)
     | Some (e, False) \<Rightarrow> (Goes [Getting (GetRecord (Inl e))], m)
     | None \<Rightarrow> (Goes [Getting (GetFinal key k)], m))"
| "get_turn L x m (GetFinal key k) = (Goes [Getting (GetRecord (get_final (tx_now x) key k m))], m)"
| "get_turn L x m (GetRecord result) =
    (let (e, m') = recorded x (case result of Inl e \<Rightarrow> Some e | Inr _ \<Rightarrow> None) m
     in (Goes [Getting (GetEnd (case e of Some e' \<Rightarrow> Inl e' | None \<Rightarrow> result))], m'))"
| "get_turn L x m (GetEnd result) =
    (case result of Inl e \<Rightarrow> Returns (Some e) None | Inr a \<Rightarrow> Returns None a, endOperation m)"

text \<open>\<open>Cancel\<close>.\<close>

fun cancel_turn :: "trace_lib \<Rightarrow> trace_reading \<Rightarrow> trace_manager \<Rightarrow> cancel_frame \<Rightarrow> trace_turn \<times> trace_manager" where
  "cancel_turn L x m (CancelCall info namespace key) = begun (Cancelling (CancelChecks info namespace key)) m"
| "cancel_turn L x m (CancelChecks info namespace key) =
    (case cancel_checks L x info namespace of
       Inl e \<Rightarrow> (Goes [Cancelling (CancelRecord (Some e))], m)
     | Inr owner \<Rightarrow> (Goes [Cancelling (CancelOwned owner namespace key)], m))"
| "cancel_turn L x m (CancelOwned owner namespace key) =
    (case owned_entry (tx_now x) owner namespace key m of
       Inl e \<Rightarrow> (Goes [Cancelling (CancelRecord (Some e))], m)
     | Inr k \<Rightarrow> (Goes [Cancelling (CancelPod key k)], m))"
| "cancel_turn L x m (CancelPod key k) =
    (case tx_pod x 0 of
       Some e \<Rightarrow> (Goes [Cancelling (CancelRecord (Some (safeDependencyError e)))], m)
     | None \<Rightarrow> (Goes [discarding key (Some TrCancelled), Cancelling (CancelRecord None)], m))"
| "cancel_turn L x m (CancelRecord e) =
    (let (e', m') = recorded x e m in (Goes [Cancelling (CancelEnd e')], m'))"
| "cancel_turn L x m (CancelEnd e) = (Returns e None, endOperation m)"

text \<open>\<open>Claim\<close>, which calls \<open>Get\<close>.\<close>

fun claim_turn :: "trace_lib \<Rightarrow> trace_reading \<Rightarrow> trace_manager \<Rightarrow> claim_frame \<Rightarrow> trace_turn \<times> trace_manager" where
  "claim_turn L x m (ClaimCall info namespace key) = begun (Claiming (ClaimChecks info namespace key)) m"
| "claim_turn L x m (ClaimChecks info namespace key) =
    (case claim_checks L x m info namespace of
       Inl e \<Rightarrow> (Goes [Claiming (ClaimRecord (Inl e))], m)
     | Inr owner \<Rightarrow> (Goes [Getting (GetCall info namespace key), Claiming (ClaimGot owner namespace key)], m))"
| "claim_turn L x m (ClaimGot owner namespace key) = (Waits, m)"
| "claim_turn L x m (ClaimCommit owner namespace key admission) =
    (let (result, m') = claim_commit (tx_cancelled x 0) (tx_now x) owner namespace key
           (case admission of None \<Rightarrow> 0 | Some a \<Rightarrow> tb_Duration (tq_bounds (td_specification a))) m
     in (Goes [Claiming (ClaimRecord result)], m'))"
| "claim_turn L x m (ClaimRecord result) =
    (let (e, m') = recorded x (case result of Inl e \<Rightarrow> Some e | Inr _ \<Rightarrow> None) m;
         e' = (case (e, result) of (None, Inr k) \<Rightarrow> map_option safeLeaseCause (tx_lease x) | _ \<Rightarrow> e)
     in (Goes ((case (e', result) of (Some _, Inr k) \<Rightarrow> [Leasing (LeaseClose k)] | _ \<Rightarrow> []) @ [Claiming (ClaimEnd e')]), m'))"
| "claim_turn L x m (ClaimEnd e) = (Returns e None, endOperation m)"

text \<open>\<open>Preflight\<close>, which reserves nothing.\<close>

fun preflight_turn :: "trace_lib \<Rightarrow> trace_reading \<Rightarrow> trace_manager \<Rightarrow> preflight_frame \<Rightarrow> trace_turn \<times> trace_manager" where
  "preflight_turn L x m (PreflightCall info r) = begun (Preflighting (PreflightChecks info r)) m"
| "preflight_turn L x m (PreflightChecks info r) =
    (Goes [Preflighting (PreflightRecord (case preflight_body L x m info r of Inl e \<Rightarrow> Some e | Inr p \<Rightarrow> None))], m)"
| "preflight_turn L x m (PreflightRecord e) =
    (let (e', m') = recorded x e m in (Goes [Preflighting (PreflightEnd e')], m'))"
| "preflight_turn L x m (PreflightEnd e) = (Returns e None, endOperation m)"

text \<open>A lease in the hands of its consumer.\<close>

fun lease_turn :: "trace_lib \<Rightarrow> trace_reading \<Rightarrow> trace_manager \<Rightarrow> lease_frame \<Rightarrow> trace_turn \<times> trace_manager" where
  "lease_turn L x m (LeaseRevalidate info k) =
    (let e = object_at m k; namespace = tr_namespace (tn_request e)
     in case tx_lease x of
          Some cause \<Rightarrow> (Returns (Some (safeLeaseCause cause)) None, m)
        | None \<Rightarrow>
          (case tx_trace x 0 of
             Some e' \<Rightarrow> (Goes [discarding (tn_id e) (Some (safeDependencyError e')), Leasing (LeaseAnswer (Some (safeDependencyError e')))], m)
           | None \<Rightarrow> (Goes [Getting (GetCall info namespace (tn_id e))], m)))"
| "lease_turn L x m (LeaseAnswer e) = (Returns e None, m)"
| "lease_turn L x m (LeaseClose k) = (Goes [Leasing (ConsumerEnd k)], m\<lparr>tm_parents := removeAll k (tm_parents m)\<rparr>)"
| "lease_turn L x m (ConsumerEnd k) =
    (Goes [discarding (tn_id (object_at m k)) (Some TrCancelled)], endConsumer (tn_id (object_at m k)) m)"

text \<open>\<open>discardOwned\<close>, \<open>discardContext\<close> and \<open>closeEntry\<close>. Waiting for a channel is a turn that changes nothing.\<close>

fun close_frame_turn :: "trace_reading \<Rightarrow> trace_manager \<Rightarrow> close_frame \<Rightarrow> trace_turn \<times> trace_manager" where
  "close_frame_turn x m (DiscardOwned owner namespace key) =
    (if discard_owned owner namespace key m then Goes [discarding key (Some TrDenied)] else Returns None None, m)"
| "close_frame_turn x m (Discard key cause) =
    (case mget (tm_entries m) key of
       None \<Rightarrow> (Returns None None, m)
     | Some k \<Rightarrow> (Goes [Closing (CloseEntry k)], markClosing k cause m))"
| "close_frame_turn x m (CloseEntry k) =
    (case close_turn k m of
       TurnGone \<Rightarrow> (Returns None None, m)
     | TurnConsumer \<Rightarrow> (if tx_timeout x then Returns (Some TrUnavailable) None else Goes [Closing (CloseEntry k)], m)
     | TurnCleaning \<Rightarrow> (Goes [Closing (AwaitCleanup k)], m)
     | TurnBusy \<Rightarrow> (Returns (Some TrUnavailable) None, m)
     | TurnClean \<Rightarrow> (Goes [Closing (Unbind k)], start_cleanup k m))"
| "close_frame_turn x m (AwaitCleanup k) =
    (if tx_timeout x then Returns (Some TrUnavailable) None
     else if \<not> tx_woken x then Waits
     else Returns (if registered m k then Some TrUnavailable else None) None, m)"
| "close_frame_turn x m (Unbind k) =
    (Goes [Closing (EndCleanup k (if tn_binding (object_at m k) = None then None else tx_alive x))], m)"
| "close_frame_turn x m (EndCleanup k e) = (Goes [Closing (ReportTerminal k e)], end_cleanup (tx_now x) k e m)"
| "close_frame_turn x m (ReportTerminal k e) =
    (if tn_result (object_at m k) = None then (Goes [Closing (ReportCleanup e False)], m)
     else (let (a, m') = recordTerminal (tx_delivered x) k m in (Goes [Closing (ReportCleanup e (a \<noteq> None))], m')))"
| "close_frame_turn x m (ReportCleanup e failed) =
    (let (a, m') = emitAudit (tx_delivered x) m
     in (Returns (if e \<noteq> None \<or> a \<noteq> None \<or> failed then Some TrUnavailable else None) None, m'))"

text \<open>\<open>sweep\<close> and \<open>expiryLoop\<close>.\<close>

fun expiry_turn :: "trace_reading \<Rightarrow> trace_manager \<Rightarrow> expiry_frame \<Rightarrow> trace_turn \<times> trace_manager" where
  "expiry_turn x m (SweepCall shutdown) =
    (let (ready, m') = sweep shutdown (tx_now x) m
     in (if ready = [] then Returns None None else Goes [Expiring (SweepNext ready False)], m'))"
| "expiry_turn x m (SweepNext [] failed) = (Returns (if failed then Some TrUnavailable else None) None, m)"
| "expiry_turn x m (SweepNext (k # ks) failed) = (Goes [Closing (CloseEntry k), Expiring (SweepNext ks failed)], m)"
| "expiry_turn x m ExpiryLoop = (Goes [Expiring (ExpirySelect (nextExpiry (tx_now x) m))], m)"
| "expiry_turn x m (ExpirySelect timer) =
    (case tx_case x of
       WakeUp \<Rightarrow> (Goes [Expiring ExpiryLoop], m)
     | ContextDone \<Rightarrow> if tm_stopped m then (Goes [Expiring AwaitInflight], begin_shutdown m) else (Waits, m)
     | Tick \<Rightarrow> (if timer = None then Waits else Goes [Expiring (SweepCall False), Expiring ExpiryLoop], m))"
| "expiry_turn x m AwaitInflight =
    (if tm_inflight m = 0 then Goes [Expiring (SweepCall True), Expiring (ShutdownSwept None)] else Waits, m)"
| "expiry_turn x m (ShutdownSwept e) = (Returns None None, end_shutdown e m)"

fun turn :: "trace_lib \<Rightarrow> trace_reading \<Rightarrow> trace_manager \<Rightarrow> trace_frame \<Rightarrow> trace_turn \<times> trace_manager" where
  "turn L x m (Admitting f) = admit_turn L x m f"
| "turn L x m (Getting f) = get_turn L x m f"
| "turn L x m (Cancelling f) = cancel_turn L x m f"
| "turn L x m (Claiming f) = claim_turn L x m f"
| "turn L x m (Preflighting f) = preflight_turn L x m f"
| "turn L x m (Leasing f) = lease_turn L x m f"
| "turn L x m (Closing f) = close_frame_turn x m f"
| "turn L x m (Expiring f) = expiry_turn x m f"

text \<open>What a frame becomes when the frame above it returns.\<close>

fun resume :: "trace_error option \<Rightarrow> trace_admission option \<Rightarrow> trace_frame \<Rightarrow> trace_frame" where
  "resume e a (Cancelling (CancelRecord _)) = Cancelling (CancelRecord e)"
| "resume e a (Claiming (ClaimGot owner namespace key)) =
    Claiming (case e of Some e' \<Rightarrow> ClaimRecord (Inl e') | None \<Rightarrow> ClaimCommit owner namespace key a)"
| "resume e a (Expiring (SweepNext ks failed)) = Expiring (SweepNext ks (failed \<or> e \<noteq> None))"
| "resume e a (Expiring (ShutdownSwept _)) = Expiring (ShutdownSwept e)"
| "resume e a f = f"

text \<open>A turn of a stack of frames.\<close>

definition stack_turn ::
  "trace_lib \<Rightarrow> trace_reading \<Rightarrow> trace_manager \<Rightarrow> trace_frame list \<Rightarrow> (trace_frame list \<times> trace_manager) option"
where
  "stack_turn L x m stack =
    (case stack of
       [] \<Rightarrow> None
     | f # below \<Rightarrow>
        (case turn L x m f of
           (Waits, _) \<Rightarrow> None
         | (Goes fs, m') \<Rightarrow> Some (fs @ below, m')
         | (Returns e a, m') \<Rightarrow> Some (case below of [] \<Rightarrow> [] | g # gs \<Rightarrow> resume e a g # gs, m')))"

end
