(* ===== verification/Trace_Invariant.thy ===== *)
theory Trace_Invariant
  imports Trace_Admission
begin

text \<open>
  What the manager of trace admissions keeps at every turn: entries under their identifiers, the quotas, the phases of
  an entry, admissions within the policy, and node-side handles that belong to registered entries. The handles exist
  outside of the program; \<open>H\<close> is the set of those that may exist, with the Node each was bound on.
\<close>

subsection \<open>Objects\<close>

lemma edit_simps [simp]:
  "tm_entries (edit k f m) = tm_entries m" "tm_policy (edit k f m) = tm_policy m" "tm_closed (edit k f m) = tm_closed m"
  "tm_inflight (edit k f m) = tm_inflight m" "tm_shutdown (edit k f m) = tm_shutdown m"
  "tm_stopped (edit k f m) = tm_stopped m" "tm_parents (edit k f m) = tm_parents m"
  "tm_auditFailed (edit k f m) = tm_auditFailed m" "length (tm_objects (edit k f m)) = length (tm_objects m)"
  by (simp_all add: edit_def)

lemma object_at_edit:
  "object_at (edit k f m) j = (if j = k \<and> k < length (tm_objects m) then f (object_at m k) else object_at m j)"
  by (cases "k < length (tm_objects m)") (auto simp: object_at_def edit_def nth_list_update list_update_beyond)

definition live :: "trace_manager \<Rightarrow> nat set" where
  "live m = {k. \<exists>key. mget (tm_entries m) key = Some k}"

definition keyed_entries :: "trace_manager \<Rightarrow> bool" where
  "keyed_entries m \<longleftrightarrow> mwf (tm_entries m) \<and>
     (\<forall>key k. mget (tm_entries m) key = Some k \<longrightarrow> k < length (tm_objects m) \<and> tn_id (object_at m k) = key)"

lemma live_iff: "keyed_entries m \<Longrightarrow> k \<in> live m \<longleftrightarrow> registered m k"
  by (auto simp: live_def registered_def keyed_entries_def)

lemma live_snd: "keyed_entries m \<Longrightarrow> live m = snd ` set (tm_entries m)"
  by (force simp: live_def keyed_entries_def mget_in_iff)

lemma live_finite [simp]: "keyed_entries m \<Longrightarrow> finite (live m)"
  by (simp add: live_snd)

lemma inj_entries: "keyed_entries m \<Longrightarrow> inj_on snd (set (tm_entries m))"
  by (auto simp: inj_on_def keyed_entries_def mget_in_iff) metis+

lemma card_live: "keyed_entries m \<Longrightarrow> card (live m) = mlen (tm_entries m)"
proof -
  assume m: "keyed_entries m"
  then have "card (live m) = card (set (tm_entries m))"
    by (simp add: live_snd card_image inj_entries)
  moreover have "distinct (tm_entries m)"
    using m by (simp add: keyed_entries_def mwf_def distinct_map)
  ultimately show ?thesis
    by (simp add: mlen_def distinct_card)
qed

lemma held_card:
  assumes "keyed_entries m"
  shows "held P m = int (card {k \<in> live m. P (object_at m k)})"
proof -
  let ?S = "filter (\<lambda>(key, k). P (object_at m k)) (tm_entries m)"
  have "length (filter P (live_objects m)) = length ?S"
    by (simp add: live_objects_def filter_map comp_def case_prod_beta')
  also have "\<dots> = card (set ?S)"
    using assms by (intro distinct_card [symmetric]) (simp add: keyed_entries_def mwf_def distinct_map)
  also have "\<dots> = card (snd ` set ?S)"
    using inj_entries [OF assms] by (intro card_image [symmetric]) (auto intro: inj_on_subset)
  also have "snd ` set ?S = {k \<in> live m. P (object_at m k)}"
    using assms by (force simp: live_snd)
  finally show ?thesis
    by (simp add: held_def)
qed

subsection \<open>The parts of the invariant\<close>

definition init_at :: "trace_manager \<Rightarrow> nat \<Rightarrow> bool" where
  "init_at m k \<longleftrightarrow> k < length (tm_objects m) \<and> tn_initializing (object_at m k)"

definition cleaning_at :: "trace_manager \<Rightarrow> nat \<Rightarrow> bool" where
  "cleaning_at m k \<longleftrightarrow> k < length (tm_objects m) \<and> tn_cleanupRunning (object_at m k)"

definition phases_ok :: "trace_manager \<Rightarrow> bool" where
  "phases_ok m \<longleftrightarrow>
    (\<forall>k. init_at m k \<longrightarrow> registered m k \<and> \<not> cleaning_at m k) \<and>
    (\<forall>k. cleaning_at m k \<longrightarrow> registered m k)"

definition quotas_ok :: "trace_manager \<Rightarrow> bool" where
  "quotas_ok m \<longleftrightarrow>
    int (mlen (tm_entries m)) \<le> tp_Global (tm_policy m) \<and>
    (\<forall>owner. held (\<lambda>e. tn_owner e = owner) m \<le> tp_PerPrincipal (tm_policy m)) \<and>
    (\<forall>ns. held (\<lambda>e. tr_namespace (tn_request e) = ns) m \<le> tp_PerNamespace (tm_policy m)) \<and>
    (\<forall>node. node \<noteq> '''' \<longrightarrow> held (\<lambda>e. tn_nodeUID e = node) m \<le> tp_PerNode (tm_policy m))"

text \<open>An admission within the policy, for the request it answers.\<close>

definition admission_ok :: "trace_policy \<Rightarrow> trace_request \<Rightarrow> trace_admission \<Rightarrow> bool" where
  "admission_ok p r a \<longleftrightarrow>
    (let spec = td_specification a
     in specification_valid spec \<and> tq_kind spec = tr_kind r \<and> tq_paths spec = tr_paths r \<and> tq_bounds spec = tr_bounds r \<and>
        ti_Namespace (tq_target spec) = tr_namespace r \<and> ti_PodName (tq_target spec) = tr_pod r \<and>
        ti_ContainerName (tq_target spec) = tr_container r \<and> td_engineDigest a = tp_EngineDigest p \<and> permits p r = None)"

definition results_ok :: "trace_manager \<Rightarrow> bool" where
  "results_ok m \<longleftrightarrow> (\<forall>k < length (tm_objects m). permits (tm_policy m) (tn_request (object_at m k)) = None \<and>
     (\<forall>a. tn_result (object_at m k) = Some a \<longrightarrow> admission_ok (tm_policy m) (tn_request (object_at m k)) a))"

definition handles_ok :: "(nat \<times> string) set \<Rightarrow> trace_manager \<Rightarrow> bool" where
  "handles_ok H m \<longleftrightarrow> (\<forall>k node. (k, node) \<in> H \<longrightarrow> k < length (tm_objects m) \<and> registered m k \<and> tn_nodeUID (object_at m k) = node \<and>
     node \<noteq> '''' \<and> (init_at m k \<or> tn_binding (object_at m k) \<noteq> None))"

definition shutdown_ok :: "trace_manager \<Rightarrow> bool" where
  "shutdown_ok m \<longleftrightarrow> (tm_shutdown m = Some None \<longrightarrow> tm_closed m \<and> tm_entries m = [])"

definition manager_ok :: "(nat \<times> string) set \<Rightarrow> trace_manager \<Rightarrow> bool" where
  "manager_ok H m \<longleftrightarrow> keyed_entries m \<and> phases_ok m \<and> quotas_ok m \<and> results_ok m \<and> handles_ok H m \<and> shutdown_ok m"

lemmas manager_parts = keyed_entries_def phases_ok_def results_ok_def handles_ok_def shutdown_ok_def

lemma manager_ok_fewer: "manager_ok H m \<Longrightarrow> H' \<subseteq> H \<Longrightarrow> manager_ok H' m"
  by (auto simp: manager_ok_def handles_ok_def)

subsection \<open>Turns that leave the entries alone\<close>

definition same_core :: "trace_manager \<Rightarrow> trace_manager \<Rightarrow> bool" where
  "same_core m m' \<longleftrightarrow> tm_objects m' = tm_objects m \<and> tm_entries m' = tm_entries m \<and> tm_policy m' = tm_policy m \<and>
     tm_shutdown m' = tm_shutdown m \<and> (tm_closed m \<longrightarrow> tm_closed m')"

lemma same_core_object: "same_core m m' \<Longrightarrow> object_at m' k = object_at m k"
  by (simp add: same_core_def object_at_def)

lemma same_core_registered: "same_core m m' \<Longrightarrow> registered m' k = registered m k"
  by (simp add: same_core_def registered_def object_at_def)

lemma same_core_held: "same_core m m' \<Longrightarrow> held P m' = held P m"
  by (simp add: held_def live_objects_def same_core_def object_at_def)

lemma same_core_at: "same_core m m' \<Longrightarrow> init_at m' k = init_at m k" "same_core m m' \<Longrightarrow> cleaning_at m' k = cleaning_at m k"
  by (simp_all add: init_at_def cleaning_at_def same_core_def object_at_def)

lemma manager_ok_core:
  assumes "same_core m m'" and "manager_ok H m"
  shows "manager_ok H m'"
proof -
  have "tm_objects m' = tm_objects m" "tm_entries m' = tm_entries m" "tm_policy m' = tm_policy m"
    using assms(1) by (simp_all add: same_core_def)
  with assms show ?thesis
    by (simp add: manager_ok_def manager_parts quotas_ok_def same_core_held same_core_registered same_core_at same_core_object)
      (auto simp: same_core_def)
qed

lemma same_core_refl [simp]: "same_core m m"
  by (simp add: same_core_def)

lemma same_core_trans: "same_core a b \<Longrightarrow> same_core b c \<Longrightarrow> same_core a c"
  by (simp add: same_core_def)

lemma same_core_updates [simp]:
  "same_core m (m\<lparr>tm_inflight := n\<rparr>)" "same_core m (m\<lparr>tm_auditFailed := b\<rparr>)" "same_core m (m\<lparr>tm_stopped := b\<rparr>)"
  "same_core m (m\<lparr>tm_parents := ks\<rparr>)" "same_core m (m\<lparr>tm_closed := True\<rparr>)"
  by (simp_all add: same_core_def)

lemma emitAudit_core: "emitAudit d m = (e, m') \<Longrightarrow> same_core m m' \<and> tm_inflight m' = tm_inflight m"
  by (auto simp: emitAudit_def split: if_splits)

lemma recorded_core: "recorded x e m = (e', m') \<Longrightarrow> same_core m m' \<and> tm_inflight m' = tm_inflight m"
  by (auto simp: recorded_def Let_def split: prod.splits dest: emitAudit_core)

subsection \<open>Edits\<close>

text \<open>An edit that changes no more than times, the stage, the consumer and what is reported.\<close>

definition benign :: "(trace_entry \<Rightarrow> trace_entry) \<Rightarrow> bool" where
  "benign f \<longleftrightarrow> (\<forall>e. tn_id (f e) = tn_id e \<and> tn_owner (f e) = tn_owner e \<and> tn_request (f e) = tn_request e \<and>
     tn_nodeUID (f e) = tn_nodeUID e \<and> tn_binding (f e) = tn_binding e \<and> tn_result (f e) = tn_result e \<and>
     tn_initializing (f e) = tn_initializing e \<and> tn_cleanupRunning (f e) = tn_cleanupRunning e)"

lemma registered_edit:
  "(\<And>e. tn_id (f e) = tn_id e) \<Longrightarrow> registered (edit k f m) j = registered m j"
  by (simp add: registered_def object_at_edit)

lemma live_edit [simp]: "live (edit k f m) = live m"
  by (simp add: live_def)

lemma keyed_edit: "(\<And>e. tn_id (f e) = tn_id e) \<Longrightarrow> keyed_entries m \<Longrightarrow> keyed_entries (edit k f m)"
  by (simp add: keyed_entries_def object_at_edit)

lemma held_edit:
  assumes "\<And>e. tn_id (f e) = tn_id e" and "keyed_entries m" and "\<And>e. P (f e) = P e"
  shows "held P (edit k f m) = held P m"
proof -
  have "P (object_at (edit k f m) j) = P (object_at m j)" for j
    by (simp add: object_at_edit assms(3))
  then show ?thesis
    by (simp add: held_card keyed_edit assms)
qed

lemma benignD:
  assumes "benign f"
  shows "tn_id (f e) = tn_id e" "tn_owner (f e) = tn_owner e" "tn_request (f e) = tn_request e" "tn_nodeUID (f e) = tn_nodeUID e"
    "tn_binding (f e) = tn_binding e" "tn_result (f e) = tn_result e" "tn_initializing (f e) = tn_initializing e"
    "tn_cleanupRunning (f e) = tn_cleanupRunning e"
  using assms by (simp_all add: benign_def)

lemma at_edit_benign:
  "benign f \<Longrightarrow> init_at (edit k f m) j = init_at m j" "benign f \<Longrightarrow> cleaning_at (edit k f m) j = cleaning_at m j"
  by (auto simp: init_at_def cleaning_at_def object_at_edit benignD)

lemma manager_ok_edit:
  assumes "benign f" and "manager_ok H m"
  shows "manager_ok H (edit k f m)"
proof -
  note f = benignD [OF assms(1)]
  have keyed: "keyed_entries m"
    using assms(2) by (simp add: manager_ok_def)
  have "phases_ok (edit k f m)"
    using assms(2) f by (simp add: manager_ok_def phases_ok_def registered_edit at_edit_benign [OF assms(1)])
  moreover have "quotas_ok (edit k f m)"
    using assms(2) keyed f by (simp add: manager_ok_def quotas_ok_def held_edit)
  moreover have "results_ok (edit k f m)" "shutdown_ok (edit k f m)"
    using assms(2) f by (simp_all add: manager_ok_def results_ok_def shutdown_ok_def object_at_edit)
  moreover have "handles_ok H (edit k f m)"
    using assms(2) f by (simp add: manager_ok_def handles_ok_def registered_edit at_edit_benign [OF assms(1)] object_at_edit)
  ultimately show ?thesis
    using keyed f by (simp add: manager_ok_def keyed_edit)
qed

lemma benign_closing: "benign (closing_entry cause)"
  by (simp add: benign_def closing_entry_def)

lemma manager_ok_fold: "benign f \<Longrightarrow> manager_ok H m \<Longrightarrow> manager_ok H (fold (\<lambda>k. edit k f) ks m)"
  by (induction ks arbitrary: m) (simp_all add: manager_ok_edit)

subsection \<open>What a turn may change of the entries\<close>

text \<open>
  \<open>grows j m m'\<close>: the manager stays closed, the objects keep their request, and only object \<open>j\<close> changes its Node or its
  binding.
\<close>

definition grows :: "nat option \<Rightarrow> trace_manager \<Rightarrow> trace_manager \<Rightarrow> bool" where
  "grows j m m' \<longleftrightarrow> tm_policy m' = tm_policy m \<and> (tm_closed m \<longrightarrow> tm_closed m') \<and> length (tm_objects m) \<le> length (tm_objects m') \<and>
     (\<forall>k < length (tm_objects m). tn_request (object_at m' k) = tn_request (object_at m k) \<and>
       (j \<noteq> Some k \<longrightarrow> tn_nodeUID (object_at m' k) = tn_nodeUID (object_at m k) \<and>
          tn_binding (object_at m' k) = tn_binding (object_at m k)))"

lemma grows_core: "same_core m m' \<Longrightarrow> grows j m m'"
  by (simp add: grows_def same_core_object) (simp add: same_core_def)

lemma grows_benign: "benign f \<Longrightarrow> grows j m (edit k f m)"
  by (simp add: grows_def object_at_edit benignD)

lemma grows_trans: "grows j a b \<Longrightarrow> grows j b c \<Longrightarrow> grows j a c"
  by (auto simp: grows_def)

lemma grows_fold: "benign f \<Longrightarrow> grows j m (fold (\<lambda>k. edit k f) ks m)"
proof (induction ks arbitrary: m)
  case (Cons k ks)
  have "grows j (edit k f m) (fold (\<lambda>k. edit k f) ks (edit k f m))"
    by (rule Cons.IH [OF Cons.prems])
  with grows_benign [OF Cons.prems, of j m k] show ?case
    by (auto intro: grows_trans)
qed (simp add: grows_core)

lemma at_fold_benign:
  "benign f \<Longrightarrow> init_at (fold (\<lambda>k. edit k f) ks m) j = init_at m j"
  "benign f \<Longrightarrow> cleaning_at (fold (\<lambda>k. edit k f) ks m) j = cleaning_at m j"
  by (induction ks arbitrary: m) (simp_all add: at_edit_benign)

lemma inflight_fold [simp]: "tm_inflight (fold (\<lambda>k. edit k f) ks m) = tm_inflight m"
  by (induction ks arbitrary: m) simp_all

lemma closed_fold [simp]: "tm_closed (fold (\<lambda>k. edit k f) ks m) = tm_closed m"
  by (induction ks arbitrary: m) simp_all

lemma entries_fold [simp]: "tm_entries (fold (\<lambda>k. edit k f) ks m) = tm_entries m"
  by (induction ks arbitrary: m) simp_all

subsection \<open>The sections that change the entries\<close>

text \<open>A new entry under a free identifier.\<close>

definition added :: "string \<Rightarrow> trace_entry \<Rightarrow> trace_manager \<Rightarrow> trace_manager" where
  "added key e m = m\<lparr>tm_objects := tm_objects m @ [e], tm_entries := mput key (length (tm_objects m)) (tm_entries m)\<rparr>"

lemma added_simps [simp]:
  "tm_policy (added key e m) = tm_policy m" "tm_closed (added key e m) = tm_closed m"
  "tm_inflight (added key e m) = tm_inflight m" "tm_shutdown (added key e m) = tm_shutdown m"
  "length (tm_objects (added key e m)) = Suc (length (tm_objects m))"
  "tm_entries (added key e m) = mput key (length (tm_objects m)) (tm_entries m)"
  by (simp_all add: added_def)

lemma object_at_added:
  "k < length (tm_objects m) \<Longrightarrow> object_at (added key e m) k = object_at m k"
  "object_at (added key e m) (length (tm_objects m)) = e"
  by (simp_all add: added_def object_at_def nth_append)

lemma at_added:
  "init_at (added key e m) k \<longleftrightarrow> init_at m k \<or> k = length (tm_objects m) \<and> tn_initializing e"
  "cleaning_at (added key e m) k \<longleftrightarrow> cleaning_at m k \<or> k = length (tm_objects m) \<and> tn_cleanupRunning e"
  by (auto simp: init_at_def cleaning_at_def less_Suc_eq object_at_added)

lemma registered_added:
  "k < length (tm_objects m) \<Longrightarrow> mget (tm_entries m) key = None \<Longrightarrow> registered (added key e m) k = registered m k"
  "tn_id e = key \<Longrightarrow> registered (added key e m) (length (tm_objects m))"
  by (auto simp: registered_def object_at_added mget_mput)

lemma keyed_added:
  "keyed_entries m \<Longrightarrow> tn_id e = key \<Longrightarrow> mget (tm_entries m) key = None \<Longrightarrow> keyed_entries (added key e m)"
  by (auto simp: keyed_entries_def mwf_mput mget_mput object_at_added less_SucI)

lemma live_added: "mget (tm_entries m) key = None \<Longrightarrow> live (added key e m) = insert (length (tm_objects m)) (live m)"
  by (auto simp: live_def mget_mput intro: exI [of _ key] split: if_splits) (metis option.distinct(1))

lemma live_less: "keyed_entries m \<Longrightarrow> k \<in> live m \<Longrightarrow> k < length (tm_objects m)"
  by (auto simp: live_def keyed_entries_def)

lemma held_added:
  assumes "keyed_entries m" and "tn_id e = key" and "mget (tm_entries m) key = None"
  shows "held P (added key e m) = held P m + (if P e then 1 else 0)"
proof -
  let ?n = "length (tm_objects m)"
  have "{k \<in> live (added key e m). P (object_at (added key e m) k)} =
      {k \<in> live m. P (object_at m k)} \<union> (if P e then {?n} else {})"
    using live_less [OF assms(1)] by (auto simp: live_added [OF assms(3)] object_at_added split: if_splits)
  moreover have "?n \<notin> live m"
    using live_less [OF assms(1)] by blast
  ultimately show ?thesis
    by (simp add: held_card assms keyed_added)
qed

lemma manager_ok_added:
  assumes "manager_ok H m" and "tn_id e = key" and "mget (tm_entries m) key = None"
    and "tn_initializing e" "\<not> tn_cleanupRunning e" "tn_result e = None" "tn_nodeUID e = ''''" "tn_request e = r"
    and "permits (tm_policy m) r = None" and "\<not> tm_closed m"
    and "int (mlen (tm_entries m)) < tp_Global (tm_policy m)" "held (\<lambda>x. tn_owner x = tn_owner e) m < tp_PerPrincipal (tm_policy m)"
    and "held (\<lambda>x. tr_namespace (tn_request x) = tr_namespace r) m < tp_PerNamespace (tm_policy m)"
  shows "manager_ok H (added key e m)"
proof -
  have keyed: "keyed_entries m" and phases: "phases_ok m" and quotas: "quotas_ok m" and results: "results_ok m"
    and handles: "handles_ok H m" and shut: "shutdown_ok m"
    using assms(1) by (simp_all add: manager_ok_def)
  note held = held_added [OF keyed assms(2,3)]
  have "phases_ok (added key e m)"
    using phases assms(2-5) by (auto simp: phases_ok_def at_added registered_added) (auto simp: init_at_def cleaning_at_def registered_added)
  moreover have "quotas_ok (added key e m)"
    using quotas keyed assms(3,7,8,11-13) by (auto simp: quotas_ok_def held mlen_mput keyed_entries_def)
  moreover have "results_ok (added key e m)"
    using results assms(6,8,9) by (auto simp: results_ok_def less_Suc_eq object_at_added)
  moreover have "handles_ok H (added key e m)"
    using handles assms(3) by (auto simp: handles_ok_def at_added registered_added object_at_added less_SucI)
  moreover have "shutdown_ok (added key e m)"
    using shut assms(10) by (simp add: shutdown_ok_def)
  ultimately show ?thesis
    using keyed assms(2,3) by (simp add: manager_ok_def keyed_added)
qed

lemma reserve_cases:
  assumes "reserve fresh now owner r m = (result, m')"
  obtains e where "result = Inl e" and "m' = m"
  | key where "result = Inr (length (tm_objects m))"
      and "m' = added key (new_entry key owner r (now + tp_PendingTTL (tm_policy m))) m" and "mget (tm_entries m) key = None"
      and "\<not> tm_closed m" and "int (mlen (tm_entries m)) < tp_Global (tm_policy m)"
      and "held (\<lambda>x. tn_owner x = owner) m < tp_PerPrincipal (tm_policy m)"
      and "held (\<lambda>x. tr_namespace (tn_request x) = tr_namespace r) m < tp_PerNamespace (tm_policy m)"
proof (cases result)
  case (Inl e)
  with assms have "m' = m"
    by (auto simp: reserve_def split: option.splits if_splits)
  with Inl show ?thesis
    by (rule that(1))
next
  case (Inr k)
  with assms obtain key where "fresh = Some key"
    by (auto simp: reserve_def split: option.splits)
  with assms Inr show ?thesis
    by (intro that(2) [of key]) (auto simp: reserve_def added_def not_le split: if_splits)
qed

lemma reserve_ok:
  assumes "manager_ok H m" and "permits (tm_policy m) r = None" and "reserve fresh now owner r m = (result, m')"
  shows "manager_ok H m'" and "grows j m m'" and "init_at m' k \<longleftrightarrow> init_at m k \<or> result = Inr k"
    and "result = Inr k \<Longrightarrow> \<not> init_at m k \<and> k < length (tm_objects m') \<and> k \<notin> fst ` H"
    and "cleaning_at m' k = cleaning_at m k" and "tm_inflight m' = tm_inflight m"
proof -
  have handles: "length (tm_objects m) \<notin> fst ` H"
    using assms(1) by (force simp: manager_ok_def handles_ok_def)
  show "manager_ok H m'"
    using assms(3) by (cases rule: reserve_cases) (use assms(1,2) in \<open>auto simp: new_entry_def intro!: manager_ok_added\<close>)
  show "grows j m m'"
    using assms(3) by (cases rule: reserve_cases) (auto simp: grows_def object_at_added)
  show "init_at m' k \<longleftrightarrow> init_at m k \<or> result = Inr k" "cleaning_at m' k = cleaning_at m k" "tm_inflight m' = tm_inflight m"
    using assms(3) by (cases rule: reserve_cases; auto simp: at_added new_entry_def)+
  show "result = Inr k \<Longrightarrow> \<not> init_at m k \<and> k < length (tm_objects m') \<and> k \<notin> fst ` H"
    using assms(3) handles by (cases rule: reserve_cases) (auto simp: init_at_def)
qed

text \<open>An edit of one object; what is left to show is what it may break.\<close>

lemma at_edit:
  "(\<And>e. tn_initializing (f e) = tn_initializing e) \<Longrightarrow> init_at (edit k f m) j = init_at m j"
  "(\<And>e. tn_cleanupRunning (f e) = tn_cleanupRunning e) \<Longrightarrow> cleaning_at (edit k f m) j = cleaning_at m j"
  by (auto simp: init_at_def cleaning_at_def object_at_edit)

lemma held_edit_le:
  assumes "keyed_entries m" and "\<And>e. tn_id (f e) = tn_id e"
  shows "held P (edit k f m) \<le> held P m + 1"
proof -
  let ?S = "{j \<in> live m. P (object_at m j)}"
  have "{j \<in> live m. P (object_at (edit k f m) j)} \<subseteq> insert k ?S"
    by (auto simp: object_at_edit split: if_splits)
  moreover have "finite ?S"
    using assms(1) by simp
  ultimately have "card {j \<in> live m. P (object_at (edit k f m) j)} \<le> card (insert k ?S)"
    by (intro card_mono) simp_all
  also have "\<dots> \<le> card ?S + 1"
    using \<open>finite ?S\<close> by (simp add: card_insert_if)
  finally show ?thesis
    by (simp add: held_card assms keyed_edit)
qed

lemma assignNode_ok:
  assumes "manager_ok H m" and "init_at m k" and "k \<notin> fst ` H" and "node \<noteq> ''''" and "assignNode now k node m = (result, m')"
  shows "manager_ok H m'" and "grows (Some k) m m'" and "init_at m' j = init_at m j" and "cleaning_at m' j = cleaning_at m j"
    and "tm_inflight m' = tm_inflight m" and "result = None \<Longrightarrow> tn_nodeUID (object_at m' k) = node"
proof -
  let ?f = "\<lambda>e. e\<lparr>tn_nodeUID := node\<rparr>"
  have cases: "m' = m \<and> result \<noteq> None \<or> m' = edit k ?f m \<and> held (\<lambda>e. tn_nodeUID e = node) m < tp_PerNode (tm_policy m)"
    using assms(5) by (auto simp: assignNode_def split: if_splits)
  have keyed: "keyed_entries m" and quotas: "quotas_ok m"
    using assms(1) by (simp_all add: manager_ok_def)
  have fewer: "held (\<lambda>e. tn_nodeUID e = n) (edit k ?f m) \<le> held (\<lambda>e. tn_nodeUID e = n) m" if "n \<noteq> node" for n
  proof -
    have "{j \<in> live m. tn_nodeUID (object_at (edit k ?f m) j) = n} \<subseteq> {j \<in> live m. tn_nodeUID (object_at m j) = n}"
      using that by (auto simp: object_at_edit split: if_splits)
    then show ?thesis
      using keyed by (simp add: held_card keyed_edit card_mono)
  qed
  have edited: "manager_ok H (edit k ?f m)" if room: "held (\<lambda>e. tn_nodeUID e = node) m < tp_PerNode (tm_policy m)"
  proof -
    have "quotas_ok (edit k ?f m)"
      unfolding quotas_ok_def
    proof (intro conjI allI impI)
      fix n :: string
      assume n: "n \<noteq> ''''"
      show "held (\<lambda>e. tn_nodeUID e = n) (edit k ?f m) \<le> tp_PerNode (tm_policy (edit k ?f m))"
      proof (cases "n = node")
        case True
        with room held_edit_le [OF keyed, of ?f "\<lambda>e. tn_nodeUID e = node" k] show ?thesis
          by simp
      next
        case False
        with fewer [OF False] quotas n show ?thesis
          by (auto simp: quotas_ok_def intro: order_trans)
      qed
    qed (use quotas keyed in \<open>simp_all add: quotas_ok_def held_edit\<close>)
    moreover have "handles_ok H (edit k ?f m)"
      using assms(1,3) unfolding manager_ok_def handles_ok_def
      by (auto simp: registered_edit at_edit object_at_edit rev_image_eqI)
    ultimately show ?thesis
      using assms(1) by (simp add: manager_ok_def keyed_edit phases_ok_def results_ok_def shutdown_ok_def registered_edit at_edit object_at_edit)
  qed
  from cases show "manager_ok H m'"
    using assms(1) edited by blast
  from cases show "grows (Some k) m m'"
    by (auto simp: grows_core) (simp add: grows_def object_at_edit)
  from cases show "init_at m' j = init_at m j" "cleaning_at m' j = cleaning_at m j" "tm_inflight m' = tm_inflight m"
    by (auto simp: at_edit)
  from cases show "result = None \<Longrightarrow> tn_nodeUID (object_at m' k) = node"
    using assms(2) by (auto simp: object_at_edit init_at_def)
qed

lemma store_ok:
  fixes b :: "trace_binding option"
  assumes "manager_ok H m" and "init_at m k" and "m' = edit k (\<lambda>o'. o'\<lparr>tn_binding := b\<rparr>) m"
  shows "manager_ok H m'" and "grows (Some k) m m'" and "init_at m' j = init_at m j" and "cleaning_at m' j = cleaning_at m j"
proof -
  show at: "init_at m' j = init_at m j" "cleaning_at m' j = cleaning_at m j" for j
    by (simp_all add: assms(3) at_edit)
  show "grows (Some k) m m'"
    by (simp add: grows_def assms(3) object_at_edit)
  have "quotas_ok m'"
    using assms(1) by (simp add: manager_ok_def quotas_ok_def assms(3) held_edit)
  moreover have "handles_ok H m'"
    using assms(1,2) unfolding manager_ok_def handles_ok_def at by (auto simp: assms(3) registered_edit object_at_edit)
  ultimately show "manager_ok H m'"
    using assms(1) unfolding manager_ok_def phases_ok_def results_ok_def shutdown_ok_def at
    by (simp add: assms(3) keyed_edit registered_edit object_at_edit)
qed

lemma commit_admission_ok:
  assumes "manager_ok H m" and "init_at m k" and "commit_admission now k w b spec m = (result, m')"
    and "admission_ok (tm_policy m) (tn_request (object_at m k)) (admission_of m k spec)"
  shows "manager_ok H m'" and "grows (Some k) m m'" and "init_at m' j = init_at m j" and "cleaning_at m' j = cleaning_at m j"
    and "tm_inflight m' = tm_inflight m" and "result = None \<Longrightarrow> tn_binding (object_at m' k) = Some b"
    and "result \<noteq> None \<Longrightarrow> m' = m"
proof -
  let ?f = "\<lambda>e. e\<lparr>tn_workload := Some w, tn_binding := Some b, tn_result := Some (admission_of m k spec), tn_stage := StAdmitted\<rparr>"
  have cases: "m' = m \<and> result \<noteq> None \<or> m' = edit k ?f m \<and> result = None"
    using assms(3) by (auto simp: commit_admission_def split: if_splits)
  then show at: "init_at m' j = init_at m j" "cleaning_at m' j = cleaning_at m j" for j
    by (auto simp: at_edit)
  from cases show "grows (Some k) m m'"
    by (auto simp: grows_core) (simp add: grows_def object_at_edit)
  have "quotas_ok (edit k ?f m)"
    using assms(1) by (simp add: manager_ok_def quotas_ok_def held_edit)
  moreover have "handles_ok H (edit k ?f m)"
    using assms(1) unfolding manager_ok_def handles_ok_def by (auto simp: registered_edit object_at_edit at_edit)
  moreover have "results_ok (edit k ?f m)"
    using assms(1,4) by (simp add: manager_ok_def results_ok_def object_at_edit)
  ultimately have "manager_ok H (edit k ?f m)"
    using assms(1) by (simp add: manager_ok_def phases_ok_def shutdown_ok_def keyed_edit registered_edit at_edit)
  with cases assms(1) show "manager_ok H m'"
    by blast
  from cases show "tm_inflight m' = tm_inflight m" "result \<noteq> None \<Longrightarrow> m' = m"
    by auto
  from cases show "result = None \<Longrightarrow> tn_binding (object_at m' k) = Some b"
    using assms(2) by (auto simp: object_at_edit init_at_def)
qed

lemma finish_ok:
  assumes "manager_ok H m" and "init_at m k" and "k \<in> fst ` H \<Longrightarrow> tn_binding (object_at m k) \<noteq> None"
    and "finishAdmission now k e m = (result, m')"
  shows "manager_ok H m'" and "grows j m m'" and "init_at m' i \<longleftrightarrow> init_at m i \<and> i \<noteq> k" and "cleaning_at m' i = cleaning_at m i"
    and "tm_inflight m' = tm_inflight m"
proof -
  let ?f = "\<lambda>x. x\<lparr>tn_initializing := False\<rparr>"
  have m': "m' = edit k ?f m"
    using assms(4) by (simp add: finishAdmission_def Let_def)
  show at: "init_at m' i \<longleftrightarrow> init_at m i \<and> i \<noteq> k" "cleaning_at m' i = cleaning_at m i" for i
    by (auto simp: m' at_edit) (auto simp: init_at_def object_at_edit split: if_splits)
  show "grows j m m'" "tm_inflight m' = tm_inflight m"
    by (simp_all add: m' grows_def object_at_edit)
  have "quotas_ok m'"
    using assms(1) by (simp add: manager_ok_def quotas_ok_def m' held_edit)
  moreover have "handles_ok H m'"
    using assms(1,3) unfolding manager_ok_def handles_ok_def at by (force simp: m' registered_edit object_at_edit)
  ultimately show "manager_ok H m'"
    using assms(1) unfolding manager_ok_def phases_ok_def results_ok_def shutdown_ok_def at
    by (simp add: m' keyed_edit registered_edit object_at_edit)
qed

lemma start_cleanup_ok:
  assumes "manager_ok H m" and "close_turn k m = TurnClean" and "k < length (tm_objects m)"
  shows "manager_ok H (start_cleanup k m)" and "grows j m (start_cleanup k m)" and "init_at (start_cleanup k m) i = init_at m i"
    and "cleaning_at (start_cleanup k m) i \<longleftrightarrow> cleaning_at m i \<or> i = k" and "\<not> cleaning_at m k"
proof -
  let ?f = "\<lambda>e. e\<lparr>tn_cleanupRunning := True\<rparr>"
  have k: "registered m k" "\<not> tn_cleanupRunning (object_at m k)" "\<not> tn_initializing (object_at m k)"
    using assms(2) by (auto simp: close_turn_def Let_def split: if_splits)
  show at: "init_at (start_cleanup k m) i = init_at m i" "cleaning_at (start_cleanup k m) i \<longleftrightarrow> cleaning_at m i \<or> i = k" for i
    using assms(3) by (auto simp: start_cleanup_def at_edit) (auto simp: cleaning_at_def object_at_edit split: if_splits)
  show "grows j m (start_cleanup k m)" "\<not> cleaning_at m k"
    using k by (simp_all add: start_cleanup_def grows_def object_at_edit cleaning_at_def)
  have "quotas_ok (start_cleanup k m)"
    using assms(1) by (simp add: manager_ok_def quotas_ok_def start_cleanup_def held_edit)
  moreover have "phases_ok (start_cleanup k m)"
    using assms(1) k unfolding manager_ok_def phases_ok_def at by (auto simp: start_cleanup_def registered_edit init_at_def)
  ultimately show "manager_ok H (start_cleanup k m)"
    using assms(1) unfolding manager_ok_def results_ok_def handles_ok_def shutdown_ok_def at
    by (simp add: start_cleanup_def keyed_edit registered_edit object_at_edit)
qed

text \<open>The entry that has been closed leaves the map.\<close>

definition removed :: "string \<Rightarrow> trace_manager \<Rightarrow> trace_manager" where
  "removed key m = m\<lparr>tm_entries := mdel key (tm_entries m)\<rparr>"

lemma removed_simps [simp]:
  "tm_policy (removed key m) = tm_policy m" "tm_closed (removed key m) = tm_closed m" "tm_inflight (removed key m) = tm_inflight m"
  "tm_shutdown (removed key m) = tm_shutdown m" "tm_objects (removed key m) = tm_objects m"
  "tm_entries (removed key m) = mdel key (tm_entries m)" "object_at (removed key m) k = object_at m k"
  "init_at (removed key m) k = init_at m k" "cleaning_at (removed key m) k = cleaning_at m k"
  by (simp_all add: removed_def object_at_def init_at_def cleaning_at_def)

lemma registered_removed: "registered (removed key m) k \<longleftrightarrow> registered m k \<and> tn_id (object_at m k) \<noteq> key"
  by (simp add: registered_def mget_mdel)

lemma keyed_removed: "keyed_entries m \<Longrightarrow> keyed_entries (removed key m)"
  by (simp add: keyed_entries_def mwf_mdel mget_mdel)

lemma held_removed: "keyed_entries m \<Longrightarrow> held P (removed key m) \<le> held P m"
  by (simp add: held_card keyed_removed) (auto simp: live_def mget_mdel intro!: card_mono finite_subset [OF _ live_finite])

lemma registered_unique:
  "keyed_entries m \<Longrightarrow> registered m i \<Longrightarrow> registered m k \<Longrightarrow> tn_id (object_at m i) = tn_id (object_at m k) \<Longrightarrow> i = k"
  by (simp add: registered_def)

lemma manager_ok_removed:
  assumes "manager_ok H m" and "registered m k" and "\<not> init_at m k" "\<not> cleaning_at m k" and "k \<notin> fst ` H"
  shows "manager_ok H (removed (tn_id (object_at m k)) m)"
proof -
  let ?m = "removed (tn_id (object_at m k)) m"
  have keyed: "keyed_entries m" and phases: "phases_ok m" and quotas: "quotas_ok m" and handles: "handles_ok H m"
    using assms(1) by (simp_all add: manager_ok_def)
  have other: "registered ?m i" if "registered m i" "i \<noteq> k" for i
    using that registered_unique [OF keyed _ assms(2)] by (auto simp: registered_removed)
  have "quotas_ok ?m"
  proof -
    have "mlen (mdel key (tm_entries m)) \<le> mlen (tm_entries m)" for key
      using keyed gm.del_within [of "tm_entries m"] by (simp add: keyed_entries_def)
    then have "int (mlen (tm_entries ?m)) \<le> tp_Global (tm_policy m)"
      using quotas by (simp add: quotas_ok_def) (meson of_nat_mono order_trans)
    with quotas show ?thesis
      unfolding quotas_ok_def by (auto intro: order_trans [OF held_removed [OF keyed]])
  qed
  moreover have "phases_ok ?m"
    using phases assms(3,4) unfolding phases_ok_def by (metis other removed_simps(8,9))
  moreover have "handles_ok H ?m"
    using handles assms(5) unfolding handles_ok_def by (force intro: other)
  ultimately show ?thesis
    using assms(1) by (auto simp: manager_ok_def keyed_removed results_ok_def shutdown_ok_def mdel_def)
qed

lemma end_cleanup_eq:
  "end_cleanup now k e m = (let m1 = edit k (\<lambda>e. e\<lparr>tn_cleanupRunning := False\<rparr>) m
     in if e = None then removed (tn_id (object_at m k)) m1 else edit k (\<lambda>e. e\<lparr>tn_retryCleanup := now + second\<rparr>) m1)"
  by (simp add: end_cleanup_def removed_def Let_def)

lemma end_cleanup_ok:
  assumes "manager_ok H m" and "cleaning_at m k" and "e = None \<Longrightarrow> k \<notin> fst ` H"
  shows "manager_ok H (end_cleanup now k e m)" and "grows j m (end_cleanup now k e m)"
    and "init_at (end_cleanup now k e m) i = init_at m i" and "cleaning_at (end_cleanup now k e m) i \<longleftrightarrow> cleaning_at m i \<and> i \<noteq> k"
    and "tm_inflight (end_cleanup now k e m) = tm_inflight m"
proof -
  let ?m = "edit k (\<lambda>e. e\<lparr>tn_cleanupRunning := False\<rparr>) m" and ?r = "\<lambda>e. e\<lparr>tn_retryCleanup := now + second\<rparr>"
  have r: "benign ?r"
    by (simp add: benign_def)
  have at: "init_at ?m i = init_at m i" "cleaning_at ?m i \<longleftrightarrow> cleaning_at m i \<and> i \<noteq> k" for i
    by (auto simp: at_edit) (auto simp: cleaning_at_def object_at_edit split: if_splits)
  show "init_at (end_cleanup now k e m) i = init_at m i" "cleaning_at (end_cleanup now k e m) i \<longleftrightarrow> cleaning_at m i \<and> i \<noteq> k"
    "tm_inflight (end_cleanup now k e m) = tm_inflight m"
    by (simp_all add: end_cleanup_eq at_edit_benign [OF r] at Let_def)
  show "grows j m (end_cleanup now k e m)"
    by (auto simp: end_cleanup_eq grows_def object_at_edit Let_def)
  have "quotas_ok ?m"
    using assms(1) by (simp add: manager_ok_def quotas_ok_def held_edit)
  then have m: "manager_ok H ?m"
    using assms(1) unfolding manager_ok_def phases_ok_def results_ok_def handles_ok_def shutdown_ok_def at
    by (auto simp: keyed_edit registered_edit object_at_edit)
  have k: "registered ?m k" "\<not> init_at ?m k" "\<not> cleaning_at ?m k"
    using assms(1,2) by (auto simp: manager_ok_def phases_ok_def registered_edit at)
  show "manager_ok H (end_cleanup now k e m)"
  proof (cases e)
    case None
    with manager_ok_removed [OF m k assms(3)] show ?thesis
      by (simp add: end_cleanup_eq object_at_edit if_distrib Let_def cong: if_cong)
  next
    case (Some e')
    then show ?thesis
      by (simp add: end_cleanup_eq manager_ok_edit [OF r m] Let_def)
  qed
qed

end
