(* ===== verification/Trace_Run.thy ===== *)
theory Trace_Run
  imports Trace_Invariant Step_Systems
begin

text \<open>
  The runs of the manager of trace admissions. A system is the manager, the stacks of its operations and the node-side
  handles that may exist; a step starts an operation, lets one stack take a turn, ends the context of the manager or of
  a lease's parent, or is a step of a Node, which opens a handle during a \<open>Bind\<close> and lets handles expire at any time.

  What the code relies on is the contract of \<open>Binder\<close> and \<open>Binding\<close> (\<open>contracts.go\<close>): no handle is left behind by a
  \<open>Bind\<close> without a binding, or after a \<open>Close\<close> without an error. The lemmas show that every turn keeps the invariant of
  the manager, and that an entry being initialised or cleaned has exactly one frame at it.
\<close>

subsection \<open>What a frame holds\<close>

fun admits_of :: "trace_frame \<Rightarrow> nat option" where
  "admits_of (Admitting f) =
    (case f of
       AdmitResolve k \<Rightarrow> Some k | AdmitAssign k w \<Rightarrow> Some k | AdmitBind k w \<Rightarrow> Some k | AdmitStore k w b e \<Rightarrow> Some k
     | AdmitVerify k w b \<Rightarrow> Some k | AdmitCommit k w b spec \<Rightarrow> Some k | AdmitRecord reserved e \<Rightarrow> reserved
     | AdmitFinish k e \<Rightarrow> Some k | _ \<Rightarrow> None)"
| "admits_of _ = None"

fun cleans_of :: "trace_frame \<Rightarrow> nat option" where
  "cleans_of (Closing f) = (case f of Unbind k \<Rightarrow> Some k | EndCleanup k e \<Rightarrow> Some k | _ \<Rightarrow> None)"
| "cleans_of _ = None"

text \<open>The frames of an operation that counts as in flight.\<close>

fun in_operation :: "trace_frame \<Rightarrow> bool" where
  "in_operation (Admitting f) = (case f of AdmitCall _ _ \<Rightarrow> False | _ \<Rightarrow> True)"
| "in_operation (Getting f) = (case f of GetCall _ _ _ \<Rightarrow> False | _ \<Rightarrow> True)"
| "in_operation (Cancelling f) = (case f of CancelCall _ _ _ \<Rightarrow> False | _ \<Rightarrow> True)"
| "in_operation (Claiming f) = (case f of ClaimCall _ _ _ \<Rightarrow> False | _ \<Rightarrow> True)"
| "in_operation (Preflighting f) = (case f of PreflightCall _ _ \<Rightarrow> False | _ \<Rightarrow> True)"
| "in_operation _ = False"

definition bound_if_open :: "(nat \<times> string) set \<Rightarrow> trace_manager \<Rightarrow> nat \<Rightarrow> bool" where
  "bound_if_open H m k \<longleftrightarrow> (k \<in> fst ` H \<longrightarrow> tn_binding (object_at m k) \<noteq> None)"

fun admit_ok :: "(nat \<times> string) set \<Rightarrow> trace_manager \<Rightarrow> admit_frame \<Rightarrow> bool" where
  "admit_ok H m (AdmitReserve owner r) \<longleftrightarrow> permits (tm_policy m) r = None"
| "admit_ok H m (AdmitResolve k) \<longleftrightarrow> k \<notin> fst ` H"
| "admit_ok H m (AdmitAssign k w) \<longleftrightarrow> k \<notin> fst ` H \<and> validateWorkload (tn_request (object_at m k)) w = None"
| "admit_ok H m (AdmitBind k w) \<longleftrightarrow> validateWorkload (tn_request (object_at m k)) w = None \<and>
    tn_nodeUID (object_at m k) = ti_NodeUID (tw_Target w)"
| "admit_ok H m (AdmitStore k w b e) \<longleftrightarrow> validateWorkload (tn_request (object_at m k)) w = None \<and> (k \<in> fst ` H \<longrightarrow> b \<noteq> None)"
| "admit_ok H m (AdmitVerify k w b) \<longleftrightarrow> validateWorkload (tn_request (object_at m k)) w = None \<and> bound_if_open H m k"
| "admit_ok H m (AdmitCommit k w b spec) \<longleftrightarrow> validateWorkload (tn_request (object_at m k)) w = None \<and> bound_if_open H m k \<and>
    sameLifetime (bd_Target b) (tw_Target w) \<and>
    NewSpecification (tr_kind (tn_request (object_at m k))) (bd_Target b) (tr_paths (tn_request (object_at m k)))
      (tr_bounds (tn_request (object_at m k))) = Some spec"
| "admit_ok H m (AdmitRecord (Some k) e) \<longleftrightarrow> bound_if_open H m k"
| "admit_ok H m (AdmitFinish k e) \<longleftrightarrow> bound_if_open H m k"
| "admit_ok H m _ \<longleftrightarrow> True"

fun frame_ok :: "(nat \<times> string) set \<Rightarrow> trace_manager \<Rightarrow> trace_frame \<Rightarrow> bool" where
  "frame_ok H m (Admitting f) \<longleftrightarrow> admit_ok H m f"
| "frame_ok H m (Closing (EndCleanup k None)) \<longleftrightarrow> k \<notin> fst ` H"
| "frame_ok H m (Expiring AwaitInflight) \<longleftrightarrow> tm_closed m"
| "frame_ok H m (Expiring (ShutdownSwept e)) \<longleftrightarrow> tm_closed m"
| "frame_ok H m _ \<longleftrightarrow> True"

text \<open>The contract of the Node, for the answers that a frame is about to read.\<close>

fun node_answers :: "(nat \<times> string) set \<Rightarrow> trace_manager \<Rightarrow> trace_reading \<Rightarrow> trace_frame \<Rightarrow> bool" where
  "node_answers H m x (Admitting (AdmitBind k w)) \<longleftrightarrow> (fst (tx_bound x) = None \<longrightarrow> k \<notin> fst ` H)"
| "node_answers H m x (Closing (Unbind k)) \<longleftrightarrow> (tn_binding (object_at m k) \<noteq> None \<and> tx_alive x = None \<longrightarrow> k \<notin> fst ` H)"
| "node_answers H m x _ \<longleftrightarrow> True"

lemma admit_ok_mono:
  assumes "admit_ok H m f" and "tm_policy m' = tm_policy m"
    and "\<And>k. admits_of (Admitting f) = Some k \<Longrightarrow> tn_request (object_at m' k) = tn_request (object_at m k) \<and>
      tn_nodeUID (object_at m' k) = tn_nodeUID (object_at m k) \<and> tn_binding (object_at m' k) = tn_binding (object_at m k) \<and>
      (k \<in> fst ` H' \<longrightarrow> k \<in> fst ` H)"
  shows "admit_ok H' m' f"
  using assms(1,2,3) by (cases "(H, m, f)" rule: admit_ok.cases) (simp_all add: bound_if_open_def)

lemma frame_ok_mono:
  assumes "frame_ok H m f" and "tm_policy m' = tm_policy m"
    and "\<And>k. admits_of f = Some k \<Longrightarrow> tn_request (object_at m' k) = tn_request (object_at m k) \<and>
      tn_nodeUID (object_at m' k) = tn_nodeUID (object_at m k) \<and> tn_binding (object_at m' k) = tn_binding (object_at m k)"
    and "\<And>k. admits_of f = Some k \<or> cleans_of f = Some k \<Longrightarrow> k \<in> fst ` H' \<longrightarrow> k \<in> fst ` H"
    and "tm_closed m \<longrightarrow> tm_closed m'"
  shows "frame_ok H' m' f"
proof (cases "\<exists>g. f = Admitting g")
  case True
  then obtain g where f: "f = Admitting g" ..
  have "admit_ok H' m' g"
    by (rule admit_ok_mono [OF _ assms(2)]) (use assms(1,3,4) in \<open>auto simp only: f frame_ok.simps\<close>)
  then show ?thesis
    by (simp add: f)
next
  case False
  with assms(1,4,5) show ?thesis
    by (cases "(H, m, f)" rule: frame_ok.cases) simp_all
qed

lemma frame_ok_fewer: "frame_ok H m f \<Longrightarrow> H' \<subseteq> H \<Longrightarrow> frame_ok H' m f"
  by (erule frame_ok_mono) auto

lemma frame_ok_grows:
  assumes "frame_ok H m f" and "grows j m m'" and "\<And>k. admits_of f = Some k \<Longrightarrow> j \<noteq> Some k \<and> k < length (tm_objects m)"
  shows "frame_ok H m' f"
  using assms(1) by (rule frame_ok_mono) (use assms(2,3) in \<open>auto simp: grows_def\<close>)

lemma frame_ok_core:
  assumes "same_core m m'" and "frame_ok H m f"
  shows "frame_ok H m' f"
  using assms(2) by (rule frame_ok_mono) (use assms(1) in \<open>simp_all add: same_core_object, simp_all add: same_core_def\<close>)

subsection \<open>What a turn keeps\<close>

definition count_frames :: "(trace_frame \<Rightarrow> bool) \<Rightarrow> trace_frame list \<Rightarrow> nat" where
  "count_frames P fs = length (filter P fs)"

lemma count_frames_simps [simp]:
  "count_frames P [] = 0" "count_frames P (f # fs) = of_bool (P f) + count_frames P fs"
  "count_frames P (fs @ gs) = count_frames P fs + count_frames P gs"
  by (simp_all add: count_frames_def)

definition turn_ok :: "(nat \<times> string) set \<Rightarrow> trace_manager \<Rightarrow> trace_frame \<Rightarrow> trace_frame list \<Rightarrow> trace_manager \<Rightarrow> bool" where
  "turn_ok H m f fs m' \<longleftrightarrow> manager_ok H m' \<and> grows (admits_of f) m m' \<and> list_all (frame_ok H m') fs \<and>
    (\<forall>k. count_frames (\<lambda>g. admits_of g = Some k) fs + of_bool (init_at m k) = of_bool (init_at m' k) + of_bool (admits_of f = Some k)) \<and>
    (\<forall>k. count_frames (\<lambda>g. cleans_of g = Some k) fs + of_bool (cleaning_at m k) =
       of_bool (cleaning_at m' k) + of_bool (cleans_of f = Some k)) \<and>
    count_frames in_operation fs + tm_inflight m = tm_inflight m' + of_bool (in_operation f)"

definition turn_pre :: "(nat \<times> string) set \<Rightarrow> trace_manager \<Rightarrow> trace_reading \<Rightarrow> trace_frame \<Rightarrow> bool" where
  "turn_pre H m x f \<longleftrightarrow> manager_ok H m \<and> frame_ok H m f \<and> (\<forall>k. admits_of f = Some k \<longrightarrow> init_at m k) \<and>
     (\<forall>k. cleans_of f = Some k \<longrightarrow> cleaning_at m k) \<and> (in_operation f \<longrightarrow> 0 < tm_inflight m) \<and> node_answers H m x f"

fun pushed :: "trace_turn \<Rightarrow> trace_frame list" where
  "pushed (Goes fs) = fs"
| "pushed _ = []"

lemma turn_ok_core:
  assumes "manager_ok H m" and "same_core m m'" and "list_all (frame_ok H m') fs"
    and "\<And>k. count_frames (\<lambda>g. admits_of g = Some k) fs = of_bool (admits_of f = Some k)"
    and "\<And>k. count_frames (\<lambda>g. cleans_of g = Some k) fs = of_bool (cleans_of f = Some k)"
    and "count_frames in_operation fs + tm_inflight m = tm_inflight m' + of_bool (in_operation f)"
  shows "turn_ok H m f fs m'"
  using assms by (simp add: turn_ok_def manager_ok_core grows_core same_core_at)

lemma begun_ok:
  assumes "manager_ok H m" and "begun g m = (t, m')" and "frame_ok H m g"
    and "admits_of g = None" "cleans_of g = None" "in_operation g" "admits_of f = None" "cleans_of f = None" "\<not> in_operation f"
  shows "turn_ok H m f (pushed t) m'"
proof (cases "tm_closed m \<or> tm_stopped m")
  case True
  with assms show ?thesis
    by (auto simp: begun_def beginOperation_def intro!: turn_ok_core)
next
  case False
  then have t: "t = Goes [g]" "m' = m\<lparr>tm_inflight := Suc (tm_inflight m)\<rparr>"
    using assms(2) by (simp_all add: begun_def beginOperation_def)
  have "frame_ok H m' g"
    by (rule frame_ok_core [OF _ assms(3)]) (simp add: t)
  with assms t show ?thesis
    by (intro turn_ok_core) simp_all
qed

lemma ended_ok:
  assumes "manager_ok H m" and "in_operation f" "0 < tm_inflight m" "admits_of f = None" "cleans_of f = None"
  shows "turn_ok H m f [] (endOperation m)"
  using assms by (intro turn_ok_core) (simp_all add: endOperation_def)

text \<open>A turn between frames that hold no entry, which edits objects without harm.\<close>

lemma turn_ok_plain:
  assumes "manager_ok H m'" and "grows None m m'" and "\<And>k. init_at m' k = init_at m k" "\<And>k. cleaning_at m' k = cleaning_at m k"
    and "list_all (\<lambda>g. admits_of g = None \<and> cleans_of g = None \<and> frame_ok H m' g) (f # fs)"
    and "count_frames in_operation fs + tm_inflight m = tm_inflight m' + of_bool (in_operation f)"
  shows "turn_ok H m f fs m'"
proof -
  have none: "list_all (\<lambda>g. admits_of g = None) fs" "list_all (\<lambda>g. cleans_of g = None) fs"
    using assms(5) by (auto simp: list_all_iff)
  have "count_frames (\<lambda>g. admits_of g = Some k) fs = 0" "count_frames (\<lambda>g. cleans_of g = Some k) fs = 0" for k
    using none by (auto simp: count_frames_def list_all_iff filter_empty_conv)
  with assms show ?thesis
    by (auto simp: turn_ok_def list_all_iff)
qed

lemma turn_ok_still:
  assumes "manager_ok H m" and "same_core m m'"
    and "list_all (\<lambda>g. admits_of g = None \<and> cleans_of g = None \<and> frame_ok H m' g) (f # fs)"
    and "count_frames in_operation fs + tm_inflight m = tm_inflight m' + of_bool (in_operation f)"
  shows "turn_ok H m f fs m'"
  using assms by (intro turn_ok_plain) (simp_all add: manager_ok_core grows_core same_core_at)

lemma turn_ok_edit:
  assumes "manager_ok H m" and "benign e" and "same_core (edit k e m) m'" and "tm_inflight m' = tm_inflight m"
    and "list_all (\<lambda>g. admits_of g = None \<and> cleans_of g = None \<and> frame_ok H m' g) (f # fs)"
    and "count_frames in_operation fs = of_bool (in_operation f)"
  shows "turn_ok H m f fs m'"
proof -
  have "manager_ok H (edit k e m)"
    using assms(1,2) by (simp add: manager_ok_edit)
  with assms show ?thesis
    by (intro turn_ok_plain)
      (auto simp: manager_ok_core same_core_at at_edit_benign intro: grows_trans [OF grows_benign grows_core])
qed

lemma turn_ok_fold:
  assumes "manager_ok H m" and "benign e" and "same_core m m1" and "m' = fold (\<lambda>k. edit k e) ks m1" and "tm_inflight m1 = tm_inflight m"
    and "list_all (\<lambda>g. admits_of g = None \<and> cleans_of g = None \<and> frame_ok H m' g) (f # fs)"
    and "count_frames in_operation fs = of_bool (in_operation f)"
  shows "turn_ok H m f fs m'"
proof -
  have "manager_ok H m'"
    using assms(1-4) by (simp add: manager_ok_fold manager_ok_core)
  with assms show ?thesis
    by (intro turn_ok_plain)
      (auto simp: same_core_at at_fold_benign intro: grows_trans [OF grows_core grows_fold])
qed

lemma get_turn_ok:
  assumes "turn_pre H m x (Getting f)" and "get_turn L x m f = (t, m')" and "t \<noteq> Waits"
  shows "turn_ok H m (Getting f) (pushed t) m'"
proof -
  have m: "manager_ok H m" and op: "in_operation (Getting f) \<Longrightarrow> 0 < tm_inflight m"
    using assms(1) by (simp_all add: turn_pre_def)
  show ?thesis
  proof (cases f)
    case (GetCall info ns key)
    with assms(2) show ?thesis
      by (auto intro: begun_ok [OF m])
  next
    case (GetEnd result)
    with assms(2) op show ?thesis
      by (auto split: sum.splits intro!: ended_ok [OF m])
  next
    case (GetRecord result)
    with assms(2) show ?thesis
      by (auto split: prod.splits dest!: recorded_core intro!: turn_ok_still [OF m])
  qed (use m assms(2) in \<open>auto split: sum.splits option.splits bool.splits prod.splits intro!: turn_ok_still\<close>)
qed

lemma cancel_turn_ok:
  assumes "turn_pre H m x (Cancelling f)" and "cancel_turn L x m f = (t, m')" and "t \<noteq> Waits"
  shows "turn_ok H m (Cancelling f) (pushed t) m'"
proof -
  have m: "manager_ok H m" and op: "in_operation (Cancelling f) \<Longrightarrow> 0 < tm_inflight m"
    using assms(1) by (simp_all add: turn_pre_def)
  show ?thesis
  proof (cases f)
    case (CancelCall info ns key)
    with assms(2) show ?thesis
      by (auto intro: begun_ok [OF m])
  next
    case (CancelEnd result)
    with assms(2) op show ?thesis
      by (auto intro!: ended_ok [OF m])
  next
    case (CancelRecord result)
    with assms(2) show ?thesis
      by (auto split: prod.splits dest!: recorded_core intro!: turn_ok_still [OF m])
  qed (use m assms(2) in \<open>auto split: sum.splits option.splits intro!: turn_ok_still\<close>)
qed

lemma preflight_turn_ok:
  assumes "turn_pre H m x (Preflighting f)" and "preflight_turn L x m f = (t, m')" and "t \<noteq> Waits"
  shows "turn_ok H m (Preflighting f) (pushed t) m'"
proof -
  have m: "manager_ok H m" and op: "in_operation (Preflighting f) \<Longrightarrow> 0 < tm_inflight m"
    using assms(1) by (simp_all add: turn_pre_def)
  show ?thesis
  proof (cases f)
    case (PreflightCall info r)
    with assms(2) show ?thesis
      by (auto intro: begun_ok [OF m])
  next
    case (PreflightEnd result)
    with assms(2) op show ?thesis
      by (auto intro!: ended_ok [OF m])
  next
    case (PreflightRecord result)
    with assms(2) show ?thesis
      by (auto split: prod.splits dest!: recorded_core intro!: turn_ok_still [OF m])
  qed (use m assms(2) in \<open>auto intro!: turn_ok_still\<close>)
qed

lemma claim_commit_cases:
  assumes "claim_commit cancelled now owner ns key lasting m = (result, m')"
  obtains e where "result = Inl e" and "m' = m"
  | k e where "result = Inr k" and "benign e" and "same_core (edit k e m) m'" and "tm_inflight m' = tm_inflight m"
proof (cases result)
  case (Inl e)
  with assms have "m' = m"
    by (auto simp: claim_commit_def Let_def split: option.splits if_splits)
  with Inl show ?thesis
    by (rule that(1))
next
  case (Inr k)
  let ?e = "\<lambda>e. e\<lparr>tn_expires := now + lasting, tn_stage := StActive, tn_consumerRunning := True\<rparr>"
  have m': "m' = (edit k ?e m)\<lparr>tm_parents := k # tm_parents m\<rparr>"
    using assms Inr by (auto simp: claim_commit_def Let_def split: option.splits if_splits)
  show ?thesis
    by (rule that(2) [of k ?e]) (simp_all add: Inr m' benign_def)
qed

lemma claim_turn_ok:
  assumes "turn_pre H m x (Claiming f)" and "claim_turn L x m f = (t, m')" and "t \<noteq> Waits"
  shows "turn_ok H m (Claiming f) (pushed t) m'"
proof -
  have m: "manager_ok H m" and op: "in_operation (Claiming f) \<Longrightarrow> 0 < tm_inflight m"
    using assms(1) by (simp_all add: turn_pre_def)
  show ?thesis
  proof (cases f)
    case (ClaimCall info ns key)
    with assms(2) show ?thesis
      by (auto intro: begun_ok [OF m])
  next
    case (ClaimEnd result)
    with assms(2) op show ?thesis
      by (auto intro!: ended_ok [OF m])
  next
    case (ClaimRecord result)
    then obtain e m1 where r: "recorded x (case result of Inl e \<Rightarrow> Some e | Inr _ \<Rightarrow> None) m = (e, m1)"
      by fastforce
    with ClaimRecord assms(2) m recorded_core [OF r] show ?thesis
      by (auto simp: Let_def split: option.splits sum.splits intro!: turn_ok_still)
  next
    case (ClaimCommit owner ns key admission)
    let ?c = "claim_commit (tx_cancelled x 0) (tx_now x) owner ns key
      (case admission of None \<Rightarrow> 0 | Some a \<Rightarrow> tb_Duration (tq_bounds (td_specification a))) m"
    obtain result m1 where c: "?c = (result, m1)"
      by fastforce
    with ClaimCommit assms(2) have t: "t = Goes [Claiming (ClaimRecord result)]" "m' = m1"
      by simp_all
    from c show ?thesis
    proof (cases rule: claim_commit_cases)
      case (1 e)
      with m ClaimCommit t show ?thesis
        by (auto intro!: turn_ok_still)
    next
      case (2 k e)
      with m ClaimCommit t show ?thesis
        by (auto intro!: turn_ok_edit)
    qed
  qed (use m assms(2,3) in \<open>auto split: sum.splits option.splits intro!: turn_ok_still\<close>)
qed

lemma endConsumer_cases:
  "endConsumer key m = m \<or> (\<exists>k. endConsumer key m = edit k (\<lambda>e. e\<lparr>tn_consumerRunning := False\<rparr>) m)"
  by (cases "mget (tm_entries m) key") (auto simp: endConsumer_def)

lemma lease_turn_ok:
  assumes "turn_pre H m x (Leasing f)" and "lease_turn L x m f = (t, m')" and "t \<noteq> Waits"
  shows "turn_ok H m (Leasing f) (pushed t) m'"
proof -
  have m: "manager_ok H m"
    using assms(1) by (simp_all add: turn_pre_def)
  show ?thesis
  proof (cases f)
    case (ConsumerEnd k)
    let ?e = "\<lambda>e. e\<lparr>tn_consumerRunning := False\<rparr>" and ?key = "tn_id (object_at m k)"
    have e: "benign ?e"
      by (simp add: benign_def)
    have t: "t = Goes [discarding ?key (Some TrCancelled)]" "m' = endConsumer ?key m"
      using ConsumerEnd assms(2) by simp_all
    from endConsumer_cases [of ?key m] show ?thesis
    proof
      assume "endConsumer ?key m = m"
      with m ConsumerEnd t show ?thesis
        by (auto intro!: turn_ok_still)
    next
      assume "\<exists>j. endConsumer ?key m = edit j ?e m"
      then obtain j where "m' = edit j ?e m"
        using t by auto
      with ConsumerEnd t(1) show ?thesis
        by (auto intro!: turn_ok_edit [OF m e, of j])
    qed
  qed (use m assms(2) in \<open>auto simp: Let_def split: option.splits intro!: turn_ok_still\<close>)
qed

lemma recordTerminal_cases:
  assumes "recordTerminal d k m = (e, m')"
  obtains "m' = m" | f m1 where "benign f" and "same_core m m1" and "tm_inflight m1 = tm_inflight m" and "m' = edit k f m1"
proof (cases "tn_terminal (object_at m k)")
  case None
  obtain a m1 where a: "emitAudit d m = (a, m1)"
    by fastforce
  with None assms have "m' = edit k (\<lambda>o'. o'\<lparr>tn_terminal := Some (a \<noteq> None)\<rparr>) m1"
    by (auto simp: recordTerminal_def)
  with emitAudit_core [OF a] show ?thesis
    by (intro that(2) [of "\<lambda>o'. o'\<lparr>tn_terminal := Some (a \<noteq> None)\<rparr>" m1]) (simp_all add: benign_def)
next
  case (Some failed)
  with assms show ?thesis
    by (intro that(1)) (simp add: recordTerminal_def)
qed

lemma expiry_turn_ok:
  assumes "turn_pre H m x (Expiring f)" and "expiry_turn x m f = (t, m')" and "t \<noteq> Waits"
  shows "turn_ok H m (Expiring f) (pushed t) m'"
proof -
  have m: "manager_ok H m"
    using assms(1) by (simp_all add: turn_pre_def)
  show ?thesis
  proof (cases f)
    case (SweepCall shutdown)
    have "benign (sweep_marked shutdown (tx_now x))"
      by (simp add: benign_def sweep_marked_def closing_entry_def)
    with SweepCall m assms(2) show ?thesis
      by (auto simp: sweep_def edit_live_def Let_def intro!: turn_ok_fold)
  next
    case (SweepNext ks failed)
    with m assms(2) show ?thesis
      by (cases ks) (auto intro!: turn_ok_still)
  next
    case (ExpirySelect timer)
    show ?thesis
    proof (cases "tx_case x = ContextDone")
      case True
      have "m' = fold (\<lambda>k. edit k (closing_entry (Some TrCancelled))) (map snd (tm_entries m)) (m\<lparr>tm_closed := True\<rparr>)"
        "t = Goes [Expiring AwaitInflight]"
        using ExpirySelect True assms(2,3) by (auto simp: begin_shutdown_def edit_live_def split: if_splits)
      with ExpirySelect show ?thesis
        by (auto intro!: turn_ok_fold [OF m benign_closing [of "Some TrCancelled"], of "m\<lparr>tm_closed := True\<rparr>"])
    next
      case False
      with ExpirySelect m assms(2,3) show ?thesis
        by (auto split: selected_case.splits if_splits intro!: turn_ok_still)
    qed
  next
    case (ShutdownSwept e)
    have c: "tm_closed m"
      using ShutdownSwept assms(1) by (simp add: turn_pre_def)
    then have "manager_ok H (end_shutdown e m)"
      using m by (auto simp: end_shutdown_def manager_ok_def manager_parts quotas_ok_def held_def live_objects_def registered_def
          init_at_def cleaning_at_def object_at_def mlen_def)
    with ShutdownSwept m c assms(2,3) show ?thesis
      by (auto intro!: turn_ok_plain) (auto simp: end_shutdown_def grows_def object_at_def init_at_def cleaning_at_def)
  next
    case AwaitInflight
    then show ?thesis
      using m assms by (auto simp: turn_pre_def split: if_splits intro!: turn_ok_still)
  qed (use m assms(2,3) in \<open>auto split: if_splits intro!: turn_ok_still\<close>)
qed

lemma unbound_closed:
  assumes "manager_ok H m" and "cleaning_at m k" and "tn_binding (object_at m k) = None"
  shows "k \<notin> fst ` H"
  using assms by (force simp: manager_ok_def handles_ok_def phases_ok_def)

lemma close_frame_turn_ok:
  assumes "turn_pre H m x (Closing f)" and "close_frame_turn x m f = (t, m')" and "t \<noteq> Waits"
  shows "turn_ok H m (Closing f) (pushed t) m'"
proof -
  have m: "manager_ok H m"
    using assms(1) by (simp add: turn_pre_def)
  show ?thesis
  proof (cases f)
    case (Discard key cause)
    show ?thesis
    proof (cases "mget (tm_entries m) key")
      case None
      with Discard m assms(2) show ?thesis
        by (auto intro!: turn_ok_still)
    next
      case (Some k)
      with Discard assms(2) show ?thesis
        by (auto simp: markClosing_def intro!: turn_ok_edit [OF m benign_closing [of cause], of k])
    qed
  next
    case (CloseEntry k)
    show ?thesis
    proof (cases "close_turn k m")
      case TurnClean
      then have "k < length (tm_objects m)"
        using m by (auto simp: close_turn_def Let_def registered_def manager_ok_def keyed_entries_def split: if_splits)
      note ok = start_cleanup_ok [OF m TurnClean this]
      from CloseEntry TurnClean assms(2) ok show ?thesis
        by (auto simp: turn_ok_def start_cleanup_def)
    qed (use CloseEntry m assms(2) in \<open>auto intro!: turn_ok_still\<close>)
  next
    case (Unbind k)
    then have k: "cleaning_at m k" and n: "tn_binding (object_at m k) \<noteq> None \<and> tx_alive x = None \<longrightarrow> k \<notin> fst ` H"
      using assms(1) by (auto simp: turn_pre_def)
    let ?e = "if tn_binding (object_at m k) = None then None else tx_alive x"
    have "?e = None \<longrightarrow> k \<notin> fst ` H"
      using n unbound_closed [OF m k] by auto
    then have "frame_ok H m (Closing (EndCleanup k ?e))"
      by (cases ?e) simp_all
    with Unbind m assms(2) show ?thesis
      by (auto simp: turn_ok_def grows_core)
  next
    case (EndCleanup k e)
    then have k: "cleaning_at m k" and e: "e = None \<Longrightarrow> k \<notin> fst ` H"
      using assms(1) by (auto simp: turn_pre_def)
    from end_cleanup_ok [OF m k e] EndCleanup k assms(2) show ?thesis
      by (auto simp: turn_ok_def)
  next
    case (ReportTerminal k e)
    show ?thesis
    proof (cases "tn_result (object_at m k)")
      case None
      with ReportTerminal m assms(2) show ?thesis
        by (auto intro!: turn_ok_still)
    next
      case (Some a)
      obtain b m1 where r: "recordTerminal (tx_delivered x) k m = (b, m1)"
        by fastforce
      with ReportTerminal Some assms(2) have t: "t = Goes [Closing (ReportCleanup e (b \<noteq> None))]" "m' = m1"
        by auto
      from r show ?thesis
      proof (cases rule: recordTerminal_cases)
        case 1
        with ReportTerminal m t show ?thesis
          by (auto intro!: turn_ok_still)
      next
        case (2 g m2)
        with ReportTerminal t show ?thesis
          by (auto intro!: turn_ok_fold [OF m 2(1,2), of _ "[k]"])
      qed
    qed
  next
    case (ReportCleanup e failed)
    with m assms(2) show ?thesis
      by (auto split: prod.splits dest!: emitAudit_core intro!: turn_ok_still)
  qed (use m assms(2,3) in \<open>auto split: if_splits intro!: turn_ok_still\<close>)
qed

text \<open>An admission passes its entry on.\<close>

lemma turn_ok_pass:
  assumes "manager_ok H m'" and "grows (Some k) m m'" and "\<And>j. init_at m' j = init_at m j" "\<And>j. cleaning_at m' j = cleaning_at m j"
    and "admits_of (Admitting f) = Some k" "admits_of (Admitting g) = Some k" "admit_ok H m' g"
    and "tm_inflight m' = tm_inflight m"
  shows "turn_ok H m (Admitting f) [Admitting g] m'"
proof -
  have "in_operation (Admitting f)" "in_operation (Admitting g)"
    using assms(5,6) by (auto split: admit_frame.splits)
  with assms show ?thesis
    by (simp add: turn_ok_def del: admits_of.simps in_operation.simps)
qed

lemma admission_ok_verified:
  assumes "validateWorkload r w = None" and "sameLifetime (bd_Target b) (tw_Target w)" and "permits (tm_policy m) r = None"
    and "NewSpecification (tr_kind r) (bd_Target b) (tr_paths r) (tr_bounds r) = Some spec"
  shows "admission_ok (tm_policy m) r (admission_of m k spec)"
  using assms NewSpecification_idempotent [OF assms(4)]
  by (auto simp: admission_ok_def admission_of_def Let_def validateWorkload_def sameLifetime_def NewSpecification_def split: if_splits)

lemma node_of_workload: "validateWorkload r w = None \<Longrightarrow> ti_NodeUID (tw_Target w) \<noteq> ''''"
  by (auto simp: validateWorkload_def ValidateLifetime_def split: if_splits)

lemma admit_verify_Inr:
  "admit_verify L x r w b = Inr spec \<Longrightarrow> sameLifetime (bd_Target b) (tw_Target w) \<and>
    NewSpecification (tr_kind r) (bd_Target b) (tr_paths r) (tr_bounds r) = Some spec"
  by (auto simp: admit_verify_def split: if_splits option.splits)

lemma admit_checks_Inr: "admit_checks L x m info r = Inr owner \<Longrightarrow> permits (tm_policy m) r = None"
  by (auto simp: admit_checks_def split: if_splits option.splits)

lemma admit_turn_ok:
  assumes "turn_pre H m x (Admitting f)" and "admit_turn L x m f = (t, m')" and "t \<noteq> Waits"
  shows "turn_ok H m (Admitting f) (pushed t) m'"
proof -
  have m: "manager_ok H m" and op: "in_operation (Admitting f) \<Longrightarrow> 0 < tm_inflight m"
    and at: "\<And>k. admits_of (Admitting f) = Some k \<Longrightarrow> init_at m k" and ok: "admit_ok H m f"
    using assms(1) by (simp_all add: turn_pre_def)
  have results: "\<And>k. init_at m k \<Longrightarrow> permits (tm_policy m) (tn_request (object_at m k)) = None"
    using m by (simp add: manager_ok_def results_ok_def init_at_def)
  have bound: "bound_if_open H m k" if "k \<notin> fst ` H" for k
    using that by (simp add: bound_if_open_def)
  show ?thesis
  proof (cases f)
    case (AdmitCall info r)
    with assms(2) show ?thesis
      by (auto intro: begun_ok [OF m])
  next
    case (AdmitChecks info r)
    with m assms(2) show ?thesis
      by (auto split: sum.splits dest: admit_checks_Inr intro!: turn_ok_still)
  next
    case (AdmitReserve owner r)
    obtain result m1 where r: "reserve (tx_id x) (tx_now x) owner r m = (result, m1)"
      by fastforce
    have "permits (tm_policy m) r = None"
      using ok AdmitReserve by simp
    note new = reserve_ok [OF m this r]
    show ?thesis
      using AdmitReserve r assms(2) new(1,2,3,5,6) new(4) by (cases result) (auto simp: turn_ok_def)
  next
    case (AdmitResolve k)
    with m assms(2) ok bound show ?thesis
      by (auto split: sum.splits option.splits intro!: turn_ok_pass grows_core)
  next
    case (AdmitAssign k w)
    obtain result m1 where r: "assignNode (tx_now x) k (ti_NodeUID (tw_Target w)) m = (result, m1)"
      by fastforce
    have k: "init_at m k" "k \<notin> fst ` H" and w: "validateWorkload (tn_request (object_at m k)) w = None"
      using at ok AdmitAssign by simp_all
    note new = assignNode_ok [OF m k node_of_workload [OF w] r]
    have "tn_request (object_at m1 k) = tn_request (object_at m k)"
      using new(2) k(1) by (simp add: grows_def init_at_def)
    with AdmitAssign r assms(2) w new k show ?thesis
      by (cases result) (auto simp: bound_if_open_def intro!: turn_ok_pass)
  next
    case (AdmitBind k w)
    with assms(1) have "fst (tx_bound x) = None \<longrightarrow> k \<notin> fst ` H"
      by (simp add: turn_pre_def)
    with AdmitBind m assms(2) ok show ?thesis
      by (auto intro!: turn_ok_pass grows_core)
  next
    case (AdmitStore k w b e)
    have k: "init_at m k"
      using at AdmitStore by simp
    let ?m = "edit k (\<lambda>o'. o'\<lparr>tn_binding := b\<rparr>) m"
    note new = store_ok [OF m k refl, of b]
    have "tn_binding (object_at ?m k) = b" "tn_request (object_at ?m k) = tn_request (object_at m k)"
      using k by (simp_all add: object_at_edit init_at_def)
    with AdmitStore assms(2) ok new show ?thesis
      by (cases e; cases b) (auto simp: bound_if_open_def intro!: turn_ok_pass)
  next
    case (AdmitVerify k w b)
    show ?thesis
    proof (cases "admit_verify L x (tn_request (object_at m k)) w b")
      case (Inl e)
      with AdmitVerify m assms(2) ok show ?thesis
        by (auto intro!: turn_ok_pass grows_core)
    next
      case (Inr spec)
      with AdmitVerify assms(2) have t: "t = Goes [Admitting (AdmitCommit k w b spec)]" "m' = m"
        by simp_all
      show ?thesis
        unfolding AdmitVerify t pushed.simps
        by (rule turn_ok_pass [where k = k])
          (use m ok AdmitVerify admit_verify_Inr [OF Inr] in \<open>simp_all add: grows_core\<close>)
    qed
  next
    case (AdmitCommit k w b spec)
    obtain result m1 where r: "commit_admission (tx_now x) k w b spec m = (result, m1)"
      by fastforce
    have k: "init_at m k"
      using at AdmitCommit by simp
    have "admission_ok (tm_policy m) (tn_request (object_at m k)) (admission_of m k spec)"
      using ok AdmitCommit results [OF k] by (auto intro!: admission_ok_verified)
    note new = commit_admission_ok [OF m k r this]
    show ?thesis
      using AdmitCommit r assms(2) ok new by (cases result) (auto simp: bound_if_open_def intro!: turn_ok_pass)
  next
    case (AdmitRecord reserved e)
    obtain e' m1 where r: "recorded x e m = (e', m1)"
      by fastforce
    show ?thesis
    proof (cases reserved)
      case None
      with AdmitRecord r m assms(2) recorded_core [OF r] show ?thesis
        by (auto intro!: turn_ok_still)
    next
      case (Some k)
      with AdmitRecord r m ok assms(2) recorded_core [OF r] show ?thesis
        by (auto simp: manager_ok_core grows_core same_core_at bound_if_open_def same_core_object intro!: turn_ok_pass)
    qed
  next
    case (AdmitFinish k e)
    obtain e' close m1 where r: "finishAdmission (tx_now x) k e m = ((e', close), m1)"
      by (metis surj_pair)
    have k: "init_at m k" and b: "k \<in> fst ` H \<Longrightarrow> tn_binding (object_at m k) \<noteq> None"
      using at ok AdmitFinish by (simp_all add: bound_if_open_def)
    from AdmitFinish r k assms(2) finish_ok [OF m k b r] show ?thesis
      by (auto simp: turn_ok_def)
  next
    case (AdmitEnd reserved e)
    with assms(2) op show ?thesis
      by (auto intro!: ended_ok [OF m])
  qed
qed

lemma turn_keeps:
  assumes "turn_pre H m x f" and "turn L x m f = (t, m')" and "t \<noteq> Waits"
  shows "turn_ok H m f (pushed t) m'"
  using assms
  by (cases f) (auto intro: admit_turn_ok get_turn_ok cancel_turn_ok claim_turn_ok preflight_turn_ok lease_turn_ok
      close_frame_turn_ok expiry_turn_ok)

end
