(* ===== verification/Trace_System.thy ===== *)
theory Trace_System
  imports Trace_Run
begin

text \<open>
  The manager of trace admissions as a system that runs: any number of stacks of operations, the expiry loop, the ends of
  the contexts, and the handles that the Nodes hold for it. The invariant adds to the one of the manager that every frame
  is in order, and that an entry being initialised or cleaned has exactly one frame at it, so no frame is disturbed by the
  turn of another.
\<close>

subsection \<open>Steps\<close>

record trace_system =
  ty_manager :: trace_manager
  ty_stacks :: "trace_frame list list"
  ty_handles :: "(nat \<times> string) set"

fun is_call :: "trace_frame \<Rightarrow> bool" where
  "is_call (Admitting (AdmitCall _ _)) \<longleftrightarrow> True"
| "is_call (Getting (GetCall _ _ _)) \<longleftrightarrow> True"
| "is_call (Cancelling (CancelCall _ _ _)) \<longleftrightarrow> True"
| "is_call (Claiming (ClaimCall _ _ _)) \<longleftrightarrow> True"
| "is_call (Preflighting (PreflightCall _ _)) \<longleftrightarrow> True"
| "is_call (Leasing (LeaseRevalidate _ _)) \<longleftrightarrow> True"
| "is_call (Leasing (LeaseClose _)) \<longleftrightarrow> True"
| "is_call (Leasing (ConsumerEnd _)) \<longleftrightarrow> True"
| "is_call _ \<longleftrightarrow> False"

text \<open>
  \<open>ended\<close> is the \<open>context.AfterFunc\<close> of a lease; \<open>opened\<close> is a Node that opens a handle while \<open>Bind\<close> runs, on the Node of
  the workload; \<open>lost\<close> are handles that expire at their Node or go with it.
\<close>

inductive trace_step :: "trace_lib \<Rightarrow> trace_system \<Rightarrow> trace_system \<Rightarrow> bool" for L where
  called: "is_call f \<Longrightarrow> trace_step L s (s\<lparr>ty_stacks := ty_stacks s @ [[f]]\<rparr>)"
| ended: "k \<in> set (tm_parents (ty_manager s)) \<Longrightarrow> trace_step L s
    (s\<lparr>ty_manager := (ty_manager s)\<lparr>tm_parents := removeAll k (tm_parents (ty_manager s))\<rparr>,
       ty_stacks := ty_stacks s @ [[Leasing (ConsumerEnd k)]]\<rparr>)"
| stopped: "trace_step L s (s\<lparr>ty_manager := (ty_manager s)\<lparr>tm_stopped := True\<rparr>\<rparr>)"
| opened: "i < length (ty_stacks s) \<Longrightarrow> ty_stacks s ! i = Admitting (AdmitBind k w) # below \<Longrightarrow>
    trace_step L s (s\<lparr>ty_handles := insert (k, ti_NodeUID (tw_Target w)) (ty_handles s)\<rparr>)"
| lost: "H \<subseteq> ty_handles s \<Longrightarrow> trace_step L s (s\<lparr>ty_handles := H\<rparr>)"
| turned: "i < length (ty_stacks s) \<Longrightarrow> ty_stacks s ! i = f # below \<Longrightarrow> node_answers (ty_handles s) (ty_manager s) x f \<Longrightarrow>
    stack_turn L x (ty_manager s) (f # below) = Some (stack, m) \<Longrightarrow>
    trace_step L s (s\<lparr>ty_manager := m, ty_stacks := (ty_stacks s)[i := stack]\<rparr>)"

definition trace_initial :: "trace_policy \<Rightarrow> trace_system \<Rightarrow> bool" where
  "trace_initial p s \<longleftrightarrow> NewManager p True = Some (ty_manager s) \<and> ty_stacks s = [[Expiring ExpiryLoop]] \<and> ty_handles s = {}"

subsection \<open>Stacks\<close>

definition tally :: "(trace_frame \<Rightarrow> bool) \<Rightarrow> trace_frame list list \<Rightarrow> nat" where
  "tally P stacks = count_frames P (concat stacks)"

lemma tally_simps [simp]:
  "tally P [] = 0" "tally P (s # stacks) = count_frames P s + tally P stacks" "tally P (a @ b) = tally P a + tally P b"
  by (simp_all add: tally_def)

lemma tally_update:
  "i < length stacks \<Longrightarrow> tally P (stacks[i := s]) + count_frames P (stacks ! i) = tally P stacks + count_frames P s"
proof (induction stacks arbitrary: i)
  case (Cons a stacks)
  then show ?case
    by (cases i) simp_all
qed simp

lemma frames_update:
  "i < length stacks \<Longrightarrow> set (concat (stacks[i := s])) = set s \<union> set (concat (stacks[i := []]))"
proof (induction stacks arbitrary: i)
  case (Cons a stacks)
  then show ?case
    by (cases i) auto
qed simp

lemma frames_split: "i < length stacks \<Longrightarrow> set (concat stacks) = set (stacks ! i) \<union> set (concat (stacks[i := []]))"
  using frames_update [of i stacks "stacks ! i"] by simp

lemma tally_pos: "f \<in> set (concat stacks) \<Longrightarrow> P f \<Longrightarrow> 0 < tally P stacks"
  by (auto simp: tally_def count_frames_def filter_empty_conv)

definition resumed :: "trace_turn \<Rightarrow> trace_frame list \<Rightarrow> trace_frame list" where
  "resumed t below = (case (t, below) of (Returns e a, g # gs) \<Rightarrow> resume e a g # gs | _ \<Rightarrow> below)"

lemma stack_turn_cases:
  assumes "stack_turn L x m (f # below) = Some (stack, m')"
  obtains t where "turn L x m f = (t, m')" and "t \<noteq> Waits" and "stack = pushed t @ resumed t below"
  using assms by (auto simp: stack_turn_def resumed_def split: trace_turn.splits prod.splits list.splits)

lemma resume_keeps:
  "admits_of (resume e a f) = admits_of f" "cleans_of (resume e a f) = cleans_of f"
  "in_operation (resume e a f) = in_operation f" "frame_ok H m (resume e a f) = frame_ok H m f"
  by (cases "(e, a, f)" rule: resume.cases; simp split: option.splits)+

lemma resumed_count:
  "(\<And>e a f. P (resume e a f) = P f) \<Longrightarrow> count_frames P (resumed t below) = count_frames P below"
  by (auto simp: resumed_def split: trace_turn.splits list.splits)

lemma resumed_ok: "list_all (frame_ok H m) (resumed t below) = list_all (frame_ok H m) below"
  by (auto simp: resumed_def resume_keeps split: trace_turn.splits list.splits)

subsection \<open>The invariant\<close>

definition system_ok :: "trace_policy \<Rightarrow> trace_system \<Rightarrow> bool" where
  "system_ok p s \<longleftrightarrow>
    (let m = ty_manager s
     in tm_policy m = p \<and> policy_valid p \<and> manager_ok (ty_handles s) m \<and>
        (\<forall>f \<in> set (concat (ty_stacks s)). frame_ok (ty_handles s) m f) \<and>
        (\<forall>k. tally (\<lambda>f. admits_of f = Some k) (ty_stacks s) = of_bool (init_at m k)) \<and>
        (\<forall>k. tally (\<lambda>f. cleans_of f = Some k) (ty_stacks s) = of_bool (cleaning_at m k)) \<and>
        tally in_operation (ty_stacks s) = tm_inflight m)"

lemma system_initial:
  assumes "trace_initial p s"
  shows "system_ok p s"
proof -
  have p: "policy_valid p" and m: "ty_manager s = \<lparr>tm_policy = p, tm_objects = [], tm_entries = [], tm_auditFailed = False,
      tm_inflight = 0, tm_stopped = False, tm_closed = False, tm_parents = [], tm_shutdown = None\<rparr>"
    using assms by (auto simp: trace_initial_def NewManager_def split: if_splits)
  have "quotas_ok (ty_manager s)"
    using p by (simp add: m quotas_ok_def held_def live_objects_def mlen_def policy_valid_def)
  then have "manager_ok {} (ty_manager s)"
    by (simp add: manager_ok_def manager_parts init_at_def cleaning_at_def m mwf_def)
  with assms p show ?thesis
    by (simp add: system_ok_def trace_initial_def Let_def m init_at_def cleaning_at_def)
qed

lemma call_harmless:
  "is_call f \<Longrightarrow> admits_of f = None \<and> cleans_of f = None \<and> \<not> in_operation f \<and> frame_ok H m f"
  by (cases f rule: is_call.cases) simp_all

text \<open>A new stack of one frame that holds nothing.\<close>

lemma system_called:
  assumes "system_ok p s" and "is_call f"
  shows "system_ok p (s\<lparr>ty_stacks := ty_stacks s @ [[f]]\<rparr>)"
  using assms call_harmless [OF assms(2)] by (auto simp: system_ok_def Let_def)

text \<open>A change of the manager that leaves its entries alone.\<close>

lemma system_core:
  assumes "system_ok p s" and "same_core (ty_manager s) m" and "tm_inflight m = tm_inflight (ty_manager s)"
  shows "system_ok p (s\<lparr>ty_manager := m\<rparr>)"
  using assms by (auto simp: system_ok_def Let_def manager_ok_core same_core_at intro: frame_ok_core) (simp add: same_core_def)

lemma system_lost: "system_ok p s \<Longrightarrow> H \<subseteq> ty_handles s \<Longrightarrow> system_ok p (s\<lparr>ty_handles := H\<rparr>)"
  by (auto simp: system_ok_def Let_def intro: manager_ok_fewer frame_ok_fewer)

text \<open>The frame that a turn is about to run, and those that stay.\<close>

lemma system_frame:
  assumes "system_ok p s" and "i < length (ty_stacks s)" and "ty_stacks s ! i = f # below"
  shows "frame_ok (ty_handles s) (ty_manager s) f"
    and "admits_of f = Some k \<Longrightarrow> init_at (ty_manager s) k"
    and "cleans_of f = Some k \<Longrightarrow> cleaning_at (ty_manager s) k"
    and "in_operation f \<Longrightarrow> 0 < tm_inflight (ty_manager s)"
proof -
  have f: "f \<in> set (concat (ty_stacks s))"
    using assms(2,3) by (metis concat.simps in_set_conv_nth list.set_intros(1) set_concat UN_I)
  show "frame_ok (ty_handles s) (ty_manager s) f"
    using assms(1) f by (auto simp: system_ok_def Let_def)
  show "admits_of f = Some k \<Longrightarrow> init_at (ty_manager s) k"
    using assms(1) tally_pos [OF f, of "\<lambda>f. admits_of f = Some k"] by (auto simp: system_ok_def Let_def split: if_splits)
  show "cleans_of f = Some k \<Longrightarrow> cleaning_at (ty_manager s) k"
    using assms(1) tally_pos [OF f, of "\<lambda>f. cleans_of f = Some k"] by (auto simp: system_ok_def Let_def split: if_splits)
  show "in_operation f \<Longrightarrow> 0 < tm_inflight (ty_manager s)"
    using assms(1) tally_pos [OF f, of in_operation] by (simp add: system_ok_def Let_def)
qed

lemma system_rest:
  assumes "system_ok p s" and "i < length (ty_stacks s)" and "ty_stacks s ! i = f # below"
    and "g \<in> set (concat ((ty_stacks s)[i := below]))" and "admits_of g = Some k"
  shows "admits_of f \<noteq> Some k" and "init_at (ty_manager s) k"
proof -
  let ?P = "\<lambda>f. admits_of f = Some k"
  have "tally ?P ((ty_stacks s)[i := below]) + of_bool (?P f) = tally ?P (ty_stacks s)"
    using tally_update [OF assms(2), of ?P below] assms(3) by simp
  moreover have "0 < tally ?P ((ty_stacks s)[i := below])"
    using assms(4,5) by (rule tally_pos)
  moreover have "tally ?P (ty_stacks s) = of_bool (init_at (ty_manager s) k)"
    using assms(1) by (simp add: system_ok_def Let_def)
  ultimately have "admits_of f \<noteq> Some k \<and> init_at (ty_manager s) k"
    by (cases "init_at (ty_manager s) k"; cases "admits_of f = Some k") simp_all
  then show "admits_of f \<noteq> Some k" and "init_at (ty_manager s) k"
    by simp_all
qed

subsection \<open>A Node that opens a handle, and a turn\<close>

lemma system_opened:
  assumes "system_ok p s" and i: "i < length (ty_stacks s)" "ty_stacks s ! i = Admitting (AdmitBind k w) # below"
  shows "system_ok p (s\<lparr>ty_handles := insert (k, ti_NodeUID (tw_Target w)) (ty_handles s)\<rparr>)"
proof -
  let ?m = "ty_manager s" and ?f = "Admitting (AdmitBind k w)"
  let ?H = "insert (k, ti_NodeUID (tw_Target w)) (ty_handles s)"
  have ok: "manager_ok (ty_handles s) ?m"
    using assms(1) by (simp add: system_ok_def Let_def)
  have k: "init_at ?m k"
    using system_frame(2) [OF assms(1) i] by simp
  have w: "validateWorkload (tn_request (object_at ?m k)) w = None" "tn_nodeUID (object_at ?m k) = ti_NodeUID (tw_Target w)"
    using system_frame(1) [OF assms(1) i] by simp_all
  have phases: "registered ?m k" "\<not> cleaning_at ?m k" "k < length (tm_objects ?m)"
    using ok k by (auto simp: manager_ok_def phases_ok_def init_at_def)
  have "manager_ok ?H ?m"
    using ok k w(2) phases node_of_workload [OF w(1)] by (auto simp: manager_ok_def handles_ok_def)
  moreover have "frame_ok ?H ?m g" if g: "g \<in> set (concat (ty_stacks s))" for g
  proof (cases "g = ?f")
    case True
    with w show ?thesis
      by simp
  next
    case False
    have "g \<in> set (concat ((ty_stacks s)[i := below]))"
      using frames_split [OF i(1)] frames_update [OF i(1), of below] g False i(2) by auto
    then have "admits_of g \<noteq> Some k"
      using system_rest(1) [OF assms(1) i] by auto
    moreover have "cleans_of g \<noteq> Some k"
      using tally_pos [OF g, of "\<lambda>f. cleans_of f = Some k"] assms(1) phases(2) by (auto simp: system_ok_def Let_def)
    moreover have "frame_ok (ty_handles s) ?m g"
      using assms(1) g by (auto simp: system_ok_def Let_def)
    ultimately show ?thesis
      by (elim frame_ok_mono) auto
  qed
  ultimately show ?thesis
    using assms(1) by (simp add: system_ok_def Let_def del: set_concat)
qed

lemma tally_turn:
  assumes "i < length stacks" and "stacks ! i = f # below" and "\<And>e a f. P (resume e a f) = P f"
  shows "tally P (stacks[i := pushed t @ resumed t below]) + of_bool (P f) = tally P stacks + count_frames P (pushed t)"
  using tally_update [OF assms(1), of P "pushed t @ resumed t below"] by (simp add: assms(2) resumed_count assms(3))

lemma system_turned:
  assumes "system_ok p s" and i: "i < length (ty_stacks s)" "ty_stacks s ! i = f # below"
    and "node_answers (ty_handles s) (ty_manager s) x f" and "stack_turn L x (ty_manager s) (f # below) = Some (stack, m')"
  shows "system_ok p (s\<lparr>ty_manager := m', ty_stacks := (ty_stacks s)[i := stack]\<rparr>)"
proof -
  let ?m = "ty_manager s" and ?H = "ty_handles s"
  obtain t where t: "turn L x ?m f = (t, m')" "t \<noteq> Waits" and stack: "stack = pushed t @ resumed t below"
    using assms(5) by (rule stack_turn_cases)
  have "turn_pre ?H ?m x f"
    using assms(1,4) system_frame [OF assms(1) i] by (simp add: turn_pre_def) (simp add: system_ok_def Let_def)
  then have ok: "turn_ok ?H ?m f (pushed t) m'"
    using t by (rule turn_keeps)
  then have grows: "grows (admits_of f) ?m m'"
    by (simp add: turn_ok_def)
  have stays: "frame_ok ?H m' g" if g: "g \<in> set (concat ((ty_stacks s)[i := below]))" for g
  proof (rule frame_ok_grows [OF _ grows])
    have "g \<in> set (concat (ty_stacks s))"
      using frames_split [OF i(1)] frames_update [OF i(1), of below] g i(2) by auto
    then show "frame_ok ?H ?m g"
      using assms(1) by (auto simp: system_ok_def Let_def)
    show "admits_of f \<noteq> Some k \<and> k < length (tm_objects ?m)" if "admits_of g = Some k" for k
      using system_rest [OF assms(1) i g that] by (simp add: init_at_def)
  qed
  have below: "list_all (frame_ok ?H m') below"
    using stays frames_update [OF i(1), of below] unfolding list_all_iff by blast
  have "frame_ok ?H m' g" if g: "g \<in> set (concat ((ty_stacks s)[i := stack]))" for g
  proof (cases "g \<in> set stack")
    case True
    moreover have "list_all (frame_ok ?H m') stack"
      using below ok by (simp add: stack resumed_ok turn_ok_def)
    ultimately show ?thesis
      by (simp add: list_all_iff)
  next
    case False
    with g have "g \<in> set (concat ((ty_stacks s)[i := below]))"
      using frames_update [OF i(1), of below] frames_update [OF i(1), of stack] by blast
    then show ?thesis
      by (rule stays)
  qed
  moreover have "tally (\<lambda>f. admits_of f = Some k) ((ty_stacks s)[i := stack]) = of_bool (init_at m' k)"
    "tally (\<lambda>f. cleans_of f = Some k) ((ty_stacks s)[i := stack]) = of_bool (cleaning_at m' k)" for k
  proof -
    have "tally (\<lambda>f. admits_of f = Some k) (ty_stacks s) = of_bool (init_at ?m k)"
      "tally (\<lambda>f. cleans_of f = Some k) (ty_stacks s) = of_bool (cleaning_at ?m k)"
      using assms(1) by (simp_all add: system_ok_def Let_def)
    moreover have
      "count_frames (\<lambda>g. admits_of g = Some k) (pushed t) + of_bool (init_at ?m k) = of_bool (init_at m' k) + of_bool (admits_of f = Some k)"
      "count_frames (\<lambda>g. cleans_of g = Some k) (pushed t) + of_bool (cleaning_at ?m k) =
        of_bool (cleaning_at m' k) + of_bool (cleans_of f = Some k)"
      using ok by (simp_all add: turn_ok_def)
    moreover note tally_turn [OF i, of "\<lambda>f. admits_of f = Some k" t] tally_turn [OF i, of "\<lambda>f. cleans_of f = Some k" t]
    ultimately show "tally (\<lambda>f. admits_of f = Some k) ((ty_stacks s)[i := stack]) = of_bool (init_at m' k)"
      "tally (\<lambda>f. cleans_of f = Some k) ((ty_stacks s)[i := stack]) = of_bool (cleaning_at m' k)"
      unfolding stack resume_keeps by linarith+
  qed
  moreover have "tally in_operation ((ty_stacks s)[i := stack]) = tm_inflight m'"
    using ok assms(1) tally_turn [OF i, of in_operation t] unfolding stack resume_keeps turn_ok_def system_ok_def Let_def
    by linarith
  moreover have "tm_policy m' = p" "manager_ok ?H m'"
    using ok grows assms(1) by (simp_all add: turn_ok_def grows_def system_ok_def Let_def)
  ultimately show ?thesis
    using assms(1) by (simp add: system_ok_def Let_def del: set_concat)
qed

lemma system_step:
  assumes "system_ok p s" and "trace_step L s s'"
  shows "system_ok p s'"
  using assms(2)
proof cases
  case (called f)
  with assms(1) show ?thesis
    by (simp add: system_called)
next
  case (ended k)
  let ?s = "s\<lparr>ty_manager := (ty_manager s)\<lparr>tm_parents := removeAll k (tm_parents (ty_manager s))\<rparr>\<rparr>"
  have "system_ok p ?s"
    using assms(1) by (rule system_core) simp_all
  with ended system_called [of p ?s "Leasing (ConsumerEnd k)"] show ?thesis
    by simp
next
  case stopped
  with assms(1) show ?thesis
    by (simp add: system_core)
next
  case (opened i k w below)
  with assms(1) show ?thesis
    by (simp add: system_opened)
next
  case (lost H)
  with assms(1) show ?thesis
    by (simp add: system_lost)
next
  case (turned i f below x stack m)
  with assms(1) show ?thesis
    by (simp add: system_turned)
qed

interpretation manager_system: step_system "trace_initial p" "trace_step L" "system_ok p" for p L
  by unfold_locales (auto intro: system_initial system_step)

end
