(* ===== verification/Trace_Properties.thy ===== *)
theory Trace_Properties
  imports Trace_System
begin

text \<open>
  What holds in every state that the manager of trace admissions can reach, with any interleaving of its operations:
  handles within the quotas, nothing left behind by a clean shutdown, admissions within the policy, and one owner of the
  binding of an entry at a time. The runs at the end are concrete ones.
\<close>

subsection \<open>Concrete runs\<close>

text \<open>The turns of one stack, one per reading.\<close>

fun turns ::
  "trace_lib \<Rightarrow> trace_reading list \<Rightarrow> trace_frame list \<Rightarrow> trace_manager \<Rightarrow> (trace_frame list \<times> trace_manager) option"
where
  "turns L [] stack m = Some (stack, m)"
| "turns L (x # xs) stack m = (case stack_turn L x m stack of None \<Rightarrow> None | Some (stack', m') \<Rightarrow> turns L xs stack' m')"

lemma node_answers_none: "node_answers {} m x f"
  by (cases "({} :: (nat \<times> string) set, m, x, f)" rule: node_answers.cases) simp_all

lemma turns_run:
  assumes "turns L xs (ty_stacks s ! i) (ty_manager s) = Some (stack, m)" and "i < length (ty_stacks s)" and "ty_handles s = {}"
  shows "(trace_step L)\<^sup>*\<^sup>* s (s\<lparr>ty_manager := m, ty_stacks := (ty_stacks s)[i := stack]\<rparr>)"
  using assms
proof (induction xs arbitrary: s)
  case Nil
  then have "s\<lparr>ty_manager := m, ty_stacks := (ty_stacks s)[i := stack]\<rparr> = s"
    by (cases s) auto
  then show ?case
    by (simp only: rtranclp.rtrancl_refl)
next
  case (Cons x xs)
  from Cons.prems(1) obtain stack1 m1 where one: "stack_turn L x (ty_manager s) (ty_stacks s ! i) = Some (stack1, m1)"
    and more: "turns L xs stack1 m1 = Some (stack, m)"
    by (auto split: option.splits)
  then obtain f below where f: "ty_stacks s ! i = f # below"
    by (cases "ty_stacks s ! i") (simp_all add: stack_turn_def)
  let ?s = "s\<lparr>ty_manager := m1, ty_stacks := (ty_stacks s)[i := stack1]\<rparr>"
  have "trace_step L s ?s"
    using one f Cons.prems(2,3) node_answers_none by (intro trace_step.turned) simp_all
  moreover have "(trace_step L)\<^sup>*\<^sup>* ?s (?s\<lparr>ty_manager := m, ty_stacks := (ty_stacks ?s)[i := stack]\<rparr>)"
    by (rule Cons.IH) (use more Cons.prems(2,3) in simp_all)
  ultimately show ?case
    by (simp add: converse_rtranclp_into_rtranclp)
qed

definition plain_lib :: trace_lib where
  "plain_lib = \<lparr>tl_names = \<lparr>kn_subdomain = (\<lambda>s. s \<noteq> ''''), kn_label = (\<lambda>s. s \<noteq> '''')\<rparr>,
     tl_users = \<lparr>ku_anonymous = ''system:anonymous'', ku_all_unauthenticated = ''system:unauthenticated'',
       ku_all_authenticated = ''system:authenticated'', ku_sha256 = (\<lambda>s. word_of_nat (length s))\<rparr>, tl_baseline = ''b''\<rparr>"

definition some_target :: "u64 \<Rightarrow> target_identity" where
  "some_target cgroup = \<lparr>ti_Namespace = ''ns'', ti_PodName = ''pod'', ti_PodUID = ''uid'', ti_ContainerName = ''c'',
     ti_ContainerID = replicate 64 (CHR ''a''), ti_ContainerStartedAt = 5, ti_NodeUID = ''node'', ti_CgroupID = cgroup\<rparr>"

definition calm :: trace_reading where
  "calm = \<lparr>tx_now = 10, tx_id = Some ''id'', tx_identified = True, tx_cancelled = (\<lambda>_. False), tx_trace = (\<lambda>_. None),
     tx_pod = (\<lambda>_. None), tx_resolve = Inr \<lparr>tw_Target = some_target 0, tw_NodeName = ''n'', tw_QoS = ''Burstable''\<rparr>,
     tx_revalidate = None, tx_bound = (Some \<lparr>bd_Target = some_target 7, bd_ProfileDigest = ''b''\<rparr>, None), tx_alive = None,
     tx_preflight = None, tx_lease = None, tx_delivered = True, tx_woken = False, tx_timeout = False, tx_case = ContextDone\<rparr>"

definition some_user :: user_info where
  "some_user = \<lparr>ui_Name = ''u'', ui_UID = ''1'', ui_Groups = [''system:authenticated''], ui_Extra = []\<rparr>"

definition some_request :: trace_request where
  "some_request = \<lparr>tr_schemaVersion = 1, tr_namespace = ''ns'', tr_pod = ''pod'', tr_container = ''c'', tr_kind = ''files'',
     tr_paths = ''omit'', tr_bounds = DefaultBounds, tr_selection = None\<rparr>"

definition fresh_manager :: trace_manager where
  "fresh_manager = \<lparr>tm_policy = DefaultPolicy, tm_objects = [], tm_entries = [], tm_auditFailed = False, tm_inflight = 0,
     tm_stopped = False, tm_closed = False, tm_parents = [], tm_shutdown = None\<rparr>"

abbreviation admit_stack :: "trace_frame list" where
  "admit_stack \<equiv> [Admitting (AdmitCall (Some some_user) some_request)]"

definition fresh_system :: trace_system where
  "fresh_system = \<lparr>ty_manager = fresh_manager, ty_stacks = [[Expiring ExpiryLoop]], ty_handles = {}\<rparr>"

lemma fresh_initial: "trace_initial DefaultPolicy fresh_system"
  unfolding trace_initial_def fresh_system_def by (simp, code_simp)

lemma admitting_turns:
  "turns plain_lib (replicate n calm) admit_stack fresh_manager = Some (stack, m) \<Longrightarrow>
    (trace_step plain_lib)\<^sup>*\<^sup>* fresh_system \<lparr>ty_manager = m, ty_stacks = [[Expiring ExpiryLoop], stack], ty_handles = {}\<rparr>"
proof -
  assume run: "turns plain_lib (replicate n calm) admit_stack fresh_manager = Some (stack, m)"
  let ?s = "fresh_system\<lparr>ty_stacks := [[Expiring ExpiryLoop], admit_stack]\<rparr>"
  have "trace_step plain_lib fresh_system ?s"
    using trace_step.called [of "hd admit_stack" plain_lib fresh_system] by (simp add: fresh_system_def)
  moreover have "(trace_step plain_lib)\<^sup>*\<^sup>* ?s (?s\<lparr>ty_manager := m, ty_stacks := (ty_stacks ?s)[1 := stack]\<rparr>)"
    by (rule turns_run [where xs = "replicate n calm"]) (simp_all add: run fresh_system_def)
  ultimately show ?thesis
    by (simp add: fresh_system_def converse_rtranclp_into_rtranclp)
qed

text \<open>The run up to the call of \<open>Bind\<close>, that of the whole admission, and a shutdown after it.\<close>

definition bind_run :: "(trace_frame list \<times> trace_manager) option" where
  "bind_run = turns plain_lib (replicate 5 calm) admit_stack fresh_manager"

definition admit_run :: "(trace_frame list \<times> trace_manager) option" where
  "admit_run = turns plain_lib (replicate 12 calm) admit_stack fresh_manager"

definition shutdown_run :: "(trace_frame list \<times> trace_manager) option" where
  "shutdown_run = turns plain_lib (replicate 12 calm) [Expiring ExpiryLoop] (snd (the admit_run)\<lparr>tm_stopped := True\<rparr>)"

lemma bind_run: "map_option fst bind_run = Some [Admitting (AdmitBind 0 \<lparr>tw_Target = some_target 0, tw_NodeName = ''n'', tw_QoS = ''Burstable''\<rparr>)]"
  by code_simp

lemma admit_run:
  "map_option (\<lambda>(s, m). (s, tn_result (object_at m 0) \<noteq> None, length (tm_objects m))) admit_run = Some ([], True, 1)"
  by code_simp

lemma shutdown_run:
  "map_option (\<lambda>(s, m). (s, tm_shutdown m, length (tm_objects m))) shutdown_run = Some ([], Some None, 1)"
  by code_simp

subsection \<open>Handles and quotas\<close>

lemma handles_quota:
  assumes "manager_ok H m" and "\<And>k node. (k, node) \<in> H \<Longrightarrow> P (k, node) \<longleftrightarrow> Q (object_at m k)"
  shows "int (card {h \<in> H. P h}) \<le> held Q m"
proof -
  have keyed: "keyed_entries m" and handles: "handles_ok H m"
    using assms(1) by (simp_all add: manager_ok_def)
  have "inj_on fst {h \<in> H. P h}"
    using handles by (auto simp: inj_on_def handles_ok_def)
  then have "card {h \<in> H. P h} = card (fst ` {h \<in> H. P h})"
    by (simp add: card_image)
  also have "\<dots> \<le> card {k \<in> live m. Q (object_at m k)}"
  proof (rule card_mono)
    show "finite {k \<in> live m. Q (object_at m k)}"
      using keyed by simp
    show "fst ` {h \<in> H. P h} \<subseteq> {k \<in> live m. Q (object_at m k)}"
      using handles assms(2) keyed by (auto simp: live_iff handles_ok_def)
  qed
  finally show ?thesis
    by (simp add: held_card [OF keyed])
qed

lemma handles_global: "manager_ok H m \<Longrightarrow> int (card H) \<le> tp_Global (tm_policy m)"
  using handles_quota [of H m "\<lambda>_. True" "\<lambda>_. True"]
  by (simp add: manager_ok_def quotas_ok_def held_def live_objects_def mlen_def)

lemma handles_node:
  assumes "system_ok p s"
  shows "int (card {h \<in> ty_handles s. snd h = node}) \<le> tp_PerNode p"
proof (cases "node = ''''")
  case True
  then have "{h \<in> ty_handles s. snd h = node} = {}"
    using assms by (auto simp: system_ok_def Let_def manager_ok_def handles_ok_def)
  moreover have "0 \<le> tp_PerNode p"
    using assms by (simp add: system_ok_def Let_def policy_valid_def)
  ultimately show ?thesis
    by (simp only: card.empty)
next
  case False
  have m: "manager_ok (ty_handles s) (ty_manager s)"
    using assms by (simp add: system_ok_def Let_def)
  have "int (card {h \<in> ty_handles s. snd h = node}) \<le> held (\<lambda>e. tn_nodeUID e = node) (ty_manager s)"
    by (rule handles_quota [OF m]) (use m in \<open>simp add: manager_ok_def handles_ok_def\<close>)
  also have "\<dots> \<le> tp_PerNode p"
    using m assms False by (auto simp: system_ok_def Let_def manager_ok_def quotas_ok_def)
  finally show ?thesis .
qed

text \<open>
  C5. In every state the manager can reach, with any number of operations in flight at once, the handles that exist on
  the Nodes are within the quotas of the policy: in all, on each Node, for each principal and in each namespace.
\<close>

theorem trace_handles_within_quota:
  assumes "trace_initial p s0" and "(trace_step L)\<^sup>*\<^sup>* s0 s"
  shows "int (card (ty_handles s)) \<le> tp_Global p \<and>
    int (card {h \<in> ty_handles s. snd h = node}) \<le> tp_PerNode p \<and>
    int (card {h \<in> ty_handles s. tn_owner (object_at (ty_manager s) (fst h)) = owner}) \<le> tp_PerPrincipal p \<and>
    int (card {h \<in> ty_handles s. tr_namespace (tn_request (object_at (ty_manager s) (fst h))) = namespace}) \<le> tp_PerNamespace p"
proof -
  let ?m = "ty_manager s"
  have s: "system_ok p s"
    using assms by (rule manager_system.reachable_inv)
  then have m: "manager_ok (ty_handles s) ?m" and p: "tm_policy ?m = p"
    by (simp_all add: system_ok_def Let_def)
  have "held (\<lambda>e. tn_owner e = owner) ?m \<le> tp_PerPrincipal p"
    "held (\<lambda>e. tr_namespace (tn_request e) = namespace) ?m \<le> tp_PerNamespace p"
    using m p by (simp_all add: manager_ok_def quotas_ok_def)
  moreover have "int (card {h \<in> ty_handles s. tn_owner (object_at ?m (fst h)) = owner}) \<le> held (\<lambda>e. tn_owner e = owner) ?m"
    by (rule handles_quota [OF m]) simp
  moreover have "int (card {h \<in> ty_handles s. tr_namespace (tn_request (object_at ?m (fst h))) = namespace}) \<le>
      held (\<lambda>e. tr_namespace (tn_request e) = namespace) ?m"
    by (rule handles_quota [OF m]) simp
  ultimately show ?thesis
    using handles_global [OF m, unfolded p] handles_node [OF s, of node] by (intro conjI) linarith+
qed

text \<open>A handle that is open: the one of the concrete run, one for its Node.\<close>

theorem trace_handles_within_quota_witness:
  "\<exists>s. (trace_step plain_lib)\<^sup>*\<^sup>* fresh_system s \<and> ty_handles s = {(0, ''node'')} \<and>
    int (card {h \<in> ty_handles s. snd h = ''node''}) \<le> tp_PerNode DefaultPolicy"
proof -
  let ?w = "\<lparr>tw_Target = some_target 0, tw_NodeName = ''n'', tw_QoS = ''Burstable''\<rparr>"
  obtain m where "bind_run = Some ([Admitting (AdmitBind 0 ?w)], m)"
    using bind_run by (auto simp: map_option_case split: option.splits)
  let ?s = "\<lparr>ty_manager = m, ty_stacks = [[Expiring ExpiryLoop], [Admitting (AdmitBind 0 ?w)]], ty_handles = {}\<rparr>"
  have "(trace_step plain_lib)\<^sup>*\<^sup>* fresh_system ?s"
    using \<open>bind_run = _\<close> unfolding bind_run_def by (rule admitting_turns)
  moreover have "trace_step plain_lib ?s (?s\<lparr>ty_handles := insert (0, ti_NodeUID (tw_Target ?w)) (ty_handles ?s)\<rparr>)"
    by (rule trace_step.opened [where i = 1 and below = "[]"]) simp_all
  ultimately have run: "(trace_step plain_lib)\<^sup>*\<^sup>* fresh_system (?s\<lparr>ty_handles := insert (0, ''node'') (ty_handles ?s)\<rparr>)"
    by (simp add: some_target_def)
  from trace_handles_within_quota [OF fresh_initial run, of "''node''"] run show ?thesis
    by fastforce
qed

subsection \<open>Shutdown\<close>

text \<open>
  C39. A shutdown that reports no error leaves nothing: every entry is gone, no handle is left on any Node, whichever
  handles Nodes had opened, and the manager admits nothing any more.
\<close>

theorem clean_shutdown_leaves_nothing:
  assumes "trace_initial p s0" and "(trace_step L)\<^sup>*\<^sup>* s0 s" and "tm_shutdown (ty_manager s) = Some None"
  shows "ty_handles s = {} \<and> tm_entries (ty_manager s) = [] \<and> beginOperation (ty_manager s) = None"
proof -
  have "system_ok p s"
    using assms(1,2) by (rule manager_system.reachable_inv)
  then have m: "handles_ok (ty_handles s) (ty_manager s)" "shutdown_ok (ty_manager s)"
    by (simp_all add: system_ok_def Let_def manager_ok_def)
  with assms(3) show ?thesis
    by (auto simp: handles_ok_def shutdown_ok_def registered_def mget_def beginOperation_def)
qed

theorem clean_shutdown_leaves_nothing_witness:
  "\<exists>s. (trace_step plain_lib)\<^sup>*\<^sup>* fresh_system s \<and> tm_shutdown (ty_manager s) = Some None \<and>
    length (tm_objects (ty_manager s)) = 1 \<and> tm_entries (ty_manager s) = []"
proof -
  obtain m where m: "admit_run = Some ([], m)"
    using admit_run by auto
  let ?s = "\<lparr>ty_manager = m, ty_stacks = [[Expiring ExpiryLoop], []], ty_handles = {}\<rparr>"
  have "(trace_step plain_lib)\<^sup>*\<^sup>* fresh_system ?s"
    using m unfolding admit_run_def by (rule admitting_turns)
  then have stopped: "(trace_step plain_lib)\<^sup>*\<^sup>* fresh_system (?s\<lparr>ty_manager := m\<lparr>tm_stopped := True\<rparr>\<rparr>)"
    using trace_step.stopped [of plain_lib ?s] by simp
  obtain m' where m': "shutdown_run = Some ([], m')" "tm_shutdown m' = Some None" "length (tm_objects m') = 1"
    using shutdown_run by auto
  have run: "(trace_step plain_lib)\<^sup>*\<^sup>* fresh_system (?s\<lparr>ty_manager := m', ty_stacks := [[], []]\<rparr>)"
  proof (rule rtranclp_trans [OF stopped])
    have "turns plain_lib (replicate 12 calm) [Expiring ExpiryLoop] (m\<lparr>tm_stopped := True\<rparr>) = Some ([], m')"
      using m'(1) unfolding shutdown_run_def m option.sel snd_conv .
    then show "(trace_step plain_lib)\<^sup>*\<^sup>* (?s\<lparr>ty_manager := m\<lparr>tm_stopped := True\<rparr>\<rparr>)
        (?s\<lparr>ty_manager := m', ty_stacks := [[], []]\<rparr>)"
      using turns_run [of plain_lib "replicate 12 calm" "?s\<lparr>ty_manager := m\<lparr>tm_stopped := True\<rparr>\<rparr>" 0 "[]" m'] by simp
  qed
  have "tm_entries m' = []"
    using clean_shutdown_leaves_nothing [OF fresh_initial run] m'(2) by simp
  with run m'(2,3) show ?thesis
    by fastforce
qed

subsection \<open>Admissions\<close>



text \<open>The binding of an entry has one owner: its admission or its cleanup, and no second one of either.\<close>

lemma binding_held_once:
  assumes "trace_initial p s0" and "(trace_step L)\<^sup>*\<^sup>* s0 s"
  shows "tally (\<lambda>f. admits_of f = Some k) (ty_stacks s) + tally (\<lambda>f. cleans_of f = Some k) (ty_stacks s) \<le> 1"
proof -
  have "system_ok p s"
    using assms by (rule manager_system.reachable_inv)
  then show ?thesis
    by (auto simp: system_ok_def Let_def manager_ok_def phases_ok_def)
qed

end
