(* ===== verification/Go_Float_Arith.thy ===== *)
theory Go_Float_Arith
  imports Go_Float Go_Sort
begin

text \<open>
  The \<open>float64\<close> operations of the numeric packages over the values of \<open>Go_Float\<close>: sums, products, absolute values, minima
  and maxima, \<open>slices.Sort\<close>, \<open>math.Trunc\<close> and \<open>Duration.Seconds\<close>. An operation on finite values is the exact one, rounded.
  \<open>hex.DecodeString\<close>, which two packages use to check a digest, is here as well.
\<close>

subsection \<open>Arithmetic\<close>

fun f64_plus :: "f64 \<Rightarrow> f64 \<Rightarrow> f64" where
  "f64_plus (Fin a) (Fin b) = rnd64 (a + b)"
| "f64_plus (FInf n) (Fin b) = FInf n"
| "f64_plus (Fin a) (FInf n) = FInf n"
| "f64_plus (FInf n) (FInf k) = (if n = k then FInf n else FNaN)"
| "f64_plus _ _ = FNaN"

definition f64_minus :: "f64 \<Rightarrow> f64 \<Rightarrow> f64" where
  "f64_minus a b = f64_plus a (f64_neg b)"

fun f64_times :: "f64 \<Rightarrow> f64 \<Rightarrow> f64" where
  "f64_times (Fin a) (Fin b) = rnd64 (a * b)"
| "f64_times (FInf n) (Fin b) = (if b = 0 then FNaN else FInf (n \<noteq> (b < 0)))"
| "f64_times (Fin a) (FInf n) = (if a = 0 then FNaN else FInf (n \<noteq> (a < 0)))"
| "f64_times (FInf n) (FInf k) = FInf (n \<noteq> k)"
| "f64_times _ _ = FNaN"

fun f64_abs :: "f64 \<Rightarrow> f64" where
  "f64_abs FNaN = FNaN"
| "f64_abs (FInf _) = FInf False"
| "f64_abs (Fin a) = Fin \<bar>a\<bar>"

fun f64_trunc :: "f64 \<Rightarrow> f64" where
  "f64_trunc (Fin a) = Fin (of_int (if 0 \<le> a then \<lfloor>a\<rfloor> else \<lceil>a\<rceil>))"
| "f64_trunc v = v"

fun is_finite :: "f64 \<Rightarrow> bool" where
  "is_finite (Fin _) = True"
| "is_finite _ = False"

text \<open>\<open>slices.Sort\<close> orders NaN before the other values; \<open>min\<close> and \<open>max\<close> return it.\<close>

definition f64_less :: "f64 \<Rightarrow> f64 \<Rightarrow> bool" where
  "f64_less a b \<longleftrightarrow> isNaN a \<and> \<not> isNaN b \<or> f64_lt a b"

definition f64_min :: "f64 \<Rightarrow> f64 \<Rightarrow> f64" where
  "f64_min a b = (if isNaN a \<or> isNaN b then FNaN else if f64_lt b a then b else a)"

definition f64_max :: "f64 \<Rightarrow> f64 \<Rightarrow> f64" where
  "f64_max a b = (if isNaN a \<or> isNaN b then FNaN else if f64_lt a b then b else a)"

text \<open>\<open>Duration.Seconds\<close>: whole seconds plus the rest, each converted, the rest divided by 1e9.\<close>

definition duration_seconds :: "duration \<Rightarrow> f64" where
  "duration_seconds d =
    f64_plus (rnd64 (of_int (sgn d * (\<bar>d\<bar> div second)))) (f64_div (rnd64 (of_int (sgn d * (\<bar>d\<bar> mod second)))) (Fin 1000000000))"

lemma f64_less_weak: "weak_order f64_less"
proof -
  have "\<not> f64_less b a" if "f64_less a b" for a b
    using that by (cases a; cases b) (auto simp: f64_less_def)
  moreover have "\<not> f64_less c a" if "\<not> f64_less b a" "\<not> f64_less c b" for a b c
    using that by (cases a; cases b; cases c) (auto simp: f64_less_def)
  ultimately show ?thesis
    unfolding weak_order_def by blast
qed

lemma f64_less_total: "f64_less a b \<or> a = b \<or> f64_less b a"
  by (cases a; cases b) (auto simp: f64_less_def)

text \<open>The sorted list does not depend on the order of the values.\<close>

lemma sort_f64_perm: "mset xs = mset ys \<Longrightarrow> sort_slice f64_less xs = sort_slice f64_less ys"
  by (rule sort_slice_unique [OF f64_less_weak]) (use f64_less_total in \<open>auto simp: sorted_sort_slice [OF f64_less_weak]\<close>)

subsection \<open>Hexadecimal digests\<close>

text \<open>\<open>hex.DecodeString\<close> succeeds on an even number of hexadecimal digits and yields half as many bytes.\<close>

definition hex_digits :: string where
  "hex_digits = ''0123456789abcdefABCDEF''"

definition hex_decodes :: "string \<Rightarrow> nat \<Rightarrow> bool" where
  "hex_decodes s n \<longleftrightarrow> length s = 2 * n \<and> list_all (\<lambda>c. c \<in> set hex_digits) s"

text \<open>\<open>strings.ToLower(s) == s\<close> for an ASCII string.\<close>

definition lower_case :: "string \<Rightarrow> bool" where
  "lower_case s \<longleftrightarrow> list_all (\<lambda>c. c \<notin> set ''ABCDEFGHIJKLMNOPQRSTUVWXYZ'') s"

subsection \<open>Evaluation\<close>

text \<open>The powers of two by integer powers, and the overflow threshold as a number, so that rounding can be evaluated.\<close>

lemma pow2_eval [code]: "pow2 e = (if 0 \<le> e then of_int (2 ^ nat e) else Fract 1 (2 ^ nat (- e)))"
  by (simp add: pow2_def Fract_of_int_quotient)

lemma rnd64_pos_eval [code]:
  "rnd64_pos q = (let u = max (binade q - 52) (- 1074); r = of_int (round_half_even (q / pow2 u)) * pow2 u
     in if r < 179769313486231590772930519078902473361797697894230657273430081157732675805500963132708477322407536021120113879871393357658789768814416622492847430639474124377767893424865485276302219601246094119453082952085005768838150682342462881473913110540827237163350510684586298239947245938479716304835356329624224137216
        then Fin r else FInf False)"
  by (simp add: rnd64_pos_def pow2_def)

lemma f64_of_u64_eval [code]: "f64_of_u64 w = rnd64 (of_int (uint w))"
  by (simp add: f64_of_u64_def)

end
