(* ===== verification/Node_Analysis.thy ===== *)
theory Node_Analysis
  imports Node_Observation Aggregates Go_Float_Arith
begin

text \<open>
  Package \<open>internal/nodeanalysis\<close>: what one Node's report, the one before it and the authorised cgroup evidence of its
  containers say together. \<open>Analyse\<close> works on a result it fills in step by step; the steps are functions on that result.
  A pointer is an \<open>option\<close>, so the copies of \<open>clone.go\<close> are the values themselves. Maps keyed by joined names are association
  lists in the order of the containers; what is read of them does not depend on that order.

  The lemmas: no sum of the charges wraps, Pods and workloads both add up to the observed charge, and the two estimates
  are floored differences that are only made over qualified, fresh and aligned evidence.
\<close>

subsection \<open>Constants\<close>

definition MaxSampleSkew :: duration where
  "MaxSampleSkew = 5 * second"

definition MaxNodeNameBytes :: nat where
  "MaxNodeNameBytes = 253"

definition MaxContributors :: int where
  "MaxContributors = 100"

definition DefaultContributors :: int where
  "DefaultContributors = 20"

definition MaxContainers_analysis :: nat where
  "MaxContainers_analysis = 10000"

definition CgroupStaleAfter :: duration where
  "CgroupStaleAfter = 30 * second"

datatype severity = SevUnknown | SevNormal | SevWarning | SevCritical

datatype confidence = ConfLow | ConfMedium | ConfHigh

datatype caveat = SourceMissing | SourceFailed | SourceStale | AgentMissing | AgentPartial | AgentStale | Unmapped
  | IdentityMismatch | Skewed | NegativeGap | Overflow | Unqualified | SystemOverlap | PodAccessDenied | HugepagesSeparate
  | CounterReset | SwapNotIO | NoPressureEvidence | CompositionOverlap

fun caveat_text :: "caveat \<Rightarrow> string" where
  "caveat_text SourceMissing = ''node-source-missing''"
| "caveat_text SourceFailed = ''node-source-failed''"
| "caveat_text SourceStale = ''node-source-stale''"
| "caveat_text AgentMissing = ''cgroup-agent-missing''"
| "caveat_text AgentPartial = ''cgroup-coverage-partial''"
| "caveat_text AgentStale = ''cgroup-snapshot-stale''"
| "caveat_text Unmapped = ''unmapped-containers''"
| "caveat_text IdentityMismatch = ''node-identity-mismatch''"
| "caveat_text Skewed = ''sample-skew''"
| "caveat_text NegativeGap = ''negative-gap-floored''"
| "caveat_text Overflow = ''arithmetic-overflow''"
| "caveat_text Unqualified = ''accounting-unqualified''"
| "caveat_text SystemOverlap = ''system-accounting-overlap''"
| "caveat_text PodAccessDenied = ''cluster-pod-access-unavailable''"
| "caveat_text HugepagesSeparate = ''hugepage-pools-are-not-headroom''"
| "caveat_text CounterReset = ''counter-window-unavailable''"
| "caveat_text SwapNotIO = ''swap-allocation-is-not-swap-io''"
| "caveat_text NoPressureEvidence = ''pressure-evidence-unavailable''"
| "caveat_text CompositionOverlap = ''cgroup-composition-overlap''"

text \<open>The errors, one per message of the package.\<close>

datatype analysis_error = IdentityRequired | RankingUnsupported | AnalysisBounds | ScopeUnsupported | NodeIdentityBounds
  | HugepageBounds | SystemBounds | PressureInvalid | ContributorBounds | DuplicateContainer

subsection \<open>Input\<close>

record charges =
  ch_Total :: u64
  ch_Anon :: u64
  ch_Cache :: u64
  ch_Shmem :: u64
  ch_Residual :: u64

record charged_container =
  nc_ID :: string
  nc_Namespace :: string
  nc_PodName :: string
  nc_PodUID :: string
  nc_ContainerName :: string
  nc_WorkloadKind :: string
  nc_WorkloadName :: string
  nc_Charge :: charges
  nc_PSIFullAvg10 :: "f64 option"
  nc_OOMKills :: "u64 option"
  nc_OOMWindowStartedAt :: time
  nc_CompositionConsistent :: bool

record cgroup_frame =
  cg_NodeUID :: string
  cg_CapturedAt :: time
  cg_Coverage :: string
  cg_Containers :: "charged_container list"

record qualification =
  ql_NodeUID :: string
  ql_NodeStartedAt :: time
  ql_ValidFrom :: time
  ql_ExpiresAt :: time
  ql_EvidenceSHA256 :: string
  ql_UsageDefinition :: string
  ql_DisjointSystems :: "string list"

record analysis_input =
  ai_Now :: time
  ai_NodeUID :: string
  ai_NodeName :: string
  ai_Current :: "observation option"
  ai_Previous :: "observation option"
  ai_SourceAvailability :: string
  ai_Access :: string
  ai_Cgroup :: cgroup_frame
  ai_Qualification :: "qualification option"
  ai_Rank :: string
  ai_Limit :: int

subsection \<open>Result\<close>

text \<open>Fields that always hold the same constant (schema version, sources, the formula of the observed charge) are left out.\<close>

record signal =
  sg_Count :: "u64 option"
  sg_Code :: string
  sg_Source :: string
  sg_CapturedAt :: time
  sg_Severity :: severity
  sg_Value :: "f64 option"
  sg_Unit :: string

record estimate =
  et_State :: string
  et_Bytes :: "u64 option"
  et_Formula :: string
  et_Source :: string
  et_CapturedAt :: time
  et_ComparedAt :: time
  et_Qualification :: string
  et_Caveats :: "caveat list"

record contributor_coverage =
  cv_State :: string
  cv_CapturedAt :: time
  cv_MappedContainers :: int
  cv_UnmappedContainers :: int
  cv_Pods :: int

record contributor =
  cb_Namespace :: string
  cb_Name :: string
  cb_UID :: string
  cb_Kind :: string
  cb_Charge :: charges
  cb_PSIFullAvg10 :: "f64 option"
  cb_OOMKills :: "u64 option"

record rankings =
  rk_Formula :: string
  rk_Metric :: string
  rk_Pods :: "contributor list"
  rk_Workloads :: "contributor list"
  rk_Limit :: int
  rk_Truncated :: bool

record node_facts =
  nf_ContextSource :: string
  nf_MajorFaultFormula :: string
  nf_SwapGrowthFormula :: string
  nf_FaultWindowStartedAt :: time
  nf_SwapWindowStartedAt :: time
  nf_Availability :: string
  nf_Memory :: "node_memory option"
  nf_Swap :: "node_swap option"
  nf_Context :: "kubernetes_context option"
  nf_SystemContainers :: "system_container list"
  nf_GrowingSwapBytes :: "u64 option"
  nf_MajorFaultsPerSecond :: "f64 option"

record analysis =
  al_NodeName :: string
  al_NodeUID :: string
  al_EvaluatedAt :: time
  al_Severity :: severity
  al_Confidence :: confidence
  al_Signals :: "signal list"
  al_Caveats :: "caveat list"
  al_Facts :: node_facts
  al_Coverage :: "contributor_coverage option"
  al_ObservedPodCharge :: "u64 option"
  al_OutsidePods :: estimate
  al_Unaccounted :: estimate
  al_Rankings :: "rankings option"
  al_ContributorAccess :: string

subsection \<open>Validation\<close>

definition validPercent :: "f64 \<Rightarrow> bool" where
  "validPercent v \<longleftrightarrow> \<not> isNaN v \<and> \<not> isInf v \<and> f64_le f64_zero v \<and> f64_le v (Fin 100)"

definition psi_percent_ok :: "psi_data \<Rightarrow> bool" where
  "psi_percent_ok p \<longleftrightarrow> validPercent (pd_Avg10 p) \<and> validPercent (pd_Avg60 p) \<and> validPercent (pd_Avg300 p)"

text \<open>The memories of a Node and of its system containers.\<close>

definition node_memories :: "node_stats \<Rightarrow> node_memory option list" where
  "node_memories st = node_stats.ns_Memory st # map sy_Memory (node_stats.ns_SystemContainers st)"

definition memory_psi_ok :: "node_memory option \<Rightarrow> bool" where
  "memory_psi_ok memory =
    (case Option.bind memory nm_PSI of None \<Rightarrow> True | Some psi \<Rightarrow> psi_percent_ok (np_Some psi) \<and> psi_percent_ok (np_Full psi))"

definition node_input_error :: "observation \<Rightarrow> analysis_error option" where
  "node_input_error node =
    (if length (ob_NodeName node) > MaxNodeNameBytes \<or> length (ob_NodeUID node) > MaxNodeUIDBytes then Some NodeIdentityBounds
     else if (case ob_Context node of None \<Rightarrow> False | Some c \<Rightarrow> length (kc_Hugepages c) > MaxHugepages) then Some HugepageBounds
     else case ob_Stats node of None \<Rightarrow> None | Some st \<Rightarrow>
       if length (node_stats.ns_SystemContainers st) > MaxSystemContainers then Some SystemBounds
       else if \<not> list_all memory_psi_ok (node_memories st) then Some PressureInvalid
       else None)"

fun containers_error :: "string list \<Rightarrow> charged_container list \<Rightarrow> analysis_error option" where
  "containers_error seen [] = None"
| "containers_error seen (c # cs) =
    (if length (nc_ID c) > 256 \<or> length (nc_Namespace c) > 63 \<or> length (nc_PodName c) > 253 \<or> length (nc_PodUID c) > 128 \<or>
        length (nc_ContainerName c) > 63 \<or> length (nc_WorkloadName c) > 253 \<or> length (nc_WorkloadKind c) > 63 then Some ContributorBounds
     else if nc_ID c \<noteq> '''' \<and> nc_ID c \<in> set seen then Some DuplicateContainer
     else containers_error (nc_ID c # seen) cs)"

definition validateInput :: "analysis_input \<Rightarrow> analysis_error option" where
  "validateInput i =
    (case Option.bind (ai_Current i) node_input_error of Some e \<Rightarrow> Some e | None \<Rightarrow>
     case Option.bind (ai_Previous i) node_input_error of Some e \<Rightarrow> Some e | None \<Rightarrow>
     containers_error [] (cg_Containers (ai_Cgroup i)))"

subsection \<open>Helpers\<close>

text \<open>A caveat is added once.\<close>

definition addCaveat :: "caveat \<Rightarrow> analysis \<Rightarrow> analysis" where
  "addCaveat v a = (if v \<in> set (al_Caveats a) then a else a\<lparr>al_Caveats := al_Caveats a @ [v]\<rparr>)"

abbreviation low :: "analysis \<Rightarrow> analysis" where
  "low a \<equiv> a\<lparr>al_Confidence := ConfLow\<rparr>"

definition fresh_at :: "time \<Rightarrow> time \<Rightarrow> duration \<Rightarrow> bool" where
  "fresh_at at' now ttl \<longleftrightarrow> \<not> is_zero_time at' \<and> \<not> at' < now - ttl \<and> \<not> at' > now + 30 * second"

definition aligned_at :: "time \<Rightarrow> time \<Rightarrow> bool" where
  "aligned_at l r \<longleftrightarrow> time_sub l r \<ge> - MaxSampleSkew \<and> time_sub l r \<le> MaxSampleSkew"

definition add_checked :: "u64 \<Rightarrow> u64 \<Rightarrow> u64 \<times> bool" where
  "add_checked l r = (if r > - 1 - l then (0, False) else (l + r, True))"

fun severity_rank :: "severity \<Rightarrow> nat" where
  "severity_rank SevUnknown = 0"
| "severity_rank SevNormal = 1"
| "severity_rank SevWarning = 2"
| "severity_rank SevCritical = 3"

definition promote :: "severity \<Rightarrow> analysis \<Rightarrow> analysis" where
  "promote s a = (if severity_rank s > severity_rank (al_Severity a) then a\<lparr>al_Severity := s\<rparr> else a)"

text \<open>A signal is appended and the severity raised to it.\<close>

definition signalled :: "signal \<Rightarrow> analysis \<Rightarrow> analysis" where
  "signalled s a = promote (sg_Severity s) (a\<lparr>al_Signals := al_Signals a @ [s]\<rparr>)"

definition unavailableEstimate :: "string \<Rightarrow> estimate" where
  "unavailableEstimate formula = \<lparr>et_State = cap_Unreported, et_Bytes = None, et_Formula = formula,
     et_Source = ''kubelet-summary + cgroup'', et_CapturedAt = 0, et_ComparedAt = 0, et_Qualification = '''', et_Caveats = []\<rparr>"

subsection \<open>Qualification of the accounting\<close>

definition ChargeInclusive :: string where
  "ChargeInclusive = ''cgroup-charge-inclusive''"

definition qualification_valid :: "qualification \<Rightarrow> bool" where
  "qualification_valid q \<longleftrightarrow>
    hex_decodes (ql_EvidenceSHA256 q) 32 \<and> lower_case (ql_EvidenceSHA256 q) \<and> ql_NodeUID q \<noteq> '''' \<and>
    length (ql_NodeUID q) \<le> MaxNodeUIDBytes \<and> \<not> is_zero_time (ql_NodeStartedAt q) \<and> \<not> is_zero_time (ql_ValidFrom q) \<and>
    ql_ExpiresAt q > ql_ValidFrom q \<and> \<not> time_sub (ql_ExpiresAt q) (ql_ValidFrom q) > 7 * 24 * 60 * minute \<and>
    ql_UsageDefinition q = ChargeInclusive \<and>
    list_all (\<lambda>c. c \<in> {cat_Kubelet, cat_Runtime, cat_Misc}) (ql_DisjointSystems q) \<and> distinct (ql_DisjointSystems q)"

definition qualified_input :: "analysis_input \<Rightarrow> bool" where
  "qualified_input i =
    (case (ai_Qualification i, Option.bind (ai_Current i) ob_Stats) of
       (Some q, Some st) \<Rightarrow> qualification_valid q \<and> ql_NodeUID q = ai_NodeUID i \<and> ql_NodeStartedAt q = node_stats.ns_StartedAt st \<and>
         \<not> ai_Now i < ql_ValidFrom q \<and> ai_Now i < ql_ExpiresAt q
     | _ \<Rightarrow> False)"

subsection \<open>Rates\<close>

definition validWindow :: "time \<Rightarrow> time \<Rightarrow> time \<Rightarrow> bool" where
  "validWindow start end' now \<longleftrightarrow> fresh_at end' now StaleAfter \<and> \<not> is_zero_time start \<and> end' > start \<and> time_sub end' start \<le> 2 * minute"

text \<open>The growth of the swap usage, if it can be told.\<close>

definition swap_growth :: "time \<Rightarrow> node_swap option \<Rightarrow> node_swap option \<Rightarrow> analysis \<Rightarrow> analysis" where
  "swap_growth now swap old a =
    (case (swap, old) of
       (Some w, Some o') \<Rightarrow>
         (case (sw_UsageBytes w, sw_UsageBytes o') of
            (Some u, Some v) \<Rightarrow>
              if validWindow (sw_CapturedAt o') (sw_CapturedAt w) now
              then a\<lparr>al_Facts := (al_Facts a)\<lparr>nf_GrowingSwapBytes := Some (if u > v then u - v else 0),
                nf_SwapGrowthFormula := ''max(0, current swap.usage - previous swap.usage)'', nf_SwapWindowStartedAt := sw_CapturedAt o'\<rparr>\<rparr>
              else a
          | _ \<Rightarrow> a)
     | _ \<Rightarrow> a)"

definition fault_rate :: "time \<Rightarrow> node_memory option \<Rightarrow> node_memory option \<Rightarrow> analysis \<Rightarrow> analysis" where
  "fault_rate now memory old a =
    (case (memory, old) of
       (Some m, Some o') \<Rightarrow>
         (case (nm_MajorPageFaults m, nm_MajorPageFaults o') of
            (Some f, Some g) \<Rightarrow>
              if \<not> validWindow (nm_CapturedAt o') (nm_CapturedAt m) now \<or> f < g then addCaveat CounterReset a
              else a\<lparr>al_Facts := (al_Facts a)\<lparr>
                nf_MajorFaultsPerSecond := Some (f64_div (f64_of_u64 (f - g)) (duration_seconds (time_sub (nm_CapturedAt m) (nm_CapturedAt o')))),
                nf_MajorFaultFormula := ''(current majorPageFaults - previous majorPageFaults) / elapsedSeconds'',
                nf_FaultWindowStartedAt := nm_CapturedAt o'\<rparr>\<rparr>
          | _ \<Rightarrow> a)
     | _ \<Rightarrow> a)"

definition swap_noted :: "node_swap option \<Rightarrow> analysis \<Rightarrow> analysis" where
  "swap_noted swap a =
    (case Option.bind swap sw_UsageBytes of Some u \<Rightarrow> if u > 0 then addCaveat SwapNotIO a else a | None \<Rightarrow> a)"

definition deriveRates :: "analysis_input \<Rightarrow> observation \<Rightarrow> analysis \<Rightarrow> analysis" where
  "deriveRates i current a =
    (case ob_Stats current of None \<Rightarrow> a | Some st \<Rightarrow>
      (let a1 = swap_noted (node_stats.ns_Swap st) a
       in case ai_Previous i of None \<Rightarrow> addCaveat CounterReset a1 | Some previous \<Rightarrow>
         (case ob_Stats previous of None \<Rightarrow> addCaveat CounterReset a1 | Some old \<Rightarrow>
           if ob_NodeUID previous \<noteq> ob_NodeUID current \<or> node_stats.ns_StartedAt st \<noteq> node_stats.ns_StartedAt old then addCaveat CounterReset a1
           else fault_rate (ai_Now i) (node_stats.ns_Memory st) (node_stats.ns_Memory old) (swap_growth (ai_Now i) (node_stats.ns_Swap st) (node_stats.ns_Swap old) a1))))"

subsection \<open>Pressure\<close>

definition SomeWarningPercent :: f64 where
  "SomeWarningPercent = Fin 10"

definition FullWarningPercent :: f64 where
  "FullWarningPercent = Fin 1"

definition FullCriticalPercent :: f64 where
  "FullCriticalPercent = Fin 10"

definition SustainedFullCriticalPercent :: f64 where
  "SustainedFullCriticalPercent = Fin 1"

definition pressureSignal :: "string \<Rightarrow> time \<Rightarrow> f64 \<Rightarrow> severity \<Rightarrow> analysis \<Rightarrow> analysis" where
  "pressureSignal code at' v s a = signalled \<lparr>sg_Count = None, sg_Code = code, sg_Source = ''kubelet-summary'',
     sg_CapturedAt = at', sg_Severity = s, sg_Value = Some v, sg_Unit = ''percent''\<rparr> a"

definition status_signal :: "string \<Rightarrow> time \<Rightarrow> severity \<Rightarrow> analysis \<Rightarrow> analysis" where
  "status_signal code at' s a = signalled \<lparr>sg_Count = None, sg_Code = code, sg_Source = ''kubernetes-status'',
     sg_CapturedAt = at', sg_Severity = s, sg_Value = None, sg_Unit = ''''\<rparr> a"

text \<open>What the condition of the Node and the stall percentages of its PSI say.\<close>

definition condition_pressure :: "analysis_input \<Rightarrow> kubernetes_context option \<Rightarrow> analysis \<Rightarrow> analysis" where
  "condition_pressure i c a =
    (case c of None \<Rightarrow> a | Some k \<Rightarrow>
      if \<not> fresh_at (kc_CapturedAt k) (ai_Now i) StaleAfter then a
      else if kc_MemoryPressure k = ''True'' then status_signal ''kubernetes-memory-pressure'' (kc_CapturedAt k) SevCritical a
      else if kc_MemoryPressure k = ''False'' \<and> ai_SourceAvailability i = cap_Available
        then status_signal ''kubernetes-no-memory-pressure'' (kc_CapturedAt k) SevNormal a
      else a)"

definition stall_pressure :: "analysis_input \<Rightarrow> time \<Rightarrow> node_psi \<Rightarrow> analysis \<Rightarrow> analysis" where
  "stall_pressure i at' psi a =
    (let full10 = pd_Avg10 (np_Full psi); full60 = pd_Avg60 (np_Full psi); some10 = pd_Avg10 (np_Some psi)
     in if f64_le FullCriticalPercent full10 then pressureSignal ''node-full-stall-10s'' at' full10 SevCritical a
        else if f64_le SustainedFullCriticalPercent full60 then pressureSignal ''node-sustained-full-stall-60s'' at' full60 SevCritical a
        else if f64_le FullWarningPercent full10 then pressureSignal ''node-full-stall-10s'' at' full10 SevWarning a
        else if f64_le SomeWarningPercent some10 then pressureSignal ''node-some-stall-10s'' at' some10 SevWarning a
        else if ai_SourceAvailability i = cap_Available then pressureSignal ''node-low-reported-stall-10s'' at' full10 SevNormal a
        else a)"

definition pressure :: "analysis_input \<Rightarrow> observation \<Rightarrow> analysis \<Rightarrow> analysis" where
  "pressure i current a =
    (let a1 = condition_pressure i (ob_Context current) a
     in case Option.bind (ob_Stats current) node_stats.ns_Memory of None \<Rightarrow> a1 | Some memory \<Rightarrow>
       (case nm_PSI memory of None \<Rightarrow> a1 | Some psi \<Rightarrow>
         if \<not> fresh_at (nm_CapturedAt memory) (ai_Now i) StaleAfter then a1
         else if \<not> validPercent (pd_Avg10 (np_Some psi)) \<or> \<not> validPercent (pd_Avg10 (np_Full psi)) \<or>
            \<not> validPercent (pd_Avg60 (np_Full psi)) then a1
         else (let a2 = stall_pressure i (nm_CapturedAt memory) psi a1
           in if al_Severity a2 \<noteq> SevUnknown \<and> ai_SourceAvailability i = cap_Available \<and>
                en_Completeness (ob_Evidence current) = cap_Complete then a2\<lparr>al_Confidence := ConfHigh\<rparr> else a2)))"

subsection \<open>Contributors\<close>

text \<open>\<open>combine\<close>; an entry that is not in the map has no name.\<close>

definition combine :: "contributor option \<Rightarrow> contributor \<Rightarrow> contributor \<times> bool" where
  "combine previous current =
    (case previous of None \<Rightarrow> (current, True) | Some p \<Rightarrow>
      if cb_Name p = '''' then (current, True)
      else
        (let add = \<lambda>f. add_checked (f (cb_Charge p)) (f (cb_Charge current));
             charge = \<lparr>ch_Total = fst (add ch_Total), ch_Anon = fst (add ch_Anon), ch_Cache = fst (add ch_Cache),
               ch_Shmem = fst (add ch_Shmem), ch_Residual = fst (add ch_Residual)\<rparr>;
             psi = (case cb_PSIFullAvg10 current of None \<Rightarrow> cb_PSIFullAvg10 p | Some v \<Rightarrow>
               (case cb_PSIFullAvg10 p of None \<Rightarrow> Some v | Some w \<Rightarrow> if f64_lt w v then Some v else Some w));
             kills = (case cb_OOMKills current of None \<Rightarrow> (cb_OOMKills p, True) | Some v \<Rightarrow>
               (case cb_OOMKills p of None \<Rightarrow> (Some v, True) | Some w \<Rightarrow> (Some (fst (add_checked w v)), snd (add_checked w v))))
         in (p\<lparr>cb_Charge := charge, cb_PSIFullAvg10 := psi, cb_OOMKills := fst kills\<rparr>,
             snd (add ch_Total) \<and> snd (add ch_Anon) \<and> snd (add ch_Cache) \<and> snd (add ch_Shmem) \<and> snd (add ch_Residual) \<and> snd kills)))"

definition chargeMetric :: "charges \<Rightarrow> string \<Rightarrow> u64" where
  "chargeMetric c metric =
    (if metric = ''anon'' then ch_Anon c else if metric = ''cache'' then ch_Cache c else if metric = ''shmem'' then ch_Shmem c
     else if metric = ''residual'' then ch_Residual c else ch_Total c)"

definition contributor_key :: "contributor \<Rightarrow> string" where
  "contributor_key c = join_nul [cb_Namespace c, cb_Kind c, cb_Name c, cb_UID c]"

text \<open>A missing value ranks last, a larger one first.\<close>

definition outranks_psi :: "contributor \<Rightarrow> contributor \<Rightarrow> bool" where
  "outranks_psi l r =
    (case (cb_PSIFullAvg10 l, cb_PSIFullAvg10 r) of
       (Some _, None) \<Rightarrow> True
     | (None, Some _) \<Rightarrow> False
     | (Some v, Some w) \<Rightarrow> if \<not> f64_eq v w then f64_lt w v else contributor_key l < contributor_key r
     | (None, None) \<Rightarrow> contributor_key l < contributor_key r)"

definition outranks_oom :: "contributor \<Rightarrow> contributor \<Rightarrow> bool" where
  "outranks_oom l r =
    (case (cb_OOMKills l, cb_OOMKills r) of
       (Some _, None) \<Rightarrow> True
     | (None, Some _) \<Rightarrow> False
     | (Some v, Some w) \<Rightarrow> if v \<noteq> w then v > w else contributor_key l < contributor_key r
     | (None, None) \<Rightarrow> contributor_key l < contributor_key r)"

definition outranks_charge :: "string \<Rightarrow> contributor \<Rightarrow> contributor \<Rightarrow> bool" where
  "outranks_charge metric l r =
    (let v = chargeMetric (cb_Charge l) metric; w = chargeMetric (cb_Charge r) metric
     in if v \<noteq> w then v > w else contributor_key l < contributor_key r)"

definition outranks :: "string \<Rightarrow> contributor \<Rightarrow> contributor \<Rightarrow> bool" where
  "outranks metric l r =
    (if metric = ''psi'' then outranks_psi l r else if metric = ''oom'' then outranks_oom l r else outranks_charge metric l r)"

definition ranked :: "(string, contributor) gomap \<Rightarrow> string \<Rightarrow> int \<Rightarrow> contributor list" where
  "ranked cs metric limit' = take (nat limit') (sort_slice (outranks metric) (map snd cs))"

definition observedOOMKills :: "(string, contributor) gomap \<Rightarrow> u64 option \<times> bool" where
  "observedOOMKills pods =
    (let counts = List.map_filter (\<lambda>(_, p). cb_OOMKills p) pods;
         total = fold (\<lambda>v t. case t of None \<Rightarrow> None | Some s \<Rightarrow> if snd (add_checked s v) then Some (s + v) else None) counts (Some 0)
     in (total, total = None))"

definition rankingFormula :: "string \<Rightarrow> string" where
  "rankingFormula metric =
    (if metric = ''anon'' then ''sum(container memory.stat.anon)''
     else if metric = ''cache'' then ''sum(max(0, container memory.stat.file - container memory.stat.shmem))''
     else if metric = ''shmem'' then ''sum(container memory.stat.shmem)''
     else if metric = ''residual'' then ''sum(max(0, container memory.current - anon - fileCache - shmem))''
     else if metric = ''psi'' then ''max(observed container memory.pressure.full avg10)''
     else if metric = ''oom'' then ''sum(observed container OOM kill deltas in known windows)''
     else ''sum(container memory.current)'')"

text \<open>The state of the loop over the containers.\<close>

record charge_tally =
  ta_coverage :: contributor_coverage
  ta_analysis :: analysis
  ta_pods :: "(string, contributor) gomap"
  ta_workloads :: "(string, contributor) gomap"
  ta_seen :: "string list"
  ta_overflow :: bool
  ta_total :: u64

definition pod_contributor :: "analysis_input \<Rightarrow> charged_container \<Rightarrow> f64 option \<Rightarrow> contributor" where
  "pod_contributor i c psi = \<lparr>cb_Namespace = nc_Namespace c, cb_Name = nc_PodName c, cb_UID = nc_PodUID c, cb_Kind = ''Pod'',
     cb_Charge = nc_Charge c, cb_PSIFullAvg10 = psi,
     cb_OOMKills = (if \<not> fresh_at (nc_OOMWindowStartedAt c) (ai_Now i) CgroupStaleAfter \<or>
       \<not> cg_CapturedAt (ai_Cgroup i) > nc_OOMWindowStartedAt c then None else nc_OOMKills c)\<rparr>"

definition workload_contributor :: "charged_container \<Rightarrow> contributor \<Rightarrow> contributor" where
  "workload_contributor c pod =
    (if nc_WorkloadKind c = '''' \<or> nc_WorkloadName c = '''' then pod\<lparr>cb_Kind := ''Pod'', cb_Name := nc_PodName c\<rparr>
     else pod\<lparr>cb_Kind := nc_WorkloadKind c, cb_Name := nc_WorkloadName c, cb_UID := ''''\<rparr>)"

definition pod_contributor_key :: "contributor \<Rightarrow> string" where
  "pod_contributor_key c = join_nul [cb_Namespace c, cb_Name c, cb_UID c]"

definition partial_coverage :: "charge_tally \<Rightarrow> charge_tally" where
  "partial_coverage t = t\<lparr>ta_coverage := (ta_coverage t)\<lparr>cv_State := ''partial''\<rparr>\<rparr>"

definition caveated :: "caveat \<Rightarrow> charge_tally \<Rightarrow> charge_tally" where
  "caveated v t = t\<lparr>ta_analysis := addCaveat v (ta_analysis t)\<rparr>"

text \<open>A container with all its names: its charge is added to the total, to its Pod and to its workload.\<close>

definition charge_container :: "analysis_input \<Rightarrow> charged_container \<Rightarrow> charge_tally \<Rightarrow> charge_tally" where
  "charge_container i c t =
    (let mapped = t\<lparr>ta_coverage := (ta_coverage t)\<lparr>cv_MappedContainers := cv_MappedContainers (ta_coverage t) + 1\<rparr>\<rparr>;
         t1 = (if nc_CompositionConsistent c then mapped else caveated CompositionOverlap (partial_coverage mapped));
         total = add_checked (ta_total t1) (ch_Total (nc_Charge c));
         bad = (case nc_PSIFullAvg10 c of None \<Rightarrow> False | Some v \<Rightarrow> \<not> validPercent v);
         pod = pod_contributor i c (if bad then None else nc_PSIFullAvg10 c);
         t2 = (if bad then partial_coverage t1 else t1);
         workload = workload_contributor c pod;
         podKey = pod_contributor_key pod; key = contributor_key workload;
         p = combine (mget (ta_pods t2) podKey) pod; w = combine (mget (ta_workloads t2) key) workload
     in t2\<lparr>ta_total := fst total, ta_pods := mput podKey (fst p) (ta_pods t2), ta_workloads := mput key (fst w) (ta_workloads t2),
          ta_overflow := (ta_overflow t2 \<or> \<not> snd total \<or> \<not> snd p \<or> \<not> snd w)\<rparr>)"

definition tally_container :: "analysis_input \<Rightarrow> charged_container \<Rightarrow> charge_tally \<Rightarrow> charge_tally" where
  "tally_container i c t =
    (if nc_ID c = '''' \<or> nc_ID c \<in> set (ta_seen t) then caveated AgentPartial (partial_coverage t)
     else
       (let t1 = t\<lparr>ta_seen := nc_ID c # ta_seen t\<rparr>
        in if nc_Namespace c = '''' \<or> nc_PodName c = '''' \<or> nc_PodUID c = '''' \<or> nc_ContainerName c = '''' then
             partial_coverage (t1\<lparr>ta_coverage := (ta_coverage t1)\<lparr>cv_UnmappedContainers := cv_UnmappedContainers (ta_coverage t1) + 1\<rparr>\<rparr>)
           else charge_container i c t1))"

text \<open>What is done with the sums after the loop.\<close>

definition oom_signal :: "analysis_input \<Rightarrow> (string, contributor) gomap \<Rightarrow> analysis \<Rightarrow> analysis" where
  "oom_signal i pods a =
    (if \<not> fresh_at (cg_CapturedAt (ai_Cgroup i)) (ai_Now i) CgroupStaleAfter then a
     else
       (let (kills, overflow) = observedOOMKills pods;
            a1 = (if overflow then low (addCaveat Overflow a) else a)
        in if overflow \<or> (case kills of None \<Rightarrow> False | Some k \<Rightarrow> k > 0) then
             signalled \<lparr>sg_Count = kills, sg_Code = ''observed-pod-oom-kills'', sg_Source = ''cgroup'',
               sg_CapturedAt = cg_CapturedAt (ai_Cgroup i), sg_Severity = SevWarning, sg_Value = None, sg_Unit = ''events''\<rparr> a1
           else a1))"

definition tallied :: "analysis_input \<Rightarrow> charge_tally \<Rightarrow> analysis" where
  "tallied i t =
    (let coverage = (ta_coverage t)\<lparr>cv_Pods := int (mlen (ta_pods t))\<rparr>;
         a1 = (if cv_State coverage \<noteq> ''complete'' then low (ta_analysis t) else ta_analysis t);
         a2 = (if cv_UnmappedContainers coverage > 0 then low (addCaveat Unmapped a1) else a1)
     in if ta_overflow t then low (addCaveat Overflow a2)\<lparr>al_Coverage := Some (coverage\<lparr>cv_State := ''partial''\<rparr>)\<rparr>
        else oom_signal i (ta_pods t) (a2\<lparr>al_Coverage := Some coverage, al_ObservedPodCharge := Some (ta_total t),
          al_Rankings := Some \<lparr>rk_Formula = rankingFormula (ai_Rank i), rk_Metric = ai_Rank i,
            rk_Pods = ranked (ta_pods t) (ai_Rank i) (ai_Limit i), rk_Workloads = ranked (ta_workloads t) (ai_Rank i) (ai_Limit i),
            rk_Limit = ai_Limit i,
            rk_Truncated = (int (mlen (ta_pods t)) > ai_Limit i \<or> int (mlen (ta_workloads t)) > ai_Limit i)\<rparr>\<rparr>))"

text \<open>\<open>aggregateContributors\<close>.\<close>

definition frame_noted :: "analysis_input \<Rightarrow> contributor_coverage \<Rightarrow> analysis \<Rightarrow> contributor_coverage \<times> analysis" where
  "frame_noted i coverage a =
    (let (coverage1, a1) = (if fresh_at (cg_CapturedAt (ai_Cgroup i)) (ai_Now i) CgroupStaleAfter then (coverage, a)
           else (coverage\<lparr>cv_State := ''partial''\<rparr>, low (addCaveat AgentStale a)))
     in (coverage1, if cv_State coverage1 \<noteq> ''complete'' then low (addCaveat AgentPartial a1) else a1))"

definition aggregateContributors :: "analysis_input \<Rightarrow> analysis \<Rightarrow> analysis" where
  "aggregateContributors i a =
    (let frame = ai_Cgroup i;
         coverage = \<lparr>cv_State = cg_Coverage frame, cv_CapturedAt = cg_CapturedAt frame, cv_MappedContainers = 0,
           cv_UnmappedContainers = 0, cv_Pods = 0\<rparr>
     in if cg_Coverage frame = '''' \<or> cg_Coverage frame = ''missing'' then
          low (addCaveat AgentMissing a)\<lparr>al_Coverage := Some (coverage\<lparr>cv_State := ''missing''\<rparr>)\<rparr>
        else if cg_NodeUID frame \<noteq> ai_NodeUID i then
          low (addCaveat IdentityMismatch a)\<lparr>al_Coverage := Some (coverage\<lparr>cv_State := ''partial''\<rparr>)\<rparr>
        else
          (let (coverage1, a1) = frame_noted i coverage a
           in tallied i (fold (tally_container i) (cg_Containers frame)
                \<lparr>ta_coverage = coverage1, ta_analysis = a1, ta_pods = [], ta_workloads = [], ta_seen = [], ta_overflow = False,
                  ta_total = 0\<rparr>)))"

subsection \<open>Estimates\<close>

text \<open>\<open>calculated\<close> for an estimate; the result is the estimate and the analysis it may mark.\<close>

definition calculated ::
  "estimate \<Rightarrow> analysis_input \<Rightarrow> node_memory \<Rightarrow> qualification \<Rightarrow> u64 \<Rightarrow> u64 \<Rightarrow> analysis \<Rightarrow> estimate \<times> analysis"
where
  "calculated e i memory q usage included a =
    (let e1 = e\<lparr>et_State := cap_Available, et_Bytes := Some (if usage \<ge> included then usage - included else 0),
           et_CapturedAt := nm_CapturedAt memory, et_ComparedAt := cg_CapturedAt (ai_Cgroup i),
           et_Qualification := ql_EvidenceSHA256 q\<rparr>
     in if usage \<ge> included then (e1, a)
        else (e1\<lparr>et_Caveats := [NegativeGap, Skewed]\<rparr>, low (addCaveat Skewed (addCaveat NegativeGap a))))"

definition findSystem :: "system_container list \<Rightarrow> string \<Rightarrow> system_container option" where
  "findSystem systems category = find (\<lambda>s. sy_Category s = category) systems"

text \<open>The loop over the disjoint system categories: their usage, or the caveats of the early return.\<close>

definition system_usage :: "analysis_input \<Rightarrow> node_memory \<Rightarrow> system_container option \<Rightarrow> u64 option" where
  "system_usage i memory s =
    (case Option.bind s sy_Memory of None \<Rightarrow> None | Some m \<Rightarrow>
      (case nm_UsageBytes m of None \<Rightarrow> None | Some u \<Rightarrow>
        if \<not> fresh_at (nm_CapturedAt m) (ai_Now i) StaleAfter \<or> \<not> aligned_at (nm_CapturedAt m) (nm_CapturedAt memory) \<or>
           \<not> aligned_at (nm_CapturedAt m) (cg_CapturedAt (ai_Cgroup i)) then None else Some u))"

fun systems_usage ::
  "analysis_input \<Rightarrow> node_memory \<Rightarrow> system_container list \<Rightarrow> u64 \<Rightarrow> string list \<Rightarrow> caveat list + u64"
where
  "systems_usage i memory systems s [] = Inr s"
| "systems_usage i memory systems s (category # cs) =
    (case system_usage i memory (findSystem systems category) of None \<Rightarrow> Inl [SystemOverlap, Skewed] | Some u \<Rightarrow>
      if \<not> snd (add_checked s u) then Inl [Overflow] else systems_usage i memory systems (s + u) cs)"

definition unaccounted :: "caveat list \<Rightarrow> analysis \<Rightarrow> analysis" where
  "unaccounted vs a =
    (let a1 = a\<lparr>al_Unaccounted := (al_Unaccounted a)\<lparr>et_Caveats := vs\<rparr>\<rparr>
     in if vs = [Overflow] then low (addCaveat Overflow a1) else a1)"

definition estimate_reasons :: "analysis_input \<Rightarrow> analysis \<Rightarrow> caveat list" where
  "estimate_reasons i a =
    (let memory = Option.bind (Option.bind (ai_Current i) ob_Stats) node_stats.ns_Memory
     in (case (ai_Current i, memory) of
           (Some current, Some m) \<Rightarrow>
             (if ob_NodeUID current \<noteq> ai_NodeUID i \<or> nm_UsageBytes m = None then [SourceMissing]
              else if ai_SourceAvailability i \<noteq> cap_Available then [SourceFailed]
              else if \<not> fresh_at (nm_CapturedAt m) (ai_Now i) StaleAfter then [SourceStale] else [])
         | _ \<Rightarrow> [SourceMissing]) @
        (case al_Coverage a of None \<Rightarrow> [AgentPartial] | Some c \<Rightarrow>
          if cv_State c \<noteq> ''complete'' \<or> al_ObservedPodCharge a = None then [AgentPartial] else []) @
        (case memory of None \<Rightarrow> [] | Some m \<Rightarrow>
          if \<not> aligned_at (nm_CapturedAt m) (cg_CapturedAt (ai_Cgroup i)) then [Skewed] else []) @
        (if qualified_input i then [] else [Unqualified]))"

text \<open>The estimates once nothing speaks against them.\<close>

definition qualified_estimates ::
  "analysis_input \<Rightarrow> node_stats \<Rightarrow> node_memory \<Rightarrow> qualification \<Rightarrow> u64 \<Rightarrow> u64 \<Rightarrow> analysis \<Rightarrow> analysis"
where
  "qualified_estimates i st memory q usage charge a =
    (let (outside, a1) = calculated (al_OutsidePods a) i memory q usage charge a;
         a2 = a1\<lparr>al_OutsidePods := outside\<rparr>
     in if ql_DisjointSystems q = [] then unaccounted [SystemOverlap] a2
        else case systems_usage i memory (node_stats.ns_SystemContainers st) 0 (ql_DisjointSystems q) of
            Inl vs \<Rightarrow> unaccounted vs a2
          | Inr systems \<Rightarrow>
              if \<not> snd (add_checked charge systems) then unaccounted [Overflow] a2
              else (let (rest, a3) = calculated (al_Unaccounted a2) i memory q usage (charge + systems) a2
                in a3\<lparr>al_Unaccounted := rest\<rparr>))"

definition estimates :: "analysis_input \<Rightarrow> analysis \<Rightarrow> analysis" where
  "estimates i a =
    (case estimate_reasons i a of
       r # rs \<Rightarrow> fold addCaveat (r # rs) (a\<lparr>al_OutsidePods := (al_OutsidePods a)\<lparr>et_Caveats := r # rs\<rparr>,
         al_Unaccounted := (al_Unaccounted a)\<lparr>et_Caveats := r # rs\<rparr>\<rparr>)
     | [] \<Rightarrow>
        (case (Option.bind (ai_Current i) ob_Stats, ai_Qualification i, al_ObservedPodCharge a) of
           (Some st, Some q, Some charge) \<Rightarrow>
             (case node_stats.ns_Memory st of None \<Rightarrow> a | Some memory \<Rightarrow>
               (case nm_UsageBytes memory of None \<Rightarrow> a | Some usage \<Rightarrow> qualified_estimates i st memory q usage charge a))
         | _ \<Rightarrow> a))"

subsection \<open>Analyse\<close>

definition empty_frame :: cgroup_frame where
  "empty_frame = \<lparr>cg_NodeUID = '''', cg_CapturedAt = 0, cg_Coverage = '''', cg_Containers = []\<rparr>"

text \<open>The input with the defaults filled in, and no cgroup evidence without the access to it.\<close>

definition prepared :: "analysis_input \<Rightarrow> analysis_input" where
  "prepared i = i\<lparr>ai_Cgroup := (if ai_Access i \<noteq> ''cluster-pods'' then empty_frame else ai_Cgroup i),
     ai_Rank := (if ai_Rank i = '''' then ''total'' else ai_Rank i),
     ai_Limit := (if ai_Limit i = 0 then DefaultContributors else ai_Limit i)\<rparr>"

definition input_error :: "analysis_input \<Rightarrow> analysis_error option" where
  "input_error i =
    (if ai_Rank i \<notin> {''total'', ''anon'', ''cache'', ''shmem'', ''residual'', ''psi'', ''oom''} then Some RankingUnsupported
     else if ai_Limit i < 1 \<or> ai_Limit i > MaxContributors \<or> length (cg_Containers (ai_Cgroup i)) > MaxContainers_analysis
       then Some AnalysisBounds
     else if ai_Access i \<noteq> '''' \<and> ai_Access i \<noteq> ''node-only'' \<and> ai_Access i \<noteq> ''cluster-pods'' then Some ScopeUnsupported
     else validateInput i)"

definition empty_facts :: "analysis_input \<Rightarrow> node_facts" where
  "empty_facts i = \<lparr>nf_ContextSource = '''', nf_MajorFaultFormula = '''', nf_SwapGrowthFormula = '''', nf_FaultWindowStartedAt = 0,
     nf_SwapWindowStartedAt = 0, nf_Availability = ai_SourceAvailability i, nf_Memory = None, nf_Swap = None, nf_Context = None,
     nf_SystemContainers = [], nf_GrowingSwapBytes = None, nf_MajorFaultsPerSecond = None\<rparr>"

definition first_result :: "analysis_input \<Rightarrow> analysis" where
  "first_result i = \<lparr>al_NodeName = ai_NodeName i, al_NodeUID = ai_NodeUID i, al_EvaluatedAt = ai_Now i, al_Severity = SevUnknown,
     al_Confidence = ConfLow, al_Signals = [], al_Caveats = [], al_Facts = empty_facts i, al_Coverage = None,
     al_ObservedPodCharge = None,
     al_OutsidePods = unavailableEstimate ''max(0, node.usage - observedPodCharge)'',
     al_Unaccounted = unavailableEstimate ''max(0, node.usage - observedPodCharge - qualifiedDisjointSystemUsage)'',
     al_Rankings = None, al_ContributorAccess = ''node-only''\<rparr>"

text \<open>What the current report of the Node adds.\<close>

definition facts_of :: "observation \<Rightarrow> node_facts \<Rightarrow> node_facts" where
  "facts_of current f =
    (let f1 = f\<lparr>nf_Context := ob_Context current, nf_ContextSource := (if ob_Context current \<noteq> None then ''kubernetes-status'' else nf_ContextSource f)\<rparr>
     in case ob_Stats current of None \<Rightarrow> f1 | Some st \<Rightarrow>
       f1\<lparr>nf_Memory := node_stats.ns_Memory st, nf_Swap := node_stats.ns_Swap st, nf_SystemContainers := node_stats.ns_SystemContainers st\<rparr>)"

definition noted :: "bool \<Rightarrow> caveat \<Rightarrow> analysis \<Rightarrow> analysis" where
  "noted b v a = (if b then low (addCaveat v a) else a)"

definition node_result :: "analysis_input \<Rightarrow> observation \<Rightarrow> analysis \<Rightarrow> analysis" where
  "node_result i current a =
    (let a1 = a\<lparr>al_Confidence := ConfMedium, al_Facts := facts_of current (al_Facts a)\<rparr>;
         pages = (case ob_Context current of None \<Rightarrow> False | Some k \<Rightarrow> kc_Hugepages k \<noteq> []);
         a2 = (if pages then addCaveat HugepagesSeparate a1 else a1);
         a3 = noted (\<not> fresh_at (en_CapturedAt (ob_Evidence current)) (ai_Now i) StaleAfter) SourceStale a2;
         a4 = noted (ai_SourceAvailability i \<noteq> cap_Available) SourceFailed a3
     in pressure i current (deriveRates i current a4))"

definition pod_result :: "analysis_input \<Rightarrow> analysis \<Rightarrow> analysis" where
  "pod_result i a =
    (if ai_Access i = ''cluster-pods'' then estimates i (aggregateContributors i (a\<lparr>al_ContributorAccess := ''cluster-pods''\<rparr>))
     else (addCaveat PodAccessDenied a)\<lparr>al_OutsidePods := (al_OutsidePods a)\<lparr>et_Caveats := [PodAccessDenied]\<rparr>,
       al_Unaccounted := (al_Unaccounted a)\<lparr>et_Caveats := [PodAccessDenied]\<rparr>\<rparr>)"

definition analysed :: "analysis_input \<Rightarrow> analysis" where
  "analysed i =
    (let mismatch = (case ai_Current i of None \<Rightarrow> False | Some c \<Rightarrow> ob_NodeUID c \<noteq> ai_NodeUID i \<or> ob_NodeName c \<noteq> ai_NodeName i);
         i1 = (if mismatch then i\<lparr>ai_Current := None\<rparr> else i);
         a1 = (if mismatch then addCaveat IdentityMismatch (first_result i) else first_result i);
         a2 = (case ai_Current i1 of None \<Rightarrow> addCaveat SourceMissing a1 | Some c \<Rightarrow> node_result i1 c a1);
         a3 = pod_result i1 a2;
         a4 = (if al_Severity a3 = SevUnknown then addCaveat NoPressureEvidence a3 else a3)
     in a4\<lparr>al_Caveats := sort_key caveat_text (al_Caveats a4)\<rparr>)"

definition Analyse :: "analysis_input \<Rightarrow> analysis_error + analysis" where
  "Analyse i =
    (if is_zero_time (ai_Now i) \<or> ai_NodeName i = '''' \<or> ai_NodeUID i = '''' then Inl IdentityRequired
     else case input_error (prepared i) of Some e \<Rightarrow> Inl e | None \<Rightarrow> Inr (analysed (prepared i)))"

end
