(* ===== verification/Analysis_Properties.thy ===== *)
theory Analysis_Properties
  imports Node_Analysis Go_Account
begin

text \<open>
  The analysis of a Node: its sums are exact or withheld, Pods and workloads account for the same charge, and an estimate
  is a floored difference over evidence that is complete, fresh, aligned and qualified by the operator.
\<close>

subsection \<open>Checked addition\<close>

lemma add_checked_exact:
  assumes "snd (add_checked l r)"
  shows "uint (l + r) = uint l + uint r"
proof -
  have "uint (- 1 - l) = 2 ^ 64 - 1 - uint l"
    using uint_lt2p [of l] by (simp add: uint_sub_if' unsigned_minus_1_eq_mask mask_eq_exp_minus_1)
  moreover have "uint r \<le> uint (- 1 - l)"
    using assms by (simp add: add_checked_def word_le_def not_less split: if_splits)
  ultimately show ?thesis
    by (simp add: uint_plus_if')
qed

lemma fst_add_checked: "snd (add_checked l r) \<Longrightarrow> fst (add_checked l r) = l + r"
  by (simp add: add_checked_def split: if_splits)

subsection \<open>The sums of the loop\<close>

text \<open>The fields of a charge, and their sum over the contributors of a map.\<close>

definition charge_fields :: "(charges \<Rightarrow> u64) set" where
  "charge_fields = {ch_Total, ch_Anon, ch_Cache, ch_Shmem, ch_Residual}"

abbreviation charged :: "(charges \<Rightarrow> u64) \<Rightarrow> contributor \<Rightarrow> int" where
  "charged f c \<equiv> uint (f (cb_Charge c))"

definition mapped :: "charged_container \<Rightarrow> bool" where
  "mapped c \<longleftrightarrow> nc_ID c \<noteq> '''' \<and> nc_Namespace c \<noteq> '''' \<and> nc_PodName c \<noteq> '''' \<and> nc_PodUID c \<noteq> '''' \<and> nc_ContainerName c \<noteq> ''''"

definition mapped_charge :: "(charges \<Rightarrow> u64) \<Rightarrow> charged_container list \<Rightarrow> int" where
  "mapped_charge f cs = sum_list (map (\<lambda>c. uint (f (nc_Charge c))) (filter mapped cs))"

lemma mapped_charge_simps [simp]:
  "mapped_charge f [] = 0"
  "mapped_charge f (c # cs) = (if mapped c then uint (f (nc_Charge c)) else 0) + mapped_charge f cs"
  by (simp_all add: mapped_charge_def)

lemma combine_exact:
  assumes "combine previous current = (c, True)" and "f \<in> charge_fields" and "\<And>p. previous = Some p \<Longrightarrow> cb_Name p \<noteq> ''''"
  shows "charged f c = (case previous of None \<Rightarrow> 0 | Some p \<Rightarrow> charged f p) + charged f current"
proof (cases previous)
  case None
  with assms(1) show ?thesis
    by (simp add: combine_def)
next
  case (Some p)
  with assms(3) have "cb_Name p \<noteq> ''''"
    by simp
  with Some assms(1,2) show ?thesis
    by (auto simp: combine_def Let_def charge_fields_def fst_add_checked add_checked_exact)
qed

lemma combine_name:
  "cb_Name current \<noteq> '''' \<Longrightarrow> (\<And>p. previous = Some p \<Longrightarrow> cb_Name p \<noteq> '''') \<Longrightarrow> cb_Name (fst (combine previous current)) \<noteq> ''''"
  by (auto simp: combine_def Let_def split: option.splits)

text \<open>A map of contributors that accounts for the charges of the containers read so far.\<close>

definition accounts :: "charged_container list \<Rightarrow> (string, contributor) gomap \<Rightarrow> bool" where
  "accounts cs m \<longleftrightarrow> (\<forall>f \<in> charge_fields. msum (charged f) m = mapped_charge f cs)"

definition named_map :: "(string, contributor) gomap \<Rightarrow> bool" where
  "named_map m \<longleftrightarrow> mwf m \<and> (\<forall>k p. mget m k = Some p \<longrightarrow> cb_Name p \<noteq> '''')"

lemma named_map_put:
  "named_map m \<Longrightarrow> cb_Name c \<noteq> '''' \<Longrightarrow> named_map (mput k (fst (combine (mget m k) c)) m)"
  using combine_name [of c "mget m k"] by (auto simp: named_map_def mwf_mput mget_mput)

lemma accounts_put:
  assumes "accounts cs m" and "named_map m" and "snd (combine (mget m k) c)" and "mapped x"
    and "cb_Charge c = nc_Charge x"
  shows "accounts (x # cs) (mput k (fst (combine (mget m k) c)) m)"
proof -
  obtain v where v: "combine (mget m k) c = (v, True)"
    using assms(3) by (metis prod.collapse)
  have "charged f v = (case mget m k of None \<Rightarrow> 0 | Some p \<Rightarrow> charged f p) + charged f c" if "f \<in> charge_fields" for f
    using v that assms(2) by (intro combine_exact) (auto simp: named_map_def)
  with assms v show ?thesis
    by (auto simp: accounts_def named_map_def msum_mput split: option.splits)
qed

definition tally_ok :: "charged_container list \<Rightarrow> charge_tally \<Rightarrow> bool" where
  "tally_ok cs t \<longleftrightarrow> named_map (ta_pods t) \<and> named_map (ta_workloads t) \<and>
    (ta_overflow t \<or> uint (ta_total t) = mapped_charge ch_Total cs \<and> accounts cs (ta_pods t) \<and> accounts cs (ta_workloads t))"

lemma tally_frames [simp]:
  "ta_pods (partial_coverage t) = ta_pods t" "ta_workloads (partial_coverage t) = ta_workloads t"
  "ta_overflow (partial_coverage t) = ta_overflow t" "ta_total (partial_coverage t) = ta_total t" "ta_seen (partial_coverage t) = ta_seen t"
  "ta_pods (caveated v t) = ta_pods t" "ta_workloads (caveated v t) = ta_workloads t"
  "ta_overflow (caveated v t) = ta_overflow t" "ta_total (caveated v t) = ta_total t" "ta_seen (caveated v t) = ta_seen t"
  by (simp_all add: partial_coverage_def caveated_def)

text \<open>What a container of all names does to the sums, without the coverage and the caveats.\<close>

lemma charge_container_sums:
  obtains pod workload where
    "cb_Charge pod = nc_Charge c" and "cb_Charge workload = nc_Charge c" and "cb_Name pod = nc_PodName c"
    and "cb_Name workload = nc_PodName c \<or> cb_Name workload \<noteq> ''''"
    and "let j = pod_contributor_key pod; k = contributor_key workload; p = combine (mget (ta_pods t) j) pod;
           w = combine (mget (ta_workloads t) k) workload; t' = charge_container i c t
         in ta_pods t' = mput j (fst p) (ta_pods t) \<and> ta_workloads t' = mput k (fst w) (ta_workloads t) \<and>
           ta_total t' = fst (add_checked (ta_total t) (ch_Total (nc_Charge c))) \<and> ta_seen t' = ta_seen t \<and>
           ta_overflow t' = (ta_overflow t \<or> \<not> snd (add_checked (ta_total t) (ch_Total (nc_Charge c))) \<or> \<not> snd p \<or> \<not> snd w)"
proof -
  let ?bad = "case nc_PSIFullAvg10 c of None \<Rightarrow> False | Some v \<Rightarrow> \<not> validPercent v"
  let ?pod = "pod_contributor i c (if ?bad then None else nc_PSIFullAvg10 c)"
  show ?thesis
    by (rule that [of ?pod "workload_contributor c ?pod"])
      (simp_all add: pod_contributor_def workload_contributor_def charge_container_def Let_def split: option.splits)
qed

lemma tally_container_ok:
  assumes "tally_ok cs t" and "nc_ID c \<notin> set (ta_seen t)"
  shows "tally_ok (c # cs) (tally_container i c t)"
proof (cases "mapped c")
  case False
  with assms show ?thesis
    by (auto simp: tally_ok_def tally_container_def mapped_def Let_def accounts_def)
next
  case True
  let ?t = "t\<lparr>ta_seen := nc_ID c # ta_seen t\<rparr>"
  obtain pod workload where names: "cb_Charge pod = nc_Charge c" "cb_Charge workload = nc_Charge c" "cb_Name pod = nc_PodName c"
      "cb_Name workload = nc_PodName c \<or> cb_Name workload \<noteq> ''''"
    and sums: "let j = pod_contributor_key pod; k = contributor_key workload; p = combine (mget (ta_pods ?t) j) pod;
           w = combine (mget (ta_workloads ?t) k) workload; t' = charge_container i c ?t
         in ta_pods t' = mput j (fst p) (ta_pods ?t) \<and> ta_workloads t' = mput k (fst w) (ta_workloads ?t) \<and>
           ta_total t' = fst (add_checked (ta_total ?t) (ch_Total (nc_Charge c))) \<and> ta_seen t' = ta_seen ?t \<and>
           ta_overflow t' = (ta_overflow ?t \<or> \<not> snd (add_checked (ta_total ?t) (ch_Total (nc_Charge c))) \<or> \<not> snd p \<or> \<not> snd w)"
    by (rule charge_container_sums)
  have t': "tally_container i c t = charge_container i c ?t"
    using True assms(2) by (simp add: tally_container_def mapped_def Let_def)
  have n: "cb_Name pod \<noteq> ''''" "cb_Name workload \<noteq> ''''"
    using True names by (auto simp: mapped_def)
  have maps: "named_map (ta_pods t)" "named_map (ta_workloads t)"
    using assms(1) by (simp_all add: tally_ok_def)
  show ?thesis
  proof (cases "ta_overflow (tally_container i c t)")
    case over: True
    with sums maps n show ?thesis
      by (simp add: tally_ok_def t' Let_def named_map_put)
  next
    case fits: False
    then have parts: "\<not> ta_overflow t" "snd (add_checked (ta_total t) (ch_Total (nc_Charge c)))"
      "snd (combine (mget (ta_pods t) (pod_contributor_key pod)) pod)"
      "snd (combine (mget (ta_workloads t) (contributor_key workload)) workload)"
      using sums by (simp_all add: t' Let_def)
    with assms(1) have before: "uint (ta_total t) = mapped_charge ch_Total cs" "accounts cs (ta_pods t)" "accounts cs (ta_workloads t)"
      by (simp_all add: tally_ok_def)
    show ?thesis
      using sums n maps parts before True names
      by (simp add: tally_ok_def t' Let_def named_map_put accounts_put fst_add_checked add_checked_exact)
  qed
qed

text \<open>No container comes twice in an input that is accepted, so every one of all names is counted.\<close>

lemma seen_container: "ta_seen (tally_container i c t) = (if nc_ID c = '''' \<or> nc_ID c \<in> set (ta_seen t) then ta_seen t else nc_ID c # ta_seen t)"
proof -
  have "ta_seen (charge_container i c t') = ta_seen t'" for t'
    by (rule charge_container_sums [where c = c and i = i and t = t']) (simp add: Let_def)
  then show ?thesis
    by (simp add: tally_container_def Let_def)
qed

lemma tally_fold:
  assumes "tally_ok read t" and "containers_error seen cs = None" and "'''' \<notin> set (ta_seen t)" and "set (ta_seen t) \<subseteq> set seen"
  shows "tally_ok (rev cs @ read) (fold (tally_container i) cs t)"
  using assms
proof (induction cs arbitrary: t seen read)
  case (Cons c cs)
  have new: "nc_ID c \<notin> set (ta_seen t)" and rest: "containers_error (nc_ID c # seen) cs = None"
    using Cons.prems by (auto split: if_splits)
  have "tally_ok (rev cs @ c # read) (fold (tally_container i) cs (tally_container i c t))"
    by (rule Cons.IH [OF tally_container_ok [OF Cons.prems(1) new] rest]) (use Cons.prems(3,4) in \<open>auto simp: seen_container\<close>)
  then show ?case
    by simp
qed simp

lemma mapped_charge_rev [simp]: "mapped_charge f (rev cs) = mapped_charge f cs"
  by (simp add: mapped_charge_def rev_filter [symmetric] rev_map [symmetric])

lemma mapped_charge_nonneg: "0 \<le> mapped_charge f cs"
  by (induction cs) simp_all

subsection \<open>What the steps leave alone\<close>

named_theorems analysis_frames "what a step of the analysis leaves alone"

lemma addCaveat_frames [analysis_frames]:
  "al_ObservedPodCharge (addCaveat v a) = al_ObservedPodCharge a" "al_Rankings (addCaveat v a) = al_Rankings a"
  "al_Coverage (addCaveat v a) = al_Coverage a" "al_OutsidePods (addCaveat v a) = al_OutsidePods a"
  "al_Unaccounted (addCaveat v a) = al_Unaccounted a"
  by (simp_all add: addCaveat_def)

lemma fold_caveats_frames [analysis_frames]:
  "al_ObservedPodCharge (fold addCaveat vs a) = al_ObservedPodCharge a" "al_Rankings (fold addCaveat vs a) = al_Rankings a"
  "al_Coverage (fold addCaveat vs a) = al_Coverage a" "al_OutsidePods (fold addCaveat vs a) = al_OutsidePods a"
  "al_Unaccounted (fold addCaveat vs a) = al_Unaccounted a"
  by (induction vs arbitrary: a) (simp_all add: analysis_frames)

lemma signalled_frames [analysis_frames]:
  "al_ObservedPodCharge (signalled s a) = al_ObservedPodCharge a" "al_Rankings (signalled s a) = al_Rankings a"
  "al_Coverage (signalled s a) = al_Coverage a" "al_OutsidePods (signalled s a) = al_OutsidePods a"
  "al_Unaccounted (signalled s a) = al_Unaccounted a"
  by (simp_all add: signalled_def promote_def)

lemma oom_signal_frames [analysis_frames]:
  "al_ObservedPodCharge (oom_signal i m a) = al_ObservedPodCharge a" "al_Rankings (oom_signal i m a) = al_Rankings a"
  "al_Coverage (oom_signal i m a) = al_Coverage a" "al_OutsidePods (oom_signal i m a) = al_OutsidePods a"
  "al_Unaccounted (oom_signal i m a) = al_Unaccounted a"
  by (simp_all add: oom_signal_def analysis_frames Let_def split: prod.split)

text \<open>The Node's own part says nothing of the Pods.\<close>

definition no_pods :: "analysis \<Rightarrow> bool" where
  "no_pods a \<longleftrightarrow> al_ObservedPodCharge a = None \<and> al_Rankings a = None \<and> al_Coverage a = None \<and>
     et_Bytes (al_OutsidePods a) = None \<and> et_Bytes (al_Unaccounted a) = None"

lemma no_pods_steps [simp]:
  "no_pods (addCaveat v a) = no_pods a" "no_pods (signalled s a) = no_pods a" "no_pods (a\<lparr>al_Confidence := c\<rparr>) = no_pods a"
  "no_pods (a\<lparr>al_Facts := f\<rparr>) = no_pods a" "no_pods (a\<lparr>al_ContributorAccess := x\<rparr>) = no_pods a" "no_pods (noted b v a) = no_pods a"
  by (simp_all add: no_pods_def analysis_frames noted_def)

lemma no_pods_rates: "no_pods (deriveRates i c a) = no_pods a"
  by (simp add: deriveRates_def Let_def swap_noted_def fault_rate_def swap_growth_def split: option.split)

lemma no_pods_pressure: "no_pods (pressure i c a) = no_pods a"
  by (simp add: pressure_def condition_pressure_def stall_pressure_def Let_def pressureSignal_def status_signal_def split: option.split)

lemma no_pods_node: "no_pods (node_result i c a) = no_pods a"
  by (simp add: node_result_def Let_def no_pods_rates no_pods_pressure split: option.split)

lemma no_pods_first: "no_pods (first_result i)"
  by (simp add: no_pods_def first_result_def unavailableEstimate_def)

subsection \<open>The charge\<close>

text \<open>What a result says of the charges of the containers \<open>cs\<close>.\<close>

definition ranks_charge :: "charged_container list \<Rightarrow> rankings \<Rightarrow> bool" where
  "ranks_charge cs r \<longleftrightarrow> (\<forall>f \<in> charge_fields.
     sum_list (map (charged f) (rk_Pods r)) \<le> mapped_charge f cs \<and> sum_list (map (charged f) (rk_Workloads r)) \<le> mapped_charge f cs \<and>
     (\<not> rk_Truncated r \<longrightarrow> sum_list (map (charged f) (rk_Pods r)) = mapped_charge f cs \<and>
        sum_list (map (charged f) (rk_Workloads r)) = mapped_charge f cs))"

definition charge_ok :: "analysis_input \<Rightarrow> analysis \<Rightarrow> bool" where
  "charge_ok i a \<longleftrightarrow> (\<forall>charge. al_ObservedPodCharge a = Some charge \<longrightarrow> uint charge = mapped_charge ch_Total (cg_Containers (ai_Cgroup i))) \<and>
     (\<forall>r. al_Rankings a = Some r \<longrightarrow> ranks_charge (cg_Containers (ai_Cgroup i)) r \<and> int (length (rk_Pods r)) \<le> ai_Limit i \<and>
        int (length (rk_Workloads r)) \<le> ai_Limit i)"

lemma no_pods_charge: "no_pods a \<Longrightarrow> charge_ok i a"
  by (simp add: no_pods_def charge_ok_def)

lemma sum_list_mset:
  fixes g :: "'a \<Rightarrow> int"
  assumes "mset xs = mset ys"
  shows "sum_list (map g xs) = sum_list (map g ys)"
proof -
  have "sum_mset (mset (map g xs)) = sum_mset (mset (map g ys))"
    by (simp only: mset_map assms)
  then show ?thesis
    by (simp only: sum_mset_sum_list)
qed

lemma ranked_sum:
  fixes f :: "charges \<Rightarrow> u64"
  shows "sum_list (map (charged f) (ranked m metric n)) \<le> msum (charged f) m"
    and "int (mlen m) \<le> n \<Longrightarrow> sum_list (map (charged f) (ranked m metric n)) = msum (charged f) m"
proof -
  let ?s = "sort_slice (outranks metric) (map snd m)"
  have all: "sum_list (map (charged f) ?s) = msum (charged f) m"
    by (subst sum_list_mset [of _ "map snd m"]) (simp_all add: msum_def comp_def case_prod_beta')
  let ?k = "nat n"
  have "sum_list (map (charged f) (take ?k ?s @ drop ?k ?s)) =
      sum_list (map (charged f) (take ?k ?s)) + sum_list (map (charged f) (drop ?k ?s))"
    by (simp only: map_append sum_list_append)
  moreover have "0 \<le> sum_list (map (charged f) xs)" for xs
    by (induction xs) simp_all
  from this [of "drop ?k ?s"] calculation show "sum_list (map (charged f) (ranked m metric n)) \<le> msum (charged f) m"
    unfolding ranked_def append_take_drop_id all by linarith
  show "sum_list (map (charged f) (ranked m metric n)) = msum (charged f) m" if "int (mlen m) \<le> n"
    using that all by (simp add: ranked_def mlen_def)
qed

lemma ranked_length: "0 \<le> n \<Longrightarrow> int (length (ranked m metric n)) \<le> n"
  by (simp add: ranked_def)

lemma tallied_charge:
  assumes "tally_ok (rev (cg_Containers (ai_Cgroup i))) t" and "0 \<le> ai_Limit i" and "no_pods (ta_analysis t)"
  shows "charge_ok i (tallied i t)"
proof (cases "ta_overflow t")
  case True
  have none: "al_ObservedPodCharge (ta_analysis t) = None" "al_Rankings (ta_analysis t) = None"
    using assms(3) by (simp_all add: no_pods_def)
  with True show ?thesis
    by (simp add: charge_ok_def tallied_def Let_def analysis_frames)
next
  case False
  let ?cs = "cg_Containers (ai_Cgroup i)"
  have sums: "uint (ta_total t) = mapped_charge ch_Total ?cs"
    "\<And>f. f \<in> charge_fields \<Longrightarrow> msum (charged f) (ta_pods t) = mapped_charge f ?cs"
    "\<And>f. f \<in> charge_fields \<Longrightarrow> msum (charged f) (ta_workloads t) = mapped_charge f ?cs"
    using assms(1) False by (simp_all add: tally_ok_def accounts_def)
  have charge: "al_ObservedPodCharge (tallied i t) = Some (ta_total t)"
    and ranks: "al_Rankings (tallied i t) = Some \<lparr>rk_Formula = rankingFormula (ai_Rank i), rk_Metric = ai_Rank i,
            rk_Pods = ranked (ta_pods t) (ai_Rank i) (ai_Limit i), rk_Workloads = ranked (ta_workloads t) (ai_Rank i) (ai_Limit i),
            rk_Limit = ai_Limit i,
            rk_Truncated = (int (mlen (ta_pods t)) > ai_Limit i \<or> int (mlen (ta_workloads t)) > ai_Limit i)\<rparr>"
    using False by (simp_all add: tallied_def Let_def analysis_frames)
  have "ranks_charge ?cs r" if "al_Rankings (tallied i t) = Some r" for r
    unfolding ranks_charge_def
  proof (intro ballI)
    fix f
    assume f: "f \<in> charge_fields"
    have r: "rk_Pods r = ranked (ta_pods t) (ai_Rank i) (ai_Limit i)" "rk_Workloads r = ranked (ta_workloads t) (ai_Rank i) (ai_Limit i)"
      "rk_Truncated r = (int (mlen (ta_pods t)) > ai_Limit i \<or> int (mlen (ta_workloads t)) > ai_Limit i)"
      using that ranks by auto
    note pods = ranked_sum [where f = f and m = "ta_pods t" and metric = "ai_Rank i" and n = "ai_Limit i", unfolded sums(2) [OF f]]
      and workloads = ranked_sum [where f = f and m = "ta_workloads t" and metric = "ai_Rank i" and n = "ai_Limit i", unfolded sums(3) [OF f]]
    show "sum_list (map (charged f) (rk_Pods r)) \<le> mapped_charge f ?cs \<and> sum_list (map (charged f) (rk_Workloads r)) \<le> mapped_charge f ?cs \<and>
       (\<not> rk_Truncated r \<longrightarrow> sum_list (map (charged f) (rk_Pods r)) = mapped_charge f ?cs \<and>
          sum_list (map (charged f) (rk_Workloads r)) = mapped_charge f ?cs)"
      unfolding r using pods workloads by (simp add: not_less)
  qed
  with sums(1) charge ranks assms(2) show ?thesis
    by (auto simp: charge_ok_def ranked_length)
qed

lemma tally_analysis: "no_pods (ta_analysis (fold (tally_container i) cs t)) = no_pods (ta_analysis t)"
proof (induction cs arbitrary: t)
  case (Cons c cs)
  have "no_pods (ta_analysis (tally_container i c t)) = no_pods (ta_analysis t)"
    by (simp add: tally_container_def charge_container_def Let_def caveated_def partial_coverage_def)
  with Cons show ?case
    by simp
qed simp

lemma containers_checked: "input_error i = None \<Longrightarrow> containers_error [] (cg_Containers (ai_Cgroup i)) = None \<and> 0 \<le> ai_Limit i"
  by (auto simp: input_error_def validateInput_def split: if_splits option.splits)

lemma no_pods_noted: "no_pods a \<Longrightarrow> frame_noted i c a = (c1, a1) \<Longrightarrow> no_pods a1"
  by (auto simp: frame_noted_def split: if_splits)

lemma aggregate_charge:
  assumes "input_error i = None" and "no_pods a"
  shows "charge_ok i (aggregateContributors i a)"
proof -
  let ?cs = "cg_Containers (ai_Cgroup i)"
  obtain c1 a1 where f: "frame_noted i \<lparr>cv_State = cg_Coverage (ai_Cgroup i), cv_CapturedAt = cg_CapturedAt (ai_Cgroup i),
      cv_MappedContainers = 0, cv_UnmappedContainers = 0, cv_Pods = 0\<rparr> a = (c1, a1)"
    by fastforce
  let ?t = "\<lparr>ta_coverage = c1, ta_analysis = a1, ta_pods = [], ta_workloads = [], ta_seen = [], ta_overflow = False, ta_total = 0\<rparr>"
  have "tally_ok (rev ?cs @ []) (fold (tally_container i) ?cs ?t)"
    by (rule tally_fold [where seen = "[]"])
      (use containers_checked [OF assms(1)] in \<open>simp_all add: tally_ok_def accounts_def named_map_def\<close>)
  then have "charge_ok i (tallied i (fold (tally_container i) ?cs ?t))"
    using containers_checked [OF assms(1)] no_pods_noted [OF assms(2) f] by (intro tallied_charge) (simp_all add: tally_analysis)
  moreover have "al_ObservedPodCharge a = None" "al_Rankings a = None"
    using assms(2) by (simp_all add: no_pods_def)
  ultimately show ?thesis
    by (simp add: aggregateContributors_def Let_def f charge_ok_def analysis_frames)
qed

subsection \<open>The estimates\<close>

definition same_pods :: "analysis \<Rightarrow> analysis \<Rightarrow> bool" where
  "same_pods a b \<longleftrightarrow> al_ObservedPodCharge b = al_ObservedPodCharge a \<and> al_Rankings b = al_Rankings a \<and> al_Coverage b = al_Coverage a"

lemma calculated_frames:
  assumes "calculated e i m q usage part a = (e', a')"
  shows "same_pods a a'" and "al_OutsidePods a' = al_OutsidePods a" and "al_Unaccounted a' = al_Unaccounted a"
    and "et_Bytes e' = Some (if usage \<ge> part then usage - part else 0)"
  using assms by (auto simp: calculated_def Let_def same_pods_def analysis_frames split: if_splits)

lemma floored_difference: "uint (if u \<ge> v then u - v else 0 :: u64) = max 0 (uint u - uint v)"
  by (auto simp: word_le_def uint_sub_if' uint_minus_simple_alt max_def)

lemma unaccounted_frames:
  "same_pods a (unaccounted vs a)" "al_OutsidePods (unaccounted vs a) = al_OutsidePods a"
  "et_Bytes (al_Unaccounted (unaccounted vs a)) = et_Bytes (al_Unaccounted a)"
  by (simp_all add: unaccounted_def Let_def same_pods_def analysis_frames)

lemma systems_usage_sum:
  "systems_usage i m systems s cs = Inr t \<Longrightarrow>
    \<exists>us. map (\<lambda>c. system_usage i m (findSystem systems c)) cs = map Some us \<and> uint t = uint s + sum_list (map uint us)"
proof (induction cs arbitrary: s)
  case (Cons c cs)
  then obtain u where u: "system_usage i m (findSystem systems c) = Some u" "snd (add_checked s u)"
    "systems_usage i m systems (s + u) cs = Inr t"
    by (auto split: option.splits if_splits)
  obtain us where us: "map (\<lambda>c. system_usage i m (findSystem systems c)) cs = map Some us" "uint t = uint (s + u) + sum_list (map uint us)"
    using Cons.IH [OF u(3)] by blast
  with u show ?case
    by (intro exI [of _ "u # us"]) (simp add: add_checked_exact)
qed simp

text \<open>The evidence an estimate rests on.\<close>

definition estimate_basis ::
  "analysis_input \<Rightarrow> analysis \<Rightarrow> node_stats \<Rightarrow> node_memory \<Rightarrow> qualification \<Rightarrow> u64 \<Rightarrow> u64 \<Rightarrow> bool"
where
  "estimate_basis i a st m q usage charge \<longleftrightarrow>
    (\<exists>current. ai_Current i = Some current \<and> ob_NodeUID current = ai_NodeUID i \<and> ob_Stats current = Some st) \<and>
    node_stats.ns_Memory st = Some m \<and> nm_UsageBytes m = Some usage \<and> ai_SourceAvailability i = cap_Available \<and>
    fresh_at (nm_CapturedAt m) (ai_Now i) StaleAfter \<and> aligned_at (nm_CapturedAt m) (cg_CapturedAt (ai_Cgroup i)) \<and>
    (\<exists>c. al_Coverage a = Some c \<and> cv_State c = ''complete'') \<and> al_ObservedPodCharge a = Some charge \<and>
    ai_Qualification i = Some q \<and> qualification_valid q \<and> ql_NodeUID q = ai_NodeUID i \<and> ql_NodeStartedAt q = node_stats.ns_StartedAt st \<and>
    ql_ValidFrom q \<le> ai_Now i \<and> ai_Now i < ql_ExpiresAt q"

lemma no_reasons:
  assumes "estimate_reasons i a = []"
  obtains st m q usage charge where "estimate_basis i a st m q usage charge"
  using assms unfolding estimate_reasons_def Let_def
  by (auto simp: estimate_basis_def qualified_input_def not_less split: option.splits if_splits)

definition estimates_ok :: "analysis_input \<Rightarrow> analysis \<Rightarrow> bool" where
  "estimates_ok i a \<longleftrightarrow>
    (\<forall>v. et_Bytes (al_OutsidePods a) = Some v \<longrightarrow>
      (\<exists>st m q usage charge. estimate_basis i a st m q usage charge \<and> uint v = max 0 (uint usage - uint charge))) \<and>
    (\<forall>v. et_Bytes (al_Unaccounted a) = Some v \<longrightarrow>
      (\<exists>st m q usage charge us. estimate_basis i a st m q usage charge \<and> ql_DisjointSystems q \<noteq> [] \<and>
        map (\<lambda>c. system_usage i m (findSystem (node_stats.ns_SystemContainers st) c)) (ql_DisjointSystems q) = map Some us \<and>
        uint v = max 0 (uint usage - uint charge - sum_list (map uint us))))"

lemma estimate_basis_same: "same_pods a b \<Longrightarrow> estimate_basis i b = estimate_basis i a"
  by (intro ext) (simp add: estimate_basis_def same_pods_def)

lemma qualified_estimates_ok:
  assumes "estimate_basis i a st m q usage charge" and "et_Bytes (al_Unaccounted a) = None"
  shows "estimates_ok i (qualified_estimates i st m q usage charge a)" and "same_pods a (qualified_estimates i st m q usage charge a)"
proof -
  obtain outside a1 where c1: "calculated (al_OutsidePods a) i m q usage charge a = (outside, a1)"
    by fastforce
  let ?a2 = "a1\<lparr>al_OutsidePods := outside\<rparr>" and ?r = "qualified_estimates i st m q usage charge a"
  have a2: "same_pods a ?a2" "et_Bytes (al_Unaccounted ?a2) = None"
    using calculated_frames [OF c1] assms(2) by (simp_all add: same_pods_def)
  have first: "uint v = max 0 (uint usage - uint charge)" if "et_Bytes outside = Some v" for v
    using that calculated_frames(4) [OF c1] floored_difference by auto
  have out: "estimates_ok i b \<and> same_pods a b" if "same_pods a b" "al_OutsidePods b = outside"
    "\<And>v. et_Bytes (al_Unaccounted b) = Some v \<Longrightarrow> \<exists>us. ql_DisjointSystems q \<noteq> [] \<and>
        map (\<lambda>c. system_usage i m (findSystem (node_stats.ns_SystemContainers st) c)) (ql_DisjointSystems q) = map Some us \<and>
        uint v = max 0 (uint usage - uint charge - sum_list (map uint us))" for b
    using that assms(1) first unfolding estimates_ok_def estimate_basis_same [OF that(1)] by blast
  have none: "estimates_ok i (unaccounted vs ?a2) \<and> same_pods a (unaccounted vs ?a2)" for vs
    by (rule out) (use a2 unaccounted_frames in \<open>simp_all add: same_pods_def\<close>)
  have "estimates_ok i ?r \<and> same_pods a ?r"
  proof (cases "ql_DisjointSystems q = []")
    case True
    then show ?thesis
      using none by (simp add: qualified_estimates_def c1)
  next
    case False
    show ?thesis
    proof (cases "systems_usage i m (node_stats.ns_SystemContainers st) 0 (ql_DisjointSystems q)")
      case (Inl vs)
      with False none show ?thesis
        by (simp add: qualified_estimates_def c1)
    next
      case (Inr systems)
      obtain us where us: "map (\<lambda>c. system_usage i m (findSystem (node_stats.ns_SystemContainers st) c)) (ql_DisjointSystems q) = map Some us"
          "uint systems = sum_list (map uint us)"
        using systems_usage_sum [OF Inr] by auto
      show ?thesis
      proof (cases "snd (add_checked charge systems)")
        case ok: True
        obtain rest a3 where c3: "calculated (al_Unaccounted ?a2) i m q usage (charge + systems) ?a2 = (rest, a3)"
          by fastforce
        have r: "?r = a3\<lparr>al_Unaccounted := rest\<rparr>"
          using False Inr ok c3 by (simp add: qualified_estimates_def c1)
        have "uint v = max 0 (uint usage - uint charge - sum_list (map uint us))" if "et_Bytes rest = Some v" for v
          using that calculated_frames(4) [OF c3] floored_difference [of "charge + systems" usage] us(2) add_checked_exact [OF ok] by auto
        with calculated_frames [OF c3] a2 False us(1) show ?thesis
          unfolding r by (intro out) (auto simp: same_pods_def)
      qed (use False Inr none in \<open>simp add: qualified_estimates_def c1\<close>)
    qed
  qed
  then show "estimates_ok i ?r" "same_pods a ?r"
    by simp_all
qed

lemma estimates_kept:
  assumes "et_Bytes (al_OutsidePods a) = None" and "et_Bytes (al_Unaccounted a) = None"
  shows "estimates_ok i (estimates i a)" and "same_pods a (estimates i a)"
proof -
  have "estimates_ok i (estimates i a) \<and> same_pods a (estimates i a)"
  proof (cases "estimate_reasons i a")
    case Nil
    then obtain st m q usage charge where basis: "estimate_basis i a st m q usage charge"
      by (rule no_reasons)
    then have "estimates i a = qualified_estimates i st m q usage charge a"
      using Nil by (auto simp: estimates_def estimate_basis_def)
    with qualified_estimates_ok [OF basis assms(2)] show ?thesis
      by simp
  next
    case (Cons r rs)
    with assms show ?thesis
      by (simp add: estimates_def estimates_ok_def same_pods_def analysis_frames)
  qed
  then show "estimates_ok i (estimates i a)" "same_pods a (estimates i a)"
    by simp_all
qed

lemma aggregate_estimates:
  "no_pods a \<Longrightarrow> et_Bytes (al_OutsidePods (aggregateContributors i a)) = None \<and> et_Bytes (al_Unaccounted (aggregateContributors i a)) = None"
proof -
  assume none: "no_pods a"
  have tally: "al_OutsidePods (tallied i t) = al_OutsidePods (ta_analysis t)" "al_Unaccounted (tallied i t) = al_Unaccounted (ta_analysis t)" for t
    by (simp_all add: tallied_def Let_def analysis_frames)
  obtain c1 a1 where f: "frame_noted i \<lparr>cv_State = cg_Coverage (ai_Cgroup i), cv_CapturedAt = cg_CapturedAt (ai_Cgroup i),
      cv_MappedContainers = 0, cv_UnmappedContainers = 0, cv_Pods = 0\<rparr> a = (c1, a1)"
    by fastforce
  have "no_pods (ta_analysis (fold (tally_container i) (cg_Containers (ai_Cgroup i))
      \<lparr>ta_coverage = c1, ta_analysis = a1, ta_pods = [], ta_workloads = [], ta_seen = [], ta_overflow = False, ta_total = 0\<rparr>))"
    using no_pods_noted [OF none f] by (simp add: tally_analysis)
  then show ?thesis
    using none by (simp add: aggregateContributors_def Let_def f tally no_pods_def analysis_frames)
qed

text \<open>What the whole analysis says of the Pods.\<close>

lemma pod_result_ok:
  assumes "input_error i1 = None" and "no_pods a"
  shows "charge_ok i1 (pod_result i1 a) \<and> estimates_ok i1 (pod_result i1 a)"
proof (cases "ai_Access i1 = ''cluster-pods''")
  case True
  let ?a = "a\<lparr>al_ContributorAccess := ''cluster-pods''\<rparr>"
  have none: "no_pods ?a"
    using assms(2) by simp
  have "charge_ok i1 (estimates i1 (aggregateContributors i1 ?a))"
    using aggregate_charge [OF assms(1) none] estimates_kept(2) [of "aggregateContributors i1 ?a" i1] aggregate_estimates [OF none, of i1]
    by (simp add: charge_ok_def same_pods_def)
  with True aggregate_estimates [OF none, of i1] show ?thesis
    by (simp add: pod_result_def estimates_kept(1))
next
  case False
  with assms(2) show ?thesis
    by (simp add: pod_result_def charge_ok_def estimates_ok_def no_pods_def analysis_frames)
qed

lemma result_frames:
  "charge_ok i (a\<lparr>al_Caveats := vs\<rparr>) = charge_ok i a" "charge_ok i (addCaveat v a) = charge_ok i a"
  "estimates_ok i (a\<lparr>al_Caveats := vs\<rparr>) = estimates_ok i a" "estimates_ok i (addCaveat v a) = estimates_ok i a"
  by (simp_all add: charge_ok_def estimates_ok_def estimate_basis_def analysis_frames)

lemma without_report: "input_error i = None \<Longrightarrow> input_error (i\<lparr>ai_Current := None\<rparr>) = None"
  by (auto simp: input_error_def validateInput_def split: if_splits option.splits)

lemma analysed_ok:
  assumes "input_error i = None"
  obtains j where "j = i \<or> j = i\<lparr>ai_Current := None\<rparr>" and "charge_ok j (analysed i)" and "estimates_ok j (analysed i)"
    and "ai_Access i \<noteq> ''cluster-pods'' \<Longrightarrow> no_pods (analysed i)"
proof -
  let ?mismatch = "case ai_Current i of None \<Rightarrow> False | Some c \<Rightarrow> ob_NodeUID c \<noteq> ai_NodeUID i \<or> ob_NodeName c \<noteq> ai_NodeName i"
  let ?j = "if ?mismatch then i\<lparr>ai_Current := None\<rparr> else i"
  let ?a1 = "if ?mismatch then addCaveat IdentityMismatch (first_result i) else first_result i"
  let ?a2 = "case ai_Current ?j of None \<Rightarrow> addCaveat SourceMissing ?a1 | Some c \<Rightarrow> node_result ?j c ?a1"
  have none: "no_pods ?a2"
    by (simp add: no_pods_first no_pods_node split: option.split)
  have checked: "input_error ?j = None"
    using assms without_report by simp
  have eq: "analysed i = (let a3 = pod_result ?j ?a2; a4 = (if al_Severity a3 = SevUnknown then addCaveat NoPressureEvidence a3 else a3)
      in a4\<lparr>al_Caveats := sort_key caveat_text (al_Caveats a4)\<rparr>)"
    by (simp only: analysed_def Let_def)
  have "charge_ok ?j (analysed i)" "estimates_ok ?j (analysed i)"
    using pod_result_ok [OF checked none] by (simp_all add: eq Let_def result_frames)
  moreover have "no_pods (analysed i)" if "ai_Access i \<noteq> ''cluster-pods''"
  proof -
    have "no_pods (pod_result ?j ?a2)"
      using none that by (simp add: pod_result_def no_pods_def analysis_frames)
    then show ?thesis
      by (simp add: eq Let_def no_pods_def analysis_frames)
  qed
  ultimately show ?thesis
    by (intro that [of ?j]) auto
qed

lemma Analyse_Inr:
  assumes "Analyse i = Inr a"
  shows "a = analysed (prepared i)" and "input_error (prepared i) = None" and "ai_Limit (prepared i) \<le> 100"
  using assms by (auto simp: Analyse_def input_error_def MaxContributors_def split: if_splits option.splits)

lemma prepared_with_access:
  "ai_Access i = ''cluster-pods'' \<Longrightarrow> ai_Cgroup (prepared i) = ai_Cgroup i"
  "ai_Access (prepared i) = ai_Access i"
  by (simp_all add: prepared_def)

lemma basis_prepared:
  assumes "ai_Access i = ''cluster-pods''"
  shows "estimate_basis (prepared i) a = estimate_basis i a" and "system_usage (prepared i) = system_usage i"
  using assms by (auto simp: estimate_basis_def system_usage_def prepared_def fun_eq_iff split: option.splits)

subsection \<open>The properties\<close>

text \<open>
  C6. The charge the analysis reports is the exact sum over the distinct containers of all names, never one that
  wrapped, and is reported only with access to the Pods; Pods and workloads of a complete ranking each add up to the
  same charge in every field, and a cut ranking to no more.
\<close>

theorem node_charge_exact:
  assumes "Analyse i = Inr a" and "al_ObservedPodCharge a = Some charge"
  shows "ai_Access i = ''cluster-pods'' \<and> uint charge = mapped_charge ch_Total (cg_Containers (ai_Cgroup i)) \<and>
    (\<forall>r. al_Rankings a = Some r \<longrightarrow> ranks_charge (cg_Containers (ai_Cgroup i)) r \<and>
      length (rk_Pods r) \<le> 100 \<and> length (rk_Workloads r) \<le> 100)"
proof -
  note a = Analyse_Inr [OF assms(1)]
  obtain j where j: "j = prepared i \<or> j = (prepared i)\<lparr>ai_Current := None\<rparr>" "charge_ok j a"
    and none: "ai_Access (prepared i) \<noteq> ''cluster-pods'' \<Longrightarrow> no_pods a"
    using analysed_ok [OF a(2)] a(1) by metis
  have access: "ai_Access i = ''cluster-pods''"
    using none assms(2) by (cases "ai_Access i = ''cluster-pods''") (simp_all add: prepared_with_access no_pods_def)
  have "ai_Cgroup j = ai_Cgroup i" "ai_Limit j \<le> 100"
    using j(1) a(3) access by (auto simp: prepared_with_access)
  with j(2) assms(2) access show ?thesis
    by (fastforce simp: charge_ok_def)
qed

text \<open>
  C28. An estimate is made only with access to the Pods and over a fresh and available report of this Node that is aligned
  with complete cgroup evidence and qualified for this boot; it is then the exact usage less the exact charge, for the
  unaccounted rest also less the usage of every disjoint system, floored at zero.
\<close>

theorem node_estimates_exact:
  assumes "Analyse i = Inr a"
  shows "estimates_ok i a \<and> (et_Bytes (al_OutsidePods a) \<noteq> None \<longrightarrow> ai_Access i = ''cluster-pods'')"
proof (cases "ai_Access i = ''cluster-pods''")
  case True
  note a = Analyse_Inr [OF assms]
  obtain j where j: "j = prepared i \<or> j = (prepared i)\<lparr>ai_Current := None\<rparr>" "estimates_ok j a"
    using analysed_ok [OF a(2)] a(1) by metis
  from j(1) have "estimates_ok (prepared i) a"
  proof
    assume "j = (prepared i)\<lparr>ai_Current := None\<rparr>"
    with j(2) show ?thesis
      by (auto simp: estimates_ok_def estimate_basis_def)
  qed (use j(2) in simp)
  then show ?thesis
    using True by (simp add: estimates_ok_def basis_prepared [OF True])
next
  case False
  note a = Analyse_Inr [OF assms]
  have "no_pods a"
    using analysed_ok [OF a(2)] a(1) False prepared_with_access(2) by metis
  then show ?thesis
    by (simp add: no_pods_def estimates_ok_def)
qed

text \<open>Without access to the Pods the cgroup evidence does not reach the result at all.\<close>

lemma denied_access_hides_pods: "ai_Access i \<noteq> ''cluster-pods'' \<Longrightarrow> Analyse (i\<lparr>ai_Cgroup := frame\<rparr>) = Analyse i"
proof -
  assume "ai_Access i \<noteq> ''cluster-pods''"
  then have "prepared (i\<lparr>ai_Cgroup := frame\<rparr>) = prepared i"
    by (simp add: prepared_def)
  then show ?thesis
    by (simp add: Analyse_def split: option.split)
qed

subsection \<open>A concrete Node\<close>

definition some_memory :: "u64 \<Rightarrow> node_memory" where
  "some_memory usage = \<lparr>nm_CapturedAt = 1000 * second, nm_AvailableBytes = None, nm_UsageBytes = Some usage,
     nm_WorkingSetBytes = None, nm_RSSBytes = None, nm_PageFaults = None, nm_MajorPageFaults = None, nm_PSI = None\<rparr>"

definition some_report :: observation where
  "some_report = \<lparr>ob_NodeName = ''n'', ob_NodeUID = ''u'', ob_ReportedAt = 1000 * second, ob_Availability = cap_Available,
     ob_Reason = '''', ob_Evidence = \<lparr>en_Source = '''', en_APIVersion = '''', en_CapturedAt = 1000 * second,
       en_ReceivedAt = 1000 * second, en_Window = 0, en_Scope = '''', en_Freshness = '''', en_Completeness = cap_Complete,
       en_Stability = '''', en_Caveats = []\<rparr>,
     ob_Stats = Some \<lparr>node_stats.ns_StartedAt = 5, ns_Provenance = '''', ns_Memory = Some (some_memory 1000), ns_Swap = None,
       ns_SystemContainers = [\<lparr>sy_Category = cat_Kubelet, sy_StartedAt = 5, sy_Memory = Some (some_memory 100), sy_Swap = None\<rparr>]\<rparr>,
     ob_Context = None\<rparr>"

definition some_container :: "string \<Rightarrow> string \<Rightarrow> u64 \<Rightarrow> charged_container" where
  "some_container key pod bytes = \<lparr>nc_ID = key, nc_Namespace = ''ns'', nc_PodName = pod, nc_PodUID = pod, nc_ContainerName = ''c'',
     nc_WorkloadKind = ''Deployment'', nc_WorkloadName = ''w'',
     nc_Charge = \<lparr>ch_Total = bytes, ch_Anon = bytes, ch_Cache = 0, ch_Shmem = 0, ch_Residual = 0\<rparr>, nc_PSIFullAvg10 = None,
     nc_OOMKills = None, nc_OOMWindowStartedAt = 0, nc_CompositionConsistent = True\<rparr>"

definition some_input :: analysis_input where
  "some_input = \<lparr>ai_Now = 1001 * second, ai_NodeUID = ''u'', ai_NodeName = ''n'', ai_Current = Some some_report, ai_Previous = None,
     ai_SourceAvailability = cap_Available, ai_Access = ''cluster-pods'',
     ai_Cgroup = \<lparr>cg_NodeUID = ''u'', cg_CapturedAt = 1000 * second, cg_Coverage = ''complete'',
       cg_Containers = [some_container ''a'' ''p'' 100, some_container ''b'' ''q'' 200]\<rparr>,
     ai_Qualification = Some \<lparr>ql_NodeUID = ''u'', ql_NodeStartedAt = 5, ql_ValidFrom = 10, ql_ExpiresAt = 2000 * second,
       ql_EvidenceSHA256 = replicate 64 (CHR ''a''), ql_UsageDefinition = ChargeInclusive, ql_DisjointSystems = [cat_Kubelet]\<rparr>,
     ai_Rank = ''anon'', ai_Limit = 0\<rparr>"

lemma some_analysis:
  "(case Analyse some_input of Inl e \<Rightarrow> False | Inr a \<Rightarrow> al_ObservedPodCharge a = Some 300 \<and> et_Bytes (al_OutsidePods a) = Some 700 \<and>
    et_Bytes (al_Unaccounted a) = Some 600 \<and> map_option (\<lambda>r. map cb_Name (rk_Pods r) @ map cb_Name (rk_Workloads r)) (al_Rankings a) =
      Some [''q'', ''p'', ''w''])"
  by code_simp

theorem node_charge_exact_witness:
  "\<exists>a. Analyse some_input = Inr a \<and> al_ObservedPodCharge a = Some 300 \<and>
    mapped_charge ch_Total (cg_Containers (ai_Cgroup some_input)) = 300"
proof -
  obtain a where a: "Analyse some_input = Inr a" "al_ObservedPodCharge a = Some 300"
    using some_analysis by (auto split: sum.splits)
  from node_charge_exact [OF this] a show ?thesis
    by auto
qed

theorem node_estimates_exact_witness:
  "\<exists>a st m q usage charge (us :: u64 list). Analyse some_input = Inr a \<and> et_Bytes (al_Unaccounted a) = Some 600 \<and>
    estimate_basis some_input a st m q usage charge \<and> 600 = max 0 (uint usage - uint charge - sum_list (map uint us))"
proof -
  obtain a where a: "Analyse some_input = Inr a" "et_Bytes (al_Unaccounted a) = Some 600"
    using some_analysis by (auto split: sum.splits)
  have "\<forall>v. et_Bytes (al_Unaccounted a) = Some v \<longrightarrow>
      (\<exists>st m q usage charge us. estimate_basis some_input a st m q usage charge \<and> ql_DisjointSystems q \<noteq> [] \<and>
        map (\<lambda>c. system_usage some_input m (findSystem (node_stats.ns_SystemContainers st) c)) (ql_DisjointSystems q) = map Some us \<and>
        uint v = max 0 (uint usage - uint charge - sum_list (map uint us)))"
    using node_estimates_exact [OF a(1)] unfolding estimates_ok_def by (elim conjE)
  from this [rule_format, OF a(2)] obtain st m q usage charge and us :: "u64 list" where
    "estimate_basis some_input a st m q usage charge" "uint (600 :: u64) = max 0 (uint usage - uint charge - sum_list (map uint us))"
    by (elim exE conjE) (rule that, assumption+)
  with a show ?thesis
    by (intro exI conjI) (assumption+, simp)
qed

end
