(* ===== verification/Replica_Baseline.thy ===== *)
theory Replica_Baseline
  imports Change_Markers Go_Float_Arith
begin

text \<open>
  Package \<open>internal/replicabaseline\<close>: the comparison of the Pods of one workload with each other. The data (\<open>types.go\<close>),
  the policies (\<open>policy.go\<close>), the statistics (\<open>statistics.go\<close>), the analysis (\<open>analyse.go\<close>), the validation of its input
  (\<open>validate.go\<close>) and the validation of a received report, which recomputes every claim (\<open>report.go\<close>). \<open>json.Marshal\<close> of a
  report is a parameter, of which the number of bytes is used.

  The lemmas: the analysis does not depend on the order of the peers, every comparison accounts for every other peer once,
  and what the analysis returns passes the validation of the receiver.
\<close>

subsection \<open>Data\<close>

definition MaxPeers :: nat where
  "MaxPeers = 16"

definition MaxHistoryPoints_replica :: nat where
  "MaxHistoryPoints_replica = 181"

definition MinReferences :: nat where
  "MinReferences = 4"

definition MinHistoryPoints :: nat where
  "MinHistoryPoints = 12"

definition MaxBaselineBytes :: nat where
  "MaxBaselineBytes = 256 * 1024"

definition FreshFor :: duration where
  "FreshFor = 30 * second"

definition MaximumSampleSkew :: duration where
  "MaximumSampleSkew = 5 * second"

definition StabilityWindow :: duration where
  "StabilityWindow = 5 * minute"

definition HistoryLookback :: duration where
  "HistoryLookback = 6 * minute"

definition MaximumHistoryGap :: duration where
  "MaximumHistoryGap = 30 * second"

datatype baseline_error = BaseInvalid | BaseScope | BaseBounds

record metric_value =
  mv_State :: string
  mv_Number :: f64

record charge_point =
  cq_At :: time
  cq_Bytes :: u64

record replica_peer =
  pe_Object :: kube_object
  pe_WorkloadUID :: string
  pe_Revision :: string
  pe_Shape :: string
  pe_Lifecycle :: string
  pe_SampleState :: string
  pe_HistoryState :: string
  pe_CapturedAt :: time
  pe_StableSince :: time
  pe_DeltaStartedAt :: time
  pe_Changes :: string
  pe_Values :: "(string, metric_value) gomap"
  pe_History :: "charge_point list"

record replica_input =
  ri_Workload :: kube_object
  ri_ObservedAt :: time
  ri_Peers :: "replica_peer list"

record peer_exclusion =
  px_Peer :: kube_object
  px_Reason :: string

record metric_spread =
  ms_Minimum :: f64
  ms_Median :: f64
  ms_Maximum :: f64
  ms_MAD :: f64

record metric_omission =
  mo_PeerUID :: string
  mo_Reason :: string

record comparison =
  cp_Metric :: string
  cp_Unit :: string
  cp_State :: string
  cp_Candidate :: "f64 option"
  cp_References :: "string list"
  cp_Omitted :: "metric_omission list"
  cp_Distribution :: "metric_spread option"
  cp_Difference :: "f64 option"
  cp_ModifiedScore :: "f64 option"
  cp_Method :: string
  cp_Outlier :: string
  cp_Confidence :: string

record history_window =
  hw_StartedAt :: time
  hw_EndedAt :: time
  hw_Samples :: nat

record peer_report =
  pr_Peer :: kube_object
  pr_CapturedAt :: time
  pr_StableSince :: time
  pr_DeltaStartedAt :: time
  pr_History :: "history_window option"
  pr_Revision :: string
  pr_Shape :: string
  pr_Exclusion :: string
  pr_Excluded :: "peer_exclusion list"
  pr_Comparisons :: "comparison list"

record baseline_report =
  br_SchemaVersion :: int
  br_PolicyVersion :: int
  br_Workload :: kube_object
  br_ObservedAt :: time
  br_Peers :: "peer_report list"
  br_Caveats :: "string list"

text \<open>The DNS name checks, and the number of bytes of \<open>json.Marshal\<close>; \<open>None\<close> is its error.\<close>

record baseline_lib =
  bl_names :: kube_names
  bl_report_bytes :: "baseline_report \<Rightarrow> nat option"

subsection \<open>Policies\<close>

record metric_policy =
  mp_metric :: string
  mp_unit :: string
  mp_floor :: f64
  mp_both :: bool

definition ChargeSlope :: string where
  "ChargeSlope = ''charge-slope''"

definition policies :: "metric_policy list" where
  "policies =
    [\<lparr>mp_metric = ''cgroup-charge'', mp_unit = ''bytes'', mp_floor = Fin 16777216, mp_both = True\<rparr>,
     \<lparr>mp_metric = ''anon-fraction'', mp_unit = ''fraction'', mp_floor = rnd64 (1 / 10), mp_both = True\<rparr>,
     \<lparr>mp_metric = ''file-cache-fraction'', mp_unit = ''fraction'', mp_floor = rnd64 (1 / 10), mp_both = True\<rparr>,
     \<lparr>mp_metric = ''shmem-fraction'', mp_unit = ''fraction'', mp_floor = rnd64 (1 / 10), mp_both = True\<rparr>,
     \<lparr>mp_metric = ''kernel-fraction'', mp_unit = ''fraction'', mp_floor = rnd64 (1 / 10), mp_both = True\<rparr>,
     \<lparr>mp_metric = ''swap-bytes'', mp_unit = ''bytes'', mp_floor = Fin 16777216, mp_both = False\<rparr>,
     \<lparr>mp_metric = ChargeSlope, mp_unit = ''bytes-per-second'', mp_floor = rnd64 (1048576 / 60), mp_both = True\<rparr>,
     \<lparr>mp_metric = ''limit-usage'', mp_unit = ''fraction'', mp_floor = rnd64 (1 / 10), mp_both = False\<rparr>,
     \<lparr>mp_metric = ''maximum-container-psi-some'', mp_unit = ''percent'', mp_floor = Fin 1, mp_both = False\<rparr>,
     \<lparr>mp_metric = ''maximum-container-psi-full'', mp_unit = ''percent'', mp_floor = rnd64 (1 / 10), mp_both = False\<rparr>,
     \<lparr>mp_metric = ''oom-events-per-second'', mp_unit = ''events-per-second'', mp_floor = rnd64 (1 / 60), mp_both = False\<rparr>,
     \<lparr>mp_metric = ''oom-kill-events-per-second'', mp_unit = ''events-per-second'', mp_floor = rnd64 (1 / 60), mp_both = False\<rparr>,
     \<lparr>mp_metric = ''high-events-per-second'', mp_unit = ''events-per-second'', mp_floor = rnd64 (1 / 60), mp_both = False\<rparr>,
     \<lparr>mp_metric = ''max-events-per-second'', mp_unit = ''events-per-second'', mp_floor = rnd64 (1 / 60), mp_both = False\<rparr>]"

definition policyFor :: "string \<Rightarrow> metric_policy option" where
  "policyFor metric = find (\<lambda>p. mp_metric p = metric) policies"

subsection \<open>Validation of the input\<close>

definition data_states :: "string list" where
  "data_states = [''available'', ''unreported'', ''partial'', ''stale'', ''unavailable'']"

definition validState :: "string \<Rightarrow> bool" where
  "validState s \<longleftrightarrow> s \<in> set data_states"

text \<open>\<open>strings.IndexFunc\<close> over runes finds one below 33 or above 126 unless every byte is in between.\<close>

definition revision_ok :: "string \<Rightarrow> bool" where
  "revision_ok s \<longleftrightarrow> length s \<le> 256 \<and> list_all (\<lambda>c. 33 \<le> (of_char c :: nat) \<and> (of_char c :: nat) \<le> 126) s"

definition shape_ok :: "string \<Rightarrow> bool" where
  "shape_ok s \<longleftrightarrow> s = '''' \<or> hex_decodes s 32 \<and> lower_case s"

definition delta_span_ok :: "time \<Rightarrow> time \<Rightarrow> bool" where
  "delta_span_ok captured start \<longleftrightarrow> \<not> is_zero_time start \<and> \<not> time_sub captured start \<le> 0 \<and> \<not> time_sub captured start > FreshFor"

definition number_in_unit :: "string \<Rightarrow> metric_policy \<Rightarrow> f64 \<Rightarrow> bool" where
  "number_in_unit metric p n \<longleftrightarrow>
    \<not> (mp_unit p = ''bytes'' \<and> \<not> f64_eq (f64_trunc n) n) \<and> \<not> (mp_unit p = ''percent'' \<and> f64_lt (Fin 100) n) \<and>
    \<not> (mp_unit p = ''fraction'' \<and> metric \<noteq> ''limit-usage'' \<and> f64_lt (Fin 1) n)"

definition value_ok :: "replica_peer \<Rightarrow> string \<Rightarrow> metric_value \<Rightarrow> bool" where
  "value_ok peer metric v \<longleftrightarrow>
    (case policyFor metric of None \<Rightarrow> False | Some p \<Rightarrow>
      metric \<noteq> ChargeSlope \<and> validState (mv_State v) \<and> is_finite (mv_Number v) \<and> \<not> f64_lt (mv_Number v) f64_zero \<and>
      \<not> (mv_State v \<noteq> ''available'' \<and> \<not> f64_eq (mv_Number v) f64_zero) \<and> number_in_unit metric p (mv_Number v) \<and>
      (mv_State v = ''available'' \<and> mp_unit p = ''events-per-second'' \<longrightarrow> delta_span_ok (pe_CapturedAt peer) (pe_DeltaStartedAt peer)))"

text \<open>The value of a missing metric is the zero value.\<close>

definition no_value :: metric_value where
  "no_value = \<lparr>mv_State = '''', mv_Number = Fin 0\<rparr>"

definition point_consistent :: "replica_peer \<Rightarrow> charge_point \<Rightarrow> bool" where
  "point_consistent peer p \<longleftrightarrow>
    (let current = mget0 no_value (pe_Values peer) ''cgroup-charge''
     in \<not> (pe_HistoryState peer = ''available'' \<and> mv_State current = ''available'' \<and> cq_At p = pe_CapturedAt peer \<and>
       \<not> f64_eq (f64_of_u64 (cq_Bytes p)) (mv_Number current)))"

fun points_ok :: "replica_peer \<Rightarrow> time list \<Rightarrow> charge_point list \<Rightarrow> bool" where
  "points_ok peer seen [] = True"
| "points_ok peer seen (p # ps) =
    (\<not> is_zero_time (cq_At p) \<and> \<not> cq_At p > pe_CapturedAt peer \<and> cq_At p \<notin> set seen \<and> point_consistent peer p \<and>
     points_ok peer (cq_At p # seen) ps)"

definition peer_states_ok :: "replica_peer \<Rightarrow> bool" where
  "peer_states_ok peer \<longleftrightarrow> validState (pe_SampleState peer) \<and> validState (pe_HistoryState peer) \<and> revision_ok (pe_Revision peer) \<and>
     shape_ok (pe_Shape peer) \<and> pe_Lifecycle peer \<in> {''ready'', ''unready'', ''terminating'', ''inactive''} \<and>
     pe_Changes peer \<in> {''current-stable'', ''recent-change'', ''unreported''}"

definition validatePeer :: "replica_peer \<Rightarrow> baseline_error option" where
  "validatePeer peer =
    (if \<not> peer_states_ok peer then Some BaseInvalid
     else if length (pe_History peer) > MaxHistoryPoints_replica \<or> mlen (pe_Values peer) \<ge> length policies then Some BaseBounds
     else if \<not> list_all (\<lambda>(metric, v). value_ok peer metric v) (pe_Values peer) then Some BaseInvalid
     else if \<not> points_ok peer [] (pe_History peer) then Some BaseInvalid
     else None)"

fun peers_error :: "kube_names \<Rightarrow> kube_object \<Rightarrow> string list \<Rightarrow> string list \<Rightarrow> replica_peer list \<Rightarrow> baseline_error option" where
  "peers_error N w names ids [] = None"
| "peers_error N w names ids (p # ps) =
    (let obj = pe_Object p
     in if \<not> object_ok N obj \<or> ko_Kind obj \<noteq> ''Pod'' then Some BaseInvalid
        else if ko_Namespace obj \<noteq> ko_Namespace w \<or> pe_WorkloadUID p \<noteq> ko_UID w then Some BaseScope
        else if ko_Name obj \<in> set names \<or> ko_UID obj \<in> set ids then Some BaseInvalid
        else case validatePeer p of Some e \<Rightarrow> Some e | None \<Rightarrow> peers_error N w (ko_Name obj # names) (ko_UID obj # ids) ps)"

definition validate_replicas :: "kube_names \<Rightarrow> replica_input \<Rightarrow> baseline_error option" where
  "validate_replicas N i =
    (if \<not> object_ok N (ri_Workload i) \<or> ko_Kind (ri_Workload i) = ''Pod'' \<or> is_zero_time (ri_ObservedAt i) then Some BaseInvalid
     else if length (ri_Peers i) > MaxPeers then Some BaseBounds
     else peers_error N (ri_Workload i) [] [] (ri_Peers i))"

subsection \<open>Statistics\<close>

definition median :: "f64 list \<Rightarrow> f64" where
  "median vs =
    (let ordered = sort_slice f64_less vs; middle = length ordered div 2
     in if length ordered mod 2 \<noteq> 0 then ordered ! middle
        else f64_plus (f64_div (ordered ! (middle - 1)) (Fin 2)) (f64_div (ordered ! middle) (Fin 2)))"

definition least :: "f64 list \<Rightarrow> f64" where
  "least vs = fold (\<lambda>v m. f64_min m v) (tl vs) (hd vs)"

definition largest :: "f64 list \<Rightarrow> f64" where
  "largest vs = fold (\<lambda>v m. f64_max m v) (tl vs) (hd vs)"

definition uncompared :: "metric_policy \<Rightarrow> f64 \<Rightarrow> string list \<Rightarrow> comparison" where
  "uncompared p candidate references = \<lparr>cp_Metric = mp_metric p, cp_Unit = mp_unit p, cp_State = ''insufficient-peers'',
     cp_Candidate = Some candidate, cp_References = references, cp_Omitted = [], cp_Distribution = None, cp_Difference = None,
     cp_ModifiedScore = None, cp_Method = '''', cp_Outlier = ''none'', cp_Confidence = ''insufficient''\<rparr>"

definition outlier_label :: "metric_policy \<Rightarrow> bool \<Rightarrow> f64 \<Rightarrow> f64 \<Rightarrow> string" where
  "outlier_label p passed difference mid =
    (if passed \<and> f64_lt (mp_floor p) (f64_abs difference) \<and> f64_lt (f64_times (f64_abs mid) (Fin (1 / 4))) (f64_abs difference)
     then (if f64_lt f64_zero difference then ''higher'' else if mp_both p then ''lower'' else ''none'') else ''none'')"

definition compare :: "metric_policy \<Rightarrow> f64 \<Rightarrow> f64 list \<Rightarrow> string list \<Rightarrow> comparison" where
  "compare p candidate vs references =
    (if length vs < MinReferences then uncompared p candidate references
     else
       (let mid = median vs; mad = median (map (\<lambda>v. f64_abs (f64_minus v mid)) vs); difference = f64_minus candidate mid;
            scored = \<not> f64_eq mad f64_zero; score = f64_div (f64_times (rnd64 (6745 / 10000)) difference) mad
        in (uncompared p candidate references)\<lparr>cp_State := ''compared'', cp_Confidence := ''current-peers'',
             cp_Distribution := Some \<lparr>ms_Minimum = least vs, ms_Median = mid, ms_Maximum = largest vs, ms_MAD = mad\<rparr>,
             cp_Difference := Some difference, cp_Method := (if scored then ''median-mad'' else ''flat-reference''),
             cp_ModifiedScore := (if scored then Some score else None),
             cp_Outlier := outlier_label p (\<not> scored \<or> f64_lt (Fin (7 / 2)) (f64_abs score)) difference mid\<rparr>))"

definition recentHistory :: "replica_peer \<Rightarrow> charge_point list" where
  "recentHistory peer =
    filter (\<lambda>p. \<not> (cq_At p < pe_StableSince peer \<or> cq_At p < pe_CapturedAt peer - HistoryLookback))
      (sort_slice (\<lambda>a b. cq_At a < cq_At b) (pe_History peer))"

fun history_gap :: "charge_point list \<Rightarrow> bool" where
  "history_gap (p # q # ps) = (time_sub (cq_At q) (cq_At p) > MaximumHistoryGap \<or> history_gap (q # ps))"
| "history_gap _ = False"

fun pair_slopes :: "charge_point list \<Rightarrow> f64 list" where
  "pair_slopes [] = []"
| "pair_slopes (p # ps) =
    map (\<lambda>q. f64_div (f64_minus (f64_of_u64 (cq_Bytes q)) (f64_of_u64 (cq_Bytes p))) (duration_seconds (time_sub (cq_At q) (cq_At p)))) ps @
    pair_slopes ps"

definition slope_window_short :: "replica_peer \<Rightarrow> charge_point list \<Rightarrow> bool" where
  "slope_window_short peer points \<longleftrightarrow>
    length points < MinHistoryPoints \<or> time_sub (cq_At (last points)) (cq_At (hd points)) < StabilityWindow \<or>
    cq_At (hd points) > pe_CapturedAt peer + (- HistoryLookback + MaximumHistoryGap) \<or>
    time_sub (pe_CapturedAt peer) (cq_At (last points)) > MaximumSampleSkew"

definition slope :: "replica_peer \<Rightarrow> charge_point list \<Rightarrow> metric_value" where
  "slope peer points =
    (if pe_HistoryState peer \<noteq> ''available'' then \<lparr>mv_State = pe_HistoryState peer, mv_Number = Fin 0\<rparr>
     else if slope_window_short peer points then \<lparr>mv_State = ''unreported'', mv_Number = Fin 0\<rparr>
     else if history_gap points then \<lparr>mv_State = ''partial'', mv_Number = Fin 0\<rparr>
     else \<lparr>mv_State = ''available'', mv_Number = median (pair_slopes points)\<rparr>)"

subsection \<open>Exclusions\<close>

definition exclusion :: "time \<Rightarrow> replica_peer \<Rightarrow> string" where
  "exclusion now peer =
    (if pe_Lifecycle peer \<noteq> ''ready'' then pe_Lifecycle peer
     else if pe_SampleState peer \<noteq> ''available'' then ''source-'' @ pe_SampleState peer
     else if is_zero_time (pe_CapturedAt peer) \<or> pe_CapturedAt peer > now + MaximumSampleSkew then ''source-clock-uncertain''
     else if time_sub now (pe_CapturedAt peer) > FreshFor then ''source-stale''
     else if pe_Revision peer = '''' then ''revision-unreported''
     else if pe_Shape peer = '''' then ''container-shape-unreported''
     else if pe_Changes peer = ''recent-change'' \<or> is_zero_time (pe_StableSince peer) \<or>
        time_sub now (pe_StableSince peer) < StabilityWindow then ''recent-or-unreported-stability''
     else '''')"

definition adverseReference :: "replica_peer \<Rightarrow> bool" where
  "adverseReference peer \<longleftrightarrow>
    (let reads = \<lambda>metric. mget0 no_value (pe_Values peer) metric
     in list_ex (\<lambda>metric. mv_State (reads metric) = ''available'' \<and> f64_lt f64_zero (mv_Number (reads metric)))
          [''oom-events-per-second'', ''oom-kill-events-per-second'', ''high-events-per-second'', ''max-events-per-second'',
           ''maximum-container-psi-full''] \<or>
        list_ex (\<lambda>(metric, threshold). mv_State (reads metric) = ''available'' \<and> f64_le threshold (mv_Number (reads metric)))
          [(''maximum-container-psi-some'', Fin 1), (''limit-usage'', rnd64 (9 / 10))])"

definition referenceExclusion :: "time \<Rightarrow> replica_peer \<Rightarrow> replica_peer \<Rightarrow> string" where
  "referenceExclusion now candidate reference =
    (if exclusion now reference \<noteq> '''' then exclusion now reference
     else if pe_Revision reference \<noteq> pe_Revision candidate then ''revision-mismatch''
     else if pe_Shape reference \<noteq> pe_Shape candidate then ''container-shape-mismatch''
     else if time_sub (pe_CapturedAt reference) (pe_CapturedAt candidate) < - MaximumSampleSkew \<or>
        time_sub (pe_CapturedAt reference) (pe_CapturedAt candidate) > MaximumSampleSkew then ''source-clock-skew''
     else if adverseReference reference then ''adverse-reference-evidence''
     else '''')"

text \<open>The windows of two peers, given by their start and end. The products are those of \<open>int64\<close>, which wrap.\<close>

definition times64 :: "duration \<Rightarrow> int \<Rightarrow> duration" where
  "times64 d n = signed_take_bit 63 (d * n)"

definition alignedDeltaWindows :: "time \<times> time \<Rightarrow> time \<times> time \<Rightarrow> bool" where
  "alignedDeltaWindows a b \<longleftrightarrow>
    (let (s1, e1) = a; (s2, e2) = b; first = time_sub e1 s1; other = time_sub e2 s2;
         small = min first other; large = max first other
     in \<not> (small \<le> 0 \<or> large - small > small div 10) \<and> times64 (time_sub (min e1 e2) (max s1 s2)) 5 \<ge> times64 small 4)"

subsection \<open>Analysis\<close>

record peer_measurements =
  pm_values :: "(string, metric_value) gomap"
  pm_history :: "history_window option"

definition measured :: "replica_peer \<Rightarrow> peer_measurements" where
  "measured peer =
    (let points = recentHistory peer
     in \<lparr>pm_values = mput ChargeSlope (slope peer points) (fold (\<lambda>(k, v). mput k v) (pe_Values peer) []),
         pm_history = (if points \<noteq> [] \<and> pe_HistoryState peer = ''available''
           then Some \<lparr>hw_StartedAt = cq_At (hd points), hw_EndedAt = cq_At (last points), hw_Samples = length points\<rparr> else None)\<rparr>)"

definition peers_measured :: "replica_peer list \<Rightarrow> (string, peer_measurements) gomap" where
  "peers_measured peers = fold (\<lambda>p. mput (ko_UID (pe_Object p)) (measured p)) peers []"

definition no_measurements :: peer_measurements where
  "no_measurements = \<lparr>pm_values = [], pm_history = None\<rparr>"

text \<open>A metric that is not in the map is unreported.\<close>

definition metric_of :: "(string, peer_measurements) gomap \<Rightarrow> replica_peer \<Rightarrow> string \<Rightarrow> metric_value" where
  "metric_of measurements peer metric =
    (case mget (pm_values (mget0 no_measurements measurements (ko_UID (pe_Object peer)))) metric of
       None \<Rightarrow> \<lparr>mv_State = ''unreported'', mv_Number = Fin 0\<rparr> | Some v \<Rightarrow> v)"

text \<open>Why a reference is left out of the comparison of one metric.\<close>

definition omission :: "metric_policy \<Rightarrow> replica_peer \<Rightarrow> replica_peer \<Rightarrow> metric_value \<Rightarrow> string" where
  "omission p candidate peer reference =
    (if mv_State reference \<noteq> ''available'' then ''metric-'' @ mv_State reference
     else if mp_unit p = ''events-per-second'' \<and>
        \<not> alignedDeltaWindows (pe_DeltaStartedAt candidate, pe_CapturedAt candidate) (pe_DeltaStartedAt peer, pe_CapturedAt peer)
     then ''delta-window-mismatch'' else '''')"

definition without_value :: "metric_policy \<Rightarrow> string \<Rightarrow> comparison" where
  "without_value p state = \<lparr>cp_Metric = mp_metric p, cp_Unit = mp_unit p, cp_State = state, cp_Candidate = None,
     cp_References = [], cp_Omitted = [], cp_Distribution = None, cp_Difference = None,
     cp_ModifiedScore = None, cp_Method = '''', cp_Outlier = ''none'', cp_Confidence = ''insufficient''\<rparr>"

definition with_references ::
  "(replica_peer \<Rightarrow> metric_value) \<Rightarrow> replica_peer \<Rightarrow> replica_peer list \<Rightarrow> metric_policy \<Rightarrow> f64 \<Rightarrow> comparison" where
  "with_references reads candidate references p number =
    (let used = filter (\<lambda>peer. omission p candidate peer (reads peer) = '''') references;
         left = filter (\<lambda>peer. omission p candidate peer (reads peer) \<noteq> '''') references;
         limited = (pe_Changes candidate = ''unreported'' \<or> list_ex (\<lambda>peer. pe_Changes peer = ''unreported'') used);
         c = (compare p number (map (\<lambda>peer. mv_Number (reads peer)) used) (map (\<lambda>peer. ko_UID (pe_Object peer)) used))\<lparr>cp_Omitted :=
           map (\<lambda>peer. \<lparr>mo_PeerUID = ko_UID (pe_Object peer), mo_Reason = omission p candidate peer (reads peer)\<rparr>) left\<rparr>
     in if limited \<and> cp_State c = ''compared'' then c\<lparr>cp_Confidence := ''limited-change-history''\<rparr> else c)"

definition compared_metric ::
  "(string, peer_measurements) gomap \<Rightarrow> replica_peer \<Rightarrow> replica_peer list \<Rightarrow> metric_policy \<Rightarrow> comparison" where
  "compared_metric measurements candidate references p =
    (let reads = \<lambda>peer. metric_of measurements peer (mp_metric p); value = reads candidate
     in if mv_State value \<noteq> ''available'' then without_value p (mv_State value)
        else with_references reads candidate references p (mv_Number value))"

definition first_peer_report :: "time \<Rightarrow> replica_peer \<Rightarrow> peer_report" where
  "first_peer_report now candidate = \<lparr>pr_Peer = pe_Object candidate, pr_CapturedAt = pe_CapturedAt candidate,
     pr_StableSince = pe_StableSince candidate, pr_DeltaStartedAt = 0, pr_History = None, pr_Revision = pe_Revision candidate,
     pr_Shape = pe_Shape candidate, pr_Exclusion = exclusion now candidate, pr_Excluded = [], pr_Comparisons = []\<rparr>"

definition analysePeer ::
  "time \<Rightarrow> replica_peer \<Rightarrow> replica_peer list \<Rightarrow> (string, peer_measurements) gomap \<Rightarrow> peer_report" where
  "analysePeer now candidate peers measurements =
    (let first = first_peer_report now candidate;
         others = filter (\<lambda>peer. ko_UID (pe_Object peer) \<noteq> ko_UID (pe_Object candidate)) peers;
         references = filter (\<lambda>peer. referenceExclusion now candidate peer = '''') others;
         rejected = filter (\<lambda>peer. referenceExclusion now candidate peer \<noteq> '''') others
     in if pr_Exclusion first \<noteq> '''' then first
        else first\<lparr>pr_History := pm_history (mget0 no_measurements measurements (ko_UID (pe_Object candidate))),
          pr_DeltaStartedAt := pe_DeltaStartedAt candidate,
          pr_Excluded := map (\<lambda>peer. \<lparr>px_Peer = pe_Object peer, px_Reason = referenceExclusion now candidate peer\<rparr>) rejected,
          pr_Comparisons := map (compared_metric measurements candidate references) policies\<rparr>)"

definition baseline_caveats :: "string list" where
  "baseline_caveats =
    [''Replica differences are informational; diagnosis severity and resource settings are unchanged.'',
     ''Comparable current evidence does not establish equal traffic, health or causation.'',
     ''Missing change history does not prove that no changes occurred.'',
     ''Confidence describes evidence coverage, not a statistical probability.'']"

definition report_of :: "replica_input \<Rightarrow> baseline_report" where
  "report_of i =
    (let peers = sort_slice (\<lambda>a b. ko_Name (pe_Object a) < ko_Name (pe_Object b)) (ri_Peers i); measurements = peers_measured peers
     in \<lparr>br_SchemaVersion = 1, br_PolicyVersion = 1, br_Workload = ri_Workload i, br_ObservedAt = ri_ObservedAt i,
         br_Peers = map (\<lambda>candidate. analysePeer (ri_ObservedAt i) candidate peers measurements) peers,
         br_Caveats = baseline_caveats\<rparr>)"

definition marshal_error :: "baseline_lib \<Rightarrow> baseline_report \<Rightarrow> baseline_error option" where
  "marshal_error L r =
    (case bl_report_bytes L r of None \<Rightarrow> Some BaseInvalid | Some n \<Rightarrow> if n > MaxBaselineBytes then Some BaseBounds else None)"

definition Analyse_replicas :: "baseline_lib \<Rightarrow> replica_input \<Rightarrow> baseline_error + baseline_report" where
  "Analyse_replicas L i =
    (case validate_replicas (bl_names L) i of Some e \<Rightarrow> Inl e
     | None \<Rightarrow> (case marshal_error L (report_of i) of Some e \<Rightarrow> Inl e | None \<Rightarrow> Inr (report_of i)))"

subsection \<open>Validation of a received report\<close>

definition exclusion_reasons :: "string list" where
  "exclusion_reasons =
    [''source-unreported'', ''source-partial'', ''source-stale'', ''source-unavailable'', ''source-clock-uncertain'',
     ''revision-unreported'', ''container-shape-unreported'', ''recent-or-unreported-stability'', ''revision-mismatch'',
     ''container-shape-mismatch'', ''source-clock-skew'', ''adverse-reference-evidence'', ''unready'', ''terminating'', ''inactive'']"

definition validExclusion :: "string \<Rightarrow> bool" where
  "validExclusion reason \<longleftrightarrow> reason \<in> set exclusion_reasons"

text \<open>\<open>policyFor\<close> of an unknown metric is the zero policy, whose unit is empty.\<close>

definition policy_or_zero :: "string \<Rightarrow> metric_policy" where
  "policy_or_zero metric =
    (case policyFor metric of Some p \<Rightarrow> p | None \<Rightarrow> \<lparr>mp_metric = '''', mp_unit = '''', mp_floor = Fin 0, mp_both = False\<rparr>)"

definition validMetricNumber :: "string \<Rightarrow> f64 \<Rightarrow> bool" where
  "validMetricNumber metric n \<longleftrightarrow>
    is_finite n \<and> \<not> (metric \<noteq> ChargeSlope \<and> f64_lt n f64_zero) \<and> number_in_unit metric (policy_or_zero metric) n"

definition caveat_ok :: "string \<Rightarrow> bool" where
  "caveat_ok s \<longleftrightarrow> length s \<le> 512 \<and> list_all (\<lambda>c. 32 \<le> (of_char c :: nat) \<and> (of_char c :: nat) \<le> 126) s"

text \<open>The first loop of \<open>Validate\<close>. \<open>base\<close> is the peer whose fixed parts are validated.\<close>

definition base_peer :: "peer_report \<Rightarrow> replica_peer" where
  "base_peer p = \<lparr>pe_Object = pr_Peer p, pe_WorkloadUID = '''', pe_Revision = pr_Revision p, pe_Shape = pr_Shape p,
     pe_Lifecycle = ''ready'', pe_SampleState = ''available'', pe_HistoryState = ''unreported'', pe_CapturedAt = 0, pe_StableSince = 0,
     pe_DeltaStartedAt = 0, pe_Changes = ''unreported'', pe_Values = [], pe_History = []\<rparr>"

definition excluded_report_ok :: "peer_report \<Rightarrow> bool" where
  "excluded_report_ok p \<longleftrightarrow>
    validExclusion (pr_Exclusion p) \<and> pr_Comparisons p = [] \<and> pr_Excluded p = [] \<and> pr_History p = None \<and> is_zero_time (pr_DeltaStartedAt p)"

definition eligible_times_ok :: "time \<Rightarrow> peer_report \<Rightarrow> bool" where
  "eligible_times_ok observed p \<longleftrightarrow>
    \<not> is_zero_time (pr_CapturedAt p) \<and> \<not> pr_CapturedAt p > observed + MaximumSampleSkew \<and>
    \<not> time_sub observed (pr_CapturedAt p) > FreshFor \<and> \<not> is_zero_time (pr_StableSince p) \<and>
    \<not> time_sub observed (pr_StableSince p) < StabilityWindow \<and> pr_Shape p \<noteq> '''' \<and> pr_Revision p \<noteq> '''' \<and>
    length (pr_Comparisons p) = length policies"

definition window_ok :: "peer_report \<Rightarrow> history_window \<Rightarrow> bool" where
  "window_ok p h \<longleftrightarrow>
    \<not> hw_Samples h < 1 \<and> \<not> hw_Samples h > MaxHistoryPoints_replica \<and> \<not> is_zero_time (hw_StartedAt h) \<and>
    \<not> hw_StartedAt h < pr_StableSince p \<and> \<not> hw_StartedAt h < pr_CapturedAt p - HistoryLookback \<and>
    \<not> hw_EndedAt h < hw_StartedAt h \<and> \<not> hw_EndedAt h > pr_CapturedAt p"

definition delta_ok :: "peer_report \<Rightarrow> bool" where
  "delta_ok p \<longleftrightarrow> is_zero_time (pr_DeltaStartedAt p) \<or>
    \<not> time_sub (pr_CapturedAt p) (pr_DeltaStartedAt p) \<le> 0 \<and> \<not> time_sub (pr_CapturedAt p) (pr_DeltaStartedAt p) > FreshFor"

definition named_comparison :: "metric_policy \<Rightarrow> comparison \<Rightarrow> bool" where
  "named_comparison p c \<longleftrightarrow> cp_Metric c = mp_metric p \<and> cp_Unit c = mp_unit p \<and>
    (case cp_Candidate c of None \<Rightarrow> True | Some n \<Rightarrow> validMetricNumber (cp_Metric c) n)"

definition eligible_report_ok :: "time \<Rightarrow> peer_report \<Rightarrow> bool" where
  "eligible_report_ok observed p \<longleftrightarrow>
    eligible_times_ok observed p \<and> (case pr_History p of None \<Rightarrow> True | Some h \<Rightarrow> window_ok p h) \<and> delta_ok p \<and>
    list_all2 named_comparison policies (pr_Comparisons p)"

fun reports_error :: "kube_names \<Rightarrow> kube_object \<Rightarrow> time \<Rightarrow> string list \<Rightarrow> string list \<Rightarrow> peer_report list \<Rightarrow> baseline_error option" where
  "reports_error N w observed names ids [] = None"
| "reports_error N w observed names ids (p # ps) =
    (let obj = pr_Peer p
     in if length (pr_Excluded p) \<ge> MaxPeers \<or> length (pr_Comparisons p) > length policies then Some BaseBounds
        else if \<not> object_ok N obj \<or> ko_Kind obj \<noteq> ''Pod'' \<or> ko_Namespace obj \<noteq> ko_Namespace w \<or> ko_Name obj \<in> set names then Some BaseInvalid
        else if ko_UID obj \<in> set ids then Some BaseInvalid
        else if validatePeer (base_peer p) \<noteq> None then Some BaseInvalid
        else if pr_Exclusion p \<noteq> '''' \<and> \<not> excluded_report_ok p then Some BaseInvalid
        else if pr_Exclusion p = '''' \<and> \<not> eligible_report_ok observed p then Some BaseInvalid
        else reports_error N w observed (ko_Name obj # names) (ko_UID obj # ids) ps)"

text \<open>
  \<open>validateComparison\<close>. Its three loops thread the UIDs that are accounted for; \<open>None\<close> is \<open>ErrInvalid\<close>. The map from UIDs
  to reports is read with \<open>find\<close>, which is the same on the distinct UIDs the first loop has checked.
\<close>

definition report_for :: "peer_report list \<Rightarrow> string \<Rightarrow> peer_report option" where
  "report_for peers uid = find (\<lambda>p. ko_UID (pr_Peer p) = uid) peers"

fun excluded_accounted :: "peer_report list \<Rightarrow> string list \<Rightarrow> peer_exclusion list \<Rightarrow> string list option" where
  "excluded_accounted peers accounted [] = Some accounted"
| "excluded_accounted peers accounted (x # xs) =
    (case report_for peers (ko_UID (px_Peer x)) of None \<Rightarrow> None
     | Some other \<Rightarrow> if pr_Peer other \<noteq> px_Peer x \<or> ko_UID (pr_Peer other) \<in> set accounted \<or> \<not> validExclusion (px_Reason x) then None
         else excluded_accounted peers (ko_UID (pr_Peer other) # accounted) xs)"

definition reference_refused :: "peer_report \<Rightarrow> comparison \<Rightarrow> peer_report \<Rightarrow> bool" where
  "reference_refused p c other \<longleftrightarrow>
    pr_Exclusion other \<noteq> '''' \<or> pr_Revision other \<noteq> pr_Revision p \<or> pr_Shape other \<noteq> pr_Shape p \<or>
    (time_sub (pr_CapturedAt other) (pr_CapturedAt p) > MaximumSampleSkew \<or> time_sub (pr_CapturedAt p) (pr_CapturedAt other) > MaximumSampleSkew)"

text \<open>The last comparison of the metric wins.\<close>

definition claimed_value :: "comparison \<Rightarrow> peer_report \<Rightarrow> f64 option" where
  "claimed_value c other = fold (\<lambda>m v. if cp_Metric m = cp_Metric c then cp_Candidate m else v) (pr_Comparisons other) None"

definition rates_misaligned :: "peer_report \<Rightarrow> comparison \<Rightarrow> peer_report \<Rightarrow> bool" where
  "rates_misaligned p c other \<longleftrightarrow> mp_unit (policy_or_zero (cp_Metric c)) = ''events-per-second'' \<and>
    \<not> alignedDeltaWindows (pr_DeltaStartedAt p, pr_CapturedAt p) (pr_DeltaStartedAt other, pr_CapturedAt other)"

fun references_accounted ::
  "peer_report list \<Rightarrow> peer_report \<Rightarrow> comparison \<Rightarrow> string list \<Rightarrow> string list \<Rightarrow> (f64 list \<times> string list) option" where
  "references_accounted peers p c accounted [] = Some ([], accounted)"
| "references_accounted peers p c accounted (uid # uids) =
    (case report_for peers uid of None \<Rightarrow> None
     | Some other \<Rightarrow>
        if uid \<in> set accounted \<or> reference_refused p c other then None
        else (case claimed_value c other of None \<Rightarrow> None
          | Some v \<Rightarrow> if rates_misaligned p c other then None
              else map_option (\<lambda>(vs, acc). (v # vs, acc)) (references_accounted peers p c (uid # accounted) uids)))"

definition omission_reasons :: "string list" where
  "omission_reasons = [''metric-unreported'', ''metric-partial'', ''metric-stale'', ''metric-unavailable'', ''delta-window-mismatch'']"

fun omitted_accounted :: "peer_report list \<Rightarrow> string list \<Rightarrow> metric_omission list \<Rightarrow> string list option" where
  "omitted_accounted peers accounted [] = Some accounted"
| "omitted_accounted peers accounted (x # xs) =
    (case report_for peers (mo_PeerUID x) of None \<Rightarrow> None
     | Some other \<Rightarrow> if mo_PeerUID x \<in> set accounted \<or> pr_Exclusion other \<noteq> '''' \<or> mo_Reason x \<notin> set omission_reasons then None
         else omitted_accounted peers (mo_PeerUID x # accounted) xs)"

definition valueless_ok :: "comparison \<Rightarrow> bool" where
  "valueless_ok c \<longleftrightarrow> cp_State c \<in> {''unreported'', ''partial'', ''stale'', ''unavailable''} \<and> cp_Distribution c = None \<and>
    cp_Difference c = None \<and> cp_ModifiedScore c = None \<and> cp_Method c = '''' \<and> cp_Outlier c = ''none'' \<and>
    cp_Confidence c = ''insufficient'' \<and> cp_References c = [] \<and> cp_Omitted c = []"

text \<open>\<open>reflect.DeepEqual\<close> of two comparisons: equal in every field, and NaN is not equal to itself.\<close>

definition comparison_numbers :: "comparison \<Rightarrow> f64 list" where
  "comparison_numbers c =
    (case cp_Candidate c of None \<Rightarrow> [] | Some n \<Rightarrow> [n]) @
    (case cp_Distribution c of None \<Rightarrow> [] | Some d \<Rightarrow> [ms_Minimum d, ms_Median d, ms_Maximum d, ms_MAD d]) @
    (case cp_Difference c of None \<Rightarrow> [] | Some n \<Rightarrow> [n]) @ (case cp_ModifiedScore c of None \<Rightarrow> [] | Some n \<Rightarrow> [n])"

definition comparison_equal :: "comparison \<Rightarrow> comparison \<Rightarrow> bool" where
  "comparison_equal a b \<longleftrightarrow> a = b \<and> list_all (\<lambda>n. \<not> isNaN n) (comparison_numbers a)"

definition recomputed :: "comparison \<Rightarrow> f64 \<Rightarrow> f64 list \<Rightarrow> comparison" where
  "recomputed c number vs =
    (let expected = (compare (policy_or_zero (cp_Metric c)) number vs (cp_References c))\<lparr>cp_Omitted := cp_Omitted c\<rparr>
     in if cp_State expected = ''compared'' \<and> cp_Confidence c = ''limited-change-history''
        then expected\<lparr>cp_Confidence := cp_Confidence c\<rparr> else expected)"

definition slope_window_ok :: "peer_report \<Rightarrow> bool" where
  "slope_window_ok p = (case pr_History p of None \<Rightarrow> False | Some h \<Rightarrow>
     \<not> (hw_Samples h < MinHistoryPoints \<or> time_sub (hw_EndedAt h) (hw_StartedAt h) < StabilityWindow \<or>
        hw_StartedAt h > pr_CapturedAt p + (- HistoryLookback + MaximumHistoryGap) \<or>
        time_sub (pr_CapturedAt p) (hw_EndedAt h) > MaximumSampleSkew))"

definition supported_claim :: "peer_report \<Rightarrow> comparison \<Rightarrow> f64 \<Rightarrow> f64 list \<Rightarrow> bool" where
  "supported_claim p c number vs \<longleftrightarrow>
    comparison_equal (recomputed c number vs) c \<and> (cp_Metric c = ChargeSlope \<longrightarrow> slope_window_ok p) \<and>
    \<not> (mp_unit (policy_or_zero (cp_Metric c)) = ''events-per-second'' \<and> is_zero_time (pr_DeltaStartedAt p))"

definition all_accounted :: "peer_report list \<Rightarrow> peer_report \<Rightarrow> comparison \<Rightarrow> string list \<Rightarrow> f64 list option" where
  "all_accounted peers p c accounted =
    (case references_accounted peers p c accounted (cp_References c) of None \<Rightarrow> None
     | Some (vs, acc) \<Rightarrow>
        (case omitted_accounted peers acc (cp_Omitted c) of None \<Rightarrow> None
         | Some final \<Rightarrow> if length final \<noteq> length peers then None else Some vs))"

definition validateComparison :: "peer_report list \<Rightarrow> peer_report \<Rightarrow> comparison \<Rightarrow> baseline_error option" where
  "validateComparison peers p c =
    (if length (cp_References c) \<ge> MaxPeers \<or> length (cp_Omitted c) \<ge> MaxPeers then Some BaseBounds
     else case excluded_accounted peers [ko_UID (pr_Peer p)] (pr_Excluded p) of None \<Rightarrow> Some BaseInvalid
      | Some accounted \<Rightarrow>
        (case cp_Candidate c of
           None \<Rightarrow> if valueless_ok c then None else Some BaseInvalid
         | Some number \<Rightarrow>
            (case all_accounted peers p c accounted of None \<Rightarrow> Some BaseInvalid
             | Some vs \<Rightarrow> if supported_claim p c number vs then None else Some BaseInvalid)))"

fun first_error :: "('a \<Rightarrow> baseline_error option) \<Rightarrow> 'a list \<Rightarrow> baseline_error option" where
  "first_error check [] = None"
| "first_error check (x # xs) = (case check x of Some e \<Rightarrow> Some e | None \<Rightarrow> first_error check xs)"

definition comparisons_error :: "peer_report list \<Rightarrow> peer_report \<Rightarrow> baseline_error option" where
  "comparisons_error peers p =
    (if pr_Exclusion p \<noteq> '''' then None else first_error (validateComparison peers p) (pr_Comparisons p))"

definition validate_baseline_report :: "baseline_lib \<Rightarrow> baseline_report \<Rightarrow> baseline_error option" where
  "validate_baseline_report L r =
    (if br_SchemaVersion r \<noteq> 1 \<or> br_PolicyVersion r \<noteq> 1 \<or> \<not> object_ok (bl_names L) (br_Workload r) \<or> ko_Kind (br_Workload r) = ''Pod'' \<or>
        is_zero_time (br_ObservedAt r) then Some BaseInvalid
     else if length (br_Peers r) > MaxPeers \<or> length (br_Caveats r) > 8 then Some BaseBounds
     else if \<not> list_all caveat_ok (br_Caveats r) then Some BaseInvalid
     else case reports_error (bl_names L) (br_Workload r) (br_ObservedAt r) [] [] (br_Peers r) of Some e \<Rightarrow> Some e
      | None \<Rightarrow>
        (case first_error (comparisons_error (br_Peers r)) (br_Peers r) of Some e \<Rightarrow> Some e
         | None \<Rightarrow> marshal_error L r))"

end
