(* ===== verification/Replica_Report.thy ===== *)
theory Replica_Report
  imports Replica_Baseline
begin

text \<open>
  What \<open>Analyse\<close> of \<open>internal/replicabaseline\<close> returns. A comparison accounts for every other peer once, as a reference, as
  omitted or as excluded; recomputing a comparison from the values its references report gives it back; so a report passes
  \<open>Report.Validate\<close>, which the receiver applies (\<open>analysed_report_valid\<close>). The order of the peers plays no role
  (\<open>analysis_order_free\<close>).
\<close>

subsection \<open>Accepted inputs\<close>

definition accepted_peer :: "kube_names \<Rightarrow> kube_object \<Rightarrow> replica_peer \<Rightarrow> bool" where
  "accepted_peer N w p \<longleftrightarrow>
    object_ok N (pe_Object p) \<and> ko_Kind (pe_Object p) = ''Pod'' \<and> ko_Namespace (pe_Object p) = ko_Namespace w \<and>
    pe_WorkloadUID p = ko_UID w \<and> validatePeer p = None"

abbreviation peer_name :: "replica_peer \<Rightarrow> string" where
  "peer_name p \<equiv> ko_Name (pe_Object p)"

abbreviation peer_uid :: "replica_peer \<Rightarrow> string" where
  "peer_uid p \<equiv> ko_UID (pe_Object p)"

lemma peers_error_None:
  "peers_error N w names ids ps = None \<longleftrightarrow>
    list_all (accepted_peer N w) ps \<and> distinct (map peer_name ps) \<and> distinct (map peer_uid ps) \<and>
    set names \<inter> peer_name ` set ps = {} \<and> set ids \<inter> peer_uid ` set ps = {}"
proof (induction ps arbitrary: names ids)
  case (Cons p ps)
  show ?case
    unfolding peers_error.simps Let_def by (auto simp: Cons.IH accepted_peer_def split: option.splits)
qed simp

definition accepted_peers :: "kube_names \<Rightarrow> kube_object \<Rightarrow> replica_peer list \<Rightarrow> bool" where
  "accepted_peers N w ps \<longleftrightarrow>
    length ps \<le> MaxPeers \<and> list_all (accepted_peer N w) ps \<and> distinct (map peer_name ps) \<and> distinct (map peer_uid ps)"

lemma validate_replicas_None:
  "validate_replicas N i = None \<longleftrightarrow>
    object_ok N (ri_Workload i) \<and> ko_Kind (ri_Workload i) \<noteq> ''Pod'' \<and> \<not> is_zero_time (ri_ObservedAt i) \<and>
    accepted_peers N (ri_Workload i) (ri_Peers i)"
  by (auto simp: validate_replicas_def accepted_peers_def peers_error_None)

lemma accepted_peers_perm:
  assumes "mset ps = mset qs"
  shows "accepted_peers N w ps = accepted_peers N w qs"
proof -
  have "distinct (map peer_name ps) = distinct (map peer_name qs)" "distinct (map peer_uid ps) = distinct (map peer_uid qs)"
    using assms by (metis mset_eq_imp_distinct_iff mset_map)+
  moreover have "set ps = set qs" "length ps = length qs"
    using assms mset_eq_setD mset_eq_length by blast+
  ultimately show ?thesis
    by (simp add: accepted_peers_def list_all_iff)
qed

lemma accepted_peers_sorted [simp]: "accepted_peers N w (sort_slice lt ps) = accepted_peers N w ps"
  by (rule accepted_peers_perm) simp

text \<open>The order in which the peers are listed plays no role.\<close>

lemma sorted_peers_unique:
  assumes "mset ps = mset qs" and "distinct (map peer_name ps)"
  shows "sort_slice (\<lambda>a b. peer_name a < peer_name b) ps = sort_slice (\<lambda>a b. peer_name a < peer_name b) qs"
proof (rule sort_slice_unique [OF weak_order_key])
  have "inj_on peer_name (set qs)"
    using assms by (metis distinct_map mset_eq_setD)
  then show "\<forall>a\<in>set qs. \<forall>b\<in>set qs. a = b \<or> peer_name a < peer_name b \<or> peer_name b < peer_name a"
    by (metis inj_onD neqE)
qed (use assms(1) sorted_sort_slice [OF weak_order_key] in simp_all)

lemma report_of_perm:
  assumes "mset (ri_Peers i) = mset (ri_Peers j)" and "distinct (map peer_name (ri_Peers i))"
    and "ri_Workload i = ri_Workload j" and "ri_ObservedAt i = ri_ObservedAt j"
  shows "report_of i = report_of j"
  unfolding report_of_def using sorted_peers_unique [OF assms(1,2)] assms(3,4) by simp

subsection \<open>What is measured of a peer\<close>

lemma mget_puts: "mget (fold (\<lambda>(k, v). mput k v) xs m) k = Some v \<Longrightarrow> (k, v) \<in> set xs \<or> mget m k = Some v"
proof (induction xs arbitrary: m)
  case (Cons x xs)
  then show ?case
    by (cases x) (force simp: mget_mput split: if_splits)
qed simp

lemma peers_measured_untouched:
  "u \<notin> peer_uid ` set ps \<Longrightarrow> mget (fold (\<lambda>p. mput (peer_uid p) (measured p)) ps m) u = mget m u"
  by (induction ps arbitrary: m) (auto simp: mget_mput)

lemma peers_measured_at:
  "distinct (map peer_uid ps) \<Longrightarrow> p \<in> set ps \<Longrightarrow> mget (peers_measured ps) (peer_uid p) = Some (measured p)"
proof -
  have "mget (fold (\<lambda>p. mput (peer_uid p) (measured p)) ps m) (peer_uid p) = Some (measured p)"
    if "distinct (map peer_uid ps)" "p \<in> set ps" for m
    using that
  proof (induction ps arbitrary: m)
    case (Cons q ps)
    show ?case
    proof (cases "p \<in> set ps")
      case False
      with Cons.prems have "p = q" "peer_uid p \<notin> peer_uid ` set ps"
        by auto
      then show ?thesis
        by (simp add: peers_measured_untouched mget_mput)
    qed (use Cons in simp)
  qed simp
  then show "distinct (map peer_uid ps) \<Longrightarrow> p \<in> set ps \<Longrightarrow> ?thesis"
    by (simp add: peers_measured_def)
qed

definition own_value :: "replica_peer \<Rightarrow> string \<Rightarrow> metric_value" where
  "own_value p metric =
    (case mget (pm_values (measured p)) metric of None \<Rightarrow> \<lparr>mv_State = ''unreported'', mv_Number = Fin 0\<rparr> | Some v \<Rightarrow> v)"

lemma metric_of_measured:
  "distinct (map peer_uid ps) \<Longrightarrow> p \<in> set ps \<Longrightarrow> metric_of (peers_measured ps) p metric = own_value p metric"
  by (simp add: metric_of_def own_value_def peers_measured_at mget0_def)

lemma own_charge_slope: "own_value p ChargeSlope = slope p (recentHistory p)"
  by (simp add: own_value_def measured_def Let_def mget_mput)

lemma own_reported:
  assumes "metric \<noteq> ChargeSlope"
  shows "own_value p metric = \<lparr>mv_State = ''unreported'', mv_Number = Fin 0\<rparr> \<or> (metric, own_value p metric) \<in> set (pe_Values p)"
proof -
  have "mget (pm_values (measured p)) metric = mget (fold (\<lambda>(k, v). mput k v) (pe_Values p) []) metric"
    using assms by (simp add: measured_def Let_def mget_mput)
  then show ?thesis
    unfolding own_value_def using mget_puts [of "pe_Values p" "[]" metric]
    by (cases "mget (fold (\<lambda>(k, v). mput k v) (pe_Values p) []) metric") auto
qed

lemma validatePeer_None:
  "validatePeer p = None \<longleftrightarrow> peer_states_ok p \<and> length (pe_History p) \<le> MaxHistoryPoints_replica \<and> mlen (pe_Values p) < length policies \<and>
    list_all (\<lambda>(metric, v). value_ok p metric v) (pe_Values p) \<and> points_ok p [] (pe_History p)"
  by (auto simp: validatePeer_def)

lemma slope_state:
  "validState (pe_HistoryState p) \<Longrightarrow> validState (mv_State (slope p points))"
  by (auto simp: slope_def validState_def data_states_def)

lemma own_value_state:
  assumes "validatePeer p = None"
  shows "validState (mv_State (own_value p metric))"
proof (cases "metric = ChargeSlope")
  case True
  with assms show ?thesis
    by (simp add: own_charge_slope slope_state validatePeer_None peer_states_ok_def)
next
  case False
  from own_reported [OF this, of p] assms show ?thesis
    by (auto simp: validatePeer_None list_all_iff value_ok_def validState_def data_states_def split: option.splits)
qed

lemma own_value_number:
  assumes "validatePeer p = None" and "metric \<noteq> ChargeSlope" and "mv_State (own_value p metric) = ''available''"
  shows "value_ok p metric (own_value p metric)"
  using own_reported [OF assms(2), of p] assms(1,3) by (auto simp: validatePeer_None list_all_iff)

subsection \<open>The history window\<close>

lemma points_ok_point: "points_ok p seen ps \<Longrightarrow> q \<in> set ps \<Longrightarrow> \<not> is_zero_time (cq_At q) \<and> cq_At q \<le> pe_CapturedAt p"
  by (induction ps arbitrary: seen) auto

lemma recent_points:
  assumes "validatePeer p = None" and "q \<in> set (recentHistory p)"
  shows "\<not> is_zero_time (cq_At q) \<and> cq_At q \<le> pe_CapturedAt p \<and> pe_StableSince p \<le> cq_At q \<and>
    pe_CapturedAt p - HistoryLookback \<le> cq_At q"
proof -
  have "q \<in> set (pe_History p)"
    using assms(2) by (simp add: recentHistory_def)
  with assms show ?thesis
    using points_ok_point [of p "[]" "pe_History p" q] by (auto simp: recentHistory_def validatePeer_None)
qed

lemma recent_sorted: "sorted_wrt (\<lambda>a b. cq_At a \<le> cq_At b) (recentHistory p)"
  using sorted_sort_slice [OF weak_order_key, of cq_At "pe_History p"]
  by (simp add: recentHistory_def sorted_wrt_filter not_less)

lemma sorted_ends: "sorted_wrt (\<lambda>a b. (f a :: time) \<le> f b) xs \<Longrightarrow> xs \<noteq> [] \<Longrightarrow> f (hd xs) \<le> f (last xs)"
  by (cases xs) auto

lemma recent_length: "validatePeer p = None \<Longrightarrow> length (recentHistory p) \<le> MaxHistoryPoints_replica"
  using length_filter_le [of _ "sort_slice (\<lambda>a b. cq_At a < cq_At b) (pe_History p)"]
  by (auto simp: recentHistory_def validatePeer_None intro: order_trans)

lemma measured_window:
  assumes "validatePeer p = None" and "pm_history (measured p) = Some h"
    and "pr_StableSince r = pe_StableSince p" and "pr_CapturedAt r = pe_CapturedAt p"
  shows "window_ok r h"
proof -
  let ?points = "recentHistory p"
  have some: "?points \<noteq> []" and h: "h = \<lparr>hw_StartedAt = cq_At (hd ?points), hw_EndedAt = cq_At (last ?points), hw_Samples = length ?points\<rparr>"
    using assms(2) by (auto simp: measured_def Let_def split: if_splits)
  from recent_points [OF assms(1), of "hd ?points"] recent_points [OF assms(1), of "last ?points"] some
    sorted_ends [OF recent_sorted some] recent_length [OF assms(1)]
  show ?thesis
    unfolding h window_ok_def assms(3,4) by (auto simp: Suc_le_eq)
qed

lemma slope_window:
  assumes "mv_State (own_value p ChargeSlope) = ''available''" and "pr_History r = pm_history (measured p)"
    and "pr_CapturedAt r = pe_CapturedAt p"
  shows "slope_window_ok r"
proof -
  let ?points = "recentHistory p"
  from assms(1) have state: "pe_HistoryState p = ''available''" and long: "\<not> slope_window_short p ?points"
    by (auto simp: own_charge_slope slope_def split: if_splits)
  from long have "?points \<noteq> []"
    by (auto simp: slope_window_short_def MinHistoryPoints_def)
  with state long show ?thesis
    by (simp add: slope_window_ok_def assms(2,3) measured_def Let_def slope_window_short_def)
qed

subsection \<open>Exclusions\<close>

lemma exclusion_valid:
  assumes "validatePeer p = None" and "exclusion now p \<noteq> ''''"
  shows "validExclusion (exclusion now p)"
proof -
  have "validState (pe_SampleState p)" "pe_Lifecycle p \<in> {''ready'', ''unready'', ''terminating'', ''inactive''}"
    using assms(1) by (auto simp: validatePeer_None peer_states_ok_def)
  with assms(2) show ?thesis
    unfolding exclusion_def
    by (auto simp: validExclusion_def exclusion_reasons_def validState_def data_states_def split: if_splits)
qed

lemma referenceExclusion_valid:
  assumes "validatePeer p = None" and "referenceExclusion now c p \<noteq> ''''"
  shows "validExclusion (referenceExclusion now c p)"
proof (cases "exclusion now p = ''''")
  case True
  with assms(2) show ?thesis
    unfolding referenceExclusion_def by (auto simp: validExclusion_def exclusion_reasons_def split: if_splits)
next
  case False
  with exclusion_valid [OF assms(1) False] show ?thesis
    by (simp add: referenceExclusion_def)
qed

lemma reference_like_candidate:
  assumes "referenceExclusion now c p = ''''"
  shows "exclusion now p = '''' \<and> pe_Revision p = pe_Revision c \<and> pe_Shape p = pe_Shape c \<and>
    \<not> time_sub (pe_CapturedAt p) (pe_CapturedAt c) > MaximumSampleSkew \<and>
    \<not> time_sub (pe_CapturedAt c) (pe_CapturedAt p) > MaximumSampleSkew"
  using assms unfolding referenceExclusion_def
  by (auto simp: MaximumSampleSkew_def time_sub_def sat64_def max_int64_def min_int64_def second_def split: if_splits)

lemma eligible_times:
  assumes "exclusion now p = ''''" and "pr_CapturedAt r = pe_CapturedAt p" and "pr_StableSince r = pe_StableSince p"
    and "pr_Shape r = pe_Shape p" and "pr_Revision r = pe_Revision p" and "length (pr_Comparisons r) = length policies"
    and "pe_Lifecycle p \<noteq> ''''"
  shows "eligible_times_ok now r"
  using assms unfolding exclusion_def eligible_times_ok_def by (auto split: if_splits)

subsection \<open>The report of one peer\<close>

text \<open>The span that \<open>replicaValues\<close> has checked before it names the start of a delta window.\<close>

definition window_reported :: "replica_peer \<Rightarrow> bool" where
  "window_reported p \<longleftrightarrow> is_zero_time (pe_DeltaStartedAt p) \<or>
    0 < time_sub (pe_CapturedAt p) (pe_DeltaStartedAt p) \<and> time_sub (pe_CapturedAt p) (pe_DeltaStartedAt p) \<le> FreshFor"

abbreviation others_of :: "replica_peer list \<Rightarrow> replica_peer \<Rightarrow> replica_peer list" where
  "others_of ps c \<equiv> filter (\<lambda>p. peer_uid p \<noteq> peer_uid c) ps"

abbreviation references_of :: "time \<Rightarrow> replica_peer list \<Rightarrow> replica_peer \<Rightarrow> replica_peer list" where
  "references_of now ps c \<equiv> filter (\<lambda>p. referenceExclusion now c p = '''') (others_of ps c)"

abbreviation rejected_of :: "time \<Rightarrow> replica_peer list \<Rightarrow> replica_peer \<Rightarrow> replica_peer list" where
  "rejected_of now ps c \<equiv> filter (\<lambda>p. referenceExclusion now c p \<noteq> '''') (others_of ps c)"

definition peer_reported :: "time \<Rightarrow> replica_peer list \<Rightarrow> replica_peer \<Rightarrow> peer_report" where
  "peer_reported now ps c = analysePeer now c ps (peers_measured ps)"

lemma peer_reported_fields [simp]:
  "pr_Peer (peer_reported now ps c) = pe_Object c"
  "pr_CapturedAt (peer_reported now ps c) = pe_CapturedAt c"
  "pr_StableSince (peer_reported now ps c) = pe_StableSince c"
  "pr_Revision (peer_reported now ps c) = pe_Revision c"
  "pr_Shape (peer_reported now ps c) = pe_Shape c"
  "pr_Exclusion (peer_reported now ps c) = exclusion now c"
  by (simp_all add: peer_reported_def analysePeer_def first_peer_report_def Let_def)

lemma peer_reported_excluded:
  "exclusion now c \<noteq> '''' \<Longrightarrow> peer_reported now ps c = first_peer_report now c"
  by (simp add: peer_reported_def analysePeer_def first_peer_report_def Let_def)

lemma peer_reported_eligible:
  assumes "exclusion now c = ''''" and "distinct (map peer_uid ps)" and "c \<in> set ps"
  shows "pr_History (peer_reported now ps c) = pm_history (measured c)"
    and "pr_DeltaStartedAt (peer_reported now ps c) = pe_DeltaStartedAt c"
    and "pr_Excluded (peer_reported now ps c) =
      map (\<lambda>p. \<lparr>px_Peer = pe_Object p, px_Reason = referenceExclusion now c p\<rparr>) (rejected_of now ps c)"
    and "pr_Comparisons (peer_reported now ps c) = map (compared_metric (peers_measured ps) c (references_of now ps c)) policies"
  using assms by (simp_all add: peer_reported_def analysePeer_def first_peer_report_def Let_def mget0_def peers_measured_at)

lemma report_of_peers:
  "br_Peers (report_of i) = (let ps = sort_slice (\<lambda>a b. peer_name a < peer_name b) (ri_Peers i) in map (peer_reported (ri_ObservedAt i) ps) ps)"
  by (simp add: report_of_def peer_reported_def Let_def)

lemma others_short:
  assumes "c \<in> set ps" and "length ps \<le> MaxPeers"
  shows "length (filter P (others_of ps c)) < MaxPeers"
proof -
  have "length (filter P (others_of ps c)) \<le> length (others_of ps c)"
    by (rule length_filter_le)
  also have "\<dots> < length ps"
    by (rule length_filter_less [OF assms(1)]) simp
  finally show ?thesis
    using assms(2) by simp
qed

subsection \<open>Policies\<close>

lemma policies_named: "list_all (\<lambda>p. policyFor (mp_metric p) = Some p) policies"
  by (simp add: policies_def policyFor_def ChargeSlope_def)

lemma policy_named: "p \<in> set policies \<Longrightarrow> policyFor (mp_metric p) = Some p"
  using policies_named by (simp add: list_all_iff)

lemma policy_or_zero_named [simp]: "p \<in> set policies \<Longrightarrow> policy_or_zero (mp_metric p) = p"
  by (simp add: policy_or_zero_def policy_named)

lemma policies_distinct: "distinct (map mp_metric policies)"
  by (simp add: policies_def ChargeSlope_def)

lemma slope_unbounded: "p \<in> set policies \<Longrightarrow> mp_metric p = ChargeSlope \<Longrightarrow> mp_unit p = ''bytes-per-second''"
  using policy_named [of p] by (auto simp: policyFor_def policies_def ChargeSlope_def)

subsection \<open>One comparison\<close>

lemma uncompared_fields [simp]:
  "cp_Metric (uncompared p n refs) = mp_metric p" "cp_Unit (uncompared p n refs) = mp_unit p"
  "cp_Candidate (uncompared p n refs) = Some n" "cp_References (uncompared p n refs) = refs"
  "cp_State (uncompared p n refs) = ''insufficient-peers''"
  by (simp_all add: uncompared_def)

lemma compare_fields [simp]:
  "cp_Metric (compare p n vs refs) = mp_metric p" "cp_Unit (compare p n vs refs) = mp_unit p"
  "cp_Candidate (compare p n vs refs) = Some n" "cp_References (compare p n vs refs) = refs"
  by (simp_all add: compare_def Let_def)

lemma compared_metric_named [simp]:
  "cp_Metric (compared_metric M c refs p) = mp_metric p" "cp_Unit (compared_metric M c refs p) = mp_unit p"
  by (simp_all add: compared_metric_def Let_def without_value_def with_references_def)

lemma compared_metric_candidate:
  assumes "distinct (map peer_uid ps)" and "c \<in> set ps"
  shows "cp_Candidate (compared_metric (peers_measured ps) c refs p) =
    (let v = own_value c (mp_metric p) in if mv_State v = ''available'' then Some (mv_Number v) else None)"
  using assms by (simp add: compared_metric_def Let_def without_value_def with_references_def metric_of_measured)

lemma claimed_value_at:
  assumes "distinct (map mp_metric ps)" and "p \<in> set ps" and "\<And>q. cp_Metric (f q) = mp_metric q"
  shows "fold (\<lambda>m v. if cp_Metric m = mp_metric p then cp_Candidate m else v) (map f ps) v0 = cp_Candidate (f p)"
proof -
  have skip: "fold (\<lambda>m v. if cp_Metric m = k then cp_Candidate m else v) (map f qs) v = v" if "k \<notin> mp_metric ` set qs" for k qs v
    using that assms(3) by (induction qs) auto
  show ?thesis
    using assms(1,2)
  proof (induction ps arbitrary: v0)
    case (Cons q ps)
    then show ?case
      using assms(3) by (cases "p = q") (auto simp: skip)
  qed simp
qed

lemma claimed_by_peer:
  assumes "distinct (map peer_uid ps)" and "q \<in> set ps" and "exclusion now q = ''''" and "p \<in> set policies" and "cp_Metric c = mp_metric p"
  shows "claimed_value c (peer_reported now ps q) =
    (let v = own_value q (mp_metric p) in if mv_State v = ''available'' then Some (mv_Number v) else None)"
  using claimed_value_at [OF policies_distinct assms(4), of "compared_metric (peers_measured ps) q (references_of now ps q)" None] assms
  by (simp add: claimed_value_def peer_reported_eligible compared_metric_candidate)

subsection \<open>Accounting for the other peers\<close>

lemma report_for_peer:
  assumes "distinct (map peer_uid ps)" and "p \<in> set ps"
  shows "report_for (map (peer_reported now ps) ps) (peer_uid p) = Some (peer_reported now ps p)"
proof -
  have "find (\<lambda>r. ko_UID (pr_Peer r) = peer_uid p) (map (peer_reported now ps) qs) = Some (peer_reported now ps p)"
    if "distinct (map peer_uid qs)" "p \<in> set qs" for qs
    using that
  proof (induction qs)
    case (Cons q qs)
    then show ?case
      by (cases "peer_uid q = peer_uid p") (auto simp: inj_on_def)
  qed simp
  from this [OF assms] show ?thesis
    by (simp add: report_for_def)
qed

lemma excluded_all:
  assumes "distinct (map peer_uid ps)" and "set xs \<subseteq> set ps" and "distinct (map peer_uid xs)" and "set acc \<inter> peer_uid ` set xs = {}"
    and "\<forall>x \<in> set xs. validExclusion (reason x)"
  shows "excluded_accounted (map (peer_reported now ps) ps) acc (map (\<lambda>p. \<lparr>px_Peer = pe_Object p, px_Reason = reason p\<rparr>) xs) =
    Some (rev (map peer_uid xs) @ acc)"
  using assms(2-5)
proof (induction xs arbitrary: acc)
  case (Cons x xs)
  then have "report_for (map (peer_reported now ps) ps) (peer_uid x) = Some (peer_reported now ps x)"
    by (intro report_for_peer [OF assms(1)]) simp
  moreover have "excluded_accounted (map (peer_reported now ps) ps) (peer_uid x # acc)
      (map (\<lambda>p. \<lparr>px_Peer = pe_Object p, px_Reason = reason p\<rparr>) xs) = Some (rev (map peer_uid xs) @ peer_uid x # acc)"
    by (intro Cons.IH) (use Cons.prems in auto)
  ultimately show ?case
    using Cons.prems by simp
qed simp

lemma references_all:
  assumes "distinct (map peer_uid ps)" and "set xs \<subseteq> set ps" and "distinct (map peer_uid xs)" and "set acc \<inter> peer_uid ` set xs = {}"
    and "\<forall>x \<in> set xs. \<not> reference_refused r c (peer_reported now ps x) \<and> claimed_value c (peer_reported now ps x) = Some (value_of x) \<and>
      \<not> rates_misaligned r c (peer_reported now ps x)"
  shows "references_accounted (map (peer_reported now ps) ps) r c acc (map peer_uid xs) =
    Some (map value_of xs, rev (map peer_uid xs) @ acc)"
  using assms(2-5)
proof (induction xs arbitrary: acc)
  case (Cons x xs)
  then have "report_for (map (peer_reported now ps) ps) (peer_uid x) = Some (peer_reported now ps x)"
    by (intro report_for_peer [OF assms(1)]) simp
  moreover have "references_accounted (map (peer_reported now ps) ps) r c (peer_uid x # acc) (map peer_uid xs) =
      Some (map value_of xs, rev (map peer_uid xs) @ peer_uid x # acc)"
    by (intro Cons.IH) (use Cons.prems in auto)
  ultimately show ?case
    using Cons.prems by simp
qed simp

lemma omitted_all:
  assumes "distinct (map peer_uid ps)" and "set xs \<subseteq> set ps" and "distinct (map peer_uid xs)" and "set acc \<inter> peer_uid ` set xs = {}"
    and "\<forall>x \<in> set xs. exclusion now x = '''' \<and> reason x \<in> set omission_reasons"
  shows "omitted_accounted (map (peer_reported now ps) ps) acc (map (\<lambda>p. \<lparr>mo_PeerUID = peer_uid p, mo_Reason = reason p\<rparr>) xs) =
    Some (rev (map peer_uid xs) @ acc)"
  using assms(2-5)
proof (induction xs arbitrary: acc)
  case (Cons x xs)
  then have "report_for (map (peer_reported now ps) ps) (peer_uid x) = Some (peer_reported now ps x)"
    by (intro report_for_peer [OF assms(1)]) simp
  moreover have "omitted_accounted (map (peer_reported now ps) ps) (peer_uid x # acc)
      (map (\<lambda>p. \<lparr>mo_PeerUID = peer_uid p, mo_Reason = reason p\<rparr>) xs) = Some (rev (map peer_uid xs) @ peer_uid x # acc)"
    by (intro Cons.IH) (use Cons.prems in auto)
  ultimately show ?case
    using Cons.prems by simp
qed simp

lemma omission_reason:
  assumes "validatePeer x = None" and "omission p c x (own_value x metric) \<noteq> ''''"
  shows "omission p c x (own_value x metric) \<in> set omission_reasons"
  using assms(2) own_value_state [OF assms(1), of metric]
  by (auto simp: omission_def omission_reasons_def validState_def data_states_def split: if_splits)

text \<open>The candidate, the excluded peers, the references and the omitted ones are all the peers.\<close>

lemma accounted_length:
  assumes "distinct (map peer_uid ps)" and "c \<in> set ps"
  shows "length (filter (\<lambda>p. \<not> Q p) (filter P (others_of ps c))) + length (filter Q (filter P (others_of ps c))) +
    length (filter (\<lambda>p. \<not> P p) (others_of ps c)) + 1 = length ps"
proof -
  have "filter (\<lambda>p. peer_uid p = peer_uid c) ps = [c]"
    using assms
  proof (induction ps)
    case (Cons q ps)
    show ?case
    proof (cases "q = c")
      case True
      with Cons.prems have "filter (\<lambda>p. peer_uid p = peer_uid c) ps = []"
        by (simp add: filter_empty_conv) (metis image_eqI)
      with True show ?thesis
        by simp
    qed (use Cons in auto)
  qed simp
  then have "length (others_of ps c) + 1 = length ps"
    using sum_length_filter_compl [of "\<lambda>p. peer_uid p \<noteq> peer_uid c" ps] by simp
  then show ?thesis
    using sum_length_filter_compl [of P "others_of ps c"] sum_length_filter_compl [of Q "filter P (others_of ps c)"] by simp
qed

text \<open>Recomputing a comparison from the values of its references gives it back.\<close>

lemma recomputed_references:
  assumes "p \<in> set policies"
  shows "recomputed (with_references reads c refs p n) n
    (map (\<lambda>x. mv_Number (reads x)) (filter (\<lambda>x. omission p c x (reads x) = '''') refs)) = with_references reads c refs p n"
proof -
  have conf: "cp_State (compare p n vs ids) = ''compared'' \<Longrightarrow> cp_Confidence (compare p n vs ids) = ''current-peers''" for vs ids
    by (auto simp: compare_def Let_def split: if_splits)
  have same: "cp_References (with_references reads c refs p n) = map peer_uid (filter (\<lambda>x. omission p c x (reads x) = '''') refs)"
    "cp_Metric (with_references reads c refs p n) = mp_metric p"
    by (simp_all add: with_references_def Let_def)
  show ?thesis
    unfolding recomputed_def Let_def same policy_or_zero_named [OF assms]
    by (auto simp: with_references_def Let_def conf)
qed

subsection \<open>A comparison of the analysis is accepted\<close>

lemma reference_accepted:
  assumes "referenceExclusion now c x = ''''" and "exclusion now c = ''''"
  shows "\<not> reference_refused (peer_reported now ps c) k (peer_reported now ps x)"
  using reference_like_candidate [OF assms(1)] by (simp add: reference_refused_def)

lemma used_reference:
  assumes "omission p c x (own_value x (mp_metric p)) = ''''" and "p \<in> set policies" and "cp_Metric k = mp_metric p"
    and "exclusion now c = ''''" and "exclusion now x = ''''" and "distinct (map peer_uid ps)" and "c \<in> set ps" and "x \<in> set ps"
  shows "mv_State (own_value x (mp_metric p)) = ''available''"
    and "claimed_value k (peer_reported now ps x) = Some (mv_Number (own_value x (mp_metric p)))"
    and "\<not> rates_misaligned (peer_reported now ps c) k (peer_reported now ps x)"
proof -
  show available: "mv_State (own_value x (mp_metric p)) = ''available''"
    using assms(1) by (auto simp: omission_def split: if_splits)
  then show "claimed_value k (peer_reported now ps x) = Some (mv_Number (own_value x (mp_metric p)))"
    using claimed_by_peer [OF assms(6,8,5,2,3)] by simp
  show "\<not> rates_misaligned (peer_reported now ps c) k (peer_reported now ps x)"
    using assms available by (auto simp: rates_misaligned_def omission_def peer_reported_eligible split: if_splits)
qed

text \<open>The candidate's own evidence supports the comparison.\<close>

lemma candidate_supported:
  assumes "validatePeer c = None" and "p \<in> set policies" and "mv_State (own_value c (mp_metric p)) = ''available''"
    and "pr_History r = pm_history (measured c)" and "pr_CapturedAt r = pe_CapturedAt c" and "pr_DeltaStartedAt r = pe_DeltaStartedAt c"
  shows "mp_metric p = ChargeSlope \<longrightarrow> slope_window_ok r"
    and "\<not> (mp_unit p = ''events-per-second'' \<and> is_zero_time (pr_DeltaStartedAt r))"
proof -
  show "mp_metric p = ChargeSlope \<longrightarrow> slope_window_ok r"
    using slope_window [of c r] assms(3-5) by auto
  show "\<not> (mp_unit p = ''events-per-second'' \<and> is_zero_time (pr_DeltaStartedAt r))"
  proof (cases "mp_metric p = ChargeSlope")
    case True
    with slope_unbounded [OF assms(2)] show ?thesis
      by simp
  next
    case False
    from own_value_number [OF assms(1) False assms(3)] assms(3,6) policy_named [OF assms(2)] show ?thesis
      by (auto simp: value_ok_def delta_span_ok_def)
  qed
qed

lemma with_references_cong:
  assumes "\<And>x. x \<in> set refs \<Longrightarrow> reads x = reads' x"
  shows "with_references reads c refs p n = with_references reads' c refs p n"
proof -
  have filters: "filter (\<lambda>x. omission p c x (reads x) = '''') refs = filter (\<lambda>x. omission p c x (reads' x) = '''') refs"
    "filter (\<lambda>x. omission p c x (reads x) \<noteq> '''') refs = filter (\<lambda>x. omission p c x (reads' x) \<noteq> '''') refs"
    using assms by (auto intro: filter_cong)
  have maps: "map (\<lambda>x. mv_Number (reads x)) (filter P refs) = map (\<lambda>x. mv_Number (reads' x)) (filter P refs)"
    "map (\<lambda>x. \<lparr>mo_PeerUID = peer_uid x, mo_Reason = omission p c x (reads x)\<rparr>) (filter P refs) =
     map (\<lambda>x. \<lparr>mo_PeerUID = peer_uid x, mo_Reason = omission p c x (reads' x)\<rparr>) (filter P refs)" for P
    using assms by auto
  show ?thesis
    unfolding with_references_def Let_def filters maps ..
qed

lemma with_references_fields [simp]:
  "cp_References (with_references reads c refs p n) = map peer_uid (filter (\<lambda>x. omission p c x (reads x) = '''') refs)"
  "cp_Omitted (with_references reads c refs p n) =
    map (\<lambda>x. \<lparr>mo_PeerUID = peer_uid x, mo_Reason = omission p c x (reads x)\<rparr>) (filter (\<lambda>x. omission p c x (reads x) \<noteq> '''') refs)"
  "cp_Metric (with_references reads c refs p n) = mp_metric p" "cp_Candidate (with_references reads c refs p n) = Some n"
  by (simp_all add: with_references_def Let_def)

lemma compared_metric_measured:
  assumes "distinct (map peer_uid ps)" and "c \<in> set ps" and "set refs \<subseteq> set ps"
  shows "compared_metric (peers_measured ps) c refs p =
    (let v = own_value c (mp_metric p)
     in if mv_State v \<noteq> ''available'' then without_value p (mv_State v)
        else with_references (\<lambda>x. own_value x (mp_metric p)) c refs p (mv_Number v))"
proof -
  have "with_references (\<lambda>x. metric_of (peers_measured ps) x (mp_metric p)) c refs p n =
      with_references (\<lambda>x. own_value x (mp_metric p)) c refs p n" for n
    by (rule with_references_cong) (use assms in \<open>auto intro: metric_of_measured\<close>)
  then show ?thesis
    using assms by (simp add: compared_metric_def Let_def metric_of_measured)
qed

lemma references_accepted:
  assumes "accepted_peers N w ps" and "c \<in> set ps" and "exclusion now c = ''''" and "p \<in> set policies"
    and "k = with_references (\<lambda>x. own_value x (mp_metric p)) c (references_of now ps c) p n"
  shows "all_accounted (map (peer_reported now ps) ps) (peer_reported now ps c) k (rev (map peer_uid (rejected_of now ps c)) @ [peer_uid c]) =
    Some (map (\<lambda>x. mv_Number (own_value x (mp_metric p)))
      (filter (\<lambda>x. omission p c x (own_value x (mp_metric p)) = '''') (references_of now ps c)))"
proof -
  let ?refs = "references_of now ps c"
  let ?used = "filter (\<lambda>x. omission p c x (own_value x (mp_metric p)) = '''') ?refs"
  let ?left = "filter (\<lambda>x. omission p c x (own_value x (mp_metric p)) \<noteq> '''') ?refs"
  let ?acc = "rev (map peer_uid (rejected_of now ps c)) @ [peer_uid c]"
  have dist: "distinct (map peer_uid ps)" and valid: "x \<in> set ps \<Longrightarrow> validatePeer x = None" for x
    using assms(1) by (auto simp: accepted_peers_def accepted_peer_def list_all_iff)
  have apart: "peer_uid x = peer_uid y \<Longrightarrow> x \<in> set ps \<Longrightarrow> y \<in> set ps \<Longrightarrow> x = y" for x y
    using dist by (auto simp: distinct_map inj_on_def)
  have refs: "references_accounted (map (peer_reported now ps) ps) (peer_reported now ps c) k ?acc (map peer_uid ?used) =
      Some (map (\<lambda>x. mv_Number (own_value x (mp_metric p))) ?used, rev (map peer_uid ?used) @ ?acc)"
  proof (rule references_all [OF dist])
    show "\<forall>x \<in> set ?used. \<not> reference_refused (peer_reported now ps c) k (peer_reported now ps x) \<and>
        claimed_value k (peer_reported now ps x) = Some (mv_Number (own_value x (mp_metric p))) \<and>
        \<not> rates_misaligned (peer_reported now ps c) k (peer_reported now ps x)"
    proof
      fix x
      assume "x \<in> set ?used"
      then have x: "x \<in> set ps" "referenceExclusion now c x = ''''" "omission p c x (own_value x (mp_metric p)) = ''''"
        by auto
      have k: "cp_Metric k = mp_metric p" and ex: "exclusion now x = ''''"
        using assms(5) reference_like_candidate [OF x(2)] by simp_all
      show "\<not> reference_refused (peer_reported now ps c) k (peer_reported now ps x) \<and>
          claimed_value k (peer_reported now ps x) = Some (mv_Number (own_value x (mp_metric p))) \<and>
          \<not> rates_misaligned (peer_reported now ps c) k (peer_reported now ps x)"
        using used_reference [OF x(3) assms(4) k assms(3) ex dist assms(2) x(1)] reference_accepted [OF x(2) assms(3)] by blast
    qed
  qed (use dist apart in \<open>auto simp: distinct_map_filter\<close>)
  have left: "omitted_accounted (map (peer_reported now ps) ps) (rev (map peer_uid ?used) @ ?acc)
      (map (\<lambda>x. \<lparr>mo_PeerUID = peer_uid x, mo_Reason = omission p c x (own_value x (mp_metric p))\<rparr>) ?left) =
      Some (rev (map peer_uid ?left) @ rev (map peer_uid ?used) @ ?acc)"
  proof (rule omitted_all [OF dist])
    show "\<forall>x \<in> set ?left. exclusion now x = '''' \<and> omission p c x (own_value x (mp_metric p)) \<in> set omission_reasons"
      using omission_reason [OF valid] reference_like_candidate by (simp add: set_filter) blast
  qed (use dist apart in \<open>auto simp: distinct_map_filter\<close>)
  have "length (rev (map peer_uid ?left) @ rev (map peer_uid ?used) @ ?acc) = length (map (peer_reported now ps) ps)"
    using accounted_length [OF dist assms(2), of "\<lambda>x. omission p c x (own_value x (mp_metric p)) \<noteq> ''''" "\<lambda>p. referenceExclusion now c p = ''''"]
    by simp
  moreover have "cp_References k = map peer_uid ?used"
    "cp_Omitted k = map (\<lambda>x. \<lparr>mo_PeerUID = peer_uid x, mo_Reason = omission p c x (own_value x (mp_metric p))\<rparr>) ?left"
    unfolding assms(5) by (rule with_references_fields)+
  ultimately show ?thesis
    unfolding all_accounted_def by (simp only: refs left option.case prod.case if_False simp_thms)
qed

text \<open>The numbers of a report; \<open>json.Marshal\<close> refuses infinities and NaN.\<close>

definition report_numbers :: "baseline_report \<Rightarrow> f64 list" where
  "report_numbers r = concat (map (\<lambda>p. concat (map comparison_numbers (pr_Comparisons p))) (br_Peers r))"

definition marshals_finite_numbers :: "baseline_lib \<Rightarrow> bool" where
  "marshals_finite_numbers L \<longleftrightarrow> (\<forall>r. bl_report_bytes L r \<noteq> None \<longrightarrow> list_all is_finite (report_numbers r))"

lemma finite_not_nan: "is_finite v \<Longrightarrow> \<not> isNaN v"
  by (cases v) auto

lemma comparison_accepted:
  assumes "accepted_peers N w ps" and "c \<in> set ps" and "exclusion now c = ''''" and "p \<in> set policies"
    and "k = compared_metric (peers_measured ps) c (references_of now ps c) p" and "list_all is_finite (comparison_numbers k)"
  shows "validateComparison (map (peer_reported now ps) ps) (peer_reported now ps c) k = None"
proof -
  let ?rs = "map (peer_reported now ps) ps"
  let ?r = "peer_reported now ps c"
  let ?acc = "rev (map peer_uid (rejected_of now ps c)) @ [peer_uid c]"
  let ?v = "own_value c (mp_metric p)"
  have dist: "distinct (map peer_uid ps)" and few: "length ps \<le> MaxPeers" and valid: "x \<in> set ps \<Longrightarrow> validatePeer x = None" for x
    using assms(1) by (auto simp: accepted_peers_def accepted_peer_def list_all_iff)
  note fields = peer_reported_eligible [OF assms(3) dist assms(2)]
  have k: "k = (if mv_State ?v \<noteq> ''available'' then without_value p (mv_State ?v)
      else with_references (\<lambda>x. own_value x (mp_metric p)) c (references_of now ps c) p (mv_Number ?v))"
    unfolding assms(5) using compared_metric_measured [OF dist assms(2), of "references_of now ps c" p] by (auto simp: Let_def)
  have excluded: "excluded_accounted ?rs [ko_UID (pr_Peer ?r)] (pr_Excluded ?r) = Some ?acc"
    unfolding fields(3) peer_reported_fields(1)
    by (rule excluded_all [OF dist]) (use dist valid referenceExclusion_valid in \<open>auto simp: distinct_map_filter\<close>)
  have short: "length (cp_References k) < MaxPeers" "length (cp_Omitted k) < MaxPeers"
  proof -
    have "length (filter P (references_of now ps c)) < MaxPeers" for P
      using others_short [OF assms(2) few] by (simp add: filter_filter)
    then show "length (cp_References k) < MaxPeers" "length (cp_Omitted k) < MaxPeers"
      unfolding k by (simp_all add: without_value_def MaxPeers_def del: filter_filter)
  qed
  show ?thesis
  proof (cases "mv_State ?v = ''available''")
    case False
    with own_value_state [OF valid [OF assms(2)], of "mp_metric p"] have "valueless_ok k" and "cp_Candidate k = None"
      unfolding k by (auto simp: valueless_ok_def without_value_def validState_def data_states_def)
    with short excluded show ?thesis
      by (simp add: validateComparison_def)
  next
    case True
    then have kr: "k = with_references (\<lambda>x. own_value x (mp_metric p)) c (references_of now ps c) p (mv_Number ?v)"
      using k by simp
    note all = references_accepted [OF assms(1-4) kr]
    have "supported_claim ?r k (mv_Number ?v) (map (\<lambda>x. mv_Number (own_value x (mp_metric p)))
      (filter (\<lambda>x. omission p c x (own_value x (mp_metric p)) = '''') (references_of now ps c)))"
      using candidate_supported [OF valid [OF assms(2)] assms(4) True fields(1) peer_reported_fields(2) fields(2)] assms(4,6)
        recomputed_references [OF assms(4), of "\<lambda>x. own_value x (mp_metric p)" c "references_of now ps c" "mv_Number ?v"]
      unfolding supported_claim_def comparison_equal_def
      by (simp add: kr finite_not_nan list_all_iff)
    moreover have "cp_Candidate k = Some (mv_Number ?v)"
      by (simp add: kr)
    ultimately show ?thesis
      using short excluded all by (simp add: validateComparison_def)
  qed
qed

subsection \<open>The first loop of the validation\<close>

definition report_checks :: "kube_names \<Rightarrow> kube_object \<Rightarrow> time \<Rightarrow> peer_report \<Rightarrow> bool" where
  "report_checks N w observed p \<longleftrightarrow>
    length (pr_Excluded p) < MaxPeers \<and> length (pr_Comparisons p) \<le> length policies \<and> object_ok N (pr_Peer p) \<and>
    ko_Kind (pr_Peer p) = ''Pod'' \<and> ko_Namespace (pr_Peer p) = ko_Namespace w \<and> validatePeer (base_peer p) = None \<and>
    (if pr_Exclusion p \<noteq> '''' then excluded_report_ok p else eligible_report_ok observed p)"

lemma reports_error_None:
  assumes "\<forall>p \<in> set rs. report_checks N w observed p"
    and "distinct (map (\<lambda>p. ko_Name (pr_Peer p)) rs)" and "distinct (map (\<lambda>p. ko_UID (pr_Peer p)) rs)"
    and "set names \<inter> (\<lambda>p. ko_Name (pr_Peer p)) ` set rs = {}" and "set ids \<inter> (\<lambda>p. ko_UID (pr_Peer p)) ` set rs = {}"
  shows "reports_error N w observed names ids rs = None"
  using assms
proof (induction rs arbitrary: names ids)
  case (Cons p rs)
  have "reports_error N w observed (ko_Name (pr_Peer p) # names) (ko_UID (pr_Peer p) # ids) rs = None"
    by (rule Cons.IH) (use Cons.prems in auto)
  moreover have "report_checks N w observed p" "ko_Name (pr_Peer p) \<notin> set names" "ko_UID (pr_Peer p) \<notin> set ids"
    using Cons.prems by auto
  ultimately show ?case
    by (simp add: report_checks_def Let_def split: if_splits)
qed simp

lemma base_peer_valid:
  assumes "validatePeer c = None" and "pr_Revision r = pe_Revision c" and "pr_Shape r = pe_Shape c"
  shows "validatePeer (base_peer r) = None"
  using assms by (simp add: validatePeer_None peer_states_ok_def base_peer_def validState_def data_states_def policies_def)

lemma candidate_number_valid:
  assumes "validatePeer c = None" and "p \<in> set policies" and "mv_State (own_value c (mp_metric p)) = ''available''"
    and "is_finite (mv_Number (own_value c (mp_metric p)))"
  shows "validMetricNumber (mp_metric p) (mv_Number (own_value c (mp_metric p)))"
proof (cases "mp_metric p = ChargeSlope")
  case True
  with policy_or_zero_named [OF assms(2)] have "policy_or_zero ChargeSlope = p"
    by simp
  with slope_unbounded [OF assms(2) True] True assms(4) show ?thesis
    by (simp add: validMetricNumber_def number_in_unit_def)
next
  case False
  from own_value_number [OF assms(1) False assms(3)] policy_named [OF assms(2)] assms(2,4) show ?thesis
    by (simp add: value_ok_def validMetricNumber_def)
qed

lemma comparisons_named:
  assumes "validatePeer c = None" and "distinct (map peer_uid ps)" and "c \<in> set ps" and "set qs \<subseteq> set policies"
    and "\<forall>p \<in> set qs. list_all is_finite (comparison_numbers (compared_metric (peers_measured ps) c refs p))"
  shows "list_all2 named_comparison qs (map (compared_metric (peers_measured ps) c refs) qs)"
proof -
  have "named_comparison p (compared_metric (peers_measured ps) c refs p)" if "p \<in> set qs" for p
  proof (cases "mv_State (own_value c (mp_metric p)) = ''available''")
    case True
    then have some: "cp_Candidate (compared_metric (peers_measured ps) c refs p) = Some (mv_Number (own_value c (mp_metric p)))"
      by (simp add: compared_metric_candidate [OF assms(2,3)])
    then have "is_finite (mv_Number (own_value c (mp_metric p)))"
      using assms(5) that by (auto simp: comparison_numbers_def)
    with some candidate_number_valid [OF assms(1) _ True] assms(4) that show ?thesis
      by (auto simp: named_comparison_def)
  qed (simp add: named_comparison_def compared_metric_candidate [OF assms(2,3)])
  then show ?thesis
    by (simp add: list_all2_map2 list_all2_same)
qed

lemma peer_report_checked:
  assumes "accepted_peers N w ps" and "c \<in> set ps" and "window_reported c"
    and "list_all is_finite (concat (map comparison_numbers (pr_Comparisons (peer_reported now ps c))))"
  shows "report_checks N w now (peer_reported now ps c)"
proof -
  have dist: "distinct (map peer_uid ps)" and few: "length ps \<le> MaxPeers" and valid: "validatePeer c = None"
    and obj: "object_ok N (pe_Object c)" "ko_Kind (pe_Object c) = ''Pod''" "ko_Namespace (pe_Object c) = ko_Namespace w"
    using assms(1,2) by (auto simp: accepted_peers_def accepted_peer_def list_all_iff)
  note base = base_peer_valid [OF valid, of "peer_reported now ps c", simplified]
  show ?thesis
  proof (cases "exclusion now c = ''''")
    case True
    note fields = peer_reported_eligible [OF True dist assms(2)]
    have "pe_Lifecycle c \<noteq> ''''"
      using valid by (auto simp: validatePeer_None peer_states_ok_def)
    then have times: "eligible_times_ok now (peer_reported now ps c)"
      by (intro eligible_times [OF True]) (simp_all add: fields)
    have named: "list_all2 named_comparison policies (pr_Comparisons (peer_reported now ps c))"
      unfolding fields(4) by (rule comparisons_named [OF valid dist assms(2)]) (use assms(4) in \<open>auto simp: fields(4) list_all_iff\<close>)
    have "case pr_History (peer_reported now ps c) of None \<Rightarrow> True | Some h \<Rightarrow> window_ok (peer_reported now ps c) h"
      unfolding fields(1) by (auto split: option.split intro: measured_window [OF valid])
    with times named assms(3) have "eligible_report_ok now (peer_reported now ps c)"
      by (auto simp: eligible_report_ok_def delta_ok_def fields(2) window_reported_def)
    with True base obj others_short [OF assms(2) few] show ?thesis
      by (simp add: report_checks_def fields(3,4))
  next
    case False
    with exclusion_valid [OF valid False] base obj show ?thesis
      by (simp add: report_checks_def excluded_report_ok_def peer_reported_excluded first_peer_report_def MaxPeers_def)
  qed
qed

lemma first_error_None: "\<forall>x \<in> set xs. check x = None \<Longrightarrow> first_error check xs = None"
  by (induction xs) auto

lemma report_accepted:
  assumes "accepted_peers N w ps" and "\<forall>p \<in> set ps. window_reported p"
    and "list_all is_finite (concat (map (\<lambda>p. concat (map comparison_numbers (pr_Comparisons p))) (map (peer_reported now ps) ps)))"
  shows "reports_error N w now [] [] (map (peer_reported now ps) ps) = None"
    and "first_error (comparisons_error (map (peer_reported now ps) ps)) (map (peer_reported now ps) ps) = None"
proof -
  have finite: "list_all is_finite (concat (map comparison_numbers (pr_Comparisons (peer_reported now ps c))))" if "c \<in> set ps" for c
    using assms(3) that by (auto simp: list_all_iff)
  have dist: "distinct (map peer_uid ps)" "distinct (map peer_name ps)"
    using assms(1) by (simp_all add: accepted_peers_def)
  show "reports_error N w now [] [] (map (peer_reported now ps) ps) = None"
    by (rule reports_error_None) (use assms(1,2) finite dist peer_report_checked in \<open>auto simp: comp_def\<close>)
  have "comparisons_error (map (peer_reported now ps) ps) (peer_reported now ps c) = None" if "c \<in> set ps" for c
  proof (cases "exclusion now c = ''''")
    case True
    have "validateComparison (map (peer_reported now ps) ps) (peer_reported now ps c)
        (compared_metric (peers_measured ps) c (references_of now ps c) p) = None" if "p \<in> set policies" for p
      by (rule comparison_accepted [OF assms(1) \<open>c \<in> set ps\<close> True that refl])
        (use finite [OF \<open>c \<in> set ps\<close>] that in \<open>auto simp: peer_reported_eligible [OF True dist(1) \<open>c \<in> set ps\<close>] list_all_iff\<close>)
    with True show ?thesis
      by (auto simp: comparisons_error_def peer_reported_eligible [OF True dist(1) \<open>c \<in> set ps\<close>] intro!: first_error_None)
  qed (simp add: comparisons_error_def)
  then show "first_error (comparisons_error (map (peer_reported now ps) ps)) (map (peer_reported now ps) ps) = None"
    by (intro first_error_None) simp
qed

text \<open>What the analysis returns passes the receiver's validation.\<close>

lemma analysed_report_valid:
  assumes "Analyse_replicas L i = Inr r" and "marshals_finite_numbers L" and "\<forall>p \<in> set (ri_Peers i). window_reported p"
  shows "validate_baseline_report L r = None"
proof -
  have input: "validate_replicas (bl_names L) i = None" and r: "r = report_of i" and size_ok: "marshal_error L r = None"
    using assms(1) by (auto simp: Analyse_replicas_def split: option.splits)
  let ?ps = "sort_slice (\<lambda>a b. peer_name a < peer_name b) (ri_Peers i)"
  have peers: "br_Peers r = map (peer_reported (ri_ObservedAt i) ?ps) ?ps"
    by (simp add: r report_of_peers Let_def)
  have "bl_report_bytes L r \<noteq> None"
    using size_ok by (auto simp: marshal_error_def split: option.splits)
  then have finite: "list_all is_finite (report_numbers r)"
    using assms(2) by (simp add: marshals_finite_numbers_def)
  have accepted: "accepted_peers (bl_names L) (ri_Workload i) ?ps"
    using input by (simp add: validate_replicas_None)
  note checks = report_accepted [OF accepted _ finite [unfolded report_numbers_def peers]]
  have "list_all caveat_ok baseline_caveats" and "length baseline_caveats \<le> 8"
    by (simp_all add: baseline_caveats_def caveat_ok_def)
  moreover have "br_SchemaVersion r = 1" "br_PolicyVersion r = 1" "br_Workload r = ri_Workload i" "br_ObservedAt r = ri_ObservedAt i"
    "br_Caveats r = baseline_caveats" "length (br_Peers r) \<le> MaxPeers"
    using accepted by (simp_all add: r report_of_def Let_def accepted_peers_def)
  ultimately show ?thesis
    using checks assms(3) input size_ok by (simp add: validate_baseline_report_def validate_replicas_None peers)
qed

lemma analysis_order_free:
  assumes "Analyse_replicas L i = Inr r" and "mset (ri_Peers j) = mset (ri_Peers i)" and "ri_Workload j = ri_Workload i"
    and "ri_ObservedAt j = ri_ObservedAt i"
  shows "Analyse_replicas L j = Inr r"
proof -
  have i: "validate_replicas (bl_names L) i = None" and r: "marshal_error L (report_of i) = None" "r = report_of i"
    using assms(1) by (auto simp: Analyse_replicas_def split: option.splits)
  have j: "validate_replicas (bl_names L) j = None"
    using i accepted_peers_perm [OF assms(2)] assms(3,4) by (simp add: validate_replicas_None)
  then have "distinct (map peer_name (ri_Peers j))"
    by (simp add: validate_replicas_None accepted_peers_def)
  from report_of_perm [OF assms(2) this assms(3,4)] r j show ?thesis
    by (simp add: Analyse_replicas_def)
qed

end
