(* ===== verification/Replica_Evidence.thy ===== *)
theory Replica_Evidence
  imports Replica_Report Store_Run
begin

text \<open>
  The collector as the source of replica evidence: the resolved selection (\<open>replicabaseline/source.go\<close>) with its validation
  (\<open>selection.go\<close>), the projection of stored snapshots (\<open>collector/replica_baselines.go\<close>) and the measurements of one Pod
  (\<open>replica_values.go\<close>). The hash of a measured shape is a parameter like that of a fingerprint; \<open>canceled\<close> tells of each
  round of the loop whether the request context has ended.

  The lemmas: a delta window is reported only where its span has been checked, and a peer has measurements only when its
  Node is the one the selection has resolved.
\<close>

subsection \<open>Selections\<close>

record replica_container =
  rk_Name :: string
  rk_Role :: string
  rk_ID :: string
  rk_ImageDigest :: string
  rk_StartedAt :: time
  rk_EndedAt :: time
  rk_Configured :: memory_resource_budget
  rk_Resources :: container_memory_resources

record replica_member =
  me_Object :: kube_object
  me_Owners :: "kube_object list"
  me_Node :: string
  me_NodeUID :: string
  me_Revision :: string
  me_Shape :: string
  me_Lifecycle :: string
  me_StableSince :: time
  me_Changes :: string
  me_PodBudget :: memory_resource_budget
  me_Containers :: "replica_container list"

record replica_selection =
  se_Request :: mh_request
  se_Requested :: kube_object
  se_Workload :: kube_object
  se_Generation :: int
  se_ResolvedAt :: time
  se_EventState :: string
  se_EventsTruncated :: bool
  se_Members :: "replica_member list"

definition selection_head_ok :: "kube_names \<Rightarrow> replica_selection \<Rightarrow> bool" where
  "selection_head_ok N s \<longleftrightarrow>
    (let rq = se_Request s; requested = se_Requested s; w = se_Workload s
     in request_Validate N rq = None \<and> re_Scope rq \<in> {''pod'', ''workload''} \<and> object_ok N requested \<and> object_ok N w \<and>
       ko_Kind w \<noteq> ''Pod'' \<and> ko_Namespace requested = re_Namespace rq \<and> ko_Name requested = mh_request.re_Name rq \<and>
       ko_Namespace w = re_Namespace rq \<and> \<not> se_Generation s < 0 \<and> \<not> is_zero_time (se_ResolvedAt s) \<and>
       \<not> (re_Scope rq = ''pod'' \<and> ko_Kind requested \<noteq> ''Pod'') \<and>
       \<not> (re_Scope rq = ''workload'' \<and> ko_Kind requested \<noteq> re_WorkloadKind rq))"

definition member_ok :: "kube_names \<Rightarrow> kube_object \<Rightarrow> replica_member \<Rightarrow> bool" where
  "member_ok N w m \<longleftrightarrow> object_ok N (me_Object m) \<and> ko_Kind (me_Object m) = ''Pod'' \<and> ko_Namespace (me_Object m) = ko_Namespace w \<and>
    length (me_Containers m) \<le> MaxReplicaContainers \<and> me_Owners m \<noteq> [] \<and> last (me_Owners m) = w \<and>
    list_all (\<lambda>owner. object_ok N owner \<and> ko_Namespace owner = ko_Namespace w) (me_Owners m)"

fun members_ok :: "kube_names \<Rightarrow> kube_object \<Rightarrow> string list \<Rightarrow> string list \<Rightarrow> replica_member list \<Rightarrow> bool" where
  "members_ok N w seen names [] = True"
| "members_ok N w seen names (m # ms) =
    (ko_UID (me_Object m) \<notin> set seen \<and> ko_Name (me_Object m) \<notin> set names \<and> member_ok N w m \<and>
     members_ok N w (ko_UID (me_Object m) # seen) (ko_Name (me_Object m) # names) ms)"

definition selection_error :: "kube_names \<Rightarrow> replica_selection \<Rightarrow> baseline_error option" where
  "selection_error N s =
    (if \<not> selection_head_ok N s then Some BaseInvalid
     else if length (se_Members s) > MaxPeers then Some BaseBounds
     else if \<not> members_ok N (se_Workload s) [] [] (se_Members s) then Some BaseInvalid
     else if re_Scope (se_Request s) = ''workload'' \<or> list_ex (\<lambda>m. me_Object m = se_Requested s) (se_Members s) then None
     else Some BaseScope)"

subsection \<open>Measurements of one Pod\<close>

text \<open>\<open>add\<close>: a total that would not fit is left as it is and \<open>valid\<close> is cleared.\<close>

definition add_total :: "u64 \<Rightarrow> u64 \<times> bool \<Rightarrow> u64 \<times> bool" where
  "add_total n acc = (case acc of (t, valid) \<Rightarrow> if - 1 - t < n then (t, False) else (t + n, valid))"

definition total_of :: "(memory_breakdown \<Rightarrow> u64) \<Rightarrow> container_snapshot list \<Rightarrow> u64 \<times> bool" where
  "total_of f cs = fold (\<lambda>c. add_total (f (cs_Memory c))) cs (0, True)"

definition largest_of :: "(memory_breakdown \<Rightarrow> f64) \<Rightarrow> container_snapshot list \<Rightarrow> f64" where
  "largest_of f cs = fold (\<lambda>c v. f64_max v (f (cs_Memory c))) cs f64_zero"

definition rate_of :: "(memory_breakdown \<Rightarrow> u64) \<Rightarrow> container_snapshot list \<Rightarrow> f64" where
  "rate_of f cs = fold (\<lambda>c v. f64_plus v (f64_of_u64 (f (cs_Memory c)))) cs f64_zero"

definition limited_memory :: "memory_breakdown \<Rightarrow> bool" where
  "limited_memory m \<longleftrightarrow> MaxKnown m \<and> \<not> MaxUnlimited m \<and> MaxBytes m > 0"

definition limit_usage :: "container_snapshot list \<Rightarrow> f64" where
  "limit_usage cs = fold (\<lambda>c v. let m = cs_Memory c
     in if limited_memory m then f64_max v (f64_div (f64_of_u64 (TotalBytes m)) (f64_of_u64 (MaxBytes m))) else v) cs f64_zero"

definition rates_reported :: "time \<Rightarrow> container_snapshot \<Rightarrow> bool" where
  "rates_reported start c \<longleftrightarrow> LocalEventsKnown (cs_Memory c) \<and> LocalEventDeltasKnown (cs_Memory c) \<and> cs_DeltaWindowKnown c \<and>
    cs_DeltaStartedAt c = start"

definition rates_known :: "container_snapshot list \<Rightarrow> time \<Rightarrow> bool" where
  "rates_known cs t \<longleftrightarrow>
    (let start = cs_DeltaStartedAt (hd cs); span = time_sub t start
     in \<not> is_zero_time start \<and> span > 0 \<and> span \<le> FreshFor \<and> list_all (rates_reported start) cs)"

type_synonym metric_values = "(string, metric_value) gomap"

definition put_available :: "string \<Rightarrow> f64 \<Rightarrow> metric_values \<Rightarrow> metric_values" where
  "put_available metric number values = mput metric \<lparr>mv_State = ''available'', mv_Number = number\<rparr> values"

text \<open>A component of the charge that every container reports as positive and that does not exceed the charge.\<close>

definition put_fraction ::
  "container_snapshot list \<Rightarrow> u64 \<Rightarrow> string \<times> (memory_breakdown \<Rightarrow> u64) \<Rightarrow> metric_values \<Rightarrow> metric_values" where
  "put_fraction cs charge part values =
    (case part of (metric, f) \<Rightarrow> let bytes = fst (total_of f cs)
     in if list_all (\<lambda>c. f (cs_Memory c) > 0) cs \<and> charge > 0 \<and> bytes \<le> charge
        then put_available metric (f64_div (f64_of_u64 bytes) (f64_of_u64 charge)) values else values)"

definition composition_parts :: "(string \<times> (memory_breakdown \<Rightarrow> u64)) list" where
  "composition_parts = [(''anon-fraction'', AnonBytes), (''file-cache-fraction'', FileCacheBytes), (''shmem-fraction'', ShmemBytes),
     (''kernel-fraction'', KernelBytes)]"

definition rate_parts :: "(string \<times> (memory_breakdown \<Rightarrow> u64)) list" where
  "rate_parts = [(''oom-events-per-second'', LocalOOMEventsDelta), (''oom-kill-events-per-second'', LocalOOMKillEventsDelta),
     (''high-events-per-second'', LocalHighEventsDelta), (''max-events-per-second'', LocalMaxEventsDelta)]"

definition totals_valid :: "container_snapshot list \<Rightarrow> bool" where
  "totals_valid cs \<longleftrightarrow>
    list_all (\<lambda>f. snd (total_of f cs)) [TotalBytes, AnonBytes, FileCacheBytes, ShmemBytes, KernelBytes, SwapCurrentBytes]"

text \<open>The metrics that are not rates, in the order in which they are put into the map.\<close>

definition put_pressure :: "container_snapshot list \<Rightarrow> metric_values \<Rightarrow> metric_values" where
  "put_pressure cs values =
    (if list_all (\<lambda>c. PressureKnown (cs_Memory c)) cs
     then put_available ''maximum-container-psi-full'' (largest_of PSIFullAvg10 cs)
       (put_available ''maximum-container-psi-some'' (largest_of PSISomeAvg10 cs) values)
     else values)"

definition level_values :: "container_snapshot list \<Rightarrow> metric_values" where
  "level_values cs =
    (let charge = fst (total_of TotalBytes cs);
         v0 = put_available ''cgroup-charge'' (f64_of_u64 charge) [];
         v1 = fold (put_fraction cs charge) composition_parts v0;
         v2 = (if list_all (\<lambda>c. SwapCurrentKnown (cs_Memory c)) cs
           then put_available ''swap-bytes'' (f64_of_u64 (fst (total_of SwapCurrentBytes cs))) v1 else v1);
         v3 = put_pressure cs v2
     in if list_all (\<lambda>c. limited_memory (cs_Memory c)) cs then put_available ''limit-usage'' (limit_usage cs) v3 else v3)"

text \<open>\<open>containers[0]\<close> is there: \<open>replicaContainers\<close> gives a complete result only when it is not empty.\<close>

definition replicaValues :: "container_snapshot list \<Rightarrow> time \<Rightarrow> metric_values \<times> time" where
  "replicaValues cs t =
    (if \<not> totals_valid cs then ([], 0)
     else if \<not> rates_known cs t then (level_values cs, 0)
     else
       (let start = cs_DeltaStartedAt (hd cs)
        in (fold (\<lambda>(metric, f). put_available metric (f64_div (rate_of f cs) (duration_seconds (time_sub t start)))) rate_parts
              (level_values cs), start)))"

subsection \<open>Projection of the stored snapshots\<close>

definition configured_of :: "container_context \<Rightarrow> memory_resource_budget" where
  "configured_of got = \<lparr>mb_Request = \<lparr>rv_Bytes = cc_MemoryRequestBytes got, rv_Known = cc_MemoryRequestKnown got\<rparr>,
     mb_Limit = \<lparr>rv_Bytes = cc_MemoryLimitBytes got, rv_Known = cc_MemoryLimitKnown got\<rparr>\<rparr>"

definition replicaResourcesMatch :: "replica_container \<Rightarrow> container_context \<Rightarrow> bool" where
  "replicaResourcesMatch wanted got =
    (let configured = configured_of got; actual = cc_Resources got; w = rk_Resources wanted
     in if configured \<noteq> rk_Configured wanted then False
        else if \<not> cr_IsZero actual then
          pr_Configured (cr_Pod actual) = pr_Configured (cr_Pod w) \<and> pr_AllocatedRequest (cr_Pod actual) = pr_AllocatedRequest (cr_Pod w) \<and>
          pr_Applied (cr_Pod actual) = pr_Applied (cr_Pod w) \<and> cr_AllocatedRequest actual = cr_AllocatedRequest w \<and>
          cr_Applied actual = cr_Applied w
        else
          pr_Configured (cr_Pod w) = mb_zero \<and>
          (\<not> rv_Known (mb_Limit (cr_Applied w)) \<or> mb_Limit (cr_Applied w) = mb_Limit configured) \<and>
          (\<not> rv_Known (mb_Request (cr_Applied w)) \<or> mb_Request (cr_Applied w) = mb_Request configured) \<and>
          (\<not> rv_Known (cr_AllocatedRequest w) \<or> cr_AllocatedRequest w = mb_Request configured))"

text \<open>The containers that contribute to the current charge, by name; \<open>None\<close> is the early return.\<close>

fun expected_containers ::
  "time \<Rightarrow> (string, replica_container) gomap \<Rightarrow> replica_container list \<Rightarrow> (string, replica_container) gomap option" where
  "expected_containers captured m [] = Some m"
| "expected_containers captured m (c # cs) =
    (if \<not> is_zero_time (rk_EndedAt c) then expected_containers captured m cs
     else if rk_ID c = '''' \<or> is_zero_time (rk_StartedAt c) \<or> rk_StartedAt c > captured then None
     else expected_containers captured (mput (rk_Name c) c m) cs)"

definition of_member :: "replica_member \<Rightarrow> container_snapshot \<Rightarrow> bool" where
  "of_member m c \<longleftrightarrow> cs_Namespace c = ko_Namespace (me_Object m) \<and> cs_PodName c = ko_Name (me_Object m) \<and> cs_PodUID c = ko_UID (me_Object m)"

definition wanted_matches :: "replica_container option \<Rightarrow> container_snapshot \<Rightarrow> bool" where
  "wanted_matches wanted c = (case wanted of None \<Rightarrow> False
     | Some w \<Rightarrow> cs_ContainerID c = rk_ID w \<and> cs_Completeness c \<noteq> EvidencePartial \<and> replicaResourcesMatch w (cs_Context c))"

text \<open>The result is the containers that were found and what is left of the expected ones.\<close>

fun matched_containers ::
  "replica_member \<Rightarrow> (string, replica_container) gomap \<Rightarrow> container_snapshot list \<Rightarrow>
   (container_snapshot list \<times> (string, replica_container) gomap) option" where
  "matched_containers m expected [] = Some ([], expected)"
| "matched_containers m expected (c # cs) =
    (if \<not> of_member m c then matched_containers m expected cs
     else if \<not> wanted_matches (mget expected (cs_ContainerName c)) c then None
     else map_option (\<lambda>(found, left). (c # found, left)) (matched_containers m (mdel (cs_ContainerName c) expected) cs))"

definition replicaContainers :: "replica_member \<Rightarrow> node_snapshot \<Rightarrow> container_snapshot list option" where
  "replicaContainers m node =
    (if nodeCompleteness node \<noteq> EvidenceComplete then None
     else if me_Containers m = [] \<or> length (me_Containers m) > MaxReplicaContainers then None
     else case expected_containers (sn_capturedAt node) [] (me_Containers m) of None \<Rightarrow> None
      | Some expected \<Rightarrow>
        (case matched_containers m expected (sn_containers node) of None \<Rightarrow> None
         | Some (found, left) \<Rightarrow> if mlen left = 0 \<and> found \<noteq> [] then Some found else None))"

type_synonym shape_hash = "string \<Rightarrow> replica_enforcement list \<Rightarrow> string"

definition replicaMeasuredShape :: "shape_hash \<Rightarrow> string \<Rightarrow> container_snapshot list \<Rightarrow> string" where
  "replicaMeasuredShape H metadata cs =
    (if metadata = '''' then ''''
     else H metadata (sort_slice (\<lambda>a b. replica_enforcement.re_Name a < replica_enforcement.re_Name b) (map enforcement cs)))"

text \<open>The loop over the retained points; \<open>None\<close> is the early return with the history dropped.\<close>

fun history_points :: "time \<Rightarrow> time \<Rightarrow> charge_point list \<Rightarrow> history_point list \<Rightarrow> charge_point list option" where
  "history_points cutoff captured kept [] = Some kept"
| "history_points cutoff captured kept (p # ps) =
    (if hp_CapturedAt p < cutoff \<or> hp_CapturedAt p > captured then history_points cutoff captured kept ps
     else if length kept = MaxHistoryPoints_replica then None
     else history_points cutoff captured (kept @ [\<lparr>cq_At = hp_CapturedAt p, cq_Bytes = hp_TotalBytes p\<rparr>]) ps)"

definition with_history :: "replica_peer \<Rightarrow> replica_continuity \<Rightarrow> time \<Rightarrow> history_point list \<Rightarrow> replica_peer" where
  "with_history peer continuity captured points =
    (let stable = (if rc_since continuity > pe_StableSince peer then rc_since continuity else pe_StableSince peer);
         back = captured - HistoryLookback;
         cutoff = (if stable > back then stable else back);
         peer1 = peer\<lparr>pe_StableSince := stable, pe_HistoryState := ''available''\<rparr>
     in case history_points cutoff captured (pe_History peer) points of
          None \<Rightarrow> peer1\<lparr>pe_History := [], pe_HistoryState := ''partial''\<rparr>
        | Some kept \<Rightarrow> peer1\<lparr>pe_History := kept\<rparr>)"

definition replicaHistory ::
  "fingerprint_hash \<Rightarrow> history_store \<Rightarrow> replica_peer \<Rightarrow> replica_member \<Rightarrow> node_snapshot \<Rightarrow> container_snapshot list \<Rightarrow> replica_peer" where
  "replicaHistory H h peer m node cs =
    (let key = historyKey (ko_Namespace (me_Object m)) (ko_Name (me_Object m)) (ko_UID (me_Object m)) (me_Node m)
     in case (mget (hs_coverage h) key, mget (hs_series h) key) of
          (Some coverage, Some series) \<Rightarrow>
            if rc_fingerprint (cov_replica coverage) \<noteq> replicaFingerprint H (sn_uid node) cs \<or> is_zero_time (rc_since (cov_replica coverage))
            then peer else with_history peer (cov_replica coverage) (sn_capturedAt node) (ph_Points series)
        | _ \<Rightarrow> peer)"

definition first_peer :: "replica_selection \<Rightarrow> replica_member \<Rightarrow> replica_peer" where
  "first_peer selection m = \<lparr>pe_Object = me_Object m, pe_WorkloadUID = ko_UID (se_Workload selection), pe_Revision = me_Revision m,
     pe_Shape = me_Shape m, pe_Lifecycle = me_Lifecycle m, pe_SampleState = ''unreported'', pe_HistoryState = ''unreported'',
     pe_CapturedAt = 0, pe_StableSince = me_StableSince m, pe_DeltaStartedAt = 0, pe_Changes = me_Changes m, pe_Values = [], pe_History = []\<rparr>"

record evidence_hashes =
  eh_fingerprint :: fingerprint_hash
  eh_shape :: shape_hash

definition measured_peer ::
  "evidence_hashes \<Rightarrow> history_store \<Rightarrow> time \<Rightarrow> replica_peer \<Rightarrow> replica_member \<Rightarrow> node_snapshot \<Rightarrow> container_snapshot list \<Rightarrow> replica_peer" where
  "measured_peer H h now peer m node cs =
    (let (values, start) = replicaValues cs (sn_capturedAt node);
         peer1 = peer\<lparr>pe_SampleState := (if time_sub now (sn_capturedAt node) > FreshFor then ''stale'' else ''available''),
           pe_Shape := replicaMeasuredShape (eh_shape H) (me_Shape m) cs, pe_Values := values, pe_DeltaStartedAt := start\<rparr>
     in replicaHistory (eh_fingerprint H) h peer1 m node cs)"

definition member_peer :: "evidence_hashes \<Rightarrow> store \<Rightarrow> replica_selection \<Rightarrow> time \<Rightarrow> replica_member \<Rightarrow> replica_peer" where
  "member_peer H s selection now m =
    (let peer = first_peer selection m
     in case mget (st_nodes s) (me_Node m) of None \<Rightarrow> peer
      | Some node \<Rightarrow>
        if me_NodeUID m = '''' \<or> sn_uid node \<noteq> me_NodeUID m then peer
        else let peer1 = peer\<lparr>pe_CapturedAt := sn_capturedAt node\<rparr>
         in case replicaContainers m node of None \<Rightarrow> peer1\<lparr>pe_SampleState := ''partial''\<rparr>
          | Some cs \<Rightarrow> measured_peer H (st_history s) now peer1 m node cs)"

text \<open>The loop over the members; \<open>canceled n\<close> is whether the context has ended at round \<open>n\<close>.\<close>

datatype evidence_error = EvidenceFailed baseline_error | EvidenceCanceled

fun members_peers ::
  "evidence_hashes \<Rightarrow> store \<Rightarrow> replica_selection \<Rightarrow> time \<Rightarrow> (nat \<Rightarrow> bool) \<Rightarrow> nat \<Rightarrow> replica_member list \<Rightarrow>
   evidence_error + replica_peer list" where
  "members_peers H s selection now canceled n [] = Inr []"
| "members_peers H s selection now canceled n (m # ms) =
    (if canceled n then Inl EvidenceCanceled
     else if ko_Namespace (me_Object m) \<noteq> ko_Namespace (se_Workload selection) then Inl (EvidenceFailed BaseScope)
     else case members_peers H s selection now canceled (Suc n) ms of Inl e \<Rightarrow> Inl e
      | Inr ps \<Rightarrow> Inr (member_peer H s selection now m # ps))"

definition ReplicaEvidence ::
  "kube_names \<Rightarrow> evidence_hashes \<Rightarrow> (nat \<Rightarrow> bool) \<Rightarrow> replica_selection \<Rightarrow> time \<Rightarrow> store \<Rightarrow> evidence_error + replica_input" where
  "ReplicaEvidence N H canceled selection now s =
    (if \<not> object_ok N (se_Workload selection) \<or> length (se_Members selection) > MaxPeers then Inl (EvidenceFailed BaseInvalid)
     else map_sum id (\<lambda>ps. \<lparr>ri_Workload = se_Workload selection, ri_ObservedAt = now, ri_Peers = ps\<rparr>)
       (members_peers H s selection now canceled 0 (se_Members selection)))"

subsection \<open>Lemmas\<close>

lemma members_peers_Inr:
  "members_peers H s selection now canceled n ms = Inr ps \<Longrightarrow> ps = map (member_peer H s selection now) ms"
  by (induction ms arbitrary: n ps) (auto split: if_splits sum.splits)

lemma ReplicaEvidence_peers:
  "ReplicaEvidence N H canceled selection now s = Inr i \<Longrightarrow>
    ri_Workload i = se_Workload selection \<and> ri_ObservedAt i = now \<and>
    ri_Peers i = map (member_peer H s selection now) (se_Members selection)"
  unfolding ReplicaEvidence_def
  by (cases "members_peers H s selection now canceled 0 (se_Members selection)") (auto dest: members_peers_Inr split: if_splits)

text \<open>A start of a delta window is reported only where its span has been checked.\<close>

lemma replicaValues_start:
  "snd (replicaValues cs t) = 0 \<or> 0 < time_sub t (snd (replicaValues cs t)) \<and> time_sub t (snd (replicaValues cs t)) \<le> FreshFor"
  by (auto simp: replicaValues_def rates_known_def Let_def)

lemma replicaHistory_keeps [simp]:
  "pe_DeltaStartedAt (replicaHistory H h peer m node cs) = pe_DeltaStartedAt peer"
  "pe_CapturedAt (replicaHistory H h peer m node cs) = pe_CapturedAt peer"
  "pe_Values (replicaHistory H h peer m node cs) = pe_Values peer"
  "pe_SampleState (replicaHistory H h peer m node cs) = pe_SampleState peer"
  by (simp_all add: replicaHistory_def with_history_def Let_def split: option.split)

lemma member_peer_window: "window_reported (member_peer H s selection now m)"
  using replicaValues_start
  by (auto simp: member_peer_def window_reported_def first_peer_def measured_peer_def Let_def split: option.split prod.split)
    (metis replicaValues_start snd_conv)+

end
