(* ===== verification/Replica_Properties.thy ===== *)
theory Replica_Properties
  imports Replica_Evidence
begin

text \<open>
  The properties of replica comparisons across the two packages: a Pod is measured over exactly the containers the
  selection has resolved for it, the collector's evidence always yields a report that the receiver's validation accepts, and the
  report does not depend on the order of the peers.
\<close>

subsection \<open>The containers of a member\<close>

lemma expected_containers_put:
  assumes "expected_containers t m cs = Some e" and "mwf m" and "\<And>n w. mget m n = Some w \<Longrightarrow> Q n w"
    and "\<And>c. c \<in> set cs \<Longrightarrow> is_zero_time (rk_EndedAt c) \<Longrightarrow> Q (rk_Name c) c"
  shows "mwf e \<and> (\<forall>n w. mget e n = Some w \<longrightarrow> Q n w)"
  using assms
proof (induction cs arbitrary: m)
  case (Cons c cs)
  show ?case
  proof (cases "is_zero_time (rk_EndedAt c)")
    case True
    with Cons.prems(1) have next_map: "expected_containers t (mput (rk_Name c) c m) cs = Some e"
      by (simp split: if_splits)
    show ?thesis
    proof (rule Cons.IH [OF next_map])
      show "mwf (mput (rk_Name c) c m)"
        by (rule mwf_mput) (rule Cons.prems(2))
      show "Q n w" if "mget (mput (rk_Name c) c m) n = Some w" for n w
        using that Cons.prems(3) [of n w] Cons.prems(4) [OF _ True] by (auto simp: mget_mput split: if_splits)
    qed (rule Cons.prems(4), simp_all)
  next
    case False
    with Cons.prems(1) have same: "expected_containers t m cs = Some e"
      by simp
    show ?thesis
      by (rule Cons.IH [OF same Cons.prems(2)]) (erule Cons.prems(3), rule Cons.prems(4), simp_all)
  qed
qed simp

lemma matched_all:
  assumes "matched_containers m e cs = Some (found, left)" and "mwf e"
  shows "found = filter (of_member m) cs \<and> distinct (map cs_ContainerName found) \<and> mwf left \<and>
    (\<forall>c \<in> set found. wanted_matches (mget e (cs_ContainerName c)) c) \<and>
    dom (mget left) = dom (mget e) - cs_ContainerName ` set found"
  using assms
proof (induction cs arbitrary: e found left)
  case (Cons c cs)
  show ?case
  proof (cases "of_member m c")
    case False
    with Cons show ?thesis
      by simp
  next
    case True
    with Cons.prems obtain found' where wanted: "wanted_matches (mget e (cs_ContainerName c)) c"
      and rest: "matched_containers m (mdel (cs_ContainerName c) e) cs = Some (found', left)" and found: "found = c # found'"
      by (auto split: if_splits)
    from Cons.IH [OF rest] Cons.prems(2)
    have ih: "found' = filter (of_member m) cs" "distinct (map cs_ContainerName found')" "mwf left"
      "\<forall>d \<in> set found'. wanted_matches (mget (mdel (cs_ContainerName c) e) (cs_ContainerName d)) d"
      "dom (mget left) = dom (mget (mdel (cs_ContainerName c) e)) - cs_ContainerName ` set found'"
      by (auto simp: mwf_mdel)
    have "cs_ContainerName d \<noteq> cs_ContainerName c \<and> wanted_matches (mget e (cs_ContainerName d)) d" if "d \<in> set found'" for d
      using ih(4) that by (auto simp: mget_mdel wanted_matches_def split: if_splits)
    moreover from this have "cs_ContainerName c \<notin> cs_ContainerName ` set found'"
      by (metis imageE)
    ultimately show ?thesis
      using ih(1-3,5) wanted True found by (simp add: dom_mdel) blast
  qed
qed simp

definition resolved :: "replica_member \<Rightarrow> container_snapshot \<Rightarrow> bool" where
  "resolved m c \<longleftrightarrow> (\<exists>w \<in> set (me_Containers m). is_zero_time (rk_EndedAt w) \<and> rk_Name w = cs_ContainerName c \<and>
    rk_ID w = cs_ContainerID c \<and> replicaResourcesMatch w (cs_Context c))"

lemma expected_names:
  "expected_containers t m cs = Some e \<Longrightarrow> dom (mget e) = dom (mget m) \<union> rk_Name ` {c \<in> set cs. is_zero_time (rk_EndedAt c)}"
  by (induction cs arbitrary: m) (auto simp: dom_mput split: if_splits)

lemma replicaContainers_exact:
  assumes "replicaContainers m node = Some cs"
  shows "cs = filter (of_member m) (sn_containers node) \<and> cs \<noteq> [] \<and> nodeCompleteness node = EvidenceComplete \<and>
    distinct (map cs_ContainerName cs) \<and> (\<forall>c \<in> set cs. resolved m c \<and> cs_Completeness c \<noteq> EvidencePartial) \<and>
    cs_ContainerName ` set cs = rk_Name ` {w \<in> set (me_Containers m). is_zero_time (rk_EndedAt w)}"
proof -
  from assms obtain e left where complete: "nodeCompleteness node = EvidenceComplete"
    and e: "expected_containers (sn_capturedAt node) [] (me_Containers m) = Some e"
    and found: "matched_containers m e (sn_containers node) = Some (cs, left)" and empty: "mlen left = 0" "cs \<noteq> []"
    by (auto simp: replicaContainers_def split: if_splits option.splits prod.splits)
  have named: "mwf e" "\<forall>n w. mget e n = Some w \<longrightarrow> rk_Name w = n \<and> is_zero_time (rk_EndedAt w) \<and> w \<in> set (me_Containers m)"
    using expected_containers_put [OF e, of "\<lambda>n w. rk_Name w = n \<and> is_zero_time (rk_EndedAt w) \<and> w \<in> set (me_Containers m)"]
    by simp_all
  note all = matched_all [OF found named(1)]
  have "dom (mget left) = {}"
    using empty(1) by (simp add: mlen_def dom_mget)
  then have "rk_Name ` {w \<in> set (me_Containers m). is_zero_time (rk_EndedAt w)} \<subseteq> cs_ContainerName ` set cs"
    using all expected_names [OF e] by auto
  moreover have res: "\<forall>c \<in> set cs. resolved m c \<and> cs_Completeness c \<noteq> EvidencePartial"
    using all named(2) by (fastforce simp: resolved_def wanted_matches_def split: option.splits)
  moreover from res have "cs_ContainerName ` set cs \<subseteq> rk_Name ` {w \<in> set (me_Containers m). is_zero_time (rk_EndedAt w)}"
    unfolding resolved_def by (smt (verit) imageE imageI mem_Collect_eq subsetI)
  ultimately show ?thesis
    using all complete empty(2) by (intro conjI subset_antisym; blast)
qed

text \<open>
  C8. Replica evidence is measured over resolved contributors only. A peer of the collected input is the peer of one member, in the
  members' order; it carries measurements only when the store holds a complete snapshot of the Node the selection has
  resolved, with the resolved Node UID. The measurements are then those of exactly the stored containers of that Pod, whose
  names are pairwise different and are the names of the member's running containers, each with the resolved container ID
  and resources.
\<close>

theorem replica_evidence_resolved:
  assumes "ReplicaEvidence N H canceled selection now s = Inr i"
  shows "map pe_Object (ri_Peers i) = map me_Object (se_Members selection) \<and>
    (\<forall>m \<in> set (se_Members selection). let p = member_peer H s selection now m in p \<in> set (ri_Peers i) \<and>
      (pe_Values p \<noteq> [] \<longrightarrow>
        (\<exists>node. mget (st_nodes s) (me_Node m) = Some node \<and> sn_uid node = me_NodeUID m \<and> me_NodeUID m \<noteq> '''' \<and>
          pe_CapturedAt p = sn_capturedAt node \<and> nodeCompleteness node = EvidenceComplete \<and>
          (let cs = filter (of_member m) (sn_containers node)
           in cs \<noteq> [] \<and> pe_Values p = fst (replicaValues cs (sn_capturedAt node)) \<and> distinct (map cs_ContainerName cs) \<and>
             list_all (resolved m) cs \<and>
             cs_ContainerName ` set cs = rk_Name ` {w \<in> set (me_Containers m). is_zero_time (rk_EndedAt w)}))))"
proof -
  have objects: "pe_Object (member_peer H s selection now m) = me_Object m" for m
    by (auto simp: member_peer_def measured_peer_def first_peer_def replicaHistory_def with_history_def Let_def split: option.split prod.split)
  have no_values: "pe_Values (first_peer selection m) = []" for m
    by (simp add: first_peer_def)
  have measured: "\<exists>node. mget (st_nodes s) (me_Node m) = Some node \<and> sn_uid node = me_NodeUID m \<and> me_NodeUID m \<noteq> '''' \<and>
      pe_CapturedAt p = sn_capturedAt node \<and> (\<exists>cs. replicaContainers m node = Some cs \<and> pe_Values p = fst (replicaValues cs (sn_capturedAt node)))"
    if "p = member_peer H s selection now m" "pe_Values p \<noteq> []" for p m
    using that no_values
    by (auto simp: member_peer_def measured_peer_def Let_def split: option.splits prod.splits if_splits)
  have "let cs = filter (of_member m) (sn_containers node)
      in cs \<noteq> [] \<and> distinct (map cs_ContainerName cs) \<and> list_all (resolved m) cs \<and> replicaContainers m node = Some cs \<and>
        nodeCompleteness node = EvidenceComplete \<and>
        cs_ContainerName ` set cs = rk_Name ` {w \<in> set (me_Containers m). is_zero_time (rk_EndedAt w)}"
    if "replicaContainers m node = Some cs" for m node cs
    using replicaContainers_exact [OF that] that unfolding Let_def list_all_iff by metis
  with measured ReplicaEvidence_peers [OF assms] objects show ?thesis
    unfolding Let_def by (fastforce simp: comp_def)
qed

subsection \<open>The report\<close>

text \<open>
  C7. The report of the collector's evidence passes the receiver's validation. When the evidence the collector projects from its store is
  analysed into a report, \<open>Report.Validate\<close> accepts that report: every distribution, difference, score, outlier label and
  confidence is recomputed from the values the named references report, every comparison accounts for every other peer
  once, and every window lies in its bounds. The hypothesis is that \<open>json.Marshal\<close> refuses infinities and NaN.
\<close>

theorem collected_report_validates:
  assumes "marshals_finite_numbers L" and "ReplicaEvidence N H canceled selection now s = Inr i" and "Analyse_replicas L i = Inr r"
  shows "validate_baseline_report L r = None"
proof (rule analysed_report_valid [OF assms(3,1)])
  show "\<forall>p \<in> set (ri_Peers i). window_reported p"
    using ReplicaEvidence_peers [OF assms(2)] member_peer_window by auto
qed

text \<open>
  C29. The order of the peers plays no role. An input that lists the same peers in another order is analysed into the same report.
\<close>

theorem replica_order_irrelevant:
  assumes "Analyse_replicas L i = Inr r" and "mset peers = mset (ri_Peers i)"
  shows "Analyse_replicas L (i\<lparr>ri_Peers := peers\<rparr>) = Inr r"
  by (rule analysis_order_free [OF assms(1)]) (simp_all add: assms(2))

subsection \<open>A workload of five Pods\<close>

text \<open>One Node holds a container of each Pod; the charge of the last Pod is far above that of the others.\<close>

definition demo_time :: time where
  "demo_time = 1000 * second"

definition demo_workload :: kube_object where
  "demo_workload = \<lparr>ko_APIVersion = ''apps/v1'', ko_Kind = ''Deployment'', ko_Namespace = ''shop'', ko_Name = ''web'', ko_UID = ''w''\<rparr>"

definition demo_pod :: "string \<Rightarrow> kube_object" where
  "demo_pod name = \<lparr>ko_APIVersion = ''v1'', ko_Kind = ''Pod'', ko_Namespace = ''shop'', ko_Name = name, ko_UID = ''u'' @ name\<rparr>"

definition demo_container :: "string \<times> u64 \<Rightarrow> container_snapshot" where
  "demo_container p = container_zero\<lparr>cs_Namespace := ''shop'', cs_PodName := fst p, cs_PodUID := ''u'' @ fst p, cs_ContainerName := ''app'',
     cs_ContainerID := ''c'' @ fst p, cs_Memory := memory_zero\<lparr>TotalBytes := snd p\<rparr>\<rparr>"

definition demo_charges :: "(string \<times> u64) list" where
  "demo_charges = [(''a'', 1048576), (''b'', 1048576), (''c'', 2097152), (''d'', 1048576), (''e'', 67108864)]"

definition demo_node :: node_snapshot where
  "demo_node = \<lparr>sn_uid = ''n1-uid'', sn_capturedAt = demo_time,
     sn_environment = env_zero\<lparr>env_NodeContextAvailable := True, env_WorkloadContextAvailable := True\<rparr>,
     sn_containers = map demo_container demo_charges\<rparr>"

definition demo_store :: store where
  "demo_store = \<lparr>st_nodes = [(''n1'', demo_node)], st_ingestionResults = [], st_lastIngestionDuration = 0,
     st_history = newHistoryStore small_options 1, st_limits = DefaultStoreLimits, st_containerCount = 5,
     st_startedAt = 1, st_firstSnapshotAt = demo_time, st_lastSnapshotAt = demo_time, st_lastReceivedAt = demo_time,
     st_transitionedAt = 1, st_state = CollectorReady, st_generation = ''g'', st_expectedNodes = [], st_expectedNodeUIDs = [],
     st_nodeContext = newNodeContextStore, st_volumes = newVolumeStore, st_nodeContextEnabled = False, st_replicasEnabled = True,
     st_inventoryKnown = False, st_inventoryUpdatedAt = 0\<rparr>"

definition demo_member :: "string \<Rightarrow> replica_member" where
  "demo_member name = \<lparr>me_Object = demo_pod name, me_Owners = [demo_workload], me_Node = ''n1'', me_NodeUID = ''n1-uid'',
     me_Revision = ''r1'', me_Shape = ''m'', me_Lifecycle = ''ready'', me_StableSince = second, me_Changes = ''current-stable'',
     me_PodBudget = mb_zero, me_Containers = [\<lparr>rk_Name = ''app'', rk_Role = '''', rk_ID = ''c'' @ name, rk_ImageDigest = '''',
       rk_StartedAt = second, rk_EndedAt = 0, rk_Configured = mb_zero, rk_Resources = cr_zero\<rparr>]\<rparr>"

definition demo_selection :: replica_selection where
  "demo_selection = \<lparr>se_Request = \<lparr>re_Scope = ''workload'', re_Namespace = ''shop'', re_Name = ''web'', re_Container = '''', re_WorkloadKind = ''Deployment''\<rparr>,
     se_Requested = demo_workload, se_Workload = demo_workload, se_Generation = 1, se_ResolvedAt = demo_time, se_EventState = '''',
     se_EventsTruncated = False, se_Members = map (demo_member \<circ> fst) demo_charges\<rparr>"

definition demo_names :: kube_names where
  "demo_names = \<lparr>kn_subdomain = (\<lambda>s. s \<noteq> ''''), kn_label = (\<lambda>s. s \<noteq> '''')\<rparr>"

definition demo_lib :: baseline_lib where
  "demo_lib = \<lparr>bl_names = demo_names, bl_report_bytes = (\<lambda>r. if list_all is_finite (report_numbers r) then Some 4096 else None)\<rparr>"

definition demo_hashes :: evidence_hashes where
  "demo_hashes = \<lparr>eh_fingerprint = (\<lambda>_ _. replicate 64 (CHR ''f'')), eh_shape = (\<lambda>_ _. replicate 64 (CHR ''a''))\<rparr>"

text \<open>The peers the collector projects, written out.\<close>

definition demo_peer :: "string \<times> f64 \<Rightarrow> replica_peer" where
  "demo_peer p = (first_peer demo_selection (demo_member (fst p)))\<lparr>pe_Shape := replicate 64 (CHR ''a''), pe_SampleState := ''available'',
     pe_CapturedAt := demo_time, pe_Values := [(''cgroup-charge'', \<lparr>mv_State = ''available'', mv_Number = snd p\<rparr>)]\<rparr>"

definition demo_input :: replica_input where
  "demo_input = \<lparr>ri_Workload = demo_workload, ri_ObservedAt = demo_time + second,
     ri_Peers = map demo_peer [(''a'', Fin 1048576), (''b'', Fin 1048576), (''c'', Fin 2097152), (''d'', Fin 1048576), (''e'', Fin 67108864)]\<rparr>"

definition charge_outliers :: "baseline_report \<Rightarrow> string list list" where
  "charge_outliers r = map (\<lambda>p. map cp_Outlier (filter (\<lambda>c. cp_Metric c = ''cgroup-charge'') (pr_Comparisons p))) (br_Peers r)"

lemma demo_evidence:
  "ReplicaEvidence demo_names demo_hashes (\<lambda>_. False) demo_selection (demo_time + second) demo_store = Inr demo_input"
  by code_simp

lemma demo_marshals: "marshals_finite_numbers demo_lib"
  by (simp add: marshals_finite_numbers_def demo_lib_def)

text \<open>The floors of the policies as numbers, for evaluation.\<close>

lemma policy_floors:
  "rnd64 (1 / 10) = Fin (3602879701896397 / 36028797018963968)" "rnd64 (1048576 / 60) = Fin (4803839602528529 / 274877906944)"
  "rnd64 (1 / 60) = Fin (4803839602528529 / 288230376151711744)"
  by code_simp+

lemmas policies_eval [code] = policies_def [unfolded policy_floors]

lemma demo_report:
  "let r = report_of demo_input in list_all is_finite (report_numbers r) \<and>
    charge_outliers r = [[''none''], [''none''], [''none''], [''none''], [''higher'']]"
  by code_simp

lemma demo_valid: "validate_replicas demo_names demo_input = None"
  by code_simp

lemma demo_analysed: "Analyse_replicas demo_lib demo_input = Inr (report_of demo_input)"
  using demo_report demo_valid by (simp add: Analyse_replicas_def demo_lib_def marshal_error_def MaxBaselineBytes_def Let_def)

theorem collected_report_validates_witness:
  "validate_baseline_report demo_lib (report_of demo_input) = None \<and>
   charge_outliers (report_of demo_input) = [[''none''], [''none''], [''none''], [''none''], [''higher'']]"
  using collected_report_validates [OF demo_marshals demo_evidence demo_analysed] demo_report by (simp add: Let_def)

theorem replica_order_irrelevant_witness:
  "Analyse_replicas demo_lib (demo_input\<lparr>ri_Peers := rev (ri_Peers demo_input)\<rparr>) = Inr (report_of demo_input)"
  using replica_order_irrelevant [OF demo_analysed, of "rev (ri_Peers demo_input)"] by simp

theorem replica_evidence_resolved_witness:
  "map pe_Object (ri_Peers demo_input) = map me_Object (se_Members demo_selection) \<and>
   (let p = member_peer demo_hashes demo_store demo_selection (demo_time + second) (demo_member ''a'')
    in p \<in> set (ri_Peers demo_input) \<and> pe_Values p \<noteq> [] \<and>
      (\<exists>node. mget (st_nodes demo_store) ''n1'' = Some node \<and> sn_uid node = ''n1-uid'' \<and>
        pe_Values p = fst (replicaValues (filter (of_member (demo_member ''a'')) (sn_containers node)) (sn_capturedAt node))))"
proof -
  let ?m = "demo_member ''a''"
  let ?p = "member_peer demo_hashes demo_store demo_selection (demo_time + second) ?m"
  have member: "?m \<in> set (se_Members demo_selection)" and fields: "me_Node ?m = ''n1''" "me_NodeUID ?m = ''n1-uid''"
    by (simp_all add: demo_selection_def demo_charges_def demo_member_def)
  have "length (pe_Values ?p) = 1"
    by code_simp
  then have "pe_Values ?p \<noteq> []"
    by auto
  moreover note resolved_all = replica_evidence_resolved [OF demo_evidence]
  from bspec [OF conjunct2 [OF resolved_all] member] have "?p \<in> set (ri_Peers demo_input) \<and>
      (pe_Values ?p \<noteq> [] \<longrightarrow> (\<exists>node. mget (st_nodes demo_store) ''n1'' = Some node \<and> sn_uid node = ''n1-uid'' \<and>
        pe_Values ?p = fst (replicaValues (filter (of_member ?m) (sn_containers node)) (sn_capturedAt node))))"
    unfolding Let_def fields by blast
  ultimately show ?thesis
    using conjunct1 [OF resolved_all] unfolding Let_def by blast
qed

end
