(* ===== verification/Spec2Isabelle.thy ===== *)
theory Spec2Isabelle
  imports Ingestion_Properties Aggregate_Properties Page_Properties History_Properties Wire_Properties Session_Properties Trace_Properties Analysis_Properties Replica_Properties
begin

text \<open>
  A verification library for kube-memlens, a tool that observes the memory of Kubernetes Pods and Nodes. Agents on the
  Nodes read cgroups and post snapshots; a collector keeps the latest evidence of every Node in memory, with bounded
  history, and answers lists, pages, histories, analyses and comparisons; incident sessions keep a timeline beside it; and
  traces of a Pod pass an admission. The core of the program is the collector and what it stores and promises, and that is
  what is modelled. Paths below are under \<^verbatim>\<open>src/internal/\<close>.

  \<^bold>\<open>Language.\<close> \<open>Go_Prelude\<close> has machine integers (\<open>u64\<close> is a 64-bit word that wraps; \<open>int64\<close> values are
  integers with the wrap or saturation written out), instants and durations with the saturating \<open>Time.Sub\<close>, and Go maps as
  association lists (\<open>mget\<close>, \<open>mput\<close>). \<open>Go_Text\<close> has UTF-8, \<open>Go_Sort\<close> the sorting functions, \<open>Go_Heap\<close>
  \<^verbatim>\<open>container/heap\<close>, \<open>Go_Float\<close> and \<open>Go_Float_Arith\<close> binary64 values as rationals with rounding to
  nearest even (the two zeros are one value). Errors are values: a raise or an early return is a branch of a sum or an option.

  \<^bold>\<open>The parts and their theories.\<close>

    \<^item> Data: \<open>Memory_Model\<close> and \<open>Resources\<close> (\<^verbatim>\<open>model\<close>), \<open>Api_Types\<close> (\<^verbatim>\<open>api/types.go\<close>),
      \<open>Snapshot_Validation\<close>, \<open>Incident_Documents\<close>.
    \<^item> Evidence of a Node: \<open>Node_Observation\<close> (\<^verbatim>\<open>nodecontext\<close>), \<open>Memory_Topology\<close>, \<open>Volume_Context\<close>.
    \<^item> The store: \<open>Pod_History\<close> with \<open>Replica_Continuity\<close>, \<open>Node_Context\<close>, and \<open>Collector_Store\<close> with
      every operation that changes it (\<^verbatim>\<open>collector/store.go\<close>, \<^verbatim>\<open>node_context.go\<close>, \<^verbatim>\<open>node_identity.go\<close>,
      \<^verbatim>\<open>topology.go\<close>, \<^verbatim>\<open>volume_context.go\<close>). \<open>Store_Run\<close> makes it a system of steps,
      \<open>Store_Invariant\<close> has what every step keeps, \<open>Store_Reads\<close> the reads.
    \<^item> Ingestion: \<open>Ingestion\<close> is the coordinator (\<^verbatim>\<open>extension/coordinator.go\<close>) that authenticates producers, owns
      Nodes and orders requests before they reach the store; \<open>Ingestion_Run\<close> runs both together.
    \<^item> Answers: \<open>Aggregates\<close> (\<^verbatim>\<open>aggregate\<close>), \<open>Store_Pages\<close> (\<^verbatim>\<open>collector/pagination.go\<close> and the scoped
      pages), \<open>Memory_History\<close> (the contract) with \<open>Collector_History\<close> (its provider), \<open>Change_Markers\<close>.
    \<^item> Analyses: \<open>Node_Analysis\<close> (\<^verbatim>\<open>nodeanalysis\<close>), \<open>Replica_Baseline\<close> and \<open>Replica_Report\<close>
      (\<^verbatim>\<open>replicabaseline\<close>) with \<open>Replica_Evidence\<close>, the collector as their source.
    \<^item> Wire: \<open>Json_Walk\<close> is the token walk that eleven packages repeat, \<open>Wire_Policies\<close> its instances.
    \<^item> Incident sessions: \<open>Incident_Session\<close>, \<open>Session_Evidence\<close>, \<open>Session_Store\<close>, \<open>Session_Export\<close>,
      \<open>Session_Syntax\<close>; \<open>Session_Run\<close> and \<open>Session_System\<close> run the store.
    \<^item> Traces: \<open>Trace_Reference\<close>, \<open>Trace_Request\<close>, \<open>Trace_Manager\<close> (each critical section),
      \<open>Trace_Admission\<close> (each operation as a stack of frames between critical sections), \<open>Trace_Run\<close> and
      \<open>Trace_System\<close> (any interleaving of them with the expiry loop, and the handles that exist on the Nodes).

  \<^bold>\<open>What the lemmas show.\<close> The theories that end in \<open>Properties\<close>, and the component theories where a property needs no
  other component, hold the numbered properties.

    \<^item> Ingestion: accepted sequences increase, a resent request is answered from memory, a refused request changes nothing,
      ownership is a bijection, every request is answered, and capacity returns when agents leave.
    \<^item> Store: counters and limits are exact in every reachable state; a snapshot, a report and an inventory change exactly
      what they name; a history or a window that is reported complete is covered by retained points; retention keeps exactly
      the unexpired evidence.
    \<^item> Answers: the summary accumulator refines the full aggregation and conserves memory; the bounded heap selects what
      sorting would; a client that follows page tokens sees every container once; an answered history passes the validation of
      the client; a bounded walk accepts exactly the trees within its limits.
    \<^item> Analyses: sums are exact or withheld, estimates need complete and qualified evidence; a replica report passes the
      receiver's validation, which recomputes it, and is measured over the resolved containers only.
    \<^item> Sessions: what is exported is valid, the sanitised form is valid and independent of what is private, nobody touches a
      foreign session, and a failed action keeps every timeline.
    \<^item> Traces: open handles stay within the quotas under any interleaving, a clean shutdown leaves none, admissions are
      within the policy.

  \<^bold>\<open>Interfaces.\<close> \<open>keyed_map\<close> (interpreted as \<open>gm\<close>) is the contract of a Go map that the bounded tables rest on;
  \<open>shrinking_loop\<close> (\<open>bytes_room\<close>, \<open>series_room\<close>) that of an eviction loop; \<open>max_queue\<close>
  (\<open>digest_heap\<close>) that of the heap behind the page selection; \<open>step_system\<close> that of a component that changes by steps,
  interpreted for the store, the coordinator, the replay guard, the sessions and the trace manager.

  \<^bold>\<open>Loops and fuel.\<close> Loops over slices are structural. The two eviction loops of the Node history run until a bound
  holds; they are \<open>while_option\<close>, whose \<open>None\<close> becomes \<open>NoReturn\<close> of the store and \<open>Unreturned\<close> of the
  coordinator, and neither happens in a reachable state, because each round removes a point or a series. The recursive walks
  have the number of tokens as fuel (\<open>walk_fuel\<close>); \<open>Exhausted\<close> and \<open>SyntaxUnreturned\<close>, the lack of it, are
  proved impossible. A client that follows pages has a number of requests, and the property says that some number is enough.

  \<^bold>\<open>Parameters.\<close> JSON encoders and decoders of \<^verbatim>\<open>encoding/json\<close>, SHA-256, the DNS name checks and the quantity
  parser of Kubernetes, clock readings, cancellation of contexts, random identifiers, the authoriser, the resolver and the
  Nodes' answers to a trace. Where a property needs something of them it is a hypothesis with its witness: a codec reads back
  what it wrote, different pages have different digests, \<open>json.Marshal\<close> refuses infinities and NaN.

  \<^bold>\<open>Not modelled.\<close> The agents, cgroup and kubelet readers and the Kubernetes clients, whose input is the kernel or an API
  server; HTTP routing, TLS and the clients; the command line, the terminal interface and the views; the metrics text format;
  the tracing engine, its streams and audit sinks. Explanations and recommendations, the client's observation model and the
  incident files hold logic of their own that is not covered yet. A mutex is not modelled where an operation holds it
  throughout; the trace manager, which releases it between the parts of an operation, is modelled with its interleavings.
\<close>

end
